(* ===== verification/Prelude.thy ===== *)
theory Prelude
  imports Main "HOL-Library.Word" "HOL-Library.Monad_Syntax"
begin

text \<open>
  Shared vocabulary of the development: machine integer types, the model of bounded C
  buffers (an access outside the buffer has no value), little-endian encodings, the
  byte operations \<^verbatim>\<open>memcpy\<close> and \<^verbatim>\<open>memset\<close>, and the generic
  lemmas on lists, options and words that the component theories use.
\<close>

unbundle bit_operations_syntax

section \<open>Machine integers\<close>

type_synonym u8 = "8 word"
type_synonym u16 = "16 word"
type_synonym u32 = "32 word"

named_theorems mem_simps \<open>rewrite rules for bounded buffers\<close>
named_theorems reg_simps \<open>rewrite rules for register contents\<close>

section \<open>Bounded buffers\<close>

text \<open>
  A C array or heap block of known size is a list. Reading or writing it outside its
  bounds is undefined in C and is \<^term>\<open>None\<close> here, so a definition that returns
  \<^term>\<open>Some\<close> has touched no byte outside its buffers.
\<close>

definition mem_get :: "'a list \<Rightarrow> nat \<Rightarrow> 'a option" where
  "mem_get d i = (if i < length d then Some (d ! i) else None)"

definition mem_put :: "'a list \<Rightarrow> nat \<Rightarrow> 'a \<Rightarrow> 'a list option" where
  "mem_put d i c = (if i < length d then Some (d[i := c]) else None)"

lemma mem_get_in [mem_simps]: "i < length d \<Longrightarrow> mem_get d i = Some (d ! i)"
  by (simp add: mem_get_def)

lemma mem_get_out [mem_simps]: "length d \<le> i \<Longrightarrow> mem_get d i = None"
  by (simp add: mem_get_def)

lemma mem_put_in [mem_simps]: "i < length d \<Longrightarrow> mem_put d i c = Some (d[i := c])"
  by (simp add: mem_put_def)

lemma mem_put_out [mem_simps]: "length d \<le> i \<Longrightarrow> mem_put d i c = None"
  by (simp add: mem_put_def)

lemma mem_get_SomeD: "mem_get d i = Some c \<Longrightarrow> i < length d \<and> d ! i = c"
  by (simp add: mem_get_def split: if_splits)

lemma mem_put_SomeD: "mem_put d i c = Some d' \<Longrightarrow> i < length d \<and> d' = d[i := c]"
  by (auto simp: mem_put_def split: if_splits)

lemma mem_put_length: "mem_put d i c = Some d' \<Longrightarrow> length d' = length d"
  by (auto dest: mem_put_SomeD)

lemma mem_get_split [mem_simps]: "mem_get (xs @ c # ys) (length xs) = Some c"
  by (simp add: mem_get_def)

lemma mem_get_split_Suc [mem_simps]: "mem_get (xs @ c # c' # ys) (Suc (length xs)) = Some c'"
  by (simp add: mem_get_def nth_append)

lemma mem_put_split [mem_simps]: "mem_put (xs @ c # ys) (length xs) c' = Some (xs @ c' # ys)"
  by (simp add: mem_put_def)

lemma mem_put_split_Suc [mem_simps]:
  "mem_put (xs @ c # c' # ys) (Suc (length xs)) c'' = Some (xs @ c # c'' # ys)"
  by (simp add: mem_put_def list_update_append)

text \<open>\<^verbatim>\<open>memcpy (d + i, s, length s)\<close> and
  \<^verbatim>\<open>memset (d, c, n)\<close> on a bounded buffer.\<close>

definition mem_copy :: "'a list \<Rightarrow> nat \<Rightarrow> 'a list \<Rightarrow> 'a list option" where
  "mem_copy d i s =
     (if i + length s \<le> length d then Some (take i d @ s @ drop (i + length s) d) else None)"

definition mem_sub :: "'a list \<Rightarrow> nat \<Rightarrow> nat \<Rightarrow> 'a list option" where
  "mem_sub d i n = (if i + n \<le> length d then Some (take n (drop i d)) else None)"

lemma mem_copy_length: "mem_copy d i s = Some d' \<Longrightarrow> length d' = length d"
  by (auto simp: mem_copy_def split: if_splits)

lemma mem_sub_length: "mem_sub d i n = Some s \<Longrightarrow> length s = n"
  by (auto simp: mem_sub_def split: if_splits)

lemma mem_sub_copy_same: "mem_copy d i s = Some d' \<Longrightarrow> mem_sub d' i (length s) = Some s"
  by (auto simp: mem_copy_def mem_sub_def split: if_splits)

lemma mem_sub_copy_disjoint:
  assumes "mem_copy d i s = Some d'" and "j + n \<le> i \<or> i + length s \<le> j"
  shows "mem_sub d' j n = mem_sub d j n"
proof -
  from assms(1) have b: "i + length s \<le> length d"
    and d': "d' = take i d @ s @ drop (i + length s) d"
    by (auto simp: mem_copy_def split: if_splits)
  have len: "length d' = length d" using b d' by simp
  have "take n (drop j d') = take n (drop j d)"
    using assms(2)
  proof
    assume "j + n \<le> i"
    then show ?thesis using b by (auto simp add: d' drop_take min_def)
  next
    assume "i + length s \<le> j"
    then show ?thesis using b by (simp add: d')
  qed
  with len show ?thesis by (simp add: mem_sub_def)
qed

section \<open>Little-endian encodings\<close>

definition le16_of :: "u16 \<Rightarrow> u8 list" where
  "le16_of w = [ucast w, ucast (drop_bit 8 w)]"

definition le16_to :: "u8 \<Rightarrow> u8 \<Rightarrow> u16" where
  "le16_to b0 b1 = ucast b0 OR push_bit 8 (ucast b1)"

definition le32_of :: "u32 \<Rightarrow> u8 list" where
  "le32_of w = [ucast w, ucast (drop_bit 8 w), ucast (drop_bit 16 w), ucast (drop_bit 24 w)]"

definition le32_to :: "u8 list \<Rightarrow> u32" where
  "le32_to bs = (case bs of
       [b0, b1, b2, b3] \<Rightarrow>
         ucast b0 OR push_bit 8 (ucast b1) OR push_bit 16 (ucast b2) OR push_bit 24 (ucast b3)
     | _ \<Rightarrow> 0)"

lemma length_le32_of [simp]: "length (le32_of w) = 4"
  by (simp add: le32_of_def)

lemma le32_to_of [simp]: "le32_to (le32_of w) = w"
proof (rule bit_word_eqI)
  fix n assume "n < LENGTH(32)"
  then consider "n < 8" | "8 \<le> n" "n < 16" | "16 \<le> n" "n < 24" | "24 \<le> n" "n < 32"
    by (metis not_less len_num0 len_bit0 len_num1 mult_2 numeral_Bit0 numeral_One one_add_one)
  then show "bit (le32_to (le32_of w)) n = bit w n"
    by cases (simp_all add: le32_to_def le32_of_def bit_or_iff bit_push_bit_iff bit_ucast_iff bit_drop_bit_eq less_diff_conv2)
qed

lemma le16_to_of [simp]: "le16_to (ucast w) (ucast (drop_bit 8 w)) = w"
proof (rule bit_word_eqI)
  fix n assume "n < LENGTH(16)"
  then show "bit (le16_to (ucast w) (ucast (drop_bit 8 w))) n = bit w n"
    by (cases "n < 8")
       (simp_all add: le16_to_def bit_or_iff bit_push_bit_iff bit_ucast_iff bit_drop_bit_eq
          less_diff_conv2)
qed

lemma xor_left_cancel: "a XOR b = a XOR c \<longleftrightarrow> b = (c :: 'a::len word)"
  by (metis xor.assoc xor.left_neutral xor_self_eq)

lemma ucast_u8_u32_inj: "(ucast b :: u32) = ucast b' \<longleftrightarrow> b = (b' :: u8)"
proof
  assume h: "(ucast b :: u32) = ucast b'"
  show "b = b'"
  proof (rule bit_word_eqI)
    fix n assume "n < LENGTH(8)"
    moreover from h have "bit (ucast b :: u32) n = bit (ucast b' :: u32) n" by simp
    ultimately show "bit b n = bit b' n" by (simp add: bit_ucast_iff)
  qed
qed simp

section \<open>Register fields\<close>

text \<open>The read-modify-write idiom of the drivers: clear the field \<open>m << k\<close>, then set
  \<open>v << k\<close>; and the idiom that reads a field.\<close>

definition put_bits :: "nat \<Rightarrow> u32 \<Rightarrow> u32 \<Rightarrow> u32 \<Rightarrow> u32" where
  "put_bits k m v w = (w AND NOT (push_bit k m)) OR push_bit k v"

definition get_bits :: "nat \<Rightarrow> u32 \<Rightarrow> u32 \<Rightarrow> u32" where
  "get_bits k m w = drop_bit k w AND m"

lemma mask_2_u32: "(3 :: u32) = mask 2"
  by (simp add: mask_eq_exp_minus_1)

lemma mask_1_u32: "(1 :: u32) = mask 1"
  by (simp add: mask_eq_exp_minus_1)

lemma get_put_same:
  fixes v w :: u32
  assumes "v AND mask n = v" and "k + n \<le> 32"
  shows "get_bits k (mask n) (put_bits k (mask n) v w) = v"
proof (rule bit_word_eqI)
  fix i assume "i < LENGTH(32)"
  have v: "bit v i = (bit v i \<and> i < n)"
    using assms(1) by (metis bit_and_iff bit_mask_iff)
  show "bit (get_bits k (mask n) (put_bits k (mask n) v w)) i = bit v i"
    using assms(2) v
    by (auto simp: get_bits_def put_bits_def bit_and_iff bit_or_iff bit_not_iff bit_drop_bit_eq bit_push_bit_iff bit_mask_iff)
qed

lemma get_put_other:
  fixes v w :: u32
  assumes "v AND mask n = v" and "j + n' \<le> k \<or> k + n \<le> j"
  shows "get_bits j (mask n') (put_bits k (mask n) v w) = get_bits j (mask n') w"
proof (rule bit_word_eqI)
  fix i assume i: "i < LENGTH(32)"
  have v: "bit v l \<Longrightarrow> l < n" for l
    using assms(1) by (metis bit_and_iff bit_mask_iff)
  have "bit w (j + i) \<Longrightarrow> j + i < 32" using bit_imp_le_length [of w "j + i"] by simp
  then show "bit (get_bits j (mask n') (put_bits k (mask n) v w)) i = bit (get_bits j (mask n') w) i"
    using assms(2) v [of "j + i - k"] i
    by (auto simp: get_bits_def put_bits_def bit_and_iff bit_or_iff bit_not_iff bit_drop_bit_eq bit_push_bit_iff bit_mask_iff)
qed

lemma bit_put_bits:
  "bit (put_bits k m v w) i \<longleftrightarrow>
     i < 32 \<and> (bit w i \<and> \<not> (k \<le> i \<and> bit m (i - k)) \<or> k \<le> i \<and> bit v (i - k))"
proof -
  have "bit w i \<Longrightarrow> i < 32" using bit_imp_le_length [of w i] by simp
  then show ?thesis
    by (auto simp: put_bits_def bit_and_iff bit_or_iff bit_not_iff bit_push_bit_iff)
qed

section \<open>Lists\<close>

lemma nth_mem_take: "i < n \<Longrightarrow> n \<le> length xs \<Longrightarrow> xs ! i \<in> set (take n xs)"
  by (auto simp: in_set_conv_nth intro!: exI [of _ i])

lemma list_update_same_prefix: "n \<le> i \<Longrightarrow> take n (xs[i := x]) = take n xs"
  by (simp add: take_update_cancel)

section \<open>Results\<close>

text \<open>Error codes of the kernel; a function that fails returns one, mostly negated.\<close>

definition ENOENT :: int where "ENOENT = 2"
definition EIO :: int where "EIO = 5"
definition ENOMEM :: int where "ENOMEM = 12"
definition EFAULT :: int where "EFAULT = 14"
definition EBUSY :: int where "EBUSY = 16"
definition EINVAL :: int where "EINVAL = 22"
definition EROFS :: int where "EROFS = 30"
definition ENETUNREACH :: int where "ENETUNREACH = 101"
definition ECONNREFUSED :: int where "ECONNREFUSED = 111"

lemma case_sum_Inr_iff:
  "(case y of Inl a \<Rightarrow> Some (Inl a) | Inr q \<Rightarrow> f q) = Some (Inr x) \<longleftrightarrow>
   (\<exists>q. y = Inr q \<and> f q = Some (Inr x))"
  by (cases y) auto

lemma case_sum_Inl_iff:
  "(case y of Inl a \<Rightarrow> Some (Inl a) | Inr q \<Rightarrow> f q) = Some (Inl x) \<longleftrightarrow>
   y = Inl x \<or> (\<exists>q. y = Inr q \<and> f q = Some (Inl x))"
  by (cases y) auto

section \<open>State machines\<close>

text \<open>A property that every step keeps holds in every state that can be reached.\<close>

locale kept =
  fixes step :: "'s \<Rightarrow> 's \<Rightarrow> bool" and inv :: "'s \<Rightarrow> bool"
  assumes step_keeps: "step s s' \<Longrightarrow> inv s \<Longrightarrow> inv s'"
begin

lemma reach_keeps: "step\<^sup>*\<^sup>* s s' \<Longrightarrow> inv s \<Longrightarrow> inv s'"
  by (induction rule: rtranclp_induct) (auto intro: step_keeps)

end

lemma unat_u8_less: "unat (w :: u8) < 256"
  using unsigned_less [of w, where ?'a = nat] by simp

end
