(* ===== verification/Crc32_Spec.thy ===== *)
theory Crc32_Spec
  imports Crc32
begin

text \<open>
  Correctness of the table-driven CRC-32: the static table is the generated one, the
  byte step equals eight steps of the shift register, the routine equals the bit-serial
  CRC of the polynomial, it can be computed in pieces, and a change confined to one byte
  of the buffer always changes the checksum.
\<close>

unbundle bit_operations_syntax

section \<open>The table\<close>

lemma crc_poly_value: "crc_poly = 0xedb88320"
  by (simp add: crc_poly_def crc_poly_terms_def)

lemma funpow_8: "(f ^^ 8) x = f (f (f (f (f (f (f (f x)))))))"
  by (simp add: eval_nat_numeral)

lemma upt_256: "[0..<256] = 0 # 1 # [2..<256]"
proof -
  have "[0..<256] = 0 # [Suc 0..<256]" by (rule upt_conv_Cons) simp
  also have "[Suc 0..<256] = Suc 0 # [Suc (Suc 0)..<256]" by (rule upt_conv_Cons) simp
  finally show ?thesis by (simp only: One_nat_def numeral_2_eq_2)
qed

lemma make_crc_table_eval: "make_crc_table = crc_table"
  unfolding make_crc_table_def upt_256
  by (simp, simp only: funpow_8 crc_table_def, simp add: crc_shift_def crc_poly_value)

section \<open>The shift register\<close>

text \<open>The bit-serial CRC of the generator polynomial: every byte is added to the register,
  which is then shifted eight times.\<close>

definition crc_byte :: "u32 \<Rightarrow> u8 \<Rightarrow> u32" where
  "crc_byte crc b = (crc_shift ^^ 8) (crc XOR ucast b)"

definition crc32_ref :: "u32 \<Rightarrow> u8 list \<Rightarrow> u32" where
  "crc32_ref crc buf = NOT (foldl crc_byte (NOT crc) buf)"

lemma crc_shift_if_odd: "crc_shift c = (if bit c 0 then crc_poly else 0) XOR drop_bit 1 c"
  by (simp add: crc_shift_def bit_0 and_one_eq odd_iff_mod_2_eq_one)

lemma crc_shift_xor: "crc_shift (a XOR b) = crc_shift a XOR crc_shift b"
  by (simp add: crc_shift_if_odd bit_xor_iff drop_bit_xor ac_simps)

lemma crc_shift_funpow_xor: "(crc_shift ^^ n) (a XOR b) = (crc_shift ^^ n) a XOR (crc_shift ^^ n) b"
  by (induction n) (simp_all add: crc_shift_xor)

lemma crc_shift_funpow_low_zero:
  "(\<forall>i<n. \<not> bit c i) \<Longrightarrow> (crc_shift ^^ n) c = drop_bit n c"
proof (induction n)
  case (Suc n)
  then have "(crc_shift ^^ n) c = drop_bit n c" by simp
  moreover have "\<not> bit (drop_bit n c) 0" using Suc.prems by (simp add: bit_drop_bit_eq)
  ultimately have "crc_shift ((crc_shift ^^ n) c) = drop_bit 1 (drop_bit n c)"
    by (simp add: crc_shift_if_odd [of "drop_bit n c"])
  then show ?case by simp
qed simp

lemma split_low_byte: "(c :: u32) = take_bit 8 c XOR push_bit 8 (drop_bit 8 c)"
  by (rule bit_word_eqI) (auto simp: bit_xor_iff bit_take_bit_iff bit_push_bit_iff bit_drop_bit_eq)

lemma and_ff: "(c :: u32) AND 0xff = take_bit 8 c"
  by (simp add: take_bit_eq_mask mask_eq_exp_minus_1)

lemma drop_push: "drop_bit 8 (push_bit 8 (drop_bit 8 c)) = drop_bit 8 (c :: u32)"
  by (rule bit_word_eqI) (auto simp: bit_drop_bit_eq bit_push_bit_iff dest: bit_imp_le_length)

lemma unat_take_bit_8: "unat (take_bit 8 (c :: u32)) < 256"
  using take_bit_nat_less_exp [of 8 "unat c"] by (simp add: unsigned_take_bit_eq)

lemma crc_table_nth:
  assumes "n < 256"
  shows "crc_table ! n = (crc_shift ^^ 8) (of_nat n)"
proof -
  have "make_crc_table ! n = (crc_shift ^^ 8) (of_nat ([0..<256] ! n))"
    unfolding make_crc_table_def by (rule nth_map) (simp only: length_upt diff_zero assms)
  also have "[0..<256] ! n = n"
    using nth_upt [of 0 n 256] assms by (simp only: add_0)
  finally show ?thesis by (simp only: make_crc_table_eval)
qed

lemma DO1_crc_byte: "DO1 crc b = crc_byte crc b"
proof -
  let ?x = "crc XOR ucast b"
  have lt: "unat (take_bit 8 ?x) < 256"
    by (rule unat_take_bit_8)
  have hi: "(crc_shift ^^ 8) (push_bit 8 (drop_bit 8 ?x)) = drop_bit 8 ?x"
    by (subst crc_shift_funpow_low_zero)
       (auto simp: bit_xor_iff bit_push_bit_iff drop_push)
  have db: "drop_bit 8 ?x = drop_bit 8 crc"
    by (rule bit_word_eqI)
       (auto simp: bit_drop_bit_eq bit_xor_iff bit_ucast_iff dest: bit_imp_le_length)
  have "crc_byte crc b = (crc_shift ^^ 8) (take_bit 8 ?x XOR push_bit 8 (drop_bit 8 crc))"
    unfolding crc_byte_def by (simp only: split_low_byte [symmetric] flip: db)
  also have "\<dots> = (crc_shift ^^ 8) (take_bit 8 ?x) XOR drop_bit 8 crc"
    by (simp only: crc_shift_funpow_xor hi [unfolded db])
  also have "(crc_shift ^^ 8) (take_bit 8 ?x) = crc_table ! unat (take_bit 8 ?x)"
    using lt by (simp add: crc_table_nth)
  finally show ?thesis by (simp only: DO1_def and_ff)
qed

lemma xor_ones: "(c :: u32) XOR 0xffffffff = NOT c"
proof -
  have ones: "(0xffffffff :: u32) = -1" by simp
  show ?thesis unfolding ones by (intro bit_word_eqI) (simp add: bit_xor_iff bit_not_iff)
qed

lemma crc32_eq_ref: "crc32 crc buf = crc32_ref crc buf"
proof -
  have "DO1 = crc_byte" by (intro ext DO1_crc_byte)
  then show ?thesis by (simp only: crc32_foldl crc32_ref_def xor_ones)
qed

section \<open>Error detection\<close>

lemma crc_shift_inj: "crc_shift a = crc_shift b \<Longrightarrow> a = b"
proof -
  assume eq: "crc_shift a = crc_shift b"
  have top: "bit (crc_shift c) 31 = bit c 0" for c
    by (simp add: crc_shift_if_odd bit_xor_iff bit_drop_bit_eq crc_poly_value)
       (auto dest: bit_imp_le_length)
  from eq top [of a] top [of b] have b0: "bit a 0 = bit b 0" by simp
  with eq have "drop_bit 1 a = drop_bit 1 b"
    by (simp add: crc_shift_if_odd xor_left_cancel split: if_splits)
  then have "bit a (Suc n) = bit b (Suc n)" for n
    by (metis bit_drop_bit_eq comp_apply plus_1_eq_Suc)
  with b0 show "a = b" by (intro bit_eqI) (metis old.nat.exhaust)
qed

lemma crc_shift_funpow_inj: "(crc_shift ^^ n) a = (crc_shift ^^ n) b \<Longrightarrow> a = b"
  by (induction n) (auto dest: crc_shift_inj)

lemma crc_byte_inj_crc:
  assumes "crc_byte c b = crc_byte c' b"
  shows "c = c'"
proof -
  from assms have "c XOR ucast b = c' XOR (ucast b :: u32)"
    unfolding crc_byte_def by (rule crc_shift_funpow_inj)
  then have "ucast b XOR c = ucast b XOR c'" by (simp only: xor.commute)
  then show ?thesis by (simp only: xor_left_cancel)
qed

lemma crc_byte_inj_byte: "crc_byte c b = crc_byte c b' \<Longrightarrow> b = b'"
proof -
  assume "crc_byte c b = crc_byte c b'"
  then have "c XOR ucast b = c XOR (ucast b' :: u32)"
    unfolding crc_byte_def by (rule crc_shift_funpow_inj)
  then show "b = b'" by (simp only: xor_left_cancel ucast_u8_u32_inj)
qed

lemma foldl_crc_byte_inj: "foldl crc_byte c buf = foldl crc_byte c' buf \<Longrightarrow> c = c'"
  by (induction buf arbitrary: c c') (simp, metis crc_byte_inj_crc foldl_Cons)

section \<open>Properties\<close>

text \<open>C3. The checksum routine of the environment tools computes CRC-32: the table-driven
  loop, unrolled eight times with a remainder loop, gives for every start value and every
  buffer the value of the bit-serial shift register over the generator polynomial.\<close>

theorem crc32_correct: "crc32 crc buf = NOT (foldl crc_byte (NOT crc) buf)"
  by (simp only: crc32_eq_ref crc32_ref_def)

text \<open>A change confined to one byte of a buffer, whatever the bytes before and after it,
  always changes the checksum: the stored CRC detects it.\<close>

theorem crc32_detects_byte_change:
  assumes "b \<noteq> b'"
  shows "crc32 crc (xs @ b # ys) \<noteq> crc32 crc (xs @ b' # ys)"
proof
  assume "crc32 crc (xs @ b # ys) = crc32 crc (xs @ b' # ys)"
  then have "crc_byte (foldl crc_byte (NOT crc) xs) b = crc_byte (foldl crc_byte (NOT crc) xs) b'"
    by (auto simp: crc32_eq_ref crc32_ref_def dest: foldl_crc_byte_inj)
  then show False using assms by (auto dest: crc_byte_inj_byte)
qed

theorem crc32_detects_byte_change_witness:
  "crc32 0 ([1, 2] @ 3 # [4]) \<noteq> crc32 0 ([1, 2] @ 7 # [4])"
  by (rule crc32_detects_byte_change) simp

end
