(* ===== verification/FwEnv.thy ===== *)
theory FwEnv
  imports Prelude
begin

text \<open>
  The U-Boot environment block in memory, \<^verbatim>\<open>uboot-tools/files/fw_env.c\<close>: the
  buffer \<open>environment.data\<close> holds NUL-terminated strings \<open>name=value\<close> and ends with an
  empty string. This theory models the searches and edits that \<open>fw_getenv\<close>,
  \<open>fw_printenv\<close> and \<open>fw_setenvs\<close> perform on it byte by byte, and proves that they
  implement a finite map from names to values. A pointer into the buffer is an index; a read
  or write outside it has no value. The argument vector is a list of C strings without
  their terminators.
\<close>

section \<open>Operations on the buffer\<close>

text \<open>\<open>envmatch\<close>: the comparison loop, over the two strings and the positions reached.\<close>

function envmatch :: "u8 list \<Rightarrow> nat \<Rightarrow> u8 list \<Rightarrow> nat \<Rightarrow> nat option option" where
  "envmatch s1 i s2 j = do {
     a \<leftarrow> mem_get s1 i;
     b \<leftarrow> mem_get s2 j;
     if a = b then (if a = 61 then Some (Some (Suc j)) else envmatch s1 (Suc i) s2 (Suc j))
     else if a = 0 \<and> b = 61 then Some (Some (Suc j)) else Some None }"
  by pat_completeness auto
termination
  by (relation "measure (\<lambda>(s1, i, s2, j). length s1 - i)") (auto dest: mem_get_SomeD)

declare envmatch.simps [simp del]

text \<open>The inner loop of every search: advance to the end of the current string. The bound
  test comes after the byte at the position has been read.\<close>

function strend :: "u8 list \<Rightarrow> nat \<Rightarrow> nat \<Rightarrow> nat option option" where
  "strend d sz nxt = do {
     c \<leftarrow> mem_get d nxt;
     if c = 0 then Some (Some nxt)
     else if sz \<le> nxt then Some None
     else strend d sz (Suc nxt) }"
  by pat_completeness auto
termination
  by (relation "measure (\<lambda>(d, sz, nxt). length d - nxt)") (auto dest: mem_get_SomeD)

declare strend.simps [simp del]

lemma strend_ge: "strend d sz nxt = Some (Some k) \<Longrightarrow> nxt \<le> k \<and> k < length d"
proof (induction d sz nxt rule: strend.induct)
  case (1 d sz nxt)
  from "1.prems" obtain c where c: "mem_get d nxt = Some c"
    by (subst (asm) strend.simps) (auto simp: bind_eq_Some_conv)
  then have lt: "nxt < length d" by (auto dest: mem_get_SomeD)
  show ?case
  proof (cases "c = 0 \<or> sz \<le> nxt")
    case True
    with "1.prems" c lt show ?thesis by (subst (asm) strend.simps) (auto split: if_splits)
  next
    case False
    with "1.prems" c have "strend d sz (Suc nxt) = Some (Some k)"
      by (subst (asm) strend.simps) auto
    with "1.IH" [OF c] False show ?thesis by simp
  qed
qed

text \<open>The search for a name: how it ended, with the positions of the string reached, of its
  terminator and of the value.\<close>

datatype search = Unterminated | Hit nat nat nat | Miss nat nat

function env_search :: "u8 list \<Rightarrow> nat \<Rightarrow> u8 list \<Rightarrow> nat \<Rightarrow> nat \<Rightarrow> search option" where
  "env_search d sz name env nxt = do {
     c \<leftarrow> mem_get d env;
     if c = 0 then Some (Miss env nxt)
     else do {
       r \<leftarrow> strend d sz env;
       case r of
         None \<Rightarrow> Some Unterminated
       | Some nxt' \<Rightarrow> do {
           v \<leftarrow> envmatch (name @ [0]) 0 d env;
           case v of
             Some val \<Rightarrow> Some (Hit env nxt' val)
           | None \<Rightarrow> env_search d sz name (Suc nxt') nxt' } } }"
  by pat_completeness auto
termination
  by (relation "measure (\<lambda>(d, sz, name, env, nxt). length d - env)")
     (auto dest: mem_get_SomeD strend_ge)

declare env_search.simps [simp del]

text \<open>The part of \<open>fw_getenv\<close> after \<open>env_init\<close>: the position of the value, or NULL.\<close>

definition getenv_data :: "u8 list \<Rightarrow> nat \<Rightarrow> u8 list \<Rightarrow> nat option option" where
  "getenv_data d sz name = do {
     r \<leftarrow> env_search d sz name 0 0;
     Some (case r of Hit env nxt val \<Rightarrow> Some val | _ \<Rightarrow> None) }"

text \<open>The C string at a position of the buffer.\<close>

definition c_string :: "u8 list \<Rightarrow> nat \<Rightarrow> u8 list" where
  "c_string d i = takeWhile (\<lambda>c. c \<noteq> 0) (drop i d)"

text \<open>Deletion of the definition at \<open>env\<close> whose terminator is at \<open>nxt\<close>: the strings
  behind it move down, or the end marker takes its place.\<close>

function env_shift :: "u8 list \<Rightarrow> nat \<Rightarrow> nat \<Rightarrow> (u8 list \<times> nat) option" where
  "env_shift d env nxt = do {
     c \<leftarrow> mem_get d nxt;
     d' \<leftarrow> mem_put d env c;
     c' \<leftarrow> mem_get d' (Suc nxt);
     if c = 0 \<and> c' = 0 then Some (d', env) else env_shift d' (Suc env) (Suc nxt) }"
  by pat_completeness auto
termination
  by (relation "measure (\<lambda>(d, env, nxt). length d - nxt)")
     (auto dest!: mem_put_length mem_get_SomeD)

declare env_shift.simps [simp del]

definition env_delete :: "u8 list \<Rightarrow> nat \<Rightarrow> nat \<Rightarrow> (u8 list \<times> nat) option" where
  "env_delete d env nxt = do {
     c \<leftarrow> mem_get d (Suc nxt);
     (d1, env1) \<leftarrow>
       (if c = 0 then do { d' \<leftarrow> mem_put d env 0; Some (d', env) }
        else env_shift d env (Suc nxt));
     d2 \<leftarrow> mem_put d1 (Suc env1) 0;
     Some (d2, Suc env1) }"

text \<open>The end of the environment: the first of two adjacent NUL bytes.\<close>

function find_end :: "u8 list \<Rightarrow> nat \<Rightarrow> nat option" where
  "find_end d env = do {
     c \<leftarrow> mem_get d env;
     if c \<noteq> 0 then find_end d (Suc env)
     else do {
       c' \<leftarrow> mem_get d (Suc env);
       if c' \<noteq> 0 then find_end d (Suc env) else Some env } }"
  by pat_completeness auto
termination
  by (relation "measure (\<lambda>(d, env). length d - env)") (auto dest: mem_get_SomeD)

declare find_end.simps [simp del]

text \<open>\<^verbatim>\<open>while ((*env = *s++) != 0) env++\<close>\<close>

fun copy_str :: "u8 list \<Rightarrow> nat \<Rightarrow> u8 list \<Rightarrow> (u8 list \<times> nat) option" where
  "copy_str d env [] = do { d' \<leftarrow> mem_put d env 0; Some (d', env) }"
| "copy_str d env (c # cs) = do { d' \<leftarrow> mem_put d env c; copy_str d' (Suc env) cs }"

text \<open>Appending \<open>name=value\<close>; \<^term>\<open>Inl\<close> carries the return code of the overflow branch.\<close>

definition env_append ::
  "u8 list \<Rightarrow> nat \<Rightarrow> u8 list \<Rightarrow> u8 list \<Rightarrow> (int + u8 list \<times> nat) option" where
  "env_append d sz name value = do {
     e \<leftarrow> find_end d 0;
     let env = (if e > 0 then Suc e else e);
         len = int (length name) + 2 + (int (length value) + 1)
     in if len > int sz - int env then Some (Inl (- 1))
        else do {
          (d1, env1) \<leftarrow> copy_str d env name;
          d2 \<leftarrow> mem_put d1 env1 61;
          (d3, env3) \<leftarrow> copy_str d2 (Suc env1) value;
          Some (Inr (d3, env3)) } }"

definition ethaddr :: "u8 list" where
  "ethaddr = map (of_nat \<circ> of_char) ''ethaddr''"

definition serial_no :: "u8 list" where
  "serial_no = map (of_nat \<circ> of_char) ''serial#''"

text \<open>
  One round of the loop of \<open>fw_setenvs\<close>. \<open>oldval\<close> tells whether the variable of that
  name is non-NULL when the round starts: the search assigns it only when it looks at a
  string, so an empty environment leaves the value of the previous round. \<open>value\<close> is
  \<^term>\<open>None\<close> for the NULL pointer behind the last argument. The result is a return code or
  the new buffer with \<open>oldval\<close>.
\<close>

definition setenv_pair ::
  "u8 list \<Rightarrow> nat \<Rightarrow> bool \<Rightarrow> u8 list \<Rightarrow> u8 list option \<Rightarrow> (int + u8 list \<times> bool) option" where
  "setenv_pair d sz oldval name value = do {
     r \<leftarrow> env_search d sz name 0 0;
     case r of
       Unterminated \<Rightarrow> Some (Inl EINVAL)
     | _ \<Rightarrow>
       let (env, nxt, old) =
         (case r of Hit e n v \<Rightarrow> (e, n, True) | Miss e n \<Rightarrow> (e, n, e = 0 \<and> oldval))
       in if old \<and> (name = ethaddr \<or> name = serial_no) then Some (Inl EROFS)
          else do {
            (d1, env1) \<leftarrow> (if old then env_delete d env nxt else Some (d, env));
            v \<leftarrow> value;
            if v \<noteq> [] then do {
              a \<leftarrow> env_append d1 sz name v;
              case a of
                Inl rc \<Rightarrow> Some (Inl rc)
              | Inr (d2, env2) \<Rightarrow> do {
                  d3 \<leftarrow> mem_put d2 (Suc env2) 0;
                  Some (Inr (d3, old)) } }
            else do {
              d3 \<leftarrow> mem_put d1 (Suc env1) 0;
              Some (Inr (d3, old)) } } }"

fun setenv_args ::
  "u8 list \<Rightarrow> nat \<Rightarrow> bool \<Rightarrow> u8 list list \<Rightarrow> (int + u8 list) option" where
  "setenv_args d sz oldval [] = Some (Inr d)"
| "setenv_args d sz oldval [name] = do {
     r \<leftarrow> setenv_pair d sz oldval name None;
     case r of Inl rc \<Rightarrow> Some (Inl rc) | Inr (d', old) \<Rightarrow> Some (Inr d') }"
| "setenv_args d sz oldval (name # value # args) = do {
     r \<leftarrow> setenv_pair d sz oldval name (Some value);
     case r of Inl rc \<Rightarrow> Some (Inl rc) | Inr (d', old) \<Rightarrow> setenv_args d' sz old args }"

text \<open>
  \<open>fw_printenv\<close> after \<open>env_init\<close>: the lines it writes. The argument vector includes
  the command name.
\<close>

datatype env_out =
    OutLine "u8 list"
  | ErrNotTerminated
  | ErrDashN
  | ErrNotDefined "u8 list"

function print_all :: "u8 list \<Rightarrow> nat \<Rightarrow> nat \<Rightarrow> env_out list option" where
  "print_all d sz env = do {
     c \<leftarrow> mem_get d env;
     if c = 0 then Some []
     else do {
       r \<leftarrow> strend d sz env;
       case r of
         None \<Rightarrow> Some [ErrNotTerminated]
       | Some nxt \<Rightarrow> do {
           out \<leftarrow> print_all d sz (Suc nxt);
           Some (OutLine (c_string d env) # out) } } }"
  by pat_completeness auto
termination
  by (relation "measure (\<lambda>(d, sz, env). length d - env)") (auto dest: mem_get_SomeD strend_ge)

declare print_all.simps [simp del]

fun print_names :: "u8 list \<Rightarrow> nat \<Rightarrow> bool \<Rightarrow> u8 list list \<Rightarrow> env_out list option" where
  "print_names d sz n_flag [] = Some []"
| "print_names d sz n_flag (name # names) = do {
     r \<leftarrow> env_search d sz name 0 0;
     case r of
       Unterminated \<Rightarrow> Some [ErrNotTerminated]
     | Hit env nxt val \<Rightarrow> do {
         out \<leftarrow> print_names d sz n_flag names;
         Some (OutLine ((if n_flag then [] else name @ [61]) @ c_string d val) # out) }
     | Miss env nxt \<Rightarrow> do {
         out \<leftarrow> print_names d sz n_flag names;
         Some (ErrNotDefined name # out) } }"

definition dash_n :: "u8 list" where
  "dash_n = map (of_nat \<circ> of_char) ''-n''"

definition printenv_data :: "u8 list \<Rightarrow> nat \<Rightarrow> u8 list list \<Rightarrow> env_out list option" where
  "printenv_data d sz argv =
     (case argv of
        [] \<Rightarrow> None
      | [cmd] \<Rightarrow> print_all d sz 0
      | cmd # arg1 # names \<Rightarrow>
          if arg1 = dash_n then
            (if length names \<noteq> 1 then Some [ErrDashN] else print_names d sz True names)
          else print_names d sz False (arg1 # names))"

text \<open>The edits never change the size of the buffer.\<close>

lemma env_shift_length: "env_shift d env nxt = Some (d', env') \<Longrightarrow> length d' = length d"
proof (induction d env nxt rule: env_shift.induct)
  case (1 d env nxt)
  from "1.prems" obtain c d1 c' where s: "mem_get d nxt = Some c" "mem_put d env c = Some d1"
    "mem_get d1 (Suc nxt) = Some c'"
    "(if c = 0 \<and> c' = 0 then Some (d1, env) else env_shift d1 (Suc env) (Suc nxt)) = Some (d', env')"
    by (subst (asm) env_shift.simps) (auto simp: bind_eq_Some_conv)
  show ?case
  proof (cases "c = 0 \<and> c' = 0")
    case False
    with "1.IH" [OF s(1-3) False] s(4) have "length d' = length d1" by simp
    with s(2) show ?thesis by (auto dest: mem_put_length)
  qed (use s in \<open>auto dest: mem_put_length\<close>)
qed

lemma env_delete_length: "env_delete d env nxt = Some (d', env') \<Longrightarrow> length d' = length d"
  by (auto simp: env_delete_def bind_eq_Some_conv split: if_splits
      dest!: mem_put_length env_shift_length)

lemma copy_str_length: "copy_str d env s = Some (d', env') \<Longrightarrow> length d' = length d"
  by (induction d env s rule: copy_str.induct) (auto simp: bind_eq_Some_conv dest: mem_put_length)

lemma env_append_length: "env_append d sz n v = Some (Inr (d', env')) \<Longrightarrow> length d' = length d"
  by (auto simp: env_append_def bind_eq_Some_conv Let_def split: if_splits
      dest!: mem_put_length copy_str_length)

lemma setenv_pair_length:
  assumes "setenv_pair d sz old name value = Some (Inr (d', old'))"
  shows "length d' = length d"
  using assms
  by (auto simp: setenv_pair_def bind_eq_Some_conv Let_def
      case_sum_Inr_iff split: if_splits search.splits
      dest!: mem_put_length env_append_length env_delete_length)

lemma setenv_args_length: "setenv_args d sz old args = Some (Inr d') \<Longrightarrow> length d' = length d"
proof (induction d sz old args rule: setenv_args.induct)
  case (2 d sz old name)
  then show ?case
    by (auto simp: bind_eq_Some_conv case_sum_Inr_iff dest!: setenv_pair_length)
next
  case (3 d sz old name v args)
  then obtain y where y: "setenv_pair d sz old name (Some v) = Some y"
    "(case y of Inl rc \<Rightarrow> Some (Inl rc) | Inr (d', old) \<Rightarrow> setenv_args d' sz old args) = Some (Inr d')"
    by (auto simp: bind_eq_Some_conv)
  then show ?case
    using "3.IH" [OF y(1)] by (cases y) (auto dest: setenv_pair_length)
qed simp

text \<open>A round that fails reports a code other than 0.\<close>

lemma env_append_err: "env_append d sz name v = Some (Inl rc) \<Longrightarrow> rc = - 1"
  by (auto simp: env_append_def bind_eq_Some_conv Let_def split: if_splits)

lemma setenv_pair_err: "setenv_pair d sz old name v = Some (Inl rc) \<Longrightarrow> rc \<noteq> 0"
  by (auto simp: setenv_pair_def bind_eq_Some_conv Let_def EINVAL_def EROFS_def case_sum_Inl_iff
      split: if_splits search.splits dest!: env_append_err)

lemma setenv_args_err: "setenv_args d sz old args = Some (Inl rc) \<Longrightarrow> rc \<noteq> 0"
proof (induction d sz old args rule: setenv_args.induct)
  case (2 d sz old name)
  then obtain y where y: "setenv_pair d sz old name None = Some y"
    "(case y of Inl rc \<Rightarrow> Some (Inl rc) | Inr (d', old) \<Rightarrow> Some (Inr d')) = Some (Inl rc)"
    by (auto simp: bind_eq_Some_conv)
  then show ?case by (cases y) (auto dest: setenv_pair_err)
next
  case (3 d sz old name v args)
  then obtain y where y: "setenv_pair d sz old name (Some v) = Some y"
    "(case y of Inl rc \<Rightarrow> Some (Inl rc) | Inr (d', old) \<Rightarrow> setenv_args d' sz old args) = Some (Inl rc)"
    by (auto simp: bind_eq_Some_conv)
  then show ?case
    using "3.IH" [OF y(1)] by (cases y) (auto dest: setenv_pair_err)
qed simp

section \<open>The abstract environment\<close>

text \<open>
  The specification: a list of entries, each a string \<open>name=value\<close>, no NUL inside.
  \<open>env_rep d es\<close> says that the buffer \<open>d\<close> holds exactly the entries \<open>es\<close>.
\<close>

definition wf_entry :: "u8 list \<Rightarrow> bool" where
  "wf_entry e \<longleftrightarrow> 0 \<notin> set e \<and> 61 \<in> set e"

definition wf_name :: "u8 list \<Rightarrow> bool" where
  "wf_name n \<longleftrightarrow> 0 \<notin> set n \<and> 61 \<notin> set n"

definition entry_name :: "u8 list \<Rightarrow> u8 list" where
  "entry_name e = takeWhile (\<lambda>c. c \<noteq> 61) e"

definition entry_val :: "u8 list \<Rightarrow> u8 list" where
  "entry_val e = tl (dropWhile (\<lambda>c. c \<noteq> 61) e)"

definition flat :: "u8 list list \<Rightarrow> u8 list" where
  "flat es = concat (map (\<lambda>e. e @ [0]) es)"

definition env_rep :: "u8 list \<Rightarrow> u8 list list \<Rightarrow> bool" where
  "env_rep d es \<longleftrightarrow>
     (\<exists>rest. d = flat es @ 0 # rest \<and> (es = [] \<longrightarrow> take 1 rest = [0])) \<and>
     (\<forall>e \<in> set es. wf_entry e)"

definition env_lookup :: "u8 list list \<Rightarrow> u8 list \<Rightarrow> u8 list option" where
  "env_lookup es name = map_option entry_val (find (\<lambda>e. entry_name e = name) es)"

fun del_first :: "u8 list \<Rightarrow> u8 list list \<Rightarrow> u8 list list" where
  "del_first name [] = []"
| "del_first name (e # es) = (if entry_name e = name then es else e # del_first name es)"

lemma flat_simps [simp]: "flat [] = []" "flat (e # es) = e @ 0 # flat es"
  "flat (es @ fs) = flat es @ flat fs"
  by (simp_all add: flat_def)

lemma wf_entry_nonempty: "wf_entry e \<Longrightarrow> e \<noteq> []"
  by (auto simp: wf_entry_def)

lemma entry_split: "wf_entry e \<Longrightarrow> e = entry_name e @ 61 # entry_val e"
  unfolding wf_entry_def entry_name_def entry_val_def
  by (metis (mono_tags, lifting) dropWhile_eq_Nil_conv hd_dropWhile list.collapse
        takeWhile_dropWhile_id)

lemma wf_entry_make: "wf_name n \<Longrightarrow> 0 \<notin> set v \<Longrightarrow> wf_entry (n @ 61 # v)"
  by (simp add: wf_entry_def wf_name_def)

lemma entry_name_make [simp]: "wf_name n \<Longrightarrow> entry_name (n @ 61 # v) = n"
  unfolding wf_name_def entry_name_def by (induction n) auto

lemma entry_val_make [simp]: "wf_name n \<Longrightarrow> entry_val (n @ 61 # v) = v"
  unfolding wf_name_def entry_val_def by (induction n) auto

lemma entry_name_iff:
  "wf_entry e \<Longrightarrow> wf_name n \<Longrightarrow> entry_name e = n \<longleftrightarrow> (\<exists>v. e = n @ 61 # v)"
  using entry_split by force

section \<open>The searches\<close>

lemma strend_entry:
  assumes "0 \<notin> set e" and "length pre + length e \<le> sz"
  shows "strend (pre @ e @ 0 # post) sz (length pre) = Some (Some (length pre + length e))"
  using assms
proof (induction e arbitrary: pre)
  case Nil
  then show ?case by (subst strend.simps) (simp add: mem_simps)
next
  case (Cons c e)
  have "strend (pre @ (c # e) @ 0 # post) sz (length pre)
      = strend ((pre @ [c]) @ e @ 0 # post) sz (length (pre @ [c]))"
    using Cons.prems by (subst strend.simps) (simp add: mem_simps)
  also have "\<dots> = Some (Some (length (pre @ [c]) + length e))"
    by (rule Cons.IH) (use Cons.prems in auto)
  finally show ?case by simp
qed

lemma envmatch_split:
  assumes "wf_name n" and "wf_entry e"
  shows "envmatch (dn @ n @ [0]) (length dn) (pre @ e @ 0 # post) (length pre) =
         Some (if entry_name e = n then Some (length pre + length n + 1) else None)"
  using assms
proof (induction n arbitrary: dn pre e)
  case Nil
  from Nil.prems(2) obtain c e' where e: "e = c # e'" "c \<noteq> 0"
    by (cases e) (auto simp: wf_entry_def)
  then show ?case
    by (subst envmatch.simps) (auto simp: mem_simps entry_name_def)
next
  case (Cons a n)
  from Cons.prems(2) obtain c e' where e: "e = c # e'" "c \<noteq> 0"
    by (cases e) (auto simp: wf_entry_def)
  have a: "a \<noteq> 61" "a \<noteq> 0" using Cons.prems(1) by (auto simp: wf_name_def)
  show ?case
  proof (cases "a = c")
    case True
    then have wf: "wf_entry e'" "wf_name n"
      using Cons.prems a e by (auto simp: wf_entry_def wf_name_def)
    have "envmatch (dn @ (a # n) @ [0]) (length dn) (pre @ e @ 0 # post) (length pre)
        = envmatch ((dn @ [a]) @ n @ [0]) (length (dn @ [a]))
            ((pre @ [c]) @ e' @ 0 # post) (length (pre @ [c]))"
      using True a e by (subst envmatch.simps) (simp add: mem_simps)
    also have "\<dots> = Some (if entry_name e' = n then Some (length (pre @ [c]) + length n + 1) else None)"
      by (rule Cons.IH [OF wf(2) wf(1)])
    finally show ?thesis using True a e by (simp add: entry_name_def)
  next
    case False
    then show ?thesis using a e
      by (subst envmatch.simps) (auto simp: mem_simps entry_name_def)
  qed
qed

lemma envmatch_entry:
  assumes "wf_name n" and "wf_entry e"
  shows "envmatch (n @ [0]) 0 (pre @ e @ 0 # post) (length pre) =
         Some (if entry_name e = n then Some (length pre + length n + 1) else None)"
  using envmatch_split [OF assms, of "[]"] by simp

lemma env_search_step:
  assumes "wf_name n" and "wf_entry e" and "length pre + length e \<le> sz"
  shows "env_search (pre @ e @ 0 # post) sz n (length pre) nxt =
    (if entry_name e = n
     then Some (Hit (length pre) (length pre + length e) (length pre + length n + 1))
     else env_search (pre @ e @ 0 # post) sz n (length (pre @ e @ [0])) (length pre + length e))"
proof -
  from assms(2) obtain c e' where e: "e = c # e'" "c \<noteq> 0"
    by (cases e) (auto simp: wf_entry_def)
  have get: "mem_get (pre @ e @ 0 # post) (length pre) = Some c" by (simp add: e mem_simps)
  have se: "strend (pre @ e @ 0 # post) sz (length pre) = Some (Some (length pre + length e))"
    using assms by (intro strend_entry) (auto simp: wf_entry_def)
  show ?thesis
    using e(2) by (subst env_search.simps) (simp add: get se envmatch_entry [OF assms(1,2)])
qed

lemma env_search_miss:
  assumes "wf_name n" and "\<forall>e \<in> set es. wf_entry e" and "\<forall>e \<in> set es. entry_name e \<noteq> n"
    and "length pre + length (flat es) \<le> sz"
  shows "env_search (pre @ flat es @ 0 # rest) sz n (length pre) nxt =
    Some (Miss (length pre + length (flat es))
       (if es = [] then nxt else length pre + length (flat es) - 1))"
  using assms
proof (induction es arbitrary: pre nxt)
  case Nil
  then show ?case by (subst env_search.simps) (simp add: mem_simps)
next
  case (Cons e es)
  have "env_search (pre @ flat (e # es) @ 0 # rest) sz n (length pre) nxt
      = env_search ((pre @ e @ [0]) @ flat es @ 0 # rest) sz n (length (pre @ e @ [0]))
          (length pre + length e)"
    using Cons.prems env_search_step [of n e pre sz "flat es @ 0 # rest" nxt] by simp
  also have "\<dots> = Some (Miss (length (pre @ e @ [0]) + length (flat es))
       (if es = [] then length pre + length e
        else length (pre @ e @ [0]) + length (flat es) - 1))"
    by (rule Cons.IH) (use Cons.prems in auto)
  finally show ?case by simp
qed

lemma env_search_hit:
  assumes "wf_name n" and "\<forall>e \<in> set es1. wf_entry e \<and> entry_name e \<noteq> n"
    and "wf_entry e" and "entry_name e = n"
    and "length pre + length (flat es1) + length e \<le> sz"
  shows "env_search (pre @ flat es1 @ e @ 0 # rest) sz n (length pre) nxt =
    (let p = length pre + length (flat es1) in Some (Hit p (p + length e) (p + length n + 1)))"
  using assms
proof (induction es1 arbitrary: pre nxt)
  case Nil
  then show ?case using env_search_step [of n e pre sz rest nxt] by (simp add: Let_def)
next
  case (Cons f es1)
  have "env_search (pre @ flat (f # es1) @ e @ 0 # rest) sz n (length pre) nxt
      = env_search ((pre @ f @ [0]) @ flat es1 @ e @ 0 # rest) sz n (length (pre @ f @ [0]))
          (length pre + length f)"
    using Cons.prems env_search_step [of n f pre sz "flat es1 @ e @ 0 # rest" nxt] by simp
  also have "\<dots> = (let p = length (pre @ f @ [0]) + length (flat es1)
      in Some (Hit p (p + length e) (p + length n + 1)))"
    by (rule Cons.IH) (use Cons.prems in auto)
  finally show ?case by (simp add: Let_def)
qed

section \<open>The edits\<close>

text \<open>A run of complete strings: it ends in NUL and has no empty string inside.\<close>

fun packed :: "u8 list \<Rightarrow> bool" where
  "packed [] = False"
| "packed [c] = (c = 0)"
| "packed (c # c' # cs) = (\<not> (c = 0 \<and> c' = 0) \<and> packed (c' # cs))"

lemma packed_nonempty: "packed cs \<Longrightarrow> cs \<noteq> []"
  by auto

lemma packed_append_entry: "e \<noteq> [] \<Longrightarrow> 0 \<notin> set e \<Longrightarrow> cs = [] \<or> packed cs \<and> hd cs \<noteq> 0
    \<Longrightarrow> packed (e @ 0 # cs)"
proof (induction e)
  case (Cons c e)
  show ?case
  proof (cases e)
    case Nil
    with Cons.prems show ?thesis by (cases cs) auto
  next
    case (Cons c' e')
    with Cons.IH Cons.prems show ?thesis by auto
  qed
qed simp

lemma packed_flat:
  assumes "\<forall>e \<in> set es. wf_entry e" and "es \<noteq> []"
  shows "packed (flat es) \<and> hd (flat es) \<noteq> 0"
  using assms
proof (induction es)
  case (Cons e es)
  have e: "e \<noteq> []" "0 \<notin> set e" using Cons.prems by (auto simp: wf_entry_def)
  then have "hd (flat (e # es)) \<noteq> 0" by (cases e) auto
  moreover have "packed (flat (e # es))"
    using Cons e packed_append_entry [OF e, of "flat es"] by (cases es) auto
  ultimately show ?case by simp
qed simp

lemma env_shift_packed:
  assumes "packed B" and "X \<noteq> []"
  shows "\<exists>X'. env_shift (A @ X @ B @ 0 # rest) (length A) (length A + length X) =
      Some (A @ B @ X' @ 0 # rest, length A + length B - 1) \<and> length X' = length X"
  using assms
proof (induction B arbitrary: A X rule: packed.induct)
  case 1
  then show ?case by simp
next
  case (2 c)
  then obtain x X1 where X: "X = x # X1" by (cases X) auto
  have g: "mem_get (A @ (x # X1) @ [0] @ 0 # rest) (length A + length X) = Some 0"
    using X by (simp add: mem_get_def nth_append)
  have p: "mem_put (A @ (x # X1) @ [0] @ 0 # rest) (length A) 0
      = Some (A @ [0] @ (X1 @ [0]) @ 0 # rest)" by (simp add: mem_simps)
  have g': "mem_get (A @ [0] @ (X1 @ [0]) @ 0 # rest) (Suc (length A + length X)) = Some 0"
    using X by (simp add: mem_get_def nth_append)
  show ?case
    using "2.prems"(1) X
    by (intro exI [of _ "X1 @ [0]"], subst env_shift.simps)
       (use g p g' in \<open>simp\<close>)
next
  case (3 c c' cs)
  then obtain x X1 where X: "X = x # X1" by (cases X) auto
  let ?B = "c' # cs"
  have g: "mem_get (A @ X @ (c # ?B) @ 0 # rest) (length A + length X) = Some c"
    by (simp add: mem_get_def nth_append)
  have p: "mem_put (A @ X @ (c # ?B) @ 0 # rest) (length A) c
      = Some ((A @ [c]) @ (X1 @ [c]) @ ?B @ 0 # rest)" using X by (simp add: mem_simps)
  have g': "mem_get ((A @ [c]) @ (X1 @ [c]) @ ?B @ 0 # rest) (Suc (length A + length X)) = Some c'"
    using X by (simp add: mem_get_def nth_append)
  have step: "env_shift (A @ X @ (c # ?B) @ 0 # rest) (length A) (length A + length X)
      = env_shift ((A @ [c]) @ (X1 @ [c]) @ ?B @ 0 # rest) (length (A @ [c]))
          (length (A @ [c]) + length (X1 @ [c]))"
    using "3.prems"(1) X by (subst env_shift.simps) (use g p g' in \<open>auto\<close>)
  from "3.IH" [of "X1 @ [c]" "A @ [c]"] "3.prems"(1) X show ?case
    unfolding step by auto
qed

lemma find_end_packed:
  assumes "packed B"
  shows "find_end (A @ B @ 0 # rest) (length A) = Some (length A + length B - 1)"
  using assms
proof (induction B arbitrary: A rule: packed.induct)
  case 1
  then show ?case by simp
next
  case (2 c)
  then show ?case by (subst find_end.simps) (simp add: mem_simps)
next
  case (3 c c' cs)
  have step: "find_end (A @ (c # c' # cs) @ 0 # rest) (length A)
      = find_end ((A @ [c]) @ (c' # cs) @ 0 # rest) (length (A @ [c]))"
    using "3.prems" by (subst find_end.simps) (auto simp: mem_simps)
  show ?case unfolding step using "3.IH" [of "A @ [c]"] "3.prems" by simp
qed

lemma copy_str_split:
  assumes "length X = length s + 1"
  shows "copy_str (A @ X @ R) (length A) s = Some (A @ s @ 0 # R, length A + length s)"
  using assms
proof (induction s arbitrary: A X)
  case Nil
  then obtain x where "X = [x]" by (auto simp: length_Suc_conv)
  then show ?case by (simp add: mem_simps)
next
  case (Cons c s)
  then obtain x X1 where X: "X = x # X1" by (cases X) auto
  with Cons.IH [of X1 "A @ [c]"] Cons.prems show ?case by (simp add: mem_simps)
qed

text \<open>Deleting the entry between \<open>es1\<close> and \<open>es2\<close>.\<close>

lemma env_delete_rep:
  assumes wf: "\<forall>e \<in> set (es1 @ e # es2). wf_entry e"
  shows "\<exists>rest'. env_delete (flat es1 @ e @ 0 # flat es2 @ 0 # rest) (length (flat es1))
      (length (flat es1) + length e) =
      Some (flat (es1 @ es2) @ 0 # rest', length (flat (es1 @ es2)) + (if es2 = [] then 1 else 0)) \<and>
      (es2 = [] \<longrightarrow> take 1 rest' = [0]) \<and> rest' \<noteq> [] \<and>
      length (flat (es1 @ es2) @ 0 # rest') = length (flat (es1 @ e # es2) @ 0 # rest)"
proof (cases es2)
  case Nil
  obtain c e' where e: "e = c # e'" using wf by (cases e) (auto simp: wf_entry_def)
  obtain r R where eR: "e' @ 0 # 0 # rest = r # R" by (cases e') auto
  then have len: "length R = length e' + length rest + 1"
    by (metis add.commute add_Suc_right length_Cons length_append nat.inject plus_1_eq_Suc
          add_Suc list.size(4))
  have g: "mem_get (flat es1 @ e @ 0 # 0 # rest) (Suc (length (flat es1) + length e)) = Some 0"
    by (simp add: mem_get_def nth_append)
  have "env_delete (flat es1 @ e @ 0 # 0 # rest) (length (flat es1)) (length (flat es1) + length e)
      = Some (flat es1 @ 0 # 0 # R, Suc (length (flat es1)))"
    using g unfolding env_delete_def by (simp add: e eR mem_simps)
  then show ?thesis using Nil len by (intro exI [of _ "0 # R"]) (simp add: e)
next
  case (Cons f es)
  then have B: "packed (flat es2)" "hd (flat es2) \<noteq> 0" using wf packed_flat [of es2] by auto
  then obtain b B' where b: "flat es2 = b # B'" "b \<noteq> 0" by (cases "flat es2") auto
  have g: "mem_get (flat es1 @ e @ 0 # flat es2 @ 0 # rest)
      (Suc (length (flat es1) + length e)) = Some b"
    by (simp add: mem_get_def nth_append b)
  obtain X' where sh: "env_shift (flat es1 @ (e @ [0]) @ flat es2 @ 0 # rest) (length (flat es1))
      (length (flat es1) + length (e @ [0])) =
      Some (flat es1 @ flat es2 @ X' @ 0 # rest, length (flat es1) + length (flat es2) - 1)"
    and X': "length X' = length (e @ [0])"
    using env_shift_packed [OF B(1), of "e @ [0]" "flat es1" rest] by auto
  then obtain x X1 where X: "X' = x # X1" by (cases X') auto
  have pos: "0 < length (flat es2)" using b by simp
  have put: "mem_put (flat es1 @ flat es2 @ X' @ 0 # rest)
      (length (flat es1) + length (flat es2)) 0
      = Some (flat (es1 @ es2) @ 0 # X1 @ 0 # rest)"
    using mem_put_split [of "flat es1 @ flat es2" x "X1 @ 0 # rest" 0] X by simp
  have "env_delete (flat es1 @ e @ 0 # flat es2 @ 0 # rest) (length (flat es1))
      (length (flat es1) + length e)
      = Some (flat (es1 @ es2) @ 0 # X1 @ 0 # rest, length (flat (es1 @ es2)))"
    using g b sh put pos unfolding env_delete_def by simp
  then show ?thesis using Cons X X' by (intro exI [of _ "X1 @ 0 # rest"]) simp
qed

text \<open>Appending an entry: it succeeds exactly when it fits, with the end marker, into the
  buffer.\<close>

lemma env_append_rep:
  assumes wf: "\<forall>e \<in> set es. wf_entry e" and e0: "es = [] \<longrightarrow> take 1 rest = [0]"
    and d: "d = flat es @ 0 # rest"
  shows "env_append d (length d) name v =
    (if length (flat es) + length name + length v + 3 \<le> length d
     then Some (Inr (flat es @ name @ 61 # v @ 0 # drop (length name + length v + 1) rest,
        length (flat es) + length name + length v + 1))
     else Some (Inl (- 1)))"
proof -
  have fe: "find_end d 0 = Some (length (flat es) - 1)"
  proof (cases es)
    case Nil
    with e0 obtain R where "rest = 0 # R" by (cases rest) auto
    with Nil d show ?thesis by (subst find_end.simps) (simp add: mem_simps mem_get_def)
  next
    case (Cons f fs)
    then have "packed (flat es)" using packed_flat [OF wf] by simp
    from find_end_packed [OF this, of "[]" rest] d show ?thesis by simp
  qed
  have env: "(if length (flat es) - 1 > 0 then Suc (length (flat es) - 1) else length (flat es) - 1)
      = length (flat es)"
  proof (cases es)
    case (Cons f fs)
    then have "f \<noteq> []" using wf by (auto simp: wf_entry_def)
    with Cons show ?thesis by (cases f) auto
  qed simp
  have unf: "env_append d (length d) name v =
      (if int (length name) + 2 + (int (length v) + 1) > int (length d) - int (length (flat es))
       then Some (Inl (- 1))
       else do {
          (d1, env1) \<leftarrow> copy_str d (length (flat es)) name;
          d2 \<leftarrow> mem_put d1 env1 61;
          (d3, env3) \<leftarrow> copy_str d2 (Suc env1) v;
          Some (Inr (d3, env3)) })"
    unfolding env_append_def fe Let_def by (simp only: bind.bind_lunit env)
  show ?thesis
  proof (cases "length (flat es) + length name + length v + 3 \<le> length d")
    case False
    then show ?thesis unfolding unf by auto
  next
    case True
    let ?n = "length name" and ?v = "length v"
    have lr: "?n + ?v + 2 \<le> length rest" using True d by simp
    let ?R1 = "drop ?n (0 # rest)"
    obtain y R1 where y: "drop ?n rest = y # R1" using lr by (cases "drop ?n rest") auto
    have c1: "copy_str d (length (flat es)) name = Some (flat es @ name @ 0 # drop ?n rest,
        length (flat es) + ?n)"
      using copy_str_split [of "0 # take ?n rest" name "flat es" "drop ?n rest"] lr d by simp
    have p: "mem_put (flat es @ name @ 0 # drop ?n rest) (length (flat es) + ?n) 61
        = Some (flat es @ name @ 61 # drop ?n rest)"
      using mem_put_split [of "flat es @ name" 0 "drop ?n rest" 61] by simp
    have sp: "drop ?n rest = take (?v + 1) (drop ?n rest) @ drop (?n + ?v + 1) rest"
    proof -
      have "drop (?n + ?v + 1) rest = drop (?v + 1) (drop ?n rest)" by (simp add: add_ac)
      then show ?thesis by (simp only: append_take_drop_id)
    qed
    have c2: "copy_str (flat es @ name @ 61 # drop ?n rest) (Suc (length (flat es) + ?n)) v
        = Some (flat es @ name @ 61 # v @ 0 # drop (?n + ?v + 1) rest,
            length (flat es) + ?n + ?v + 1)"
      using copy_str_split [of "take (?v + 1) (drop ?n rest)" v "flat es @ name @ [61]"
          "drop (?n + ?v + 1) rest"] lr
      by (subst sp) (simp add: add_ac)
    from True show ?thesis unfolding unf by (simp add: c1 p c2)
  qed
qed

section \<open>Refinement of the assignment\<close>

definition protected :: "u8 list \<Rightarrow> bool" where
  "protected name \<longleftrightarrow> name = ethaddr \<or> name = serial_no"

definition env_assign :: "u8 list list \<Rightarrow> u8 list \<Rightarrow> u8 list \<Rightarrow> u8 list list" where
  "env_assign es name v = del_first name es @ (if v = [] then [] else [name @ 61 # v])"

text \<open>Whether \<open>fw_setenvs\<close> takes the variable for already defined: it is, or the
  environment is empty and the previous round has left a stale pointer.\<close>

definition seen_old :: "u8 list list \<Rightarrow> bool \<Rightarrow> u8 list \<Rightarrow> bool" where
  "seen_old es oldval name \<longleftrightarrow> name \<in> entry_name ` set es \<or> es = [] \<and> oldval"

lemma del_first_absent: "name \<notin> entry_name ` set es \<Longrightarrow> del_first name es = es"
  by (induction es) auto

lemma del_first_append: "name \<notin> entry_name ` set es1 \<Longrightarrow> entry_name e = name \<Longrightarrow>
    del_first name (es1 @ e # es2) = es1 @ es2"
  by (induction es1) auto

lemma del_first_subset: "set (del_first name es) \<subseteq> set es"
  by (induction es) auto

lemma split_first:
  "name \<in> entry_name ` set es \<Longrightarrow>
   \<exists>es1 e es2. es = es1 @ e # es2 \<and> entry_name e = name \<and> name \<notin> entry_name ` set es1"
proof (induction es)
  case (Cons f es)
  show ?case
  proof (cases "entry_name f = name")
    case True
    then show ?thesis by (intro exI [of _ "[]"] exI [of _ f] exI [of _ es]) simp
  next
    case False
    with Cons obtain es1 e es2 where "es = es1 @ e # es2" "entry_name e = name"
      "name \<notin> entry_name ` set es1" by auto
    with False show ?thesis by (intro exI [of _ "f # es1"] exI [of _ e] exI [of _ es2]) simp
  qed
qed simp

lemma split_first_while:
  assumes "es = es1 @ e # es2" and "entry_name e = name" and "name \<notin> entry_name ` set es1"
  shows "takeWhile (\<lambda>e. entry_name e \<noteq> name) es = es1"
    and "dropWhile (\<lambda>e. entry_name e \<noteq> name) es = e # es2"
proof -
  have "\<forall>f \<in> set es1. entry_name f \<noteq> name" using assms(3) by auto
  with assms(1,2) show "takeWhile (\<lambda>e. entry_name e \<noteq> name) es = es1"
    and "dropWhile (\<lambda>e. entry_name e \<noteq> name) es = e # es2"
    by (simp_all add: takeWhile_append dropWhile_append)
qed

lemma env_repE:
  assumes "env_rep d es"
  obtains rest where "d = flat es @ 0 # rest" "es = [] \<longrightarrow> take 1 rest = [0]"
    "\<forall>e \<in> set es. wf_entry e"
  using assms by (auto simp: env_rep_def)

lemma env_search_rep:
  assumes "env_rep d es" and "wf_name name"
  shows "env_search d (length d) name 0 0 =
    (if name \<in> entry_name ` set es
     then let es1 = takeWhile (\<lambda>e. entry_name e \<noteq> name) es; p = length (flat es1) in
       Some (Hit p (p + length (hd (dropWhile (\<lambda>e. entry_name e \<noteq> name) es))) (p + length name + 1))
     else Some (Miss (length (flat es)) (if es = [] then 0 else length (flat es) - 1)))"
proof -
  obtain rest where d: "d = flat es @ 0 # rest" and wf: "\<forall>e \<in> set es. wf_entry e"
    using assms(1) by (rule env_repE)
  show ?thesis
  proof (cases "name \<in> entry_name ` set es")
    case False
    then show ?thesis using env_search_miss [OF assms(2) wf, of "[]" "length d" rest 0] d by force
  next
    case True
    then obtain es1 e es2 where es: "es = es1 @ e # es2" "entry_name e = name"
      "name \<notin> entry_name ` set es1" using split_first by blast
    note tw = split_first_while [OF es]
    have "env_search d (length d) name 0 0 = (let p = length (flat es1) in
        Some (Hit p (p + length e) (p + length name + 1)))"
    proof -
      have "\<forall>e \<in> set es1. wf_entry e \<and> entry_name e \<noteq> name" "wf_entry e"
        using es(1,3) wf by (auto simp: image_iff)
      from env_search_hit [OF assms(2) this(1) this(2) es(2), of "[]" "length d" "flat es2 @ 0 # rest" 0]
      show ?thesis using es(1) d by simp
    qed
    with True show ?thesis unfolding tw by (simp add: Let_def)
  qed
qed

text \<open>The buffer after the optional deletion.\<close>

definition setenv_del :: "u8 list \<Rightarrow> bool \<Rightarrow> u8 list \<Rightarrow> (u8 list \<times> nat) option" where
  "setenv_del d oldval name = do {
     r \<leftarrow> env_search d (length d) name 0 0;
     case r of
       Unterminated \<Rightarrow> None
     | Hit e n v \<Rightarrow> env_delete d e n
     | Miss e n \<Rightarrow> if e = 0 \<and> oldval then env_delete d e n else Some (d, e) }"

lemma setenv_del_rep:
  assumes rep: "env_rep d es" and n: "wf_name name"
  shows "\<exists>env1 rest1. setenv_del d oldval name = Some (flat (del_first name es) @ 0 # rest1, env1) \<and>
     length (flat (del_first name es) @ 0 # rest1) = length d \<and>
     (del_first name es = [] \<longrightarrow> take 1 rest1 = [0]) \<and>
     (env1 = length (flat (del_first name es)) \<or>
      env1 = Suc (length (flat (del_first name es))) \<and> take 1 rest1 = [0]) \<and>
     (name \<in> entry_name ` set es \<longrightarrow> Suc env1 < length d)"
proof -
  obtain rest where d: "d = flat es @ 0 # rest" and e0: "es = [] \<longrightarrow> take 1 rest = [0]"
    and wf: "\<forall>e \<in> set es. wf_entry e" using rep by (rule env_repE)
  show ?thesis
  proof (cases "name \<in> entry_name ` set es")
    case True
    then obtain es1 e es2 where es: "es = es1 @ e # es2" "entry_name e = name"
      "name \<notin> entry_name ` set es1" using split_first by blast
    have wf': "\<forall>e \<in> set (es1 @ e # es2). wf_entry e" using wf es by simp
    note tw = split_first_while [OF es]
    have del: "del_first name es = es1 @ es2" using es by (simp add: del_first_append)
    from env_delete_rep [OF wf', of rest] obtain rest' where
      r: "env_delete d (length (flat es1)) (length (flat es1) + length e) =
        Some (flat (es1 @ es2) @ 0 # rest', length (flat (es1 @ es2)) + (if es2 = [] then 1 else 0))"
      and t: "es2 = [] \<longrightarrow> take 1 rest' = [0]" "rest' \<noteq> []"
      and l: "length (flat (es1 @ es2) @ 0 # rest') = length (flat (es1 @ e # es2) @ 0 # rest)"
      unfolding d es by auto
    have ene: "e \<noteq> []" using wf' by (auto simp: wf_entry_def)
    then have l2: "2 \<le> length rest'" using l by (cases e) auto
    have sd: "setenv_del d oldval name = Some (flat (del_first name es) @ 0 # rest',
        length (flat (es1 @ es2)) + (if es2 = [] then 1 else 0))"
      unfolding setenv_del_def env_search_rep [OF rep n] using True r
      by (simp add: tw del Let_def)
    have ld: "length d = length (flat (es1 @ es2)) + 1 + length rest'"
      using l d es by simp
    show ?thesis
      by (intro exI [of _ "length (flat (es1 @ es2)) + (if es2 = [] then 1 else 0)"] exI [of _ rest'])
         (use sd t l2 ld in \<open>auto simp: del\<close>)
  next
    case False
    have del: "del_first name es = es" using False by (rule del_first_absent)
    show ?thesis
    proof (cases "es = [] \<and> oldval")
      case True
      with e0 obtain R where R: "rest = 0 # R" by (cases rest) auto
      then have "env_delete d 0 0 = Some (0 # 0 # R, 1)"
        unfolding env_delete_def using True d by (simp add: mem_get_def mem_put_def)
      then have sd: "setenv_del d oldval name = Some (flat (del_first name es) @ 0 # rest, 1)"
        unfolding setenv_del_def env_search_rep [OF rep n] using True R False by simp
      from sd True R d del False show ?thesis
        by (intro exI [of _ 1] exI [of _ rest]) auto
    next
      case nold: False
      have "length (flat es) = 0 \<Longrightarrow> es = []"
        using wf by (cases es) (auto simp: wf_entry_def)
      then have sd: "setenv_del d oldval name = Some (d, length (flat es))"
        unfolding setenv_del_def env_search_rep [OF rep n] using False nold by auto
      show ?thesis
        by (intro exI [of _ "length (flat es)"] exI [of _ rest])
           (use sd d e0 del False nold in \<open>auto simp: seen_old_def\<close>)
    qed
  qed
qed

lemma env_repI:
  assumes "\<forall>e \<in> set es. wf_entry e" and "es = [] \<longrightarrow> take 1 rest = [0]"
    and "d = flat es @ 0 # rest"
  shows "env_rep d es"
  using assms by (auto simp: env_rep_def)

text \<open>One round of \<open>fw_setenvs\<close> in terms of its two stages.\<close>

lemma setenv_pair_stages:
  assumes rep: "env_rep d es" and n: "wf_name name"
  shows "setenv_pair d (length d) oldval name (Some v) =
    (if seen_old es oldval name \<and> protected name then Some (Inl EROFS)
     else do {
       (d1, env1) \<leftarrow> setenv_del d oldval name;
       if v \<noteq> [] then do {
         a \<leftarrow> env_append d1 (length d) name v;
         case a of
           Inl rc \<Rightarrow> Some (Inl rc)
         | Inr (d2, env2) \<Rightarrow> do {
             d3 \<leftarrow> mem_put d2 (Suc env2) 0;
             Some (Inr (d3, seen_old es oldval name)) } }
       else do {
         d3 \<leftarrow> mem_put d1 (Suc env1) 0;
         Some (Inr (d3, seen_old es oldval name)) } })"
proof -
  have wf: "\<forall>e \<in> set es. wf_entry e" using rep by (auto simp: env_rep_def)
  then have nil: "flat es = [] \<longleftrightarrow> es = []" by (cases es) (auto simp: wf_entry_def)
  show ?thesis
  proof (cases "name \<in> entry_name ` set es")
    case True
    then have so: "seen_old es oldval name = True" by (simp add: seen_old_def)
    show ?thesis
      unfolding setenv_pair_def setenv_del_def env_search_rep [OF rep n] protected_def so
      using True by (simp add: Let_def)
  next
    case False
    then have so: "seen_old es oldval name = (es = [] \<and> oldval)" by (simp add: seen_old_def)
    show ?thesis
      unfolding setenv_pair_def setenv_del_def env_search_rep [OF rep n] protected_def so
      using False by (cases "es = [] \<and> oldval") (auto simp: nil cong: if_cong)
  qed
qed

lemma env_assign_wf:
  assumes "\<forall>e \<in> set es. wf_entry e" and "wf_name name" and "0 \<notin> set v"
  shows "\<forall>e \<in> set (env_assign es name v). wf_entry e"
  using assms del_first_subset [of name es] by (auto simp: env_assign_def wf_entry_make)

text \<open>The five outcomes of a round.\<close>

lemma setenv_pair_erofs:
  assumes "env_rep d es" and "wf_name name" and "seen_old es oldval name" and "protected name"
  shows "setenv_pair d (length d) oldval name (Some v) = Some (Inl EROFS)"
  using assms by (simp add: setenv_pair_stages)

lemma setenv_pair_store:
  assumes rep: "env_rep d es" and n: "wf_name name" and v: "0 \<notin> set v" "v \<noteq> []"
    and np: "\<not> (seen_old es oldval name \<and> protected name)"
    and fit: "length (flat (del_first name es)) + length name + length v + 3 \<le> length d"
  shows "\<exists>d'. setenv_pair d (length d) oldval name (Some v) =
      Some (Inr (d', seen_old es oldval name)) \<and>
      env_rep d' (env_assign es name v) \<and> length d' = length d"
proof -
  let ?es = "del_first name es"
  obtain env1 rest1 where del: "setenv_del d oldval name = Some (flat ?es @ 0 # rest1, env1)"
    and len: "length (flat ?es @ 0 # rest1) = length d"
    and e0: "?es = [] \<longrightarrow> take 1 rest1 = [0]"
    using setenv_del_rep [OF rep n, of oldval] by auto
  have wf: "\<forall>e \<in> set es. wf_entry e" using rep by (auto simp: env_rep_def)
  then have wf1: "\<forall>e \<in> set ?es. wf_entry e" using del_first_subset [of name es] by auto
  let ?k = "length name + length v + 1"
  obtain y R where yR: "drop ?k rest1 = y # R" using fit len by (cases "drop ?k rest1") auto
  have app: "env_append (flat ?es @ 0 # rest1) (length d) name v =
      Some (Inr (flat ?es @ name @ 61 # v @ 0 # y # R, length (flat ?es) + length name + length v + 1))"
    using env_append_rep [OF wf1 e0 refl, of name v] fit len yR by simp
  have put: "mem_put (flat ?es @ name @ 61 # v @ 0 # y # R)
      (Suc (Suc (length (flat ?es) + length name + length v))) 0
      = Some (flat ?es @ name @ 61 # v @ 0 # 0 # R)"
    using mem_put_split [of "flat ?es @ name @ 61 # v @ [0]" y R 0] by (simp add: add_ac)
  have eq: "setenv_pair d (length d) oldval name (Some v) =
      Some (Inr (flat (env_assign es name v) @ 0 # R, seen_old es oldval name))"
    unfolding setenv_pair_stages [OF rep n] if_not_P [OF np]
    using v by (simp add: del app put env_assign_def)
  have "length R + length name + length v + 2 = length rest1"
    using arg_cong [OF yR, of length] fit len by simp
  then have "length (flat (env_assign es name v) @ 0 # R) = length d"
    using len v by (simp add: env_assign_def)
  moreover have "env_rep (flat (env_assign es name v) @ 0 # R) (env_assign es name v)"
    using env_assign_wf [OF wf n v(1)] v(2) by (intro env_repI) (auto simp: env_assign_def)
  ultimately show ?thesis using eq by blast
qed

lemma setenv_pair_overflow:
  assumes rep: "env_rep d es" and n: "wf_name name" and v: "v \<noteq> []"
    and np: "\<not> (seen_old es oldval name \<and> protected name)"
    and fit: "\<not> length (flat (del_first name es)) + length name + length v + 3 \<le> length d"
  shows "setenv_pair d (length d) oldval name (Some v) = Some (Inl (- 1))"
proof -
  let ?es = "del_first name es"
  obtain env1 rest1 where del: "setenv_del d oldval name = Some (flat ?es @ 0 # rest1, env1)"
    and len: "length (flat ?es @ 0 # rest1) = length d"
    and e0: "?es = [] \<longrightarrow> take 1 rest1 = [0]"
    using setenv_del_rep [OF rep n, of oldval] by auto
  have "\<forall>e \<in> set ?es. wf_entry e"
    using rep del_first_subset [of name es] by (auto simp: env_rep_def)
  from env_append_rep [OF this e0 refl, of name v] fit len
  have "env_append (flat ?es @ 0 # rest1) (length d) name v = Some (Inl (- 1))" by simp
  then show ?thesis
    unfolding setenv_pair_stages [OF rep n] if_not_P [OF np] using v by (simp add: del)
qed

lemma setenv_pair_remove:
  assumes rep: "env_rep d es" and n: "wf_name name"
    and np: "\<not> (seen_old es oldval name \<and> protected name)"
  shows "(\<exists>d'. setenv_pair d (length d) oldval name (Some []) =
        Some (Inr (d', seen_old es oldval name)) \<and>
        env_rep d' (env_assign es name []) \<and> length d' = length d) \<or>
     setenv_pair d (length d) oldval name (Some []) = None \<and> name \<notin> entry_name ` set es"
proof -
  let ?es = "del_first name es"
  obtain env1 rest1 where del: "setenv_del d oldval name = Some (flat ?es @ 0 # rest1, env1)"
    and len: "length (flat ?es @ 0 # rest1) = length d"
    and e0: "?es = [] \<longrightarrow> take 1 rest1 = [0]"
    and env1: "env1 = length (flat ?es) \<or> env1 = Suc (length (flat ?es)) \<and> take 1 rest1 = [0]"
    and bnd: "name \<in> entry_name ` set es \<longrightarrow> Suc env1 < length d"
    using setenv_del_rep [OF rep n, of oldval] by auto
  let ?d1 = "flat ?es @ 0 # rest1"
  show ?thesis
  proof (cases "Suc env1 < length d")
    case False
    then have "mem_put ?d1 (Suc env1) 0 = None" using len by (simp add: mem_put_def)
    then show ?thesis
      unfolding setenv_pair_stages [OF rep n] if_not_P [OF np] using bnd False by (simp add: del)
  next
    case True
    define k where "k = env1 - length (flat ?es)"
    have k: "k = 0 \<or> k = 1 \<and> take 1 rest1 = [0]" "Suc env1 = length (flat ?es) + Suc k"
      using env1 by (auto simp: k_def)
    have upd: "?d1[Suc env1 := 0] = flat ?es @ 0 # rest1[k := 0]"
      by (simp add: k(2) list_update_append)
    have put: "mem_put ?d1 (Suc env1) 0 = Some (flat ?es @ 0 # rest1[k := 0])"
      using True len by (simp add: mem_put_def upd)
    have "?es = [] \<longrightarrow> take 1 (rest1[k := 0]) = [0]"
      using k e0 by (cases rest1) auto
    moreover have "\<forall>e \<in> set ?es. wf_entry e"
      using rep del_first_subset [of name es] by (auto simp: env_rep_def)
    ultimately have "env_rep (flat ?es @ 0 # rest1[k := 0]) (env_assign es name [])"
      by (intro env_repI) (auto simp: env_assign_def)
    then show ?thesis
      unfolding setenv_pair_stages [OF rep n] if_not_P [OF np] using len put by (auto simp: del)
  qed
qed

lemma setenv_pair_success:
  assumes "env_rep d es" and "wf_name name" and "0 \<notin> set v"
    and "setenv_pair d (length d) oldval name (Some v) = Some (Inr (d', old'))"
  shows "env_rep d' (env_assign es name v) \<and> length d' = length d \<and>
    old' = seen_old es oldval name \<and> \<not> (seen_old es oldval name \<and> protected name)"
proof -
  have np: "\<not> (seen_old es oldval name \<and> protected name)"
    using assms setenv_pair_erofs by fastforce
  show ?thesis
  proof (cases "v = []")
    case True
    with setenv_pair_remove [OF assms(1,2) np] assms(4) np show ?thesis by auto
  next
    case False
    with setenv_pair_store [OF assms(1-3) False np] setenv_pair_overflow [OF assms(1,2) False np]
      assms(4) np show ?thesis by fastforce
  qed
qed

section \<open>The environment as a store\<close>

text \<open>
  The contract of a store of named values whose assignments may fail: an assignment that
  succeeds keeps the invariant and changes the value of its own name only; the empty value
  deletes the name.
\<close>

fun assign_list :: "('k \<Rightarrow> 'v \<Rightarrow> 'm \<Rightarrow> 'm option) \<Rightarrow> ('k \<times> 'v) list \<Rightarrow> 'm \<Rightarrow> 'm option" where
  "assign_list assign [] m = Some m"
| "assign_list assign ((k, v) # kvs) m = do { m' \<leftarrow> assign k v m; assign_list assign kvs m' }"

fun spec_assign_list ::
  "('v \<Rightarrow> bool) \<Rightarrow> ('k \<times> 'v) list \<Rightarrow> ('k \<Rightarrow> 'v option) \<Rightarrow> 'k \<Rightarrow> 'v option" where
  "spec_assign_list del [] f = f"
| "spec_assign_list del ((k, v) # kvs) f =
     spec_assign_list del kvs (f(k := if del v then None else Some v))"

locale named_store =
  fixes inv :: "'m \<Rightarrow> bool"
    and get :: "'m \<Rightarrow> 'k \<Rightarrow> 'v option"
    and assign :: "'k \<Rightarrow> 'v \<Rightarrow> 'm \<Rightarrow> 'm option"
    and key :: "'k \<Rightarrow> bool"
    and val :: "'v \<Rightarrow> bool"
    and del :: "'v \<Rightarrow> bool"
  assumes assign_inv: "inv m \<Longrightarrow> key k \<Longrightarrow> val v \<Longrightarrow> assign k v m = Some m' \<Longrightarrow> inv m'"
    and assign_get: "inv m \<Longrightarrow> key k \<Longrightarrow> val v \<Longrightarrow> assign k v m = Some m' \<Longrightarrow> key j \<Longrightarrow>
      get m' j = (if j = k then (if del v then None else Some v) else get m j)"
begin

lemma assign_list_spec:
  assumes "inv m" and "\<forall>(k, v) \<in> set kvs. key k \<and> val v"
    and "assign_list assign kvs m = Some m'"
  shows "inv m' \<and> (\<forall>j. key j \<longrightarrow> get m' j = spec_assign_list del kvs (get m) j)"
proof -
  have "inv m' \<and> (\<forall>f. (\<forall>j. key j \<longrightarrow> get m j = f j) \<longrightarrow>
      (\<forall>j. key j \<longrightarrow> get m' j = spec_assign_list del kvs f j))"
    using assms
  proof (induction kvs arbitrary: m)
    case (Cons kv kvs)
    obtain k v where kv: "kv = (k, v)" by (cases kv)
    with Cons.prems obtain m1 where m1: "assign k v m = Some m1"
      "assign_list assign kvs m1 = Some m'" by (auto simp: bind_eq_Some_conv)
    have k: "key k" "val v" using Cons.prems kv by auto
    have "inv m1" using assign_inv Cons.prems k m1 by blast
    with Cons.IH [of m1] Cons.prems m1 have IH: "inv m' \<and> (\<forall>f. (\<forall>j. key j \<longrightarrow> get m1 j = f j) \<longrightarrow>
      (\<forall>j. key j \<longrightarrow> get m' j = spec_assign_list del kvs f j))" by simp
    have "get m1 j = (f(k := if del v then None else Some v)) j"
      if "key j" "\<forall>j. key j \<longrightarrow> get m j = f j" for f j
      using assign_get [OF _ k m1(1) that(1)] Cons.prems that by simp
    with IH kv show ?case by auto
  qed simp
  then show ?thesis by blast
qed

end

definition env_inv :: "u8 list \<Rightarrow> bool" where
  "env_inv d \<longleftrightarrow> (\<exists>es. env_rep d es \<and> distinct (map entry_name es))"

definition env_get :: "u8 list \<Rightarrow> u8 list \<Rightarrow> u8 list option" where
  "env_get d name =
     (case getenv_data d (length d) name of
        Some (Some p) \<Rightarrow> Some (c_string d p) | _ \<Rightarrow> None)"

definition setenv_assign ::
  "u8 list \<Rightarrow> u8 list \<Rightarrow> u8 list \<times> bool \<Rightarrow> (u8 list \<times> bool) option" where
  "setenv_assign name v m =
     (case setenv_pair (fst m) (length (fst m)) (snd m) name (Some v) of
        Some (Inr m') \<Rightarrow> Some m' | _ \<Rightarrow> None)"

lemma find_append_first:
  "(\<forall>x \<in> set xs. \<not> P x) \<Longrightarrow> find P (xs @ ys) = find P ys"
  by (induction xs) auto

lemma takeWhile_no_zero:
  "0 \<notin> set v \<Longrightarrow> takeWhile (\<lambda>c. c \<noteq> 0) (v @ 0 # rest) = (v :: u8 list)"
  by (induction v) auto

lemma getenv_rep:
  assumes rep: "env_rep d es" and n: "wf_name name"
  shows "\<exists>r. getenv_data d (length d) name = Some r \<and>
    map_option (c_string d) r = env_lookup es name"
proof -
  obtain rest where d: "d = flat es @ 0 # rest" and wf: "\<forall>e \<in> set es. wf_entry e"
    using rep by (rule env_repE)
  show ?thesis
  proof (cases "name \<in> entry_name ` set es")
    case False
    then have "find (\<lambda>e. entry_name e = name) es = None" by (auto simp: find_None_iff)
    with False show ?thesis
      unfolding getenv_data_def env_search_rep [OF rep n] env_lookup_def by simp
  next
    case True
    then obtain es1 e es2 where es: "es = es1 @ e # es2" "entry_name e = name"
      "name \<notin> entry_name ` set es1" using split_first by blast
    note tw = split_first_while [OF es]
    have "\<forall>x \<in> set es1. \<not> entry_name x = name" using es(3) by blast
    from find_append_first [OF this, of "e # es2"]
    have fnd: "find (\<lambda>e. entry_name e = name) es = Some e" by (simp add: es(1,2))
    have wfe: "wf_entry e" using wf es by simp
    have sp: "e = name @ 61 # entry_val e" using entry_split [OF wfe] es by simp
    have "d = (flat es1 @ name @ [61]) @ entry_val e @ 0 # flat es2 @ 0 # rest"
      using d es sp by simp
    moreover have "length (flat es1 @ name @ [61]) = length (flat es1) + length name + 1" by simp
    ultimately have "drop (length (flat es1) + length name + 1) d
        = entry_val e @ 0 # flat es2 @ 0 # rest"
      by (metis append_eq_conv_conj)
    moreover have "0 \<notin> set (entry_val e)"
      using wfe sp by (metis UnCI list.set_intros(2) set_append wf_entry_def)
    ultimately have "c_string d (length (flat es1) + length name + 1) = entry_val e"
      unfolding c_string_def using takeWhile_no_zero [of "entry_val e"] by simp
    with True fnd show ?thesis
      unfolding getenv_data_def env_search_rep [OF rep n] env_lookup_def by (simp add: tw Let_def)
  qed
qed

lemma env_get_rep: "env_rep d es \<Longrightarrow> wf_name name \<Longrightarrow> env_get d name = env_lookup es name"
  using getenv_rep [of d es name] unfolding env_get_def by (auto split: option.splits)

lemma env_lookup_append:
  "env_lookup (es @ [e]) name =
     (case env_lookup es name of
        Some v \<Rightarrow> Some v | None \<Rightarrow> if entry_name e = name then Some (entry_val e) else None)"
  by (induction es) (auto simp: env_lookup_def)

lemma env_lookup_absent: "name \<notin> entry_name ` set es \<Longrightarrow> env_lookup es name = None"
  by (auto simp: env_lookup_def find_None_iff)

lemma env_lookup_del_other: "j \<noteq> name \<Longrightarrow> env_lookup (del_first name es) j = env_lookup es j"
  by (induction es) (auto simp: env_lookup_def)

lemma del_first_gone:
  "distinct (map entry_name es) \<Longrightarrow> name \<notin> entry_name ` set (del_first name es)"
  by (induction es) auto

lemma distinct_del_first:
  "distinct (map entry_name es) \<Longrightarrow> distinct (map entry_name (del_first name es))"
proof (induction es)
  case (Cons e es)
  have "entry_name e \<notin> entry_name ` set (del_first name es)"
    using Cons.prems del_first_subset [of name es] by (auto simp: image_iff)
  with Cons show ?case by simp
qed simp

lemma env_assign_distinct:
  "distinct (map entry_name es) \<Longrightarrow> wf_name name \<Longrightarrow>
   distinct (map entry_name (env_assign es name v))"
  using distinct_del_first [of es name] del_first_gone [of es name]
  by (auto simp: env_assign_def)

lemma env_lookup_assign:
  assumes "distinct (map entry_name es)" and "wf_name name"
  shows "env_lookup (env_assign es name v) j =
    (if j = name then (if v = [] then None else Some v) else env_lookup es j)"
  using del_first_gone [OF assms(1), of name] assms(2)
  by (auto simp: env_assign_def env_lookup_append env_lookup_absent env_lookup_del_other
      split: option.splits)

interpretation fw_store: named_store "\<lambda>m. env_inv (fst m)" "\<lambda>m. env_get (fst m)"
  setenv_assign wf_name "\<lambda>v. 0 \<notin> set v" "\<lambda>v. v = []"
proof unfold_locales
  fix m :: "u8 list \<times> bool" and k v :: "u8 list" and m'
  assume inv: "env_inv (fst m)" and k: "wf_name k" and v: "0 \<notin> set v"
    and asg: "setenv_assign k v m = Some m'"
  from inv obtain es where es: "env_rep (fst m) es" "distinct (map entry_name es)"
    by (auto simp: env_inv_def)
  from asg have "setenv_pair (fst m) (length (fst m)) (snd m) k (Some v) = Some (Inr (fst m', snd m'))"
    by (auto simp: setenv_assign_def split: option.splits sum.splits)
  from setenv_pair_success [OF es(1) k v this] have rep: "env_rep (fst m') (env_assign es k v)"
    by simp
  show "env_inv (fst m')"
    using rep env_assign_distinct [OF es(2) k] by (auto simp: env_inv_def)
  fix j :: "u8 list" assume j: "wf_name j"
  show "env_get (fst m') j = (if j = k then if v = [] then None else Some v else env_get (fst m) j)"
    using env_get_rep [OF rep j] env_get_rep [OF es(1) j] env_lookup_assign [OF es(2) k] by simp
qed

fun args_of :: "(u8 list \<times> u8 list) list \<Rightarrow> u8 list list" where
  "args_of [] = []"
| "args_of ((k, v) # kvs) = k # v # args_of kvs"

lemma setenv_args_assign_list:
  assumes "setenv_args d sz old (args_of kvs) = Some (Inr d')" and "sz = length d"
    and "env_inv d" and "\<forall>(k, v) \<in> set kvs. wf_name k \<and> 0 \<notin> set v"
  shows "\<exists>old'. assign_list setenv_assign kvs (d, old) = Some (d', old')"
  using assms
proof (induction kvs arbitrary: d old)
  case (Cons kv kvs)
  obtain k v where kv: "kv = (k, v)" by (cases kv)
  with Cons.prems(1,2) obtain y where y: "setenv_pair d (length d) old k (Some v) = Some y"
    "(case y of Inl rc \<Rightarrow> Some (Inl rc) | Inr (d', old) \<Rightarrow> setenv_args d' sz old (args_of kvs))
       = Some (Inr d')"
    by (auto simp: bind_eq_Some_conv)
  then obtain d1 old1 where
    p: "setenv_pair d (length d) old k (Some v) = Some (Inr (d1, old1))"
    and r: "setenv_args d1 sz old1 (args_of kvs) = Some (Inr d')"
    by (cases y) auto
  then have a: "setenv_assign k v (d, old) = Some (d1, old1)" by (simp add: setenv_assign_def)
  have kw: "wf_name k" "0 \<notin> set v" using Cons.prems(4) kv by auto
  have "env_inv d1" using fw_store.assign_inv [OF _ kw a] Cons.prems(3) by simp
  moreover have "length d1 = length d"
    using Cons.prems(3) setenv_pair_success [OF _ kw p] by (auto simp: env_inv_def)
  ultimately show ?case using Cons.IH [OF r] Cons.prems a kv by auto
qed simp

section \<open>Properties\<close>

lemma print_all_flat:
  assumes "\<forall>e \<in> set es. wf_entry e" and "length pre + length (flat es) \<le> sz"
  shows "print_all (pre @ flat es @ 0 # rest) sz (length pre) = Some (map OutLine es)"
  using assms
proof (induction es arbitrary: pre)
  case Nil
  then show ?case by (subst print_all.simps) (simp add: mem_simps)
next
  case (Cons e es)
  from Cons.prems(1) obtain c e' where e: "e = c # e'" "c \<noteq> 0" "0 \<notin> set e"
    by (cases e) (auto simp: wf_entry_def)
  let ?d = "pre @ e @ 0 # flat es @ 0 # rest"
  have get: "mem_get ?d (length pre) = Some c" by (simp add: e mem_simps)
  have se: "strend ?d sz (length pre) = Some (Some (length pre + length e))"
    using Cons.prems e by (intro strend_entry) auto
  have cs: "c_string ?d (length pre) = e"
    using takeWhile_no_zero [OF e(3)] by (simp add: c_string_def)
  have "print_all ((pre @ e @ [0]) @ flat es @ 0 # rest) sz (length (pre @ e @ [0])) = Some (map OutLine es)"
    by (rule Cons.IH) (use Cons.prems in auto)
  then have "print_all ?d sz (Suc (length pre + length e)) = Some (map OutLine es)" by simp
  then have "print_all ?d sz (length pre) = Some (map OutLine (e # es))"
    using e(2) by (subst print_all.simps) (simp add: get se cs)
  then show ?case by simp
qed

text \<open>Without arguments \<open>fw_printenv\<close> prints every definition of the environment
  once, in order, and nothing else.\<close>

theorem printenv_all:
  assumes "env_rep d es"
  shows "printenv_data d (length d) [cmd] = Some (map OutLine es)"
proof -
  obtain rest where d: "d = flat es @ 0 # rest" and wf: "\<forall>e \<in> set es. wf_entry e"
    using assms by (rule env_repE)
  show ?thesis
    using print_all_flat [OF wf, of "[]" "length d" rest] by (simp add: printenv_data_def d)
qed

theorem printenv_all_witness:
  "printenv_data ([97, 61, 98] @ [0, 0]) 5 [[]] = Some [OutLine [97, 61, 98]]"
proof -
  have "env_rep ([97, 61, 98] @ [0, 0]) [[97, 61, 98]]"
    by (simp add: env_rep_def wf_entry_def)
  from printenv_all [OF this, of "[]"] show ?thesis by (simp add: eval_nat_numeral)
qed

text \<open>The write-once check can refuse a first assignment: when an earlier pair of the same
  command deleted the last variable, the pointer to its value is not reset, and setting
  \<open>ethaddr\<close> for the first time fails with \<open>EROFS\<close>.\<close>

theorem setenv_stale_oldval:
  assumes "env_rep d [e]" and "wf_name (entry_name e)" and "\<not> protected (entry_name e)"
    and "wf_name name" and "protected name" and "v \<noteq> []"
  shows "setenv_args d (length d) False [entry_name e, [], name, v] = Some (Inl EROFS)"
proof -
  have so: "seen_old [e] False (entry_name e)" by (simp add: seen_old_def)
  obtain d1 where d1: "setenv_pair d (length d) False (entry_name e) (Some []) = Some (Inr (d1, True))"
    "env_rep d1 (env_assign [e] (entry_name e) [])" "length d1 = length d"
    using setenv_pair_remove [OF assms(1,2), of False] assms(3) so by auto
  have "env_rep d1 []" using d1(2) by (simp add: env_assign_def)
  from setenv_pair_erofs [OF this assms(4) _ assms(5), of True v] d1
  show ?thesis by (simp add: seen_old_def)
qed

theorem setenv_stale_oldval_witness:
  "setenv_args [97, 61, 98, 0, 0, 0] 6 False [[97], [], ethaddr, [49]] = Some (Inl EROFS)"
proof -
  have r: "env_rep [97, 61, 98, 0, 0, 0] [[97, 61, 98]]" by (simp add: env_rep_def wf_entry_def)
  have e: "entry_name [97, 61, 98] = [97]" by (simp add: entry_name_def)
  have n: "wf_name (entry_name [97, 61, 98])" "\<not> protected (entry_name [97, 61, 98])"
    by (simp_all add: e wf_name_def protected_def ethaddr_def serial_no_def)
  have m: "wf_name ethaddr" "protected ethaddr" by (simp_all add: wf_name_def protected_def ethaddr_def)
  from setenv_stale_oldval [OF r n m, of "[49]"] show ?thesis by (simp add: e eval_nat_numeral)
qed

text \<open>Deleting a variable that is not defined writes a byte behind the end of a buffer that
  is exactly full: the end marker goes one position behind the existing one.\<close>

theorem setenv_delete_overrun:
  assumes "\<forall>e \<in> set es. wf_entry e" and "es \<noteq> []" and "wf_name name"
    and "name \<notin> entry_name ` set es"
  shows "setenv_pair (flat es @ [0]) (length (flat es @ [0])) False name (Some []) = None"
proof -
  have r: "env_rep (flat es @ [0]) es" using assms by (auto simp: env_rep_def)
  have f: "flat es \<noteq> []" using assms(1,2) by (cases es) (auto simp: wf_entry_def)
  have "env_search (flat es @ [0]) (length (flat es @ [0])) name 0 0 =
      Some (Miss (length (flat es)) (length (flat es) - 1))"
    using env_search_miss [OF assms(3,1), of "[]" "length (flat es @ [0])" "[]" 0] assms by auto
  then show ?thesis using f by (simp add: setenv_pair_def mem_simps)
qed

theorem setenv_delete_overrun_witness:
  "setenv_pair [97, 61, 98, 0, 0] 5 False [99] (Some []) = None"
proof -
  have "\<forall>e \<in> set [[97, 61, 98]]. wf_entry e" "[99] \<notin> entry_name ` set [[97, 61, 98]]" "wf_name [99]"
    by (simp_all add: wf_entry_def entry_name_def wf_name_def)
  from setenv_delete_overrun [OF this(1) _ this(3) this(2)] show ?thesis by (simp add: eval_nat_numeral)
qed

end
