(* ===== verification/FwFlash.thy ===== *)
theory FwFlash
  imports FwEnv Crc32
begin

text \<open>
  The rest of \<^verbatim>\<open>uboot-tools/files/fw_env.c\<close> with
  \<^verbatim>\<open>fw_env.h\<close> and \<^verbatim>\<open>fw_env_main.c\<close>: the two copies of
  the environment in the MTD partition, the CRC check that selects one, the default
  environment, and the commands \<open>fw_printenv\<close> and \<open>fw_setenv\<close>. System calls succeed,
  fail with an error number or transfer fewer bytes than asked, as a schedule \<^term>\<open>w\<close>
  says. The flash is a list of bytes: erasing sets bytes to 255, programming can only clear bits.
  Every change of the flash is logged, so that the states a power cut can leave are
  those after a prefix of the log with the next change incomplete.
\<close>

section \<open>Configuration\<close>

definition c_str :: "string \<Rightarrow> u8 list" where
  "c_str s = map (of_nat \<circ> of_char) s"

record envdev_t =
  devname :: string
  devoff :: nat
  env_size :: nat
  erase_size :: nat

text \<open>The macros of \<^verbatim>\<open>fw_env.h\<close>: \<open>DEVICE2\<close> is present when
  \<open>HAVE_REDUND\<close> is defined; the default environment is the initialiser of
  \<open>default_environment\<close> with the terminator the string literal adds.\<close>

record fw_config =
  DEVICE1 :: envdev_t
  DEVICE2 :: "envdev_t option"
  default_environment :: "u8 list"

definition CONFIG_BOOTARGS :: string where
  "CONFIG_BOOTARGS = ''root=/dev/mtdblock1 console=ttySAC0,115200 mem=64M init=/linuxrc''"

definition CONFIG_BOOTCOMMAND :: string where
  "CONFIG_BOOTCOMMAND = ''nandr $(kernelblock) 1d0000 30008000; setenv bootargs $(bootargs) mtdset=$(mtdset); bootm''"

definition default_entries :: "u8 list list" where
  "default_entries =
     [c_str (''bootargs='' @ CONFIG_BOOTARGS), c_str (''bootcmd='' @ CONFIG_BOOTCOMMAND),
      c_str ''bootdelay=1'',
      c_str ''sw6=echo Factory reset; blink; nande b00 1400000; blink'',
      c_str ''kernelblock=c'', c_str ''mtdset=0'']"

definition fw_env_h :: fw_config where
  "fw_env_h = \<lparr>
     DEVICE1 = \<lparr>devname = ''/dev/mtd/3'', devoff = 0, env_size = 0x4000, erase_size = 0x4000\<rparr>,
     DEVICE2 = Some \<lparr>devname = ''/dev/mtd/3'', devoff = 0x4000, env_size = 0x4000, erase_size = 0x4000\<rparr>,
     default_environment = flat default_entries @ [0, 0]\<rparr>"

section \<open>State and system calls\<close>

datatype fault = FOk | FErr int | FShort nat

record world =
  outcome :: "nat \<Rightarrow> fault"
  junk :: "nat \<Rightarrow> u8"

datatype flash_op = FlashErase nat nat | FlashProg nat "u8 list"

text \<open>The static variables of \<^verbatim>\<open>fw_env.c\<close>, \<open>errno\<close>, the file position, the
  contents of the partition, and the number of system calls made.\<close>

record fw =
  envdevices :: "envdev_t list"
  curdev :: nat
  HaveRedundEnv :: bool
  env_crc :: u32
  env_data :: "u8 list"
  errno :: int
  fpos :: nat
  flash :: "u8 list"
  flash_log :: "flash_op list"
  calls :: nat

definition no_dev :: envdev_t where
  "no_dev = \<lparr>devname = [], devoff = 0, env_size = 0, erase_size = 0\<rparr>"

text \<open>The state of a fresh process.\<close>

definition fw_start :: "u8 list \<Rightarrow> fw" where
  "fw_start f = \<lparr>envdevices = [no_dev, no_dev], curdev = 0, HaveRedundEnv = False, env_crc = 0,
     env_data = [], errno = 0, fpos = 0, flash = f, flash_log = [], calls = 0\<rparr>"

text \<open>A call that succeeds or fails; the flag says that it failed.\<close>

definition sys_call :: "world \<Rightarrow> fw \<Rightarrow> bool \<times> fw" where
  "sys_call w s =
     (let s1 = s\<lparr>calls := Suc (calls s)\<rparr> in
      case outcome w (calls s) of FErr e \<Rightarrow> (True, s1\<lparr>errno := e\<rparr>) | _ \<Rightarrow> (False, s1))"

definition sys_open :: "world \<Rightarrow> string \<Rightarrow> fw \<Rightarrow> bool \<times> fw" where
  "sys_open w path s =
     (let (e, s1) = sys_call w s in
      if e then (True, s1)
      else if path = [] then (True, s1\<lparr>errno := ENOENT\<rparr>)
      else (False, s1\<lparr>fpos := 0\<rparr>))"

definition sys_lseek :: "world \<Rightarrow> nat \<Rightarrow> fw \<Rightarrow> bool \<times> fw" where
  "sys_lseek w off s = (let (e, s1) = sys_call w s in (e, if e then s1 else s1\<lparr>fpos := off\<rparr>))"

text \<open>The number of bytes a transfer of \<open>n\<close> bytes moves, at most what the partition has.\<close>

definition xfer :: "fault \<Rightarrow> nat \<Rightarrow> nat \<Rightarrow> nat" where
  "xfer r n avail = min (case r of FErr e \<Rightarrow> 0 | FOk \<Rightarrow> n | FShort k \<Rightarrow> min k n) avail"

definition sys_read :: "world \<Rightarrow> nat \<Rightarrow> fw \<Rightarrow> u8 list \<times> fw" where
  "sys_read w n s =
     (let k = xfer (outcome w (calls s)) n (length (flash s) - fpos s);
          (e, s1) = sys_call w s
      in (take k (drop (fpos s) (flash s)), s1\<lparr>fpos := fpos s + k\<rparr>))"

text \<open>The changes of the flash.\<close>

fun flash_apply :: "flash_op \<Rightarrow> u8 list \<Rightarrow> u8 list" where
  "flash_apply (FlashErase off n) f =
     take off f @ replicate (min n (length f - off)) 255 @ drop (off + n) f"
| "flash_apply (FlashProg off bs) f =
     take off f @ map2 (\<lambda>a b. a AND b) bs (drop off f) @ drop (off + length bs) f"

definition flash_do :: "flash_op \<Rightarrow> fw \<Rightarrow> fw" where
  "flash_do p s = s\<lparr>flash := flash_apply p (flash s), flash_log := flash_log s @ [p]\<rparr>"

text \<open>\<^verbatim>\<open>ioctl (fd, MEMERASE, &erase)\<close>; a range that is not in the partition is refused.\<close>

definition sys_erase :: "world \<Rightarrow> nat \<Rightarrow> nat \<Rightarrow> fw \<Rightarrow> bool \<times> fw" where
  "sys_erase w off n s =
     (let (e, s1) = sys_call w s in
      if e then (True, s1)
      else if length (flash s) < off + n then (True, s1\<lparr>errno := EINVAL\<rparr>)
      else (False, flash_do (FlashErase off n) s1))"

definition sys_write :: "world \<Rightarrow> u8 list \<Rightarrow> fw \<Rightarrow> nat \<times> fw" where
  "sys_write w bs s =
     (let k = xfer (outcome w (calls s)) (length bs) (length (flash s) - fpos s);
          (e, s1) = sys_call w s
      in (k, (flash_do (FlashProg (fpos s) (take k bs)) s1)\<lparr>fpos := fpos s + k\<rparr>))"

section \<open>The code\<close>

text \<open>The macros \<open>DEVNAME\<close>, \<open>DEVOFFSET\<close>, \<open>DEVESIZE\<close> and \<open>ENV_SIZE\<close>, with
  \<open>sizeof (long) = 4\<close> on the ARM target.\<close>

definition DEVNAME :: "fw \<Rightarrow> nat \<Rightarrow> string" where
  "DEVNAME s i = devname (envdevices s ! i)"

definition DEVOFFSET :: "fw \<Rightarrow> nat \<Rightarrow> nat" where
  "DEVOFFSET s i = devoff (envdevices s ! i)"

definition DEVESIZE :: "fw \<Rightarrow> nat \<Rightarrow> nat" where
  "DEVESIZE s i = erase_size (envdevices s ! i)"

definition getenvsize :: "fw \<Rightarrow> nat" where
  "getenvsize s = env_size (envdevices s ! curdev s) - 4"

definition flash_io_write_part :: "world \<Rightarrow> nat \<Rightarrow> fw \<Rightarrow> (int \<times> fw) option" where
  "flash_io_write_part w otherdev s0 =
     (let (e, s1) = sys_erase w (DEVOFFSET s0 otherdev) (DEVESIZE s0 otherdev) s0 in
      if e then Some (- 1, s1)
      else let (e, s2) = sys_call w s1 in
      if e then Some (- 1, s2)
      else do {
        let buf = map (junk w) [0..<DEVESIZE s2 otherdev];
        buf1 \<leftarrow> mem_copy buf 0 (le32_of (env_crc s2));
        dat \<leftarrow> mem_sub (env_data s2) 0 (getenvsize s2);
        buf2 \<leftarrow> mem_copy buf1 4 dat;
        let (e, s3) = sys_lseek w (DEVOFFSET s2 otherdev) s2;
        if e then Some (- 1, s3)
        else
          let (n, s4) = sys_write w buf2 s3 in
          if n \<noteq> DEVESIZE s4 otherdev then Some (- 1, s4) else Some (0, s4) })"

definition flash_io_write :: "world \<Rightarrow> fw \<Rightarrow> (int \<times> fw) option" where
  "flash_io_write w s0 =
     (let (e, s1) = sys_open w (DEVNAME s0 (curdev s0)) s0 in
      if e then Some (- 1, s1)
      else do {
        s3 \<leftarrow>
          (if HaveRedundEnv s1 then
             (if curdev s1 = 0 then do {
                (rc, s2) \<leftarrow> flash_io_write_part w 1 s1;
                (rc, s3) \<leftarrow> flash_io_write_part w 0 s2;
                Some s3 }
              else do {
                (rc, s2) \<leftarrow> flash_io_write_part w 0 s1;
                (rc, s3) \<leftarrow> flash_io_write_part w 1 s2;
                Some s3 })
           else do { (rc, s3) \<leftarrow> flash_io_write_part w 0 s1; Some s3 });
        let (e, s4) = sys_call w s3;
        if e then Some (- 1, s4) else Some (0, s4) })"

definition flash_io_read :: "world \<Rightarrow> fw \<Rightarrow> (int \<times> fw) option" where
  "flash_io_read w s0 =
     (let (e, s1) = sys_open w (DEVNAME s0 (curdev s0)) s0 in
      if e then Some (- 1, s1)
      else let (e, s2) = sys_lseek w (DEVOFFSET s1 (curdev s1)) s1 in
      if e then Some (- 1, s2)
      else
        let (bs, s3) = sys_read w 4 s2;
            s3 = s3\<lparr>env_crc := le32_to (bs @ drop (length bs) (le32_of (env_crc s3)))\<rparr> in
        if length bs \<noteq> 4 then Some (- 1, s3)
        else do {
          let (ds, s4) = sys_read w (getenvsize s3) s3;
          dat \<leftarrow> mem_copy (env_data s4) 0 ds;
          let s5 = s4\<lparr>env_data := dat\<rparr>;
          if length ds \<noteq> getenvsize s5 then Some (- 1, s5)
          else
            let (e, s6) = sys_call w s5 in
            if e then Some (- 1, s6) else Some (0, s6) })"

definition parse_config :: "world \<Rightarrow> fw_config \<Rightarrow> fw \<Rightarrow> int \<times> fw" where
  "parse_config w cfg s0 =
     (let s1 = (case DEVICE2 cfg of
          None \<Rightarrow> s0\<lparr>envdevices := (envdevices s0)[0 := DEVICE1 cfg]\<rparr>
        | Some dev2 \<Rightarrow> s0\<lparr>envdevices := [DEVICE1 cfg, dev2], HaveRedundEnv := True\<rparr>);
          (e, s2) = sys_call w s1 in
      if e then (1, s2)
      else if HaveRedundEnv s2 then
        (let (e, s3) = sys_call w s2 in if e then (1, s3) else (0, s3))
      else (0, s2))"

text \<open>The comparison of the CRC over the data with the stored one.\<close>

definition crc_ok :: "fw \<Rightarrow> bool" where
  "crc_ok s \<longleftrightarrow> crc32 0 (take (getenvsize s) (env_data s)) = env_crc s"

definition use_default :: "fw_config \<Rightarrow> fw \<Rightarrow> fw option" where
  "use_default cfg s = do {
     dat \<leftarrow> mem_copy (env_data s) 0 (default_environment cfg);
     Some (s\<lparr>env_data := dat\<rparr>) }"

definition env_init :: "world \<Rightarrow> fw_config \<Rightarrow> fw \<Rightarrow> (int \<times> fw) option" where
  "env_init w cfg s0 =
     (let (rc, s1) = parse_config w cfg s0 in
      if rc \<noteq> 0 then Some (1, s1)
      else let (e, s2) = sys_call w s1 in
      if e then Some (errno s2, s2)
      else do {
        let s3 = s2\<lparr>env_data := replicate (getenvsize s2) 0, curdev := 0\<rparr>;
        (rc, s4) \<leftarrow> flash_io_read w s3;
        if rc \<noteq> 0 then Some (errno s4, s4)
        else if crc_ok s4 then Some (0, s4)
        else do {
          s5 \<leftarrow> (if \<not> HaveRedundEnv s4 then use_default cfg s4 else Some s4);
          let s6 = s5\<lparr>env_data := replicate (getenvsize s5) 0, curdev := 1\<rparr>;
          (rc, s7) \<leftarrow> flash_io_read w s6;
          if rc \<noteq> 0 then Some (errno s7, s7)
          else if crc_ok s7 then Some (0, s7)
          else do {
            s8 \<leftarrow> use_default cfg s7;
            Some (0, s8\<lparr>curdev := 0\<rparr>) } } })"

text \<open>The commands. \<open>fw_getenv\<close> returns the string, \<open>fw_printenv\<close> its output.\<close>

definition fw_getenv :: "world \<Rightarrow> fw_config \<Rightarrow> u8 list \<Rightarrow> fw \<Rightarrow> (u8 list option \<times> fw) option" where
  "fw_getenv w cfg name s0 = do {
     (rc, s1) \<leftarrow> env_init w cfg s0;
     if rc \<noteq> 0 then Some (None, s1)
     else do {
       r \<leftarrow> getenv_data (env_data s1) (getenvsize s1) name;
       Some (map_option (c_string (env_data s1)) r, s1) } }"

definition fw_printenv :: "world \<Rightarrow> fw_config \<Rightarrow> u8 list list \<Rightarrow> fw \<Rightarrow> (env_out list \<times> fw) option" where
  "fw_printenv w cfg argv s0 = do {
     (rc, s1) \<leftarrow> env_init w cfg s0;
     if rc \<noteq> 0 then Some ([], s1)
     else do {
       out \<leftarrow> printenv_data (env_data s1) (getenvsize s1) argv;
       Some (out, s1) } }"

text \<open>\<open>fw_setenvs\<close>; the buffer a failed edit leaves behind is not used again and is not
  part of the result.\<close>

definition fw_setenvs :: "world \<Rightarrow> fw_config \<Rightarrow> u8 list list \<Rightarrow> fw \<Rightarrow> (int \<times> fw) option" where
  "fw_setenvs w cfg argv s0 =
     (if length argv < 2 then Some (EINVAL, s0)
      else do {
        (rc, s1) \<leftarrow> env_init w cfg s0;
        if rc \<noteq> 0 then Some (errno s1, s1)
        else do {
          r \<leftarrow> setenv_args (env_data s1) (getenvsize s1) False (tl argv);
          case r of
            Inl rc \<Rightarrow> Some (rc, s1)
          | Inr dat \<Rightarrow> do {
              let s2 = s1\<lparr>env_data := dat\<rparr>;
              let s3 = s2\<lparr>env_crc := crc32 0 (take (getenvsize s2) (env_data s2))\<rparr>;
              (rc, s4) \<leftarrow> flash_io_write w s3;
              if rc \<noteq> 0 then Some (- 1, s4) else Some (0, s4) } } })"

definition after_slash :: "u8 list \<Rightarrow> u8 list" where
  "after_slash cmd = rev (takeWhile (\<lambda>c. c \<noteq> 47) (rev cmd))"

datatype main_out = PrintOut "env_out list" | SetOut | IdentityCrisis "u8 list"

definition fw_main :: "world \<Rightarrow> fw_config \<Rightarrow> u8 list list \<Rightarrow> fw \<Rightarrow> (int \<times> main_out \<times> fw) option" where
  "fw_main w cfg argv s0 = do {
     cmd \<leftarrow> mem_get argv 0;
     let cmdname = after_slash cmd;
     if cmdname = c_str ''fw_printenv'' then do {
       (out, s1) \<leftarrow> fw_printenv w cfg argv s0;
       Some (0, PrintOut out, s1) }
     else if cmdname = c_str ''fw_setenv'' then do {
       (rc, s1) \<leftarrow> fw_setenvs w cfg argv s0;
       if rc \<noteq> 0 then Some (1, SetOut, s1) else Some (0, SetOut, s1) }
     else Some (1, IdentityCrisis cmdname, s0) }"

section \<open>The two slots\<close>

text \<open>The specification of one copy: the bytes of its range, a stored CRC in front of the data.\<close>

definition slot :: "u8 list \<Rightarrow> envdev_t \<Rightarrow> u8 list" where
  "slot f dev = take (env_size dev) (drop (devoff dev) f)"

definition slot_ok :: "u8 list \<Rightarrow> bool" where
  "slot_ok b \<longleftrightarrow> crc32 0 (drop 4 b) = le32_to (take 4 b)"

definition put_slot :: "envdev_t \<Rightarrow> u8 list \<Rightarrow> u8 list \<Rightarrow> u8 list" where
  "put_slot dev b f = take (devoff dev) f @ b @ drop (devoff dev + length b) f"

definition in_flash :: "u8 list \<Rightarrow> envdev_t \<Rightarrow> bool" where
  "in_flash f dev \<longleftrightarrow> devname dev \<noteq> [] \<and> 4 < env_size dev \<and> erase_size dev = env_size dev \<and>
     devoff dev + env_size dev \<le> length f"

definition apart :: "envdev_t \<Rightarrow> envdev_t \<Rightarrow> bool" where
  "apart d e \<longleftrightarrow> devoff d + env_size d \<le> devoff e \<or> devoff e + env_size e \<le> devoff d"

definition wf_cfg :: "fw_config \<Rightarrow> envdev_t \<Rightarrow> nat \<Rightarrow> u8 list \<Rightarrow> bool" where
  "wf_cfg cfg dev2 n f \<longleftrightarrow> DEVICE2 cfg = Some dev2 \<and> in_flash f (DEVICE1 cfg) \<and> in_flash f dev2 \<and>
     apart (DEVICE1 cfg) dev2 \<and> env_size (DEVICE1 cfg) = n + 4 \<and> env_size dev2 = n + 4 \<and>
     length (default_environment cfg) \<le> n"

definition faultless :: "world \<Rightarrow> bool" where
  "faultless w \<longleftrightarrow> outcome w = (\<lambda>n. FOk)"

lemma length_slot: "in_flash f d \<Longrightarrow> length (slot f d) = env_size d"
  by (auto simp: slot_def in_flash_def min_def)

lemma length_put_slot:
  "in_flash f d \<Longrightarrow> length b = env_size d \<Longrightarrow> length (put_slot d b f) = length f"
  by (simp add: put_slot_def in_flash_def)

lemma in_flash_cong: "length f = length g \<Longrightarrow> in_flash f d = in_flash g d"
  by (simp add: in_flash_def)

lemma slot_put_same:
  "in_flash f d \<Longrightarrow> length b = env_size d \<Longrightarrow> slot (put_slot d b f) d = b"
  by (simp add: put_slot_def slot_def in_flash_def)

lemma slot_agree:
  assumes "\<forall>i. devoff d \<le> i \<and> i < devoff d + env_size d \<longrightarrow> g ! i = f ! i"
    and "length g = length f" and "in_flash f d"
  shows "slot g d = slot f d"
  using assms by (intro nth_equalityI) (auto simp: slot_def in_flash_def)

lemma put_slot_outside:
  assumes "in_flash f d" and "length b = env_size d" and "i < devoff d \<or> devoff d + env_size d \<le> i"
  shows "put_slot d b f ! i = f ! i"
  using assms by (auto simp: put_slot_def nth_append in_flash_def)

lemma slot_put_other:
  assumes "in_flash f d" and "in_flash f e" and "apart d e" and "length b = env_size d"
  shows "slot (put_slot d b f) e = slot f e"
  using assms by (intro slot_agree) (auto simp: apart_def length_put_slot intro!: put_slot_outside)

lemma put_slot_twice:
  "in_flash f d \<Longrightarrow> length b = env_size d \<Longrightarrow> length c = env_size d \<Longrightarrow>
   put_slot d c (put_slot d b f) = put_slot d c f"
  by (simp add: put_slot_def in_flash_def)

section \<open>Faultless runs\<close>

lemma sys_call_ok [simp]: "faultless w \<Longrightarrow> sys_call w s = (False, s\<lparr>calls := Suc (calls s)\<rparr>)"
  by (simp add: sys_call_def faultless_def Let_def)

lemma sys_open_ok [simp]: "faultless w \<Longrightarrow> p \<noteq> [] \<Longrightarrow>
    sys_open w p s = (False, s\<lparr>calls := Suc (calls s), fpos := 0\<rparr>)"
  by (simp add: sys_open_def Let_def)

lemma sys_lseek_ok [simp]: "faultless w \<Longrightarrow>
    sys_lseek w off s = (False, s\<lparr>calls := Suc (calls s), fpos := off\<rparr>)"
  by (simp add: sys_lseek_def Let_def)

lemma sys_read_ok [simp]: "faultless w \<Longrightarrow> fpos s + n \<le> length (flash s) \<Longrightarrow>
    sys_read w n s = (take n (drop (fpos s) (flash s)),
      s\<lparr>calls := Suc (calls s), fpos := fpos s + n\<rparr>)"
  by (simp add: sys_read_def Let_def xfer_def) (simp add: faultless_def)

lemma flash_io_read_ok:
  assumes w: "faultless w" and d: "d = envdevices s ! curdev s" "in_flash (flash s) d"
    and n: "env_size d = n + 4" "length (env_data s) = n"
  shows "\<exists>p c. flash_io_read w s = Some (0, s\<lparr>env_crc := le32_to (take 4 (slot (flash s) d)),
      fpos := p, env_data := drop 4 (slot (flash s) d), calls := c\<rparr>)"
proof -
  have b: "devoff d + (n + 4) \<le> length (flash s)" using d n by (simp add: in_flash_def)
  have t4: "take 4 (drop (devoff d) (flash s)) = take 4 (slot (flash s) d)"
    using n by (simp add: slot_def)
  have dn: "take n (drop (devoff d + 4) (flash s)) = drop 4 (slot (flash s) d)"
    using n by (simp add: slot_def drop_take add.commute)
  have len: "length (slot (flash s) d) = n + 4" using length_slot [OF d(2)] n by simp
  have nm: "devname d \<noteq> []" using d by (simp add: in_flash_def)
  show ?thesis
    using w b nm n len unfolding flash_io_read_def DEVNAME_def DEVOFFSET_def getenvsize_def
    by (auto simp: d(1) [symmetric] t4 dn mem_copy_def Let_def)
qed

text \<open>What \<open>env_init\<close> selects: the first slot whose CRC is right, else the default
  environment over what the second slot held.\<close>

definition env_select :: "fw_config \<Rightarrow> envdev_t \<Rightarrow> u8 list \<Rightarrow> nat \<times> u8 list" where
  "env_select cfg dev2 f =
     (if slot_ok (slot f (DEVICE1 cfg)) then (0, drop 4 (slot f (DEVICE1 cfg)))
      else if slot_ok (slot f dev2) then (1, drop 4 (slot f dev2))
      else (0, default_environment cfg @
               drop (length (default_environment cfg)) (drop 4 (slot f dev2))))"

lemma env_init_ok:
  assumes w: "faultless w" and c: "wf_cfg cfg dev2 n f"
  shows "\<exists>s. env_init w cfg (fw_start f) = Some (0, s) \<and> flash s = f \<and> flash_log s = [] \<and>
    envdevices s = [DEVICE1 cfg, dev2] \<and> HaveRedundEnv s \<and>
    (curdev s, env_data s) = env_select cfg dev2 f \<and> length (env_data s) = n"
proof -
  let ?d1 = "DEVICE1 cfg"
  from c have d2: "DEVICE2 cfg = Some dev2" and i1: "in_flash f ?d1" and i2: "in_flash f dev2"
    and n1: "env_size ?d1 = n + 4" and n2: "env_size dev2 = n + 4"
    and def: "length (default_environment cfg) \<le> n" by (auto simp: wf_cfg_def)
  have l1: "length (slot f ?d1) = n + 4" and l2: "length (slot f dev2) = n + 4"
    using length_slot i1 i2 n1 n2 by simp_all
  let ?s = "(fw_start f)\<lparr>calls := Suc (Suc (Suc 0)), envdevices := [?d1, dev2], HaveRedundEnv := True,
    env_data := replicate n 0, curdev := 0\<rparr>"
  obtain p1 c1 where r1: "flash_io_read w ?s = Some (0, ?s\<lparr>env_crc := le32_to (take 4 (slot f ?d1)),
      fpos := p1, env_data := drop 4 (slot f ?d1), calls := c1\<rparr>)"
    using flash_io_read_ok [OF w refl, of ?s n] i1 n1 by (auto simp: fw_start_def)
  let ?t = "?s\<lparr>env_crc := le32_to (take 4 (slot f ?d1)),
      fpos := p1, env_data := replicate n 0, calls := c1, curdev := 1\<rparr>"
  obtain p2 c2 where r2: "flash_io_read w ?t = Some (0, ?t\<lparr>env_crc := le32_to (take 4 (slot f dev2)),
      fpos := p2, env_data := drop 4 (slot f dev2), calls := c2\<rparr>)"
    using flash_io_read_ok [OF w refl, of ?t n] i2 n2 by (auto simp: fw_start_def)
  show ?thesis
    using r1 r2 w l1 l2 n1 n2 def d2
    by (simp add: env_init_def parse_config_def Let_def fw_start_def getenvsize_def crc_ok_def
        env_select_def slot_ok_def use_default_def mem_copy_def)
qed

lemma flash_apply_erase:
  assumes "in_flash f d"
  shows "flash_apply (FlashErase (devoff d) (env_size d)) f = put_slot d (replicate (env_size d) 255) f"
  using assms by (auto simp: put_slot_def in_flash_def min_def)

lemma and_ones: "a AND (255 :: u8) = a"
proof -
  have "(255 :: u8) = - 1" by simp
  then show ?thesis by (simp only: and.right_neutral)
qed

lemma map2_and_ones: "length bs = n \<Longrightarrow> map2 (\<lambda>a b. a AND b) bs (replicate n (255 :: u8) @ g) = bs"
  by (induction bs arbitrary: n) (auto simp: and_ones)

lemma flash_apply_prog:
  assumes "in_flash f d" and "length bs = env_size d"
  shows "flash_apply (FlashProg (devoff d) bs) (put_slot d (replicate (env_size d) 255) f) = put_slot d bs f"
  using assms map2_and_ones [of bs "env_size d" "drop (devoff d + env_size d) f"]
  by (auto simp: put_slot_def in_flash_def)

text \<open>The bytes written to a slot, and the two changes of the flash that write it.\<close>

definition sealed :: "u8 list \<Rightarrow> u8 list" where
  "sealed dat = le32_of (crc32 0 dat) @ dat"

definition slot_ops :: "envdev_t \<Rightarrow> u8 list \<Rightarrow> flash_op list" where
  "slot_ops d b = [FlashErase (devoff d) (env_size d), FlashProg (devoff d) b]"

lemma slot_ok_sealed: "slot_ok (sealed dat)"
  by (simp add: slot_ok_def sealed_def)

lemma flash_io_write_part_ok:
  assumes w: "faultless w" and d: "d = envdevices s ! i" "in_flash (flash s) d"
    and n: "env_size d = n + 4" "length (env_data s) = n" "getenvsize s = n"
  shows "\<exists>p c. flash_io_write_part w i s = Some (0, s\<lparr>calls := c,
      flash := put_slot d (le32_of (env_crc s) @ env_data s) (flash s),
      flash_log := flash_log s @ slot_ops d (le32_of (env_crc s) @ env_data s), fpos := p\<rparr>)"
proof -
  let ?b = "le32_of (env_crc s) @ env_data s"
  have e: "erase_size d = n + 4" "devoff d + (n + 4) \<le> length (flash s)"
    using d n by (auto simp: in_flash_def)
  have er: "flash_apply (FlashErase (devoff d) (n + 4)) (flash s)
      = put_slot d (replicate (n + 4) 255) (flash s)"
    using flash_apply_erase [OF d(2)] n by (simp del: flash_apply.simps)
  have pr: "flash_apply (FlashProg (devoff d) ?b) (put_slot d (replicate (n + 4) 255) (flash s))
      = put_slot d ?b (flash s)"
    using flash_apply_prog [OF d(2), of ?b] n by (simp del: flash_apply.simps)
  have len: "length (put_slot d (replicate (n + 4) 255) (flash s)) = length (flash s)"
    using length_put_slot [OF d(2)] n by simp
  have o: "outcome w = (\<lambda>k. FOk)" using w by (simp add: faultless_def)
  show ?thesis
    using w e n len
    by (simp add: flash_io_write_part_def DEVOFFSET_def DEVESIZE_def getenvsize_def
        d(1) [symmetric] sys_erase_def sys_write_def flash_do_def Let_def mem_copy_def mem_sub_def
        xfer_def o er pr slot_ops_def del: flash_apply.simps)
       blast
qed

text \<open>The slot written first, and the other one.\<close>

definition write_order :: "fw_config \<Rightarrow> envdev_t \<Rightarrow> nat \<Rightarrow> envdev_t \<times> envdev_t" where
  "write_order cfg dev2 cur = (if cur = 0 then (dev2, DEVICE1 cfg) else (DEVICE1 cfg, dev2))"

lemma flash_io_write_ok:
  assumes w: "faultless w" and c: "wf_cfg cfg dev2 n (flash s)"
    and s: "envdevices s = [DEVICE1 cfg, dev2]" "HaveRedundEnv s" "curdev s < 2"
      "length (env_data s) = n" "flash_log s = []"
    and o: "write_order cfg dev2 (curdev s) = (da, db)"
    and b: "b = le32_of (env_crc s) @ env_data s"
  shows "\<exists>s'. flash_io_write w s = Some (0, s') \<and> flash s' = put_slot db b (put_slot da b (flash s)) \<and>
    flash_log s' = slot_ops da b @ slot_ops db b"
proof -
  from c have i: "in_flash (flash s) (DEVICE1 cfg)" "in_flash (flash s) dev2"
    and n: "env_size (DEVICE1 cfg) = n + 4" "env_size dev2 = n + 4" by (auto simp: wf_cfg_def)
  define ia where "ia = (if curdev s = 0 then 1 else 0 :: nat)"
  define ib where "ib = (if curdev s = 0 then 0 else 1 :: nat)"
  have dab: "envdevices s ! ia = da" "envdevices s ! ib = db"
    using o s by (auto simp: ia_def ib_def write_order_def split: if_splits)
  have ab: "in_flash (flash s) da" "in_flash (flash s) db" "env_size da = n + 4" "env_size db = n + 4"
    using i n o by (auto simp: write_order_def split: if_splits)
  have cur: "curdev s = 0 \<or> curdev s = 1" using s by auto
  then have gs: "env_size (envdevices s ! curdev s) = n + 4" "devname (envdevices s ! curdev s) \<noteq> []"
    using s n i by (auto simp: in_flash_def)
  let ?s1 = "s\<lparr>calls := Suc (calls s), fpos := 0\<rparr>"
  obtain p1 c1 where r1: "flash_io_write_part w ia ?s1 = Some (0, ?s1\<lparr>calls := c1,
      flash := put_slot da b (flash s), flash_log := slot_ops da b, fpos := p1\<rparr>)"
    using flash_io_write_part_ok [OF w, of da ?s1 ia n] ab dab s gs b by (auto simp: getenvsize_def)
  let ?s2 = "?s1\<lparr>calls := c1,
      flash := put_slot da b (flash s), flash_log := slot_ops da b, fpos := p1\<rparr>"
  have "in_flash (put_slot da b (flash s)) db"
    using ab in_flash_cong [OF length_put_slot [OF ab(1)], of b db] s b by simp
  then obtain p2 c2 where r2: "flash_io_write_part w ib ?s2 = Some (0, ?s2\<lparr>calls := c2,
      flash := put_slot db b (put_slot da b (flash s)), flash_log := slot_ops da b @ slot_ops db b, fpos := p2\<rparr>)"
    using flash_io_write_part_ok [OF w, of db ?s2 ib n] ab dab s gs b by (auto simp: getenvsize_def)
  show ?thesis
    using cur r1 r2 w s gs unfolding ia_def ib_def
    by (auto simp: flash_io_write_def DEVNAME_def Let_def)
qed

lemma fw_setenvs_ok:
  assumes w: "faultless w" and c: "wf_cfg cfg dev2 n f" and sel: "env_select cfg dev2 f = (cur, old)"
    and st: "setenv_args old n False args = Some (Inr new)" "args \<noteq> []" "length new = n"
    and o: "write_order cfg dev2 cur = (da, db)"
  shows "\<exists>s'. fw_setenvs w cfg (cmd # args) (fw_start f) = Some (0, s') \<and>
    flash s' = put_slot db (sealed new) (put_slot da (sealed new) f) \<and>
    flash_log s' = slot_ops da (sealed new) @ slot_ops db (sealed new)"
proof -
  obtain s where s: "env_init w cfg (fw_start f) = Some (0, s)" "flash s = f" "flash_log s = []"
    "envdevices s = [DEVICE1 cfg, dev2]" "HaveRedundEnv s"
    "curdev s = cur" "env_data s = old" "length old = n"
    using env_init_ok [OF w c] sel by auto
  have cur: "cur < 2" using sel by (auto simp: env_select_def split: if_splits)
  then have "cur = 0 \<or> cur = 1" by auto
  then have g: "getenvsize s = n" using c s by (auto simp: getenvsize_def wf_cfg_def)
  let ?s3 = "s\<lparr>env_data := new, env_crc := crc32 0 new\<rparr>"
  obtain s' where "flash_io_write w ?s3 = Some (0, s')"
    "flash s' = put_slot db (sealed new) (put_slot da (sealed new) f)"
    "flash_log s' = slot_ops da (sealed new) @ slot_ops db (sealed new)"
    using flash_io_write_ok [OF w, of cfg dev2 n ?s3 da db "sealed new"] c s st cur o
    by (auto simp: sealed_def)
  then show ?thesis
    using s st g by (auto simp: fw_setenvs_def Let_def getenvsize_def Suc_le_eq)
qed

section \<open>Power cuts\<close>

text \<open>
  The contract of a store that keeps two copies and writes them one after the other.
  \<open>torn i f f'\<close> says that a write of copy \<open>i\<close> has begun on \<open>f\<close> and left
  \<open>f'\<close>: the other copy is untouched.
\<close>

definition pick :: "('b \<Rightarrow> bool) \<Rightarrow> ('f \<Rightarrow> bool \<Rightarrow> 'b) \<Rightarrow> 'f \<Rightarrow> 'b option" where
  "pick ok copy f = (if ok (copy f False) then Some (copy f False)
     else if ok (copy f True) then Some (copy f True) else None)"

locale two_copies =
  fixes copy :: "'f \<Rightarrow> bool \<Rightarrow> 'b"
    and ok :: "'b \<Rightarrow> bool"
    and put :: "bool \<Rightarrow> 'b \<Rightarrow> 'f \<Rightarrow> 'f"
    and torn :: "bool \<Rightarrow> 'f \<Rightarrow> 'f \<Rightarrow> bool"
    and good :: "'f \<Rightarrow> bool"
    and fits :: "'b \<Rightarrow> bool"
  assumes copy_put: "good f \<Longrightarrow> fits b \<Longrightarrow> copy (put i b f) j = (if j = i then b else copy f j)"
    and put_good: "good f \<Longrightarrow> fits b \<Longrightarrow> good (put i b f)"
    and torn_other: "good f \<Longrightarrow> torn i f f' \<Longrightarrow> copy f' (\<not> i) = copy f (\<not> i)"
begin

text \<open>The copy in use is written last, and a torn copy that passes its check is one of the
  two that were meant to be there: then every state in between reads as old or new.\<close>

lemma first_write_safe:
  assumes "good f" and "pick ok copy f = Some old" and "i \<longleftrightarrow> ok (copy f False)" and "torn i f f'"
    and "ok (copy f' i) \<Longrightarrow> copy f' i \<in> {copy f i, new}"
  shows "pick ok copy f' \<in> {Some old, Some new}"
  using assms torn_other [OF assms(1,4)] by (cases i) (auto simp: pick_def split: if_splits)

lemma second_write_safe:
  assumes "good f" and "pick ok copy f = Some old" and "i \<longleftrightarrow> ok (copy f False)"
    and "fits new" and "ok new" and "torn (\<not> i) (put i new f) f'"
    and "ok (copy f' (\<not> i)) \<Longrightarrow> copy f' (\<not> i) \<in> {copy f (\<not> i), new}"
  shows "pick ok copy f' \<in> {Some old, Some new}"
proof -
  have "copy f' i = new"
    using torn_other [OF put_good [OF assms(1,4)] assms(6)] copy_put [OF assms(1,4)] by simp
  with assms(2,3,5,7) show ?thesis by (cases i) (auto simp: pick_def split: if_splits)
qed

lemma both_written:
  assumes "good f" and "fits new" and "ok new"
  shows "pick ok copy (put (\<not> i) new (put i new f)) = Some new"
  using assms copy_put put_good by (simp add: pick_def)

end

text \<open>A change of the flash cut short: nothing outside its range is touched.\<close>

fun op_range :: "flash_op \<Rightarrow> nat set" where
  "op_range (FlashErase off n) = {off..<off + n}"
| "op_range (FlashProg off bs) = {off..<off + length bs}"

definition op_torn :: "flash_op \<Rightarrow> u8 list \<Rightarrow> u8 list \<Rightarrow> bool" where
  "op_torn p f f' \<longleftrightarrow> length f' = length f \<and> (\<forall>i < length f. i \<notin> op_range p \<longrightarrow> f' ! i = f ! i)"

text \<open>The flash contents a power cut can leave while the changes \<open>ps\<close> are made.\<close>

inductive power_cut :: "flash_op list \<Rightarrow> u8 list \<Rightarrow> u8 list \<Rightarrow> bool" where
  cut_done: "power_cut [] f f"
| cut_torn: "op_torn p f f' \<Longrightarrow> power_cut (p # ps) f f'"
| cut_next: "power_cut ps (flash_apply p f) f' \<Longrightarrow> power_cut (p # ps) f f'"

inductive_cases power_cut_NilE: "power_cut [] f f'"
inductive_cases power_cut_ConsE: "power_cut (p # ps) f f'"

definition dev_of :: "fw_config \<Rightarrow> envdev_t \<Rightarrow> bool \<Rightarrow> envdev_t" where
  "dev_of cfg dev2 i = (if i then dev2 else DEVICE1 cfg)"

definition slot_torn :: "fw_config \<Rightarrow> envdev_t \<Rightarrow> bool \<Rightarrow> u8 list \<Rightarrow> u8 list \<Rightarrow> bool" where
  "slot_torn cfg dev2 i f f' \<longleftrightarrow> length f' = length f \<and>
     (\<forall>k < length f. k < devoff (dev_of cfg dev2 i) \<or> devoff (dev_of cfg dev2 i) + env_size (dev_of cfg dev2 i) \<le> k
        \<longrightarrow> f' ! k = f ! k)"

lemma apart_sym: "apart d e = apart e d"
  by (auto simp: apart_def)

lemma wf_cfg_dev:
  assumes "wf_cfg cfg dev2 n f"
  shows "in_flash f (dev_of cfg dev2 i)" and "env_size (dev_of cfg dev2 i) = n + 4"
    and "apart (dev_of cfg dev2 i) (dev_of cfg dev2 (\<not> i))"
  using assms by (auto simp: wf_cfg_def dev_of_def apart_sym)

lemma wf_cfg_cong: "length f = length g \<Longrightarrow> wf_cfg cfg dev2 n f = wf_cfg cfg dev2 n g"
  by (simp add: wf_cfg_def in_flash_def)

lemma slot_put_dev:
  assumes "wf_cfg cfg dev2 n f" and "length b = n + 4"
  shows "slot (put_slot (dev_of cfg dev2 i) b f) (dev_of cfg dev2 j) =
    (if j = i then b else slot f (dev_of cfg dev2 j))"
proof (cases "j = i")
  case False
  then have "j = (\<not> i)" by auto
  with slot_put_other [OF wf_cfg_dev(1) [OF assms(1)] wf_cfg_dev(1) [OF assms(1)] wf_cfg_dev(3) [OF assms(1)]]
    wf_cfg_dev(2) [OF assms(1)] assms(2) show ?thesis by simp
qed (use slot_put_same wf_cfg_dev [OF assms(1)] assms(2) in simp)

interpretation fw_copies: two_copies "\<lambda>f i. slot f (dev_of cfg dev2 i)" slot_ok
  "\<lambda>i. put_slot (dev_of cfg dev2 i)" "slot_torn cfg dev2" "wf_cfg cfg dev2 n" "\<lambda>b. length b = n + 4"
proof unfold_locales
  fix f :: "u8 list" and b :: "u8 list" and i j :: bool
  assume c: "wf_cfg cfg dev2 n f" and b: "length b = n + 4"
  show "slot (put_slot (dev_of cfg dev2 i) b f) (dev_of cfg dev2 j) =
      (if j = i then b else slot f (dev_of cfg dev2 j))"
    by (rule slot_put_dev [OF c b])
  show "wf_cfg cfg dev2 n (put_slot (dev_of cfg dev2 i) b f)"
    using c wf_cfg_cong [OF length_put_slot] wf_cfg_dev [OF c] b by simp
next
  fix f i f' assume c: "wf_cfg cfg dev2 n f" and t: "slot_torn cfg dev2 i f f'"
  show "slot f' (dev_of cfg dev2 (\<not> i)) = slot f (dev_of cfg dev2 (\<not> i))"
    using t wf_cfg_dev(3) [OF c, of i] wf_cfg_dev(1) [OF c, of "\<not> i"]
    by (intro slot_agree) (auto simp: slot_torn_def apart_def in_flash_def)
qed

lemma flash_apply_length: "in_flash f d \<Longrightarrow> length b = env_size d \<Longrightarrow>
    p \<in> set (slot_ops d b) \<Longrightarrow> length (flash_apply p f) = length f"
  by (auto simp: slot_ops_def in_flash_def min_def)

lemma power_cut_slot:
  assumes c: "wf_cfg cfg dev2 n f" and b: "length b = n + 4"
    and cut: "power_cut (slot_ops (dev_of cfg dev2 i) b @ ps) f f'"
  shows "slot_torn cfg dev2 i f f' \<or> power_cut ps (put_slot (dev_of cfg dev2 i) b f) f'"
proof -
  let ?d = "dev_of cfg dev2 i"
  let ?e = "put_slot ?d (replicate (n + 4) 255) f"
  note d = wf_cfg_dev [OF c, of i]
  have e: "flash_apply (FlashErase (devoff ?d) (n + 4)) f = ?e"
    using flash_apply_erase [OF d(1)] d(2) by (simp del: flash_apply.simps)
  have p: "flash_apply (FlashProg (devoff ?d) b) ?e = put_slot ?d b f"
    using flash_apply_prog [OF d(1), of b] d(2) b by (simp del: flash_apply.simps)
  have le: "length ?e = length f" using length_put_slot [OF d(1)] d(2) by simp
  from cut have "power_cut (FlashErase (devoff ?d) (n + 4) # FlashProg (devoff ?d) b # ps) f f'"
    by (simp add: slot_ops_def d(2))
  then consider "op_torn (FlashErase (devoff ?d) (n + 4)) f f'"
    | "op_torn (FlashProg (devoff ?d) b) ?e f'" | "power_cut ps (put_slot ?d b f) f'"
    by (metis e p power_cut_ConsE)
  then show ?thesis
  proof cases
    case 1
    then show ?thesis using d(2) by (auto simp: op_torn_def slot_torn_def)
  next
    case 2
    then show ?thesis
      using d(2) b le put_slot_outside [OF d(1), of "replicate (n + 4) 255"]
      by (auto simp: op_torn_def slot_torn_def)
  qed simp
qed

lemma env_select_pick:
  assumes "pick slot_ok (\<lambda>f i. slot f (dev_of cfg dev2 i)) f = Some b"
  shows "snd (env_select cfg dev2 f) = drop 4 b"
  using assms by (auto simp: pick_def env_select_def dev_of_def split: if_splits)

lemma write_order_dev:
  "write_order cfg dev2 cur = (dev_of cfg dev2 (cur = 0), dev_of cfg dev2 (cur \<noteq> 0))"
  by (simp add: write_order_def dev_of_def)

lemma fw_setenvs_success:
  assumes w: "faultless w" and c: "wf_cfg cfg dev2 n f"
    and s1: "fw_setenvs w cfg argv (fw_start f) = Some (0, s1)"
    and sel: "env_select cfg dev2 f = (cur, old)"
  shows "\<exists>new. setenv_args old n False (tl argv) = Some (Inr new) \<and> length new = n \<and>
    flash s1 = put_slot (dev_of cfg dev2 (cur \<noteq> 0)) (sealed new)
      (put_slot (dev_of cfg dev2 (cur = 0)) (sealed new) f) \<and>
    flash_log s1 = slot_ops (dev_of cfg dev2 (cur = 0)) (sealed new) @
      slot_ops (dev_of cfg dev2 (cur \<noteq> 0)) (sealed new)"
proof -
  obtain s where s: "env_init w cfg (fw_start f) = Some (0, s)"
    "envdevices s = [DEVICE1 cfg, dev2]" "curdev s = cur" "env_data s = old" "length old = n"
    using env_init_ok [OF w c] sel by auto
  have "cur = 0 \<or> cur = 1" using sel by (auto simp: env_select_def split: if_splits)
  then have g: "getenvsize s = n" using c s by (auto simp: getenvsize_def wf_cfg_def)
  have argv: "2 \<le> length argv"
    using s1 by (auto simp: fw_setenvs_def EINVAL_def split: if_splits)
  then obtain cmd args where a: "argv = cmd # args" "args \<noteq> []"
    by (cases argv; cases "tl argv") auto
  have "\<exists>new. setenv_args old n False args = Some (Inr new)"
  proof (cases "setenv_args old n False args")
    case None
    then show ?thesis using s1 s g a by (simp add: fw_setenvs_def)
  next
    case (Some r)
    then show ?thesis
      using s1 s g a setenv_args_err [of old n False args] by (cases r) (auto simp: fw_setenvs_def)
  qed
  then obtain new where new: "setenv_args old n False args = Some (Inr new)" ..
  have len: "length new = n" using setenv_args_length [OF new] s by simp
  from fw_setenvs_ok [OF w c sel new a(2) len write_order_dev, of cmd] s1 new len show ?thesis
    unfolding a by auto
qed

lemma put_both:
  assumes c: "wf_cfg cfg dev2 n f" and lb: "length b = n + 4"
  shows "slot (put_slot (dev_of cfg dev2 (\<not> i)) b (put_slot (dev_of cfg dev2 i) b f)) (dev_of cfg dev2 j) = b"
    and "length (put_slot (dev_of cfg dev2 (\<not> i)) b (put_slot (dev_of cfg dev2 i) b f)) = length f"
    and "wf_cfg cfg dev2 n (put_slot (dev_of cfg dev2 (\<not> i)) b (put_slot (dev_of cfg dev2 i) b f))"
proof -
  have c1: "wf_cfg cfg dev2 n (put_slot (dev_of cfg dev2 i) b f)"
    by (rule fw_copies.put_good [OF c lb])
  show "slot (put_slot (dev_of cfg dev2 (\<not> i)) b (put_slot (dev_of cfg dev2 i) b f)) (dev_of cfg dev2 j) = b"
    using slot_put_dev [OF c1 lb] slot_put_dev [OF c lb] by auto
  show "length (put_slot (dev_of cfg dev2 (\<not> i)) b (put_slot (dev_of cfg dev2 i) b f)) = length f"
    using length_put_slot [OF wf_cfg_dev(1) [OF c1]] length_put_slot [OF wf_cfg_dev(1) [OF c]]
      wf_cfg_dev(2) [OF c] lb by simp
  show "wf_cfg cfg dev2 n (put_slot (dev_of cfg dev2 (\<not> i)) b (put_slot (dev_of cfg dev2 i) b f))"
    by (rule fw_copies.put_good [OF c1 lb])
qed

text \<open>A cut while both slots are written, the invalid or unused one first.\<close>

lemma power_cut_pick:
  defines "copy \<equiv> \<lambda>cfg dev2 f i. slot f (dev_of cfg dev2 i)"
  assumes c: "wf_cfg cfg dev2 n f" and lb: "length b = n + 4" and ok: "slot_ok b"
    and pk: "pick slot_ok (copy cfg dev2) f = Some old"
    and i: "i \<longleftrightarrow> slot_ok (copy cfg dev2 f False)"
    and cut: "power_cut (slot_ops (dev_of cfg dev2 i) b @ slot_ops (dev_of cfg dev2 (\<not> i)) b) f f'"
    and tn: "\<And>j. slot_ok (copy cfg dev2 f' j) \<Longrightarrow> copy cfg dev2 f' j \<in> {copy cfg dev2 f j, b}"
  shows "pick slot_ok (copy cfg dev2) f' \<in> {Some old, Some b} \<and> length f' = length f"
proof (cases "slot_torn cfg dev2 i f f'")
  case True
  with fw_copies.first_write_safe [OF c pk [unfolded copy_def] i [unfolded copy_def] True] tn
  show ?thesis by (simp add: slot_torn_def copy_def)
next
  case False
  let ?f1 = "put_slot (dev_of cfg dev2 i) b f"
  have c1: "wf_cfg cfg dev2 n ?f1" by (rule fw_copies.put_good [OF c lb])
  from False have "power_cut (slot_ops (dev_of cfg dev2 (\<not> i)) b @ []) ?f1 f'"
    using power_cut_slot [OF c lb cut] by simp
  from power_cut_slot [OF c1 lb this] consider
    "slot_torn cfg dev2 (\<not> i) ?f1 f'" | "f' = put_slot (dev_of cfg dev2 (\<not> i)) b ?f1"
    by (auto elim: power_cut_NilE)
  then show ?thesis
  proof cases
    case 1
    with fw_copies.second_write_safe [OF c pk [unfolded copy_def] i [unfolded copy_def] lb ok 1] tn
      length_put_slot [OF wf_cfg_dev(1) [OF c]] wf_cfg_dev(2) [OF c] lb
    show ?thesis by (simp add: slot_torn_def copy_def)
  next
    case 2
    with put_both(2) [OF c lb] fw_copies.both_written [OF c lb ok, of i] show ?thesis
      by (simp add: copy_def)
  qed
qed

section \<open>The commands on the flash\<close>

lemma fw_getenv_ok:
  assumes w: "faultless w" and c: "wf_cfg cfg dev2 n f"
    and rep: "env_rep (snd (env_select cfg dev2 f)) es" and nm: "wf_name name"
  shows "\<exists>s. fw_getenv w cfg name (fw_start f) = Some (env_lookup es name, s) \<and> flash s = f"
proof -
  obtain s where s: "env_init w cfg (fw_start f) = Some (0, s)" "flash s = f"
    "envdevices s = [DEVICE1 cfg, dev2]" "(curdev s, env_data s) = env_select cfg dev2 f"
    "length (env_data s) = n" using env_init_ok [OF w c] by auto
  have rep': "env_rep (env_data s) es" using rep s(4) by (metis snd_conv)
  have "curdev s = 0 \<or> curdev s = 1"
    using s(4) by (auto simp: env_select_def split: if_splits)
  then have g: "getenvsize s = length (env_data s)" using c s by (auto simp: getenvsize_def wf_cfg_def)
  obtain r where "getenv_data (env_data s) (length (env_data s)) name = Some r"
    "map_option (c_string (env_data s)) r = env_lookup es name" using getenv_rep [OF rep' nm] by auto
  then show ?thesis using s g by (auto simp: fw_getenv_def)
qed

lemma env_select_after:
  assumes c: "wf_cfg cfg dev2 n f" and n: "length new = n"
  shows "snd (env_select cfg dev2 (put_slot (dev_of cfg dev2 (\<not> i)) (sealed new)
      (put_slot (dev_of cfg dev2 i) (sealed new) f))) = new"
proof -
  have lb: "length (sealed new) = n + 4" using n by (simp add: sealed_def)
  from fw_copies.both_written [OF c lb slot_ok_sealed, of i] env_select_pick show ?thesis
    by (fastforce simp: sealed_def)
qed

lemma env_init_getenvsize:
  assumes "faultless w" and "wf_cfg cfg dev2 n f" and "env_init w cfg (fw_start f) = Some (0, s0)"
  shows "getenvsize s0 = n"
proof -
  have "(curdev s0, env_data s0) = env_select cfg dev2 f" "envdevices s0 = [DEVICE1 cfg, dev2]"
    using env_init_ok [OF assms(1,2)] assms(3) by auto
  moreover then have "curdev s0 = 0 \<or> curdev s0 = 1" by (auto simp: env_select_def split: if_splits)
  ultimately show ?thesis using assms(2) by (auto simp: getenvsize_def wf_cfg_def)
qed

lemma length_default_entries: "length (flat default_entries) \<le> 0x3FFA"
  by (simp add: default_entries_def c_str_def CONFIG_BOOTARGS_def CONFIG_BOOTCOMMAND_def)

lemma wf_default_entries: "\<forall>e \<in> set default_entries. wf_entry e"
  by (simp add: default_entries_def c_str_def CONFIG_BOOTARGS_def CONFIG_BOOTCOMMAND_def wf_entry_def)

text \<open>A small instance: a configuration with two slots of 20 bytes, a block that holds
  \<open>a=b\<close>, and a block with a wrong CRC.\<close>

definition demo_world :: world where
  "demo_world = \<lparr>outcome = (\<lambda>n. FOk), junk = (\<lambda>n. 0)\<rparr>"

definition demo_dev :: "nat \<Rightarrow> envdev_t" where
  "demo_dev off = \<lparr>devname = ''/dev/mtd/3'', devoff = off, env_size = 20, erase_size = 20\<rparr>"

definition demo_cfg :: fw_config where
  "demo_cfg = \<lparr>DEVICE1 = demo_dev 0, DEVICE2 = Some (demo_dev 20), default_environment = [0, 0, 0]\<rparr>"

definition demo_data :: "u8 list" where
  "demo_data = flat [[97, 61, 98]] @ replicate 12 0"

definition spoiled :: "u8 list \<Rightarrow> u8 list" where
  "spoiled dat = le32_of (NOT (crc32 0 dat)) @ dat"

definition demo_flash :: "u8 list" where
  "demo_flash = sealed demo_data @ sealed demo_data"

lemma not_slot_ok_spoiled: "\<not> slot_ok (spoiled dat)"
proof -
  have "NOT x \<noteq> (x :: u32)" for x
  proof
    assume "NOT x = x"
    then have "bit (NOT x) 0 = bit x 0" by simp
    then show False by (simp add: bit_not_iff)
  qed
  then show ?thesis by (metis append_eq_conv_conj le32_to_of length_le32_of slot_ok_def spoiled_def)
qed

lemma demo_rep: "env_rep demo_data [[97, 61, 98]]"
proof -
  have "demo_data = flat [[97, 61, 98]] @ 0 # replicate 11 0"
    by (simp add: demo_data_def numeral_eq_Suc)
  then show ?thesis by (auto simp: env_rep_def wf_entry_def)
qed

lemma demo_simps:
  "faultless demo_world" "wf_cfg demo_cfg (demo_dev 20) 16 demo_flash"
  "slot demo_flash (demo_dev 0) = sealed demo_data" "slot demo_flash (demo_dev 20) = sealed demo_data"
  "env_rep demo_data [[97, 61, 98]]" "length demo_data = 16"
  by (simp_all add: faultless_def demo_world_def wf_cfg_def demo_cfg_def demo_dev_def in_flash_def
      demo_flash_def sealed_def demo_data_def apart_def slot_def)
     (use demo_rep in \<open>simp add: demo_data_def\<close>)

lemma length_sealed_demo: "length (sealed demo_data) = 20"
  using demo_simps(6) by (simp add: sealed_def)

lemma demo_select: "env_select demo_cfg (demo_dev 20) demo_flash = (0, demo_data)"
  by (simp add: env_select_def demo_cfg_def demo_simps slot_ok_sealed) (simp add: sealed_def)

lemma demo_init: "\<exists>s. env_init demo_world demo_cfg (fw_start demo_flash) = Some (0, s) \<and>
    env_data s = demo_data"
  using env_init_ok [OF demo_simps(1,2)] demo_select by auto

lemma demo_names: "wf_name [99]" "wf_name [97]" "0 \<notin> set [100 :: u8]" "[100 :: u8] \<noteq> []"
  by (simp_all add: wf_name_def)

lemma demo_entry: "entry_name [97, 61, 98] = [97]" "entry_val [97, 61, 98] = [98]"
  by (simp_all add: entry_name_def entry_val_def)

lemma demo_set:
  "\<exists>s1 new. fw_setenvs demo_world demo_cfg [[], [99], [100]] (fw_start demo_flash) = Some (0, s1) \<and>
     length new = 16 \<and> flash_log s1 = slot_ops (demo_dev 20) (sealed new) @ slot_ops (demo_dev 0) (sealed new)"
proof -
  obtain new where new: "setenv_pair demo_data 16 False [99] (Some [100]) =
      Some (Inr (new, seen_old [[97, 61, 98]] False [99]))" "length new = 16"
    using setenv_pair_store [OF demo_simps(5) demo_names(1,3,4), of False] demo_simps(6) demo_entry
    by (auto simp: seen_old_def)
  then show ?thesis
    using fw_setenvs_ok [OF demo_simps(1,2) demo_select, of "[[99], [100]]" new "demo_dev 20" "demo_dev 0" "[]"]
    by (auto simp: write_order_def demo_cfg_def)
qed

section \<open>Properties\<close>

text \<open>C1. \<open>fw_setenv\<close> is safe against power cuts. Take a flash of which at least one slot is valid,
  and any flash \<open>f'\<close> that a power cut can leave while \<open>fw_setenvs\<close> writes. If a slot of
  \<open>f'\<close> that passes its CRC check holds what it held before or what was to be written, then
  the next start of the tools succeeds and finds the complete old or the complete new environment.\<close>

theorem setenvs_power_cut:
  assumes w: "faultless w" and c: "wf_cfg cfg dev2 n f"
    and valid: "slot_ok (slot f (DEVICE1 cfg)) \<or> slot_ok (slot f dev2)"
    and init: "env_init w cfg (fw_start f) = Some (0, s0)"
    and set: "fw_setenvs w cfg argv (fw_start f) = Some (0, s1)"
    and cut: "power_cut (flash_log s1) f f'"
    and torn: "\<forall>d \<in> {DEVICE1 cfg, dev2}. slot_ok (slot f' d) \<longrightarrow>
      slot f' d = slot f d \<or> slot f' d = slot (flash s1) d"
  shows "\<exists>s. env_init w cfg (fw_start f') = Some (0, s) \<and>
    (env_data s = env_data s0 \<or> env_data s = drop 4 (slot (flash s1) (DEVICE1 cfg)))"
proof -
  let ?dev = "dev_of cfg dev2" and ?copy = "\<lambda>f i. slot f (dev_of cfg dev2 i)"
  obtain cur old where sel: "env_select cfg dev2 f = (cur, old)" by fastforce
  obtain new where new: "length new = n"
    "flash s1 = put_slot (?dev (cur \<noteq> 0)) (sealed new) (put_slot (?dev (cur = 0)) (sealed new) f)"
    "flash_log s1 = slot_ops (?dev (cur = 0)) (sealed new) @ slot_ops (?dev (cur \<noteq> 0)) (sealed new)"
    using fw_setenvs_success [OF w c set sel] by auto
  have lb: "length (sealed new) = n + 4" using new by (simp add: sealed_def)
  have fin: "slot (flash s1) (?dev j) = sealed new" for j
    unfolding new(2) by (rule put_both(1) [OF c lb])
  have cur: "(cur = 0) = slot_ok (?copy f False)"
    using sel valid by (auto simp: env_select_def dev_of_def split: if_splits)
  obtain b where pk: "pick slot_ok ?copy f = Some b" and b: "old = drop 4 b"
    using valid sel by (auto simp: pick_def env_select_def dev_of_def split: if_splits)
  have tn: "slot_ok (?copy f' i) \<Longrightarrow> ?copy f' i \<in> {?copy f i, sealed new}" for i
    using torn fin [of i] by (cases i) (auto simp: dev_of_def)
  from power_cut_pick [OF c lb slot_ok_sealed pk cur cut [unfolded new(3)] tn]
  have p: "pick slot_ok ?copy f' = Some b \<or> pick slot_ok ?copy f' = Some (sealed new)"
    and cf: "wf_cfg cfg dev2 n f'" using wf_cfg_cong [of f f'] c by auto
  obtain s where s: "env_init w cfg (fw_start f') = Some (0, s)" "env_data s = snd (env_select cfg dev2 f')"
    using env_init_ok [OF w cf] by (metis snd_conv)
  moreover have "env_data s0 = old"
    using env_init_ok [OF w c] init sel by auto
  ultimately show ?thesis
    using p env_select_pick b fin [of False] by (auto simp: dev_of_def)
qed

theorem setenvs_power_cut_witness:
  "\<exists>s1 s. fw_setenvs demo_world demo_cfg [[], [99], [100]] (fw_start demo_flash) = Some (0, s1) \<and>
     env_init demo_world demo_cfg (fw_start (sealed demo_data @ spoiled demo_data)) = Some (0, s) \<and>
     (env_data s = demo_data \<or> env_data s = drop 4 (slot (flash s1) (DEVICE1 demo_cfg)))"
proof -
  let ?f' = "sealed demo_data @ spoiled demo_data"
  obtain s0 where s0: "env_init demo_world demo_cfg (fw_start demo_flash) = Some (0, s0)" "env_data s0 = demo_data"
    using demo_init by auto
  obtain s1 new where s1: "fw_setenvs demo_world demo_cfg [[], [99], [100]] (fw_start demo_flash) = Some (0, s1)"
    "flash_log s1 = slot_ops (demo_dev 20) (sealed new) @ slot_ops (demo_dev 0) (sealed new)"
    using demo_set by auto
  have "op_torn (FlashErase 20 20) demo_flash ?f'"
    using length_sealed_demo demo_simps(6)
    by (auto simp: op_torn_def demo_flash_def spoiled_def nth_append)
  then have cut: "power_cut (flash_log s1) demo_flash ?f'"
    by (simp add: s1(2) slot_ops_def demo_dev_def cut_torn)
  have sl: "slot ?f' (demo_dev 0) = sealed demo_data" "slot ?f' (demo_dev 20) = spoiled demo_data"
    using demo_simps(6) by (simp_all add: slot_def demo_dev_def sealed_def spoiled_def)
  have v: "slot_ok (slot demo_flash (DEVICE1 demo_cfg)) \<or> slot_ok (slot demo_flash (demo_dev 20))"
    by (simp add: demo_simps slot_ok_sealed)
  have t: "\<forall>d \<in> {DEVICE1 demo_cfg, demo_dev 20}. slot_ok (slot ?f' d) \<longrightarrow>
      slot ?f' d = slot demo_flash d \<or> slot ?f' d = slot (flash s1) d"
    by (simp add: demo_cfg_def sl demo_simps not_slot_ok_spoiled)
  from setenvs_power_cut [OF demo_simps(1,2) v s0(1) s1(1) cut t] s0(2) s1(1) show ?thesis by auto
qed

text \<open>C2. What \<open>fw_setenv\<close> stores is what the tools read back: if no system call fails
  (a failed write is not noticed, \<open>flash_io_write_hides_failure\<close>) and it reports success, a later
  \<open>fw_getenv\<close> finds each name with the value of the last assignment to it on the command
  line, deleted if that was empty, and every other name as it was.\<close>

theorem setenvs_then_getenv:
  assumes w: "faultless w" and c: "wf_cfg cfg dev2 n f"
    and init: "env_init w cfg (fw_start f) = Some (0, s0)" and inv: "env_inv (env_data s0)"
    and set: "fw_setenvs w cfg (cmd # args_of kvs) (fw_start f) = Some (0, s1)"
    and kvs: "\<forall>(k, v) \<in> set kvs. wf_name k \<and> 0 \<notin> set v" and nm: "wf_name name"
  shows "\<exists>s2. fw_getenv w cfg name (fw_start (flash s1)) =
    Some (spec_assign_list (\<lambda>v. v = []) kvs (env_get (env_data s0)) name, s2)"
proof -
  obtain cur old where sel: "env_select cfg dev2 f = (cur, old)" by fastforce
  have old: "old = env_data s0" "length old = n" using env_init_ok [OF w c] init sel by auto
  obtain new where new: "setenv_args old n False (args_of kvs) = Some (Inr new)" "length new = n"
    "flash s1 = put_slot (dev_of cfg dev2 (cur \<noteq> 0)) (sealed new)
      (put_slot (dev_of cfg dev2 (cur = 0)) (sealed new) f)"
    using fw_setenvs_success [OF w c set sel] by auto
  obtain old' where "assign_list setenv_assign kvs (old, False) = Some (new, old')"
    using setenv_args_assign_list [OF new(1)] old inv kvs by auto
  from fw_store.assign_list_spec [OF _ kvs this] inv old
  have inv': "env_inv new" and get: "env_get new name = spec_assign_list (\<lambda>v. v = []) kvs (env_get old) name"
    using nm by auto
  then obtain es where es: "env_rep new es" by (auto simp: env_inv_def)
  have lb: "length (sealed new) = n + 4" using new by (simp add: sealed_def)
  have c1: "wf_cfg cfg dev2 n (flash s1)"
    unfolding new(3) by (rule put_both(3) [OF c lb])
  have "env_rep (snd (env_select cfg dev2 (flash s1))) es"
    unfolding new(3) by (simp only: env_select_after [OF c new(2)] es)
  from fw_getenv_ok [OF w c1 this nm] get env_get_rep [OF es nm] old show ?thesis by auto
qed

theorem setenvs_then_getenv_witness:
  "\<exists>s1 s2. fw_setenvs demo_world demo_cfg [[], [99], [100]] (fw_start demo_flash) = Some (0, s1) \<and>
     fw_getenv demo_world demo_cfg [99] (fw_start (flash s1)) = Some (Some [100], s2)"
proof -
  obtain s0 where s0: "env_init demo_world demo_cfg (fw_start demo_flash) = Some (0, s0)" "env_data s0 = demo_data"
    using demo_init by auto
  obtain s1 where s1: "fw_setenvs demo_world demo_cfg ([] # args_of [([99], [100])]) (fw_start demo_flash) = Some (0, s1)"
    using demo_set by auto
  have inv: "env_inv (env_data s0)"
    using demo_simps(5) s0(2) by (auto simp: env_inv_def intro!: exI [of _ "[[97, 61, 98]]"])
  have k: "\<forall>(k, v) \<in> set [([99], [100])]. wf_name k \<and> 0 \<notin> set (v :: u8 list)"
    using demo_names by simp
  from setenvs_then_getenv [OF demo_simps(1,2) s0(1) inv s1 k demo_names(1)] s1 show ?thesis by auto
qed

text \<open>Setting one variable succeeds whenever the new definition fits, unless it is
  \<open>ethaddr\<close> or \<open>serial#\<close> and already set; the value can then be read back.\<close>

theorem setenv_total:
  assumes w: "faultless w" and c: "wf_cfg cfg dev2 n f"
    and init: "env_init w cfg (fw_start f) = Some (0, s0)" and rep: "env_rep (env_data s0) es"
    and nm: "wf_name name" and v: "0 \<notin> set v" "v \<noteq> []"
    and free: "\<not> (protected name \<and> name \<in> entry_name ` set es)"
    and fit: "length (flat (del_first name es)) + length name + length v + 3 \<le> n"
    and once: "distinct (map entry_name es)"
  shows "\<exists>s1 s2. fw_setenvs w cfg [cmd, name, v] (fw_start f) = Some (0, s1) \<and>
    fw_getenv w cfg name (fw_start (flash s1)) = Some (Some v, s2)"
proof -
  obtain cur old where sel: "env_select cfg dev2 f = (cur, old)" by fastforce
  have old: "old = env_data s0" "length old = n" using env_init_ok [OF w c] init sel by auto
  obtain new where new: "setenv_pair old n False name (Some v) = Some (Inr (new, seen_old es False name))"
    "env_rep new (env_assign es name v)" "length new = n"
    using setenv_pair_store [OF rep nm v, of False] free fit old by (auto simp: seen_old_def)
  obtain s1 where s1: "fw_setenvs w cfg [cmd, name, v] (fw_start f) = Some (0, s1)"
    "flash s1 = put_slot (dev_of cfg dev2 (cur \<noteq> 0)) (sealed new)
      (put_slot (dev_of cfg dev2 (cur = 0)) (sealed new) f)"
    using fw_setenvs_ok [OF w c sel, of "[name, v]" new, OF _ _ new(3) write_order_dev] new by auto
  have c1: "wf_cfg cfg dev2 n (flash s1)"
    unfolding s1(2) by (rule put_both(3) [OF c]) (use new in \<open>simp add: sealed_def\<close>)
  have "env_rep (snd (env_select cfg dev2 (flash s1))) (env_assign es name v)"
    unfolding s1(2) by (simp only: env_select_after [OF c new(3)] new(2))
  from fw_getenv_ok [OF w c1 this nm] env_lookup_assign [OF once nm] v s1 show ?thesis by auto
qed

theorem setenv_total_witness:
  "\<exists>s1 s2. fw_setenvs demo_world demo_cfg [[], [97], [100]] (fw_start demo_flash) = Some (0, s1) \<and>
    fw_getenv demo_world demo_cfg [97] (fw_start (flash s1)) = Some (Some [100], s2)"
proof -
  obtain s0 where s0: "env_init demo_world demo_cfg (fw_start demo_flash) = Some (0, s0)"
    "env_rep (env_data s0) [[97, 61, 98]]" using demo_init demo_simps(5) by auto
  have "\<not> (protected [97] \<and> [97] \<in> entry_name ` set [[97, 61, 98]])"
    by (simp add: protected_def ethaddr_def serial_no_def)
  from setenv_total [OF demo_simps(1,2) s0 demo_names(2-4) this] show ?thesis
    by (simp add: demo_entry)
qed

text \<open>When neither slot has a valid CRC the tools work on the default environment of
  \<^verbatim>\<open>fw_env.h\<close>: with its configuration and any flash of at least 32 KiB,
  \<open>fw_getenv\<close> returns for every name exactly the default value.\<close>

theorem default_environment_used:
  assumes w: "faultless w" and f: "0x8000 \<le> length f"
    and d2: "DEVICE2 fw_env_h = Some dev2"
    and bad: "\<not> slot_ok (slot f (DEVICE1 fw_env_h))" "\<not> slot_ok (slot f dev2)"
    and nm: "wf_name name"
  shows "\<exists>s. fw_getenv w fw_env_h name (fw_start f) = Some (env_lookup default_entries name, s)"
proof -
  have c: "wf_cfg fw_env_h dev2 0x3FFC f"
    using f d2 length_default_entries by (auto simp: wf_cfg_def in_flash_def apart_def fw_env_h_def)
  have "env_rep (default_environment fw_env_h @ rest) default_entries" for rest
    using wf_default_entries by (auto simp: env_rep_def fw_env_h_def default_entries_def)
  then have "env_rep (snd (env_select fw_env_h dev2 f)) default_entries"
    using bad by (simp add: env_select_def)
  from fw_getenv_ok [OF w c this nm] show ?thesis by auto
qed

theorem default_environment_used_witness:
  "\<exists>s. fw_getenv demo_world fw_env_h (c_str ''mtdset'')
      (fw_start (spoiled (replicate 0x3FFC 0) @ spoiled (replicate 0x3FFC 0))) =
    Some (Some (c_str ''0''), s)"
proof -
  let ?b = "spoiled (replicate 0x3FFC 0)"
  let ?d2 = "\<lparr>devname = ''/dev/mtd/3'', devoff = 0x4000, env_size = 0x4000, erase_size = 0x4000\<rparr>"
  have l: "length ?b = 0x4000" by (simp add: spoiled_def)
  have b: "\<not> slot_ok (slot (?b @ ?b) (DEVICE1 fw_env_h))" "\<not> slot_ok (slot (?b @ ?b) ?d2)"
    using l not_slot_ok_spoiled by (simp_all add: slot_def fw_env_h_def)
  have d: "DEVICE2 fw_env_h = Some ?d2" by (simp add: fw_env_h_def)
  have n: "wf_name (c_str ''mtdset'')" by (simp add: wf_name_def c_str_def)
  have "env_lookup default_entries (c_str ''mtdset'') = Some (c_str ''0'')"
    by (simp add: env_lookup_def default_entries_def c_str_def entry_name_def entry_val_def
        CONFIG_BOOTARGS_def CONFIG_BOOTCOMMAND_def)
  with default_environment_used [OF demo_simps(1) _ d b n] l show ?thesis by simp
qed

text \<open>Assigning \<open>ethaddr\<close> or \<open>serial#\<close> a second time is refused with
  \<open>EROFS\<close>, and a definition that does not fit with -1; in both cases the flash is not touched.\<close>

theorem setenv_refused:
  assumes w: "faultless w" and c: "wf_cfg cfg dev2 n f"
    and init: "env_init w cfg (fw_start f) = Some (0, s0)" and rep: "env_rep (env_data s0) es"
    and nm: "wf_name name" and v: "v \<noteq> []"
    and why: "(protected name \<and> name \<in> entry_name ` set es) \<or>
      n < length (flat (del_first name es)) + length name + length v + 3"
  shows "\<exists>s1. fw_setenvs w cfg [cmd, name, v] (fw_start f) =
      Some (if protected name \<and> name \<in> entry_name ` set es then EROFS else - 1, s1) \<and>
    flash s1 = f \<and> flash_log s1 = []"
proof -
  have s0: "flash s0 = f" "flash_log s0 = []" "length (env_data s0) = n"
    and g: "getenvsize s0 = n"
    using env_init_ok [OF w c] init env_init_getenvsize [OF w c init] by auto
  have "setenv_pair (env_data s0) n False name (Some v) =
      Some (Inl (if protected name \<and> name \<in> entry_name ` set es then EROFS else - 1))"
  proof (cases "protected name \<and> name \<in> entry_name ` set es")
    case True
    then show ?thesis using setenv_pair_erofs [OF rep nm, of False v] s0 by (simp add: seen_old_def)
  next
    case False
    with why setenv_pair_overflow [OF rep nm v, of False] s0 show ?thesis
      by (auto simp: seen_old_def)
  qed
  then show ?thesis using init g s0 by (simp add: fw_setenvs_def)
qed

theorem setenv_refused_witness:
  "\<exists>s1. fw_setenvs demo_world demo_cfg [[], [97], replicate 16 100] (fw_start demo_flash) = Some (- 1, s1) \<and>
     flash s1 = demo_flash"
proof -
  obtain s0 where s0: "env_init demo_world demo_cfg (fw_start demo_flash) = Some (0, s0)"
    "env_rep (env_data s0) [[97, 61, 98]]" using demo_init demo_simps(5) by auto
  have np: "\<not> protected [97]" by (simp add: protected_def ethaddr_def serial_no_def)
  have v: "replicate 16 (100 :: u8) \<noteq> []" by simp
  from setenv_refused [OF demo_simps(1,2) s0 demo_names(2) v, of "[]"] np show ?thesis
    by (auto simp: demo_entry)
qed

text \<open>\<open>flash_io_write\<close> reports success although nothing was written: the results of
  \<open>flash_io_write_part\<close> are ignored, so when both erase calls fail it returns 0 and the
  flash is as before.\<close>

theorem flash_io_write_hides_failure:
  assumes "HaveRedundEnv s" and "DEVNAME s (curdev s) \<noteq> []"
    and "outcome w (calls s) = FOk" and "outcome w (calls s + 1) = FErr e1"
    and "outcome w (calls s + 2) = FErr e2" and "outcome w (calls s + 3) = FOk"
  shows "\<exists>s'. flash_io_write w s = Some (0, s') \<and> flash s' = flash s"
  using assms
  by (simp add: flash_io_write_def sys_open_def sys_call_def flash_io_write_part_def
      sys_erase_def Let_def eval_nat_numeral)

theorem flash_io_write_hides_failure_witness:
  "\<exists>s'. flash_io_write \<lparr>outcome = (\<lambda>n. if n = 1 \<or> n = 2 then FErr 5 else FOk), junk = (\<lambda>n. 0)\<rparr>
      ((fw_start demo_flash)\<lparr>envdevices := [demo_dev 0, demo_dev 20], HaveRedundEnv := True\<rparr>) = Some (0, s') \<and>
    flash s' = demo_flash"
  using flash_io_write_hides_failure [of
      "(fw_start demo_flash)\<lparr>envdevices := [demo_dev 0, demo_dev 20], HaveRedundEnv := True\<rparr>"
      "\<lparr>outcome = (\<lambda>n. if n = 1 \<or> n = 2 then FErr 5 else FOk), junk = (\<lambda>n. 0)\<rparr>" 5 5]
  by (simp add: fw_start_def DEVNAME_def demo_dev_def)

text \<open>A short read is taken for success: \<open>env_init\<close> returns \<open>errno\<close>, which a
  short transfer does not set, so the tools go on with an empty environment; a \<open>fw_setenv\<close>
  would then write that to both slots.\<close>

theorem env_init_short_read:
  assumes c: "wf_cfg cfg dev2 n f"
    and w: "outcome w = (\<lambda>k. if k = 5 then FShort m else FOk)" and m: "m < 4"
  shows "\<exists>s. env_init w cfg (fw_start f) = Some (0, s) \<and> env_data s = replicate n 0"
proof -
  from c have "in_flash f (DEVICE1 cfg)" "env_size (DEVICE1 cfg) = n + 4" "DEVICE2 cfg = Some dev2"
    by (auto simp: wf_cfg_def)
  then show ?thesis
    using w m by (auto simp: env_init_def parse_config_def sys_call_def Let_def fw_start_def
        flash_io_read_def sys_open_def sys_lseek_def sys_read_def xfer_def in_flash_def
        getenvsize_def DEVNAME_def DEVOFFSET_def)
qed

theorem env_init_short_read_witness:
  "\<exists>s. env_init \<lparr>outcome = (\<lambda>k. if k = 5 then FShort 0 else FOk), junk = (\<lambda>n. 0)\<rparr> demo_cfg
      (fw_start demo_flash) = Some (0, s) \<and> env_data s = replicate 16 0"
  using env_init_short_read [OF demo_simps(2), of
      "\<lparr>outcome = (\<lambda>k. if k = 5 then FShort 0 else FOk), junk = (\<lambda>n. 0)\<rparr>" 0] by simp

end
