(* ===== verification/Monitor.thy ===== *)
theory Monitor
  imports Prelude
begin

text \<open>
  \<^verbatim>\<open>monitor-hardware/files/monitor_msp430.c\<close>: the process that probes the
  MSP430 once a second and ends, for the watchdog to see, when too many probes in a row fail.
  The outcomes of the system calls of the successive rounds are given as a list; a run over it
  ends with the number of rounds done when the process left its loop, or with the counter when
  the loop goes on.
\<close>

section \<open>The loop\<close>

definition MAX_CONSECUTIVE_FAIL_COUNT :: int where
  "MAX_CONSECUTIVE_FAIL_COUNT = 30"

text \<open>One round: \<open>open\<close> failed, or \<open>read\<close> returned a value.\<close>

datatype probe = OpenFailed | ReadReturned int

definition probe_ret :: "probe \<Rightarrow> int" where
  "probe_ret p = (case p of OpenFailed \<Rightarrow> - 1 | ReadReturned ret \<Rightarrow> ret)"

text \<open>The body of the loop after the probe: \<^term>\<open>None\<close> is the \<open>break\<close>.\<close>

definition monitor_round :: "probe \<Rightarrow> int \<Rightarrow> int option" where
  "monitor_round p consecutive_fail_count =
     (if probe_ret p < 0 then
        (let n = consecutive_fail_count + 1 in
         if n > MAX_CONSECUTIVE_FAIL_COUNT then None else Some n)
      else Some 0)"

fun monitor_loop :: "probe list \<Rightarrow> nat \<Rightarrow> int \<Rightarrow> nat + int" where
  "monitor_loop [] k n = Inr n"
| "monitor_loop (p # ps) k n =
     (case monitor_round p n of None \<Rightarrow> Inl (Suc k) | Some n' \<Rightarrow> monitor_loop ps (Suc k) n')"

definition monitor_msp430 :: "probe list \<Rightarrow> nat + int" where
  "monitor_msp430 ps = monitor_loop ps 0 0"

section \<open>Specification\<close>

definition failed :: "probe \<Rightarrow> bool" where
  "failed p \<longleftrightarrow> probe_ret p < 0"

text \<open>The number of failed probes at the end of a run.\<close>

definition fails_at_end :: "probe list \<Rightarrow> nat" where
  "fails_at_end ps = length (takeWhile failed (rev ps))"

lemma fails_at_end_snoc: "fails_at_end (ps @ [p]) = (if failed p then Suc (fails_at_end ps) else 0)"
  by (simp add: fails_at_end_def)

lemma monitor_loop_append:
  "monitor_loop (ps @ qs) k n =
     (case monitor_loop ps k n of Inl r \<Rightarrow> Inl r | Inr n' \<Rightarrow> monitor_loop qs (k + length ps) n')"
  by (induction ps arbitrary: k n) (auto split: option.split sum.split)

lemma monitor_snoc:
  "monitor_msp430 (ps @ [p]) =
     (case monitor_msp430 ps of
        Inl r \<Rightarrow> Inl r
      | Inr n \<Rightarrow> (case monitor_round p n of None \<Rightarrow> Inl (Suc (length ps)) | Some n' \<Rightarrow> Inr n'))"
  by (simp add: monitor_msp430_def monitor_loop_append split: sum.split option.split)

text \<open>The counter is the number of failures since the last success.\<close>

lemma monitor_counter: "monitor_msp430 ps = Inr n \<Longrightarrow> n = int (fails_at_end ps) \<and> fails_at_end ps \<le> 30"
proof (induction ps arbitrary: n rule: rev_induct)
  case Nil
  then show ?case by (simp add: monitor_msp430_def fails_at_end_def)
next
  case (snoc p ps)
  from snoc.prems obtain n0 where n0: "monitor_msp430 ps = Inr n0" "monitor_round p n0 = Some n"
    by (auto simp: monitor_snoc split: sum.splits option.splits)
  from snoc.IH [OF n0(1)] n0(2) show ?case
    by (auto simp: fails_at_end_snoc monitor_round_def failed_def MAX_CONSECUTIVE_FAIL_COUNT_def Let_def
        split: if_splits)
qed

section \<open>Properties\<close>

text \<open>C21. The monitor is still running after the given probes exactly when no 31 of them in a row
  failed.\<close>

theorem monitor_runs_iff:
  "(\<exists>n. monitor_msp430 ps = Inr n) \<longleftrightarrow> (\<forall>k \<le> length ps. fails_at_end (take k ps) \<le> 30)"
proof (induction ps rule: rev_induct)
  case Nil
  then show ?case by (simp add: monitor_msp430_def fails_at_end_def)
next
  case (snoc p ps)
  have split: "(\<forall>k \<le> length (ps @ [p]). fails_at_end (take k (ps @ [p])) \<le> 30) \<longleftrightarrow>
      (\<forall>k \<le> length ps. fails_at_end (take k ps) \<le> 30) \<and> fails_at_end (ps @ [p]) \<le> 30"
    by (auto simp: le_Suc_eq)
  show ?case
  proof (cases "monitor_msp430 ps")
    case (Inl r)
    with snoc split show ?thesis by (simp add: monitor_snoc)
  next
    case (Inr n)
    with monitor_counter [OF this] snoc show ?thesis
      unfolding split
      by (auto simp: monitor_snoc fails_at_end_snoc monitor_round_def failed_def
          MAX_CONSECUTIVE_FAIL_COUNT_def Let_def)
  qed
qed

theorem monitor_runs_iff_witness:
  "\<exists>n. monitor_msp430 [OpenFailed, ReadReturned 3, ReadReturned (- 1)] = Inr n"
proof -
  have "fails_at_end (take k [OpenFailed, ReadReturned 3, ReadReturned (- 1)]) \<le> 30" for k
    using length_takeWhile_le [of failed "rev (take k [OpenFailed, ReadReturned 3, ReadReturned (- 1)])"]
    by (simp add: fails_at_end_def)
  then show ?thesis using monitor_runs_iff by blast
qed

text \<open>When the device stops answering the monitor ends: after any probes that left it running,
  31 failures make it leave its loop at the round where the count passes 30.\<close>

theorem monitor_detects_failure:
  assumes "monitor_msp430 ps = Inr n" and "\<forall>p \<in> set qs. failed p" and "length qs = 31"
  shows "\<exists>r. monitor_msp430 (ps @ qs) = Inl r \<and> length ps < r \<and> r \<le> length ps + 31"
proof -
  have run: "monitor_loop qs k c = Inl (k + nat (31 - c))"
    if "0 \<le> c" "c \<le> 30" "int (length qs) \<ge> 31 - c" "\<forall>p \<in> set qs. failed p" for qs k c
    using that
  proof (induction qs arbitrary: k c)
    case (Cons p qs)
    show ?case
    proof (cases "c = 30")
      case True
      with Cons.prems show ?thesis
        by (simp add: monitor_round_def failed_def MAX_CONSECUTIVE_FAIL_COUNT_def)
    next
      case False
      then have "nat (31 - c) = Suc (nat (31 - (c + 1)))" using Cons.prems by simp
      with False Cons show ?thesis
        by (simp add: monitor_round_def failed_def MAX_CONSECUTIVE_FAIL_COUNT_def)
    qed
  qed simp
  have n: "0 \<le> n" "n \<le> 30" using monitor_counter [OF assms(1)] by auto
  with run [of n qs "length ps"] assms show ?thesis
    by (auto simp: monitor_msp430_def monitor_loop_append)
qed

theorem monitor_detects_failure_witness:
  "\<exists>r. monitor_msp430 ([ReadReturned 5] @ replicate 31 OpenFailed) = Inl r \<and> 1 < r \<and> r \<le> 32"
  using monitor_detects_failure [of "[ReadReturned 5]" 0 "replicate 31 OpenFailed"]
  by (simp add: monitor_msp430_def monitor_round_def probe_ret_def failed_def)

end
