(* ===== verification/S3cGpio.thy ===== *)
theory S3cGpio
  imports Prelude
begin

text \<open>
  The pin interface of the S3C24xx, \<^verbatim>\<open>arch/arm/plat-s3c24xx/gpio.c\<close>,
  \<^verbatim>\<open>arch/arm/mach-s3c2410/gpio.c\<close> and the macros of
  \<^verbatim>\<open>regs-gpio.h\<close> and \<^verbatim>\<open>irqs.h\<close>: registers are 32-bit words
  in an I/O memory, each function is a read-modify-write of one or two of them. The contract
  \<open>pin_port\<close> is what the drivers use; it is proved here for the register model.
\<close>

section \<open>Registers\<close>

text \<open>A register is an offset in one of the mapped regions.\<close>

datatype reg = VA_GPIO nat | VA_GPIO2 nat | VA_ADC nat | VA_TIMER nat

type_synonym io = "reg \<Rightarrow> u32"

definition S3C2410_GPIO_BANKB :: nat where "S3C2410_GPIO_BANKB = 32"
definition S3C2410_GPIO_BANKF :: nat where "S3C2410_GPIO_BANKF = 32 * 5"
definition S3C2410_GPIO_BANKG :: nat where "S3C2410_GPIO_BANKG = 32 * 6"

definition S3C2410_GPF :: "nat \<Rightarrow> nat" where "S3C2410_GPF n = S3C2410_GPIO_BANKF + n"
definition S3C2410_GPG :: "nat \<Rightarrow> nat" where "S3C2410_GPG n = S3C2410_GPIO_BANKG + n"

definition S3C2410_GPIO_BASE :: "nat \<Rightarrow> nat" where
  "S3C2410_GPIO_BASE pin = (pin - pin mod 32) div 2"

definition S3C2410_GPIO_OFFSET :: "nat \<Rightarrow> nat" where
  "S3C2410_GPIO_OFFSET pin = pin mod 32"

definition S3C2410_GPIO_LEAVE :: u32 where "S3C2410_GPIO_LEAVE = 0xFFFFFFFF"
definition S3C2410_GPIO_INPUT :: u32 where "S3C2410_GPIO_INPUT = 0xFFFFFFF0"
definition S3C2410_GPIO_OUTPUT :: u32 where "S3C2410_GPIO_OUTPUT = 0xFFFFFFF1"
definition S3C2410_GPIO_SFN2 :: u32 where "S3C2410_GPIO_SFN2 = 0xFFFFFFF2"
definition S3C2410_GPIO_SFN3 :: u32 where "S3C2410_GPIO_SFN3 = 0xFFFFFFF3"

definition GPCON :: "nat \<Rightarrow> reg" where "GPCON pin = VA_GPIO (S3C2410_GPIO_BASE pin)"
definition GPDAT :: "nat \<Rightarrow> reg" where "GPDAT pin = VA_GPIO (S3C2410_GPIO_BASE pin + 4)"
definition GPUP :: "nat \<Rightarrow> reg" where "GPUP pin = VA_GPIO (S3C2410_GPIO_BASE pin + 8)"

definition S3C24XX_MISCCR :: reg where "S3C24XX_MISCCR = VA_GPIO2 0x80"
definition S3C24XX_EXTINT0 :: "nat \<Rightarrow> reg" where "S3C24XX_EXTINT0 d = VA_GPIO2 (0x88 + d)"
definition S3C24XX_EINFLT0 :: "nat \<Rightarrow> reg" where "S3C24XX_EINFLT0 d = VA_GPIO2 (0x94 + d)"

definition IRQ_EINT :: "nat \<Rightarrow> nat" where
  "IRQ_EINT n = (if n < 4 then 16 + n else 44 + n)"

section \<open>Operations\<close>

definition s3c2410_gpio_cfgpin :: "nat \<Rightarrow> u32 \<Rightarrow> io \<Rightarrow> io" where
  "s3c2410_gpio_cfgpin pin function m =
     (let off = S3C2410_GPIO_OFFSET pin;
          msk = (if pin < S3C2410_GPIO_BANKB then push_bit off 1 else push_bit (off * 2) 3);
          (msk, function) =
            (if function = S3C2410_GPIO_LEAVE then (0, 0)
             else if function \<in> {S3C2410_GPIO_INPUT, S3C2410_GPIO_OUTPUT, S3C2410_GPIO_SFN2,
                       S3C2410_GPIO_SFN3} then
               (msk, if pin < S3C2410_GPIO_BANKB then push_bit off ((function - 1) AND 1)
                     else push_bit (off * 2) (function AND 3))
             else (msk, function));
          con = m (GPCON pin) AND NOT msk OR function
      in m(GPCON pin := con))"

definition s3c2410_gpio_getcfg :: "nat \<Rightarrow> io \<Rightarrow> u32" where
  "s3c2410_gpio_getcfg pin m =
     (let val = m (GPCON pin) in
      (if pin < S3C2410_GPIO_BANKB
       then (drop_bit (S3C2410_GPIO_OFFSET pin) val AND 1) + 1
       else drop_bit (S3C2410_GPIO_OFFSET pin * 2) val AND 3) OR S3C2410_GPIO_INPUT)"

definition s3c2410_gpio_pullup :: "nat \<Rightarrow> u32 \<Rightarrow> io \<Rightarrow> io" where
  "s3c2410_gpio_pullup pin to m =
     (let offs = S3C2410_GPIO_OFFSET pin in
      if pin < S3C2410_GPIO_BANKB then m
      else m(GPUP pin := (m (GPUP pin) AND NOT (push_bit offs 1)) OR push_bit offs to))"

definition s3c2410_gpio_getpull :: "nat \<Rightarrow> io \<Rightarrow> int" where
  "s3c2410_gpio_getpull pin m =
     (if pin < S3C2410_GPIO_BANKB then - 22
      else if m (GPUP pin) AND push_bit (S3C2410_GPIO_OFFSET pin) 1 \<noteq> 0 then 1 else 0)"

definition s3c2410_gpio_setpin :: "nat \<Rightarrow> u32 \<Rightarrow> io \<Rightarrow> io" where
  "s3c2410_gpio_setpin pin to m =
     (let offs = S3C2410_GPIO_OFFSET pin in
      m(GPDAT pin := (m (GPDAT pin) AND NOT (push_bit offs 1)) OR push_bit offs to))"

definition s3c2410_gpio_getpin :: "nat \<Rightarrow> io \<Rightarrow> u32" where
  "s3c2410_gpio_getpin pin m = m (GPDAT pin) AND push_bit (S3C2410_GPIO_OFFSET pin) 1"

definition s3c2410_modify_misccr :: "u32 \<Rightarrow> u32 \<Rightarrow> io \<Rightarrow> u32 \<times> io" where
  "s3c2410_modify_misccr clear change m =
     (let misccr = (m S3C24XX_MISCCR AND NOT clear) XOR change
      in (misccr, m(S3C24XX_MISCCR := misccr)))"

definition s3c2410_gpio_getirq :: "nat \<Rightarrow> int" where
  "s3c2410_gpio_getirq pin =
     (if pin < S3C2410_GPF 0 \<or> pin > S3C2410_GPG 15 then - 1
      else if pin < S3C2410_GPG 0 \<and> pin > S3C2410_GPF 7 then - 1
      else if pin < S3C2410_GPF 4 then int (pin - S3C2410_GPF 0 + IRQ_EINT 0)
      else if pin < S3C2410_GPG 0 then int (pin - S3C2410_GPF 4 + IRQ_EINT 4)
      else int (pin - S3C2410_GPG 0 + IRQ_EINT 8))"

definition s3c2410_gpio_irq2pin :: "nat \<Rightarrow> int" where
  "s3c2410_gpio_irq2pin irq =
     (if irq \<ge> IRQ_EINT 0 \<and> irq \<le> IRQ_EINT 3 then int (S3C2410_GPF 0 + (irq - IRQ_EINT 0))
      else if irq \<ge> IRQ_EINT 4 \<and> irq \<le> IRQ_EINT 7 then int (S3C2410_GPF 4 + (irq - IRQ_EINT 4))
      else if irq \<ge> IRQ_EINT 8 \<and> irq \<le> IRQ_EINT 23 then int (S3C2410_GPG 0 + (irq - IRQ_EINT 8))
      else - 22)"

text \<open>\<open>s3c2410_gpio_irqfilter\<close>: the filter width of one external interrupt, and its enable bit.\<close>

definition irqfilter_no :: "nat \<Rightarrow> nat option" where
  "irqfilter_no pin =
     (if pin \<ge> S3C2410_GPG 8 \<and> pin \<le> S3C2410_GPG 12 then Some (pin - (S3C2410_GPG 8 - 16))
      else if pin \<ge> S3C2410_GPF 0 \<and> pin \<le> S3C2410_GPF 7 then Some (pin - S3C2410_GPF 0)
      else if pin \<ge> S3C2410_GPG 0 \<and> pin \<le> S3C2410_GPG 7 then Some (pin - (S3C2410_GPG 0 - 8))
      else None)"

definition s3c2410_gpio_irqfilter :: "nat \<Rightarrow> u32 \<Rightarrow> u32 \<Rightarrow> io \<Rightarrow> int \<times> io" where
  "s3c2410_gpio_irqfilter pin on config m =
     (case irqfilter_no pin of
        None \<Rightarrow> (- 22, m)
      | Some n \<Rightarrow>
          let config = config AND 0xff;
              reg_filter = S3C24XX_EINFLT0 (n div 4 * 4);
              reg_extint = S3C24XX_EXTINT0 (n div 8 * 4);
              b = n mod 8;
              m = m(reg_filter := (m reg_filter AND NOT (push_bit (b mod 4 * 8) 0xff))
                      OR push_bit (b mod 4 * 8) config);
              m = m(reg_extint := (m reg_extint AND NOT (push_bit (b * 4 + 3) 1))
                      OR push_bit (b * 4 + 3) on)
          in (0, m))"

text \<open>\<open>s3c_irqext_type\<close> of \<^verbatim>\<open>plat-s3c24xx/irq.c\<close>, which
  \<open>request_irq\<close> calls with the trigger of the interrupt: the pin becomes an interrupt input.\<close>

definition IRQT_BOTHEDGE :: nat where "IRQT_BOTHEDGE = 3"

definition extint_trigger :: "nat \<Rightarrow> u32 option" where
  "extint_trigger ty =
     (if ty = 0 then Some 0 else if ty = 1 then Some 4 else if ty = 2 then Some 2
      else if ty = 3 then Some 6 else if ty = 8 then Some 0 else if ty = 4 then Some 1 else None)"

definition s3c_irqext_type :: "nat \<Rightarrow> nat \<Rightarrow> io \<Rightarrow> int \<times> io" where
  "s3c_irqext_type irq ty m =
     (let where_to =
        (if irq \<ge> IRQ_EINT 0 \<and> irq \<le> IRQ_EINT 3 then
           Some (GPCON (S3C2410_GPF 0), S3C24XX_EXTINT0 0, (irq - IRQ_EINT 0) * 2, (irq - IRQ_EINT 0) * 4)
         else if irq \<ge> IRQ_EINT 4 \<and> irq \<le> IRQ_EINT 7 then
           Some (GPCON (S3C2410_GPF 0), S3C24XX_EXTINT0 0,
                 (irq - (IRQ_EINT 4 - 4)) * 2, (irq - (IRQ_EINT 4 - 4)) * 4)
         else if irq \<ge> IRQ_EINT 8 \<and> irq \<le> IRQ_EINT 15 then
           Some (GPCON (S3C2410_GPG 0), S3C24XX_EXTINT0 4, (irq - IRQ_EINT 8) * 2, (irq - IRQ_EINT 8) * 4)
         else if irq \<ge> IRQ_EINT 16 \<and> irq \<le> IRQ_EINT 23 then
           Some (GPCON (S3C2410_GPG 0), S3C24XX_EXTINT0 8, (irq - IRQ_EINT 8) * 2, (irq - IRQ_EINT 16) * 4)
         else None)
      in case where_to of
        None \<Rightarrow> (- 1, m)
      | Some (gpcon_reg, extint_reg, gpcon_offset, extint_offset) \<Rightarrow>
          let m = m(gpcon_reg := (m gpcon_reg AND NOT (push_bit gpcon_offset 3)) OR push_bit gpcon_offset 2)
          in case extint_trigger ty of
               None \<Rightarrow> (- 1, m)
             | Some newvalue \<Rightarrow>
                 (0, m(extint_reg := (m extint_reg AND NOT (push_bit extint_offset 7))
                         OR push_bit extint_offset newvalue)))"

section \<open>The contract of the pins\<close>

text \<open>A pin of the banks B to H, which have two configuration bits per pin.\<close>

definition port_pin :: "nat \<Rightarrow> bool" where
  "port_pin pin \<longleftrightarrow> S3C2410_GPIO_BANKB \<le> pin \<and> S3C2410_GPIO_OFFSET pin < 16"

definition pin_function :: "u32 \<Rightarrow> bool" where
  "pin_function f \<longleftrightarrow> f \<in> {S3C2410_GPIO_INPUT, S3C2410_GPIO_OUTPUT, S3C2410_GPIO_SFN2, S3C2410_GPIO_SFN3}"

lemmas pin_consts = S3C2410_GPIO_LEAVE_def S3C2410_GPIO_INPUT_def S3C2410_GPIO_OUTPUT_def
  S3C2410_GPIO_SFN2_def S3C2410_GPIO_SFN3_def

lemma base_16: "S3C2410_GPIO_BASE p = 16 * (p div 32)"
  by (simp add: S3C2410_GPIO_BASE_def minus_mod_eq_mult_div)

lemma reg_neq [simp]:
  "GPCON p \<noteq> GPDAT q" "GPDAT q \<noteq> GPCON p" "GPCON p \<noteq> GPUP q" "GPUP q \<noteq> GPCON p"
  "GPDAT p \<noteq> GPUP q" "GPUP q \<noteq> GPDAT p"
proof -
  have "16 * a \<noteq> 16 * b + 4" "16 * a \<noteq> 16 * b + 8" "16 * a + 4 \<noteq> 16 * b + 8" for a b :: nat
    by presburger+
  then show "GPCON p \<noteq> GPDAT q" "GPDAT q \<noteq> GPCON p" "GPCON p \<noteq> GPUP q" "GPUP q \<noteq> GPCON p"
    "GPDAT p \<noteq> GPUP q" "GPUP q \<noteq> GPDAT p"
    unfolding GPCON_def GPDAT_def GPUP_def base_16 reg.inject by metis+
qed

lemma base_offset_inj:
  assumes "S3C2410_GPIO_BASE p = S3C2410_GPIO_BASE q"
    and "S3C2410_GPIO_OFFSET p = S3C2410_GPIO_OFFSET q"
  shows "p = q"
proof -
  from assms(1) have "p div 32 = q div 32" by (simp add: base_16)
  with assms(2) show ?thesis unfolding S3C2410_GPIO_OFFSET_def by (metis div_mult_mod_eq)
qed

lemma reg_same_bank:
  "GPCON p = GPCON q \<longleftrightarrow> S3C2410_GPIO_BASE p = S3C2410_GPIO_BASE q"
  "GPDAT p = GPDAT q \<longleftrightarrow> S3C2410_GPIO_BASE p = S3C2410_GPIO_BASE q"
  "GPUP p = GPUP q \<longleftrightarrow> S3C2410_GPIO_BASE p = S3C2410_GPIO_BASE q"
  by (simp_all add: GPCON_def GPDAT_def GPUP_def)

text \<open>On these pins the operations are field updates.\<close>

lemma cfgpin_put_bits:
  assumes "port_pin p" and "pin_function f"
  shows "s3c2410_gpio_cfgpin p f m =
    m(GPCON p := put_bits (S3C2410_GPIO_OFFSET p * 2) (mask 2) (f AND 3) (m (GPCON p)))"
proof -
  have "\<not> p < S3C2410_GPIO_BANKB" "f \<noteq> S3C2410_GPIO_LEAVE"
    using assms by (auto simp: port_pin_def pin_function_def pin_consts)
  with assms show ?thesis
    unfolding s3c2410_gpio_cfgpin_def pin_function_def
    by (simp add: Let_def put_bits_def mask_2_u32 [symmetric])
qed

lemma getcfg_get_bits:
  "port_pin p \<Longrightarrow> s3c2410_gpio_getcfg p m =
     get_bits (S3C2410_GPIO_OFFSET p * 2) (mask 2) (m (GPCON p)) OR S3C2410_GPIO_INPUT"
  by (simp add: s3c2410_gpio_getcfg_def port_pin_def Let_def get_bits_def mask_2_u32 [symmetric])

lemma and3_mask: "(f AND 3) AND mask 2 = (f AND 3 :: u32)"
  by (simp add: mask_2_u32 [symmetric] and.assoc)

lemma function_code: "pin_function f \<Longrightarrow> (f AND 3) OR S3C2410_GPIO_INPUT = f"
  by (auto simp: pin_function_def pin_consts)

lemma getcfg_cfgpin:
  assumes "port_pin p" and "pin_function f"
  shows "s3c2410_gpio_getcfg p (s3c2410_gpio_cfgpin p f m) = f"
proof -
  have "S3C2410_GPIO_OFFSET p * 2 + 2 \<le> 32" using assms(1) by (simp add: port_pin_def)
  from get_put_same [OF and3_mask this] show ?thesis
    using assms by (simp add: getcfg_get_bits cfgpin_put_bits function_code)
qed

lemma getcfg_cfgpin_other:
  assumes "port_pin p" and "port_pin q" and "p \<noteq> q" and "pin_function f"
  shows "s3c2410_gpio_getcfg q (s3c2410_gpio_cfgpin p f m) = s3c2410_gpio_getcfg q m"
proof (cases "S3C2410_GPIO_BASE p = S3C2410_GPIO_BASE q")
  case True
  let ?k = "S3C2410_GPIO_OFFSET p * 2" and ?j = "S3C2410_GPIO_OFFSET q * 2"
  from True assms(3) have "S3C2410_GPIO_OFFSET p \<noteq> S3C2410_GPIO_OFFSET q" using base_offset_inj by blast
  then have "?j + 2 \<le> ?k \<or> ?k + 2 \<le> ?j" by linarith
  note other = get_put_other [OF and3_mask this]
  from True have "GPCON p = GPCON q" by (simp add: reg_same_bank)
  then show ?thesis using assms by (simp add: getcfg_get_bits cfgpin_put_bits other)
next
  case False
  then have "GPCON p \<noteq> GPCON q" by (simp add: reg_same_bank)
  then show ?thesis using assms by (simp add: getcfg_get_bits cfgpin_put_bits)
qed

lemma getpin_bit: "s3c2410_gpio_getpin p m \<noteq> 0 \<longleftrightarrow> bit (m (GPDAT p)) (S3C2410_GPIO_OFFSET p)"
  by (simp add: s3c2410_gpio_getpin_def push_bit_of_1 and_exp_eq_0_iff_not_bit)

lemma setpin_put_bits:
  "s3c2410_gpio_setpin p to m = m(GPDAT p := put_bits (S3C2410_GPIO_OFFSET p) 1 to (m (GPDAT p)))"
  by (simp add: s3c2410_gpio_setpin_def Let_def put_bits_def)

lemma bit_of_bool_u32: "bit (of_bool b :: u32) i \<longleftrightarrow> b \<and> i = 0"
  by (auto simp: bit_of_bool_iff)

lemma bit_one_u32: "bit (1 :: u32) i \<longleftrightarrow> i = 0"
  by (simp add: bit_1_iff)

lemma getpin_setpin:
  assumes "port_pin p"
  shows "s3c2410_gpio_getpin p (s3c2410_gpio_setpin p (of_bool b) m) \<noteq> 0 \<longleftrightarrow> b"
  using assms by (simp add: getpin_bit setpin_put_bits bit_put_bits bit_of_bool_u32 bit_one_u32 port_pin_def)

lemma getpin_setpin_other:
  assumes "port_pin p" and "port_pin q" and "p \<noteq> q"
  shows "s3c2410_gpio_getpin q (s3c2410_gpio_setpin p (of_bool b) m) \<noteq> 0 \<longleftrightarrow> s3c2410_gpio_getpin q m \<noteq> 0"
proof (cases "GPDAT q = GPDAT p")
  case True
  then have "S3C2410_GPIO_OFFSET p \<noteq> S3C2410_GPIO_OFFSET q"
    using assms(3) base_offset_inj by (auto simp: reg_same_bank)
  with True assms(2) show ?thesis
    unfolding getpin_bit setpin_put_bits
    by (auto simp: bit_put_bits bit_of_bool_u32 bit_one_u32 port_pin_def)
qed (simp add: getpin_bit setpin_put_bits)

text \<open>The interface of the drivers: pins with a function and a level, each set on its own.\<close>

locale pin_port =
  fixes cfg :: "nat \<Rightarrow> 's \<Rightarrow> 'f"
    and set_cfg :: "nat \<Rightarrow> 'f \<Rightarrow> 's \<Rightarrow> 's"
    and level :: "nat \<Rightarrow> 's \<Rightarrow> bool"
    and set_level :: "nat \<Rightarrow> bool \<Rightarrow> 's \<Rightarrow> 's"
    and pin :: "nat \<Rightarrow> bool"
    and func :: "'f \<Rightarrow> bool"
  assumes cfg_set: "pin p \<Longrightarrow> pin q \<Longrightarrow> func f \<Longrightarrow> cfg q (set_cfg p f m) = (if q = p then f else cfg q m)"
    and level_set: "pin p \<Longrightarrow> pin q \<Longrightarrow> level q (set_level p b m) = (if q = p then b else level q m)"
    and level_cfg: "pin p \<Longrightarrow> pin q \<Longrightarrow> func f \<Longrightarrow> level q (set_cfg p f m) = level q m"
    and cfg_level: "pin p \<Longrightarrow> pin q \<Longrightarrow> cfg q (set_level p b m) = cfg q m"
begin

lemma cfg_fold:
  "\<forall>p \<in> set ps. pin p \<Longrightarrow> pin q \<Longrightarrow> func f \<Longrightarrow>
   cfg q (fold (\<lambda>p. set_cfg p f) ps m) = (if q \<in> set ps then f else cfg q m)"
  by (induction ps arbitrary: m) (auto simp: cfg_set)

lemma level_fold:
  "\<forall>p \<in> set ps. pin p \<Longrightarrow> pin q \<Longrightarrow> func f \<Longrightarrow>
   level q (fold (\<lambda>p. set_cfg p f) ps m) = level q m"
  by (induction ps arbitrary: m) (auto simp: level_cfg)

end

interpretation s3c: pin_port s3c2410_gpio_getcfg s3c2410_gpio_cfgpin
  "\<lambda>p m. s3c2410_gpio_getpin p m \<noteq> 0" "\<lambda>p b. s3c2410_gpio_setpin p (of_bool b)" port_pin pin_function
proof unfold_locales
  fix p q f b and m :: io
  assume p: "port_pin p" and q: "port_pin q"
  show "pin_function f \<Longrightarrow>
      s3c2410_gpio_getcfg q (s3c2410_gpio_cfgpin p f m) = (if q = p then f else s3c2410_gpio_getcfg q m)"
    using p q by (simp add: getcfg_cfgpin getcfg_cfgpin_other)
  show "(s3c2410_gpio_getpin q (s3c2410_gpio_setpin p (of_bool b) m) \<noteq> 0) =
      (if q = p then b else s3c2410_gpio_getpin q m \<noteq> 0)"
    using getpin_setpin [OF p] getpin_setpin_other [OF p q] by auto
  show "pin_function f \<Longrightarrow>
      (s3c2410_gpio_getpin q (s3c2410_gpio_cfgpin p f m) \<noteq> 0) = (s3c2410_gpio_getpin q m \<noteq> 0)"
    using p by (simp add: getpin_bit cfgpin_put_bits)
  show "s3c2410_gpio_getcfg q (s3c2410_gpio_setpin p (of_bool b) m) = s3c2410_gpio_getcfg q m"
    using q by (simp add: getcfg_get_bits setpin_put_bits)
qed

lemma port_pin_FG [simp]: "n < 16 \<Longrightarrow> port_pin (S3C2410_GPF n)" "n < 16 \<Longrightarrow> port_pin (S3C2410_GPG n)"
  by (simp_all add: port_pin_def S3C2410_GPF_def S3C2410_GPG_def S3C2410_GPIO_BANKF_def
      S3C2410_GPIO_BANKG_def S3C2410_GPIO_BANKB_def S3C2410_GPIO_OFFSET_def mod_add_left_eq [symmetric])

lemma pin_function_consts [simp]: "pin_function S3C2410_GPIO_INPUT" "pin_function S3C2410_GPIO_OUTPUT"
  "pin_function S3C2410_GPIO_SFN2" "pin_function S3C2410_GPIO_SFN3"
  by (simp_all add: pin_function_def)

lemma pins_inj [simp]: "S3C2410_GPF a = S3C2410_GPF b \<longleftrightarrow> a = b" "S3C2410_GPG a = S3C2410_GPG b \<longleftrightarrow> a = b"
  "a < 32 \<Longrightarrow> S3C2410_GPF a \<noteq> S3C2410_GPG b" "a < 32 \<Longrightarrow> S3C2410_GPG b \<noteq> S3C2410_GPF a"
  by (simp_all add: S3C2410_GPF_def S3C2410_GPG_def S3C2410_GPIO_BANKF_def S3C2410_GPIO_BANKG_def)

text \<open>Setting up an interrupt is configuring its pin, and a register of the second set.\<close>

definition eint_pin :: "nat \<Rightarrow> nat" where
  "eint_pin n = (if n < 8 then S3C2410_GPF n else S3C2410_GPG (n - 8))"

lemma port_pin_eint [simp]: "n < 24 \<Longrightarrow> port_pin (eint_pin n)"
  by (simp add: eint_pin_def)

lemma eint_con:
  assumes "n < 24"
  shows "GPCON (eint_pin n) = (if n < 8 then GPCON (S3C2410_GPF 0) else GPCON (S3C2410_GPG 0)) \<and>
    S3C2410_GPIO_OFFSET (eint_pin n) = (if n < 8 then n else n - 8)"
proof -
  have F: "(32 * 5 + k) div 32 = 5 \<and> (32 * 5 + k) mod 32 = k"
    and G: "(32 * 6 + k) div 32 = 6 \<and> (32 * 6 + k) mod 32 = k" if "k < 32" for k :: nat
    using that by (simp_all only: div_mult_self4 mod_mult_self4) simp_all
  show ?thesis
  proof (cases "n < 8")
    case True
    with F [of n] show ?thesis
      by (simp add: eint_pin_def GPCON_def base_16 S3C2410_GPIO_OFFSET_def S3C2410_GPF_def
          S3C2410_GPIO_BANKF_def)
  next
    case False
    with assms have "184 + n = 32 * 6 + (n - 8)" "n - 8 < 32" by simp_all
    with G [of "n - 8"] have "(184 + n) div 32 = 6" "(184 + n) mod 32 = n - 8" by metis+
    with False show ?thesis
      by (simp add: eint_pin_def GPCON_def base_16 S3C2410_GPIO_OFFSET_def S3C2410_GPG_def
          S3C2410_GPIO_BANKG_def)
  qed
qed

lemma extint_neq [simp]: "S3C24XX_EXTINT0 d \<noteq> GPCON p" "GPCON p \<noteq> S3C24XX_EXTINT0 d"
  "S3C24XX_EXTINT0 d \<noteq> GPDAT p" "GPDAT p \<noteq> S3C24XX_EXTINT0 d"
  "S3C24XX_EINFLT0 d \<noteq> GPCON p" "GPCON p \<noteq> S3C24XX_EINFLT0 d"
  "S3C24XX_EINFLT0 d \<noteq> GPDAT p" "GPDAT p \<noteq> S3C24XX_EINFLT0 d"
  by (simp_all add: S3C24XX_EXTINT0_def S3C24XX_EINFLT0_def GPCON_def GPDAT_def)

lemma irqext_type_cfgpin:
  assumes n: "n < 24"
  shows "\<exists>d v. s3c_irqext_type (IRQ_EINT n) IRQT_BOTHEDGE m =
    (0, (s3c2410_gpio_cfgpin (eint_pin n) S3C2410_GPIO_SFN2 m)(S3C24XX_EXTINT0 d := v))"
proof -
  have two: "S3C2410_GPIO_SFN2 AND 3 = 2" by (simp add: S3C2410_GPIO_SFN2_def)
  consider "n < 4" | "4 \<le> n" "n < 8" | "8 \<le> n" "n < 16" | "16 \<le> n" "n < 24" using n by linarith
  then show ?thesis
    using n
    by cases (auto simp: s3c_irqext_type_def IRQT_BOTHEDGE_def extint_trigger_def IRQ_EINT_def Let_def
        cfgpin_put_bits eint_con [OF n] put_bits_def two mask_2_u32 [symmetric])
qed

lemma offset_FG [simp]: "n < 32 \<Longrightarrow> S3C2410_GPIO_OFFSET (S3C2410_GPF n) = n"
  "n < 32 \<Longrightarrow> S3C2410_GPIO_OFFSET (S3C2410_GPG n) = n"
  unfolding S3C2410_GPIO_OFFSET_def S3C2410_GPF_def S3C2410_GPG_def S3C2410_GPIO_BANKF_def
    S3C2410_GPIO_BANKG_def mod_mult_self4 by simp_all

lemma base_FG: "n < 32 \<Longrightarrow> S3C2410_GPIO_BASE (S3C2410_GPF n) = 0x50"
  "n < 32 \<Longrightarrow> S3C2410_GPIO_BASE (S3C2410_GPG n) = 0x60"
  unfolding base_16 S3C2410_GPF_def S3C2410_GPG_def S3C2410_GPIO_BANKF_def S3C2410_GPIO_BANKG_def
    div_mult_self4 [OF zero_neq_numeral [symmetric]] by simp_all

section \<open>Properties\<close>

text \<open>Configuring a pin of banks B to H to one of the four functions changes the function of
  that pin and of no other, no level and no pull-up.\<close>

theorem cfgpin_frame:
  assumes "port_pin p" and "pin_function f"
  shows "s3c2410_gpio_getcfg p (s3c2410_gpio_cfgpin p f m) = f \<and>
    (port_pin q \<and> q \<noteq> p \<longrightarrow> s3c2410_gpio_getcfg q (s3c2410_gpio_cfgpin p f m) = s3c2410_gpio_getcfg q m) \<and>
    s3c2410_gpio_getpin q (s3c2410_gpio_cfgpin p f m) = s3c2410_gpio_getpin q m \<and>
    s3c2410_gpio_getpull q (s3c2410_gpio_cfgpin p f m) = s3c2410_gpio_getpull q m"
proof -
  have "s3c2410_gpio_cfgpin p f m r = m r" if "r \<noteq> GPCON p" for r
    using assms that by (simp add: cfgpin_put_bits)
  then show ?thesis
    using assms by (simp add: getcfg_cfgpin getcfg_cfgpin_other s3c2410_gpio_getpin_def
        s3c2410_gpio_getpull_def)
qed

theorem cfgpin_frame_witness:
  "s3c2410_gpio_getcfg (S3C2410_GPG 4) (s3c2410_gpio_cfgpin (S3C2410_GPG 4) S3C2410_GPIO_SFN2 (\<lambda>r. 0)) = S3C2410_GPIO_SFN2 \<and>
   s3c2410_gpio_getcfg (S3C2410_GPG 5) (s3c2410_gpio_cfgpin (S3C2410_GPG 4) S3C2410_GPIO_SFN2 (\<lambda>r. 0))
     = s3c2410_gpio_getcfg (S3C2410_GPG 5) (\<lambda>r. 0)"
  using cfgpin_frame [of "S3C2410_GPG 4" S3C2410_GPIO_SFN2 "\<lambda>r. 0" "S3C2410_GPG 5"] by simp

text \<open>What \<open>s3c2410_gpio_setpin\<close> does with any value: besides the pin itself it sets
  the level of each following pin of the bank for which the value has a bit. Only 0 and 1 leave the
  neighbours alone.\<close>

theorem setpin_bits:
  "bit (s3c2410_gpio_setpin p to m (GPDAT p)) i \<longleftrightarrow>
     i < 32 \<and> (bit (m (GPDAT p)) i \<and> i \<noteq> S3C2410_GPIO_OFFSET p \<or>
       S3C2410_GPIO_OFFSET p \<le> i \<and> bit to (i - S3C2410_GPIO_OFFSET p))"
  by (auto simp: setpin_put_bits bit_put_bits bit_one_u32)

text \<open>Pins and external interrupts correspond one to one: the 24 interrupt pins are those of
  GPF0 to GPF7 and GPG0 to GPG15, and the two conversions are inverse to each other.\<close>

theorem getirq_irq2pin:
  assumes "n < 24"
  shows "s3c2410_gpio_irq2pin (IRQ_EINT n) =
      int (if n < 8 then S3C2410_GPF n else S3C2410_GPG (n - 8)) \<and>
    s3c2410_gpio_getirq (nat (s3c2410_gpio_irq2pin (IRQ_EINT n))) = int (IRQ_EINT n)"
  using assms
  by (auto simp: s3c2410_gpio_irq2pin_def s3c2410_gpio_getirq_def IRQ_EINT_def S3C2410_GPF_def
      S3C2410_GPG_def S3C2410_GPIO_BANKF_def S3C2410_GPIO_BANKG_def)

theorem getirq_irq2pin_witness:
  "s3c2410_gpio_irq2pin (IRQ_EINT 12) = int (S3C2410_GPG 4) \<and>
   s3c2410_gpio_getirq (S3C2410_GPG 4) = int (IRQ_EINT 12)"
proof -
  have "s3c2410_gpio_irq2pin (IRQ_EINT 12) = int (S3C2410_GPG 4)"
    and "s3c2410_gpio_getirq (nat (s3c2410_gpio_irq2pin (IRQ_EINT 12))) = int (IRQ_EINT 12)"
    by (rule getirq_irq2pin [of 12, THEN conjunct1, simplified])
       (rule getirq_irq2pin [of 12, THEN conjunct2], simp)
  then show ?thesis by (simp only: nat_int)
qed

end
