(* ===== verification/JiveInput.thy ===== *)
theory JiveInput
  imports S3cGpio
begin

text \<open>
  What the two input drivers of the Jive remote share: the events they hand to the input layer,
  the kernel services their setup uses (whose results are parameters), the loop that sets
  up their interrupts, and the contract of a driver that sleeps on an interrupt, scans from a
  timer while there is activity and then sleeps again.
\<close>

section \<open>Kernel services\<close>

definition HZ :: u32 where "HZ = 200"

datatype input_event = ReportKey nat bool | ReportRel int | InputSync

text \<open>The results of the services that can fail, by interrupt number where that matters.\<close>

record services =
  alloc_ok :: bool
  request_ret :: "nat \<Rightarrow> int"
  wake_ret :: "nat \<Rightarrow> int"

text \<open>The interrupts the driver holds, the ones enabled for wake-up, those it freed without
  holding them, and whether its input device is registered.\<close>

record kern =
  k_io :: io
  k_held :: "nat list"
  k_wake :: "nat list"
  k_unowned :: "nat list"
  k_registered :: bool

definition request_irq :: "services \<Rightarrow> nat \<Rightarrow> kern \<Rightarrow> int \<times> kern" where
  "request_irq sv irq k =
     (if request_ret sv irq < 0 then (request_ret sv irq, k)
      else (request_ret sv irq,
            k\<lparr>k_io := snd (s3c_irqext_type irq IRQT_BOTHEDGE (k_io k)), k_held := irq # k_held k\<rparr>))"

definition set_irq_wake :: "services \<Rightarrow> nat \<Rightarrow> bool \<Rightarrow> kern \<Rightarrow> int \<times> kern" where
  "set_irq_wake sv irq on k =
     (if \<not> on then (0, k\<lparr>k_wake := removeAll irq (k_wake k)\<rparr>)
      else if wake_ret sv irq < 0 then (wake_ret sv irq, k)
      else (wake_ret sv irq, k\<lparr>k_wake := irq # k_wake k\<rparr>))"

definition free_irq :: "nat \<Rightarrow> kern \<Rightarrow> kern" where
  "free_irq irq k =
     (if irq \<in> set (k_held k) then k\<lparr>k_held := removeAll irq (k_held k)\<rparr>
      else k\<lparr>k_unowned := irq # k_unowned k\<rparr>)"

text \<open>The key as the input layer sees it.\<close>

definition key_down :: "nat \<Rightarrow> input_event list \<Rightarrow> bool" where
  "key_down key es = foldl (\<lambda>b e. case e of ReportKey k v \<Rightarrow> if k = key then v else b | _ \<Rightarrow> b) False es"

lemma key_down_append [simp]: "key_down key (es @ [e]) =
    (case e of ReportKey k v \<Rightarrow> if k = key then v else key_down key es | _ \<Rightarrow> key_down key es)"
  by (cases e) (simp_all add: key_down_def)

lemma key_down_sync [simp]: "key_down key (es @ [e, InputSync]) = key_down key (es @ [e])"
  by (simp add: key_down_def)

lemma key_down_reports:
  assumes "\<forall>i \<in> set is. P i \<and> K i = K k \<longrightarrow> i = k" and "distinct is"
  shows "key_down (K k) (es @ concat (map (\<lambda>i. if P i then [ReportKey (K i) (V i)] else []) is)) =
    (if k \<in> set is \<and> P k then V k else key_down (K k) es)"
  using assms
proof (induction "is" arbitrary: es)
  case (Cons i "is")
  let ?es = "es @ (if P i then [ReportKey (K i) (V i)] else [])"
  have "key_down (K k) (?es @ concat (map (\<lambda>i. if P i then [ReportKey (K i) (V i)] else []) is)) =
    (if k \<in> set is \<and> P k then V k else key_down (K k) ?es)"
    by (rule Cons.IH) (use Cons.prems in auto)
  then have eq: "key_down (K k) (es @ concat (map (\<lambda>i. if P i then [ReportKey (K i) (V i)] else []) (i # is))) =
    (if k \<in> set is \<and> P k then V k else key_down (K k) ?es)" by simp
  show ?case
  proof (cases "P i \<and> K i = K k")
    case True
    then have "i = k" using Cons.prems(1) by simp
    with True Cons.prems(2) show ?thesis unfolding eq by simp
  next
    case False
    then have "key_down (K k) ?es = key_down (K k) es" "\<not> (k = i \<and> P k)" by auto
    then show ?thesis unfolding eq by auto
  qed
qed simp

section \<open>The loops over the interrupts\<close>

text \<open>The setup loop of \<open>wheel_init\<close> and \<open>matrix_init\<close>; the index of the interrupt at
  which it goes to the error label.\<close>

fun request_irqs :: "services \<Rightarrow> nat \<Rightarrow> nat list \<Rightarrow> kern \<Rightarrow> nat option \<times> kern" where
  "request_irqs sv gpio [] k = (None, k)"
| "request_irqs sv gpio (irq # irqs) k =
     (let (ret, k1) = request_irq sv irq k in
      if ret < 0 then (Some gpio, k1)
      else let (ret, k2) = set_irq_wake sv irq True k1 in
      if ret < 0 then (Some gpio, k2)
      else
        let k3 = k2\<lparr>k_io := snd (s3c2410_gpio_irqfilter (nat (s3c2410_gpio_irq2pin irq)) 1 0 (k_io k2))\<rparr>
        in request_irqs sv (Suc gpio) irqs k3)"

text \<open>The release loop of the error and exit paths.\<close>

fun release_irqs :: "services \<Rightarrow> nat list \<Rightarrow> kern \<Rightarrow> kern" where
  "release_irqs sv [] k = k"
| "release_irqs sv (irq # irqs) k =
     release_irqs sv irqs (free_irq irq (snd (set_irq_wake sv irq False k)))"

lemma release_irqs_held:
  "set (k_held (release_irqs sv irqs k)) = set (k_held k) - set irqs"
  by (induction irqs arbitrary: k) (auto simp: free_irq_def set_irq_wake_def)

lemma release_irqs_wake:
  "set (k_wake (release_irqs sv irqs k)) = set (k_wake k) - set irqs"
  by (induction irqs arbitrary: k) (auto simp: free_irq_def set_irq_wake_def)

lemma release_irqs_other [simp]:
  "k_io (release_irqs sv irqs k) = k_io k" "k_registered (release_irqs sv irqs k) = k_registered k"
  by (induction irqs arbitrary: k) (auto simp: free_irq_def set_irq_wake_def)

lemma release_irqs_unowned:
  "set irqs \<subseteq> set (k_held k) \<Longrightarrow> distinct irqs \<Longrightarrow> k_unowned (release_irqs sv irqs k) = k_unowned k"
proof (induction irqs arbitrary: k)
  case (Cons irq irqs)
  let ?k = "k\<lparr>k_wake := removeAll irq (k_wake k), k_held := removeAll irq (k_held k)\<rparr>"
  have "set irqs \<subseteq> set (k_held ?k)" "distinct irqs" using Cons.prems by auto
  from Cons.IH [OF this] Cons.prems show ?case by (simp add: free_irq_def set_irq_wake_def)
qed simp

lemma request_irqs_held:
  "set (k_held (snd (request_irqs sv g irqs k))) \<subseteq> set (k_held k) \<union> set irqs"
  "set (k_wake (snd (request_irqs sv g irqs k))) \<subseteq> set (k_wake k) \<union> set irqs"
  "k_registered (snd (request_irqs sv g irqs k)) = k_registered k"
  "k_unowned (snd (request_irqs sv g irqs k)) = k_unowned k"
  by (induction irqs arbitrary: g k)
     (fastforce simp: request_irq_def set_irq_wake_def Let_def split: if_splits)+

text \<open>A failure at index \<open>j\<close> leaves the interrupts before it held, and that one when it is its
  wake-up that failed.\<close>

lemma request_irqs_fail:
  "request_irqs sv g irqs k = (Some j, k') \<Longrightarrow> g \<le> j \<and> j < g + length irqs \<and>
     set (take (j - g) irqs) \<subseteq> set (k_held k') \<and> set (k_held k') \<subseteq> set (k_held k) \<union> set (take (Suc (j - g)) irqs) \<and>
     set (k_wake k') \<subseteq> set (k_wake k) \<union> set (take (j - g) irqs) \<and> set (k_held k) \<subseteq> set (k_held k')"
proof (induction irqs arbitrary: g k)
  case (Cons irq irqs)
  show ?case
  proof (cases "request_ret sv irq < 0 \<or> wake_ret sv irq < 0")
    case True
    with Cons.prems show ?thesis
      by (auto simp: request_irq_def set_irq_wake_def Let_def split: if_splits)
  next
    case False
    let ?k = "k\<lparr>k_held := irq # k_held k, k_wake := irq # k_wake k, k_io := snd (s3c2410_gpio_irqfilter
        (nat (s3c2410_gpio_irq2pin irq)) 1 0 (snd (s3c_irqext_type irq IRQT_BOTHEDGE (k_io k))))\<rparr>"
    from False Cons.prems have "request_irqs sv (Suc g) irqs ?k = (Some j, k')"
      by (simp add: request_irq_def set_irq_wake_def Let_def)
    from Cons.IH [OF this] have IH: "Suc g \<le> j" "j < Suc g + length irqs"
      "set (take (j - Suc g) irqs) \<subseteq> set (k_held k')"
      "set (k_held k') \<subseteq> insert irq (set (k_held k)) \<union> set (take (Suc (j - Suc g)) irqs)"
      "set (k_wake k') \<subseteq> insert irq (set (k_wake k)) \<union> set (take (j - Suc g) irqs)"
      "irq \<in> set (k_held k')" "set (k_held k) \<subseteq> set (k_held k')"
      by auto
    have "j - g = Suc (j - Suc g)" using IH(1) by simp
    with IH show ?thesis by auto
  qed
qed simp

text \<open>After a successful setup the pins of the interrupts are interrupt inputs, the others are
  as they were.\<close>

lemma getcfg_upd [simp]: "\<forall>p. r \<noteq> GPCON p \<Longrightarrow> s3c2410_gpio_getcfg p (m(r := v)) = s3c2410_gpio_getcfg p m"
  by (auto simp: s3c2410_gpio_getcfg_def)

lemma getcfg_irqfilter: "s3c2410_gpio_getcfg p (snd (s3c2410_gpio_irqfilter q on c m)) = s3c2410_gpio_getcfg p m"
  by (auto simp: s3c2410_gpio_irqfilter_def Let_def split: option.split)

lemma getcfg_irqext:
  assumes "n < 24" and "port_pin p"
  shows "s3c2410_gpio_getcfg p (snd (s3c_irqext_type (IRQ_EINT n) IRQT_BOTHEDGE m)) =
    (if p = eint_pin n then S3C2410_GPIO_SFN2 else s3c2410_gpio_getcfg p m)"
proof -
  obtain d v where "s3c_irqext_type (IRQ_EINT n) IRQT_BOTHEDGE m =
      (0, (s3c2410_gpio_cfgpin (eint_pin n) S3C2410_GPIO_SFN2 m)(S3C24XX_EXTINT0 d := v))"
    using irqext_type_cfgpin [OF assms(1)] by blast
  then show ?thesis using assms by (simp add: s3c.cfg_set)
qed

lemma request_irqs_ok:
  assumes "request_irqs sv g (map IRQ_EINT ns) k = (None, k')" and "\<forall>n \<in> set ns. n < 24" and "port_pin p"
  shows "s3c2410_gpio_getcfg p (k_io k') =
    (if p \<in> eint_pin ` set ns then S3C2410_GPIO_SFN2 else s3c2410_gpio_getcfg p (k_io k))"
  using assms
proof (induction ns arbitrary: g k)
  case (Cons n ns)
  let ?k = "k\<lparr>k_held := IRQ_EINT n # k_held k, k_wake := IRQ_EINT n # k_wake k,
      k_io := snd (s3c2410_gpio_irqfilter (nat (s3c2410_gpio_irq2pin (IRQ_EINT n))) 1 0
        (snd (s3c_irqext_type (IRQ_EINT n) IRQT_BOTHEDGE (k_io k))))\<rparr>"
  have r: "request_irqs sv (Suc g) (map IRQ_EINT ns) ?k = (None, k')"
    using Cons.prems(1) by (simp add: request_irq_def set_irq_wake_def Let_def split: if_splits)
  have "n < 24" "\<forall>n \<in> set ns. n < 24" using Cons.prems by simp_all
  with Cons.IH [OF r] Cons.prems(3) show ?case
    by (auto simp: getcfg_irqfilter getcfg_irqext)
qed simp

text \<open>Services that all succeed, and a kernel state in which the driver holds nothing.\<close>

definition all_ok :: services where
  "all_ok = \<lparr>alloc_ok = True, request_ret = (\<lambda>n. 0), wake_ret = (\<lambda>n. 0)\<rparr>"

definition fresh_kern :: kern where
  "fresh_kern = \<lparr>k_io = (\<lambda>r. 0), k_held = [], k_wake = [], k_unowned = [], k_registered = False\<rparr>"

lemma request_irqs_all_ok: "\<exists>k'. request_irqs all_ok g irqs k = (None, k')"
  by (induction irqs arbitrary: g k) (simp_all add: all_ok_def request_irq_def set_irq_wake_def Let_def)

section \<open>Sleeping on an interrupt, scanning from a timer\<close>

inductive scan_step ::
  "(u32 \<Rightarrow> 's \<Rightarrow> 's) \<Rightarrow> (u32 \<Rightarrow> 's \<Rightarrow> 's) \<Rightarrow> ('l \<Rightarrow> 's \<Rightarrow> 's) \<Rightarrow> ('s \<Rightarrow> bool) \<Rightarrow> 's \<Rightarrow> 's \<Rightarrow> bool"
  for irq scan sense armed where
  step_sense: "scan_step irq scan sense armed s (sense l s)"
| step_irq: "scan_step irq scan sense armed s (irq now s)"
| step_timer: "armed s \<Longrightarrow> scan_step irq scan sense armed s (scan now s)"

text \<open>
  The contract: the interrupt handler arms the timer; a scan arms it again or makes the pins
  interrupt inputs; the world outside changes levels only. Then the driver can never miss
  every further input: the timer is armed or the interrupts are listening.
\<close>

locale scanner =
  fixes irq :: "u32 \<Rightarrow> 's \<Rightarrow> 's"
    and scan :: "u32 \<Rightarrow> 's \<Rightarrow> 's"
    and sense :: "'l \<Rightarrow> 's \<Rightarrow> 's"
    and armed :: "'s \<Rightarrow> bool"
    and listening :: "'s \<Rightarrow> bool"
    and inv :: "'s \<Rightarrow> bool"
  assumes irq_armed: "armed (irq now s)"
    and scan_safe: "inv s \<Longrightarrow> armed (scan now s) \<or> listening (scan now s)"
    and sense_armed: "armed (sense l s) = armed s"
    and sense_listening: "listening (sense l s) = listening s"
    and irq_inv: "inv s \<Longrightarrow> inv (irq now s)"
    and scan_inv: "inv s \<Longrightarrow> inv (scan now s)"
    and sense_inv: "inv s \<Longrightarrow> inv (sense l s)"
begin

lemma never_deaf:
  assumes "(scan_step irq scan sense armed)\<^sup>*\<^sup>* s s'" and "inv s" and "armed s \<or> listening s"
  shows "inv s' \<and> (armed s' \<or> listening s')"
  using assms
proof (induction rule: rtranclp_induct)
  case (step s1 s2)
  then have IH: "inv s1" "armed s1 \<or> listening s1" by auto
  from step.hyps(2) show ?case
    by cases (use IH in \<open>auto simp: sense_armed sense_listening irq_armed scan_safe irq_inv scan_inv sense_inv\<close>)
qed simp

end

end
