(* ===== verification/JiveWheel.thy ===== *)
theory JiveWheel
  imports JiveInput
begin

text \<open>
  The scroll wheel driver, \<^verbatim>\<open>drivers/char/jive/jive_wheel.c\<close>: the quadrature
  decoder, the debounced centre button, and the handover between interrupt and timer. The
  levels of the pins are the data registers of the I/O memory.
\<close>

section \<open>The driver\<close>

definition PULSES_PER_DETENT :: int where "PULSES_PER_DETENT = 2"
definition DEBOUNCE_PERIOD_MS :: u32 where "DEBOUNCE_PERIOD_MS = 4"
definition KEY_RIGHT :: nat where "KEY_RIGHT = 106"

text \<open>The static variables; \<open>wtimer\<close> is the expiry of the pending timer, \<open>wout\<close> the
  events given to the input layer. The array \<open>state\<close> has
  \<^verbatim>\<open>PRESS_TIME_MS / DEBOUNCE_PERIOD_MS = 1\<close> element.\<close>

record wheel =
  pos :: int
  lastAB :: u32
  wstate :: "u32 list"
  last_button :: u32
  windex :: nat
  click_jiffies :: u32
  wtimer :: "u32 option"
  wio :: io
  wout :: "input_event list"

definition wheel_irqs :: "nat list" where
  "wheel_irqs = [IRQ_EINT 12, IRQ_EINT 13, IRQ_EINT 7]"

text \<open>The statement \<^verbatim>\<open>switch (ABCD)\<close>: the step of the wheel, 0 for no change and
  for the states it calls impossible.\<close>

definition wheel_turn :: "u32 \<Rightarrow> int" where
  "wheel_turn ABCD =
     (if ABCD \<in> {0x1, 0x8, 0x7, 0xE} then 1
      else if ABCD \<in> {0xB, 0x4, 0x2, 0xD} then - 1 else 0)"

definition sample_AB :: "io \<Rightarrow> u32" where
  "sample_AB m = (if s3c2410_gpio_getpin (S3C2410_GPG 4) m \<noteq> 0 then 1 else 0) OR
     (if s3c2410_gpio_getpin (S3C2410_GPG 5) m \<noteq> 0 then 2 else 0)"

definition report :: "input_event list \<Rightarrow> wheel \<Rightarrow> wheel" where
  "report es s = s\<lparr>wout := wout s @ es\<rparr>"

text \<open>The pins returned to interrupt mode at the end of a scan, and taken for input.\<close>

definition wheel_pins :: "nat list" where
  "wheel_pins = [S3C2410_GPG 4, S3C2410_GPG 5, S3C2410_GPF 7]"

definition cfg_pins :: "u32 \<Rightarrow> nat list \<Rightarrow> io \<Rightarrow> io" where
  "cfg_pins f ps m = fold (\<lambda>p. s3c2410_gpio_cfgpin p f) ps m"

text \<open>\<^verbatim>\<open>button = last_button << 1; button |= pin ? 1 : 0\<close>\<close>

definition shift_in :: "u32 \<Rightarrow> bool \<Rightarrow> u32" where
  "shift_in h b = push_bit 1 h OR (if b then 1 else 0)"

definition scan_sample :: "wheel \<Rightarrow> u32 \<times> u32 \<times> wheel" where
  "scan_sample s =
     (let index = (if windex s + 1 \<ge> length (wstate s) then 0 else windex s + 1);
          state = (wstate s)[index := sample_AB (wio s)];
          button = shift_in (last_button s) (s3c2410_gpio_getpin (S3C2410_GPF 7) (wio s) \<noteq> 0);
          AB = fold (\<lambda>x a. a AND x) state 0xFF
      in (AB, button, s\<lparr>windex := index, wstate := state\<rparr>))"

definition scan_rotate :: "u32 \<Rightarrow> u32 \<Rightarrow> wheel \<Rightarrow> wheel" where
  "scan_rotate jiffies AB s =
     (let t = wheel_turn (push_bit 2 AB OR lastAB s) in
      if t = 0 then s
      else s\<lparr>pos := pos s + t, lastAB := AB, click_jiffies := jiffies\<rparr>)"

definition scan_button :: "u32 \<Rightarrow> wheel \<Rightarrow> wheel" where
  "scan_button button s =
     (let s1 = (if button AND 0xFF \<noteq> last_button s AND 0xFF
                then (report [ReportKey KEY_RIGHT (button AND 0xFF > 0), InputSync] s)\<lparr>pos := 0\<rparr>
                else s)
      in s1\<lparr>last_button := button\<rparr>)"

definition scan_detent :: "wheel \<Rightarrow> wheel" where
  "scan_detent s =
     (let s1 = (if pos s > PULSES_PER_DETENT then (report [ReportRel 1, InputSync] s)\<lparr>pos := 0\<rparr> else s)
      in if pos s1 < - PULSES_PER_DETENT then (report [ReportRel (- 1), InputSync] s1)\<lparr>pos := 0\<rparr> else s1)"

definition scan_rearm :: "u32 \<Rightarrow> u32 \<Rightarrow> wheel \<Rightarrow> wheel" where
  "scan_rearm jiffies button s =
     (if jiffies < click_jiffies s + HZ div 2 \<or> button > 0
      then s\<lparr>wtimer := Some (jiffies + DEBOUNCE_PERIOD_MS * HZ div 1000)\<rparr>
      else s\<lparr>pos := 0, wio := cfg_pins S3C2410_GPIO_SFN2 wheel_pins (wio s)\<rparr>)"

text \<open>The timer function; the timer is no longer pending when it runs.\<close>

definition wheel_scan :: "u32 \<Rightarrow> wheel \<Rightarrow> wheel" where
  "wheel_scan jiffies s0 =
     (let (AB, button, s1) = scan_sample (s0\<lparr>wtimer := None\<rparr>);
          s2 = scan_rotate jiffies AB s1;
          s3 = scan_button button s2;
          s4 = scan_detent s3
      in scan_rearm jiffies button s4)"

definition wheel_irq :: "u32 \<Rightarrow> wheel \<Rightarrow> wheel" where
  "wheel_irq jiffies s =
     s\<lparr>wio := cfg_pins S3C2410_GPIO_INPUT wheel_pins (wio s), wtimer := Some jiffies\<rparr>"

text \<open>Setup and removal. The driver does nothing on another machine.\<close>

definition wheel_init :: "services \<Rightarrow> bool \<Rightarrow> kern \<Rightarrow> wheel \<Rightarrow> int \<times> kern \<times> wheel" where
  "wheel_init sv machine_is_jive k s =
     (if \<not> machine_is_jive then (0, k, s)
      else if \<not> alloc_ok sv then (- ENOMEM, k, s)
      else
        let k1 = k\<lparr>k_registered := True\<rparr>;
            s1 = s\<lparr>windex := 0, lastAB := 0, wstate := replicate (length (wstate s)) 0, wtimer := None\<rparr>
        in case request_irqs sv 0 wheel_irqs k1 of
             (None, k2) \<Rightarrow> (0, k2, s1\<lparr>wio := k_io k2\<rparr>)
           | (Some gpio, k2) \<Rightarrow>
               let k3 = release_irqs sv wheel_irqs k2
               in (- EIO, k3\<lparr>k_registered := False\<rparr>, s1\<lparr>wio := k_io k3\<rparr>))"

definition wheel_exit :: "services \<Rightarrow> kern \<Rightarrow> kern" where
  "wheel_exit sv k = (release_irqs sv wheel_irqs k)\<lparr>k_registered := False\<rparr>"

section \<open>The decoder\<close>

text \<open>The reference: a position on the circle of the four Gray codes, in the clockwise order
  of the comment in the code.\<close>

definition gray_index :: "u32 \<Rightarrow> int" where
  "gray_index ab = (if ab = 3 then 0 else if ab = 1 then 1 else if ab = 0 then 2 else 3)"

definition gray_code :: "int \<Rightarrow> u32" where
  "gray_code i = (if i mod 4 = 0 then 3 else if i mod 4 = 1 then 1 else if i mod 4 = 2 then 0 else 2)"

lemma u32_lt4: "a < 4 \<Longrightarrow> a = 0 \<or> a = 1 \<or> a = 2 \<or> a = (3 :: u32)"
  by unat_arith

section \<open>The invariant\<close>

definition wheel_inv :: "wheel \<Rightarrow> bool" where
  "wheel_inv s \<longleftrightarrow> length (wstate s) = 1 \<and> windex s = 0 \<and> lastAB s < 4 \<and>
     - PULSES_PER_DETENT \<le> pos s \<and> pos s \<le> PULSES_PER_DETENT"

definition listening :: "wheel \<Rightarrow> bool" where
  "listening s \<longleftrightarrow> (\<forall>p \<in> set wheel_pins. s3c2410_gpio_getcfg p (wio s) = S3C2410_GPIO_SFN2)"

text \<open>The levels of the pins of banks F and G change.\<close>

definition set_levels :: "u32 \<times> u32 \<Rightarrow> io \<Rightarrow> io" where
  "set_levels l m = m(GPDAT (S3C2410_GPF 0) := fst l, GPDAT (S3C2410_GPG 0) := snd l)"

lemma wheel_pins_port: "\<forall>p \<in> set wheel_pins. port_pin p"
  by (simp add: wheel_pins_def)

lemma getcfg_cfg_pins:
  "port_pin q \<Longrightarrow> pin_function f \<Longrightarrow>
   s3c2410_gpio_getcfg q (cfg_pins f wheel_pins m) = (if q \<in> set wheel_pins then f else s3c2410_gpio_getcfg q m)"
  unfolding cfg_pins_def by (rule s3c.cfg_fold [OF wheel_pins_port])

lemma getcfg_set_levels: "s3c2410_gpio_getcfg p (set_levels l m) = s3c2410_gpio_getcfg p m"
  by (simp add: set_levels_def)

lemma sample_AB_lt: "sample_AB m < 4"
  by (simp add: sample_AB_def)

lemma and_FF: "a < 4 \<Longrightarrow> 0xFF AND a = (a :: u32)"
  by (drule u32_lt4) auto

lemma scan_sample_inv:
  assumes "wheel_inv s"
  shows "scan_sample s = (sample_AB (wio s),
      shift_in (last_button s) (s3c2410_gpio_getpin (S3C2410_GPF 7) (wio s) \<noteq> 0), s\<lparr>wstate := [sample_AB (wio s)]\<rparr>)"
proof -
  obtain x where x: "wstate s = [x]" using assms by (auto simp: wheel_inv_def length_Suc_conv)
  moreover have "s\<lparr>windex := 0, wstate := y\<rparr> = s\<lparr>wstate := y\<rparr>" for y
    using assms by (simp add: wheel_inv_def)
  ultimately show ?thesis by (simp add: scan_sample_def Let_def and_FF sample_AB_lt)
qed

lemma scan_detent_pos: "- PULSES_PER_DETENT \<le> pos (scan_detent s) \<and> pos (scan_detent s) \<le> PULSES_PER_DETENT"
  by (simp add: scan_detent_def report_def Let_def PULSES_PER_DETENT_def)

lemma scan_frame [simp]:
  "wstate (scan_rotate j ab s) = wstate s" "windex (scan_rotate j ab s) = windex s"
  "wio (scan_rotate j ab s) = wio s" "last_button (scan_rotate j ab s) = last_button s"
  "wout (scan_rotate j ab s) = wout s"
  "wstate (scan_button b s) = wstate s" "windex (scan_button b s) = windex s"
  "lastAB (scan_button b s) = lastAB s" "wio (scan_button b s) = wio s"
  "last_button (scan_button b s) = b" "click_jiffies (scan_button b s) = click_jiffies s"
  "wstate (scan_detent s) = wstate s" "windex (scan_detent s) = windex s" "lastAB (scan_detent s) = lastAB s"
  "wio (scan_detent s) = wio s" "last_button (scan_detent s) = last_button s"
  "click_jiffies (scan_detent s) = click_jiffies s"
  "wstate (scan_rearm j b s) = wstate s" "windex (scan_rearm j b s) = windex s"
  "lastAB (scan_rearm j b s) = lastAB s" "last_button (scan_rearm j b s) = last_button s"
  "wout (scan_rearm j b s) = wout s"
  by (simp_all add: scan_rotate_def scan_button_def scan_detent_def scan_rearm_def report_def Let_def)

lemma wheel_scan_inv:
  assumes "wheel_inv s"
  shows "wheel_inv (wheel_scan j s)"
proof -
  let ?s = "s\<lparr>wtimer := None\<rparr>"
  have inv: "wheel_inv ?s" using assms by (simp add: wheel_inv_def)
  have "lastAB (scan_rotate j (sample_AB (wio s)) t) < 4" if "lastAB t < 4" for t
    using that sample_AB_lt by (simp add: scan_rotate_def Let_def)
  moreover have "- PULSES_PER_DETENT \<le> pos (scan_rearm j b t) \<and> pos (scan_rearm j b t) \<le> PULSES_PER_DETENT"
    if "- PULSES_PER_DETENT \<le> pos t" "pos t \<le> PULSES_PER_DETENT" for b t
    using that by (simp add: scan_rearm_def PULSES_PER_DETENT_def)
  ultimately show ?thesis
    using assms scan_detent_pos
    by (simp add: wheel_scan_def scan_sample_inv [OF inv] Let_def) (simp add: wheel_inv_def)
qed

lemma scan_rearm_safe: "wtimer (scan_rearm j b s) \<noteq> None \<or> listening (scan_rearm j b s)"
  using wheel_pins_port by (simp add: scan_rearm_def listening_def getcfg_cfg_pins)

interpretation wheel: scanner wheel_irq wheel_scan "\<lambda>l s. s\<lparr>wio := set_levels l (wio s)\<rparr>"
  "\<lambda>s. wtimer s \<noteq> None" listening wheel_inv
proof unfold_locales
  fix now :: u32 and s :: wheel and l
  show "wtimer (wheel_irq now s) \<noteq> None" by (simp add: wheel_irq_def)
  show "wtimer (wheel_scan now s) \<noteq> None \<or> listening (wheel_scan now s)"
    using scan_rearm_safe by (simp add: wheel_scan_def Let_def split: prod.split)
  show "(wtimer (s\<lparr>wio := set_levels l (wio s)\<rparr>) \<noteq> None) = (wtimer s \<noteq> None)" by simp
  show "listening (s\<lparr>wio := set_levels l (wio s)\<rparr>) = listening s"
    by (simp add: listening_def getcfg_set_levels)
  show "wheel_inv s \<Longrightarrow> wheel_inv (wheel_irq now s)" by (simp add: wheel_inv_def wheel_irq_def)
  show "wheel_inv s \<Longrightarrow> wheel_inv (wheel_scan now s)" by (rule wheel_scan_inv)
  show "wheel_inv s \<Longrightarrow> wheel_inv (s\<lparr>wio := set_levels l (wio s)\<rparr>)" by (simp add: wheel_inv_def)
qed

section \<open>Runs of scans\<close>

text \<open>A run of timer scans: the time, the levels of A and B and of the button at each.\<close>

definition levels :: "u32 \<Rightarrow> bool \<Rightarrow> io \<Rightarrow> io" where
  "levels ab b = set_levels (if b then push_bit 7 1 else 0, push_bit 4 ab)"

fun wheel_run :: "(u32 \<times> u32 \<times> bool) list \<Rightarrow> wheel \<Rightarrow> wheel" where
  "wheel_run [] s = s"
| "wheel_run ((j, ab, b) # xs) s = wheel_run xs (wheel_scan j (s\<lparr>wio := levels ab b (wio s)\<rparr>))"

lemma levels_dat:
  "levels ab b m (GPDAT (S3C2410_GPG 4)) = push_bit 4 ab" "levels ab b m (GPDAT (S3C2410_GPG 5)) = push_bit 4 ab"
  "levels ab b m (GPDAT (S3C2410_GPF 7)) = (if b then push_bit 7 1 else 0)"
  by (simp_all add: levels_def set_levels_def GPDAT_def base_16 S3C2410_GPF_def S3C2410_GPG_def
      S3C2410_GPIO_BANKF_def S3C2410_GPIO_BANKG_def)

lemma sample_levels: "ab < 4 \<Longrightarrow> sample_AB (levels ab b m) = ab"
  by (drule u32_lt4) (auto simp: sample_AB_def s3c2410_gpio_getpin_def levels_dat)

lemma button_levels: "s3c2410_gpio_getpin (S3C2410_GPF 7) (levels ab b m) \<noteq> 0 \<longleftrightarrow> b"
  by (simp add: s3c2410_gpio_getpin_def levels_dat)

lemma wheel_scan_stages:
  assumes "wheel_inv s" and "ab < 4"
  shows "wheel_scan j (s\<lparr>wio := levels ab b (wio s)\<rparr>) =
    scan_rearm j (shift_in (last_button s) b)
      (scan_detent (scan_button (shift_in (last_button s) b)
        (scan_rotate j ab (s\<lparr>wio := levels ab b (wio s), wtimer := None, wstate := [ab]\<rparr>))))"
proof -
  have "wheel_inv (s\<lparr>wio := levels ab b (wio s), wtimer := None\<rparr>)"
    using assms by (simp add: wheel_inv_def)
  from scan_sample_inv [OF this] button_levels [of ab b] show ?thesis
    by (simp add: wheel_scan_def sample_levels [OF assms(2)] Let_def)
qed

lemma key_down_detent: "key_down key (wout (scan_detent s)) = key_down key (wout s)"
  by (simp add: scan_detent_def report_def Let_def)

lemma key_down_button:
  assumes "key_down KEY_RIGHT (wout s) \<longleftrightarrow> last_button s AND 0xFF \<noteq> 0"
  shows "key_down KEY_RIGHT (wout (scan_button b s)) \<longleftrightarrow> b AND 0xFF \<noteq> 0"
  using assms by (auto simp: scan_button_def report_def Let_def word_gt_0)

lemma wheel_scan_button:
  assumes "wheel_inv s" and "ab < 4"
    and "key_down KEY_RIGHT (wout s) \<longleftrightarrow> last_button s AND 0xFF \<noteq> 0"
  shows "key_down KEY_RIGHT (wout (wheel_scan j (s\<lparr>wio := levels ab b (wio s)\<rparr>))) \<longleftrightarrow>
      (shift_in (last_button s) b) AND 0xFF \<noteq> 0"
    and "last_button (wheel_scan j (s\<lparr>wio := levels ab b (wio s)\<rparr>)) = shift_in (last_button s) b"
  unfolding wheel_scan_stages [OF assms(1,2)]
  by (simp_all add: key_down_detent key_down_button assms(3))

lemma wheel_run_inv: "wheel_inv s \<Longrightarrow> wheel_inv (wheel_run xs s)"
proof (induction xs s rule: wheel_run.induct)
  case (2 j ab b xs s)
  have "wheel_inv (s\<lparr>wio := levels ab b (wio s)\<rparr>)" using "2.prems" by (simp add: wheel_inv_def)
  from "2.IH" [OF wheel_scan_inv [OF this]] show ?case by simp
qed simp

lemma wheel_run_snoc: "wheel_run (xs @ [(j, ab, b)]) s =
    wheel_scan j ((wheel_run xs s)\<lparr>wio := levels ab b (wio (wheel_run xs s))\<rparr>)"
  by (induction xs s rule: wheel_run.induct) simp_all

lemma and_FF_bits: "(h :: u32) AND 0xFF \<noteq> 0 \<longleftrightarrow> (\<exists>k < 8. bit h k)"
proof -
  have m: "(0xFF :: u32) = mask 8" by (simp add: mask_eq_exp_minus_1)
  have b: "bit (h AND 0xFF) k \<longleftrightarrow> bit h k \<and> k < 8" for k
    unfolding m bit_and_iff bit_mask_iff by auto
  then show ?thesis by (metis bit_0_eq bot_apply bot_bool_def bit_eq_iff)
qed

text \<open>Bit \<open>k\<close> of the button history is the sample \<open>k\<close> scans ago.\<close>

lemma bit_shift_in: "bit (shift_in h b) k \<longleftrightarrow> (if k = 0 then b else k < 32 \<and> bit h (k - 1))"
  unfolding shift_in_def bit_or_iff bit_push_bit_iff by (auto simp: bit_1_iff)

lemma wheel_run_button:
  assumes "wheel_inv s" and "last_button s = 0" and "\<not> key_down KEY_RIGHT (wout s)"
    and "\<forall>(j, ab, b) \<in> set xs. ab < 4"
  shows "(key_down KEY_RIGHT (wout (wheel_run xs s)) \<longleftrightarrow> last_button (wheel_run xs s) AND 0xFF \<noteq> 0) \<and>
    (\<forall>k < 32. bit (last_button (wheel_run xs s)) k \<longleftrightarrow> k < length xs \<and> snd (snd (rev xs ! k)))"
  using assms(4)
proof (induction xs rule: rev_induct)
  case Nil
  with assms show ?case by simp
next
  case (snoc x xs)
  obtain j ab b where x: "x = (j, ab, b)" by (cases x)
  let ?t = "wheel_run xs s"
  have IH: "key_down KEY_RIGHT (wout ?t) \<longleftrightarrow> last_button ?t AND 0xFF \<noteq> 0"
    "\<forall>k < 32. bit (last_button ?t) k \<longleftrightarrow> k < length xs \<and> snd (snd (rev xs ! k))"
    using snoc x by auto
  have ab: "ab < 4" using snoc.prems x by auto
  note st = wheel_scan_button [OF wheel_run_inv [OF assms(1)] ab IH(1), of j b]
  have "bit (shift_in (last_button ?t) b) k \<longleftrightarrow>
      k < length (xs @ [x]) \<and> snd (snd (rev (xs @ [x]) ! k))" if "k < 32" for k
    using that IH(2) by (cases k) (simp_all add: bit_shift_in x)
  with st show ?case by (simp add: x wheel_run_snoc)
qed

text \<open>Turning: the samples follow the circle of codes in one direction, the button is up and the
  clock is not about to wrap.\<close>

fun turning :: "int \<Rightarrow> int \<Rightarrow> u32 list \<Rightarrow> (u32 \<times> u32 \<times> bool) list" where
  "turning dir i [] = []"
| "turning dir i (j # js) = (j, gray_code (i + dir), False) # turning dir (i + dir) js"

lemma gray_code_lt: "gray_code i < 4"
  by (simp add: gray_code_def)

lemma gray_turn:
  "wheel_turn (push_bit 2 (gray_code (i + 1)) OR gray_code i) = 1"
  "wheel_turn (push_bit 2 (gray_code (i + - 1)) OR gray_code i) = - 1"
proof -
  have n: "(i + 1) mod 4 = (if i mod 4 = 3 then 0 else i mod 4 + 1)"
    "(i + - 1) mod 4 = (if i mod 4 = 0 then 3 else i mod 4 - 1)" by presburger+
  have "i mod 4 = 0 \<or> i mod 4 = 1 \<or> i mod 4 = 2 \<or> i mod 4 = 3" by presburger
  then show "wheel_turn (push_bit 2 (gray_code (i + 1)) OR gray_code i) = 1"
    "wheel_turn (push_bit 2 (gray_code (i + - 1)) OR gray_code i) = - 1"
    unfolding gray_code_def n by (auto simp: wheel_turn_def)
qed

lemma shift_in_0 [simp]: "shift_in 0 False = 0"
  by (simp add: shift_in_def)

lemma soon: "j < - 100 \<Longrightarrow> j < j + HZ div (2 :: u32)"
  unfolding HZ_def by (unat_arith; simp)

text \<open>One scan while turning: the position moves by one pulse, and past two pulses it is
  reported and reset.\<close>

lemma wheel_scan_turn:
  assumes s: "wheel_inv s" "last_button s = 0" "lastAB s = gray_code i"
    and dir: "dir = 1 \<or> dir = - 1" and j: "j < - 100"
  defines "s' \<equiv> wheel_scan j (s\<lparr>wio := levels (gray_code (i + dir)) False (wio s)\<rparr>)"
  shows "lastAB s' = gray_code (i + dir)" and "last_button s' = 0"
    and "pos s' = (if \<bar>pos s + dir\<bar> > 2 then 0 else pos s + dir)"
    and "wout s' = wout s @ (if pos s + dir > 2 then [ReportRel 1, InputSync]
      else if pos s + dir < - 2 then [ReportRel (- 1), InputSync] else [])"
proof -
  have t: "wheel_turn (push_bit 2 (gray_code (i + dir)) OR gray_code i) = dir"
    using dir gray_turn by auto
  have d: "dir \<noteq> 0" using dir by auto
  note eq = s'_def [unfolded wheel_scan_stages [OF s(1) gray_code_lt]]
  show "lastAB s' = gray_code (i + dir)" "last_button s' = 0"
    unfolding eq using s t d by (simp_all add: scan_rotate_def Let_def)
  show "pos s' = (if \<bar>pos s + dir\<bar> > 2 then 0 else pos s + dir)"
    unfolding eq using s t d soon [OF j]
    by (auto simp: scan_rotate_def scan_button_def scan_detent_def scan_rearm_def report_def Let_def
        PULSES_PER_DETENT_def)
  show "wout s' = wout s @ (if pos s + dir > 2 then [ReportRel 1, InputSync]
      else if pos s + dir < - 2 then [ReportRel (- 1), InputSync] else [])"
    unfolding eq using s t d
    by (auto simp: scan_rotate_def scan_button_def scan_detent_def report_def Let_def
        PULSES_PER_DETENT_def)
qed

text \<open>The detents reported for a number of pulses from the centre.\<close>

definition detents :: "int \<Rightarrow> nat \<Rightarrow> input_event list" where
  "detents dir n = concat (replicate (n div 3) [ReportRel dir, InputSync])"

lemma detents_Suc: "detents dir (Suc n) = detents dir n @ (if n mod 3 = 2 then [ReportRel dir, InputSync] else [])"
proof -
  have "Suc n div 3 = (if n mod 3 = 2 then Suc (n div 3) else n div 3)" by presburger
  moreover have "concat (replicate (Suc k) xs) = concat (replicate k xs) @ xs" for k and xs :: "input_event list"
    by (induction k) simp_all
  ultimately show ?thesis by (simp add: detents_def)
qed

lemma turning_snoc: "turning dir i (js @ [j]) = turning dir i js @ [(j, gray_code (i + dir * int (length js) + dir), False)]"
  by (induction js arbitrary: i) (simp_all add: algebra_simps)

lemma wheel_run_turning:
  assumes s: "wheel_inv s" "last_button s = 0" "lastAB s = gray_code i" "pos s = 0"
    and dir: "dir = 1 \<or> dir = - 1" and js: "\<forall>j \<in> set js. j < - 100"
  defines "s' \<equiv> \<lambda>js. wheel_run (turning dir i js) s"
  shows "lastAB (s' js) = gray_code (i + dir * int (length js)) \<and> last_button (s' js) = 0 \<and>
    pos (s' js) = dir * int (length js mod 3) \<and> wout (s' js) = wout s @ detents dir (length js)"
  using js
proof (induction js rule: rev_induct)
  case Nil
  then show ?case using s by (simp add: s'_def detents_def)
next
  case (snoc j js)
  let ?n = "length js"
  have IH: "lastAB (s' js) = gray_code (i + dir * int ?n)" "last_button (s' js) = 0"
    "pos (s' js) = dir * int (?n mod 3)" "wout (s' js) = wout s @ detents dir ?n"
    using snoc by auto
  have inv: "wheel_inv (s' js)" unfolding s'_def by (rule wheel_run_inv [OF s(1)])
  have eq: "s' (js @ [j]) = wheel_scan j ((s' js)\<lparr>wio := levels (gray_code (i + dir * int ?n + dir)) False (wio (s' js))\<rparr>)"
    by (simp add: s'_def turning_snoc wheel_run_snoc)
  have j: "j < - 100" using snoc.prems by simp
  note st = wheel_scan_turn [OF inv IH(2,1) dir j, folded eq]
  have sq: "i + dir * int ?n + dir = i + dir * int (length (js @ [j]))" by (simp add: algebra_simps)
  have "?n mod 3 = 0 \<or> ?n mod 3 = 1 \<or> ?n mod 3 = 2" by presburger
  moreover have "length (js @ [j]) mod 3 = (if ?n mod 3 = 2 then 0 else ?n mod 3 + 1)" by (simp add: mod_Suc)
  ultimately show ?case
    using st IH(3,4) dir unfolding sq by (auto simp: detents_Suc)
qed

section \<open>Setup\<close>

definition wheel_zero :: "io \<Rightarrow> wheel" where
  "wheel_zero m = \<lparr>pos = 0, lastAB = 0, wstate = [0], last_button = 0, windex = 0, click_jiffies = 0,
     wtimer = None, wio = m, wout = []\<rparr>"

lemma wheel_zero_facts: "wheel_inv (wheel_zero m)" "last_button (wheel_zero m) = 0"
  "lastAB (wheel_zero m) = gray_code 2" "pos (wheel_zero m) = 0" "wout (wheel_zero m) = []"
  by (simp_all add: wheel_zero_def wheel_inv_def PULSES_PER_DETENT_def gray_code_def)

lemma wheel_irqs_eint: "wheel_irqs = map IRQ_EINT [12, 13, 7]"
  by (simp add: wheel_irqs_def)

lemma wheel_pins_eint: "set wheel_pins = eint_pin ` set [12, 13, 7]"
  by (simp add: wheel_pins_def eint_pin_def)

lemma wheel_init_ok:
  assumes "wheel_init sv True k (wheel_zero (k_io k)) = (0, k', s)"
  shows "wheel_inv s \<and> listening s \<and> wtimer s = None \<and> wout s = [] \<and> last_button s = 0 \<and> pos s = 0 \<and> lastAB s = 0"
proof -
  obtain k2 where r: "request_irqs sv 0 (map IRQ_EINT [12, 13, 7]) (k\<lparr>k_registered := True\<rparr>) = (None, k2)"
    and s: "s = (wheel_zero (k_io k))\<lparr>windex := 0, lastAB := 0, wstate := [0], wtimer := None, wio := k_io k2\<rparr>"
    using assms by (auto simp: wheel_init_def wheel_irqs_eint Let_def ENOMEM_def EIO_def wheel_zero_def
        split: if_splits prod.splits option.splits)
  have "listening s"
    unfolding listening_def using request_irqs_ok [OF r] wheel_pins_port wheel_pins_eint by (simp add: s)
  then show ?thesis by (simp add: s wheel_inv_def wheel_zero_def PULSES_PER_DETENT_def)
qed

section \<open>Properties\<close>

text \<open>C9. The wheel driver never goes deaf: after a successful setup, whatever levels the pins take
  and however interrupts and timer expiries interleave, either the timer is pending or
  all three pins are interrupt inputs; and the position stays within a detent.\<close>

theorem wheel_never_deaf:
  assumes "wheel_init sv True k (wheel_zero (k_io k)) = (0, k', s)"
    and "(scan_step wheel_irq wheel_scan (\<lambda>l s. s\<lparr>wio := set_levels l (wio s)\<rparr>) (\<lambda>s. wtimer s \<noteq> None))\<^sup>*\<^sup>* s s'"
  shows "wheel_inv s' \<and> (wtimer s' \<noteq> None \<or> listening s')"
  using wheel.never_deaf [OF assms(2)] wheel_init_ok [OF assms(1)] by blast

theorem wheel_never_deaf_witness:
  "\<exists>k' s. wheel_init \<lparr>alloc_ok = True, request_ret = (\<lambda>n. 0), wake_ret = (\<lambda>n. 0)\<rparr> True
      \<lparr>k_io = (\<lambda>r. 0), k_held = [], k_wake = [], k_unowned = [], k_registered = False\<rparr> (wheel_zero (\<lambda>r. 0)) = (0, k', s) \<and>
    wheel_inv (wheel_scan 7 (wheel_irq 7 s)) \<and>
    (wtimer (wheel_scan 7 (wheel_irq 7 s)) \<noteq> None \<or> listening (wheel_scan 7 (wheel_irq 7 s)))"
proof -
  let ?sv = "\<lparr>alloc_ok = True, request_ret = (\<lambda>n. 0), wake_ret = (\<lambda>n. 0)\<rparr>"
  let ?k = "\<lparr>k_io = (\<lambda>r. 0), k_held = [], k_wake = [], k_unowned = [], k_registered = False\<rparr>"
  obtain k' s where i: "wheel_init ?sv True ?k (wheel_zero (k_io ?k)) = (0, k', s)"
    by (simp add: wheel_init_def wheel_irqs_def request_irq_def set_irq_wake_def Let_def)
  let ?step = "scan_step wheel_irq wheel_scan (\<lambda>l s. s\<lparr>wio := set_levels l (wio s)\<rparr>) (\<lambda>s. wtimer s \<noteq> None)"
  have "?step s (wheel_irq 7 s)" "?step (wheel_irq 7 s) (wheel_scan 7 (wheel_irq 7 s))"
    by (rule step_irq, rule step_timer, simp add: wheel_irq_def)
  then have r: "?step\<^sup>*\<^sup>* s (wheel_scan 7 (wheel_irq 7 s))" by simp
  from wheel_never_deaf [OF i r] i show ?thesis by auto
qed

text \<open>C22. Turning is counted exactly. As long as the tick counter is not within 100 ticks of its wrap
  (\<open>wheel_wrap_drops_position\<close>) and every scan sees one pulse: from the centre of a detent with the button up, \<open>n\<close>
  consecutive pulses in one direction give \<open>n div 3\<close> wheel events of that direction and
  no other, and leave the position at \<open>n mod 3\<close> pulses.\<close>

theorem wheel_turning:
  assumes "wheel_inv s" and "last_button s = 0" and "lastAB s = gray_code i" and "pos s = 0"
    and "dir = 1 \<or> dir = - 1" and "\<forall>j \<in> set js. j < - 100"
  shows "wout (wheel_run (turning dir i js) s) =
      wout s @ concat (replicate (length js div 3) [ReportRel dir, InputSync]) \<and>
    pos (wheel_run (turning dir i js) s) = dir * int (length js mod 3)"
  using wheel_run_turning [OF assms] by (simp add: detents_def)

theorem wheel_turning_witness:
  "wout (wheel_run (turning (- 1) 2 [0, 1, 2, 3]) (wheel_zero (\<lambda>r. 0))) = [ReportRel (- 1), InputSync] \<and>
   pos (wheel_run (turning (- 1) 2 [0, 1, 2, 3]) (wheel_zero (\<lambda>r. 0))) = - 1"
proof -
  have "\<forall>j \<in> set [0, 1, 2, 3]. j < (- 100 :: u32)" by (simp add: word_less_nat_alt)
  from wheel_turning [OF wheel_zero_facts(1-4) _ this, of "- 1" "\<lambda>r. 0"] show ?thesis
    by (simp add: wheel_zero_facts(5) del: wheel_run.simps turning.simps)
qed

text \<open>The centre button is reported as pressed exactly while one of the last eight samples
  found it pressed: a press is reported at once, a release after eight scans without it.\<close>

theorem wheel_button_debounced:
  assumes "wheel_inv s" and "last_button s = 0" and "\<not> key_down KEY_RIGHT (wout s)"
    and "\<forall>(j, ab, b) \<in> set xs. ab < 4"
  shows "key_down KEY_RIGHT (wout (wheel_run xs s)) \<longleftrightarrow> (\<exists>(j, ab, b) \<in> set (take 8 (rev xs)). b)"
proof -
  note r = wheel_run_button [OF assms]
  have "last_button (wheel_run xs s) AND 0xFF \<noteq> 0 \<longleftrightarrow> (\<exists>k < 8. bit (last_button (wheel_run xs s)) k)"
    by (rule and_FF_bits)
  also have "\<dots> \<longleftrightarrow> (\<exists>k < 8. k < length xs \<and> snd (snd (rev xs ! k)))"
  proof -
    have "k < 8 \<Longrightarrow> k < 32" for k :: nat by simp
    with r show ?thesis by blast
  qed
  also have "\<dots> \<longleftrightarrow> (\<exists>(j, ab, b) \<in> set (take 8 (rev xs)). b)"
    by (fastforce simp: in_set_conv_nth case_prod_unfold)
  finally show ?thesis using r by blast
qed

theorem wheel_button_debounced_witness:
  "key_down KEY_RIGHT (wout (wheel_run [(1, 0, True), (2, 0, False), (3, 0, False)] (wheel_zero (\<lambda>r. 0))))"
proof -
  have k: "\<not> key_down KEY_RIGHT (wout (wheel_zero (\<lambda>r. 0)))" by (simp add: wheel_zero_facts key_down_def)
  show ?thesis
    using wheel_button_debounced [OF wheel_zero_facts(1,2) k, of "[(1, 0, True), (2, 0, False), (3, 0, False)]"]
    by (simp del: wheel_run.simps)
qed

text \<open>The activity test is not safe against the wrap of the tick counter: a pulse in the last
  half second before the wrap does not keep the scan going; the driver drops the position and
  returns to interrupts at once.\<close>

theorem wheel_wrap_drops_position:
  assumes "wheel_inv s" and "last_button s = 0" and "lastAB s = gray_code i"
    and "dir = 1 \<or> dir = - 1" and "- 100 \<le> j"
  shows "wtimer (wheel_scan j (s\<lparr>wio := levels (gray_code (i + dir)) False (wio s)\<rparr>)) = None \<and>
    pos (wheel_scan j (s\<lparr>wio := levels (gray_code (i + dir)) False (wio s)\<rparr>)) = 0"
proof -
  have t: "wheel_turn (push_bit 2 (gray_code (i + dir)) OR gray_code i) \<noteq> 0"
    using assms(4) gray_turn by auto
  have "\<not> j < j + HZ div 2" using assms(5) unfolding HZ_def by (unat_arith; simp)
  then show ?thesis
    unfolding wheel_scan_stages [OF assms(1) gray_code_lt]
    using assms t by (simp add: scan_rotate_def scan_rearm_def Let_def)
      (simp add: scan_button_def scan_detent_def report_def Let_def)
qed

theorem wheel_wrap_drops_position_witness:
  "pos (wheel_scan (- 1) ((wheel_zero (\<lambda>r. 0))\<lparr>pos := 1, wio := levels (gray_code 3) False (\<lambda>r. 0)\<rparr>)) = 0"
  using wheel_wrap_drops_position [of "(wheel_zero (\<lambda>r. 0))\<lparr>pos := 1\<rparr>" 2 1 "- 1"]
  by (simp add: wheel_zero_def wheel_inv_def gray_code_def PULSES_PER_DETENT_def)

text \<open>A failed setup leaves nothing behind: when \<open>wheel_init\<close> fails, none of its
  interrupts is held or enabled for wake-up and the input device is not registered.\<close>

theorem wheel_init_cleans_up:
  assumes "wheel_init sv m k s = (rc, k', s')" and "rc \<noteq> 0"
    and "set (k_held k) \<inter> set wheel_irqs = {}" and "set (k_wake k) \<inter> set wheel_irqs = {}"
    and "\<not> k_registered k"
  shows "set (k_held k') \<inter> set wheel_irqs = {} \<and> set (k_wake k') \<inter> set wheel_irqs = {} \<and> \<not> k_registered k'"
  using assms
  by (auto simp: wheel_init_def Let_def release_irqs_held release_irqs_wake
      split: if_splits prod.splits option.splits)

theorem wheel_init_cleans_up_witness:
  "\<exists>k' s'. wheel_init \<lparr>alloc_ok = True, request_ret = (\<lambda>n. if n = IRQ_EINT 7 then - 16 else 0), wake_ret = (\<lambda>n. 0)\<rparr> True
      \<lparr>k_io = (\<lambda>r. 0), k_held = [], k_wake = [], k_unowned = [], k_registered = False\<rparr> (wheel_zero (\<lambda>r. 0)) = (- 5, k', s') \<and>
    set (k_held k') \<inter> set wheel_irqs = {} \<and> \<not> k_registered k'"
proof -
  let ?sv = "\<lparr>alloc_ok = True, request_ret = (\<lambda>n. if n = IRQ_EINT 7 then - 16 else 0), wake_ret = (\<lambda>n. 0)\<rparr>"
  let ?k = "\<lparr>k_io = (\<lambda>r. 0), k_held = [], k_wake = [], k_unowned = [], k_registered = False\<rparr>"
  obtain k' s' where i: "wheel_init ?sv True ?k (wheel_zero (\<lambda>r. 0)) = (- 5, k', s')"
    by (simp add: wheel_init_def wheel_irqs_def request_irq_def set_irq_wake_def Let_def IRQ_EINT_def EIO_def)
  from wheel_init_cleans_up [OF i] i show ?thesis by auto
qed

end
