(* ===== verification/JiveMatrix.thy ===== *)
theory JiveMatrix
  imports JiveInput
begin

text \<open>
  The key matrix driver, \<^verbatim>\<open>drivers/char/jive/jive_matrix.c\<close>: three row lines
  are driven one after the other, four column lines are read for each, a key counts as
  pressed when three scans in a row found it, and only changes are reported. The levels of the
  columns depend on which row is driven: the parameter \<open>hw\<close> gives the data register of
  bank F for the registers as they are.
\<close>

section \<open>The driver\<close>

definition MATRIX_PERIOD_MS :: u32 where "MATRIX_PERIOD_MS = 5"

definition KEY_UNKNOWN :: nat where "KEY_UNKNOWN = 240"

text \<open>The rows of the table, as in the code: \<open>KEY_OUTPUT2\<close>, \<open>KEY_OUTPUT1\<close>,
  \<open>KEY_OUTPUT0\<close>.\<close>

definition keymap :: "nat list" where
  "keymap =
    [KEY_UNKNOWN, 163, 165, 164,
     KEY_UNKNOWN, 207, 78, 115,
     102, KEY_UNKNOWN, 105, 114]"

record matrix =
  last_state :: u32
  mstate :: "u32 list"
  mindex :: nat
  mtimer :: "u32 option"
  mio :: io
  mout :: "input_event list"

definition matrix_irqs :: "nat list" where
  "matrix_irqs = [IRQ_EINT 3, IRQ_EINT 4, IRQ_EINT 5, IRQ_EINT 6]"

definition matrix_read_gpio :: "io \<Rightarrow> u32" where
  "matrix_read_gpio m =
     (if s3c2410_gpio_getpin (S3C2410_GPF 3) m \<noteq> 0 then 0 else 1) OR
     (if s3c2410_gpio_getpin (S3C2410_GPF 4) m \<noteq> 0 then 2 else 0) OR
     (if s3c2410_gpio_getpin (S3C2410_GPF 5) m \<noteq> 0 then 4 else 0) OR
     (if s3c2410_gpio_getpin (S3C2410_GPF 6) m \<noteq> 0 then 8 else 0)"

definition row_fn :: "bool \<Rightarrow> u32" where
  "row_fn b = (if b then S3C2410_GPIO_OUTPUT else S3C2410_GPIO_INPUT)"

definition drive_row :: "nat \<Rightarrow> io \<Rightarrow> io" where
  "drive_row i m =
     s3c2410_gpio_cfgpin (S3C2410_GPF 2) (row_fn (i = 2))
       (s3c2410_gpio_cfgpin (S3C2410_GPF 1) (row_fn (i = 1))
         (s3c2410_gpio_cfgpin (S3C2410_GPF 0) (row_fn (i = 0)) m))"

definition settle :: "(io \<Rightarrow> u32) \<Rightarrow> io \<Rightarrow> io" where
  "settle hw m = m(GPDAT (S3C2410_GPF 0) := hw m)"

text \<open>The loop over the three rows: the registers and the value of \<open>state[index]\<close>.\<close>

definition scan_row :: "(io \<Rightarrow> u32) \<Rightarrow> nat \<Rightarrow> io \<times> u32 \<Rightarrow> io \<times> u32" where
  "scan_row hw i = (\<lambda>(m, st).
     let m1 = settle hw (drive_row i m) in (m1, push_bit 4 st OR matrix_read_gpio m1))"

definition scan_rows :: "(io \<Rightarrow> u32) \<Rightarrow> io \<Rightarrow> io \<times> u32" where
  "scan_rows hw m = fold (scan_row hw) [0, 1, 2] (m, 0)"

definition cfg_list :: "u32 \<Rightarrow> nat list \<Rightarrow> io \<Rightarrow> io" where
  "cfg_list f ps m = fold (\<lambda>p. s3c2410_gpio_cfgpin p f) ps m"

definition row_pins :: "nat list" where
  "row_pins = [S3C2410_GPF 0, S3C2410_GPF 1, S3C2410_GPF 2]"

definition col_pins :: "nat list" where
  "col_pins = [S3C2410_GPF 3, S3C2410_GPF 4, S3C2410_GPF 5, S3C2410_GPF 6]"

text \<open>The events for the keys whose debounced state changed.\<close>

definition key_changes :: "u32 \<Rightarrow> u32 \<Rightarrow> input_event list" where
  "key_changes old new =
     concat (map (\<lambda>i. if keymap ! i \<noteq> KEY_UNKNOWN \<and> (new AND push_bit i 1) \<noteq> (old AND push_bit i 1)
                      then [ReportKey (keymap ! i) (new AND push_bit i 1 > 0)] else [])
       [0..<length keymap])"

text \<open>The ring index after \<^verbatim>\<open>++index\<close>, and the loop that combines the samples.\<close>

definition next_index :: "nat \<Rightarrow> nat \<Rightarrow> nat" where
  "next_index n i = (if i + 1 \<ge> n then 0 else i + 1)"

definition debounce :: "u32 list \<Rightarrow> u32" where
  "debounce state = fold (\<lambda>x a. a AND x) state 0xFFFFFFFF"

definition matrix_scan :: "(io \<Rightarrow> u32) \<Rightarrow> u32 \<Rightarrow> matrix \<Rightarrow> matrix" where
  "matrix_scan hw jiffies s0 =
     (let s = s0\<lparr>mtimer := None\<rparr>;
          index = next_index (length (mstate s)) (mindex s);
          (m, st) = scan_rows hw (mio s);
          state = (mstate s)[index := st];
          m = cfg_list S3C2410_GPIO_OUTPUT row_pins m;
          debounced_state = debounce state;
          s1 = s\<lparr>mindex := index, mstate := state, mio := m\<rparr>;
          s2 = (if last_state s1 \<noteq> debounced_state
                then s1\<lparr>mout := mout s1 @ key_changes (last_state s1) debounced_state @ [InputSync],
                        last_state := debounced_state\<rparr>
                else s1)
      in if state ! index \<noteq> 0
         then s2\<lparr>mtimer := Some (jiffies + MATRIX_PERIOD_MS * HZ div 1000)\<rparr>
         else s2\<lparr>mio := cfg_list S3C2410_GPIO_SFN2 col_pins (mio s2)\<rparr>)"

definition matrix_irq :: "u32 \<Rightarrow> matrix \<Rightarrow> matrix" where
  "matrix_irq jiffies s =
     s\<lparr>mio := cfg_list S3C2410_GPIO_INPUT col_pins (mio s), mtimer := Some jiffies\<rparr>"

text \<open>Setup. The error path goes down from the interrupt that failed, that one included.\<close>

definition matrix_pins_setup :: "io \<Rightarrow> io" where
  "matrix_pins_setup m =
     fold (\<lambda>p m. s3c2410_gpio_pullup p 1 m) (map S3C2410_GPF [0, 1, 2, 3, 4, 5, 6])
       (fold (\<lambda>p m. s3c2410_gpio_cfgpin p S3C2410_GPIO_OUTPUT (s3c2410_gpio_setpin p 0 m)) row_pins m)"

definition matrix_init :: "services \<Rightarrow> kern \<Rightarrow> matrix \<Rightarrow> int \<times> kern \<times> matrix" where
  "matrix_init sv k s =
     (if \<not> alloc_ok sv then (- ENOMEM, k, s)
      else
        let k1 = k\<lparr>k_registered := True, k_io := matrix_pins_setup (k_io k)\<rparr>;
            s1 = s\<lparr>mindex := 0, last_state := 0, mstate := replicate (length (mstate s)) 0, mtimer := None\<rparr>
        in case request_irqs sv 0 matrix_irqs k1 of
             (None, k2) \<Rightarrow> (0, k2, s1\<lparr>mio := k_io k2\<rparr>)
           | (Some gpio, k2) \<Rightarrow>
               let k3 = release_irqs sv (rev (take (Suc gpio) matrix_irqs)) k2
               in (- EIO, k3\<lparr>k_registered := False\<rparr>, s1\<lparr>mio := k_io k3\<rparr>))"

definition matrix_exit :: "services \<Rightarrow> kern \<Rightarrow> kern" where
  "matrix_exit sv k = (release_irqs sv matrix_irqs k)\<lparr>k_registered := False\<rparr>"

section \<open>The invariant\<close>

definition mlistening :: "matrix \<Rightarrow> bool" where
  "mlistening s \<longleftrightarrow> (\<forall>p \<in> set col_pins. s3c2410_gpio_getcfg p (mio s) = S3C2410_GPIO_SFN2)"

definition rows_driven :: "matrix \<Rightarrow> bool" where
  "rows_driven s \<longleftrightarrow> (\<forall>p \<in> set row_pins. s3c2410_gpio_getcfg p (mio s) = S3C2410_GPIO_OUTPUT)"

definition matrix_inv :: "matrix \<Rightarrow> bool" where
  "matrix_inv s \<longleftrightarrow> length (mstate s) = 3 \<and> mindex s < 3 \<and> rows_driven s \<and>
     last_state s = debounce (mstate s)"

lemma pins_port: "\<forall>p \<in> set row_pins. port_pin p" "\<forall>p \<in> set col_pins. port_pin p"
  by (simp_all add: row_pins_def col_pins_def)

lemma rows_not_cols: "p \<in> set row_pins \<Longrightarrow> p \<notin> set col_pins"
  by (auto simp: row_pins_def col_pins_def)

lemma getcfg_cfg_list:
  "\<forall>p \<in> set ps. port_pin p \<Longrightarrow> port_pin q \<Longrightarrow> pin_function f \<Longrightarrow>
   s3c2410_gpio_getcfg q (cfg_list f ps m) = (if q \<in> set ps then f else s3c2410_gpio_getcfg q m)"
  unfolding cfg_list_def by (rule s3c.cfg_fold)

lemma matrix_scan_fields:
  assumes r: "scan_rows hw (mio s) = (m, st)" and i: "index = next_index (length (mstate s)) (mindex s)"
    and t: "state = (mstate s)[index := st]"
  shows "mindex (matrix_scan hw j s) = index" and "mstate (matrix_scan hw j s) = state"
    and "last_state (matrix_scan hw j s) = debounce state"
    and "mout (matrix_scan hw j s) = (if last_state s \<noteq> debounce state
      then mout s @ key_changes (last_state s) (debounce state) @ [InputSync] else mout s)"
    and "mtimer (matrix_scan hw j s) = (if state ! index \<noteq> 0 then Some (j + MATRIX_PERIOD_MS * HZ div 1000) else None)"
    and "mio (matrix_scan hw j s) = (if state ! index \<noteq> 0 then cfg_list S3C2410_GPIO_OUTPUT row_pins m
        else cfg_list S3C2410_GPIO_SFN2 col_pins (cfg_list S3C2410_GPIO_OUTPUT row_pins m))"
  unfolding matrix_scan_def t i by (simp_all add: r Let_def)

lemma rows_driven_cfg:
  "rows_driven (s\<lparr>mio := cfg_list S3C2410_GPIO_OUTPUT row_pins m\<rparr>)"
  "pin_function f \<Longrightarrow> rows_driven (s\<lparr>mio := cfg_list f col_pins m\<rparr>) \<longleftrightarrow> rows_driven (s\<lparr>mio := m\<rparr>)"
  using pins_port rows_not_cols by (auto simp: rows_driven_def getcfg_cfg_list)

lemma rows_driven_io: "rows_driven s \<longleftrightarrow> rows_driven (t\<lparr>mio := mio s\<rparr>)"
  by (simp add: rows_driven_def)

lemma matrix_scan_inv:
  assumes "matrix_inv s"
  shows "matrix_inv (matrix_scan hw j s)"
proof -
  obtain m st where r: "scan_rows hw (mio s) = (m, st)" by fastforce
  note f = matrix_scan_fields [OF r refl refl, of j]
  have "rows_driven (matrix_scan hw j s)"
    by (subst rows_driven_io [where t = s]) (simp add: f(6) rows_driven_cfg)
  with assms show ?thesis by (auto simp: matrix_inv_def f(1-3) next_index_def)
qed

lemma matrix_scan_safe: "mtimer (matrix_scan hw j s) \<noteq> None \<or> mlistening (matrix_scan hw j s)"
proof -
  obtain m st where r: "scan_rows hw (mio s) = (m, st)" by fastforce
  note f = matrix_scan_fields [OF r refl refl, of j]
  show ?thesis using pins_port by (auto simp: f(5,6) mlistening_def getcfg_cfg_list)
qed

text \<open>For the contract the parameter \<open>hw\<close> is part of what a scan may find.\<close>

interpretation matrix: scanner matrix_irq "matrix_scan hw"
  "\<lambda>v s. s\<lparr>mio := (mio s)(GPDAT (S3C2410_GPF 0) := v)\<rparr>" "\<lambda>s. mtimer s \<noteq> None" mlistening matrix_inv
  for hw
proof unfold_locales
  fix now :: u32 and s :: matrix and v
  show "mtimer (matrix_irq now s) \<noteq> None" by (simp add: matrix_irq_def)
  show "mtimer (matrix_scan hw now s) \<noteq> None \<or> mlistening (matrix_scan hw now s)" by (rule matrix_scan_safe)
  show "(mtimer (s\<lparr>mio := (mio s)(GPDAT (S3C2410_GPF 0) := v)\<rparr>) \<noteq> None) = (mtimer s \<noteq> None)" by simp
  show "mlistening (s\<lparr>mio := (mio s)(GPDAT (S3C2410_GPF 0) := v)\<rparr>) = mlistening s"
    by (simp add: mlistening_def)
  show "matrix_inv s \<Longrightarrow> matrix_inv (matrix_irq now s)"
    using rows_driven_cfg(2) [where f = S3C2410_GPIO_INPUT and s = s and m = "mio s"] by (simp add: matrix_inv_def matrix_irq_def rows_driven_def)
  show "matrix_inv s \<Longrightarrow> matrix_inv (matrix_scan hw now s)" by (rule matrix_scan_inv)
  show "matrix_inv s \<Longrightarrow> matrix_inv (s\<lparr>mio := (mio s)(GPDAT (S3C2410_GPF 0) := v)\<rparr>)"
    by (simp add: matrix_inv_def rows_driven_def)
qed

section \<open>Debouncing\<close>

lemma bit_debounce: "bit (debounce xs) i \<longleftrightarrow> i < 32 \<and> (\<forall>x \<in> set xs. bit x i)"
proof -
  have "bit (fold (\<lambda>x a. a AND x) xs (w :: u32)) i \<longleftrightarrow> bit w i \<and> (\<forall>x \<in> set xs. bit x i)" for w
    by (induction xs arbitrary: w) (auto simp: bit_and_iff)
  moreover have "bit (0xFFFFFFFF :: u32) i \<longleftrightarrow> i < 32"
  proof -
    have "(0xFFFFFFFF :: u32) = - 1" by simp
    then show ?thesis by (simp only: bit_minus_1_iff) simp
  qed
  ultimately show ?thesis by (simp add: debounce_def)
qed

lemma keymap_inj:
  assumes "i < 12" and "k < 12" and "keymap ! i = keymap ! k" and "keymap ! i \<noteq> KEY_UNKNOWN"
  shows "i = k"
proof -
  have "\<forall>i \<in> set [0..<12]. \<forall>k \<in> set [0..<12]. keymap ! i = keymap ! k \<longrightarrow> keymap ! i \<noteq> KEY_UNKNOWN \<longrightarrow> i = k"
    unfolding keymap_def KEY_UNKNOWN_def by code_simp
  then show ?thesis using assms by auto
qed

lemma and_bit_neq: "(a AND push_bit i 1 \<noteq> b AND push_bit i (1 :: u32)) \<longleftrightarrow> (bit a i \<noteq> bit b i)"
proof -
  have "a AND push_bit i 1 = (if bit a i then push_bit i 1 else 0)" for a :: u32
    by (rule bit_word_eqI) (auto simp: bit_and_iff push_bit_of_1 bit_exp_iff)
  moreover have "bit a i \<or> bit b i \<Longrightarrow> push_bit i (1 :: u32) \<noteq> 0"
    using bit_imp_le_length [of a i] bit_imp_le_length [of b i] by (auto simp: push_bit_of_1)
  ultimately show ?thesis by auto
qed

lemma and_bit_pos: "(0 < a AND push_bit i (1 :: u32)) \<longleftrightarrow> bit a i"
  by (simp add: word_gt_0 push_bit_of_1 and_exp_eq_0_iff_not_bit)

text \<open>The keys as reported agree with the debounced state.\<close>

definition keys_reported :: "matrix \<Rightarrow> bool" where
  "keys_reported s \<longleftrightarrow> (\<forall>i < length keymap. keymap ! i \<noteq> KEY_UNKNOWN \<longrightarrow>
     key_down (keymap ! i) (mout s) = bit (last_state s) i)"

lemma length_keymap [simp]: "length keymap = 12"
  by (simp add: keymap_def)

lemma key_changes_reported:
  assumes "i < 12" and "keymap ! i \<noteq> KEY_UNKNOWN" and "key_down (keymap ! i) es = bit old i"
  shows "key_down (keymap ! i) (es @ key_changes old new @ [InputSync]) = bit new i"
proof -
  have "key_down (keymap ! i) (es @ key_changes old new) =
      (if i \<in> set [0..<12] \<and> keymap ! i \<noteq> KEY_UNKNOWN \<and> new AND push_bit i 1 \<noteq> old AND push_bit i 1
       then 0 < new AND push_bit i 1 else key_down (keymap ! i) es)"
    unfolding key_changes_def length_keymap
    by (rule key_down_reports) (use assms(1,2) keymap_inj in auto)
  moreover have "key_down (keymap ! i) (es @ key_changes old new @ [InputSync]) =
      key_down (keymap ! i) (es @ key_changes old new)"
    using key_down_append [of _ "es @ key_changes old new" InputSync] by simp
  ultimately show ?thesis using assms unfolding and_bit_neq and_bit_pos by auto
qed

lemma matrix_scan_reported:
  assumes "keys_reported s"
  shows "keys_reported (matrix_scan hw j s)"
proof -
  obtain m st where r: "scan_rows hw (mio s) = (m, st)" by fastforce
  note f = matrix_scan_fields [OF r refl refl, of j]
  show ?thesis
    using assms key_changes_reported unfolding keys_reported_def f(3,4) by auto
qed

text \<open>A run of scans, each with the hardware it meets, and the samples they take, newest first.\<close>

fun matrix_run :: "((io \<Rightarrow> u32) \<times> u32) list \<Rightarrow> matrix \<Rightarrow> matrix" where
  "matrix_run [] s = s"
| "matrix_run ((hw, j) # xs) s = matrix_run xs (matrix_scan hw j s)"

fun samples :: "((io \<Rightarrow> u32) \<times> u32) list \<Rightarrow> matrix \<Rightarrow> u32 list \<Rightarrow> u32 list" where
  "samples [] s h = h"
| "samples ((hw, j) # xs) s h = samples xs (matrix_scan hw j s) (snd (scan_rows hw (mio s)) # h)"

definition ring :: "matrix \<Rightarrow> u32 list \<Rightarrow> bool" where
  "ring s h \<longleftrightarrow> 3 \<le> length h \<and> set (mstate s) = set (take 3 h) \<and> length (mstate s) = 3 \<and> mindex s < 3 \<and>
     mstate s ! mindex s = h ! 0 \<and> mstate s ! next_index 3 (next_index 3 (mindex s)) = h ! 1 \<and>
     mstate s ! next_index 3 (mindex s) = h ! 2"

lemma ring_scan:
  assumes "ring s h"
  shows "ring (matrix_scan hw j s) (snd (scan_rows hw (mio s)) # h)"
proof -
  obtain m st where r: "scan_rows hw (mio s) = (m, st)" by fastforce
  note f = matrix_scan_fields [OF r refl refl, of j]
  obtain a b c where abc: "mstate s = [a, b, c]"
    using assms by (auto simp: ring_def length_Suc_conv numeral_3_eq_3)
  obtain x y z h' where h: "h = x # y # z # h'"
    using assms by (auto simp: ring_def Suc_le_length_iff numeral_3_eq_3)
  have "mindex s = 0 \<or> mindex s = 1 \<or> mindex s = 2" using assms by (auto simp: ring_def)
  with assms show ?thesis
    by (elim disjE) (auto simp: ring_def f(1,2) r abc h next_index_def numeral_3_eq_3 numeral_2_eq_2)
qed

lemma matrix_run_ring: "ring s h \<Longrightarrow> ring (matrix_run xs s) (samples xs s h)"
  by (induction xs s h rule: samples.induct) (simp_all add: ring_scan)

lemma matrix_run_inv: "matrix_inv s \<Longrightarrow> keys_reported s \<Longrightarrow> matrix_inv (matrix_run xs s) \<and> keys_reported (matrix_run xs s)"
  by (induction xs s rule: matrix_run.induct) (simp_all add: matrix_scan_inv matrix_scan_reported)

definition matrix_zero :: "io \<Rightarrow> matrix" where
  "matrix_zero m = \<lparr>last_state = 0, mstate = [0, 0, 0], mindex = 0, mtimer = None, mio = m, mout = []\<rparr>"

lemma matrix_irqs_eint: "matrix_irqs = map IRQ_EINT [3, 4, 5, 6]"
  by (simp add: matrix_irqs_def)

lemma col_pins_eint: "set col_pins = eint_pin ` set [3, 4, 5, 6]"
  by (simp add: col_pins_def eint_pin_def)

lemma getcfg_pullup [simp]: "s3c2410_gpio_getcfg p (s3c2410_gpio_pullup q v m) = s3c2410_gpio_getcfg p m"
  by (simp add: s3c2410_gpio_pullup_def Let_def)

lemma getcfg_pullups: "s3c2410_gpio_getcfg p (fold (\<lambda>q m. s3c2410_gpio_pullup q v m) qs m) = s3c2410_gpio_getcfg p m"
  by (induction qs arbitrary: m) simp_all

lemma getcfg_setup:
  "p \<in> set row_pins \<Longrightarrow> s3c2410_gpio_getcfg p (matrix_pins_setup m) = S3C2410_GPIO_OUTPUT"
  using s3c.cfg_level [where b = False]
  by (auto simp: matrix_pins_setup_def getcfg_pullups row_pins_def s3c.cfg_set)

lemma matrix_init_ok:
  assumes "matrix_init sv k (matrix_zero (k_io k)) = (0, k', s)"
  shows "matrix_inv s \<and> mlistening s \<and> keys_reported s \<and> ring s [0, 0, 0] \<and> mout s = []"
proof -
  obtain k2 where r: "request_irqs sv 0 (map IRQ_EINT [3, 4, 5, 6])
      (k\<lparr>k_registered := True, k_io := matrix_pins_setup (k_io k)\<rparr>) = (None, k2)"
    and s: "s = (matrix_zero (k_io k))\<lparr>mio := k_io k2\<rparr>"
    using assms by (auto simp: matrix_init_def matrix_irqs_eint Let_def ENOMEM_def EIO_def matrix_zero_def
        numeral_3_eq_3 split: if_splits prod.splits option.splits)
  have g: "s3c2410_gpio_getcfg p (k_io k2) =
      (if p \<in> set col_pins then S3C2410_GPIO_SFN2 else s3c2410_gpio_getcfg p (matrix_pins_setup (k_io k)))"
    if "port_pin p" for p
    using request_irqs_ok [OF r _ that] col_pins_eint by simp
  have "mlistening s" "rows_driven s"
    using g pins_port rows_not_cols getcfg_setup by (auto simp: mlistening_def rows_driven_def s)
  moreover have "debounce [0, 0, 0] = 0" by (simp add: debounce_def)
  ultimately show ?thesis
    by (auto simp: matrix_inv_def keys_reported_def ring_def s matrix_zero_def key_down_def next_index_def)
qed

lemma matrix_init_all_ok: "\<exists>k' s. matrix_init all_ok fresh_kern (matrix_zero (k_io fresh_kern)) = (0, k', s)"
proof -
  obtain k2 where "request_irqs all_ok 0 matrix_irqs
      (fresh_kern\<lparr>k_registered := True, k_io := matrix_pins_setup (k_io fresh_kern)\<rparr>) = (None, k2)"
    using request_irqs_all_ok by blast
  moreover have "alloc_ok all_ok" by (simp add: all_ok_def)
  ultimately show ?thesis by (simp add: matrix_init_def Let_def)
qed

section \<open>Properties\<close>

text \<open>C10. Keys are debounced over three scans: after any number of scans from a fresh start, a key of
  the map is reported as pressed exactly when each of the last three samples has its bit.\<close>

theorem matrix_debounced:
  assumes "matrix_init sv k (matrix_zero (k_io k)) = (0, k', s)" and "i < length keymap"
    and "keymap ! i \<noteq> KEY_UNKNOWN"
  shows "key_down (keymap ! i) (mout (matrix_run xs s)) \<longleftrightarrow>
    (\<forall>x \<in> set (take 3 (samples xs s [0, 0, 0])). bit x i)"
proof -
  note s = matrix_init_ok [OF assms(1)]
  have "matrix_inv (matrix_run xs s)" "keys_reported (matrix_run xs s)"
    using matrix_run_inv s by auto
  moreover have "set (mstate (matrix_run xs s)) = set (take 3 (samples xs s [0, 0, 0]))"
    using matrix_run_ring [of s "[0, 0, 0]" xs] s by (simp add: ring_def)
  ultimately show ?thesis
    using assms(2,3) by (simp add: keys_reported_def matrix_inv_def bit_debounce)
qed

theorem matrix_debounced_witness:
  "\<exists>k' s. matrix_init all_ok fresh_kern (matrix_zero (k_io fresh_kern)) = (0, k', s) \<and>
    \<not> key_down (keymap ! 1) (mout (matrix_run [(\<lambda>m. 0x18, 1), (\<lambda>m. 0x18, 2)] s))"
proof -
  let ?xs = "[(\<lambda>m. 0x18, 1), (\<lambda>m. 0x18, 2)] :: ((io \<Rightarrow> u32) \<times> u32) list"
  obtain k' s where i: "matrix_init all_ok fresh_kern (matrix_zero (k_io fresh_kern)) = (0, k', s)"
    using matrix_init_all_ok by blast
  have "0 \<in> set (take 3 (samples ?xs s [0, 0, 0]))" by simp
  then have "\<not> (\<forall>x \<in> set (take 3 (samples ?xs s [0, 0, 0])). bit x 1)" by (metis bit_0_eq bot_apply bot_bool_def)
  with matrix_debounced [OF i, of 1 ?xs] i show ?thesis by (auto simp: keymap_def KEY_UNKNOWN_def)
qed

text \<open>No key is left pressed when the driver stops scanning, and it never goes deaf: a scan that
  does not arm the timer leaves every key reported as released and the four columns as
  interrupt inputs.\<close>

theorem matrix_scan_stops_released:
  assumes "matrix_inv s" and "keys_reported s" and "mtimer (matrix_scan hw j s) = None"
    and "i < length keymap" and "keymap ! i \<noteq> KEY_UNKNOWN"
  shows "\<not> key_down (keymap ! i) (mout (matrix_scan hw j s)) \<and> mlistening (matrix_scan hw j s)"
proof -
  obtain m st where r: "scan_rows hw (mio s) = (m, st)" by fastforce
  note f = matrix_scan_fields [OF r refl refl, of j]
  let ?k = "next_index (length (mstate s)) (mindex s)"
  have k: "?k < length (mstate s)" using assms(1) by (simp add: matrix_inv_def next_index_def)
  have "(mstate s)[?k := st] ! ?k = 0" using assms(3) by (simp only: f(5) split: if_splits) simp
  with k have "st = 0" by simp
  then have "\<not> bit (last_state (matrix_scan hw j s)) i"
    using k set_update_memI [OF k, of st] by (auto simp: f(3) bit_debounce intro!: bexI [of _ 0])
  with matrix_scan_reported [OF assms(2)] assms(4,5) matrix_scan_safe [of hw j s] assms(3)
  show ?thesis by (auto simp: keys_reported_def)
qed

theorem matrix_scan_stops_released_witness:
  "\<exists>k' s. matrix_init all_ok fresh_kern (matrix_zero (k_io fresh_kern)) = (0, k', s) \<and>
    \<not> key_down (keymap ! 1) (mout (matrix_scan (\<lambda>m. 8) 0 s)) \<and> mlistening (matrix_scan (\<lambda>m. 8) 0 s)"
proof -
  obtain k' s where i: "matrix_init all_ok fresh_kern (matrix_zero (k_io fresh_kern)) = (0, k', s)"
    using matrix_init_all_ok by blast
  note s = matrix_init_ok [OF i]
  have g: "matrix_read_gpio (settle (\<lambda>m. 8) m) = 0" for m
  proof -
    have "settle (\<lambda>m. 8) m (GPDAT (S3C2410_GPF n)) = 8" if "n < 32" for n
      using that by (simp add: settle_def GPDAT_def base_FG)
    then show ?thesis by (simp add: matrix_read_gpio_def s3c2410_gpio_getpin_def)
  qed
  have "snd (scan_rows (\<lambda>m. 8) m) = 0" for m by (simp add: scan_rows_def scan_row_def Let_def g)
  then obtain m where r: "scan_rows (\<lambda>m. 8) (mio s) = (m, 0)" by (metis prod.collapse)
  have "next_index (length (mstate s)) (mindex s) < length (mstate s)"
    using s by (auto simp: matrix_inv_def next_index_def)
  then have n: "mtimer (matrix_scan (\<lambda>m. 8) 0 s) = None"
    by (simp add: matrix_scan_fields(5) [OF r refl refl])
  from matrix_scan_stops_released [OF _ _ n, of 1] s i show ?thesis by (auto simp: keymap_def KEY_UNKNOWN_def)
qed

text \<open>C23. The matrix driver never goes deaf: whatever happens after a successful setup, the timer is
  pending or the columns are interrupt inputs, and the rows are driven between the scans.\<close>

theorem matrix_never_deaf:
  assumes "matrix_init sv k (matrix_zero (k_io k)) = (0, k', s)"
    and "(scan_step matrix_irq (matrix_scan hw) (\<lambda>v s. s\<lparr>mio := (mio s)(GPDAT (S3C2410_GPF 0) := v)\<rparr>)
      (\<lambda>s. mtimer s \<noteq> None))\<^sup>*\<^sup>* s s'"
  shows "(mtimer s' \<noteq> None \<or> mlistening s') \<and> rows_driven s'"
  using matrix.never_deaf [OF assms(2)] matrix_init_ok [OF assms(1)] by (auto simp: matrix_inv_def)

theorem matrix_never_deaf_witness:
  "\<exists>k' s. matrix_init all_ok fresh_kern (matrix_zero (k_io fresh_kern)) = (0, k', s) \<and>
    rows_driven (matrix_scan (\<lambda>m. 0) 5 (matrix_irq 5 s))"
proof -
  obtain k' s where i: "matrix_init all_ok fresh_kern (matrix_zero (k_io fresh_kern)) = (0, k', s)"
    using matrix_init_all_ok by blast
  let ?step = "scan_step matrix_irq (matrix_scan (\<lambda>m. 0))
    (\<lambda>v s. s\<lparr>mio := (mio s)(GPDAT (S3C2410_GPF 0) := v)\<rparr>) (\<lambda>s. mtimer s \<noteq> None)"
  have "?step s (matrix_irq 5 s)" "?step (matrix_irq 5 s) (matrix_scan (\<lambda>m. 0) 5 (matrix_irq 5 s))"
    by (rule step_irq, rule step_timer, simp add: matrix_irq_def)
  then have "?step\<^sup>*\<^sup>* s (matrix_scan (\<lambda>m. 0) 5 (matrix_irq 5 s))" by simp
  from matrix_never_deaf [OF i this] i show ?thesis by auto
qed

text \<open>A failed setup releases what it took: when \<open>matrix_init\<close> fails, none of its interrupts
  is held or enabled for wake-up and the input device is not registered.\<close>

theorem matrix_init_cleans_up:
  assumes "matrix_init sv k s = (rc, k', s')" and "rc \<noteq> 0"
    and "set (k_held k) \<inter> set matrix_irqs = {}" and "set (k_wake k) \<inter> set matrix_irqs = {}"
    and "\<not> k_registered k"
  shows "set (k_held k') \<inter> set matrix_irqs = {} \<and> set (k_wake k') \<inter> set matrix_irqs = {} \<and> \<not> k_registered k'"
proof (cases "alloc_ok sv")
  case False
  with assms show ?thesis by (auto simp: matrix_init_def)
next
  case True
  let ?k1 = "k\<lparr>k_registered := True, k_io := matrix_pins_setup (k_io k)\<rparr>"
  obtain j k2 where r: "request_irqs sv 0 matrix_irqs ?k1 = (Some j, k2)"
    and k': "k' = (release_irqs sv (rev (take (Suc j) matrix_irqs)) k2)\<lparr>k_registered := False\<rparr>"
    using assms(1,2) True by (auto simp: matrix_init_def Let_def split: prod.splits option.splits)
  have "set (take j matrix_irqs) \<subseteq> set (take (Suc j) matrix_irqs)" by (rule set_take_subset_set_take) simp
  with request_irqs_fail [OF r] assms(3,4) show ?thesis
    by (auto simp: k' release_irqs_held release_irqs_wake)
qed

theorem matrix_init_cleans_up_witness:
  "\<exists>k' s'. matrix_init (all_ok\<lparr>wake_ret := (\<lambda>n. if n = IRQ_EINT 5 then - 22 else 0)\<rparr>) fresh_kern
      (matrix_zero (\<lambda>r. 0)) = (- 5, k', s') \<and> set (k_held k') \<inter> set matrix_irqs = {} \<and> \<not> k_registered k'"
proof -
  obtain k' s' where i: "matrix_init (all_ok\<lparr>wake_ret := (\<lambda>n. if n = IRQ_EINT 5 then - 22 else 0)\<rparr>)
      fresh_kern (matrix_zero (\<lambda>r. 0)) = (- 5, k', s')"
    by (simp add: matrix_init_def matrix_irqs_def all_ok_def request_irq_def set_irq_wake_def Let_def
        IRQ_EINT_def EIO_def)
  from matrix_init_cleans_up [OF i] i show ?thesis by (auto simp: fresh_kern_def)
qed

end
