(* ===== verification/JiveIrtx.thy ===== *)
theory JiveIrtx
  imports S3cGpio
begin

text \<open>
  The infrared transmitter, \<^verbatim>\<open>drivers/char/jive/jive_irtx.c\<close>: a write gives the
  carrier frequency and then a list of marks and spaces, each a word with two flag bits and
  a duration in microseconds. The line to the LED is pin GPB1, a plain output or the output of
  timer 1. The model works on the pin and timer registers; what the LED does is read off them.
\<close>

section \<open>Registers\<close>

definition S3C2410_GPB1 :: nat where "S3C2410_GPB1 = S3C2410_GPIO_BANKB + 1"

definition S3C2410_GPB1_OUTP :: u32 where "S3C2410_GPB1_OUTP = push_bit 2 1"
definition S3C2410_GPB1_TOUT1 :: u32 where "S3C2410_GPB1_TOUT1 = push_bit 2 2"

definition S3C2410_TCFG0 :: reg where "S3C2410_TCFG0 = VA_TIMER 0"
definition S3C2410_TCFG1 :: reg where "S3C2410_TCFG1 = VA_TIMER 4"
definition S3C2410_TCON :: reg where "S3C2410_TCON = VA_TIMER 8"
definition S3C2410_TCNTB :: "nat \<Rightarrow> reg" where "S3C2410_TCNTB tmr = VA_TIMER (0x0c + tmr * 0x0c)"
definition S3C2410_TCMPB :: "nat \<Rightarrow> reg" where "S3C2410_TCMPB tmr = VA_TIMER (4 + 0x0c + tmr * 0x0c)"

definition S3C2410_TCFG_PRESCALER0_MASK :: u32 where "S3C2410_TCFG_PRESCALER0_MASK = 255"
definition S3C2410_TCFG1_MUX1_MASK :: u32 where "S3C2410_TCFG1_MUX1_MASK = push_bit 4 15"
definition S3C2410_TCFG1_MUX1_DIV4 :: u32 where "S3C2410_TCFG1_MUX1_DIV4 = push_bit 4 1"
definition S3C2410_TCON_T1RELOAD :: u32 where "S3C2410_TCON_T1RELOAD = push_bit 11 1"
definition S3C2410_TCON_T1MANUALUPD :: u32 where "S3C2410_TCON_T1MANUALUPD = push_bit 9 1"
definition S3C2410_TCON_T1START :: u32 where "S3C2410_TCON_T1START = push_bit 8 1"

section \<open>The driver\<close>

text \<open>\<^verbatim>\<open>RAW(r) &= v\<close> and \<^verbatim>\<open>RAW(r) |= v\<close>.\<close>

definition raw_and :: "reg \<Rightarrow> u32 \<Rightarrow> io \<Rightarrow> io" where "raw_and r v m = m(r := m r AND v)"
definition raw_or :: "reg \<Rightarrow> u32 \<Rightarrow> io \<Rightarrow> io" where "raw_or r v m = m(r := m r OR v)"

definition DisableCarrierNothing :: "io \<Rightarrow> io" where
  "DisableCarrierNothing m =
     (let m = raw_and S3C2410_TCON 0xFFFFF0FF m;
          m = s3c2410_gpio_cfgpin S3C2410_GPB1 S3C2410_GPB1_OUTP m
      in s3c2410_gpio_setpin S3C2410_GPB1 0 m)"

definition EnableCarrierProcess :: "u32 \<Rightarrow> u32 \<Rightarrow> io \<Rightarrow> io" where
  "EnableCarrierProcess v1 v2 m =
     (let m = s3c2410_gpio_cfgpin S3C2410_GPB1 S3C2410_GPB1_TOUT1 m;
          m = raw_and S3C2410_TCFG0 (NOT S3C2410_TCFG_PRESCALER0_MASK) m;
          m = raw_and S3C2410_TCFG1 (NOT S3C2410_TCFG1_MUX1_MASK) m;
          m = raw_or S3C2410_TCFG1 S3C2410_TCFG1_MUX1_DIV4 m;
          m = m(S3C2410_TCNTB 1 := v1);
          m = m(S3C2410_TCMPB 1 := v2);
          m = raw_and S3C2410_TCON 0xFFFFF0FF m;
          m = raw_or S3C2410_TCON S3C2410_TCON_T1MANUALUPD m;
          m = raw_or S3C2410_TCON (S3C2410_TCON_T1RELOAD OR S3C2410_TCON_T1START) m
      in raw_and S3C2410_TCON (NOT S3C2410_TCON_T1MANUALUPD) m)"

definition EnableNoCarrier :: "io \<Rightarrow> io" where
  "EnableNoCarrier m =
     (let m = raw_and S3C2410_TCON 0xFFFFF0FF m;
          m = s3c2410_gpio_cfgpin S3C2410_GPB1 S3C2410_GPB1_OUTP m
      in s3c2410_gpio_setpin S3C2410_GPB1 1 m)"

definition BUFFER_MAX :: nat where "BUFFER_MAX = 100"
definition NO_CARRIER_DELAY_MAX :: u32 where "NO_CARRIER_DELAY_MAX = 20"
definition MARK_BIT :: u32 where "MARK_BIT = 0x80000000"
definition OMIT_CARRIER_BIT :: u32 where "OMIT_CARRIER_BIT = 0x40000000"
definition CLOCK_FREQUENCY :: u32 where "CLOCK_FREQUENCY = 12000000"
definition CARRIER_FREQUENCY_MIN :: u32 where "CARRIER_FREQUENCY_MIN = 20000"
definition CARRIER_FREQUENCY_MAX :: u32 where "CARRIER_FREQUENCY_MAX = 500000"

text \<open>One round of the loop: the registers during the delay, and its length.\<close>

definition tx_word :: "u32 \<Rightarrow> u32 \<Rightarrow> u32 \<Rightarrow> io \<Rightarrow> io \<times> u32" where
  "tx_word v1 v2 x m =
     (let MarkBit = x AND MARK_BIT;
          OmitCarrierBit = x AND OMIT_CARRIER_BIT;
          DelayTime = x AND NOT (MARK_BIT OR OMIT_CARRIER_BIT)
      in if MarkBit \<noteq> 0 then
           (if OmitCarrierBit \<noteq> 0 then
              (EnableNoCarrier m, if DelayTime > NO_CARRIER_DELAY_MAX then NO_CARRIER_DELAY_MAX else DelayTime)
            else (EnableCarrierProcess v1 v2 m, DelayTime))
         else (DisableCarrierNothing m, DelayTime))"

text \<open>\<open>mdelay\<close> and then \<open>udelay\<close>, together in microseconds.\<close>

definition busy_wait :: "u32 \<Rightarrow> u32" where
  "busy_wait DelayTime = 1000 * (DelayTime div 1000) + DelayTime mod 1000"

fun tx_words :: "u32 \<Rightarrow> u32 \<Rightarrow> u32 list \<Rightarrow> io \<Rightarrow> (io \<times> u32) list \<times> io" where
  "tx_words v1 v2 [] m = ([], m)"
| "tx_words v1 v2 (x # xs) m =
     (let (m1, d) = tx_word v1 v2 x m; (segs, m2) = tx_words v1 v2 xs m1 in ((m1, busy_wait d) # segs, m2))"

text \<open>
  \<open>IRTransmission_write\<close>. \<open>TxData\<close> is the array on the stack after
  \<open>copy_from_user\<close>, 100 words of which the copied ones come from the caller. The return value
  of \<open>copy_from_user\<close> is the number of bytes it could not copy, which the code takes for an
  error code; it is never negative. The result has the registers at each delay.
\<close>

definition tx_values :: "u32 \<Rightarrow> u32 \<times> u32" where
  "tx_values f =
     (let f = (if f < CARRIER_FREQUENCY_MIN then CARRIER_FREQUENCY_MIN else f);
          f = (if f > CARRIER_FREQUENCY_MAX then CARRIER_FREQUENCY_MAX else f);
          v1 = CLOCK_FREQUENCY div f
      in (v1, v1 div 2))"

definition IRTransmission_write :: "nat \<Rightarrow> int \<Rightarrow> u32 list \<Rightarrow> io \<Rightarrow> int \<times> (io \<times> u32) list \<times> io" where
  "IRTransmission_write cnt copy_ret TxData m =
     (let cnt = (if cnt > BUFFER_MAX then BUFFER_MAX else cnt) in
      if copy_ret < 0 then (copy_ret, [], m)
      else
        let (v1, v2) = tx_values (TxData ! 0);
            m = DisableCarrierNothing m;
            (segs, m) = tx_words v1 v2 (drop 1 (take cnt TxData)) m
        in (0, segs, DisableCarrierNothing m))"

definition IRTransmission_init :: "bool \<Rightarrow> int \<Rightarrow> int \<times> bool" where
  "IRTransmission_init machine_is_jive misc_ret =
     (if \<not> machine_is_jive then (0, False) else if misc_ret \<noteq> 0 then (misc_ret, False) else (0, True))"

text \<open>\<open>IRTransmission_exit\<close>: the flag says whether the device node exists.\<close>

definition IRTransmission_exit :: "bool \<Rightarrow> bool" where
  "IRTransmission_exit registered = False"

section \<open>What the LED does\<close>

text \<open>A carrier is given by its period and the part of it in which the LED is lit, both in cycles of the peripheral clock.\<close>

datatype led = Dark | Lit | Modulated nat nat

text \<open>The clock of timer 1: the peripheral clock divided by the prescaler of timers 0 and 1 and then by the power of two that
  the multiplexer selects; a code above 3 selects an external clock.\<close>

definition timer1_div :: "io \<Rightarrow> nat option" where
  "timer1_div m =
     (let mux = unat (drop_bit 4 (m S3C2410_TCFG1) AND 15)
      in if mux < 4 then Some ((unat (m S3C2410_TCFG0 AND 255) + 1) * 2 ^ (mux + 1)) else None)"

definition timer1_running :: "io \<Rightarrow> bool" where
  "timer1_running m \<longleftrightarrow> bit (m S3C2410_TCON) 8"

definition led_of :: "io \<Rightarrow> led option" where
  "led_of m =
     (if s3c2410_gpio_getcfg S3C2410_GPB1 m = S3C2410_GPIO_OUTPUT
      then Some (if s3c2410_gpio_getpin S3C2410_GPB1 m \<noteq> 0 then Lit else Dark)
      else if s3c2410_gpio_getcfg S3C2410_GPB1 m = S3C2410_GPIO_SFN2 \<and> timer1_running m
      then map_option (\<lambda>k. Modulated (k * unat (m (S3C2410_TCNTB 1))) (k * unat (m (S3C2410_TCMPB 1)))) (timer1_div m) else None)"

text \<open>The specification of one word. The timer counts at a fourth of the peripheral clock.\<close>

definition led_spec :: "u32 \<Rightarrow> u32 \<times> u32 \<Rightarrow> led \<times> u32" where
  "led_spec x v =
     (let d = x AND 0x3FFFFFFF in
      if bit x 31 then (if bit x 30 then (Lit, min 20 d) else (Modulated (4 * unat (fst v)) (4 * unat (snd v)), d)) else (Dark, d))"

lemma port_GPB1 [simp]: "port_pin S3C2410_GPB1"
  by (simp add: port_pin_def S3C2410_GPB1_def S3C2410_GPIO_BANKB_def S3C2410_GPIO_OFFSET_def)

lemma offset_GPB1 [simp]: "S3C2410_GPIO_OFFSET S3C2410_GPB1 = 1"
  by (simp add: S3C2410_GPB1_def S3C2410_GPIO_BANKB_def S3C2410_GPIO_OFFSET_def)

text \<open>The explicit function codes of \<^verbatim>\<open>regs-gpio.h\<close> act like the generic ones.\<close>

lemma cfgpin_explicit:
  "s3c2410_gpio_cfgpin S3C2410_GPB1 S3C2410_GPB1_OUTP m = s3c2410_gpio_cfgpin S3C2410_GPB1 S3C2410_GPIO_OUTPUT m"
  "s3c2410_gpio_cfgpin S3C2410_GPB1 S3C2410_GPB1_TOUT1 m = s3c2410_gpio_cfgpin S3C2410_GPB1 S3C2410_GPIO_SFN2 m"
  unfolding s3c2410_gpio_cfgpin_def
  by (simp_all add: Let_def pin_consts S3C2410_GPB1_OUTP_def S3C2410_GPB1_TOUT1_def S3C2410_GPB1_def
      S3C2410_GPIO_BANKB_def S3C2410_GPIO_OFFSET_def)

lemma timer_regs [simp]:
  "S3C2410_TCON \<noteq> GPCON p" "S3C2410_TCON \<noteq> GPDAT p" "S3C2410_TCFG0 \<noteq> GPCON p" "S3C2410_TCFG0 \<noteq> GPDAT p"
  "S3C2410_TCFG1 \<noteq> GPCON p" "S3C2410_TCFG1 \<noteq> GPDAT p" "S3C2410_TCNTB t \<noteq> GPCON p" "S3C2410_TCNTB t \<noteq> GPDAT p"
  "S3C2410_TCMPB t \<noteq> GPCON p" "S3C2410_TCMPB t \<noteq> GPDAT p"
  by (simp_all add: S3C2410_TCON_def S3C2410_TCFG0_def S3C2410_TCFG1_def S3C2410_TCNTB_def
      S3C2410_TCMPB_def GPCON_def GPDAT_def)

lemma getcfg_other [simp]: "r \<noteq> GPCON p \<Longrightarrow> s3c2410_gpio_getcfg p (m(r := v)) = s3c2410_gpio_getcfg p m"
  by (simp add: s3c2410_gpio_getcfg_def)

lemma getpin_other [simp]: "r \<noteq> GPDAT p \<Longrightarrow> s3c2410_gpio_getpin p (m(r := v)) = s3c2410_gpio_getpin p m"
  by (simp add: s3c2410_gpio_getpin_def)

lemma cfg_neq [simp]: "S3C2410_GPIO_SFN2 \<noteq> S3C2410_GPIO_OUTPUT"
  by (simp add: pin_consts)

lemma led_disable: "led_of (DisableCarrierNothing m) = Some Dark"
proof -
  let ?m = "s3c2410_gpio_cfgpin S3C2410_GPB1 S3C2410_GPIO_OUTPUT (raw_and S3C2410_TCON 0xFFFFF0FF m)"
  have "\<not> s3c2410_gpio_getpin S3C2410_GPB1 (s3c2410_gpio_setpin S3C2410_GPB1 0 ?m) \<noteq> 0"
    using getpin_setpin [OF port_GPB1, of False ?m] by simp
  moreover have "s3c2410_gpio_getcfg S3C2410_GPB1 (s3c2410_gpio_setpin S3C2410_GPB1 0 ?m) = S3C2410_GPIO_OUTPUT"
    by (simp add: setpin_put_bits getcfg_cfgpin)
  ultimately show ?thesis by (simp add: DisableCarrierNothing_def led_of_def cfgpin_explicit Let_def)
qed

lemma led_no_carrier: "led_of (EnableNoCarrier m) = Some Lit"
proof -
  let ?m = "s3c2410_gpio_cfgpin S3C2410_GPB1 S3C2410_GPIO_OUTPUT (raw_and S3C2410_TCON 0xFFFFF0FF m)"
  have "s3c2410_gpio_getpin S3C2410_GPB1 (s3c2410_gpio_setpin S3C2410_GPB1 1 ?m) \<noteq> 0"
    using getpin_setpin [OF port_GPB1, of True ?m] by simp
  moreover have "s3c2410_gpio_getcfg S3C2410_GPB1 (s3c2410_gpio_setpin S3C2410_GPB1 1 ?m) = S3C2410_GPIO_OUTPUT"
    by (simp add: setpin_put_bits getcfg_cfgpin)
  ultimately show ?thesis by (simp add: EnableNoCarrier_def led_of_def cfgpin_explicit Let_def)
qed

lemma led_carrier: "led_of (EnableCarrierProcess v1 v2 m) = Some (Modulated (4 * unat v1) (4 * unat v2))"
proof -
  have k: "timer1_div (EnableCarrierProcess v1 v2 m) = Some 4"
  proof -
    have "drop_bit 4 ((w AND NOT S3C2410_TCFG1_MUX1_MASK) OR S3C2410_TCFG1_MUX1_DIV4) AND 15 = 1" for w
      by (simp add: S3C2410_TCFG1_MUX1_MASK_def S3C2410_TCFG1_MUX1_DIV4_def drop_bit_and drop_bit_or bit.conj_disj_distrib2 and.assoc)
    moreover have "(w AND NOT S3C2410_TCFG_PRESCALER0_MASK) AND 255 = 0" for w
      by (simp add: S3C2410_TCFG_PRESCALER0_MASK_def and.assoc)
    moreover have "S3C2410_TCFG0 \<noteq> S3C2410_TCFG1" "S3C2410_TCFG0 \<noteq> S3C2410_TCON" "S3C2410_TCFG1 \<noteq> S3C2410_TCON" "S3C2410_TCFG0 \<noteq> S3C2410_TCNTB 1"
      "S3C2410_TCFG1 \<noteq> S3C2410_TCNTB 1" "S3C2410_TCFG0 \<noteq> S3C2410_TCMPB 1" "S3C2410_TCFG1 \<noteq> S3C2410_TCMPB 1"
      by (simp_all add: S3C2410_TCON_def S3C2410_TCFG0_def S3C2410_TCFG1_def S3C2410_TCNTB_def S3C2410_TCMPB_def)
    ultimately show ?thesis by (simp add: EnableCarrierProcess_def Let_def raw_and_def raw_or_def timer1_div_def)
  qed
  have b: "bit ((w OR (S3C2410_TCON_T1RELOAD OR S3C2410_TCON_T1START)) AND NOT S3C2410_TCON_T1MANUALUPD) 8" for w
    by (simp add: S3C2410_TCON_T1RELOAD_def S3C2410_TCON_T1START_def S3C2410_TCON_T1MANUALUPD_def bit_and_iff
        bit_or_iff bit_not_iff bit_push_bit_iff)
  have r: "S3C2410_TCON \<noteq> S3C2410_TCNTB 1" "S3C2410_TCON \<noteq> S3C2410_TCMPB 1" "S3C2410_TCNTB 1 \<noteq> S3C2410_TCMPB 1"
    by (simp_all add: S3C2410_TCON_def S3C2410_TCNTB_def S3C2410_TCMPB_def)
  have c: "s3c2410_gpio_getcfg S3C2410_GPB1 (EnableCarrierProcess v1 v2 m) = S3C2410_GPIO_SFN2"
    by (simp add: EnableCarrierProcess_def Let_def raw_and_def raw_or_def cfgpin_explicit getcfg_cfgpin)
  have t: "timer1_running (EnableCarrierProcess v1 v2 m)"
    using b by (simp add: EnableCarrierProcess_def Let_def raw_and_def raw_or_def timer1_running_def)
  have "EnableCarrierProcess v1 v2 m (S3C2410_TCNTB 1) = v1" "EnableCarrierProcess v1 v2 m (S3C2410_TCMPB 1) = v2"
    using r by (simp_all add: EnableCarrierProcess_def Let_def raw_and_def raw_or_def)
  with c t k show ?thesis by (simp add: led_of_def)
qed

lemma flag_bits: "x AND MARK_BIT \<noteq> 0 \<longleftrightarrow> bit x 31" "x AND OMIT_CARRIER_BIT \<noteq> 0 \<longleftrightarrow> bit x 30"
proof -
  have m: "MARK_BIT = 2 ^ 31" "OMIT_CARRIER_BIT = 2 ^ 30" by (simp_all add: MARK_BIT_def OMIT_CARRIER_BIT_def)
  show "x AND MARK_BIT \<noteq> 0 \<longleftrightarrow> bit x 31" unfolding m and_exp_eq_0_iff_not_bit by blast
  show "x AND OMIT_CARRIER_BIT \<noteq> 0 \<longleftrightarrow> bit x 30" unfolding m and_exp_eq_0_iff_not_bit by blast
qed

lemma tx_word_spec:
  "(led_of (fst (tx_word v1 v2 x m)), snd (tx_word v1 v2 x m)) =
     (Some (fst (led_spec x (v1, v2))), snd (led_spec x (v1, v2)))"
proof -
  have d: "NOT (MARK_BIT OR OMIT_CARRIER_BIT) = 0x3FFFFFFF"
    by (simp add: MARK_BIT_def OMIT_CARRIER_BIT_def)
  show ?thesis
    unfolding tx_word_def led_spec_def Let_def flag_bits d
    by (auto simp: led_disable led_no_carrier led_carrier NO_CARRIER_DELAY_MAX_def min_def)
qed

lemma busy_wait_eq [simp]: "busy_wait d = d"
  unfolding busy_wait_def by (rule mult_div_mod_eq)

lemma tx_words_spec:
  "map (\<lambda>(m, d). (led_of m, d)) (fst (tx_words v1 v2 xs m)) =
     map (\<lambda>x. (Some (fst (led_spec x (v1, v2))), snd (led_spec x (v1, v2)))) xs"
proof (induction xs arbitrary: m)
  case (Cons x xs)
  obtain m1 d where t: "tx_word v1 v2 x m = (m1, d)" by fastforce
  obtain segs m2 where r: "tx_words v1 v2 xs m1 = (segs, m2)" by fastforce
  from Cons.IH [of m1] r tx_word_spec [of v1 v2 x m] t show ?case by simp
qed simp

lemma tx_values_bounds: "24 \<le> fst (tx_values f) \<and> fst (tx_values f) \<le> 600 \<and> snd (tx_values f) = fst (tx_values f) div 2"
proof -
  have b: "24 \<le> CLOCK_FREQUENCY div g \<and> CLOCK_FREQUENCY div g \<le> 600"
    if "20000 \<le> g" "g \<le> 500000" for g :: u32
  proof -
    have n: "20000 \<le> unat g" "unat g \<le> 500000" using that by (simp_all add: word_le_nat_alt)
    have "12000000 div 500000 \<le> 12000000 div unat g" using n by (intro div_le_mono2) simp_all
    moreover have "12000000 div unat g \<le> 12000000 div 20000" using n by (intro div_le_mono2) simp_all
    ultimately show ?thesis by (simp add: word_le_nat_alt unat_div CLOCK_FREQUENCY_def)
  qed
  let ?g = "let f = (if f < CARRIER_FREQUENCY_MIN then CARRIER_FREQUENCY_MIN else f)
    in if f > CARRIER_FREQUENCY_MAX then CARRIER_FREQUENCY_MAX else f"
  have "20000 \<le> ?g" "?g \<le> 500000"
    by (auto simp: Let_def CARRIER_FREQUENCY_MIN_def CARRIER_FREQUENCY_MAX_def not_less)
  from b [OF this] show ?thesis by (simp add: tx_values_def Let_def)
qed

lemma irtx_run:
  assumes "0 \<le> copy_ret"
  shows "\<exists>segs m'. IRTransmission_write cnt copy_ret TxData m = (0, segs, m') \<and>
    map (\<lambda>(m, d). (led_of m, d)) segs =
      map (\<lambda>x. (Some (fst (led_spec x (tx_values (TxData ! 0)))), snd (led_spec x (tx_values (TxData ! 0)))))
        (drop 1 (take (min cnt 100) TxData)) \<and>
    led_of m' = Some Dark"
proof -
  obtain v1 v2 where v: "tx_values (TxData ! 0) = (v1, v2)" by fastforce
  let ?xs = "drop 1 (take (min cnt 100) TxData)"
  obtain segs m2 where r: "tx_words v1 v2 ?xs (DisableCarrierNothing m) = (segs, m2)" by fastforce
  have n: "(if cnt > BUFFER_MAX then BUFFER_MAX else cnt) = min cnt 100" by (simp add: BUFFER_MAX_def min_def)
  have "IRTransmission_write cnt copy_ret TxData m = (0, segs, DisableCarrierNothing m2)"
    using assms r unfolding IRTransmission_write_def n by (simp add: v Let_def)
  with tx_words_spec [of v1 v2 ?xs "DisableCarrierNothing m"] r v led_disable show ?thesis by simp
qed

section \<open>Properties\<close>

text \<open>C11. A write transmits what it was given: word by word the LED is dark, lit, or modulated by
  timer 1 with the values for the requested carrier, for the duration in the word, and at the end
  it is dark.\<close>

theorem irtx_transmits:
  assumes "0 \<le> copy_ret"
  shows "\<exists>segs m'. IRTransmission_write cnt copy_ret TxData m = (0, segs, m') \<and>
    map (\<lambda>(m, d). (led_of m, d)) segs =
      map (\<lambda>x. (Some (fst (led_spec x (tx_values (TxData ! 0)))), snd (led_spec x (tx_values (TxData ! 0)))))
        (drop 1 (take (min cnt 100) TxData)) \<and>
    led_of m' = Some Dark"
  using assms by (rule irtx_run)

theorem irtx_transmits_witness:
  "\<exists>segs m'. IRTransmission_write 3 0 ([38000, 0x80000000 + 560, 1690] @ replicate 97 0) (\<lambda>r. 0) = (0, segs, m') \<and>
    map (\<lambda>(m, d). (led_of m, d)) segs = [(Some (Modulated 1260 628), 560), (Some Dark, 1690)] \<and> led_of m' = Some Dark"
proof -
  have v: "tx_values 38000 = (315, 157)"
    by (simp add: tx_values_def CARRIER_FREQUENCY_MIN_def CARRIER_FREQUENCY_MAX_def CLOCK_FREQUENCY_def)
  have s: "led_spec (0x80000000 + 560) (315, 157) = (Modulated 1260 628, 560)" "led_spec 1690 (315, 157) = (Dark, 1690)"
    by (simp_all add: led_spec_def flag_bits [symmetric] MARK_BIT_def OMIT_CARRIER_BIT_def Let_def)
  have t: "drop 1 (take (min 3 100) ([38000, 0x80000000 + 560, 1690 :: u32] @ replicate 97 0)) = [0x80000000 + 560, 1690]"
    by simp
  show ?thesis
    using irtx_transmits [of 0 3 "[38000, 0x80000000 + 560, 1690] @ replicate 97 0" "\<lambda>r. 0"] s
    unfolding t by (simp add: v)
qed

text \<open>The words of a write that light the LED without carrier, and how long they do so together.\<close>

definition lit_time :: "(io \<times> u32) list \<Rightarrow> nat" where
  "lit_time segs = sum_list (map (\<lambda>(m, d). if led_of m = Some Lit then unat d else 0) segs)"

lemma lit_time_le: "\<forall>(m, d) \<in> set segs. led_of m = Some Lit \<longrightarrow> d \<le> 20 \<Longrightarrow> lit_time segs \<le> 20 * length segs"
proof (induction segs)
  case (Cons s segs)
  then have "led_of (fst s) = Some Lit \<longrightarrow> unat (snd s) \<le> 20" by (auto simp: word_le_nat_alt)
  then show ?case using Cons by (auto simp: lit_time_def split: prod.split)
qed (simp add: lit_time_def)

lemma irtx_segs:
  assumes "IRTransmission_write cnt copy_ret TxData m = (rc, segs, m')"
  shows "length segs \<le> 99 \<and> (\<forall>(m1, d) \<in> set segs. \<exists>x. led_of m1 = Some (fst (led_spec x (tx_values (TxData ! 0)))) \<and> d = snd (led_spec x (tx_values (TxData ! 0))))"
proof (cases "copy_ret < 0")
  case False
  let ?v = "tx_values (TxData ! 0)" and ?xs = "drop 1 (take (min cnt 100) TxData)"
  have e: "map (\<lambda>(m, d). (led_of m, d)) segs = map (\<lambda>x. (Some (fst (led_spec x ?v)), snd (led_spec x ?v))) ?xs"
    using irtx_run [of copy_ret cnt TxData m] assms False by auto
  have "length segs = length ?xs" using arg_cong [OF e, of length] by simp
  moreover have "length (take (min cnt 100) TxData) \<le> 100" by simp
  ultimately have n: "length segs \<le> 99" by simp
  have "\<exists>x. led_of m1 = Some (fst (led_spec x ?v)) \<and> d = snd (led_spec x ?v)" if "(m1, d) \<in> set segs" for m1 d
  proof -
    have "(led_of m1, d) \<in> set (map (\<lambda>(m, d). (led_of m, d)) segs)" using that by force
    then show ?thesis unfolding e by auto
  qed
  with n show ?thesis by auto
qed (use assms in \<open>simp add: IRTransmission_write_def Let_def\<close>)

text \<open>C24. Limits of a transmission, for any data: one word lights the LED without carrier for at most 20 microseconds and a
  whole write for at most 99 times that, and a carrier has between 20 and 500 kHz for the peripheral clock of four times
  \<open>CLOCK_FREQUENCY\<close> that the driver assumes, with half duty up to the rounding of the timer. Words without carrier
  may follow each other, so the limit of 20 microseconds does not hold for the time the LED is lit, see below.\<close>

theorem irtx_limits:
  assumes "IRTransmission_write cnt copy_ret TxData m = (rc, segs, m')"
  shows "(\<forall>(m1, d) \<in> set segs. (led_of m1 = Some Lit \<longrightarrow> d \<le> 20) \<and>
      (\<forall>p q. led_of m1 = Some (Modulated p q) \<longrightarrow>
         20000 * p \<le> 4 * unat CLOCK_FREQUENCY \<and> 4 * unat CLOCK_FREQUENCY \<le> 500000 * p \<and> 2 * q \<le> p \<and> p \<le> 2 * q + 4)) \<and>
    lit_time segs \<le> 20 * 99"
proof -
  obtain v1 v2 where v: "tx_values (TxData ! 0) = (v1, v2)" by fastforce
  have b: "24 \<le> unat v1" "unat v1 \<le> 600" "unat v2 = unat v1 div 2"
    using tx_values_bounds [of "TxData ! 0"] v by (simp_all add: word_le_nat_alt unat_div)
  note s = irtx_segs [OF assms, unfolded v]
  have w: "(led_of m1 = Some Lit \<longrightarrow> d \<le> 20) \<and> (\<forall>p q. led_of m1 = Some (Modulated p q) \<longrightarrow> p = 4 * unat v1 \<and> q = 4 * unat v2)" if "(m1, d) \<in> set segs" for m1 d
  proof -
    obtain x where "led_of m1 = Some (fst (led_spec x (v1, v2)))" "d = snd (led_spec x (v1, v2))"
      using bspec [OF conjunct2 [OF s] \<open>(m1, d) \<in> set segs\<close>] by auto
    then show ?thesis by (auto simp: led_spec_def Let_def split: if_splits)
  qed
  have "20000 * (4 * unat v1) \<le> 4 * unat CLOCK_FREQUENCY \<and> 4 * unat CLOCK_FREQUENCY \<le> 500000 * (4 * unat v1) \<and>
      2 * (4 * unat v2) \<le> 4 * unat v1 \<and> 4 * unat v1 \<le> 2 * (4 * unat v2) + 4"
  proof -
    have "20000 * (4 * n) \<le> 48000000 \<and> 48000000 \<le> 500000 * (4 * n) \<and> 2 * (4 * (n div 2)) \<le> 4 * n \<and> 4 * n \<le> 2 * (4 * (n div 2)) + 4"
      if "24 \<le> n" "n \<le> 600" for n :: nat using that by presburger
    moreover have "4 * unat CLOCK_FREQUENCY = 48000000" by (simp add: CLOCK_FREQUENCY_def)
    ultimately show ?thesis using b by (simp only:)
  qed
  moreover have "lit_time segs \<le> 20 * length segs" using w by (intro lit_time_le) auto
  moreover have "length segs \<le> 99" using s by blast
  ultimately have k: "lit_time segs \<le> 20 * 99" "20000 * (4 * unat v1) \<le> 4 * unat CLOCK_FREQUENCY" "4 * unat CLOCK_FREQUENCY \<le> 500000 * (4 * unat v1)"
    "2 * (4 * unat v2) \<le> 4 * unat v1" "4 * unat v1 \<le> 2 * (4 * unat v2) + 4" by simp_all
  show ?thesis by (intro conjI ballI k(1)) (use w k(2-5) in blast)
qed

theorem irtx_limits_witness:
  "\<exists>segs m'. IRTransmission_write 2 0 [38000, 0xC0000000 + 5000] (\<lambda>r. 0) = (0, segs, m') \<and> segs \<noteq> [] \<and>
    (led_of (fst (hd segs)) = Some Lit \<longrightarrow> snd (hd segs) \<le> 20) \<and> lit_time segs \<le> 20 * 99"
proof -
  obtain rc segs m' where w: "IRTransmission_write 2 0 [38000, 0xC0000000 + 5000] (\<lambda>r. 0) = (rc, segs, m')"
    by (metis prod_cases3)
  then have "rc = 0" "segs \<noteq> []"
    by (auto simp: IRTransmission_write_def BUFFER_MAX_def Let_def split: prod.splits)
  moreover from this have "(fst (hd segs), snd (hd segs)) \<in> set segs" by simp
  ultimately show ?thesis using irtx_limits [OF w] w by fastforce
qed

text \<open>Ninety-nine words without carrier keep the LED lit for 1980 microseconds without a pause.\<close>

theorem irtx_lit_run:
  "\<exists>segs m'. IRTransmission_write 100 0 (38000 # replicate 99 0xC0000014) m = (0, segs, m') \<and>
    (\<forall>(m1, d) \<in> set segs. led_of m1 = Some Lit \<and> d = 20) \<and> lit_time segs = 1980"
proof -
  have s: "led_spec 0xC0000014 v = (Lit, 20)" for v
    by (simp add: led_spec_def flag_bits [symmetric] MARK_BIT_def OMIT_CARRIER_BIT_def Let_def)
  obtain segs m' where w: "IRTransmission_write 100 0 (38000 # replicate 99 0xC0000014) m = (0, segs, m')"
    "map (\<lambda>(m, d). (led_of m, d)) segs = map (\<lambda>x. (Some Lit, 20)) (replicate 99 (0xC0000014 :: u32))"
    using irtx_run [of 0 100 "38000 # replicate 99 0xC0000014" m] by (auto simp: s)
  then have e: "map (\<lambda>(m, d). (led_of m, d)) segs = replicate 99 (Some Lit, 20)" by simp
  have "lit_time ss = sum_list (map (\<lambda>(l, d). if l = Some Lit then unat d else 0) (map (\<lambda>(m, d). (led_of m, d)) ss))" for ss
    by (induction ss) (auto simp: lit_time_def)
  from this [of segs] have "lit_time segs = 1980" unfolding e by (simp add: sum_list_replicate)
  moreover have "led_of m1 = Some Lit \<and> d = 20" if "(m1, d) \<in> set segs" for m1 d
  proof -
    have "(led_of m1, d) \<in> set (map (\<lambda>(m, d). (led_of m, d)) segs)" using that by force
    then show ?thesis unfolding e by simp
  qed
  ultimately show ?thesis using w(1) by auto
qed

end
