(* ===== verification/JiveMgmt.thy ===== *)
theory JiveMgmt
  imports JiveInput JiveIrtx
begin

text \<open>
  The board management driver, \<^verbatim>\<open>drivers/char/jive/jive_mgmt.c\<close>: battery voltage,
  backlight and key light, charger and detection pins, their interrupts, power management and
  the check for a flat battery at boot. The converter is a parameter: the values it delivers,
  and that it ends a conversion it was asked to start.
\<close>

section \<open>Registers and pins\<close>

definition S3C2410_GPB0 :: nat where "S3C2410_GPB0 = 32"
definition S3C2410_GPB2 :: nat where "S3C2410_GPB2 = 32 + 2"
definition S3C2410_GPC :: "nat \<Rightarrow> nat" where "S3C2410_GPC n = 32 * 2 + n"
definition S3C2410_GPH :: "nat \<Rightarrow> nat" where "S3C2410_GPH n = 32 * 7 + n"

text \<open>The macros \<^verbatim>\<open>S3C2410_GPxN_INP\<close>, \<^verbatim>\<open>_OUTP\<close> and
  \<^verbatim>\<open>_EINTn\<close> or \<^verbatim>\<open>_TOUTn\<close>: 0, 1 and 2 at the place of the pin.\<close>

definition pin_code :: "nat \<Rightarrow> u32 \<Rightarrow> u32" where
  "pin_code pin c = push_bit (S3C2410_GPIO_OFFSET pin * 2) c"

definition S3C2410_ADCCON :: reg where "S3C2410_ADCCON = VA_ADC 0"

definition S3C2410_ADCCON_ECFLG :: u32 where "S3C2410_ADCCON_ECFLG = push_bit 15 1"
definition S3C2410_ADCCON_PRSCEN :: u32 where "S3C2410_ADCCON_PRSCEN = push_bit 14 1"
definition S3C2410_ADCCON_PRSCVL :: "u32 \<Rightarrow> u32" where "S3C2410_ADCCON_PRSCVL x = push_bit 6 (x AND 0xFF)"
definition S3C2410_ADCCON_SELMUX :: "u32 \<Rightarrow> u32" where "S3C2410_ADCCON_SELMUX x = push_bit 3 (x AND 7)"
definition S3C2410_ADCCON_STDBM :: u32 where "S3C2410_ADCCON_STDBM = push_bit 2 1"
definition S3C2410_ADCCON_ENABLE_START :: u32 where "S3C2410_ADCCON_ENABLE_START = 1"

section \<open>The battery\<close>

definition N_BATTERY_SAMPLES :: nat where "N_BATTERY_SAMPLES = 6"
definition BATTERY_FLAT_LEVEL :: int where "BATTERY_FLAT_LEVEL = 812"

text \<open>One conversion: the start bit is written, the hardware clears it again, the code waits for
  that, and reads the value. The second wait tests
  \<^verbatim>\<open>!readl(ADCCON) & ECFLG\<close>.\<close>

definition c_not :: "u32 \<Rightarrow> u32" where
  "c_not x = (if x = 0 then 1 else 0)"

definition ec_wait :: "u32 \<Rightarrow> bool" where
  "ec_wait adccon \<longleftrightarrow> c_not adccon AND S3C2410_ADCCON_ECFLG \<noteq> 0"

fun adc_samples :: "u32 list \<Rightarrow> u32 \<times> u32 \<times> u32 \<Rightarrow> u32 \<times> u32 \<times> u32" where
  "adc_samples [] acc = acc"
| "adc_samples (x # xs) (tot, lo, hi) =
     (let adc_value = x AND 0x3ff
      in adc_samples xs (tot + adc_value,
           if adc_value < lo then adc_value else lo, if adc_value > hi then adc_value else hi))"

definition adc_start :: "io \<Rightarrow> io" where
  "adc_start m =
     (let con = m S3C2410_ADCCON AND NOT S3C2410_ADCCON_STDBM;
          con = con OR S3C2410_ADCCON_SELMUX 2;
          con = con OR S3C2410_ADCCON_PRSCVL 0x70
      in m(S3C2410_ADCCON := con OR S3C2410_ADCCON_PRSCEN))"

definition adc_stop :: "io \<Rightarrow> io" where
  "adc_stop m =
     m(S3C2410_ADCCON := (m S3C2410_ADCCON OR S3C2410_ADCCON_STDBM) AND NOT S3C2410_ADCCON_PRSCEN)"

text \<open>\<open>get_battery\<close>: the flag says that the converter is mapped, \<open>clk_ok\<close> that its clock
  was found; \<open>samples\<close> are the values read.\<close>

definition ENOENT_k :: int where "ENOENT_k = 2"

definition get_battery :: "bool \<Rightarrow> u32 list \<Rightarrow> bool \<times> io \<Rightarrow> int \<times> bool \<times> io" where
  "get_battery clk_ok samples = (\<lambda>(mapped, m).
     if \<not> mapped \<and> \<not> clk_ok then (- ENOENT_k, False, m)
     else
       let m = adc_start m;
           (tot, lo, hi) = adc_samples (take N_BATTERY_SAMPLES samples) (0, 0xffff, 0);
           m = adc_stop m;
           tot = tot - hi;
           tot = tot - lo;
           tot = tot div of_nat (N_BATTERY_SAMPLES - 2)
       in (sint tot, True, m))"

section \<open>The dimmers\<close>

definition MAX_DIMMER :: int where "MAX_DIMMER = 0xFFFF"
definition DEFAULT_BACKLIGHT_VALUE :: int where "DEFAULT_BACKLIGHT_VALUE = MAX_DIMMER"
definition DEFAULT_KEY_VALUE :: int where "DEFAULT_KEY_VALUE = 0x4000"

definition slide_pwm_value :: "int \<Rightarrow> int" where
  "slide_pwm_value v = (if v = 0 then 0 else if v > MAX_DIMMER then MAX_DIMMER - 1 else v - 1)"

definition init_pwm :: "nat \<Rightarrow> int \<Rightarrow> io \<Rightarrow> io" where
  "init_pwm pin val m =
     (if pin = 0 then
        (let m = raw_and S3C2410_TCFG0 (NOT S3C2410_TCFG_PRESCALER0_MASK) m;
             m = raw_and S3C2410_TCFG1 (NOT 15) m;
             m = raw_or S3C2410_TCFG1 0 m;
             m = raw_or S3C2410_TCON (push_bit 1 1) m;
             m = m(S3C2410_TCNTB 0 := of_int MAX_DIMMER);
             m = m(S3C2410_TCMPB 0 := of_int (slide_pwm_value val));
             m = raw_or S3C2410_TCON (push_bit 3 1 OR 1) m
         in raw_and S3C2410_TCON (NOT (push_bit 1 1)) m)
      else if pin = 2 then
        (let m = raw_and (GPCON S3C2410_GPB2) (NOT (pin_code S3C2410_GPB2 2 OR pin_code S3C2410_GPB2 1)) m;
             m = raw_or (GPCON S3C2410_GPB2) (pin_code S3C2410_GPB2 2) m;
             m = raw_and S3C2410_TCFG1 (NOT (push_bit 8 15)) m;
             m = raw_or S3C2410_TCFG1 0 m;
             m = raw_or S3C2410_TCON (push_bit 13 1) m;
             m = raw_or S3C2410_TCON (push_bit 14 1) m;
             m = m(S3C2410_TCNTB 2 := of_int MAX_DIMMER);
             m = m(S3C2410_TCMPB 2 := of_int (slide_pwm_value val));
             m = raw_or S3C2410_TCON (push_bit 15 1 OR push_bit 12 1) m
         in raw_and S3C2410_TCON (NOT (push_bit 13 1)) m)
      else m)"

definition set_pwm :: "nat \<Rightarrow> int \<Rightarrow> io \<Rightarrow> io" where
  "set_pwm pin val m = m(S3C2410_TCMPB pin := of_int (slide_pwm_value val))"

definition get_pwm :: "nat \<Rightarrow> io \<Rightarrow> int" where
  "get_pwm pin m = sint (m (S3C2410_TCMPB pin))"

section \<open>State and handlers\<close>

record mgmt =
  g_kern :: kern
  g_adc :: bool
  g_acpr_data :: int
  g_acpr_timer :: "u32 option"
  g_switch :: "(nat \<times> int) list"
  battery_flat :: bool
  g_bsp :: bool
  g_misc :: bool
  g_poweroff :: bool

definition g_upd :: "(io \<Rightarrow> io) \<Rightarrow> mgmt \<Rightarrow> mgmt" where
  "g_upd f s = s\<lparr>g_kern := (g_kern s)\<lparr>k_io := f (k_io (g_kern s))\<rparr>\<rparr>"

abbreviation g_io :: "mgmt \<Rightarrow> io" where "g_io s \<equiv> k_io (g_kern s)"

definition read_pin :: "nat \<Rightarrow> io \<Rightarrow> int" where
  "read_pin pin m = (if s3c2410_gpio_getpin pin m > 0 then 1 else 0)"

text \<open>The idiom of the handlers: make the pin an input, read it, make it an interrupt again.\<close>

definition sense_pin :: "nat \<Rightarrow> mgmt \<Rightarrow> int \<times> mgmt" where
  "sense_pin pin s =
     (let s1 = g_upd (s3c2410_gpio_cfgpin pin (pin_code pin 0)) s;
          val = read_pin pin (g_io s1)
      in (val, g_upd (s3c2410_gpio_cfgpin pin (pin_code pin 2)) s1))"

definition acpower_timer :: "mgmt \<Rightarrow> mgmt" where
  "acpower_timer s = s\<lparr>g_switch := g_switch s @ [(0, g_acpr_data s)], g_acpr_timer := None\<rparr>"

definition acpower_irq :: "u32 \<Rightarrow> mgmt \<Rightarrow> mgmt" where
  "acpower_irq jiffies s =
     (let s1 = g_upd (s3c2410_gpio_cfgpin (S3C2410_GPG 3) (pin_code (S3C2410_GPG 3) 0)) s;
          val = read_pin (S3C2410_GPG 3) (g_io s1);
          s2 = s1\<lparr>g_acpr_data := val, g_acpr_timer := Some (jiffies + drop_bit 2 HZ)\<rparr>
      in g_upd (s3c2410_gpio_cfgpin (S3C2410_GPG 3) (pin_code (S3C2410_GPG 3) 2)) s2)"

definition switch_irq :: "nat \<Rightarrow> nat \<Rightarrow> mgmt \<Rightarrow> mgmt" where
  "switch_irq sw pin s =
     (let s1 = g_upd (s3c2410_gpio_cfgpin pin (pin_code pin 0)) s;
          val = read_pin pin (g_io s1);
          s2 = s1\<lparr>g_switch := g_switch s1 @ [(sw, val)]\<rparr>
      in g_upd (s3c2410_gpio_cfgpin pin (pin_code pin 2)) s2)"

definition headphone_irq :: "mgmt \<Rightarrow> mgmt" where "headphone_irq = switch_irq 1 (S3C2410_GPG 14)"
definition dockdetect_irq :: "mgmt \<Rightarrow> mgmt" where "dockdetect_irq = switch_irq 2 (S3C2410_GPG 7)"
definition usbdetect_irq :: "mgmt \<Rightarrow> mgmt" where "usbdetect_irq = switch_irq 3 (S3C2410_GPG 1)"

text \<open>\<open>jive_mgmt_ioctl\<close>: \<open>val\<close> is the value read from user space, the result has the value
  written back. The parameters of the converter are those of \<open>get_battery\<close>.\<close>

definition jive_mgmt_ioctl ::
  "bool \<Rightarrow> u32 list \<Rightarrow> nat \<Rightarrow> int \<Rightarrow> mgmt \<Rightarrow> int \<times> int option \<times> mgmt" where
  "jive_mgmt_ioctl clk_ok samples cmd val s =
     (if cmd = 11 then (0, Some val, g_upd (set_pwm 0 val) s)
      else if cmd = 12 then (0, Some (get_pwm 0 (g_io s)), s)
      else if cmd = 13 then (0, Some val, g_upd (set_pwm 2 val) s)
      else if cmd = 14 then (0, Some (get_pwm 2 (g_io s)), s)
      else if cmd = 17 then
        (let (v, a, m) = get_battery clk_ok samples (g_adc s, g_io s)
         in (0, Some v, (g_upd (\<lambda>_. m) s)\<lparr>g_adc := a\<rparr>))
      else if cmd = 22 then (0, Some val, g_upd (s3c2410_gpio_setpin (S3C2410_GPG 12) (of_int val)) s)
      else if cmd = 23 then (let (v, s') = sense_pin (S3C2410_GPG 3) s in (0, Some v, s'))
      else if cmd = 24 then (let (v, s') = sense_pin (S3C2410_GPG 1) s in (0, Some v, s'))
      else if cmd = 25 then (0, Some (read_pin (S3C2410_GPH 7) (g_io s)), s)
      else if cmd = 26 then (0, Some val, g_upd (s3c2410_gpio_setpin (S3C2410_GPH 6) (of_int val)) s)
      else if cmd = 27 then (0, Some (read_pin (S3C2410_GPG 7) (g_io s)), s)
      else if cmd = 18 then (let (v, s') = sense_pin (S3C2410_GPG 14) s in (0, Some v, s'))
      else (- 22, None, s))"

definition out_pin :: "nat \<Rightarrow> u32 \<Rightarrow> mgmt \<Rightarrow> mgmt" where
  "out_pin pin v s =
     (let s = g_upd (s3c2410_gpio_cfgpin pin (pin_code pin 1)) s;
          s = g_upd (s3c2410_gpio_pullup pin 0) s
      in g_upd (s3c2410_gpio_setpin pin v) s)"

definition g_request :: "services \<Rightarrow> nat \<Rightarrow> mgmt \<Rightarrow> mgmt" where
  "g_request sv irq s = s\<lparr>g_kern := snd (request_irq sv irq (g_kern s))\<rparr>"

definition filter_pin :: "nat \<Rightarrow> mgmt \<Rightarrow> mgmt" where
  "filter_pin pin = g_upd (\<lambda>m. snd (s3c2410_gpio_irqfilter pin 1 0 m))"

text \<open>\<open>jive_mgmt_probe\<close>: requests that fail are only reported; wake-up for the power
  interrupt is enabled in any case. \<open>g_bsp\<close> says whether the input device could be allocated; if not, the code goes on with a null
  pointer, which the interrupt handlers pass to the input core. What happens then is not modelled.\<close>

definition jive_mgmt_probe :: "services \<Rightarrow> bool \<Rightarrow> int \<Rightarrow> u32 \<Rightarrow> mgmt \<Rightarrow> int \<times> mgmt" where
  "jive_mgmt_probe sv machine_is_jive misc_ret jiffies s0 =
     (if \<not> machine_is_jive then (- ENOENT_k, s0)
      else
        let s = out_pin (S3C2410_GPC 6) 1 s0;
            s = g_upd (init_pwm 0 DEFAULT_BACKLIGHT_VALUE) s;
            s = g_upd (init_pwm 2 DEFAULT_KEY_VALUE) s;
            s = out_pin (S3C2410_GPC 5) 0 s;
            s = out_pin (S3C2410_GPG 12) 0 s;
            s = g_upd (s3c2410_gpio_cfgpin (S3C2410_GPG 3) (pin_code (S3C2410_GPG 3) 2)) s;
            s = g_upd (s3c2410_gpio_pullup (S3C2410_GPG 3) 1) s;
            s = filter_pin (S3C2410_GPG 3) s;
            s = s\<lparr>g_bsp := alloc_ok sv, g_acpr_timer := None\<rparr>;
            s = g_request sv (IRQ_EINT 11) s;
            s = s\<lparr>g_kern := (g_kern s)\<lparr>k_wake := IRQ_EINT 11 # k_wake (g_kern s)\<rparr>\<rparr>;
            s = g_upd (s3c2410_gpio_cfgpin (S3C2410_GPG 1) (pin_code (S3C2410_GPG 1) 2)) s;
            s = g_upd (s3c2410_gpio_pullup (S3C2410_GPG 1) 1) s;
            s = filter_pin (S3C2410_GPG 1) s;
            s = g_request sv (IRQ_EINT 9) s;
            s = g_upd (s3c2410_gpio_cfgpin (S3C2410_GPH 7) (pin_code (S3C2410_GPH 7) 0)) s;
            s = g_upd (s3c2410_gpio_pullup (S3C2410_GPH 7) 1) s;
            s = out_pin (S3C2410_GPH 6) 0 s;
            s = g_upd (s3c2410_gpio_pullup (S3C2410_GPG 7) 0) s;
            s = filter_pin (S3C2410_GPG 7) s;
            s = g_request sv (IRQ_EINT 15) s;
            s = g_upd (s3c2410_gpio_pullup (S3C2410_GPG 14) 1) s;
            s = g_upd (s3c2410_gpio_pullup (S3C2410_GPG 14) 1) s;
            s = g_request sv (IRQ_EINT 22) s
        in if misc_ret \<noteq> 0 then (misc_ret, s)
           else
             let s = s\<lparr>g_misc := True\<rparr>;
                 s = acpower_irq jiffies s;
                 s = headphone_irq s;
                 s = dockdetect_irq s;
                 s = usbdetect_irq s
             in (0, if battery_flat s then s\<lparr>g_poweroff := True\<rparr> else s))"

definition IRQ_BATT_FLT :: nat where "IRQ_BATT_FLT = 23"

definition jive_mgmt_remove :: "mgmt \<Rightarrow> mgmt" where
  "jive_mgmt_remove s =
     s\<lparr>g_kern := free_irq IRQ_BATT_FLT (free_irq (IRQ_EINT 22) (free_irq (IRQ_EINT 15) (free_irq (IRQ_EINT 9) (g_kern s)))),
       g_bsp := False, g_misc := False\<rparr>"

definition jive_mgmt_suspend :: "mgmt \<Rightarrow> mgmt" where
  "jive_mgmt_suspend s =
     (let s = g_upd (s3c2410_gpio_setpin S3C2410_GPB0 0) s;
          s = g_upd (s3c2410_gpio_cfgpin S3C2410_GPB0 S3C2410_GPIO_OUTPUT) s;
          s = g_upd (s3c2410_gpio_setpin S3C2410_GPB2 1) s
      in g_upd (s3c2410_gpio_cfgpin S3C2410_GPB2 S3C2410_GPIO_OUTPUT) s)"

definition jive_mgmt_resume :: "mgmt \<Rightarrow> mgmt" where
  "jive_mgmt_resume s =
     (let s = g_upd (init_pwm 0 DEFAULT_BACKLIGHT_VALUE) s;
          s = g_upd (init_pwm 2 DEFAULT_KEY_VALUE) s
      in g_upd (s3c2410_gpio_cfgpin S3C2410_GPB2 (pin_code S3C2410_GPB2 2)) s)"

definition jive_is_battery_flat :: "bool \<Rightarrow> u32 list \<Rightarrow> mgmt \<Rightarrow> bool \<times> int \<times> mgmt" where
  "jive_is_battery_flat clk_ok samples s0 =
     (let (bat, a, m) = get_battery clk_ok samples (g_adc s0, g_io s0);
          s = (g_upd (\<lambda>_. m) s0)\<lparr>g_adc := a\<rparr>;
          s = g_upd (s3c2410_gpio_cfgpin (S3C2410_GPG 3) (pin_code (S3C2410_GPG 3) 0)) s;
          s = g_upd (s3c2410_gpio_pullup (S3C2410_GPG 3) 1) s;
          nacpr = read_pin (S3C2410_GPG 3) (g_io s);
          s = g_upd (s3c2410_gpio_cfgpin (S3C2410_GPG 3) (pin_code (S3C2410_GPG 3) 2)) s;
          flat = (bat < BATTERY_FLAT_LEVEL \<and> nacpr \<noteq> 0)
      in (flat, bat, s\<lparr>battery_flat := flat\<rparr>))"

section \<open>The average of the samples\<close>

definition sample_values :: "u32 list \<Rightarrow> nat list" where
  "sample_values xs = map (\<lambda>x. unat (x AND 0x3ff)) xs"

lemma and_3ff: "unat (x AND 0x3ff :: u32) \<le> 1023"
proof -
  have "x AND 0x3ff \<le> (0x3ff :: u32)" by (rule word_and_le1)
  then show ?thesis by (simp add: word_le_nat_alt)
qed

lemma sample_values_le: "\<forall>y \<in> set (sample_values xs). y \<le> 1023"
  by (auto simp: sample_values_def and_3ff)

lemma adc_samples_nat:
  assumes "unat t + 1023 * length xs < 2 ^ 32" and "adc_samples xs (t, lo, hi) = (t', lo', hi')"
  shows "unat t' = unat t + sum_list (sample_values xs) \<and>
    unat lo' = fold min (sample_values xs) (unat lo) \<and> unat hi' = fold max (sample_values xs) (unat hi)"
  using assms
proof (induction xs arbitrary: t lo hi)
  case Nil
  then show ?case by (simp add: sample_values_def)
next
  case (Cons x xs)
  let ?v = "x AND 0x3ff :: u32"
  have v: "unat ?v \<le> 1023" by (rule and_3ff)
  then have t: "unat (t + ?v) = unat t + unat ?v" using Cons.prems(1) by (simp add: unat_plus_if_size word_size)
  have "unat (t + ?v) + 1023 * length xs < 2 ^ 32" using Cons.prems(1) v t by simp
  from Cons.IH [OF this] Cons.prems(2)
  have IH: "unat t' = unat (t + ?v) + sum_list (sample_values xs)"
    "unat lo' = fold min (sample_values xs) (unat (if ?v < lo then ?v else lo))"
    "unat hi' = fold max (sample_values xs) (unat (if ?v > hi then ?v else hi))"
    by (simp_all add: Let_def)
  have "unat (if ?v < lo then ?v else lo) = min (unat ?v) (unat lo)"
    "unat (if ?v > hi then ?v else hi) = max (unat ?v) (unat hi)"
    by (auto simp: word_less_nat_alt min_def max_def)
  with IH t show ?case by (simp add: sample_values_def)
qed

lemma sum_without_extremes:
  assumes "2 \<le> length (ys :: nat list)" and "ys \<noteq> []"
  shows "\<exists>zs. sum_list ys = Max (set ys) + Min (set ys) + sum_list zs \<and> length zs = length ys - 2 \<and>
    (\<forall>z \<in> set zs. Min (set ys) \<le> z \<and> z \<le> Max (set ys))"
proof -
  let ?M = "Max (set ys)" and ?m = "Min (set ys)"
  have M: "?M \<in> set ys" and m: "?m \<in> set ys" using assms by simp_all
  let ?r = "remove1 ?M ys"
  have r: "sum_list ys = ?M + sum_list ?r" "length ?r = length ys - 1"
    using sum_list_map_remove1 [OF M, of id] M by (simp_all add: length_remove1)
  have "?m \<in> set ?r"
  proof (cases "?m = ?M")
    case False
    then show ?thesis using m by simp
  next
    case True
    obtain z where z: "z \<in> set ?r" using r(2) assms(1) by (cases ?r) auto
    then have "z \<in> set ys" by (meson notin_set_remove1)
    then have "z = ?M" using True by (metis List.finite_set Max_ge Min_le le_antisym)
    with z True show ?thesis by simp
  qed
  then have q: "sum_list ?r = ?m + sum_list (remove1 ?m ?r)" "length (remove1 ?m ?r) = length ys - 2"
    using sum_list_map_remove1 [of ?m ?r id] r(2) by (simp_all add: length_remove1)
  have "\<forall>z \<in> set (remove1 ?m ?r). ?m \<le> z \<and> z \<le> ?M"
    by (meson List.finite_set Max_ge Min_le notin_set_remove1)
  with r q show ?thesis by (intro exI [of _ "remove1 ?m ?r"]) simp
qed

lemma sum_list_between:
  "\<forall>z \<in> set zs. a \<le> z \<and> z \<le> (b :: nat) \<Longrightarrow> a * length zs \<le> sum_list zs \<and> sum_list zs \<le> b * length zs"
  by (induction zs) auto

lemma fold_min_init: "ys \<noteq> [] \<Longrightarrow> \<forall>y \<in> set ys. y \<le> a \<Longrightarrow> fold min ys a = Min (set (ys :: nat list))"
  using Min_in [of "set ys"] by (simp add: Min.set_eq_fold [symmetric] min_absorb2)

lemma fold_max_init: "ys \<noteq> [] \<Longrightarrow> fold max ys 0 = Max (set (ys :: nat list))"
  by (simp add: Max.set_eq_fold [symmetric])

lemma sint_small: "x \<le> 1023 \<Longrightarrow> sint (x :: u32) = int (unat x)"
proof -
  assume "x \<le> 1023"
  then have "uint x \<le> 1023" by (simp add: word_le_def)
  moreover have "0 \<le> uint x" by simp
  moreover have "- 2147483648 \<le> uint x" by (rule order_trans [of _ 0]) simp_all
  ultimately have "signed_take_bit 31 (uint x) = uint x" by (intro signed_take_bit_int_eq_self) simp_all
  then show ?thesis by (simp add: sint_uint)
qed

text \<open>The value delivered for six samples.\<close>

lemma get_battery_value:
  assumes "length samples = 6" and "mapped \<or> clk_ok" and "ys = sample_values samples"
  shows "fst (get_battery clk_ok samples (mapped, m)) = int ((sum_list ys - Max (set ys) - Min (set ys)) div 4)"
    and "Min (set ys) \<le> (sum_list ys - Max (set ys) - Min (set ys)) div 4"
    and "(sum_list ys - Max (set ys) - Min (set ys)) div 4 \<le> Max (set ys)" and "Max (set ys) \<le> 1023"
proof -
  obtain t lo hi where a: "adc_samples samples (0, 0xffff, 0) = (t, lo, hi)" by (metis prod_cases3)
  have ly: "length ys = 6" "ys \<noteq> []" using assms by (auto simp: sample_values_def)
  have le: "\<forall>y \<in> set ys. y \<le> 1023" using sample_values_le assms(3) by simp
  from adc_samples_nat [OF _ a] assms(1,3)
  have n: "unat t = sum_list ys" "unat lo = fold min ys 0xffff" "unat hi = fold max ys 0" by simp_all
  have lo: "unat lo = Min (set ys)" and hi: "unat hi = Max (set ys)"
    unfolding n(2,3) by (rule fold_min_init [OF ly(2)], use le in force) (rule fold_max_init [OF ly(2)])
  obtain zs where zs: "sum_list ys = Max (set ys) + Min (set ys) + sum_list zs" "length zs = 4"
    "\<forall>z \<in> set zs. Min (set ys) \<le> z \<and> z \<le> Max (set ys)"
    using sum_without_extremes [of ys] ly by auto
  have M: "Max (set ys) \<le> 1023" using le ly by simp
  then show "Max (set ys) \<le> 1023" .
  have z4: "Min (set ys) * 4 \<le> sum_list zs" "sum_list zs \<le> Max (set ys) * 4"
    using sum_list_between [OF zs(3)] zs(2) by simp_all
  have rest: "sum_list ys - Max (set ys) - Min (set ys) = sum_list zs" using zs(1) by simp
  show "Min (set ys) \<le> (sum_list ys - Max (set ys) - Min (set ys)) div 4"
    "(sum_list ys - Max (set ys) - Min (set ys)) div 4 \<le> Max (set ys)"
    unfolding rest using z4 div_le_mono [OF z4(1), of 4] div_le_mono [OF z4(2), of 4] by simp_all
  have u: "unat ((t - hi - lo) div 4) = (sum_list ys - Max (set ys) - Min (set ys)) div 4"
  proof -
    have "unat (t - hi) = unat t - unat hi" using n hi zs(1) by (intro unat_sub) (simp add: word_le_nat_alt)
    moreover from this have "unat (t - hi - lo) = unat t - unat hi - unat lo"
      using unat_sub [where a = "t - hi" and b = lo] n(1) hi lo zs(1) by (simp add: word_le_nat_alt)
    ultimately show ?thesis using n hi lo by (simp add: unat_div)
  qed
  have "sint ((t - hi - lo) div 4) = int (unat ((t - hi - lo) div 4))"
  proof -
    have "unat ((t - hi - lo) div 4) \<le> 1023" unfolding u rest using div_le_mono [OF z4(2), of 4] M by simp
    then have "(t - hi - lo) div 4 \<le> 1023" by (simp add: word_le_nat_alt)
    then show ?thesis by (rule sint_small)
  qed
  then show "fst (get_battery clk_ok samples (mapped, m)) = int ((sum_list ys - Max (set ys) - Min (set ys)) div 4)"
    using assms(1,2) a u by (auto simp: get_battery_def Let_def N_BATTERY_SAMPLES_def)
qed

section \<open>Pins keep their functions\<close>

text \<open>An explicit function code acts like the generic one.\<close>

lemma code_mask: "c < 4 \<Longrightarrow> (c :: u32) AND mask 2 = c"
  by (rule less_mask_eq) simp

lemma bit_pin_code:
  assumes "c < 4" and "bit (pin_code p c) i"
  shows "S3C2410_GPIO_OFFSET p * 2 \<le> i \<and> i < S3C2410_GPIO_OFFSET p * 2 + 2"
proof -
  have "bit c k \<Longrightarrow> k < 2" for k using code_mask [OF assms(1)] by (metis bit_and_iff bit_mask_iff)
  from this [of "i - S3C2410_GPIO_OFFSET p * 2"] assms(2) show ?thesis
    by (auto simp: pin_code_def bit_push_bit_iff)
qed

lemma generic_bits: "pin_function f \<or> f = S3C2410_GPIO_LEAVE \<Longrightarrow> bit f 8 \<and> bit f 12"
  by (auto simp: pin_function_def pin_consts)

lemma pin_code_explicit:
  assumes "c < 4"
  shows "\<not> pin_function (pin_code p c) \<and> pin_code p c \<noteq> S3C2410_GPIO_LEAVE"
proof (rule ccontr)
  assume "\<not> ?thesis"
  then have "bit (pin_code p c) 8" "bit (pin_code p c) 12" using generic_bits by blast+
  from this [THEN bit_pin_code [OF assms]] show False by linarith
qed

lemma code_function: "c < 4 \<Longrightarrow> pin_function (c OR S3C2410_GPIO_INPUT) \<and> (c OR S3C2410_GPIO_INPUT) AND 3 = c"
proof -
  assume "c < 4"
  then have "c = 0 \<or> c = 1 \<or> c = 2 \<or> c = 3" by unat_arith
  then show ?thesis by (auto simp: pin_function_def pin_consts)
qed

lemma cfgpin_code:
  assumes "port_pin p" and "c < 4"
  shows "s3c2410_gpio_cfgpin p (pin_code p c) m = s3c2410_gpio_cfgpin p (c OR S3C2410_GPIO_INPUT) m"
proof -
  have "\<not> p < S3C2410_GPIO_BANKB" using assms(1) by (simp add: port_pin_def)
  with pin_code_explicit [OF assms(2), of p]
  have "s3c2410_gpio_cfgpin p (pin_code p c) m =
      m(GPCON p := put_bits (S3C2410_GPIO_OFFSET p * 2) 3 c (m (GPCON p)))"
    unfolding s3c2410_gpio_cfgpin_def pin_function_def by (simp add: Let_def put_bits_def pin_code_def)
  then show ?thesis
    using code_function [OF assms(2)] by (simp add: cfgpin_put_bits [OF assms(1)] mask_2_u32)
qed

lemma getcfg_code:
  assumes "port_pin p" and "port_pin q" and "c < 4"
  shows "s3c2410_gpio_getcfg q (s3c2410_gpio_cfgpin p (pin_code p c) m) =
    (if q = p then c OR S3C2410_GPIO_INPUT else s3c2410_gpio_getcfg q m)"
  using assms code_function [OF assms(3)] by (simp add: cfgpin_code s3c.cfg_set)

text \<open>The pins whose interrupts the driver serves, and that they are interrupt inputs.\<close>

definition detect_pins :: "nat set" where
  "detect_pins = {S3C2410_GPG 3, S3C2410_GPG 1, S3C2410_GPG 7, S3C2410_GPG 14}"

definition pins_ok :: "io \<Rightarrow> bool" where
  "pins_ok m \<longleftrightarrow> (\<forall>p \<in> detect_pins. s3c2410_gpio_getcfg p m = S3C2410_GPIO_SFN2)"

lemma detect_port: "p \<in> detect_pins \<Longrightarrow> port_pin p"
  by (auto simp: detect_pins_def)

lemma g_upd_io [simp]: "g_io (g_upd f s) = f (g_io s)"
  by (simp add: g_upd_def)

lemma pins_ok_upd [simp]: "\<forall>p \<in> detect_pins. r \<noteq> GPCON p \<Longrightarrow> pins_ok (m(r := v)) = pins_ok m"
  by (auto simp: pins_ok_def)

lemma two_is_SFN2: "2 OR S3C2410_GPIO_INPUT = S3C2410_GPIO_SFN2"
  by (simp add: pin_consts)

lemma pins_ok_code:
  "port_pin p \<Longrightarrow> p \<notin> detect_pins \<Longrightarrow> c < 4 \<Longrightarrow> pins_ok (s3c2410_gpio_cfgpin p (pin_code p c) m) = pins_ok m"
  "p \<in> detect_pins \<Longrightarrow> pins_ok m \<Longrightarrow> pins_ok (s3c2410_gpio_cfgpin p (pin_code p 2) m)"
  by (auto simp: pins_ok_def getcfg_code detect_port two_is_SFN2)

lemma pins_ok_generic:
  "port_pin p \<Longrightarrow> p \<notin> detect_pins \<Longrightarrow> pin_function f \<Longrightarrow> pins_ok (s3c2410_gpio_cfgpin p f m) = pins_ok m"
  by (auto simp: pins_ok_def s3c.cfg_set detect_port)

lemma pins_ok_setpin [simp]: "pins_ok (s3c2410_gpio_setpin p v m) = pins_ok m"
  by (simp add: s3c2410_gpio_setpin_def Let_def)

lemma pins_ok_pullup [simp]: "pins_ok (s3c2410_gpio_pullup p v m) = pins_ok m"
  by (simp add: s3c2410_gpio_pullup_def Let_def)

lemma pins_ok_irqfilter [simp]: "pins_ok (snd (s3c2410_gpio_irqfilter p on c m)) = pins_ok m"
  by (simp add: pins_ok_def getcfg_irqfilter)

lemma pins_ok_timer [simp]:
  "pins_ok (m(S3C2410_TCON := v)) = pins_ok m" "pins_ok (m(S3C2410_TCFG0 := v)) = pins_ok m"
  "pins_ok (m(S3C2410_TCFG1 := v)) = pins_ok m" "pins_ok (m(S3C2410_TCNTB t := v)) = pins_ok m"
  "pins_ok (m(S3C2410_TCMPB t := v)) = pins_ok m"
  by simp_all

lemma pins_ok_adc [simp]: "pins_ok (m(S3C2410_ADCCON := v)) = pins_ok m"
  by (rule pins_ok_upd) (simp add: S3C2410_ADCCON_def GPCON_def)

text \<open>Sensing a pin leaves all of them as they were.\<close>

lemma pins_ok_sense:
  assumes "p \<in> detect_pins" and "pins_ok m"
  shows "pins_ok (s3c2410_gpio_cfgpin p (pin_code p 2) (s3c2410_gpio_cfgpin p (pin_code p 0) m))"
  using assms by (auto simp: pins_ok_def getcfg_code detect_port two_is_SFN2)

lemma GPB2_pin: "port_pin S3C2410_GPB2" "S3C2410_GPB2 \<notin> detect_pins" "port_pin S3C2410_GPB0" "S3C2410_GPB0 \<notin> detect_pins"
  by (auto simp: port_pin_def S3C2410_GPB2_def S3C2410_GPB0_def S3C2410_GPIO_BANKB_def S3C2410_GPIO_OFFSET_def
      detect_pins_def S3C2410_GPG_def S3C2410_GPIO_BANKG_def)

lemma GPB2_con: "p \<in> detect_pins \<Longrightarrow> GPCON S3C2410_GPB2 \<noteq> GPCON p"
  by (auto simp: detect_pins_def reg_same_bank base_FG) (simp_all add: base_16 S3C2410_GPB2_def)

lemma pins_ok_init_pwm [simp]: "pins_ok (init_pwm pin v m) = pins_ok m"
  using GPB2_con by (simp add: init_pwm_def Let_def raw_and_def raw_or_def)

lemma pins_ok_set_pwm [simp]: "pins_ok (set_pwm pin v m) = pins_ok m"
  by (simp add: set_pwm_def)

lemma pins_ok_battery:
  "get_battery clk xs (a, m) = (v, a', m') \<Longrightarrow> pins_ok m' = pins_ok m"
  by (auto simp: get_battery_def adc_start_def adc_stop_def Let_def split: if_splits prod.splits)

section \<open>The driver as a state machine\<close>

inductive mgmt_step :: "mgmt \<Rightarrow> mgmt \<Rightarrow> bool" where
  ioctl: "jive_mgmt_ioctl clk xs cmd v s = (rc, out, s') \<Longrightarrow> mgmt_step s s'"
| acpower: "mgmt_step s (acpower_irq j s)"
| actimer: "mgmt_step s (acpower_timer s)"
| headphone: "mgmt_step s (headphone_irq s)"
| dock: "mgmt_step s (dockdetect_irq s)"
| usb: "mgmt_step s (usbdetect_irq s)"
| suspend: "mgmt_step s (jive_mgmt_suspend s)"
| resume: "mgmt_step s (jive_mgmt_resume s)"
| flat_check: "jive_is_battery_flat clk xs s = (b, v, s') \<Longrightarrow> mgmt_step s s'"

inductive_cases mgmt_stepE: "mgmt_step s s'"

lemma switch_irq_ok: "p \<in> detect_pins \<Longrightarrow> pins_ok (g_io s) \<Longrightarrow> pins_ok (g_io (switch_irq sw p s))"
  by (simp add: switch_irq_def Let_def pins_ok_sense)

lemma g_io_simps [simp]:
  "g_io (s\<lparr>g_switch := a\<rparr>) = g_io s" "g_io (s\<lparr>g_acpr_data := b\<rparr>) = g_io s" "g_io (s\<lparr>g_acpr_timer := c\<rparr>) = g_io s"
  "g_io (s\<lparr>g_adc := d\<rparr>) = g_io s" "g_io (s\<lparr>battery_flat := e\<rparr>) = g_io s"
  by simp_all

lemma detect_pins_mem [simp]: "S3C2410_GPG 3 \<in> detect_pins" "S3C2410_GPG (Suc 0) \<in> detect_pins"
  "S3C2410_GPG 7 \<in> detect_pins" "S3C2410_GPG 14 \<in> detect_pins"
  by (simp_all add: detect_pins_def)

lemma ioctl_ok:
  assumes "jive_mgmt_ioctl clk xs cmd v s = (rc, out, s')" and "pins_ok (g_io s)"
  shows "pins_ok (g_io s')"
  using assms
  by (auto simp: jive_mgmt_ioctl_def sense_pin_def Let_def pins_ok_sense split: if_splits prod.splits
      dest: pins_ok_battery)

lemma acpower_irq_ok: "pins_ok (g_io s) \<Longrightarrow> pins_ok (g_io (acpower_irq j s))"
  by (simp add: acpower_irq_def Let_def pins_ok_sense)

lemma suspend_resume_ok:
  "pins_ok (g_io (jive_mgmt_suspend s)) = pins_ok (g_io s)" "pins_ok (g_io (jive_mgmt_resume s)) = pins_ok (g_io s)"
  using GPB2_pin by (simp_all add: jive_mgmt_suspend_def jive_mgmt_resume_def Let_def pins_ok_code pins_ok_generic)

lemma flat_check_ok:
  assumes "jive_is_battery_flat clk xs s = (b, v, s')" and "pins_ok (g_io s)"
  shows "pins_ok (g_io s')"
proof -
  obtain bat a m where g: "get_battery clk xs (g_adc s, g_io s) = (bat, a, m)" by (metis prod_cases3)
  have "pins_ok m" using pins_ok_battery [OF g] assms(2) by simp
  moreover have "g_io s' = s3c2410_gpio_cfgpin (S3C2410_GPG 3) (pin_code (S3C2410_GPG 3) 2)
      (s3c2410_gpio_pullup (S3C2410_GPG 3) 1 (s3c2410_gpio_cfgpin (S3C2410_GPG 3) (pin_code (S3C2410_GPG 3) 0) m))"
    using assms(1) g by (auto simp: jive_is_battery_flat_def Let_def)
  ultimately show ?thesis
    by (auto simp: pins_ok_def getcfg_code detect_port two_is_SFN2 s3c2410_gpio_pullup_def Let_def)
qed

lemma mgmt_step_ok: "mgmt_step s s' \<Longrightarrow> pins_ok (g_io s) \<Longrightarrow> pins_ok (g_io s')"
  by (erule mgmt_stepE)
     (auto simp: ioctl_ok acpower_irq_ok acpower_timer_def headphone_irq_def dockdetect_irq_def usbdetect_irq_def
       switch_irq_ok suspend_resume_ok flat_check_ok)

interpretation mgmt_pins: kept mgmt_step "\<lambda>s. pins_ok (g_io s)"
  by unfold_locales (rule mgmt_step_ok)

lemma getcfg_switch_irq:
  assumes "port_pin p" and "port_pin q"
  shows "s3c2410_gpio_getcfg q (g_io (switch_irq sw p s)) =
    (if q = p then S3C2410_GPIO_SFN2 else s3c2410_gpio_getcfg q (g_io s))"
  using assms by (simp add: switch_irq_def Let_def getcfg_code two_is_SFN2)

lemma getcfg_acpower_irq:
  "port_pin q \<Longrightarrow> s3c2410_gpio_getcfg q (g_io (acpower_irq j s)) =
    (if q = S3C2410_GPG 3 then S3C2410_GPIO_SFN2 else s3c2410_gpio_getcfg q (g_io s))"
  by (simp add: acpower_irq_def Let_def getcfg_code two_is_SFN2)

text \<open>The calls at the end of the probe that read the initial levels make every pin an interrupt input.\<close>

lemma initial_reads_ok: "pins_ok (g_io (usbdetect_irq (dockdetect_irq (headphone_irq (acpower_irq j s)))))"
  by (auto simp: pins_ok_def detect_pins_def usbdetect_irq_def dockdetect_irq_def headphone_irq_def
      getcfg_switch_irq getcfg_acpower_irq)

lemma probe_ok: "jive_mgmt_probe sv mj misc j s0 = (0, s) \<Longrightarrow> mj \<Longrightarrow> pins_ok (g_io s)"
  using initial_reads_ok by (auto simp: jive_mgmt_probe_def Let_def split: if_splits)

text \<open>The second wait of a conversion never waits: \<^verbatim>\<open>!x & ECFLG\<close> is 0 for every \<open>x\<close>.\<close>

lemma ec_wait_never: "\<not> ec_wait x"
  by (simp add: ec_wait_def c_not_def S3C2410_ADCCON_ECFLG_def)

text \<open>A negative value passes the dimmer's range check and gives a compare value above the period.\<close>

lemma slide_pwm_range: "0 \<le> v \<Longrightarrow> 0 \<le> slide_pwm_value v \<and> slide_pwm_value v < MAX_DIMMER"
  by (auto simp: slide_pwm_value_def MAX_DIMMER_def)

lemma uint_word_of_int_negative:
  assumes "- 1000 \<le> v" and "v < 0"
  shows "uint (word_of_int v - 1 :: u32) = 4294967295 + v"
proof -
  have "(word_of_int v - 1 :: u32) = word_of_int (v - 1)" by simp
  then have "uint (word_of_int v - 1 :: u32) = (v - 1) mod 2 ^ 32"
    by (simp only: uint_word_of_int len_bit0 len_num1) simp
  also have "\<dots> = (v - 1 + 2 ^ 32) mod 2 ^ 32" by (simp only: mod_add_self2)
  also have "\<dots> = v - 1 + 2 ^ 32" using assms by (intro mod_pos_pos_trivial) simp_all
  finally show ?thesis by simp
qed

lemma set_pwm_negative:
  assumes "- 1000 \<le> v" and "v < 0"
  shows "set_pwm 0 v m (S3C2410_TCMPB 0) > of_int MAX_DIMMER"
  using assms uint_word_of_int_negative [OF assms]
  by (simp add: set_pwm_def slide_pwm_value_def MAX_DIMMER_def word_less_def)

text \<open>Removing the driver keeps the power interrupt and frees one it never had.\<close>

lemma remove_keeps_acpower:
  "IRQ_EINT 11 \<in> set (k_held (g_kern s)) \<Longrightarrow> IRQ_EINT 11 \<in> set (k_held (g_kern (jive_mgmt_remove s)))"
  by (simp add: jive_mgmt_remove_def free_irq_def IRQ_EINT_def IRQ_BATT_FLT_def)

section \<open>Properties\<close>

text \<open>C25. The detection interrupts stay alive: after a successful probe, whatever ioctls, interrupts,
  timer expiries, suspends, resumes and battery checks follow, the pins for external power, USB,
  dock and headphone are interrupt inputs.\<close>

theorem mgmt_detect_pins_listen:
  assumes "jive_mgmt_probe sv True misc j s0 = (0, s)" and "mgmt_step\<^sup>*\<^sup>* s s'"
  shows "pins_ok (g_io s')"
  using mgmt_pins.reach_keeps [OF assms(2)] probe_ok [OF assms(1)] by simp

theorem mgmt_detect_pins_listen_witness:
  "\<exists>s. jive_mgmt_probe all_ok True 0 0 \<lparr>g_kern = fresh_kern, g_adc = False, g_acpr_data = 0, g_acpr_timer = None,
      g_switch = [], battery_flat = False, g_bsp = False, g_misc = False, g_poweroff = False\<rparr> = (0, s) \<and>
    pins_ok (g_io (jive_mgmt_suspend s))"
proof -
  let ?s0 = "\<lparr>g_kern = fresh_kern, g_adc = False, g_acpr_data = 0, g_acpr_timer = None,
      g_switch = [], battery_flat = False, g_bsp = False, g_misc = False, g_poweroff = False\<rparr>"
  have "fst (jive_mgmt_probe all_ok True 0 0 ?s0) = 0" by (simp add: jive_mgmt_probe_def Let_def)
  then obtain s where s: "jive_mgmt_probe all_ok True 0 0 ?s0 = (0, s)" by (metis prod.collapse)
  have "mgmt_step\<^sup>*\<^sup>* s (jive_mgmt_suspend s)" by (simp add: mgmt_step.suspend r_into_rtranclp)
  from mgmt_detect_pins_listen [OF s this] s show ?thesis by blast
qed

text \<open>The battery level is the mean of the four middle samples of six: without the largest and the
  smallest, rounded down; it lies between them, and the device counts as flat exactly when it is below 812
  and no external power is present.\<close>

theorem battery_level:
  assumes "length xs = 6" and "g_adc s \<or> clk_ok"
    and "jive_is_battery_flat clk_ok xs s = (b, v, s')"
  shows "v = int ((sum_list (sample_values xs) - Max (set (sample_values xs)) - Min (set (sample_values xs))) div 4) \<and>
    int (Min (set (sample_values xs))) \<le> v \<and> v \<le> int (Max (set (sample_values xs))) \<and> v \<le> 1023 \<and>
    (b \<longleftrightarrow> v < 812 \<and> s3c2410_gpio_getpin (S3C2410_GPG 3) (g_io s) \<noteq> 0) \<and> battery_flat s' = b"
proof -
  note g = get_battery_value(1) [OF assms(1,2) refl, of "g_io s"] get_battery_value(2-4) [OF assms(1,2) refl]
  obtain bat a m where e: "get_battery clk_ok xs (g_adc s, g_io s) = (bat, a, m)" by (metis prod_cases3)
  have v: "v = bat" "battery_flat s' = b" using assms(3) e by (auto simp: jive_is_battery_flat_def Let_def)
  have "m (GPDAT (S3C2410_GPG 3)) = g_io s (GPDAT (S3C2410_GPG 3))"
    using e by (auto simp: get_battery_def adc_start_def adc_stop_def Let_def S3C2410_ADCCON_def GPDAT_def
        split: if_splits prod.splits)
  then have "s3c2410_gpio_getpin (S3C2410_GPG 3) (s3c2410_gpio_pullup (S3C2410_GPG 3) 1
      (s3c2410_gpio_cfgpin (S3C2410_GPG 3) (pin_code (S3C2410_GPG 3) 0) m)) =
      s3c2410_gpio_getpin (S3C2410_GPG 3) (g_io s)"
    by (simp add: cfgpin_code s3c2410_gpio_getpin_def s3c2410_gpio_pullup_def Let_def cfgpin_put_bits code_function)
  then have "b \<longleftrightarrow> bat < 812 \<and> s3c2410_gpio_getpin (S3C2410_GPG 3) (g_io s) \<noteq> 0"
    using assms(3) e by (auto simp: jive_is_battery_flat_def Let_def read_pin_def word_gt_0 BATTERY_FLAT_LEVEL_def)
  with g v e show ?thesis by simp
qed

theorem battery_level_witness:
  "\<exists>s'. jive_is_battery_flat True [800, 810, 790, 1023, 0, 804]
      \<lparr>g_kern = fresh_kern, g_adc = False, g_acpr_data = 0, g_acpr_timer = None,
       g_switch = [], battery_flat = False, g_bsp = False, g_misc = False, g_poweroff = False\<rparr> = (False, 801, s')"
proof -
  let ?s0 = "\<lparr>g_kern = fresh_kern, g_adc = False, g_acpr_data = 0, g_acpr_timer = None,
      g_switch = [], battery_flat = False, g_bsp = False, g_misc = False, g_poweroff = False\<rparr>"
  obtain b v s' where e: "jive_is_battery_flat True [800, 810, 790, 1023, 0, 804] ?s0 = (b, v, s')" by (metis prod_cases3)
  have y: "sample_values [800, 810, 790, 1023, 0, 804] = [800, 810, 790, 1023, 0, 804]"
    by (simp add: sample_values_def)
  from battery_level [OF _ _ e] have "v = 801" "\<not> b"
    unfolding y by (simp_all add: s3c2410_gpio_getpin_def fresh_kern_def)
  with e show ?thesis by auto
qed

end
