(* ===== verification/WlanRegion.thy ===== *)
theory WlanRegion
  imports Prelude
begin

text \<open>
  The regulatory tables of the wireless driver and the searches in them, from
  \<^verbatim>\<open>wlan_11d.c\<close> and \<^verbatim>\<open>wlan_main.c\<close>: channels with their frequencies and
  power limits for each region, the codes of the regions, and the tables of the adapter that
  \<^verbatim>\<open>wlan_set_regiontable\<close> and \<^verbatim>\<open>wlan_set_universaltable\<close> fill in.
\<close>

section \<open>Tables\<close>

record CHANNEL_FREQ_POWER =
  Channel :: nat
  Freq :: nat
  MaxTxPower :: nat
  Unsupported :: bool

text \<open>An initialiser \<^verbatim>\<open>{channel, freq, power}\<close>; the last member is zero.\<close>

definition cfp :: "nat \<Rightarrow> nat \<Rightarrow> nat \<Rightarrow> CHANNEL_FREQ_POWER" where
  "cfp ch fr pw = \<lparr>Channel = ch, Freq = fr, MaxTxPower = pw, Unsupported = False\<rparr>"

definition TX_PWR_DEFAULT :: nat where "TX_PWR_DEFAULT = 10"
definition WLAN_TX_PWR_DEFAULT :: nat where "WLAN_TX_PWR_DEFAULT = 20"
definition WLAN_TX_PWR_US_DEFAULT :: nat where "WLAN_TX_PWR_US_DEFAULT = 20"
definition WLAN_TX_PWR_JP_DEFAULT :: nat where "WLAN_TX_PWR_JP_DEFAULT = 16"
definition WLAN_TX_PWR_FR_100MW :: nat where "WLAN_TX_PWR_FR_100MW = 20"
definition WLAN_TX_PWR_EMEA_DEFAULT :: nat where "WLAN_TX_PWR_EMEA_DEFAULT = 20"

definition channel_freq_power_UN_BG :: "CHANNEL_FREQ_POWER list" where
  "channel_freq_power_UN_BG =
    [cfp 1 2412 TX_PWR_DEFAULT,
     cfp 2 2417 TX_PWR_DEFAULT,
     cfp 3 2422 TX_PWR_DEFAULT,
     cfp 4 2427 TX_PWR_DEFAULT,
     cfp 5 2432 TX_PWR_DEFAULT,
     cfp 6 2437 TX_PWR_DEFAULT,
     cfp 7 2442 TX_PWR_DEFAULT,
     cfp 8 2447 TX_PWR_DEFAULT,
     cfp 9 2452 TX_PWR_DEFAULT,
     cfp 10 2457 TX_PWR_DEFAULT,
     cfp 11 2462 TX_PWR_DEFAULT,
     cfp 12 2467 TX_PWR_DEFAULT,
     cfp 13 2472 TX_PWR_DEFAULT,
     cfp 14 2484 TX_PWR_DEFAULT]"

definition channel_freq_power_UN_AJ :: "CHANNEL_FREQ_POWER list" where
  "channel_freq_power_UN_AJ =
    [cfp 8 5040 TX_PWR_DEFAULT,
     cfp 12 5060 TX_PWR_DEFAULT,
     cfp 16 5080 TX_PWR_DEFAULT,
     cfp 34 5170 TX_PWR_DEFAULT,
     cfp 38 5190 TX_PWR_DEFAULT,
     cfp 42 5210 TX_PWR_DEFAULT,
     cfp 46 5230 TX_PWR_DEFAULT,
     cfp 36 5180 TX_PWR_DEFAULT,
     cfp 40 5200 TX_PWR_DEFAULT,
     cfp 44 5220 TX_PWR_DEFAULT,
     cfp 48 5240 TX_PWR_DEFAULT,
     cfp 52 5260 TX_PWR_DEFAULT,
     cfp 56 5280 TX_PWR_DEFAULT,
     cfp 60 5300 TX_PWR_DEFAULT,
     cfp 64 5320 TX_PWR_DEFAULT,
     cfp 100 5500 TX_PWR_DEFAULT,
     cfp 104 5520 TX_PWR_DEFAULT,
     cfp 108 5540 TX_PWR_DEFAULT,
     cfp 112 5560 TX_PWR_DEFAULT,
     cfp 116 5580 TX_PWR_DEFAULT,
     cfp 120 5600 TX_PWR_DEFAULT,
     cfp 124 5620 TX_PWR_DEFAULT,
     cfp 128 5640 TX_PWR_DEFAULT,
     cfp 132 5660 TX_PWR_DEFAULT,
     cfp 136 5680 TX_PWR_DEFAULT,
     cfp 140 5700 TX_PWR_DEFAULT,
     cfp 149 5745 TX_PWR_DEFAULT,
     cfp 153 5765 TX_PWR_DEFAULT,
     cfp 157 5785 TX_PWR_DEFAULT,
     cfp 161 5805 TX_PWR_DEFAULT,
     cfp 165 5825 TX_PWR_DEFAULT]"

definition channel_freq_power_US_BG :: "CHANNEL_FREQ_POWER list" where
  "channel_freq_power_US_BG =
    [cfp 1 2412 WLAN_TX_PWR_US_DEFAULT,
     cfp 2 2417 WLAN_TX_PWR_US_DEFAULT,
     cfp 3 2422 WLAN_TX_PWR_US_DEFAULT,
     cfp 4 2427 WLAN_TX_PWR_US_DEFAULT,
     cfp 5 2432 WLAN_TX_PWR_US_DEFAULT,
     cfp 6 2437 WLAN_TX_PWR_US_DEFAULT,
     cfp 7 2442 WLAN_TX_PWR_US_DEFAULT,
     cfp 8 2447 WLAN_TX_PWR_US_DEFAULT,
     cfp 9 2452 WLAN_TX_PWR_US_DEFAULT,
     cfp 10 2457 WLAN_TX_PWR_US_DEFAULT,
     cfp 11 2462 WLAN_TX_PWR_US_DEFAULT]"

definition channel_freq_power_EU_BG :: "CHANNEL_FREQ_POWER list" where
  "channel_freq_power_EU_BG =
    [cfp 1 2412 WLAN_TX_PWR_EMEA_DEFAULT,
     cfp 2 2417 WLAN_TX_PWR_EMEA_DEFAULT,
     cfp 3 2422 WLAN_TX_PWR_EMEA_DEFAULT,
     cfp 4 2427 WLAN_TX_PWR_EMEA_DEFAULT,
     cfp 5 2432 WLAN_TX_PWR_EMEA_DEFAULT,
     cfp 6 2437 WLAN_TX_PWR_EMEA_DEFAULT,
     cfp 7 2442 WLAN_TX_PWR_EMEA_DEFAULT,
     cfp 8 2447 WLAN_TX_PWR_EMEA_DEFAULT,
     cfp 9 2452 WLAN_TX_PWR_EMEA_DEFAULT,
     cfp 10 2457 WLAN_TX_PWR_EMEA_DEFAULT,
     cfp 11 2462 WLAN_TX_PWR_EMEA_DEFAULT,
     cfp 12 2467 WLAN_TX_PWR_EMEA_DEFAULT,
     cfp 13 2472 WLAN_TX_PWR_EMEA_DEFAULT]"

definition channel_freq_power_SPN_BG :: "CHANNEL_FREQ_POWER list" where
  "channel_freq_power_SPN_BG =
    [cfp 10 2457 WLAN_TX_PWR_DEFAULT,
     cfp 11 2462 WLAN_TX_PWR_DEFAULT]"

definition channel_freq_power_FR_BG :: "CHANNEL_FREQ_POWER list" where
  "channel_freq_power_FR_BG =
    [cfp 10 2457 WLAN_TX_PWR_FR_100MW,
     cfp 11 2462 WLAN_TX_PWR_FR_100MW,
     cfp 12 2467 WLAN_TX_PWR_FR_100MW,
     cfp 13 2472 WLAN_TX_PWR_FR_100MW]"

definition channel_freq_power_JPN41_BG :: "CHANNEL_FREQ_POWER list" where
  "channel_freq_power_JPN41_BG =
    [cfp 1 2412 WLAN_TX_PWR_JP_DEFAULT,
     cfp 2 2417 WLAN_TX_PWR_JP_DEFAULT,
     cfp 3 2422 WLAN_TX_PWR_JP_DEFAULT,
     cfp 4 2427 WLAN_TX_PWR_JP_DEFAULT,
     cfp 5 2432 WLAN_TX_PWR_JP_DEFAULT,
     cfp 6 2437 WLAN_TX_PWR_JP_DEFAULT,
     cfp 7 2442 WLAN_TX_PWR_JP_DEFAULT,
     cfp 8 2447 WLAN_TX_PWR_JP_DEFAULT,
     cfp 9 2452 WLAN_TX_PWR_JP_DEFAULT,
     cfp 10 2457 WLAN_TX_PWR_JP_DEFAULT,
     cfp 11 2462 WLAN_TX_PWR_JP_DEFAULT,
     cfp 12 2467 WLAN_TX_PWR_JP_DEFAULT,
     cfp 13 2472 WLAN_TX_PWR_JP_DEFAULT]"

definition channel_freq_power_JPN40_BG :: "CHANNEL_FREQ_POWER list" where
  "channel_freq_power_JPN40_BG =
    [cfp 14 2484 WLAN_TX_PWR_JP_DEFAULT]"

definition region_cfp_table :: "(u8 \<times> CHANNEL_FREQ_POWER list) list" where
  "region_cfp_table =
    [(0x10, channel_freq_power_US_BG),
     (0x20, channel_freq_power_US_BG),
     (0x30, channel_freq_power_EU_BG),
     (0x31, channel_freq_power_SPN_BG),
     (0x32, channel_freq_power_FR_BG),
     (0x40, channel_freq_power_JPN40_BG),
     (0x41, channel_freq_power_JPN41_BG)]"

definition RegionCodeToIndex :: "u8 list" where
  "RegionCodeToIndex = [0x10, 0x20, 0x30, 0x31, 0x32, 0x40, 0x41]"

definition COUNTRY_CODE_LEN :: nat where "COUNTRY_CODE_LEN = 3"

text \<open>Country codes are three bytes, e.g. \<^verbatim>\<open>"US "\<close> is 0x55, 0x53, 0x20.\<close>

definition region_code_mapping :: "(u8 list \<times> u8) list" where
  "region_code_mapping =
    [([0x55, 0x53, 0x20], 0x10),
     ([0x43, 0x41, 0x20], 0x20),
     ([0x53, 0x47, 0x20], 0x10),
     ([0x45, 0x55, 0x20], 0x30),
     ([0x41, 0x55, 0x20], 0x30),
     ([0x4B, 0x52, 0x20], 0x30),
     ([0x45, 0x53, 0x20], 0x31),
     ([0x46, 0x52, 0x20], 0x32),
     ([0x4A, 0x50, 0x20], 0x40),
     ([0x4A, 0x50, 0x20], 0x41)]"

section \<open>Region codes\<close>

text \<open>\<open>toupper\<close> of the kernel, on the Latin-1 table of \<^verbatim>\<open>lib/ctype.c\<close>.\<close>

definition islower :: "u8 \<Rightarrow> bool" where
  "islower c \<longleftrightarrow> (97 \<le> c \<and> c \<le> 122) \<or> (223 \<le> c \<and> c \<noteq> 247)"

definition toupper :: "u8 \<Rightarrow> u8" where
  "toupper c = (if islower c then c - 32 else c)"

text \<open>The first loop of \<open>wlan_region_2_code\<close>: it changes the code in place up to a zero byte.\<close>

fun upper_code :: "u8 list \<Rightarrow> u8 list" where
  "upper_code [] = []"
| "upper_code (c # cs) = (if c = 0 then c # cs else toupper c # upper_code cs)"

fun find_region :: "u8 list \<Rightarrow> (u8 list \<times> u8) list \<Rightarrow> u8 option" where
  "find_region r [] = None"
| "find_region r ((name, code) # ms) = (if r = name then Some code else find_region r ms)"

definition wlan_region_2_code :: "u8 list \<Rightarrow> u8 \<times> u8 list" where
  "wlan_region_2_code region =
     (let region = upper_code region in
      (case find_region region region_code_mapping of Some code \<Rightarrow> code | None \<Rightarrow> snd (hd region_code_mapping),
       region))"

fun find_code :: "u8 \<Rightarrow> (u8 list \<times> u8) list \<Rightarrow> u8 list option" where
  "find_code c [] = None"
| "find_code c ((name, code) # ms) = (if code = c then Some name else find_code c ms)"

definition wlan_code_2_region :: "u8 \<Rightarrow> u8 list" where
  "wlan_code_2_region code =
     (case find_code code region_code_mapping of Some name \<Rightarrow> name | None \<Rightarrow> fst (hd region_code_mapping))"

section \<open>Searches in the channel tables\<close>

text \<open>The index of the first entry for a channel, or the size of the table.\<close>

fun chan_index :: "nat \<Rightarrow> CHANNEL_FREQ_POWER list \<Rightarrow> nat" where
  "chan_index ch [] = 0"
| "chan_index ch (c # cs) = (if Channel c = ch then 0 else Suc (chan_index ch cs))"

text \<open>\<open>wlan_get_chan_11d\<close>: the channel is stored only when the result is true.\<close>

definition wlan_get_chan_11d :: "u8 \<Rightarrow> u8 \<Rightarrow> u8 \<Rightarrow> u8 option" where
  "wlan_get_chan_11d band firstChan NoOfChan =
     (let tab = channel_freq_power_UN_BG; i = chan_index (unat firstChan) tab in
      if i < length tab \<and> i + unat NoOfChan < length tab
      then Some (of_nat (Channel (tab ! (i + unat NoOfChan)))) else None)"

text \<open>\<open>chan_2_freq\<close>: the loop does not stop at a match.\<close>

fun last_freq :: "nat \<Rightarrow> CHANNEL_FREQ_POWER list \<Rightarrow> nat \<Rightarrow> nat" where
  "last_freq ch [] freq = freq"
| "last_freq ch (c # cs) freq = last_freq ch cs (if ch = Channel c then Freq c else freq)"

definition chan_2_freq :: "u8 \<Rightarrow> u8 \<Rightarrow> nat" where
  "chan_2_freq chan band = last_freq (unat chan) channel_freq_power_UN_BG 0"

definition wlan_get_region_cfp_table :: "u8 \<Rightarrow> u8 \<Rightarrow> CHANNEL_FREQ_POWER list option" where
  "wlan_get_region_cfp_table region band = map_of region_cfp_table region"

fun chan_supported :: "nat \<Rightarrow> CHANNEL_FREQ_POWER list \<Rightarrow> bool" where
  "chan_supported ch [] = False"
| "chan_supported ch (c # cs) = (if ch = Channel c then \<not> Unsupported c else chan_supported ch cs)"

definition wlan_region_chan_supported_11d :: "u8 \<Rightarrow> u8 \<Rightarrow> u8 \<Rightarrow> bool" where
  "wlan_region_chan_supported_11d region band chan =
     (case wlan_get_region_cfp_table region band of
        None \<Rightarrow> False | Some tab \<Rightarrow> chan_supported (unat chan) tab)"

section \<open>The tables of the adapter\<close>

text \<open>A \<open>REGION_CHANNEL\<close>; the pointer to the channels is an optional list, and \<open>NrCFP\<close> its length.\<close>

record REGION_CHANNEL =
  Valid :: bool
  Region :: u8
  Band :: u8
  NrCFP :: u8
  CFP :: "CHANNEL_FREQ_POWER list option"

definition zero_region_channel :: REGION_CHANNEL where
  "zero_region_channel = \<lparr>Valid = False, Region = 0, Band = 0, NrCFP = 0, CFP = None\<rparr>"

definition MAX_REGION_CHANNEL_NUM :: nat where "MAX_REGION_CHANNEL_NUM = 2"
definition UNIVERSAL_REGION_CODE :: u8 where "UNIVERSAL_REGION_CODE = 0xff"

definition zero_region_channels :: "REGION_CHANNEL list" where
  "zero_region_channels = replicate MAX_REGION_CHANNEL_NUM zero_region_channel"

definition wlan_set_regiontable :: "u8 \<Rightarrow> u8 \<Rightarrow> int \<times> REGION_CHANNEL list" where
  "wlan_set_regiontable region band =
     (case wlan_get_region_cfp_table region band of
        None \<Rightarrow> (- 1, zero_region_channels)
      | Some tab \<Rightarrow>
          (0, zero_region_channels[0 := \<lparr>Valid = True, Region = region, Band = band,
                NrCFP = of_nat (length tab), CFP = Some tab\<rparr>]))"

definition wlan_set_universaltable :: "u8 \<Rightarrow> int \<times> REGION_CHANNEL list" where
  "wlan_set_universaltable band =
     (0, zero_region_channels[0 := \<lparr>Valid = True, Region = UNIVERSAL_REGION_CODE, Band = band,
           NrCFP = of_nat (length channel_freq_power_UN_BG), CFP = Some channel_freq_power_UN_BG\<rparr>])"

section \<open>Facts about the tables\<close>

lemmas cfp_tables = channel_freq_power_UN_BG_def channel_freq_power_US_BG_def channel_freq_power_EU_BG_def
  channel_freq_power_SPN_BG_def channel_freq_power_FR_BG_def channel_freq_power_JPN41_BG_def
  channel_freq_power_JPN40_BG_def

lemma channels_UN_BG: "map Channel channel_freq_power_UN_BG = [1..<15]"
  by (simp add: channel_freq_power_UN_BG_def cfp_def upt_rec)

lemma length_UN_BG [simp]: "length channel_freq_power_UN_BG = 14"
  using arg_cong [OF channels_UN_BG, of length] by simp

lemma Channel_UN_BG: "i < 14 \<Longrightarrow> Channel (channel_freq_power_UN_BG ! i) = Suc i"
  using arg_cong [OF channels_UN_BG, of "\<lambda>xs. xs ! i"] by (simp add: nth_upt)

lemma chan_index_le: "chan_index ch tab \<le> length tab"
  by (induction tab) auto

lemma chan_index_less: "chan_index ch tab < length tab \<Longrightarrow> Channel (tab ! chan_index ch tab) = ch"
  by (induction tab) auto

lemma chan_index_in: "ch \<in> Channel ` set tab \<Longrightarrow> chan_index ch tab < length tab"
  by (induction tab) auto

lemma chan_index_notin: "ch \<notin> Channel ` set tab \<Longrightarrow> chan_index ch tab = length tab"
  by (induction tab) auto

lemma chan_index_UN_BG:
  "chan_index ch channel_freq_power_UN_BG = (if 1 \<le> ch \<and> ch \<le> 14 then ch - 1 else 14)"
proof (cases "1 \<le> ch \<and> ch \<le> 14")
  case True
  let ?i = "chan_index ch channel_freq_power_UN_BG"
  have "ch \<in> Channel ` set channel_freq_power_UN_BG"
    using True arg_cong [OF channels_UN_BG, of set] by simp
  from chan_index_in [OF this] chan_index_less [of ch channel_freq_power_UN_BG] Channel_UN_BG [of ?i] True
  show ?thesis by simp
next
  case False
  have "Channel ` set channel_freq_power_UN_BG = {1..<15}"
    using arg_cong [OF channels_UN_BG, of set] by simp
  with False show ?thesis by (subst chan_index_notin) auto
qed

text \<open>In the universal table the channel numbers run from 1 to 14 without a gap.\<close>

lemma get_chan_eq:
  "wlan_get_chan_11d band f n =
    (if 1 \<le> unat f \<and> unat f + unat n \<le> 14 then Some (of_nat (unat f + unat n)) else None)"
proof -
  have "1 \<le> unat f \<Longrightarrow> unat f \<le> 14 \<Longrightarrow> unat f - 1 + unat n < 14 \<Longrightarrow>
    Channel (channel_freq_power_UN_BG ! (unat f - 1 + unat n)) = unat f + unat n"
    by (simp add: Channel_UN_BG)
  then show ?thesis by (auto simp: wlan_get_chan_11d_def Let_def chan_index_UN_BG)
qed

lemma unat_get_chan:
  "wlan_get_chan_11d band f n = Some c \<Longrightarrow> unat c = unat f + unat n \<and> 1 \<le> unat f \<and> unat c \<le> 14"
  by (auto simp: get_chan_eq unat_word_ariths split: if_splits)

text \<open>The table of a region holds each channel once, in ascending order, and fits the arrays.\<close>

lemma region_tables:
  "tab \<in> snd ` set region_cfp_table \<Longrightarrow>
    sorted_wrt (<) (map Channel tab) \<and> length tab \<le> 13 \<and>
    (\<forall>c \<in> set tab. 1 \<le> Channel c \<and> Channel c \<le> 14 \<and> \<not> Unsupported c)"
  by (auto simp: region_cfp_table_def cfp_tables cfp_def)

lemma region_cfp_SomeD: "wlan_get_region_cfp_table region band = Some tab \<Longrightarrow> tab \<in> snd ` set region_cfp_table"
  unfolding wlan_get_region_cfp_table_def by (drule map_of_SomeD) force

lemma region_freqs:
  "tab \<in> snd ` set region_cfp_table \<Longrightarrow> \<forall>c \<in> set tab. chan_2_freq (of_nat (Channel c)) band = Freq c"
  by (auto simp: region_cfp_table_def cfp_tables cfp_def chan_2_freq_def)

lemma chan_supported_iff:
  "\<forall>c \<in> set tab. \<not> Unsupported c \<Longrightarrow> chan_supported ch tab \<longleftrightarrow> ch \<in> Channel ` set tab"
  by (induction tab) auto

end
