(* ===== verification/Wlan11d.thy ===== *)
theory Wlan11d
  imports WlanRegion
begin

text \<open>
  Regulatory domains (802.11d) of the wireless driver, \<^verbatim>\<open>wlan_11d.c\<close>: the channels an
  access point announces in its country element, the domain table computed from them for the
  firmware, the commands that carry it, and the channel list of a scan
  (\<^verbatim>\<open>wlan_scan_create_channel_list\<close> of \<^verbatim>\<open>wlan_scan.c\<close>) that respects it.
  Arrays have their C sizes; an access outside of them is \<^term>\<open>None\<close>.
\<close>

section \<open>Data\<close>

definition MAX_NO_OF_CHAN :: nat where "MAX_NO_OF_CHAN = 40"
definition MRVDRV_MAX_SUBBAND_802_11D :: nat where "MRVDRV_MAX_SUBBAND_802_11D = 83"

record IEEEtypes_SubbandSet =
  FirstChan :: u8
  NoOfChan :: u8
  MaxTxPwr :: u8

definition zero_subband :: IEEEtypes_SubbandSet where
  "zero_subband = \<lparr>FirstChan = 0, NoOfChan = 0, MaxTxPwr = 0\<rparr>"

record IEEEtypes_CountryInfoFullSet =
  ci_Len :: u8
  ci_CountryCode :: "u8 list"
  ci_Subband :: "IEEEtypes_SubbandSet list"

record wlan_802_11d_domain_reg =
  dr_CountryCode :: "u8 list"
  dr_NoOfSubband :: u8
  dr_Subband :: "IEEEtypes_SubbandSet list"

definition zero_domain_reg :: wlan_802_11d_domain_reg where
  "zero_domain_reg = \<lparr>dr_CountryCode = replicate COUNTRY_CODE_LEN 0, dr_NoOfSubband = 0,
     dr_Subband = replicate MRVDRV_MAX_SUBBAND_802_11D zero_subband\<rparr>"

text \<open>The entries of \<open>chanPwr\<close> are pairs of channel and power.\<close>

record parsed_region_chan_11d =
  pr_band :: u8
  pr_region :: u8
  pr_CountryCode :: "u8 list"
  pr_chanPwr :: "(u8 \<times> u8) list"
  pr_NoOfChan :: u8

definition zero_parsed :: parsed_region_chan_11d where
  "zero_parsed = \<lparr>pr_band = 0, pr_region = 0, pr_CountryCode = replicate COUNTRY_CODE_LEN 0,
     pr_chanPwr = replicate MAX_NO_OF_CHAN (0, 0), pr_NoOfChan = 0\<rparr>"

section \<open>Known channels\<close>

fun chan_known :: "u8 \<Rightarrow> (u8 \<times> u8) list \<Rightarrow> nat list \<Rightarrow> bool option" where
  "chan_known chan arr [] = Some False"
| "chan_known chan arr (i # is) =
     do { (c, _) \<leftarrow> mem_get arr i; if chan = c then Some True else chan_known chan arr is }"

definition wlan_channel_known_11d :: "u8 \<Rightarrow> parsed_region_chan_11d \<Rightarrow> bool option" where
  "wlan_channel_known_11d chan p = chan_known chan (pr_chanPwr p) [0..<unat (pr_NoOfChan p)]"

definition HostCmd_SCAN_TYPE_ACTIVE :: u8 where "HostCmd_SCAN_TYPE_ACTIVE = 0"
definition HostCmd_SCAN_TYPE_PASSIVE :: u8 where "HostCmd_SCAN_TYPE_PASSIVE = 1"

definition wlan_get_scan_type_11d :: "u8 \<Rightarrow> parsed_region_chan_11d \<Rightarrow> u8 option" where
  "wlan_get_scan_type_11d chan p =
     do { known \<leftarrow> wlan_channel_known_11d chan p;
          Some (if known then HostCmd_SCAN_TYPE_ACTIVE else HostCmd_SCAN_TYPE_PASSIVE) }"

section \<open>From channels to the domain table\<close>

text \<open>The local variables of \<open>wlan_generate_domain_info_11d\<close> and the array it fills.\<close>

record dom_state =
  d_flag :: bool
  d_firstChan :: u8
  d_nextChan :: u8
  d_maxPwr :: u8
  d_NoOfParsedChan :: u8
  d_NoOfSubband :: u8
  d_Subband :: "IEEEtypes_SubbandSet list"

definition store_subband :: "dom_state \<Rightarrow> dom_state option" where
  "store_subband d =
     do { arr \<leftarrow> mem_put (d_Subband d) (unat (d_NoOfSubband d))
            \<lparr>FirstChan = d_firstChan d, NoOfChan = d_NoOfParsedChan d, MaxTxPwr = d_maxPwr d\<rparr>;
          Some (d\<lparr>d_Subband := arr, d_NoOfSubband := d_NoOfSubband d + 1\<rparr>) }"

definition dom_step :: "u8 \<times> u8 \<Rightarrow> dom_state \<Rightarrow> dom_state option" where
  "dom_step = (\<lambda>(chan, pwr) d.
     if \<not> d_flag d then
       Some (d\<lparr>d_flag := True, d_nextChan := chan, d_firstChan := chan, d_maxPwr := pwr, d_NoOfParsedChan := 1\<rparr>)
     else if unat chan = unat (d_nextChan d) + 1 \<and> pwr = d_maxPwr d then
       Some (d\<lparr>d_nextChan := d_nextChan d + 1, d_NoOfParsedChan := d_NoOfParsedChan d + 1\<rparr>)
     else
       do { d \<leftarrow> store_subband d;
            Some (d\<lparr>d_NoOfParsedChan := 1, d_nextChan := chan, d_firstChan := chan, d_maxPwr := pwr\<rparr>) })"

fun dom_loop :: "(u8 \<times> u8) list \<Rightarrow> nat list \<Rightarrow> dom_state \<Rightarrow> dom_state option" where
  "dom_loop arr [] d = Some d"
| "dom_loop arr (i # is) d = do { cp \<leftarrow> mem_get arr i; d \<leftarrow> dom_step cp d; dom_loop arr is d }"

definition wlan_generate_domain_info_11d ::
  "parsed_region_chan_11d \<Rightarrow> wlan_802_11d_domain_reg \<Rightarrow> wlan_802_11d_domain_reg option" where
  "wlan_generate_domain_info_11d p dr =
     do { d \<leftarrow> dom_loop (pr_chanPwr p) [0..<unat (pr_NoOfChan p)]
            \<lparr>d_flag = False, d_firstChan = 0, d_nextChan = 0, d_maxPwr = 0, d_NoOfParsedChan = 0,
             d_NoOfSubband = 0, d_Subband = dr_Subband dr\<rparr>;
          d \<leftarrow> (if d_flag d then store_subband d else Some d);
          Some \<lparr>dr_CountryCode = pr_CountryCode p, dr_NoOfSubband = d_NoOfSubband d, dr_Subband = d_Subband d\<rparr> }"

section \<open>From a table of the region to channels\<close>

fun copy_chans :: "CHANNEL_FREQ_POWER list \<Rightarrow> nat list \<Rightarrow> (u8 \<times> u8) list \<Rightarrow> (u8 \<times> u8) list option" where
  "copy_chans tab [] arr = Some arr"
| "copy_chans tab (i # is) arr =
     do { c \<leftarrow> mem_get tab i;
          arr \<leftarrow> mem_put arr i (of_nat (Channel c), of_nat (MaxTxPower c));
          copy_chans tab is arr }"

definition wlan_generate_parsed_region_chan_11d ::
  "REGION_CHANNEL \<Rightarrow> parsed_region_chan_11d \<Rightarrow> parsed_region_chan_11d option" where
  "wlan_generate_parsed_region_chan_11d rc p =
     (case CFP rc of
        None \<Rightarrow> Some p
      | Some tab \<Rightarrow>
          do { arr \<leftarrow> copy_chans tab [0..<unat (NrCFP rc)] (pr_chanPwr p);
               Some (p\<lparr>pr_band := Band rc, pr_region := Region rc,
                 pr_CountryCode := wlan_code_2_region (Region rc), pr_chanPwr := arr, pr_NoOfChan := NrCFP rc\<rparr>) })"

section \<open>From a country element to channels\<close>

text \<open>The inner loop of \<open>wlan_parse_domain_info_11d\<close>, on the index of the next free entry, the
  last channel and the array.\<close>

fun parse_chans :: "u8 \<Rightarrow> u8 \<Rightarrow> u8 \<Rightarrow> nat list \<Rightarrow> nat \<times> u8 \<times> (u8 \<times> u8) list \<Rightarrow> (nat \<times> u8 \<times> (u8 \<times> u8) list) option" where
  "parse_chans band firstChan pwr [] s = Some s"
| "parse_chans band firstChan pwr (i # is) (idx, lastChan, arr) =
     (if idx < MAX_NO_OF_CHAN then
        (case wlan_get_chan_11d band firstChan (of_nat i) of
           None \<Rightarrow> Some (idx, lastChan, arr)
         | Some curChan \<Rightarrow>
             do { arr \<leftarrow> mem_put arr idx (curChan, pwr);
                  parse_chans band firstChan pwr is (Suc idx, curChan, arr) })
      else Some (idx, lastChan, arr))"

fun parse_subbands :: "u8 \<Rightarrow> IEEEtypes_SubbandSet list \<Rightarrow> nat list \<Rightarrow> nat \<times> u8 \<times> (u8 \<times> u8) list \<Rightarrow>
    (nat \<times> u8 \<times> (u8 \<times> u8) list) option" where
  "parse_subbands band sbs [] s = Some s"
| "parse_subbands band sbs (j # js) (idx, lastChan, arr) =
     do { sb \<leftarrow> mem_get sbs j;
          if FirstChan sb \<le> lastChan then parse_subbands band sbs js (idx, lastChan, arr)
          else
            do { s \<leftarrow> parse_chans band (FirstChan sb) (MaxTxPwr sb) [0..<unat (NoOfChan sb)] (idx, lastChan, arr);
                 parse_subbands band sbs js s } }"

text \<open>The number of subbands of a country element of length \<open>len\<close>; a subband is three bytes.\<close>

definition subband_count :: "u8 \<Rightarrow> nat" where
  "subband_count len = (unat len - COUNTRY_CODE_LEN) div 3"

text \<open>\<open>wlan_parse_domain_info_11d\<close> also converts the country code of its argument to upper case.\<close>

definition wlan_parse_domain_info_11d ::
  "IEEEtypes_CountryInfoFullSet \<Rightarrow> u8 \<Rightarrow> parsed_region_chan_11d \<Rightarrow>
    (int \<times> IEEEtypes_CountryInfoFullSet \<times> parsed_region_chan_11d) option" where
  "wlan_parse_domain_info_11d ci band p =
     do { c0 \<leftarrow> mem_get (ci_CountryCode ci) 0;
          if c0 = 0 \<or> unat (ci_Len ci) \<le> COUNTRY_CODE_LEN then Some (- 1, ci, p)
          else
            let (code, name) = wlan_region_2_code (ci_CountryCode ci);
                ci = ci\<lparr>ci_CountryCode := name\<rparr>
            in do { (idx, _, arr) \<leftarrow> parse_subbands band (ci_Subband ci) [0..<subband_count (ci_Len ci)] (0, 0, pr_chanPwr p);
                    Some (0, ci, p\<lparr>pr_region := code, pr_band := band, pr_CountryCode := name,
                      pr_chanPwr := arr, pr_NoOfChan := of_nat idx\<rparr>) } }"

section \<open>The command to the firmware\<close>

definition HostCmd_CMD_802_11D_DOMAIN_INFO :: u16 where "HostCmd_CMD_802_11D_DOMAIN_INFO = 0x5b"
definition HostCmd_ACT_GET :: u16 where "HostCmd_ACT_GET = 0"
definition HostCmd_ACT_SET :: u16 where "HostCmd_ACT_SET = 1"
definition TLV_TYPE_DOMAIN :: u16 where "TLV_TYPE_DOMAIN = 7"
definition S_DS_GEN :: u16 where "S_DS_GEN = 8"

text \<open>The parts of the command buffer that the domain command uses. Its bound is not checked: the buffer takes more subbands than the
  array they are copied from has.\<close>

record domain_cmd =
  c_Command :: u16
  c_Size :: u16
  c_Action :: u16
  c_Type :: u16
  c_Len :: u16
  c_CountryCode :: "u8 list"
  c_Subband :: "IEEEtypes_SubbandSet list"

definition wlan_cmd_802_11d_domain_info ::
  "wlan_802_11d_domain_reg \<Rightarrow> domain_cmd \<Rightarrow> u16 \<Rightarrow> u16 \<Rightarrow> domain_cmd option" where
  "wlan_cmd_802_11d_domain_info dr cmd cmdno CmdOption =
     (let cmd = cmd\<lparr>c_Command := cmdno, c_Action := CmdOption\<rparr> in
      if CmdOption = HostCmd_ACT_GET then Some (cmd\<lparr>c_Size := 2 + S_DS_GEN\<rparr>)
      else
        let cmd = cmd\<lparr>c_Type := TLV_TYPE_DOMAIN, c_CountryCode := dr_CountryCode dr,
              c_Len := of_nat (unat (dr_NoOfSubband dr) * 3 + 3)\<rparr>
        in if dr_NoOfSubband dr \<noteq> 0 then
             do { sbs \<leftarrow> mem_sub (dr_Subband dr) 0 (unat (dr_NoOfSubband dr));
                  Some (cmd\<lparr>c_Subband := sbs, c_Size := 2 + c_Len cmd + 4 + S_DS_GEN\<rparr>) }
           else Some (cmd\<lparr>c_Size := 2 + S_DS_GEN\<rparr>))"

text \<open>\<open>wlan_ret_802_11d_domain_info\<close>: the length minus 3 is an \<^verbatim>\<open>int\<close>, which the
  division by a size converts to an unsigned word.\<close>

definition wlan_ret_802_11d_domain_info :: "domain_cmd \<Rightarrow> int" where
  "wlan_ret_802_11d_domain_info resp =
     (let NoOfSubband = ucast ((ucast (c_Len resp) - 3 :: u32) div 3) :: u8 in
      if unat NoOfSubband > MRVDRV_MAX_SUBBAND_802_11D then - 1
      else if c_Action resp = HostCmd_ACT_SET \<or> c_Action resp = HostCmd_ACT_GET then 0 else - 1)"

section \<open>The adapter\<close>

record adapter_11d =
  Enable11D :: bool
  MediaConnected :: bool
  region_channel :: "REGION_CHANNEL list"
  universal_channel :: "REGION_CHANNEL list"
  DomainReg :: wlan_802_11d_domain_reg
  parsed_region_chan :: parsed_region_chan_11d
  CountryInfo :: IEEEtypes_CountryInfoFullSet
  ScanType :: u8
  PassiveScanTime :: u16
  ActiveScanTime :: u16
  SpecificScanTime :: u16
  sent_cmds :: "domain_cmd list"

definition wlan_get_state_11d :: "adapter_11d \<Rightarrow> bool" where
  "wlan_get_state_11d a = Enable11D a"

definition wlan_init_11d :: "adapter_11d \<Rightarrow> adapter_11d" where
  "wlan_init_11d a = a\<lparr>Enable11D := False, parsed_region_chan := zero_parsed\<rparr>"

definition wlan_enable_11d :: "bool \<Rightarrow> adapter_11d \<Rightarrow> int \<times> adapter_11d" where
  "wlan_enable_11d flag a = (0, a\<lparr>Enable11D := flag\<rparr>)"

text \<open>\<open>wlan_cmd_enable_11d\<close>: \<open>data\<close> comes from the caller's request, the result goes back there.\<close>

definition wlan_cmd_enable_11d :: "int \<Rightarrow> adapter_11d \<Rightarrow> int \<times> int \<times> adapter_11d" where
  "wlan_cmd_enable_11d data a =
     (let a = (if data = 1 then snd (wlan_enable_11d True a)
               else if data = 0 then snd (wlan_enable_11d False a) else a)
      in (0, if Enable11D a then 1 else 0, a))"

text \<open>\<open>wlan_set_domain_info_11d\<close> through \<open>PrepareAndSendCommand\<close>: without a free command buffer
  nothing is sent; otherwise the command is built over what the buffer held before, queued, and
  \<open>ret\<close> is the outcome that the firmware reports.\<close>

type_synonym cmd_env = "domain_cmd option \<times> int"

definition wlan_set_domain_info_11d :: "cmd_env \<Rightarrow> adapter_11d \<Rightarrow> (int \<times> adapter_11d) option" where
  "wlan_set_domain_info_11d = (\<lambda>(buf, ret) a.
     case buf of
       None \<Rightarrow> Some (- 1, a)
     | Some old \<Rightarrow>
         do { cmd \<leftarrow> wlan_cmd_802_11d_domain_info (DomainReg a) old HostCmd_CMD_802_11D_DOMAIN_INFO HostCmd_ACT_SET;
              Some (ret, a\<lparr>sent_cmds := sent_cmds a @ [cmd]\<rparr>) })"

definition wlan_parse_dnld_countryinfo_11d :: "cmd_env \<Rightarrow> adapter_11d \<Rightarrow> (int \<times> adapter_11d) option" where
  "wlan_parse_dnld_countryinfo_11d env a =
     (if MediaConnected a then Some (0, a)
      else if wlan_get_state_11d a then
        do { (ret, ci, p) \<leftarrow> wlan_parse_domain_info_11d (CountryInfo a) 0 zero_parsed;
             let a = a\<lparr>CountryInfo := ci, parsed_region_chan := p\<rparr>;
             if ret = - 1 then Some (0, a)
             else
               do { dr \<leftarrow> wlan_generate_domain_info_11d p zero_domain_reg;
                    (ret, a) \<leftarrow> wlan_set_domain_info_11d env (a\<lparr>DomainReg := dr\<rparr>);
                    if ret \<noteq> 0 then Some (ret, a) else Some (0, a) } }
      else Some (0, a))"

fun find_band :: "u8 \<Rightarrow> REGION_CHANNEL list \<Rightarrow> REGION_CHANNEL option" where
  "find_band band [] = None"
| "find_band band (rc # rcs) =
     (if \<not> Valid rc \<or> CFP rc = None then find_band band rcs
      else if Band rc \<noteq> band then find_band band rcs
      else Some rc)"

definition wlan_create_dnld_countryinfo_11d :: "cmd_env \<Rightarrow> u8 \<Rightarrow> adapter_11d \<Rightarrow> (int \<times> adapter_11d) option" where
  "wlan_create_dnld_countryinfo_11d env band a =
     (case find_band band (region_channel a) of
        None \<Rightarrow> Some (- 1, a)
      | Some rc \<Rightarrow>
          do { p \<leftarrow> wlan_generate_parsed_region_chan_11d rc zero_parsed;
               dr \<leftarrow> wlan_generate_domain_info_11d p zero_domain_reg;
               (ret, a) \<leftarrow> wlan_set_domain_info_11d env (a\<lparr>parsed_region_chan := p, DomainReg := dr\<rparr>);
               if ret \<noteq> 0 then Some (ret, a) else Some (0, a) })"

section \<open>The channel list of a scan\<close>

record ChanScanParamSet =
  RadioType :: u8
  ChanNumber :: u8
  PassiveScan :: bool
  DisableChanFilt :: bool
  MinScanTime :: u16
  MaxScanTime :: u16

text \<open>One entry of the list, which the caller has zeroed.\<close>

definition scan_entry :: "adapter_11d \<Rightarrow> bool \<Rightarrow> u8 \<Rightarrow> CHANNEL_FREQ_POWER \<Rightarrow> ChanScanParamSet" where
  "scan_entry a filteredScan scanType c =
     \<lparr>RadioType = 0, ChanNumber = of_nat (Channel c),
      PassiveScan = (scanType = HostCmd_SCAN_TYPE_PASSIVE), DisableChanFilt = filteredScan, MinScanTime = 0,
      MaxScanTime = (if filteredScan then SpecificScanTime a
        else if scanType = HostCmd_SCAN_TYPE_PASSIVE then PassiveScanTime a else ActiveScanTime a)\<rparr>"

fun scan_chans :: "adapter_11d \<Rightarrow> bool \<Rightarrow> CHANNEL_FREQ_POWER list \<Rightarrow> nat list \<Rightarrow> u8 \<Rightarrow>
    (u8 \<times> ChanScanParamSet list) option" where
  "scan_chans a filteredScan tab [] scanType = Some (scanType, [])"
| "scan_chans a filteredScan tab (k # ks) scanType =
     do { c \<leftarrow> mem_get tab k;
          scanType \<leftarrow> (if wlan_get_state_11d a then wlan_get_scan_type_11d (of_nat (Channel c)) (parsed_region_chan a)
                        else Some scanType);
          (scanType', es) \<leftarrow> scan_chans a filteredScan tab ks scanType;
          Some (scanType', scan_entry a filteredScan scanType c # es) }"

text \<open>The outer loop; the number of regions is that of \<open>region_channel\<close>.\<close>

fun scan_regions :: "bool \<Rightarrow> nat list \<Rightarrow> u8 \<Rightarrow> adapter_11d \<Rightarrow> (adapter_11d \<times> ChanScanParamSet list) option" where
  "scan_regions filteredScan [] scanType a = Some (a, [])"
| "scan_regions filteredScan (r # rs) scanType a =
     do { let univ = (wlan_get_state_11d a \<and> \<not> MediaConnected a);
          rc \<leftarrow> mem_get (if univ then universal_channel a else region_channel a) r;
          if \<not> Valid rc then scan_regions filteredScan rs scanType a
          else
            do { let a = (if univ then a\<lparr>parsed_region_chan := zero_parsed\<rparr> else a);
                 (scanType, es) \<leftarrow> (case CFP rc of None \<Rightarrow> (if NrCFP rc = 0 then Some (scanType, []) else None)
                   | Some tab \<Rightarrow> scan_chans a filteredScan tab [0..<unat (NrCFP rc)] scanType);
                 (a, es') \<leftarrow> scan_regions filteredScan rs scanType a;
                 Some (a, es @ es') } }"

definition wlan_scan_create_channel_list ::
  "bool \<Rightarrow> adapter_11d \<Rightarrow> (adapter_11d \<times> ChanScanParamSet list) option" where
  "wlan_scan_create_channel_list filteredScan a =
     scan_regions filteredScan [0..<MAX_REGION_CHANNEL_NUM] (ScanType a) a"

section \<open>What a country element announces\<close>

text \<open>The specification: the channels of the subbands in turn, without those that start at or below
  a channel already seen, and cut at channel 14.\<close>

definition sb_chans :: "IEEEtypes_SubbandSet \<Rightarrow> (nat \<times> u8) list" where
  "sb_chans sb = map (\<lambda>c. (c, MaxTxPwr sb)) [unat (FirstChan sb)..<min (unat (FirstChan sb) + unat (NoOfChan sb)) 15]"

fun announced :: "nat \<Rightarrow> IEEEtypes_SubbandSet list \<Rightarrow> (nat \<times> u8) list" where
  "announced lastc [] = []"
| "announced lastc (sb # sbs) =
     (if unat (FirstChan sb) \<le> lastc then announced lastc sbs
      else sb_chans sb @ announced (if sb_chans sb = [] then lastc else fst (last (sb_chans sb))) sbs)"

definition wchan :: "nat \<times> u8 \<Rightarrow> u8 \<times> u8" where
  "wchan cp = (of_nat (fst cp), snd cp)"

definition chans :: "parsed_region_chan_11d \<Rightarrow> (u8 \<times> u8) list" where
  "chans p = take (unat (pr_NoOfChan p)) (pr_chanPwr p)"

lemma of_nat_inject_u8: "a < 256 \<Longrightarrow> b < 256 \<Longrightarrow> (of_nat a :: u8) = of_nat b \<longleftrightarrow> a = b"
  by (auto dest!: arg_cong [of _ _ unat] simp: unat_of_nat)

lemma last_sb_chans:
  "sb_chans sb \<noteq> [] \<Longrightarrow> fst (last (sb_chans sb)) = min (unat (FirstChan sb) + unat (NoOfChan sb)) 15 - 1"
  by (simp add: sb_chans_def last_map last_upt not_le)

lemma announced_bounds: "(c, p) \<in> set (announced l sbs) \<Longrightarrow> l < c \<and> c \<le> 14"
proof (induction l sbs rule: announced.induct)
  case (2 l sb sbs)
  show ?case
  proof (cases "unat (FirstChan sb) \<le> l \<or> (c, p) \<in> set (sb_chans sb)")
    case True
    with 2 show ?thesis by (auto simp: sb_chans_def split: if_splits)
  next
    case False
    let ?l = "if sb_chans sb = [] then l else fst (last (sb_chans sb))"
    have "l \<le> ?l" using False last_sb_chans [of sb] by (auto simp: sb_chans_def)
    moreover have "?l < c \<and> c \<le> 14" using False 2 by simp
    ultimately show ?thesis by linarith
  qed
qed simp

lemma announced_sorted: "sorted_wrt (<) (map fst (announced l sbs))"
proof (induction l sbs rule: announced.induct)
  case (2 l sb sbs)
  show ?case
  proof (cases "unat (FirstChan sb) \<le> l")
    case False
    let ?l = "if sb_chans sb = [] then l else fst (last (sb_chans sb))"
    have "sorted_wrt (<) (map fst (announced ?l sbs))" using False 2 by simp
    moreover have "sorted_wrt (<) (map fst (sb_chans sb))" by (simp add: sb_chans_def o_def)
    moreover have "c < c'" if "(c, p) \<in> set (sb_chans sb)" "(c', p') \<in> set (announced ?l sbs)" for c p c' p'
      using that announced_bounds [OF that(2)] last_sb_chans [of sb] by (auto simp: sb_chans_def split: if_splits)
    ultimately show ?thesis using False by (fastforce simp: sorted_wrt_append)
  qed (use 2 in simp)
qed simp

text \<open>Every announced channel has the power of a subband that covers it.\<close>

lemma announced_covered:
  "(c, p) \<in> set (announced l sbs) \<Longrightarrow>
    \<exists>sb \<in> set sbs. MaxTxPwr sb = p \<and> unat (FirstChan sb) \<le> c \<and> c < unat (FirstChan sb) + unat (NoOfChan sb)"
  by (induction l sbs rule: announced.induct) (fastforce simp: sb_chans_def split: if_splits)+

lemma announced_length: "length (announced l sbs) \<le> 14 - l"
proof -
  have d: "distinct (map fst (announced l sbs))"
    using announced_sorted [of l sbs] strict_sorted_iff by blast
  have "set (map fst (announced l sbs)) \<subseteq> {l<..14}" using announced_bounds [of _ _ l sbs] by auto
  from card_mono [OF _ this] distinct_card [OF d] show ?thesis by simp
qed

lemma mem_put_take: "idx < length arr \<Longrightarrow> take (Suc idx) (arr[idx := x]) = take idx arr @ [x]"
  by (simp add: take_Suc_conv_app_nth)

lemma parse_chans_spec:
  assumes "1 \<le> unat f" and "idx < unat f + k" and "length arr = MAX_NO_OF_CHAN" and "n < 256"
    and "idx \<le> 14" and cs: "cs = map (\<lambda>c. (c, p)) [unat f + k..<min (unat f + n) 15]"
  shows "\<exists>arr'. parse_chans band f p [k..<n] (idx, l, arr) =
      Some (idx + length cs, if cs = [] then l else of_nat (fst (last cs)), arr') \<and>
    length arr' = MAX_NO_OF_CHAN \<and> take (idx + length cs) arr' = take idx arr @ map wchan cs"
  using assms
proof (induction "n - k" arbitrary: k idx l arr cs)
  case 0
  then show ?case by simp
next
  case (Suc m)
  let ?c = "unat f + k"
  have k: "k < n" and upt: "[k..<n] = k # [Suc k..<n]" using Suc.hyps(2) by (simp_all add: upt_conv_Cons)
  have uk: "unat (of_nat k :: u8) = k" using k Suc.prems(4) by (simp add: unat_of_nat)
  show ?case
  proof (cases "?c \<le> 14")
    case False
    then have "wlan_get_chan_11d band f (of_nat k) = None" "cs = []"
      using Suc.prems(6) by (simp_all add: get_chan_eq uk del: of_nat_add)
    with Suc.prems show ?thesis by (simp add: upt)
  next
    case True
    then have g: "wlan_get_chan_11d band f (of_nat k) = Some (of_nat ?c)"
      using Suc.prems(1) by (simp add: get_chan_eq uk del: of_nat_add)
    let ?cs = "map (\<lambda>c. (c, p)) [unat f + Suc k..<min (unat f + n) 15]"
    have i: "idx < MAX_NO_OF_CHAN" using Suc.prems(5) by (simp add: MAX_NO_OF_CHAN_def)
    have cs: "cs = (?c, p) # ?cs" using Suc.prems(6) True k by (simp add: upt_conv_Cons)
    have "\<exists>arr'. parse_chans band f p [Suc k..<n] (Suc idx, of_nat ?c, arr[idx := (of_nat ?c, p)]) =
        Some (Suc idx + length ?cs, if ?cs = [] then of_nat ?c else of_nat (fst (last ?cs)), arr') \<and>
      length arr' = MAX_NO_OF_CHAN \<and>
      take (Suc idx + length ?cs) arr' = take (Suc idx) (arr[idx := (of_nat ?c, p)]) @ map wchan ?cs"
      using Suc.prems Suc.hyps(2) True by (intro Suc.hyps(1)) auto
    then obtain arr' where "parse_chans band f p [Suc k..<n] (Suc idx, of_nat ?c, arr[idx := (of_nat ?c, p)]) =
        Some (Suc idx + length ?cs, if ?cs = [] then of_nat ?c else of_nat (fst (last ?cs)), arr')"
      "length arr' = MAX_NO_OF_CHAN"
      "take (Suc idx + length ?cs) arr' = take (Suc idx) (arr[idx := (of_nat ?c, p)]) @ map wchan ?cs" by blast
    moreover have "last cs = (if ?cs = [] then (?c, p) else last ?cs)" using cs by simp
    ultimately show ?thesis using cs i Suc.prems(3) g
      by (intro exI [of _ arr']) (simp add: upt mem_put_in mem_put_take wchan_def del: of_nat_add)
  qed
qed

lemma parse_subbands_spec:
  assumes "idx \<le> unat l" and "unat l \<le> 14" and "length arr = MAX_NO_OF_CHAN" and "\<forall>j \<in> set js. j < length sbs"
    and cs: "cs = announced (unat l) (map ((!) sbs) js)"
  shows "\<exists>l' arr'. parse_subbands band sbs js (idx, l, arr) = Some (idx + length cs, l', arr') \<and>
    length arr' = MAX_NO_OF_CHAN \<and> take (idx + length cs) arr' = take idx arr @ map wchan cs"
  using assms
proof (induction js arbitrary: idx l arr cs)
  case (Cons j js)
  let ?sb = "sbs ! j"
  have sb: "mem_get sbs j = Some ?sb" using Cons.prems(4) by (simp add: mem_get_in)
  show ?case
  proof (cases "FirstChan ?sb \<le> l")
    case True
    with Cons sb show ?thesis by (simp add: word_le_nat_alt)
  next
    case False
    let ?f = "FirstChan ?sb" and ?s = "sb_chans ?sb"
    let ?l = "if ?s = [] then l else of_nat (fst (last ?s))"
    have f: "unat l < unat ?f" using False by (simp add: word_le_nat_alt)
    have s: "?s = map (\<lambda>c. (c, MaxTxPwr ?sb)) [unat ?f + 0..<min (unat ?f + unat (NoOfChan ?sb)) 15]"
      by (simp add: sb_chans_def)
    have n: "unat (NoOfChan ?sb) < 256" by (rule unat_u8_less)
    obtain arr1 where p: "parse_chans band ?f (MaxTxPwr ?sb) [0..<unat (NoOfChan ?sb)] (idx, l, arr) =
        Some (idx + length ?s, ?l, arr1)" and arr1: "length arr1 = MAX_NO_OF_CHAN"
        "take (idx + length ?s) arr1 = take idx arr @ map wchan ?s"
      using parse_chans_spec [OF _ _ Cons.prems(3) n _ s, of idx band l] Cons.prems(1,2) f by auto
    have ul: "unat ?l = (if ?s = [] then unat l else fst (last ?s))"
      using last_sb_chans [of ?sb] by (auto simp: unat_of_nat)
    have b: "idx + length ?s \<le> unat ?l" "unat ?l \<le> 14"
      using Cons.prems(1,2) f last_sb_chans [of ?sb] unfolding ul by (auto simp: sb_chans_def)
    have js: "\<forall>j \<in> set js. j < length sbs" using Cons.prems(4) by simp
    from Cons.IH [OF b arr1(1) js refl]
    obtain l' arr' where "parse_subbands band sbs js (idx + length ?s, ?l, arr1) =
        Some (idx + length ?s + length (announced (unat ?l) (map ((!) sbs) js)), l', arr')"
      "length arr' = MAX_NO_OF_CHAN"
      "take (idx + length ?s + length (announced (unat ?l) (map ((!) sbs) js))) arr' =
         take (idx + length ?s) arr1 @ map wchan (announced (unat ?l) (map ((!) sbs) js))" by blast
    with p arr1 sb False f Cons.prems(5) ul show ?thesis
      by (intro exI [of _ l'] exI [of _ arr']) (simp add: add.assoc)
  qed
qed simp

lemma map_nth_take: "n \<le> length xs \<Longrightarrow> map ((!) xs) [0..<n] = take n xs"
  by (rule nth_equalityI) simp_all

lemma parse_domain_info_spec:
  assumes "length (ci_CountryCode ci) = 3" and "ci_CountryCode ci ! 0 \<noteq> 0" and "3 < unat (ci_Len ci)"
    and "subband_count (ci_Len ci) \<le> length (ci_Subband ci)" and "length (pr_chanPwr p) = MAX_NO_OF_CHAN"
  shows "\<exists>p'. wlan_parse_domain_info_11d ci band p = Some (0, ci\<lparr>ci_CountryCode := upper_code (ci_CountryCode ci)\<rparr>, p') \<and>
    length (pr_chanPwr p') = MAX_NO_OF_CHAN \<and>
    pr_CountryCode p' = upper_code (ci_CountryCode ci) \<and>
    chans p' = map wchan (announced 0 (take (subband_count (ci_Len ci)) (ci_Subband ci)))"
proof -
  let ?n = "subband_count (ci_Len ci)"
  let ?cs = "announced 0 (take ?n (ci_Subband ci))"
  have "map ((!) (ci_Subband ci)) [0..<?n] = take ?n (ci_Subband ci)" using assms(4) by (rule map_nth_take)
  with parse_subbands_spec [OF _ _ assms(5) _ refl, of 0 0 "[0..<?n]" "ci_Subband ci" band] assms(4)
  obtain l' arr where "parse_subbands band (ci_Subband ci) [0..<?n] (0, 0, pr_chanPwr p) = Some (length ?cs, l', arr)"
    "length arr = MAX_NO_OF_CHAN" "take (length ?cs) arr = map wchan ?cs" by auto
  moreover have "unat (of_nat (length ?cs) :: u8) = length ?cs"
    using announced_length [of 0 "take ?n (ci_Subband ci)"] by (simp add: unat_of_nat)
  moreover have "mem_get (ci_CountryCode ci) 0 = Some (ci_CountryCode ci ! 0)" using assms(1) by (simp add: mem_get_in)
  ultimately show ?thesis using assms(2,3)
    by (simp add: wlan_parse_domain_info_11d_def wlan_region_2_code_def chans_def COUNTRY_CODE_LEN_def Let_def)
qed

section \<open>The domain table describes the channels\<close>

definition expand :: "IEEEtypes_SubbandSet \<Rightarrow> (u8 \<times> u8) list" where
  "expand sb = map (\<lambda>k. (FirstChan sb + of_nat k, MaxTxPwr sb)) [0..<unat (NoOfChan sb)]"

definition subbands :: "wlan_802_11d_domain_reg \<Rightarrow> IEEEtypes_SubbandSet list" where
  "subbands dr = take (unat (dr_NoOfSubband dr)) (dr_Subband dr)"

text \<open>The second subband continues the first.\<close>

definition joinable :: "IEEEtypes_SubbandSet \<Rightarrow> IEEEtypes_SubbandSet \<Rightarrow> bool" where
  "joinable a b \<longleftrightarrow> unat (FirstChan b) = unat (FirstChan a) + unat (NoOfChan a) \<and> MaxTxPwr b = MaxTxPwr a"

definition describes :: "IEEEtypes_SubbandSet list \<Rightarrow> (u8 \<times> u8) list \<Rightarrow> bool" where
  "describes sbs xs \<longleftrightarrow> concat (map expand sbs) = xs \<and> successively (\<lambda>a b. \<not> joinable a b) sbs \<and>
     (\<forall>sb \<in> set sbs. NoOfChan sb \<noteq> 0)"

definition cur_subband :: "dom_state \<Rightarrow> IEEEtypes_SubbandSet" where
  "cur_subband d = \<lparr>FirstChan = d_firstChan d, NoOfChan = d_NoOfParsedChan d, MaxTxPwr = d_maxPwr d\<rparr>"

definition dom_inv :: "(u8 \<times> u8) list \<Rightarrow> dom_state \<Rightarrow> bool" where
  "dom_inv xs d \<longleftrightarrow> length (d_Subband d) = MRVDRV_MAX_SUBBAND_802_11D \<and>
     (if xs = [] then \<not> d_flag d \<and> d_NoOfSubband d = 0
      else d_flag d \<and> unat (d_nextChan d) + 1 = unat (d_firstChan d) + unat (d_NoOfParsedChan d) \<and>
        d_NoOfParsedChan d \<noteq> 0 \<and> unat (d_NoOfSubband d) + unat (d_NoOfParsedChan d) \<le> length xs \<and>
        describes (take (unat (d_NoOfSubband d)) (d_Subband d) @ [cur_subband d]) xs)"

lemma unat_Suc_u8: "unat (w :: u8) < 255 \<Longrightarrow> unat (w + 1) = Suc (unat w)"
  by (simp add: unat_word_ariths)

lemma expand_one: "expand \<lparr>FirstChan = c, NoOfChan = 1, MaxTxPwr = p\<rparr> = [(c, p)]"
  by (simp add: expand_def)

lemma expand_Suc:
  "unat n < 255 \<Longrightarrow> expand \<lparr>FirstChan = c, NoOfChan = n + 1, MaxTxPwr = p\<rparr> =
     expand \<lparr>FirstChan = c, NoOfChan = n, MaxTxPwr = p\<rparr> @ [(c + n, p)]"
  by (simp add: expand_def unat_Suc_u8)

lemma store_subband_eq:
  "unat (d_NoOfSubband d) < length (d_Subband d) \<Longrightarrow>
    store_subband d = Some (d\<lparr>d_Subband := (d_Subband d)[unat (d_NoOfSubband d) := cur_subband d],
      d_NoOfSubband := d_NoOfSubband d + 1\<rparr>)"
  by (simp add: store_subband_def cur_subband_def mem_put_in)

lemma dom_step_inv:
  assumes inv: "dom_inv xs d" and len: "length xs < MRVDRV_MAX_SUBBAND_802_11D"
  shows "\<exists>d'. dom_step x d = Some d' \<and> dom_inv (xs @ [x]) d'"
proof (cases "xs = []")
  case True
  with inv show ?thesis
    by (cases x) (auto simp: dom_inv_def dom_step_def describes_def cur_subband_def expand_one)
next
  case False
  obtain c p where x: "x = (c, p)" by fastforce
  let ?st = "take (unat (d_NoOfSubband d)) (d_Subband d)"
  have i: "length (d_Subband d) = 83" "d_flag d" "unat (d_nextChan d) + 1 = unat (d_firstChan d) + unat (d_NoOfParsedChan d)"
    "d_NoOfParsedChan d \<noteq> 0" "unat (d_NoOfSubband d) + unat (d_NoOfParsedChan d) \<le> length xs"
    and ds: "describes (?st @ [cur_subband d]) xs"
    using inv False by (simp_all add: dom_inv_def MRVDRV_MAX_SUBBAND_802_11D_def)
  have n: "unat (d_NoOfParsedChan d) < 255" "unat (d_NoOfSubband d) < 83" "Suc (unat (d_NoOfSubband d)) \<le> length xs"
    using i len unat_gt_0 [of "d_NoOfParsedChan d"] by (simp_all add: MRVDRV_MAX_SUBBAND_802_11D_def)
  show ?thesis
  proof (cases "unat c = unat (d_nextChan d) + 1 \<and> p = d_maxPwr d")
    case True
    then have "c = d_firstChan d + d_NoOfParsedChan d"
      using i(3) by (metis of_nat_add of_nat_unat ucast_id)
    with True have "describes (?st @ [cur_subband (d\<lparr>d_nextChan := d_nextChan d + 1, d_NoOfParsedChan := d_NoOfParsedChan d + 1\<rparr>)]) (xs @ [x])"
      using ds n unat_Suc_u8 [OF n(1)] by (auto simp: describes_def cur_subband_def expand_Suc x successively_append_iff joinable_def)
    moreover have "unat (d_nextChan d) < 255" using True unat_u8_less [of c] by simp
    moreover have "d_NoOfParsedChan d + 1 \<noteq> 0" using unat_Suc_u8 [OF n(1)] by auto
    ultimately show ?thesis using True i n unat_Suc_u8 [OF n(1)]
      by (simp add: dom_step_def dom_inv_def x unat_Suc_u8 MRVDRV_MAX_SUBBAND_802_11D_def)
  next
    case False
    let ?d = "d\<lparr>d_Subband := (d_Subband d)[unat (d_NoOfSubband d) := cur_subband d], d_NoOfSubband := d_NoOfSubband d + 1,
      d_NoOfParsedChan := 1, d_nextChan := c, d_firstChan := c, d_maxPwr := p\<rparr>"
    have u: "unat (d_NoOfSubband d + 1) = Suc (unat (d_NoOfSubband d))" using n(2) by (simp add: unat_Suc_u8)
    have "\<not> joinable (cur_subband d) (cur_subband ?d)" using False i(3) by (auto simp: joinable_def cur_subband_def)
    then have "describes ((?st @ [cur_subband d]) @ [cur_subband ?d]) (xs @ [x])"
      using ds by (auto simp: describes_def successively_append_iff x cur_subband_def expand_one)
    moreover have "take (unat (d_NoOfSubband ?d)) (d_Subband ?d) = ?st @ [cur_subband d]"
      using n(2) i(1) by (simp add: u mem_put_take)
    ultimately have "dom_inv (xs @ [x]) ?d"
      using i n u by (simp add: dom_inv_def MRVDRV_MAX_SUBBAND_802_11D_def)
    moreover have "dom_step x d = Some ?d"
      using False i(1,2) n(2) by (auto simp: dom_step_def x store_subband_eq)
    ultimately show ?thesis by blast
  qed
qed

lemma dom_loop_inv:
  assumes "dom_inv xs d" and "\<forall>i \<in> set is. i < length arr" and "length xs + length is \<le> MRVDRV_MAX_SUBBAND_802_11D"
  shows "\<exists>d'. dom_loop arr is d = Some d' \<and> dom_inv (xs @ map ((!) arr) is) d'"
  using assms
proof (induction "is" arbitrary: xs d)
  case (Cons i "is")
  have i: "mem_get arr i = Some (arr ! i)" using Cons.prems(2) by (simp add: mem_get_in)
  obtain d1 where d1: "dom_step (arr ! i) d = Some d1" "dom_inv (xs @ [arr ! i]) d1"
    using dom_step_inv [OF Cons.prems(1), of "arr ! i"] Cons.prems(3) by auto
  from Cons.IH [OF d1(2)] Cons.prems(2,3)
  obtain d' where "dom_loop arr is d1 = Some d'" "dom_inv (xs @ map ((!) arr) (i # is)) d'" by auto
  with i d1 show ?case by simp
qed simp

lemma generate_domain_info_spec:
  assumes "length (pr_chanPwr p) = MAX_NO_OF_CHAN" and "unat (pr_NoOfChan p) \<le> MAX_NO_OF_CHAN"
    and "length (dr_Subband dr) = MRVDRV_MAX_SUBBAND_802_11D"
  shows "\<exists>dr'. wlan_generate_domain_info_11d p dr = Some dr' \<and> describes (subbands dr') (chans p) \<and>
    length (dr_Subband dr') = MRVDRV_MAX_SUBBAND_802_11D \<and> dr_CountryCode dr' = pr_CountryCode p \<and>
    unat (dr_NoOfSubband dr') \<le> MAX_NO_OF_CHAN"
proof -
  let ?n = "unat (pr_NoOfChan p)"
  let ?d = "\<lparr>d_flag = False, d_firstChan = 0, d_nextChan = 0, d_maxPwr = 0, d_NoOfParsedChan = 0,
             d_NoOfSubband = 0, d_Subband = dr_Subband dr\<rparr>"
  have inv: "dom_inv [] ?d" using assms(3) by (simp add: dom_inv_def)
  have n: "?n \<le> 40" using assms(2) by (simp add: MAX_NO_OF_CHAN_def)
  have m: "map ((!) (pr_chanPwr p)) [0..<?n] = chans p"
    using map_nth_take [of ?n "pr_chanPwr p"] assms(1,2) by (simp add: chans_def)
  have len: "length (chans p) = ?n" using assms(1,2) by (simp add: chans_def)
  obtain d where d: "dom_loop (pr_chanPwr p) [0..<?n] ?d = Some d" "dom_inv (chans p) d"
    using dom_loop_inv [OF inv, of "[0..<?n]" "pr_chanPwr p"] assms(1,2) n m
    by (auto simp: MRVDRV_MAX_SUBBAND_802_11D_def)
  show ?thesis
  proof (cases "chans p = []")
    case True
    with d show ?thesis
      by (simp add: wlan_generate_domain_info_11d_def dom_inv_def describes_def subbands_def)
  next
    case False
    have i: "d_flag d" "length (d_Subband d) = 83" "d_NoOfParsedChan d \<noteq> 0"
      "unat (d_NoOfSubband d) + unat (d_NoOfParsedChan d) \<le> ?n"
      and ds: "describes (take (unat (d_NoOfSubband d)) (d_Subband d) @ [cur_subband d]) (chans p)"
      using d(2) False len by (simp_all add: dom_inv_def MRVDRV_MAX_SUBBAND_802_11D_def)
    have k: "unat (d_NoOfSubband d) < 40" using i(3,4) n unat_gt_0 [of "d_NoOfParsedChan d"] by linarith
    then have "unat (d_NoOfSubband d + 1) = Suc (unat (d_NoOfSubband d))" by (simp add: unat_Suc_u8)
    with k i ds d(1) show ?thesis
      by (simp add: wlan_generate_domain_info_11d_def store_subband_eq subbands_def mem_put_take
          MRVDRV_MAX_SUBBAND_802_11D_def MAX_NO_OF_CHAN_def)
  qed
qed

section \<open>The command carries the table\<close>

lemma domain_cmd_spec:
  assumes "unat (dr_NoOfSubband dr) \<le> length (dr_Subband dr)" and "dr_NoOfSubband dr \<noteq> 0"
  shows "\<exists>cmd. wlan_cmd_802_11d_domain_info dr old HostCmd_CMD_802_11D_DOMAIN_INFO HostCmd_ACT_SET = Some cmd \<and>
    c_Command cmd = HostCmd_CMD_802_11D_DOMAIN_INFO \<and> c_Action cmd = HostCmd_ACT_SET \<and> c_Type cmd = TLV_TYPE_DOMAIN \<and>
    c_Subband cmd = subbands dr \<and> c_CountryCode cmd = dr_CountryCode dr \<and>
    unat (c_Size cmd) = 17 + 3 * length (subbands dr) \<and> unat (c_Len cmd) = 3 + 3 * length (subbands dr)"
proof -
  have "unat (dr_NoOfSubband dr) < 256" by (rule unat_u8_less)
  then have "unat (of_nat (unat (dr_NoOfSubband dr) * 3 + 3) :: u16) = 3 + 3 * unat (dr_NoOfSubband dr)"
    "unat (2 + of_nat (unat (dr_NoOfSubband dr) * 3 + 3) + 4 + 8 :: u16) = 17 + 3 * unat (dr_NoOfSubband dr)"
    by (simp_all only: unat_of_nat unat_word_ariths) simp_all
  with assms show ?thesis
    by (simp add: wlan_cmd_802_11d_domain_info_def HostCmd_ACT_GET_def HostCmd_ACT_SET_def Let_def subbands_def
        mem_sub_def S_DS_GEN_def del: of_nat_add of_nat_mult)
qed

section \<open>The table of a region\<close>

definition cfp_pair :: "CHANNEL_FREQ_POWER \<Rightarrow> u8 \<times> u8" where
  "cfp_pair c = (of_nat (Channel c), of_nat (MaxTxPower c))"

lemma copy_chans_spec:
  assumes "k \<le> n" and "n \<le> length tab" and "n \<le> length arr"
  shows "\<exists>arr'. copy_chans tab [k..<n] arr = Some arr' \<and> length arr' = length arr \<and>
    take n arr' = take k arr @ map cfp_pair (drop k (take n tab))"
  using assms
proof (induction "n - k" arbitrary: k arr)
  case (Suc m)
  then have k: "k < n" and upt: "[k..<n] = k # [Suc k..<n]" by (simp_all add: upt_conv_Cons)
  let ?arr = "arr[k := cfp_pair (tab ! k)]"
  have "\<exists>arr'. copy_chans tab [Suc k..<n] ?arr = Some arr' \<and> length arr' = length ?arr \<and>
    take n arr' = take (Suc k) ?arr @ map cfp_pair (drop (Suc k) (take n tab))"
    using Suc k by (intro Suc.hyps(1)) simp_all
  moreover have "drop k (take n tab) = tab ! k # drop (Suc k) (take n tab)"
    using k Suc.prems by (subst Cons_nth_drop_Suc [symmetric]) simp_all
  ultimately show ?case using k Suc.prems
    by (simp add: upt mem_get_in mem_put_in mem_put_take) (simp add: cfp_pair_def mem_put_take)
qed simp

lemma generate_parsed_spec:
  assumes "CFP rc = Some tab" and "unat (NrCFP rc) = length tab" and "length tab \<le> MAX_NO_OF_CHAN"
  shows "\<exists>p. wlan_generate_parsed_region_chan_11d rc zero_parsed = Some p \<and> chans p = map cfp_pair tab \<and>
    length (pr_chanPwr p) = MAX_NO_OF_CHAN \<and> unat (pr_NoOfChan p) = length tab \<and>
    pr_CountryCode p = wlan_code_2_region (Region rc)"
  using copy_chans_spec [of 0 "length tab" tab "pr_chanPwr zero_parsed"] assms
  by (auto simp: wlan_generate_parsed_region_chan_11d_def zero_parsed_def chans_def)

lemma describes_Nil: "describes [] xs \<longleftrightarrow> xs = []"
  by (auto simp: describes_def)

text \<open>A domain table that was just computed goes out in one command.\<close>

lemma set_domain_info_spec:
  assumes "describes (subbands (DomainReg a)) xs" and "xs \<noteq> []" and "length (dr_Subband (DomainReg a)) = MRVDRV_MAX_SUBBAND_802_11D"
    and "unat (dr_NoOfSubband (DomainReg a)) \<le> MAX_NO_OF_CHAN"
  shows "\<exists>cmd. wlan_set_domain_info_11d (Some old, ret) a = Some (ret, a\<lparr>sent_cmds := sent_cmds a @ [cmd]\<rparr>) \<and>
    describes (c_Subband cmd) xs \<and> c_CountryCode cmd = dr_CountryCode (DomainReg a) \<and>
    unat (c_Size cmd) = 17 + 3 * length (c_Subband cmd)"
proof -
  have "subbands (DomainReg a) \<noteq> []" using assms(1,2) by (auto simp: describes_Nil)
  then have nz: "dr_NoOfSubband (DomainReg a) \<noteq> 0" by (auto simp: subbands_def)
  have le: "unat (dr_NoOfSubband (DomainReg a)) \<le> length (dr_Subband (DomainReg a))"
    using assms(3,4) by (simp add: MRVDRV_MAX_SUBBAND_802_11D_def MAX_NO_OF_CHAN_def)
  obtain cmd where
    "wlan_cmd_802_11d_domain_info (DomainReg a) old HostCmd_CMD_802_11D_DOMAIN_INFO HostCmd_ACT_SET = Some cmd"
    "c_Subband cmd = subbands (DomainReg a)" "c_CountryCode cmd = dr_CountryCode (DomainReg a)"
    "unat (c_Size cmd) = 17 + 3 * length (subbands (DomainReg a))"
    using domain_cmd_spec [OF le nz, of old] by blast
  with assms(1) show ?thesis by (intro exI [of _ cmd]) (simp add: wlan_set_domain_info_11d_def)
qed

lemma set_regiontable_spec:
  assumes "wlan_set_regiontable region band = (0, rcs)"
  shows "\<exists>tab rc. wlan_get_region_cfp_table region band = Some tab \<and> find_band band rcs = Some rc \<and> CFP rc = Some tab \<and>
    unat (NrCFP rc) = length tab \<and> Region rc = region \<and> length tab \<le> 13"
proof -
  obtain tab where tab: "wlan_get_region_cfp_table region band = Some tab"
    using assms by (auto simp: wlan_set_regiontable_def split: option.splits)
  then have "length tab \<le> 13" using region_tables [OF region_cfp_SomeD] by blast
  with tab assms show ?thesis
    by (auto simp: wlan_set_regiontable_def zero_region_channels_def MAX_REGION_CHANNEL_NUM_def numeral_2_eq_2 unat_of_nat)
qed

section \<open>Scan types\<close>

lemma chan_known_iff:
  "\<forall>i \<in> set is. i < length arr \<Longrightarrow> chan_known c arr is = Some (c \<in> fst ` set (map ((!) arr) is))"
  by (induction "is") (auto simp: mem_get_in split: prod.splits)

lemma scan_type_spec:
  assumes "unat (pr_NoOfChan p) \<le> length (pr_chanPwr p)"
  shows "wlan_get_scan_type_11d c p =
    Some (if c \<in> fst ` set (chans p) then HostCmd_SCAN_TYPE_ACTIVE else HostCmd_SCAN_TYPE_PASSIVE)"
  using assms map_nth_take [OF assms]
  by (simp add: wlan_get_scan_type_11d_def wlan_channel_known_11d_def chan_known_iff chans_def)

lemma scan_chans_spec:
  assumes "Enable11D a" and "unat (pr_NoOfChan (parsed_region_chan a)) \<le> length (pr_chanPwr (parsed_region_chan a))"
    and "\<forall>k \<in> set ks. k < length tab"
  shows "\<exists>t es. scan_chans a flt tab ks st = Some (t, es) \<and> map ChanNumber es = map (\<lambda>k. of_nat (Channel (tab ! k))) ks \<and>
    (\<forall>e \<in> set es. PassiveScan e \<longleftrightarrow> ChanNumber e \<notin> fst ` set (chans (parsed_region_chan a)))"
  using assms
proof (induction ks arbitrary: st)
  case (Cons k ks)
  let ?c = "tab ! k" and ?p = "parsed_region_chan a"
  let ?st = "if of_nat (Channel ?c) \<in> fst ` set (chans ?p) then HostCmd_SCAN_TYPE_ACTIVE else HostCmd_SCAN_TYPE_PASSIVE"
  have k: "mem_get tab k = Some ?c" using Cons.prems(3) by (simp add: mem_get_in)
  have t: "wlan_get_scan_type_11d (of_nat (Channel ?c)) ?p = Some ?st" using Cons.prems(2) by (rule scan_type_spec)
  obtain t' es where es: "scan_chans a flt tab ks ?st = Some (t', es)"
    "map ChanNumber es = map (\<lambda>k. of_nat (Channel (tab ! k))) ks"
    "\<forall>e \<in> set es. PassiveScan e \<longleftrightarrow> ChanNumber e \<notin> fst ` set (chans ?p)"
    using Cons.IH [of ?st] Cons.prems by auto
  have e: "ChanNumber (scan_entry a flt ?st ?c) = of_nat (Channel ?c)"
    "PassiveScan (scan_entry a flt ?st ?c) \<longleftrightarrow> of_nat (Channel ?c) \<notin> fst ` set (chans ?p)"
    by (simp_all add: scan_entry_def HostCmd_SCAN_TYPE_ACTIVE_def HostCmd_SCAN_TYPE_PASSIVE_def)
  have "scan_chans a flt tab (k # ks) st = Some (t', scan_entry a flt ?st ?c # es)"
    using Cons.prems(1) k t es(1) by (simp add: wlan_get_state_11d_def)
  with es e show ?case by simp
qed simp

section \<open>Reading a domain table back\<close>

lemma sorted_length_le:
  assumes "sorted_wrt (<) (map fst cs)" and "\<forall>c \<in> set (map fst cs). l < c \<and> c \<le> (14 :: nat)"
  shows "length cs \<le> 14 - l"
proof -
  have "distinct (map fst cs)" using assms(1) strict_sorted_iff by blast
  moreover have "set (map fst cs) \<subseteq> {l<..14}" using assms(2) by auto
  ultimately show ?thesis using card_mono [of "{l<..14}" "set (map fst cs)"] distinct_card by fastforce
qed

lemma expand_sb_chans:
  assumes w: "map wchan cs = expand sb" and s: "sorted_wrt (<) (map fst cs)"
    and b: "\<forall>c \<in> set (map fst cs). l < c \<and> c \<le> (14 :: nat)" and nz: "NoOfChan sb \<noteq> 0"
  shows "cs = sb_chans sb \<and> l < unat (FirstChan sb)"
proof -
  let ?n = "unat (NoOfChan sb)" and ?f = "unat (FirstChan sb)"
  have n: "length cs = ?n" using arg_cong [OF w, of length] by (simp add: expand_def)
  have n14: "?n \<le> 14" using sorted_length_le [OF s b] n by linarith
  have nth: "wchan (cs ! k) = (FirstChan sb + of_nat k, MaxTxPwr sb)" if "k < ?n" for k
    using arg_cong [OF w, of "\<lambda>xs. xs ! k"] that n by (simp add: expand_def)
  have in14: "fst (cs ! k) \<le> 14 \<and> l < fst (cs ! k)" if "k < ?n" for k using b that n by simp
  have pos: "0 < ?n" using nz by (simp add: unat_gt_0)
  have "of_nat (fst (cs ! 0)) = FirstChan sb" using nth [OF pos] by (simp add: wchan_def)
  then have f: "?f = fst (cs ! 0)" using in14 [OF pos] by (auto dest!: arg_cong [of _ _ unat] simp: unat_of_nat)
  have ck: "cs ! k = (?f + k, MaxTxPwr sb)" if "k < ?n" for k
  proof -
    have "of_nat (fst (cs ! k)) = (of_nat (?f + k) :: u8)" "snd (cs ! k) = MaxTxPwr sb"
      using nth [OF that] by (simp_all add: wchan_def)
    moreover have "fst (cs ! k) < 256" "?f + k < 256" using in14 [OF that] in14 [OF pos] f n14 that by simp_all
    ultimately have "fst (cs ! k) = ?f + k" by (simp only: of_nat_inject_u8)
    with \<open>snd (cs ! k) = MaxTxPwr sb\<close> show ?thesis by (simp add: prod_eq_iff)
  qed
  have "?f + (?n - 1) \<le> 14" using in14 [of "?n - 1"] ck [of "?n - 1"] pos by simp
  then have "cs = sb_chans sb"
    using n ck pos by (intro nth_equalityI) (simp_all add: sb_chans_def)
  with in14 [OF pos] f show ?thesis by simp
qed

lemma announced_expand:
  assumes "concat (map expand sbs) = map wchan cs" and "sorted_wrt (<) (map fst cs)"
    and "\<forall>c \<in> set (map fst cs). l < c \<and> c \<le> (14 :: nat)" and "\<forall>sb \<in> set sbs. NoOfChan sb \<noteq> 0"
  shows "announced l sbs = cs"
  using assms
proof (induction sbs arbitrary: cs l)
  case (Cons sb sbs)
  let ?a = "take (length (expand sb)) cs" and ?b = "drop (length (expand sb)) cs"
  have w: "map wchan cs = expand sb @ concat (map expand sbs)" using Cons.prems(1) by simp
  have wa: "map wchan ?a = expand sb" and wb: "concat (map expand sbs) = map wchan ?b"
    using arg_cong [OF w, of "take (length (expand sb))"] arg_cong [OF w, of "drop (length (expand sb))"]
    by (simp_all add: take_map drop_map)
  have sa: "sorted_wrt (<) (map fst ?a)" and sb: "sorted_wrt (<) (map fst ?b)"
    and ab: "\<And>c c'. c \<in> set (map fst ?a) \<Longrightarrow> c' \<in> set (map fst ?b) \<Longrightarrow> c < c'"
    using Cons.prems(2) append_take_drop_id [of "length (expand sb)" cs] sorted_wrt_append [of "(<)" "map fst ?a" "map fst ?b"]
    by (metis map_append)+
  have ba: "\<forall>c \<in> set (map fst ?a). l < c \<and> c \<le> 14" using Cons.prems(3) by (auto dest: in_set_takeD)
  have nz: "NoOfChan sb \<noteq> 0" "expand sb \<noteq> []" using Cons.prems(4) by (simp_all add: expand_def unat_eq_zero)
  from expand_sb_chans [OF wa sa ba nz(1)] have a: "?a = sb_chans sb" "l < unat (FirstChan sb)" by simp_all
  have ne: "sb_chans sb \<noteq> []" using nz(2) wa a(1) by (metis list.simps(8))
  have "\<forall>c \<in> set (map fst ?b). fst (last (sb_chans sb)) < c \<and> c \<le> 14"
    using ab [of "fst (last ?a)"] a(1) ne Cons.prems(3) by (auto dest: in_set_dropD)
  from Cons.IH [OF wb sb this] Cons.prems(4) have "announced (fst (last (sb_chans sb))) sbs = ?b" by simp
  with a ne append_take_drop_id [of "length (expand sb)" cs] show ?case by simp
qed simp

section \<open>Properties\<close>

lemma subband_count_le: "unat len \<le> 254 \<Longrightarrow> subband_count len \<le> MRVDRV_MAX_SUBBAND_802_11D"
  by (simp add: subband_count_def COUNTRY_CODE_LEN_def MRVDRV_MAX_SUBBAND_802_11D_def)

text \<open>The sizes of the arrays behind a country element.\<close>

definition ci_ok :: "IEEEtypes_CountryInfoFullSet \<Rightarrow> bool" where
  "ci_ok ci \<longleftrightarrow> length (ci_CountryCode ci) = 3 \<and> length (ci_Subband ci) = MRVDRV_MAX_SUBBAND_802_11D \<and> unat (ci_Len ci) \<le> 254"

definition ci_channels :: "IEEEtypes_CountryInfoFullSet \<Rightarrow> (nat \<times> u8) list" where
  "ci_channels ci = announced 0 (take (subband_count (ci_Len ci)) (ci_Subband ci))"

lemma parse_ci:
  assumes "ci_ok ci" and "ci_CountryCode ci ! 0 \<noteq> 0" and "3 < unat (ci_Len ci)" and "length (pr_chanPwr p) = MAX_NO_OF_CHAN"
  shows "\<exists>p'. wlan_parse_domain_info_11d ci band p = Some (0, ci\<lparr>ci_CountryCode := upper_code (ci_CountryCode ci)\<rparr>, p') \<and>
    length (pr_chanPwr p') = MAX_NO_OF_CHAN \<and> pr_CountryCode p' = upper_code (ci_CountryCode ci) \<and>
    chans p' = map wchan (ci_channels ci) \<and> unat (pr_NoOfChan p') \<le> 14"
proof -
  have n: "subband_count (ci_Len ci) \<le> length (ci_Subband ci)" using assms(1) subband_count_le by (simp add: ci_ok_def)
  obtain p' where p: "wlan_parse_domain_info_11d ci band p = Some (0, ci\<lparr>ci_CountryCode := upper_code (ci_CountryCode ci)\<rparr>, p')"
    "length (pr_chanPwr p') = MAX_NO_OF_CHAN" "pr_CountryCode p' = upper_code (ci_CountryCode ci)"
    "chans p' = map wchan (ci_channels ci)"
    using parse_domain_info_spec [OF _ assms(2,3) n assms(4)] assms(1) by (auto simp: ci_ok_def ci_channels_def)
  have "length (chans p') \<le> 14"
    using p(4) announced_length [of 0 "take (subband_count (ci_Len ci)) (ci_Subband ci)"] by (simp add: ci_channels_def)
  then have "unat (pr_NoOfChan p') \<le> 14" using p(2) by (auto simp: chans_def MAX_NO_OF_CHAN_def)
  with p show ?thesis by blast
qed

lemma ci_channels_bounds: "(c, w) \<in> set (ci_channels ci) \<Longrightarrow> 1 \<le> c \<and> c \<le> 14"
  using announced_bounds unfolding ci_channels_def by fastforce

lemma parse_no_country:
  "ci_ok ci \<Longrightarrow> ci_CountryCode ci ! 0 = 0 \<or> unat (ci_Len ci) \<le> 3 \<Longrightarrow> wlan_parse_domain_info_11d ci band p = Some (- 1, ci, p)"
  by (auto simp: wlan_parse_domain_info_11d_def ci_ok_def mem_get_in COUNTRY_CODE_LEN_def)

text \<open>C7. Reading a country element gives the channels it announces: the channel list is that of the
  specification, in strictly ascending order, only channels 1 to 14, each with the power limit
  of a subband that covers it. No array is left.\<close>

theorem country_channels:
  assumes "ci_ok ci" and "ci_CountryCode ci ! 0 \<noteq> 0" and "3 < unat (ci_Len ci)" and "length (pr_chanPwr p) = MAX_NO_OF_CHAN"
  shows "\<exists>ci' p'. wlan_parse_domain_info_11d ci band p = Some (0, ci', p') \<and> chans p' = map wchan (ci_channels ci) \<and>
    sorted_wrt (<) (map fst (ci_channels ci)) \<and>
    (\<forall>(c, w) \<in> set (ci_channels ci). 1 \<le> c \<and> c \<le> 14 \<and>
      (\<exists>sb \<in> set (take (subband_count (ci_Len ci)) (ci_Subband ci)).
        MaxTxPwr sb = w \<and> unat (FirstChan sb) \<le> c \<and> c < unat (FirstChan sb) + unat (NoOfChan sb)))"
  using parse_ci [OF assms, of band] announced_sorted ci_channels_bounds announced_covered
  unfolding ci_channels_def by fastforce

definition sample_ci :: IEEEtypes_CountryInfoFullSet where
  "sample_ci = \<lparr>ci_Len = 9, ci_CountryCode = [0x64, 0x65, 0x20],
     ci_Subband = [\<lparr>FirstChan = 1, NoOfChan = 2, MaxTxPwr = 20\<rparr>, \<lparr>FirstChan = 13, NoOfChan = 9, MaxTxPwr = 10\<rparr>] @ replicate 81 zero_subband\<rparr>"

lemma sample_ci_ok: "ci_ok sample_ci" "ci_CountryCode sample_ci ! 0 \<noteq> 0" "3 < unat (ci_Len sample_ci)"
  by (simp_all add: ci_ok_def sample_ci_def MRVDRV_MAX_SUBBAND_802_11D_def)

lemma sample_ci_channels: "ci_channels sample_ci = [(1, 20), (2, 20), (13, 10), (14, 10)]"
  by (simp add: ci_channels_def sample_ci_def subband_count_def COUNTRY_CODE_LEN_def sb_chans_def upt_rec)

theorem country_channels_witness:
  "\<exists>ci' p'. wlan_parse_domain_info_11d sample_ci 0 zero_parsed = Some (0, ci', p') \<and>
    chans p' = [(1, 20), (2, 20), (13, 10), (14, 10)]"
  using country_channels [OF sample_ci_ok, of zero_parsed 0]
  by (auto simp: sample_ci_channels zero_parsed_def wchan_def)

text \<open>The domain table loses nothing: for any list of at most 40 channels the subbands stored for
  the firmware, written out, are exactly the list; none of them is empty, and neighbours that
  could be joined are joined. No array is left.\<close>

theorem domain_table_describes:
  assumes "length (pr_chanPwr p) = MAX_NO_OF_CHAN" and "unat (pr_NoOfChan p) \<le> MAX_NO_OF_CHAN"
    and "length (dr_Subband dr) = MRVDRV_MAX_SUBBAND_802_11D"
  shows "\<exists>dr'. wlan_generate_domain_info_11d p dr = Some dr' \<and> concat (map expand (subbands dr')) = chans p \<and>
    successively (\<lambda>a b. \<not> joinable a b) (subbands dr') \<and> (\<forall>sb \<in> set (subbands dr'). NoOfChan sb \<noteq> 0)"
  using generate_domain_info_spec [OF assms] unfolding describes_def by blast

definition sample_parsed :: parsed_region_chan_11d where
  "sample_parsed = zero_parsed\<lparr>pr_chanPwr := [(1, 20), (2, 20), (3, 10)] @ replicate 37 (0, 0), pr_NoOfChan := 3\<rparr>"

theorem domain_table_describes_witness:
  "\<exists>dr'. wlan_generate_domain_info_11d sample_parsed zero_domain_reg = Some dr' \<and>
    concat (map expand (subbands dr')) = [(1, 20), (2, 20), (3, 10)]"
  using domain_table_describes [of sample_parsed zero_domain_reg]
  by (auto simp: sample_parsed_def zero_parsed_def zero_domain_reg_def chans_def MAX_NO_OF_CHAN_def MRVDRV_MAX_SUBBAND_802_11D_def)

text \<open>C26. The two translations are inverse: the domain table made from the channels of a country
  element, read as a country element itself, gives the same channels again.\<close>

theorem domain_table_round_trip:
  assumes "ci_ok ci" and "wlan_parse_domain_info_11d ci band zero_parsed = Some (0, ci1, p1)"
    and "wlan_generate_domain_info_11d p1 zero_domain_reg = Some dr"
    and "ci2 = \<lparr>ci_Len = 3 + 3 * dr_NoOfSubband dr, ci_CountryCode = dr_CountryCode dr, ci_Subband = dr_Subband dr\<rparr>"
  shows "ci_channels ci2 = ci_channels ci \<and> chans p1 = map wchan (ci_channels ci2)"
proof -
  have c: "ci_CountryCode ci ! 0 \<noteq> 0" "3 < unat (ci_Len ci)"
    using parse_no_country [OF assms(1), of band zero_parsed] assms(2) by force+
  have z: "length (pr_chanPwr zero_parsed) = MAX_NO_OF_CHAN" by (simp add: zero_parsed_def)
  from parse_ci [OF assms(1) c z, of band] assms(2)
  have p1: "length (pr_chanPwr p1) = MAX_NO_OF_CHAN" "unat (pr_NoOfChan p1) \<le> 14" "chans p1 = map wchan (ci_channels ci)"
    by auto
  have zd: "length (dr_Subband zero_domain_reg) = MRVDRV_MAX_SUBBAND_802_11D" by (simp add: zero_domain_reg_def)
  from generate_domain_info_spec [OF p1(1) _ zd] p1(2) assms(3)
  have d: "describes (subbands dr) (chans p1)" and n: "unat (dr_NoOfSubband dr) \<le> 40"
    by (auto simp: MAX_NO_OF_CHAN_def)
  have "unat (3 + 3 * dr_NoOfSubband dr) = 3 + 3 * unat (dr_NoOfSubband dr)" using n by (simp add: unat_word_ariths)
  then have "ci_channels ci2 = announced 0 (subbands dr)"
    by (simp add: ci_channels_def assms(4) subband_count_def COUNTRY_CODE_LEN_def subbands_def)
  also have "\<dots> = ci_channels ci"
  proof (rule announced_expand)
    show "concat (map expand (subbands dr)) = map wchan (ci_channels ci)" using d p1(3) by (simp add: describes_def)
    show "sorted_wrt (<) (map fst (ci_channels ci))" unfolding ci_channels_def by (rule announced_sorted)
    show "\<forall>c \<in> set (map fst (ci_channels ci)). 0 < c \<and> c \<le> 14" using ci_channels_bounds by fastforce
    show "\<forall>sb \<in> set (subbands dr). NoOfChan sb \<noteq> 0" using d by (simp add: describes_def)
  qed
  finally show ?thesis using p1(3) by simp
qed

theorem domain_table_round_trip_witness:
  "\<exists>ci1 p1 dr. wlan_parse_domain_info_11d sample_ci 0 zero_parsed = Some (0, ci1, p1) \<and>
    wlan_generate_domain_info_11d p1 zero_domain_reg = Some dr \<and>
    ci_channels \<lparr>ci_Len = 3 + 3 * dr_NoOfSubband dr, ci_CountryCode = dr_CountryCode dr, ci_Subband = dr_Subband dr\<rparr> =
      [(1, 20), (2, 20), (13, 10), (14, 10)]"
proof -
  have z: "length (pr_chanPwr zero_parsed) = MAX_NO_OF_CHAN" "length (dr_Subband zero_domain_reg) = MRVDRV_MAX_SUBBAND_802_11D"
    by (simp_all add: zero_parsed_def zero_domain_reg_def)
  obtain ci1 p1 where p: "wlan_parse_domain_info_11d sample_ci 0 zero_parsed = Some (0, ci1, p1)"
    "length (pr_chanPwr p1) = MAX_NO_OF_CHAN" "unat (pr_NoOfChan p1) \<le> 14"
    using parse_ci [OF sample_ci_ok z(1), of 0] by blast
  then obtain dr where d: "wlan_generate_domain_info_11d p1 zero_domain_reg = Some dr"
    using generate_domain_info_spec [OF p(2) _ z(2)] by (auto simp: MAX_NO_OF_CHAN_def)
  from domain_table_round_trip [OF sample_ci_ok(1) p(1) d refl] p(1) d show ?thesis by (auto simp: sample_ci_channels)
qed

text \<open>Joining a network tells the firmware the limits of the configured region: once the table of
  the region is set, the download sends one command whose subbands, written out, are exactly
  the channels and power limits of that table.\<close>

theorem region_download:
  assumes "wlan_set_regiontable region band = (0, rcs)" and "region_channel a = rcs"
    and "wlan_get_region_cfp_table region band = Some tab"
  shows "\<exists>a' cmd. wlan_create_dnld_countryinfo_11d (Some old, 0) band a = Some (0, a') \<and>
    sent_cmds a' = sent_cmds a @ [cmd] \<and> concat (map expand (c_Subband cmd)) = map cfp_pair tab \<and>
    c_CountryCode cmd = wlan_code_2_region region \<and> unat (c_Size cmd) = 17 + 3 * length (c_Subband cmd)"
proof -
  obtain rc where rc: "find_band band rcs = Some rc" "CFP rc = Some tab" "unat (NrCFP rc) = length tab" "Region rc = region"
    and t: "length tab \<le> MAX_NO_OF_CHAN"
    using set_regiontable_spec [OF assms(1)] assms(3) by (auto simp: MAX_NO_OF_CHAN_def)
  obtain p where p: "wlan_generate_parsed_region_chan_11d rc zero_parsed = Some p" "chans p = map cfp_pair tab"
    "length (pr_chanPwr p) = MAX_NO_OF_CHAN" "unat (pr_NoOfChan p) \<le> MAX_NO_OF_CHAN" "pr_CountryCode p = wlan_code_2_region region"
    using generate_parsed_spec [OF rc(2,3) t] t rc(4) by auto
  have z: "length (dr_Subband zero_domain_reg) = MRVDRV_MAX_SUBBAND_802_11D" by (simp add: zero_domain_reg_def)
  obtain dr where d: "wlan_generate_domain_info_11d p zero_domain_reg = Some dr" "describes (subbands dr) (map cfp_pair tab)"
    "length (dr_Subband dr) = MRVDRV_MAX_SUBBAND_802_11D" "dr_CountryCode dr = wlan_code_2_region region"
    "unat (dr_NoOfSubband dr) \<le> MAX_NO_OF_CHAN"
    using generate_domain_info_spec [OF p(3,4) z] p(2,5) by auto
  have ne: "map cfp_pair tab \<noteq> []"
    using region_cfp_SomeD [OF assms(3)] by (auto simp: region_cfp_table_def cfp_tables)
  let ?a = "a\<lparr>parsed_region_chan := p, DomainReg := dr\<rparr>"
  from set_domain_info_spec [of ?a, OF _ ne, of old 0] d(2-5)
  obtain cmd where c: "wlan_set_domain_info_11d (Some old, 0) ?a = Some (0, ?a\<lparr>sent_cmds := sent_cmds ?a @ [cmd]\<rparr>)"
    "describes (c_Subband cmd) (map cfp_pair tab)" "c_CountryCode cmd = wlan_code_2_region region"
    "unat (c_Size cmd) = 17 + 3 * length (c_Subband cmd)" by auto
  with rc(1) p(1) d(1) assms(2) show ?thesis
    by (intro exI [of _ "?a\<lparr>sent_cmds := sent_cmds ?a @ [cmd]\<rparr>"] exI [of _ cmd])
      (simp add: wlan_create_dnld_countryinfo_11d_def describes_def)
qed

definition sample_cmd :: domain_cmd where
  "sample_cmd = \<lparr>c_Command = 0, c_Size = 0, c_Action = 0, c_Type = 0, c_Len = 0, c_CountryCode = [0, 0, 0], c_Subband = []\<rparr>"

definition sample_adapter :: "REGION_CHANNEL list \<Rightarrow> adapter_11d" where
  "sample_adapter rcs = \<lparr>Enable11D = True, MediaConnected = False, region_channel = rcs,
     universal_channel = snd (wlan_set_universaltable 0), DomainReg = zero_domain_reg, parsed_region_chan = sample_parsed,
     CountryInfo = sample_ci, ScanType = 0, PassiveScanTime = 200, ActiveScanTime = 100, SpecificScanTime = 110, sent_cmds = []\<rparr>"

theorem region_download_witness:
  "\<exists>a' cmd. wlan_create_dnld_countryinfo_11d (Some sample_cmd, 0) 0 (sample_adapter (snd (wlan_set_regiontable 0x31 0))) = Some (0, a') \<and>
    sent_cmds a' = [cmd] \<and> concat (map expand (c_Subband cmd)) = [(10, 20), (11, 20)]"
proof -
  have t: "wlan_get_region_cfp_table 0x31 0 = Some channel_freq_power_SPN_BG"
    by (simp add: wlan_get_region_cfp_table_def region_cfp_table_def)
  then have "wlan_set_regiontable 0x31 0 = (0, snd (wlan_set_regiontable 0x31 0))" by (simp add: wlan_set_regiontable_def)
  from region_download [OF this _ t, of "sample_adapter (snd (wlan_set_regiontable 0x31 0))" sample_cmd] show ?thesis
    by (auto simp: sample_adapter_def channel_freq_power_SPN_BG_def cfp_def cfp_pair_def WLAN_TX_PWR_DEFAULT_def)
qed

text \<open>C27. Whatever an access point announces, the download of its limits stays within its arrays and
  returns; while unconnected with 802.11d enabled it sends a command whose subbands, written
  out, are exactly the announced channels, unless there are none.\<close>

theorem country_download:
  assumes "ci_ok (CountryInfo a)"
  shows "\<exists>ret a'. wlan_parse_dnld_countryinfo_11d (Some old, 0) a = Some (ret, a') \<and> ret = 0 \<and>
    (\<not> MediaConnected a \<and> Enable11D a \<and> ci_CountryCode (CountryInfo a) ! 0 \<noteq> 0 \<and> 3 < unat (ci_Len (CountryInfo a)) \<and>
       ci_channels (CountryInfo a) \<noteq> [] \<longrightarrow>
     (\<exists>cmd. sent_cmds a' = sent_cmds a @ [cmd] \<and>
       concat (map expand (c_Subband cmd)) = map wchan (ci_channels (CountryInfo a)) \<and>
       c_CountryCode cmd = upper_code (ci_CountryCode (CountryInfo a))))"
proof (cases "MediaConnected a \<or> \<not> Enable11D a \<or> ci_CountryCode (CountryInfo a) ! 0 = 0 \<or> unat (ci_Len (CountryInfo a)) \<le> 3")
  case True
  with parse_no_country [OF assms, of 0 zero_parsed] show ?thesis
    by (auto simp: wlan_parse_dnld_countryinfo_11d_def wlan_get_state_11d_def)
next
  case False
  let ?ci = "CountryInfo a"
  have f: "ci_CountryCode ?ci ! 0 \<noteq> 0" "3 < unat (ci_Len ?ci)" using False by simp_all
  have z: "length (pr_chanPwr zero_parsed) = MAX_NO_OF_CHAN" "length (dr_Subband zero_domain_reg) = MRVDRV_MAX_SUBBAND_802_11D"
    by (simp_all add: zero_parsed_def zero_domain_reg_def)
  obtain p where p: "wlan_parse_domain_info_11d ?ci 0 zero_parsed = Some (0, ?ci\<lparr>ci_CountryCode := upper_code (ci_CountryCode ?ci)\<rparr>, p)"
    "length (pr_chanPwr p) = MAX_NO_OF_CHAN" "unat (pr_NoOfChan p) \<le> MAX_NO_OF_CHAN" "chans p = map wchan (ci_channels ?ci)"
    "pr_CountryCode p = upper_code (ci_CountryCode ?ci)"
    using parse_ci [OF assms f z(1), of 0] by (auto simp: MAX_NO_OF_CHAN_def)
  obtain dr where d: "wlan_generate_domain_info_11d p zero_domain_reg = Some dr" "describes (subbands dr) (map wchan (ci_channels ?ci))"
    "length (dr_Subband dr) = MRVDRV_MAX_SUBBAND_802_11D" "dr_CountryCode dr = upper_code (ci_CountryCode ?ci)"
    "unat (dr_NoOfSubband dr) \<le> MAX_NO_OF_CHAN"
    using generate_domain_info_spec [OF p(2,3) z(2)] p(4,5) by auto
  let ?a = "a\<lparr>CountryInfo := ?ci\<lparr>ci_CountryCode := upper_code (ci_CountryCode ?ci)\<rparr>, parsed_region_chan := p, DomainReg := dr\<rparr>"
  have run: "wlan_parse_dnld_countryinfo_11d (Some old, 0) a = wlan_set_domain_info_11d (Some old, 0) ?a"
    if "\<exists>a'. wlan_set_domain_info_11d (Some old, 0) ?a = Some (0, a')"
    using that False p(1) d(1) by (auto simp: wlan_parse_dnld_countryinfo_11d_def wlan_get_state_11d_def Let_def)
  show ?thesis
  proof (cases "ci_channels ?ci = []")
    case True
    then have "subbands dr = []"
      using d(2) by (cases "subbands dr") (auto simp: describes_def expand_def unat_eq_zero)
    then have "dr_NoOfSubband dr = 0" using d(3) by (auto simp: subbands_def unat_eq_zero MRVDRV_MAX_SUBBAND_802_11D_def)
    then have "\<exists>a'. wlan_set_domain_info_11d (Some old, 0) ?a = Some (0, a')"
      by (simp add: wlan_set_domain_info_11d_def wlan_cmd_802_11d_domain_info_def HostCmd_ACT_GET_def HostCmd_ACT_SET_def Let_def)
    with run True show ?thesis by auto
  next
    case ne: False
    then have "map wchan (ci_channels ?ci) \<noteq> []" by simp
    from set_domain_info_spec [of ?a, OF _ this, of old 0] d(2-5)
    obtain cmd where "wlan_set_domain_info_11d (Some old, 0) ?a = Some (0, ?a\<lparr>sent_cmds := sent_cmds ?a @ [cmd]\<rparr>)"
      "describes (c_Subband cmd) (map wchan (ci_channels ?ci))" "c_CountryCode cmd = upper_code (ci_CountryCode ?ci)" by auto
    with run show ?thesis by (auto simp: describes_def)
  qed
qed

theorem country_download_witness:
  "\<exists>a' cmd. wlan_parse_dnld_countryinfo_11d (Some sample_cmd, 0) (sample_adapter []) = Some (0, a') \<and>
    sent_cmds a' = [cmd] \<and> concat (map expand (c_Subband cmd)) = [(1, 20), (2, 20), (13, 10), (14, 10)]"
  using country_download [of "sample_adapter []" sample_cmd] sample_ci_ok
  by (auto simp: sample_adapter_def sample_ci_channels wchan_def)

lemma two_regions:
  "[0..<MAX_REGION_CHANNEL_NUM] = [0, Suc 0]" "zero_region_channels = [zero_region_channel, zero_region_channel]"
  by (simp_all add: MAX_REGION_CHANNEL_NUM_def numeral_2_eq_2 zero_region_channels_def)

lemmas scan_list_simps = wlan_scan_create_channel_list_def two_regions wlan_set_universaltable_def wlan_set_regiontable_def
  zero_region_channel_def mem_get_in wlan_get_state_11d_def Let_def

text \<open>C28. The channel list that the driver makes for a scan respects the regulatory domain: with 802.11d enabled and no connection
  it has channels 1 to 14 once each, all of them passive; with a connection a channel is active only if it is among the
  known channels. This is the list of every scan for which the application gives no channels of its own; the channels
  and scan types of an application are used as they are, whatever 802.11d says (\<open>user_channel\<close> in
  \<^verbatim>\<open>WlanScanCmd.thy\<close>).\<close>

theorem scan_respects_domain:
  assumes "Enable11D a" and "universal_channel a = snd (wlan_set_universaltable b)" and "region_channel a = snd (wlan_set_regiontable region b)"
    and "unat (pr_NoOfChan (parsed_region_chan a)) \<le> length (pr_chanPwr (parsed_region_chan a))"
  shows "\<exists>a' es. wlan_scan_create_channel_list flt a = Some (a', es) \<and>
    (\<not> MediaConnected a \<longrightarrow> map ChanNumber es = map of_nat [1..<15] \<and> (\<forall>e \<in> set es. PassiveScan e)) \<and>
    (\<forall>e \<in> set es. \<not> PassiveScan e \<longrightarrow> ChanNumber e \<in> fst ` set (chans (parsed_region_chan a)))"
proof (cases "MediaConnected a")
  case False
  let ?a = "a\<lparr>parsed_region_chan := zero_parsed\<rparr>"
  have c: "\<forall>k \<in> set [0..<14]. k < length channel_freq_power_UN_BG" by simp
  have z: "chans zero_parsed = []" by (simp add: chans_def zero_parsed_def)
  obtain t es where es: "scan_chans ?a flt channel_freq_power_UN_BG [0..<14] (ScanType a) = Some (t, es)"
    "map ChanNumber es = map (\<lambda>k. of_nat (Channel (channel_freq_power_UN_BG ! k))) [0..<14]" "\<forall>e \<in> set es. PassiveScan e"
    using scan_chans_spec [OF _ _ c, of ?a flt "ScanType a"] assms(1) by (auto simp: zero_parsed_def chans_def)
  have "map (\<lambda>k. of_nat (Channel (channel_freq_power_UN_BG ! k))) [0..<14] = (map of_nat [1..<15] :: u8 list)"
    by (rule nth_equalityI) (simp_all add: Channel_UN_BG nth_upt)
  with False es assms(1,2) show ?thesis
    by (simp add: scan_list_simps)
next
  case True
  show ?thesis
  proof (cases "wlan_get_region_cfp_table region b")
    case None
    with True assms(1,3) show ?thesis by (simp add: scan_list_simps)
  next
    case (Some tab)
    have "length tab \<le> 13" using region_tables [OF region_cfp_SomeD [OF Some]] by blast
    then have u: "unat (of_nat (length tab) :: u8) = length tab" by (simp add: unat_of_nat)
    have c: "\<forall>k \<in> set [0..<length tab]. k < length tab" by simp
    obtain t es where "scan_chans a flt tab [0..<length tab] (ScanType a) = Some (t, es)"
      "\<forall>e \<in> set es. PassiveScan e \<longleftrightarrow> ChanNumber e \<notin> fst ` set (chans (parsed_region_chan a))"
      using scan_chans_spec [OF assms(1,4) c, of flt "ScanType a"] by blast
    with True Some assms(1,3) u show ?thesis by (simp add: scan_list_simps)
  qed
qed

theorem scan_respects_domain_witness:
  "\<exists>a' es. wlan_scan_create_channel_list False (sample_adapter (snd (wlan_set_regiontable 0x30 0))) = Some (a', es) \<and>
    map ChanNumber es = map of_nat [1..<15] \<and> (\<forall>e \<in> set es. PassiveScan e)"
  using scan_respects_domain [of "sample_adapter (snd (wlan_set_regiontable 0x30 0))" 0 "0x30" False]
  by (auto simp: sample_adapter_def sample_parsed_def zero_parsed_def)

text \<open>The code of one Japanese region is not recovered from its country code.\<close>

lemma region_41_reads_40: "fst (wlan_region_2_code (wlan_code_2_region 0x41)) = 0x40"
  by (simp add: wlan_code_2_region_def region_code_mapping_def wlan_region_2_code_def toupper_def islower_def)

end
