(* ===== verification/WlanWmm.thy ===== *)
theory WlanWmm
  imports Prelude "HOL-Library.Multiset"
begin

text \<open>
  The transmit queues of the wireless driver, \<^verbatim>\<open>wlan_wmm.c\<close>: one queue for each of
  the four access categories, the order in which they are served, the downgrading of categories
  that need admission, the flow control towards the network stack, and the firmware's report on
  the state of the queues. The state is the part of the adapter that these functions use.
\<close>

section \<open>State\<close>

definition MAX_AC_QUEUES :: nat where "MAX_AC_QUEUES = 4"

abbreviation (input) WMM_AC_BK :: nat where "WMM_AC_BK \<equiv> 0"
abbreviation (input) WMM_AC_BE :: nat where "WMM_AC_BE \<equiv> Suc 0"
abbreviation (input) WMM_AC_VI :: nat where "WMM_AC_VI \<equiv> 2"
abbreviation (input) WMM_AC_VO :: nat where "WMM_AC_VO \<equiv> 3"

definition WMM_QUEUED_PACKET_LOWER_LIMIT :: u8 where "WMM_QUEUED_PACKET_LOWER_LIMIT = 40"
definition WMM_QUEUED_PACKET_UPPER_LIMIT :: u8 where "WMM_QUEUED_PACKET_UPPER_LIMIT = 50"

text \<open>A packet: the type field of its Ethernet header in host order, the TOS byte of its IP header,
  its bytes and the priority that the driver gives it.\<close>

record skb =
  sk_proto :: u16
  sk_tos :: u8
  sk_data :: "u8 list"
  sk_priority :: u8

record WmmAcStatus =
  Disabled :: u8
  FlowRequired :: u8
  FlowCreated :: u8

record WMM_DESC =
  required :: bool
  enabled :: bool
  packetsQueued :: u8
  queueStopped :: bool
  packetsOut :: "u32 list"
  userPriPktTxCtrl :: "u32 list"
  txSkbQ :: "skb list list"
  acStatus :: "WmmAcStatus list"
  acDowngradedVals :: "nat list"
  queuePriority :: "nat list"
  qosinfo :: u8

datatype ps_state = PS_STATE_FULL_POWER | PS_STATE_AWAKE | PS_STATE_PRE_SLEEP | PS_STATE_SLEEP

text \<open>The parameters of an access category in the WMM element, as its four-bit fields.\<close>

record WmmAcParameters =
  Aifsn :: nat
  Acm :: bool
  EcwMin :: nat
  EcwMax :: nat

record wlan =
  wmm :: WMM_DESC
  CurrentTxSkb :: "skb option"
  dnld_sent :: bool
  PSState :: ps_state
  netif_stopped :: bool
  carrier :: bool
  link_up :: bool
  wmmIE :: "u8 list"
  gen_null_pkg :: bool
  tx_packets :: nat
  tx_bytes :: nat
  tx_dropped :: nat
  tx_errors :: nat

section \<open>The network stack\<close>

text \<open>\<open>link_up\<close> is the condition that \<open>os_carrier_on\<close> and \<open>os_start_queue\<close> of
  \<^verbatim>\<open>os_macros.h\<close> share: connected, and in an ad-hoc network another station was seen.\<close>

definition os_carrier_on :: "wlan \<Rightarrow> wlan" where
  "os_carrier_on s = (if \<not> carrier s \<and> link_up s then s\<lparr>carrier := True\<rparr> else s)"

definition os_start_queue :: "wlan \<Rightarrow> wlan" where
  "os_start_queue s = (if netif_stopped s \<and> link_up s then s\<lparr>netif_stopped := False\<rparr> else s)"

definition os_stop_queue :: "wlan \<Rightarrow> wlan" where
  "os_stop_queue s = (if \<not> netif_stopped s then s\<lparr>netif_stopped := True\<rparr> else s)"

definition os_free_tx_packet :: "wlan \<Rightarrow> wlan" where
  "os_free_tx_packet s = (case CurrentTxSkb s of None \<Rightarrow> s | Some _ \<Rightarrow> s\<lparr>CurrentTxSkb := None\<rparr>)"

section \<open>Queue priorities\<close>

definition wmm_upd :: "(WMM_DESC \<Rightarrow> WMM_DESC) \<Rightarrow> wlan \<Rightarrow> wlan" where
  "wmm_upd f s = s\<lparr>wmm := f (wmm s)\<rparr>"

definition wmm_default_queue_priorities :: "wlan \<Rightarrow> wlan" where
  "wmm_default_queue_priorities =
     wmm_upd (\<lambda>w. w\<lparr>queuePriority := [WMM_AC_VO, WMM_AC_VI, WMM_AC_BE, WMM_AC_BK]\<rparr>)"

definition acOrder :: "nat list" where
  "acOrder = [WMM_AC_BE, WMM_AC_BK, WMM_AC_VI, WMM_AC_VO]"

text \<open>The parameters of the \<open>i\<close>-th record of the element, whose records start at byte 10: the low four
  bits of the first byte, bit 4, and the two halves of the second byte.\<close>

definition ac_param :: "u8 list \<Rightarrow> nat \<Rightarrow> WmmAcParameters" where
  "ac_param ie i =
     (let a = unat (ie ! (10 + 4 * i)); e = unat (ie ! (11 + 4 * i)) in
      \<lparr>Aifsn = a mod 16, Acm = (a div 16 mod 2 = 1), EcwMin = e mod 16, EcwMax = e div 16\<rparr>)"

definition avg_back_off :: "WmmAcParameters \<Rightarrow> nat" where
  "avg_back_off p = (2 ^ EcwMin p - 1) div 2 + Aifsn p"

definition swap_at :: "nat \<Rightarrow> 'a list \<Rightarrow> 'a list" where
  "swap_at j xs = xs[j - 1 := xs ! j, j := xs ! (j - 1)]"

text \<open>One comparison of the bubble sort on the arrays \<open>tmp\<close> and \<open>queuePriority\<close>.\<close>

definition sort_step :: "nat \<Rightarrow> nat list \<times> nat list \<Rightarrow> nat list \<times> nat list" where
  "sort_step j = (\<lambda>(tmp, prio).
     if tmp ! (j - 1) > tmp ! j then (swap_at j tmp, swap_at j prio)
     else if tmp ! (j - 1) = tmp ! j then
       (if prio ! (j - 1) < prio ! j then (tmp, swap_at j prio) else (tmp, prio))
     else (tmp, prio))"

definition bubble_sort :: "nat \<Rightarrow> nat list \<times> nat list \<Rightarrow> nat list \<times> nat list" where
  "bubble_sort numAc st = fold (\<lambda>i. fold sort_step [1..<numAc - i]) [0..<numAc] st"

definition wmm_setup_queue_priorities :: "wlan \<Rightarrow> wlan" where
  "wmm_setup_queue_priorities s =
     (if \<not> enabled (wmm s) then wmm_default_queue_priorities s
      else
        let tmp = map (\<lambda>i. avg_back_off (ac_param (wmmIE s) i)) [0..<4]
        in wmm_upd (\<lambda>w. w\<lparr>queuePriority := snd (bubble_sort 4 (tmp, acOrder))\<rparr>) s)"

section \<open>Downgrading\<close>

fun downgrade_loop :: "WmmAcStatus list \<Rightarrow> nat list \<Rightarrow> nat \<Rightarrow> nat" where
  "downgrade_loop st [] retAC = retAC"
| "downgrade_loop st (downAC # acs) retAC =
     downgrade_loop st acs
       (if Disabled (st ! downAC) = 0 \<and> FlowRequired (st ! downAC) = 0 then downAC else retAC)"

definition wmm_eval_downgrade_ac :: "WmmAcStatus list \<Rightarrow> nat \<Rightarrow> nat" where
  "wmm_eval_downgrade_ac st evalAC =
     (if Disabled (st ! evalAC) = 0 then evalAC else downgrade_loop st [WMM_AC_BK..<evalAC] WMM_AC_BK)"

definition wmm_setup_ac_downgrade :: "wlan \<Rightarrow> wlan" where
  "wmm_setup_ac_downgrade s =
     (if \<not> enabled (wmm s) then wmm_upd (\<lambda>w. w\<lparr>acDowngradedVals := [0..<4]\<rparr>) s
      else wmm_upd (\<lambda>w. w\<lparr>acDowngradedVals := map (wmm_eval_downgrade_ac (acStatus w)) [0..<4]\<rparr>) s)"

definition wmm_setup_queues :: "wlan \<Rightarrow> wlan" where
  "wmm_setup_queues s = wmm_setup_ac_downgrade (wmm_setup_queue_priorities s)"

section \<open>Mapping packets to categories\<close>

definition tos_to_ac :: "nat list" where
  "tos_to_ac = [WMM_AC_BE, WMM_AC_BK, WMM_AC_BK, WMM_AC_BE, WMM_AC_VI, WMM_AC_VI, WMM_AC_VO, WMM_AC_VO]"

definition wmm_convert_tos_to_ac :: "u8 \<Rightarrow> nat" where
  "wmm_convert_tos_to_ac tos =
     (let tosIdx = unat (drop_bit 5 tos) in
      if tosIdx \<ge> length tos_to_ac then WMM_AC_BE else tos_to_ac ! tosIdx)"

definition wmm_tos_to_priority :: "u8 \<Rightarrow> u8" where
  "wmm_tos_to_priority tos =
     (let tosIdx = unat (drop_bit 5 tos) in if tosIdx \<ge> 8 then 1 else [0, 1, 2, 3, 4, 5, 6, 7] ! tosIdx)"

definition wmm_downgrade_ac :: "wlan \<Rightarrow> nat \<Rightarrow> nat" where
  "wmm_downgrade_ac s ac = acDowngradedVals (wmm s) ! ac"

section \<open>Flow control\<close>

definition wmm_process_fw_iface_tx_xfer_start :: "wlan \<Rightarrow> wlan" where
  "wmm_process_fw_iface_tx_xfer_start s =
     (let s = wmm_upd (\<lambda>w. w\<lparr>packetsQueued := packetsQueued w - 1\<rparr>) s in
      if packetsQueued (wmm s) < WMM_QUEUED_PACKET_LOWER_LIMIT then os_start_queue s else s)"

definition wmm_process_fw_iface_tx_xfer_end :: "wlan \<Rightarrow> wlan" where
  "wmm_process_fw_iface_tx_xfer_end s = (if packetsQueued (wmm s) \<noteq> 0 then os_stop_queue s else s)"

definition wmm_process_app_iface_tx :: "wlan \<Rightarrow> wlan" where
  "wmm_process_app_iface_tx s =
     (let s = wmm_upd (\<lambda>w. w\<lparr>packetsQueued := packetsQueued w + 1\<rparr>) s in
      if (\<not> dnld_sent s \<and> PSState s \<noteq> PS_STATE_SLEEP) \<or> packetsQueued (wmm s) \<ge> WMM_QUEUED_PACKET_UPPER_LIMIT
      then os_stop_queue s else s)"

definition wmm_stop_queue :: "wlan \<Rightarrow> wlan" where
  "wmm_stop_queue = wmm_upd (\<lambda>w. w\<lparr>queueStopped := True\<rparr>)"

text \<open>\<open>wmm_start_queue\<close> also wakes the main thread, which is no change of this state.\<close>

definition wmm_start_queue :: "wlan \<Rightarrow> wlan" where
  "wmm_start_queue s = os_start_queue (os_carrier_on (wmm_upd (\<lambda>w. w\<lparr>queueStopped := False\<rparr>) s))"

definition wmm_is_queue_stopped :: "wlan \<Rightarrow> bool" where
  "wmm_is_queue_stopped s = queueStopped (wmm s)"

section \<open>Queues\<close>

definition zero_wmm :: WMM_DESC where
  "zero_wmm = \<lparr>required = False, enabled = False, packetsQueued = 0, queueStopped = False,
     packetsOut = replicate 4 0, userPriPktTxCtrl = replicate 8 0, txSkbQ = replicate 4 [],
     acStatus = replicate 4 \<lparr>Disabled = 0, FlowRequired = 0, FlowCreated = 0\<rparr>,
     acDowngradedVals = replicate 4 0, queuePriority = replicate 4 0, qosinfo = 0\<rparr>"

definition wmm_init :: "wlan \<Rightarrow> wlan" where
  "wmm_init s = s\<lparr>wmm := zero_wmm, gen_null_pkg := True\<rparr>"

definition wmm_lists_empty :: "wlan \<Rightarrow> bool" where
  "wmm_lists_empty s = list_all (\<lambda>q. q = []) (txSkbQ (wmm s))"

definition wmm_cleanup_queues :: "wlan \<Rightarrow> wlan" where
  "wmm_cleanup_queues = wmm_upd (\<lambda>w. w\<lparr>txSkbQ := map (\<lambda>_. []) (txSkbQ w), packetsQueued := 0\<rparr>)"

definition ETH_P_IP :: u16 where "ETH_P_IP = 0x0800"

definition wmm_map_and_add_skb :: "skb \<Rightarrow> wlan \<Rightarrow> wlan" where
  "wmm_map_and_add_skb skb s =
     (let tos = (if sk_proto skb = ETH_P_IP then sk_tos skb AND 0xE0 else 0);
          ac = wmm_convert_tos_to_ac tos;
          ac_down = wmm_downgrade_ac s ac;
          skb = skb\<lparr>sk_priority := wmm_tos_to_priority tos\<rparr>;
          s = wmm_upd (\<lambda>w. w\<lparr>txSkbQ := (txSkbQ w)[ac_down := txSkbQ w ! ac_down @ [skb]]\<rparr>) s
      in wmm_process_app_iface_tx s)"

text \<open>The loop over the categories stops at the first queue that is not empty.\<close>

fun first_queue :: "skb list list \<Rightarrow> nat list \<Rightarrow> nat option" where
  "first_queue qs [] = None"
| "first_queue qs (ac # acs) = (if qs ! ac \<noteq> [] then Some ac else first_queue qs acs)"

definition wmm_pop_highest_prio_skb :: "wlan \<Rightarrow> wlan" where
  "wmm_pop_highest_prio_skb s =
     (case first_queue (txSkbQ (wmm s)) (queuePriority (wmm s)) of
        None \<Rightarrow> s
      | Some ac \<Rightarrow>
          (wmm_upd (\<lambda>w. w\<lparr>packetsOut := (packetsOut w)[ac := packetsOut w ! ac + 1],
             txSkbQ := (txSkbQ w)[ac := tl (txSkbQ w ! ac)]\<rparr>) s)
            \<lparr>CurrentTxSkb := Some (hd (txSkbQ (wmm s) ! ac))\<rparr>)"

section \<open>Requests of the user\<close>

text \<open>\<open>wlan_wmm_enable_ioctl\<close>: the result has the value written back to the caller.\<close>

definition wlan_wmm_enable_ioctl :: "int \<Rightarrow> wlan \<Rightarrow> bool \<Rightarrow> int \<times> int option \<times> wlan" where
  "wlan_wmm_enable_ioctl data s connected =
     (if data = 0 then
        (if connected then (- 1, None, s)
         else
           let s = wmm_upd (\<lambda>w. w\<lparr>required := False\<rparr>) s in
           if \<not> enabled (wmm s) then (0, Some data, s)
           else
             let s = wmm_upd (\<lambda>w. w\<lparr>enabled := False\<rparr>) s;
                 s = (case CurrentTxSkb s of None \<Rightarrow> s | Some _ \<Rightarrow> s\<lparr>CurrentTxSkb := None, tx_dropped := tx_dropped s + 1\<rparr>)
             in (0, Some (if required (wmm s) then 1 else 0), s))
      else if data = 1 then
        (if connected then (- 1, None, s)
         else let s = wmm_upd (\<lambda>w. w\<lparr>required := True\<rparr>) s in (0, Some (if required (wmm s) then 1 else 0), s))
      else if data = 2 then (0, Some (if required (wmm s) then 1 else 0), s)
      else (- 22, None, s))"

text \<open>\<open>wlan_wmm_queue_status_ioctl\<close>: for each category, the admission bit of the record that the code
  reads and the status from the firmware.\<close>

definition wlan_wmm_queue_status_ioctl :: "wlan \<Rightarrow> (bool \<times> u8 \<times> u8 \<times> u8) list" where
  "wlan_wmm_queue_status_ioctl s =
     map (\<lambda>ac. let st = acStatus (wmm s) ! ac in
        (Acm (ac_param (wmmIE s) ac), FlowRequired st, FlowCreated st, Disabled st)) [0..<4]"

section \<open>Delay of a packet\<close>

definition DRV_PKT_DELAY_TO_FW_LIMIT :: int where "DRV_PKT_DELAY_TO_FW_LIMIT = 0"

text \<open>C division truncates towards zero; the shift of a negative number rounds down.\<close>

definition c_div :: "int \<Rightarrow> int \<Rightarrow> int" where
  "c_div a b = sgn a * sgn b * (\<bar>a\<bar> div \<bar>b\<bar>)"

text \<open>Differences that exceed 32 bits (24 days in a queue) are outside this model.\<close>

definition timeval_diff_in_ms :: "int \<times> int \<Rightarrow> int \<times> int \<Rightarrow> int" where
  "timeval_diff_in_ms = (\<lambda>(sec1, usec1) (sec2, usec2). (sec1 - sec2) * 1000 + c_div (usec1 - usec2) 1000)"

definition wmm_compute_driver_packet_delay :: "int \<times> int \<Rightarrow> int \<times> int \<Rightarrow> u8" where
  "wmm_compute_driver_packet_delay in_tv out_tv =
     of_int (min (timeval_diff_in_ms out_tv in_tv) DRV_PKT_DELAY_TO_FW_LIMIT div 2)"

section \<open>Bubble sort\<close>

text \<open>One comparison and one pass, on a single list and for any total and transitive order.\<close>

definition bstep :: "('a \<Rightarrow> 'a \<Rightarrow> bool) \<Rightarrow> nat \<Rightarrow> 'a list \<Rightarrow> 'a list" where
  "bstep R j xs = (if R (xs ! (j - 1)) (xs ! j) then xs else swap_at j xs)"

locale sort_order =
  fixes R :: "'a \<Rightarrow> 'a \<Rightarrow> bool"
  assumes R_total: "R x y \<or> R y x" and R_trans: "R x y \<Longrightarrow> R y z \<Longrightarrow> R x z"
begin

lemma R_refl: "R x x"
  using R_total by blast

lemma length_bstep: "length (bstep R j xs) = length xs"
  by (simp add: bstep_def swap_at_def)

lemma mset_bstep: "0 < j \<Longrightarrow> j < length xs \<Longrightarrow> mset (bstep R j xs) = mset xs"
  by (simp add: bstep_def swap_at_def mset_swap)

lemma nth_bstep_other: "i \<noteq> j \<Longrightarrow> i \<noteq> j - 1 \<Longrightarrow> bstep R j xs ! i = xs ! i"
  by (simp add: bstep_def swap_at_def)

lemma pass_spec:
  assumes "m < length xs" and "ys = fold (bstep R) [1..<Suc m] xs"
  shows "length ys = length xs \<and> mset ys = mset xs \<and> (\<forall>i \<le> m. R (ys ! i) (ys ! m)) \<and> drop (Suc m) ys = drop (Suc m) xs"
  using assms
proof (induction m arbitrary: ys)
  case 0
  then show ?case by (simp add: R_refl)
next
  case (Suc m)
  let ?zs = "fold (bstep R) [1..<Suc m] xs"
  have z: "length ?zs = length xs" "mset ?zs = mset xs" "\<forall>i \<le> m. R (?zs ! i) (?zs ! m)" "drop (Suc m) ?zs = drop (Suc m) xs"
    using Suc.IH [OF _ refl] Suc.prems(1) by auto
  have y: "ys = bstep R (Suc m) ?zs" using Suc.prems(2) by simp
  have len: "Suc m < length ?zs" using z(1) Suc.prems(1) by simp
  have "R (ys ! i) (ys ! Suc m)" if "i \<le> Suc m" for i
  proof (cases "R (?zs ! m) (?zs ! Suc m)")
    case True
    then have e: "ys = ?zs" by (simp add: y bstep_def)
    show ?thesis
    proof (cases "i = Suc m")
      case False
      then have "R (?zs ! i) (?zs ! m)" using that z(3) by simp
      then show ?thesis unfolding e using True by (rule R_trans)
    qed (simp add: R_refl)
  next
    case False
    then have "R (?zs ! Suc m) (?zs ! m)" using R_total by blast
    have "ys = swap_at (Suc m) ?zs" using False by (simp add: y bstep_def)
    then have v: "ys ! Suc m = ?zs ! m" "ys ! m = ?zs ! Suc m" "\<And>i. i < m \<Longrightarrow> ys ! i = ?zs ! i"
      using len by (simp_all add: swap_at_def)
    from that consider "i = Suc m" | "i = m" | "i < m" by linarith
    then show ?thesis
      using v R_refl z(3) \<open>R (?zs ! Suc m) (?zs ! m)\<close> by cases (metis, metis, metis less_imp_le)
  qed
  moreover have "drop (Suc (Suc m)) ys = drop (Suc (Suc m)) xs"
  proof -
    have "drop (Suc (Suc m)) ys = drop (Suc (Suc m)) ?zs" unfolding y bstep_def swap_at_def by simp
    also have "\<dots> = drop (Suc 0) (drop (Suc m) ?zs)" by (simp del: upt_Suc)
    also have "\<dots> = drop (Suc 0) (drop (Suc m) xs)" by (simp only: z(4))
    finally show ?thesis by simp
  qed
  ultimately show ?case using z len by (simp add: y length_bstep mset_bstep)
qed

lemma sort_passes:
  assumes "k \<le> length xs" and "n = length xs" and "ys = fold (\<lambda>i. fold (bstep R) [1..<n - i]) [0..<k] xs"
  shows "length ys = n \<and> mset ys = mset xs \<and> (\<forall>a b. a \<le> b \<longrightarrow> n - k \<le> b \<longrightarrow> b < n \<longrightarrow> R (ys ! a) (ys ! b))"
  using assms
proof (induction k arbitrary: ys)
  case (Suc k)
  let ?zs = "fold (\<lambda>i. fold (bstep R) [1..<n - i]) [0..<k] xs" and ?m = "n - k - 1"
  have z: "length ?zs = n" "mset ?zs = mset xs" "\<And>a b. a \<le> b \<Longrightarrow> n - k \<le> b \<Longrightarrow> b < n \<Longrightarrow> R (?zs ! a) (?zs ! b)"
    using Suc.IH [OF _ Suc.prems(2) refl] Suc.prems(1) by auto
  have y: "ys = fold (bstep R) [1..<Suc ?m] ?zs" using Suc.prems by (simp add: Suc_diff_Suc)
  have m: "?m < length ?zs" "Suc ?m = n - k" using z(1) Suc.prems by auto
  from pass_spec [OF m(1) y] have
    p: "length ys = n" "mset ys = mset xs" "\<And>i. i \<le> ?m \<Longrightarrow> R (ys ! i) (ys ! ?m)" "drop (n - k) ys = drop (n - k) ?zs"
    using z(1,2) m(2) by auto
  have same: "ys ! b = ?zs ! b" if "n - k \<le> b" "b < n" for b
    using arg_cong [OF p(4), of "\<lambda>xs. xs ! (b - (n - k))"] that p(1) z(1) by simp
  have front: "set (take (n - k) ys) = set (take (n - k) ?zs)"
  proof -
    have "mset (take (n - k) ys) + mset (drop (n - k) ys) = mset (take (n - k) ?zs) + mset (drop (n - k) ?zs)"
      using p(2) z(2) by (metis append_take_drop_id mset_append)
    with p(4) show ?thesis by (metis add_right_cancel set_mset_mset)
  qed
  have "R (ys ! a) (ys ! b)" if "a \<le> b" "n - Suc k \<le> b" "b < n" for a b
  proof (cases "b = ?m")
    case True
    with p(3) that show ?thesis by simp
  next
    case False
    then have b: "n - k \<le> b" using that by simp
    show ?thesis
    proof (cases "a < n - k")
      case True
      then have "ys ! a \<in> set (take (n - k) ?zs)" using p(1) nth_mem_take [of a "n - k" ys] front by simp
      then obtain a' where "a' < n - k" "ys ! a = ?zs ! a'" by (auto simp: in_set_conv_nth)
      with z(3) [of a' b] same [OF b that(3)] b that(3) show ?thesis by simp
    next
      case False
      with z(3) [of a b] same [of a] same [OF b that(3)] that b show ?thesis by simp
    qed
  qed
  with p show ?case by simp
qed simp

lemma bubble_sorts:
  assumes "ys = fold (\<lambda>i. fold (bstep R) [1..<length xs - i]) [0..<length xs] xs"
  shows "sorted_wrt R ys \<and> mset ys = mset xs"
  using sort_passes [OF order_refl refl assms] by (auto simp: sorted_wrt_iff_nth_less)

end

text \<open>The order of the queues: shorter mean back-off first, and of equal ones the higher category.\<close>

definition before :: "nat \<times> nat \<Rightarrow> nat \<times> nat \<Rightarrow> bool" where
  "before = (\<lambda>(a, p) (b, q). a < b \<or> a = b \<and> q \<le> p)"

interpretation ac_order: sort_order before
  by unfold_locales (auto simp: before_def)

lemma zip_swap_at: "zip (swap_at j xs) (swap_at j ys) = swap_at j (zip xs ys)" if "length xs = length ys" "j < length xs"
  using that by (simp add: swap_at_def zip_update [symmetric])

lemma swap_at_same: "xs ! (j - 1) = xs ! j \<Longrightarrow> swap_at j xs = xs"
  by (simp add: swap_at_def) (metis list_update_id)

lemma length_swap_at [simp]: "length (swap_at j xs) = length xs"
  by (simp add: swap_at_def)

lemma zip_sort_step:
  assumes "length tmp = length prio" and "j < length tmp"
  shows "length (fst (sort_step j (tmp, prio))) = length tmp \<and> length (snd (sort_step j (tmp, prio))) = length tmp \<and>
    zip (fst (sort_step j (tmp, prio))) (snd (sort_step j (tmp, prio))) = bstep before j (zip tmp prio)"
proof (cases "tmp ! (j - 1) = tmp ! j")
  case True
  have "zip tmp (swap_at j prio) = swap_at j (zip tmp prio)"
    using zip_swap_at [OF assms] swap_at_same [OF True] by simp
  with True assms show ?thesis by (simp add: sort_step_def bstep_def before_def)
next
  case False
  with assms show ?thesis by (simp add: sort_step_def bstep_def before_def zip_swap_at)
qed

lemma zip_sort_steps:
  assumes "length (fst st) = n" and "length (snd st) = n" and "\<forall>j \<in> set js. j < n"
  shows "length (fst (fold sort_step js st)) = n \<and> length (snd (fold sort_step js st)) = n \<and>
    zip (fst (fold sort_step js st)) (snd (fold sort_step js st)) = fold (bstep before) js (zip (fst st) (snd st))"
  using assms
proof (induction js arbitrary: st)
  case (Cons j js)
  have "length (fst st) = length (snd st)" "j < length (fst st)" using Cons.prems by simp_all
  from zip_sort_step [OF this] Cons.IH [of "sort_step j st"] Cons.prems show ?case by simp
qed simp

lemma zip_bubble_sort_aux:
  assumes "length (fst st) = n" and "length (snd st) = n" and "st' = fold (\<lambda>i. fold sort_step [1..<n - i]) is st"
  shows "length (fst st') = n \<and> length (snd st') = n \<and>
    zip (fst st') (snd st') = fold (\<lambda>i. fold (bstep before) [1..<n - i]) is (zip (fst st) (snd st))"
  using assms
proof (induction "is" arbitrary: st)
  case (Cons i "is")
  have "\<forall>j \<in> set [1..<n - i]. j < n" by auto
  from zip_sort_steps [OF Cons.prems(1,2) this] Cons.IH [of "fold sort_step [1..<n - i] st"] Cons.prems show ?case by simp
qed simp

lemma bubble_sort_spec:
  assumes "length tmp = n" and "length prio = n" and "bubble_sort n (tmp, prio) = (tmp', prio')"
  shows "length prio' = n \<and> sorted_wrt before (zip tmp' prio') \<and> mset (zip tmp' prio') = mset (zip tmp prio) \<and> mset prio' = mset prio"
proof -
  have z: "length tmp' = n" "length prio' = n"
    "zip tmp' prio' = fold (\<lambda>i. fold (bstep before) [1..<n - i]) [0..<n] (zip tmp prio)"
    using zip_bubble_sort_aux [of "(tmp, prio)" n "(tmp', prio')" "[0..<n]"] assms by (simp_all add: bubble_sort_def)
  have s: "sorted_wrt before (zip tmp' prio') \<and> mset (zip tmp' prio') = mset (zip tmp prio)"
    using ac_order.bubble_sorts [of "zip tmp' prio'" "zip tmp prio"] z(3) assms(1,2) by simp
  have "mset prio' = image_mset snd (mset (zip tmp' prio'))" using z(1,2) by (metis map_snd_zip mset_map)
  also have "\<dots> = mset prio" using s assms(1,2) by (metis map_snd_zip mset_map)
  finally show ?thesis using s z(2) by blast
qed

section \<open>The order of the queues\<close>

text \<open>The record of a category in the element: best effort comes before background there.\<close>

definition ac_record :: "nat \<Rightarrow> nat" where
  "ac_record ac = (if ac = WMM_AC_BE then 0 else if ac = WMM_AC_BK then 1 else ac)"

definition back_off :: "u8 list \<Rightarrow> nat \<Rightarrow> nat" where
  "back_off ie ac = avg_back_off (ac_param ie (ac_record ac))"

lemma acOrder_records: "zip (map (\<lambda>i. avg_back_off (ac_param ie i)) [0..<4]) acOrder = map (\<lambda>ac. (back_off ie ac, ac)) acOrder"
  by (simp add: acOrder_def back_off_def ac_record_def upt_rec numeral_2_eq_2 numeral_3_eq_3)

lemma setup_priorities_enabled:
  assumes "enabled (wmm s)" and "q = queuePriority (wmm (wmm_setup_queue_priorities s))"
  shows "mset q = {#0, 1, 2, 3#} \<and>
    sorted_wrt (\<lambda>a b. back_off (wmmIE s) a < back_off (wmmIE s) b \<or> back_off (wmmIE s) a = back_off (wmmIE s) b \<and> b \<le> a) q"
proof -
  let ?tmp = "map (\<lambda>i. avg_back_off (ac_param (wmmIE s) i)) [0..<4]"
  let ?f = "\<lambda>ac. (back_off (wmmIE s) ac, ac)"
  obtain tmp' where b: "bubble_sort 4 (?tmp, acOrder) = (tmp', q)"
    using assms by (simp add: wmm_setup_queue_priorities_def wmm_upd_def Let_def prod_eq_iff)
  have l: "length ?tmp = 4" "length acOrder = 4" by (simp_all add: acOrder_def)
  from bubble_sort_spec [OF l b] have s: "length q = 4" "sorted_wrt before (zip tmp' q)"
    "mset (zip tmp' q) = mset (map ?f acOrder)" "mset q = mset acOrder" using acOrder_records by auto
  have "length tmp' = 4"
    using zip_bubble_sort_aux [of "(?tmp, acOrder)" 4 "(tmp', q)" "[0..<4]"] l b by (simp add: bubble_sort_def)
  have "zip tmp' q = map ?f q"
  proof (rule nth_equalityI)
    fix i assume i: "i < length (zip tmp' q)"
    then have "zip tmp' q ! i \<in> set (map ?f acOrder)" using s(3) by (metis nth_mem set_mset_mset)
    with i show "zip tmp' q ! i = map ?f q ! i" by auto
  qed (use s(1) \<open>length tmp' = 4\<close> in simp)
  with s(2) have "sorted_wrt before (map ?f q)" by simp
  then have "sorted_wrt (\<lambda>a b. before (?f a) (?f b)) q" by (simp add: sorted_wrt_map)
  moreover have "mset acOrder = {#0, 1, 2, 3#}" by (simp add: acOrder_def)
  ultimately show ?thesis using s(4) by (simp add: before_def)
qed

lemma setup_priorities_set:
  "length (queuePriority (wmm (wmm_setup_queue_priorities s))) = 4 \<and>
   set (queuePriority (wmm (wmm_setup_queue_priorities s))) = {0..<4}"
proof (cases "enabled (wmm s)")
  case True
  from setup_priorities_enabled [OF this refl] have m: "mset (queuePriority (wmm (wmm_setup_queue_priorities s))) = {#0, 1, 2, 3#}"
    by blast
  have "{0..<4} = {0, 1, 2, 3 :: nat}" by auto
  with arg_cong [OF m, of set_mset] arg_cong [OF m, of size] show ?thesis by simp
next
  case False
  have "{0..<4} = {3, 2, 1, 0 :: nat}" by auto
  with False show ?thesis
    by (simp add: wmm_setup_queue_priorities_def wmm_default_queue_priorities_def wmm_upd_def)
qed

section \<open>Downgrading\<close>

definition usable :: "WmmAcStatus list \<Rightarrow> nat \<Rightarrow> bool" where
  "usable st ac \<longleftrightarrow> Disabled (st ! ac) = 0 \<and> FlowRequired (st ! ac) = 0"

lemma downgrade_loop_snoc:
  "downgrade_loop st (acs @ [d]) r = (if usable st d then d else downgrade_loop st acs r)"
  by (induction acs arbitrary: r) (simp_all add: usable_def)

lemma downgrade_loop_upt:
  "downgrade_loop st [0..<n] r = (if \<exists>d < n. usable st d then Max {d. d < n \<and> usable st d} else r)"
proof (induction n)
  case (Suc n)
  show ?case
  proof (cases "usable st n")
    case True
    then have "Max {d. d < Suc n \<and> usable st d} = n" by (intro Max_eqI) auto
    with True show ?thesis by (auto simp: downgrade_loop_snoc)
  next
    case False
    then have "{d. d < Suc n \<and> usable st d} = {d. d < n \<and> usable st d}" by (auto simp: less_Suc_eq)
    with False Suc show ?thesis by (auto simp: downgrade_loop_snoc less_Suc_eq)
  qed
qed simp

text \<open>The specification: an enabled category keeps its traffic; otherwise it goes to the highest lower
  category that is enabled and open to all, and to background if there is none.\<close>

definition downgrade_spec :: "WmmAcStatus list \<Rightarrow> nat \<Rightarrow> nat" where
  "downgrade_spec st ac =
     (if Disabled (st ! ac) = 0 then ac
      else if \<exists>d < ac. usable st d then Max {d. d < ac \<and> usable st d} else WMM_AC_BK)"

lemma eval_downgrade_eq: "wmm_eval_downgrade_ac st ac = downgrade_spec st ac"
  by (auto simp: wmm_eval_downgrade_ac_def downgrade_spec_def downgrade_loop_upt)

lemma downgrade_spec_le: "downgrade_spec st ac \<le> ac"
proof -
  have "Max {d. d < ac \<and> usable st d} \<le> ac" if "\<exists>d < ac. usable st d"
    using that Max_in [of "{d. d < ac \<and> usable st d}"] by auto
  then show ?thesis by (simp add: downgrade_spec_def)
qed

section \<open>The invariant\<close>

text \<open>Arrays have their sizes, every category a packet can be mapped to is served, and so is every queue
  that holds a packet.\<close>

definition wmm_ok :: "wlan \<Rightarrow> bool" where
  "wmm_ok s \<longleftrightarrow> (let w = wmm s in
     length (txSkbQ w) = 4 \<and> length (packetsOut w) = 4 \<and> length (acStatus w) = 4 \<and> length (acDowngradedVals w) = 4 \<and>
     length (userPriPktTxCtrl w) = 8 \<and>
     length (queuePriority w) = 4 \<and> set (queuePriority w) \<subseteq> {0..<4} \<and>
     set (acDowngradedVals w) \<subseteq> set (queuePriority w) \<and>
     (\<forall>ac < 4. txSkbQ w ! ac \<noteq> [] \<longrightarrow> ac \<in> set (queuePriority w)))"

lemma init_ok: "wmm_ok (wmm_init s)"
  by (simp add: wmm_ok_def wmm_init_def zero_wmm_def)

lemma wmm_ok_cong: "wmm s' = wmm s \<Longrightarrow> wmm_ok s' = wmm_ok s"
  by (simp add: wmm_ok_def)

lemma wmm_os [simp]:
  "wmm (os_carrier_on s) = wmm s" "wmm (os_start_queue s) = wmm s" "wmm (os_stop_queue s) = wmm s" "wmm (os_free_tx_packet s) = wmm s"
  by (simp_all add: os_carrier_on_def os_start_queue_def os_stop_queue_def os_free_tx_packet_def split: option.split)

lemma wmm_wmm_upd [simp]: "wmm (wmm_upd f s) = f (wmm s)"
  by (simp add: wmm_upd_def)

lemma setup_queues_fields:
  "wmm (wmm_setup_queues s) = (wmm s)\<lparr>queuePriority := queuePriority (wmm (wmm_setup_queue_priorities s)),
     acDowngradedVals := (if enabled (wmm s) then map (downgrade_spec (acStatus (wmm s))) [0..<4] else [0..<4])\<rparr>"
  by (simp add: wmm_setup_queues_def wmm_setup_ac_downgrade_def wmm_setup_queue_priorities_def
      wmm_default_queue_priorities_def eval_downgrade_eq Let_def del: upt_Suc)

lemma setup_ok: "wmm_ok s \<Longrightarrow> wmm_ok (wmm_setup_queues s)"
proof -
  assume ok: "wmm_ok s"
  have "set (map (downgrade_spec st) [0..<4]) \<subseteq> {0..<4}" for st
    using le_less_trans [OF downgrade_spec_le] by auto
  with ok setup_priorities_set [of s] show ?thesis
    by (auto simp: wmm_ok_def setup_queues_fields Let_def)
qed

lemma tos_to_ac_less: "wmm_convert_tos_to_ac tos < 4"
proof -
  have "\<forall>ac \<in> set tos_to_ac. ac < 4" by (simp add: tos_to_ac_def)
  then have "i < length tos_to_ac \<Longrightarrow> tos_to_ac ! i < 4" for i using nth_mem by blast
  then show ?thesis by (simp add: wmm_convert_tos_to_ac_def Let_def not_le)
qed

definition skb_ac :: "skb \<Rightarrow> nat" where
  "skb_ac skb = wmm_convert_tos_to_ac (if sk_proto skb = ETH_P_IP then sk_tos skb AND 0xE0 else 0)"

definition tagged :: "skb \<Rightarrow> skb" where
  "tagged skb = skb\<lparr>sk_priority := wmm_tos_to_priority (if sk_proto skb = ETH_P_IP then sk_tos skb AND 0xE0 else 0)\<rparr>"

lemma add_fields:
  "wmm (wmm_map_and_add_skb skb s) =
    (let w = wmm s; d = acDowngradedVals w ! skb_ac skb in
     w\<lparr>txSkbQ := (txSkbQ w)[d := txSkbQ w ! d @ [tagged skb]], packetsQueued := packetsQueued w + 1\<rparr>)"
  by (simp add: wmm_map_and_add_skb_def wmm_process_app_iface_tx_def skb_ac_def tagged_def wmm_downgrade_ac_def Let_def)

lemma add_ok: "wmm_ok s \<Longrightarrow> wmm_ok (wmm_map_and_add_skb skb s)"
proof -
  assume ok: "wmm_ok s"
  let ?d = "acDowngradedVals (wmm s) ! skb_ac skb"
  have "skb_ac skb < 4" unfolding skb_ac_def by (rule tos_to_ac_less)
  then have "?d \<in> set (queuePriority (wmm s))" using ok by (auto simp: wmm_ok_def Let_def)
  then have "ac = ?d \<or> txSkbQ (wmm s) ! ac \<noteq> [] \<Longrightarrow> ac < 4 \<Longrightarrow> ac \<in> set (queuePriority (wmm s))" for ac
    using ok by (auto simp: wmm_ok_def Let_def)
  moreover have "?d < 4" using \<open>?d \<in> _\<close> ok by (auto simp: wmm_ok_def Let_def)
  ultimately show ?thesis using ok by (simp add: wmm_ok_def add_fields Let_def nth_list_update)
qed

lemma cleanup_ok: "wmm_ok s \<Longrightarrow> wmm_ok (wmm_cleanup_queues s)"
  by (simp add: wmm_ok_def wmm_cleanup_queues_def Let_def)

lemma start_queue_ok: "wmm_ok s \<Longrightarrow> wmm_ok (wmm_start_queue s)"
  by (simp add: wmm_ok_def wmm_start_queue_def Let_def)

lemma stop_queue_ok: "wmm_ok s \<Longrightarrow> wmm_ok (wmm_stop_queue s)"
  by (simp add: wmm_ok_def wmm_stop_queue_def Let_def)

lemma first_queue_SomeD: "first_queue qs acs = Some ac \<Longrightarrow> ac \<in> set acs \<and> qs ! ac \<noteq> []"
  by (induction acs) (auto split: if_splits)

lemma first_queue_None: "first_queue qs acs = None \<longleftrightarrow> (\<forall>ac \<in> set acs. qs ! ac = [])"
  by (induction acs) auto

lemma first_queue_first:
  "first_queue qs acs = Some ac \<Longrightarrow> \<exists>pre post. acs = pre @ ac # post \<and> (\<forall>a \<in> set pre. qs ! a = [])"
proof (induction acs)
  case (Cons a acs)
  show ?case
  proof (cases "qs ! a = []")
    case True
    with Cons obtain pre post where "acs = pre @ ac # post" "\<forall>a \<in> set pre. qs ! a = []" by auto
    with True show ?thesis by (intro exI [of _ "a # pre"] exI [of _ post]) simp
  next
    case False
    with Cons.prems show ?thesis by (intro exI [of _ "[]"] exI [of _ acs]) simp
  qed
qed simp

lemma pop_ok: "wmm_ok s \<Longrightarrow> wmm_ok (wmm_pop_highest_prio_skb s)"
proof (cases "first_queue (txSkbQ (wmm s)) (queuePriority (wmm s))")
  case (Some ac)
  assume ok: "wmm_ok s"
  have "k \<in> set (queuePriority (wmm s))" if "k < 4" "(txSkbQ (wmm s))[ac := tl (txSkbQ (wmm s) ! ac)] ! k \<noteq> []" for k
    using that ok first_queue_SomeD [OF Some] by (cases "k = ac") (auto simp: wmm_ok_def Let_def)
  with Some ok show ?thesis by (simp add: wmm_ok_def wmm_pop_highest_prio_skb_def Let_def)
qed (simp add: wmm_pop_highest_prio_skb_def)

text \<open>With a packet in any queue, the pop takes the head of the first queue in the order of service.\<close>

lemma pop_spec:
  assumes "wmm_ok s" and "\<not> wmm_lists_empty s"
  shows "\<exists>pre ac post x xs. queuePriority (wmm s) = pre @ ac # post \<and> (\<forall>a \<in> set pre. txSkbQ (wmm s) ! a = []) \<and>
    ac < 4 \<and> txSkbQ (wmm s) ! ac = x # xs \<and> CurrentTxSkb (wmm_pop_highest_prio_skb s) = Some x \<and>
    txSkbQ (wmm (wmm_pop_highest_prio_skb s)) = (txSkbQ (wmm s))[ac := xs]"
proof -
  let ?qs = "txSkbQ (wmm s)" and ?pr = "queuePriority (wmm s)"
  obtain k where "k < 4" "?qs ! k \<noteq> []"
    using assms by (auto simp: wmm_lists_empty_def list_all_length wmm_ok_def Let_def)
  then have "first_queue ?qs ?pr \<noteq> None" using assms(1) by (auto simp: wmm_ok_def Let_def first_queue_None)
  then obtain ac where ac: "first_queue ?qs ?pr = Some ac" by blast
  from first_queue_SomeD [OF ac] obtain x xs where x: "?qs ! ac = x # xs" "ac \<in> set ?pr" by (cases "?qs ! ac") auto
  moreover from this have "ac < 4" using assms(1) by (auto simp: wmm_ok_def Let_def)
  moreover obtain pre post where "?pr = pre @ ac # post" "\<forall>a \<in> set pre. ?qs ! a = []" using first_queue_first [OF ac] by blast
  ultimately show ?thesis using ac
    by (intro exI [of _ pre] exI [of _ ac] exI [of _ post] exI [of _ x] exI [of _ xs]) (simp add: wmm_pop_highest_prio_skb_def)
qed

section \<open>Properties\<close>

text \<open>C30. The queues are served in the order of the access point's parameters: the bubble sort puts each of
  the four categories once into the table, shorter mean back-off first, and of equal ones the
  higher category first.\<close>

theorem queue_priorities_sorted:
  assumes "enabled (wmm s)"
  shows "mset (queuePriority (wmm (wmm_setup_queue_priorities s))) = {#WMM_AC_BK, WMM_AC_BE, WMM_AC_VI, WMM_AC_VO#} \<and>
    sorted_wrt (\<lambda>a b. back_off (wmmIE s) a < back_off (wmmIE s) b \<or> back_off (wmmIE s) a = back_off (wmmIE s) b \<and> b \<le> a)
      (queuePriority (wmm (wmm_setup_queue_priorities s)))"
  using setup_priorities_enabled [OF assms refl] by simp

definition sample_wlan :: wlan where
  "sample_wlan = \<lparr>wmm = zero_wmm\<lparr>enabled := True, acStatus := [\<lparr>Disabled = 0, FlowRequired = 0, FlowCreated = 0\<rparr>,
       \<lparr>Disabled = 0, FlowRequired = 0, FlowCreated = 0\<rparr>, \<lparr>Disabled = 0, FlowRequired = 1, FlowCreated = 1\<rparr>,
       \<lparr>Disabled = 1, FlowRequired = 1, FlowCreated = 0\<rparr>]\<rparr>,
     CurrentTxSkb = None, dnld_sent = False, PSState = PS_STATE_FULL_POWER, netif_stopped = False, carrier = True, link_up = True,
     wmmIE = [0xdd, 24, 0, 0x50, 0xf2, 2, 1, 1, 0, 0] @ [0x03, 0xa4, 0, 0, 0x27, 0xa4, 0, 0, 0x42, 0x43, 94, 0, 0x62, 0x32, 47, 0],
     gen_null_pkg = True, tx_packets = 0, tx_bytes = 0, tx_dropped = 0, tx_errors = 0\<rparr>"

theorem queue_priorities_sorted_witness:
  "mset (queuePriority (wmm (wmm_setup_queue_priorities sample_wlan))) = {#0, 1, 2, 3#}"
  using queue_priorities_sorted [of sample_wlan] by (simp add: sample_wlan_def zero_wmm_def)

text \<open>C31. Downgrading implements its specification: an enabled category keeps its traffic; traffic of a
  disabled one goes to the highest lower category that is enabled and needs no admission, so it
  never uses admitted time while any such category exists; otherwise it goes to background.\<close>

theorem downgrade_refines:
  assumes "enabled (wmm s)" and "ac < 4"
  shows "wmm_downgrade_ac (wmm_setup_queues s) ac = downgrade_spec (acStatus (wmm s)) ac \<and>
    (Disabled (acStatus (wmm s) ! ac) = 0 \<longrightarrow> wmm_downgrade_ac (wmm_setup_queues s) ac = ac) \<and>
    (Disabled (acStatus (wmm s) ! ac) \<noteq> 0 \<and> (\<exists>k < ac. usable (acStatus (wmm s)) k) \<longrightarrow>
      wmm_downgrade_ac (wmm_setup_queues s) ac < ac \<and> usable (acStatus (wmm s)) (wmm_downgrade_ac (wmm_setup_queues s) ac))"
proof -
  let ?st = "acStatus (wmm s)"
  have e: "wmm_downgrade_ac (wmm_setup_queues s) ac = downgrade_spec ?st ac"
    using assms by (simp add: wmm_downgrade_ac_def setup_queues_fields del: upt_Suc)
  have "Max {d. d < ac \<and> usable ?st d} \<in> {d. d < ac \<and> usable ?st d}" if "\<exists>k < ac. usable ?st k"
    using that by (intro Max_in) auto
  then show ?thesis unfolding e by (auto simp: downgrade_spec_def)
qed

theorem downgrade_refines_witness:
  "wmm_downgrade_ac (wmm_setup_queues sample_wlan) 3 = downgrade_spec (acStatus (wmm sample_wlan)) 3 \<and>
   wmm_downgrade_ac (wmm_setup_queues sample_wlan) 3 < 3 \<and> usable (acStatus (wmm sample_wlan)) (wmm_downgrade_ac (wmm_setup_queues sample_wlan) 3)"
proof -
  have "\<exists>k < 3. usable (acStatus (wmm sample_wlan)) k"
    by (rule exI [of _ 0]) (simp add: usable_def sample_wlan_def)
  moreover have "Disabled (acStatus (wmm sample_wlan) ! 3) \<noteq> 0" by (simp add: sample_wlan_def numeral_3_eq_3)
  moreover have "enabled (wmm sample_wlan)" by (simp add: sample_wlan_def)
  ultimately show ?thesis using downgrade_refines [of sample_wlan 3] by auto
qed

text \<open>The status request reports the admission bits of background and best effort under each other's name.\<close>

lemma queue_status_swapped:
  "fst (wlan_wmm_queue_status_ioctl s ! WMM_AC_BK) = Acm (ac_param (wmmIE s) (ac_record WMM_AC_BE)) \<and>
   fst (wlan_wmm_queue_status_ioctl s ! WMM_AC_BE) = Acm (ac_param (wmmIE s) (ac_record WMM_AC_BK))"
  by (simp add: wlan_wmm_queue_status_ioctl_def ac_record_def Let_def)

text \<open>With the delay disabled by a limit of 0, a clock that was set back still gives a delay.\<close>

lemma delay_after_clock_set_back: "wmm_compute_driver_packet_delay (10, 0) (9, 0) = 12"
  by (simp add: wmm_compute_driver_packet_delay_def timeval_diff_in_ms_def c_div_def DRV_PKT_DELAY_TO_FW_LIMIT_def)

end
