(* ===== verification/WlanTx.thy ===== *)
theory WlanTx
  imports WlanWmm
begin

text \<open>
  Transmission of packets by the wireless driver: \<^verbatim>\<open>wlan_tx.c\<close>, the functions of
  \<^verbatim>\<open>wlan_wmm.c\<close> and of the main loop that start it, and the transfer to the card,
  \<^verbatim>\<open>sbi_host_to_card\<close> of \<^verbatim>\<open>if_sdio.c\<close>. The bus is a parameter: the results
  of the successive attempts to write a block.
\<close>

section \<open>State\<close>

record txdev =
  t_wlan :: wlan
  TmpTxBuf :: "u8 list"
  PktTxCtrl :: u32
  TxLockFlag :: bool
  sleep_period :: nat
  wmm_uapsd_enabled :: bool
  SurpriseRemoved :: bool
  MediaConnected :: bool
  HisRegCpy :: u8
  num_tx_host_to_card_failure :: nat
  card_writes :: "u8 list list"

definition t_upd :: "(wlan \<Rightarrow> wlan) \<Rightarrow> txdev \<Rightarrow> txdev" where
  "t_upd f t = t\<lparr>t_wlan := f (t_wlan t)\<rparr>"

record TxPD =
  TxStatus :: u32
  TxControl :: u32
  TxPacketLocation :: u32
  TxPacketLength :: u16
  TxDestAddr :: "u8 list"
  Priority :: u8
  Flags :: u8
  PktDelay_2ms :: u8

definition TxPD_bytes :: "TxPD \<Rightarrow> u8 list" where
  "TxPD_bytes p =
     le32_of (TxStatus p) @ le32_of (TxControl p) @ le32_of (TxPacketLocation p) @ le16_of (TxPacketLength p) @
     TxDestAddr p @ [Priority p, Flags p, PktDelay_2ms p, 0]"

definition sizeof_TxPD :: nat where "sizeof_TxPD = 24"
definition SDIO_HEADER_LEN :: nat where "SDIO_HEADER_LEN = 4"
definition WLAN_UPLD_SIZE :: nat where "WLAN_UPLD_SIZE = 2312"
definition MRVDRV_ETH_TX_PACKET_BUFFER_SIZE :: nat where "MRVDRV_ETH_TX_PACKET_BUFFER_SIZE = 1514 + sizeof_TxPD + 36"
definition SD_BLOCK_SIZE :: nat where "SD_BLOCK_SIZE = 256"
definition MAX_WRITE_IOMEM_RETRY :: nat where "MAX_WRITE_IOMEM_RETRY = 2"
definition MVMS_DAT :: u8 where "MVMS_DAT = 0"
definition MVMS_CMD :: u8 where "MVMS_CMD = 1"

section \<open>The transfer to the card\<close>

text \<open>The loop around \<open>sbi_write_iomem\<close>: \<open>out i\<close> is the result of attempt \<open>i\<close>. The value is the
  result of the loop and the number of failures. Each failure is followed by a write of
  \<^verbatim>\<open>CONFIGURATION_REG\<close>, whose result is only printed; it is a call of the bus and not in the state.\<close>

function iomem_retry :: "(nat \<Rightarrow> int) \<Rightarrow> nat \<Rightarrow> int \<times> nat" where
  "iomem_retry out i =
     (let ret = out i in
      if ret < 0 then (if Suc i > MAX_WRITE_IOMEM_RETRY then (- 1, Suc i) else iomem_retry out (Suc i))
      else (ret, i))"
  by auto

termination
  by (relation "measure (\<lambda>(out, i). MAX_WRITE_IOMEM_RETRY - i)") auto

declare iomem_retry.simps [simp del]

definition sbi_host_to_card :: "(nat \<Rightarrow> int) \<Rightarrow> u8 \<Rightarrow> u8 list \<Rightarrow> nat \<Rightarrow> txdev \<Rightarrow> (int \<times> txdev) option" where
  "sbi_host_to_card out typ payload nb t =
     do { let t = t\<lparr>HisRegCpy := 0\<rparr>;
          let blocks = (nb + SDIO_HEADER_LEN + SD_BLOCK_SIZE - 1) div SD_BLOCK_SIZE;
          buf \<leftarrow> mem_copy (TmpTxBuf t) 0 [of_nat (nb + SDIO_HEADER_LEN), of_nat ((nb + SDIO_HEADER_LEN) div 256), typ, 0];
          buf \<leftarrow> (if 0 < nb \<and> nb \<le> WLAN_UPLD_SIZE - SDIO_HEADER_LEN \<and> typ = MVMS_CMD
                   then mem_copy buf SDIO_HEADER_LEN (take nb payload) else Some buf);
          data \<leftarrow> mem_sub buf 0 (blocks * SD_BLOCK_SIZE);
          let t = t\<lparr>TmpTxBuf := buf\<rparr>;
          let (ret, i) = iomem_retry out 0;
          if ret < 0 then Some (ret, t)
          else Some (ret, t_upd (\<lambda>s. s\<lparr>dnld_sent := True\<rparr>) t\<lparr>card_writes := card_writes t @ [data]\<rparr>) }"

section \<open>A packet\<close>

definition CheckLastPacketIndication :: "txdev \<Rightarrow> bool" where
  "CheckLastPacketIndication t =
     (if sleep_period t = 0 \<or> \<not> gen_null_pkg (t_wlan t) then False
      else
        let prop_ps = True in
        if wmm_lists_empty (t_wlan t) then
          ((wmm_uapsd_enabled t \<and> qosinfo (wmm (t_wlan t)) \<noteq> 0) \<or> prop_ps)
        else False)"

definition MRVDRV_TxPD_POWER_MGMT_LAST_PACKET :: u8 where "MRVDRV_TxPD_POWER_MGMT_LAST_PACKET = 8"

text \<open>The statistics at the label \<open>done\<close>, and the packet is freed.\<close>

definition tx_done_label :: "int \<Rightarrow> skb \<Rightarrow> txdev \<Rightarrow> txdev" where
  "tx_done_label ret skb t =
     t_upd (\<lambda>s. os_free_tx_packet
       (if ret = 0 then s\<lparr>tx_packets := tx_packets s + 1, tx_bytes := tx_bytes s + length (sk_data skb)\<rparr>
        else s\<lparr>tx_dropped := tx_dropped s + 1, tx_errors := tx_errors s + 1\<rparr>)) t"

text \<open>The descriptor of a packet; \<open>delay\<close> is the result of \<open>wmm_compute_driver_packet_delay\<close>.\<close>

definition packet_TxPD :: "u8 \<Rightarrow> skb \<Rightarrow> bool \<Rightarrow> txdev \<Rightarrow> TxPD option" where
  "packet_TxPD delay skb isLast t =
     do { let w = wmm (t_wlan t);
          let prio = (if enabled w then sk_priority skb else 0);
          ctrl \<leftarrow> (if unat prio < 8 then mem_get (userPriPktTxCtrl w) (unat prio) else Some 0);
          dest \<leftarrow> mem_sub (sk_data skb) 0 6;
          Some \<lparr>TxStatus = 0, TxControl = (if ctrl = 0 then PktTxCtrl t else ctrl),
            TxPacketLocation = of_nat sizeof_TxPD, TxPacketLength = of_nat (length (sk_data skb)), TxDestAddr = dest,
            Priority = prio, Flags = (if isLast then MRVDRV_TxPD_POWER_MGMT_LAST_PACKET else 0),
            PktDelay_2ms = (if enabled w then delay else 0)\<rparr> }"

definition SendSinglePacket :: "(nat \<Rightarrow> int) \<Rightarrow> u8 \<Rightarrow> skb \<Rightarrow> txdev \<Rightarrow> (int \<times> txdev) option" where
  "SendSinglePacket out delay skb t =
     (if sk_data skb = [] \<or> length (sk_data skb) > MRVDRV_ETH_TX_PACKET_BUFFER_SIZE
      then Some (- 1, tx_done_label (- 1) skb t)
      else
        do { let isLast = (PSState (t_wlan t) \<noteq> PS_STATE_FULL_POWER \<and> CheckLastPacketIndication t);
             pd \<leftarrow> packet_TxPD delay skb isLast t;
             let t = (if isLast then t\<lparr>TxLockFlag := True\<rparr> else t);
             buf \<leftarrow> mem_copy (TmpTxBuf t) SDIO_HEADER_LEN (TxPD_bytes pd);
             buf \<leftarrow> mem_copy buf (SDIO_HEADER_LEN + sizeof_TxPD) (sk_data skb);
             (ret, t) \<leftarrow> sbi_host_to_card out MVMS_DAT buf (length (sk_data skb) + sizeof_TxPD) (t\<lparr>TmpTxBuf := buf\<rparr>);
             let t = (if ret \<noteq> 0 then t\<lparr>num_tx_host_to_card_failure := num_tx_host_to_card_failure t + 1\<rparr>
                      else t_upd wmm_process_fw_iface_tx_xfer_start t);
             Some (ret, tx_done_label ret skb t) })"

definition HIS_TxDnLdRdy :: u8 where "HIS_TxDnLdRdy = 2"

definition wlan_process_tx :: "(nat \<Rightarrow> int) \<Rightarrow> u8 \<Rightarrow> txdev \<Rightarrow> txdev option" where
  "wlan_process_tx out delay t =
     (if dnld_sent (t_wlan t) then Some t
      else
        do { skb \<leftarrow> CurrentTxSkb (t_wlan t);
             (_, t) \<leftarrow> SendSinglePacket out delay skb t;
             Some (t\<lparr>HisRegCpy := HisRegCpy t AND NOT HIS_TxDnLdRdy\<rparr>) })"

definition wmm_process_tx :: "(nat \<Rightarrow> int) \<Rightarrow> u8 \<Rightarrow> txdev \<Rightarrow> txdev option" where
  "wmm_process_tx out delay t =
     (if PSState (t_wlan t) = PS_STATE_SLEEP \<or> PSState (t_wlan t) = PS_STATE_PRE_SLEEP then Some t
      else if dnld_sent (t_wlan t) then Some t
      else
        let t = t_upd wmm_pop_highest_prio_skb t
        in if CurrentTxSkb (t_wlan t) \<noteq> None then wlan_process_tx out delay t else Some t)"

text \<open>The end of a round of the main loop of \<^verbatim>\<open>wlan_main.c\<close>.\<close>

definition main_tx :: "(nat \<Rightarrow> int) \<Rightarrow> u8 \<Rightarrow> txdev \<Rightarrow> txdev option" where
  "main_tx out delay t =
     (if \<not> dnld_sent (t_wlan t) \<and> \<not> wmm_lists_empty (t_wlan t) \<and> \<not> wmm_is_queue_stopped (t_wlan t) then
        (if PSState (t_wlan t) = PS_STATE_FULL_POWER \<or> sleep_period t = 0 \<or> \<not> TxLockFlag t
         then wmm_process_tx out delay t else Some t)
      else Some t)"

definition wlan_tx_packet :: "skb \<Rightarrow> txdev \<Rightarrow> int \<times> txdev" where
  "wlan_tx_packet skb t = (0, t_upd (wmm_map_and_add_skb skb) t)"

text \<open>The interrupt that the card has taken the data, in \<open>sbi_get_int_status\<close>.\<close>

definition tx_done_int :: "txdev \<Rightarrow> txdev" where
  "tx_done_int t =
     (if \<not> dnld_sent (t_wlan t) then t
      else t_upd (\<lambda>s. (wmm_process_fw_iface_tx_xfer_end s)\<lparr>dnld_sent := False\<rparr>) t)"

definition WMM_HIGHEST_PRIORITY :: u8 where "WMM_HIGHEST_PRIORITY = 7"

definition SendNullPacket :: "(nat \<Rightarrow> int) \<Rightarrow> u8 \<Rightarrow> txdev \<Rightarrow> (int \<times> txdev) option" where
  "SendNullPacket out flags t =
     (if SurpriseRemoved t then Some (- 1, t)
      else if \<not> MediaConnected t then Some (- 1, t)
      else
        do { let pd = \<lparr>TxStatus = 0, TxControl = PktTxCtrl t, TxPacketLocation = of_nat sizeof_TxPD, TxPacketLength = 0,
               TxDestAddr = replicate 6 0, Priority = WMM_HIGHEST_PRIORITY, Flags = flags, PktDelay_2ms = 0\<rparr>;
             buf \<leftarrow> mem_copy (TmpTxBuf t) SDIO_HEADER_LEN (TxPD_bytes pd);
             (ret, t) \<leftarrow> sbi_host_to_card out MVMS_DAT buf sizeof_TxPD (t\<lparr>TmpTxBuf := buf\<rparr>);
             Some (ret, if ret \<noteq> 0 then t\<lparr>num_tx_host_to_card_failure := num_tx_host_to_card_failure t + 1\<rparr> else t) })"

section \<open>The retry loop\<close>

text \<open>At most three attempts are made, and the result is that of the first one that succeeds.\<close>

lemma iomem_retry_cases:
  "iomem_retry out 0 =
    (if 0 \<le> out 0 then (out 0, 0) else if 0 \<le> out 1 then (out 1, 1) else if 0 \<le> out 2 then (out 2, 2) else (- 1, 3))"
  by (simp add: iomem_retry.simps [of out 0] iomem_retry.simps [of out 1] iomem_retry.simps [of out 2]
      iomem_retry.simps [of out "Suc 0"] iomem_retry.simps [of out "Suc (Suc 0)"] MAX_WRITE_IOMEM_RETRY_def
      Let_def numeral_2_eq_2 numeral_3_eq_3)

section \<open>What the card receives\<close>

lemma length_TxPD_bytes: "length (TxDestAddr p) = 6 \<Longrightarrow> length (TxPD_bytes p) = 24"
  by (simp add: TxPD_bytes_def le16_of_def)

lemma mem_copy_Some: "i + length s \<le> length d \<Longrightarrow> \<exists>d'. mem_copy d i s = Some d' \<and> length d' = length d"
  by (simp add: mem_copy_def)

lemma mem_sub_take: "i + k \<le> n \<Longrightarrow> n \<le> length b \<Longrightarrow> mem_sub (take n b) i k = mem_sub b i k"
  by (simp add: mem_sub_def take_drop min_def)

text \<open>The layout of a transfer: a header of four bytes with the length, the descriptor, the packet.\<close>

definition frame_of :: "u8 list \<Rightarrow> TxPD \<Rightarrow> u8 list \<Rightarrow> bool" where
  "frame_of frame pd data \<longleftrightarrow>
     mem_sub frame 0 4 = Some [of_nat (length data + 28), of_nat ((length data + 28) div 256), MVMS_DAT, 0] \<and>
     mem_sub frame 4 24 = Some (TxPD_bytes pd) \<and> mem_sub frame 28 (length data) = Some data"

lemma transfer_frame:
  assumes "length buf0 = WLAN_UPLD_SIZE" and "length (TxDestAddr pd) = 6" and "length data \<le> 1574" and "m = length data + 24"
  shows "\<exists>b1 b2 b3 frame. mem_copy buf0 SDIO_HEADER_LEN (TxPD_bytes pd) = Some b1 \<and>
    mem_copy b1 (SDIO_HEADER_LEN + sizeof_TxPD) data = Some b2 \<and>
    mem_copy b2 0 [of_nat (m + SDIO_HEADER_LEN), of_nat ((m + SDIO_HEADER_LEN) div 256), MVMS_DAT, 0] = Some b3 \<and>
    mem_sub b3 0 ((m + SDIO_HEADER_LEN + SD_BLOCK_SIZE - 1) div SD_BLOCK_SIZE * SD_BLOCK_SIZE) = Some frame \<and>
    length b3 = WLAN_UPLD_SIZE \<and> frame_of frame pd data"
proof -
  let ?h = "[of_nat (m + 4), of_nat ((m + 4) div 256), MVMS_DAT, 0] :: u8 list"
  let ?n = "(m + 4 + 256 - 1) div 256 * 256"
  have p: "length (TxPD_bytes pd) = 24" using assms(2) by (rule length_TxPD_bytes)
  obtain b1 where b1: "mem_copy buf0 4 (TxPD_bytes pd) = Some b1" "length b1 = 2312"
    using mem_copy_Some [of 4 "TxPD_bytes pd" buf0] p assms(1) by (auto simp: WLAN_UPLD_SIZE_def)
  obtain b2 where b2: "mem_copy b1 28 data = Some b2" "length b2 = 2312"
    using mem_copy_Some [of 28 data b1] b1(2) assms(3) by auto
  obtain b3 where b3: "mem_copy b2 0 ?h = Some b3" "length b3 = 2312"
    using mem_copy_Some [of 0 ?h b2] b2(2) by auto
  have n: "?n \<le> 2312" "m + 4 \<le> ?n" using assms(3,4) by linarith+
  have "mem_sub b3 28 (length data) = Some data"
    using mem_sub_copy_disjoint [OF b3(1), of 28 "length data"] mem_sub_copy_same [OF b2(1)] by simp
  moreover have "mem_sub b3 4 24 = Some (TxPD_bytes pd)"
    using mem_sub_copy_disjoint [OF b3(1), of 4 24] mem_sub_copy_disjoint [OF b2(1), of 4 24] mem_sub_copy_same [OF b1(1)] p by simp
  moreover have "mem_sub b3 0 4 = Some ?h"
  proof -
    have "length ?h = 4" by simp
    with mem_sub_copy_same [OF b3(1)] show ?thesis by metis
  qed
  ultimately have "frame_of (take ?n b3) pd data"
    using n b3(2) assms(4) by (simp add: frame_of_def mem_sub_take add.assoc)
  moreover have "mem_sub b3 0 ?n = Some (take ?n b3)" using n(1) b3(2) by (simp add: mem_sub_def)
  ultimately show ?thesis using b1 b2 b3
    by (auto simp: SDIO_HEADER_LEN_def sizeof_TxPD_def SD_BLOCK_SIZE_def WLAN_UPLD_SIZE_def)
qed

lemma packet_TxPD_Some:
  assumes "length (userPriPktTxCtrl (wmm (t_wlan t))) = 8" and "6 \<le> length (sk_data skb)"
  shows "\<exists>pd. packet_TxPD delay skb isLast t = Some pd \<and> length (TxDestAddr pd) = 6 \<and> TxDestAddr pd = take 6 (sk_data skb) \<and>
    TxPacketLength pd = of_nat (length (sk_data skb)) \<and> TxPacketLocation pd = 24 \<and>
    (enabled (wmm (t_wlan t)) \<longrightarrow> Priority pd = sk_priority skb)"
proof -
  have g: "unat prio < 8 \<Longrightarrow> mem_get (userPriPktTxCtrl (wmm (t_wlan t))) (unat prio) = Some (userPriPktTxCtrl (wmm (t_wlan t)) ! unat prio)"
    for prio :: u8 using assms(1) by (simp add: mem_get_in)
  have d: "mem_sub (sk_data skb) 0 6 = Some (take 6 (sk_data skb))" using assms(2) by (simp add: mem_sub_def)
  show ?thesis
    using assms(2) g [of "if enabled (wmm (t_wlan t)) then sk_priority skb else 0"]
    by (cases "unat (if enabled (wmm (t_wlan t)) then sk_priority skb else 0) < 8")
      (simp_all add: packet_TxPD_def Let_def d sizeof_TxPD_def)
qed

definition tx_ret :: "(nat \<Rightarrow> int) \<Rightarrow> int" where
  "tx_ret out = fst (iomem_retry out 0)"

text \<open>A packet of legal size: the result of the bus, one frame for the card on success, and the packet
  is freed in any case.\<close>

lemma send_spec:
  assumes "length (TmpTxBuf t) = WLAN_UPLD_SIZE" and "length (userPriPktTxCtrl (wmm (t_wlan t))) = 8"
    and "6 \<le> length (sk_data skb)" and "length (sk_data skb) \<le> 1574"
  shows "\<exists>t'. SendSinglePacket out delay skb t = Some (tx_ret out, t') \<and> length (TmpTxBuf t') = WLAN_UPLD_SIZE \<and>
    CurrentTxSkb (t_wlan t') = None \<and>
    wmm (t_wlan t') = (if tx_ret out = 0 then (wmm (t_wlan t))\<lparr>packetsQueued := packetsQueued (wmm (t_wlan t)) - 1\<rparr> else wmm (t_wlan t)) \<and>
    (if tx_ret out < 0 then card_writes t' = card_writes t \<and> dnld_sent (t_wlan t') = dnld_sent (t_wlan t) \<and>
       netif_stopped (t_wlan t') = netif_stopped (t_wlan t)
     else dnld_sent (t_wlan t') \<and> (\<exists>frame pd. card_writes t' = card_writes t @ [frame] \<and> frame_of frame pd (sk_data skb) \<and>
       TxPacketLocation pd = 24 \<and> TxPacketLength pd = of_nat (length (sk_data skb)) \<and> TxDestAddr pd = take 6 (sk_data skb) \<and>
       (enabled (wmm (t_wlan t)) \<longrightarrow> Priority pd = sk_priority skb)))"
proof -
  let ?last = "PSState (t_wlan t) \<noteq> PS_STATE_FULL_POWER \<and> CheckLastPacketIndication t"
  let ?t = "if ?last then t\<lparr>TxLockFlag := True\<rparr> else t"
  obtain pd where pd: "packet_TxPD delay skb ?last t = Some pd" "length (TxDestAddr pd) = 6" "TxDestAddr pd = take 6 (sk_data skb)"
    "TxPacketLength pd = of_nat (length (sk_data skb))" "TxPacketLocation pd = 24"
    "enabled (wmm (t_wlan t)) \<longrightarrow> Priority pd = sk_priority skb"
    using packet_TxPD_Some [OF assms(2,3)] by metis
  obtain b1 b2 b3 frame where f: "mem_copy (TmpTxBuf t) SDIO_HEADER_LEN (TxPD_bytes pd) = Some b1"
    "mem_copy b1 (SDIO_HEADER_LEN + sizeof_TxPD) (sk_data skb) = Some b2"
    "mem_copy b2 0 [of_nat (length (sk_data skb) + sizeof_TxPD + SDIO_HEADER_LEN),
       of_nat ((length (sk_data skb) + sizeof_TxPD + SDIO_HEADER_LEN) div 256), MVMS_DAT, 0] = Some b3"
    "mem_sub b3 0 ((length (sk_data skb) + sizeof_TxPD + SDIO_HEADER_LEN + SD_BLOCK_SIZE - 1) div SD_BLOCK_SIZE * SD_BLOCK_SIZE) = Some frame"
    "length b3 = WLAN_UPLD_SIZE" "frame_of frame pd (sk_data skb)"
    using transfer_frame [OF assms(1) pd(2) assms(4) refl] by (auto simp: sizeof_TxPD_def)
  have buf: "TmpTxBuf ?t = TmpTxBuf t" by simp
  have dat: "MVMS_DAT \<noteq> MVMS_CMD" by (simp add: MVMS_DAT_def MVMS_CMD_def)
  let ?t3 = "?t\<lparr>HisRegCpy := 0, TmpTxBuf := b3\<rparr>"
  obtain i where r: "iomem_retry out 0 = (tx_ret out, i)" by (cases "iomem_retry out 0") (simp add: tx_ret_def)
  have h: "sbi_host_to_card out MVMS_DAT b2 (length (sk_data skb) + sizeof_TxPD) (?t\<lparr>TmpTxBuf := b2\<rparr>) =
    Some (tx_ret out, if tx_ret out < 0 then ?t3
      else t_upd (\<lambda>s. s\<lparr>dnld_sent := True\<rparr>) ?t3\<lparr>card_writes := card_writes ?t3 @ [frame]\<rparr>)"
    using f(3,4) r dat by (simp add: sbi_host_to_card_def Let_def)
  have ne: "sk_data skb \<noteq> []" "\<not> length (sk_data skb) > MRVDRV_ETH_TX_PACKET_BUFFER_SIZE"
    using assms(3,4) by (auto simp: MRVDRV_ETH_TX_PACKET_BUFFER_SIZE_def sizeof_TxPD_def)
  let ?t4 = "if tx_ret out < 0 then ?t3 else t_upd (\<lambda>s. s\<lparr>dnld_sent := True\<rparr>) ?t3\<lparr>card_writes := card_writes ?t3 @ [frame]\<rparr>"
  let ?t5 = "if tx_ret out \<noteq> 0 then ?t4\<lparr>num_tx_host_to_card_failure := num_tx_host_to_card_failure ?t4 + 1\<rparr>
    else t_upd wmm_process_fw_iface_tx_xfer_start ?t4"
  have "SendSinglePacket out delay skb t = Some (tx_ret out, tx_done_label (tx_ret out) skb ?t5)"
    using ne pd(1) f(1,2) h buf by (simp add: SendSinglePacket_def Let_def)
  moreover have "CurrentTxSkb (t_wlan (tx_done_label (tx_ret out) skb ?t5)) = None"
    by (simp add: tx_done_label_def t_upd_def os_free_tx_packet_def split: option.split)
  moreover have "wmm (t_wlan (tx_done_label (tx_ret out) skb ?t5)) =
      (if tx_ret out = 0 then (wmm (t_wlan t))\<lparr>packetsQueued := packetsQueued (wmm (t_wlan t)) - 1\<rparr> else wmm (t_wlan t))"
    by (simp add: tx_done_label_def t_upd_def wmm_process_fw_iface_tx_xfer_start_def Let_def)
  moreover have "card_writes (tx_done_label (tx_ret out) skb ?t5) = (if tx_ret out < 0 then card_writes t else card_writes t @ [frame])"
    "TmpTxBuf (tx_done_label (tx_ret out) skb ?t5) = b3"
    by (simp_all add: tx_done_label_def t_upd_def)
  moreover have "dnld_sent (t_wlan (tx_done_label (tx_ret out) skb ?t5)) = (0 \<le> tx_ret out \<or> dnld_sent (t_wlan t))"
    by (simp add: tx_done_label_def t_upd_def os_free_tx_packet_def os_start_queue_def wmm_upd_def
        wmm_process_fw_iface_tx_xfer_start_def Let_def split: option.split)
  moreover have "tx_ret out < 0 \<Longrightarrow> netif_stopped (t_wlan (tx_done_label (tx_ret out) skb ?t5)) = netif_stopped (t_wlan t)"
    by (simp add: tx_done_label_def t_upd_def os_free_tx_packet_def split: option.split)
  ultimately show ?thesis using f(5,6) pd(3-6) by (auto simp: not_le)
qed

section \<open>Reachable states\<close>

text \<open>Between the operations no packet is in the hands of the driver, and every queued packet has at least
  the destination address of its Ethernet header.\<close>

definition tx_ok :: "txdev \<Rightarrow> bool" where
  "tx_ok t \<longleftrightarrow> wmm_ok (t_wlan t) \<and> length (TmpTxBuf t) = WLAN_UPLD_SIZE \<and> CurrentTxSkb (t_wlan t) = None \<and>
     (\<forall>ac < 4. \<forall>x \<in> set (txSkbQ (wmm (t_wlan t)) ! ac). 6 \<le> length (sk_data x))"

lemma tx_ok_cong:
  "wmm (t_wlan t') = wmm (t_wlan t) \<Longrightarrow> CurrentTxSkb (t_wlan t') = CurrentTxSkb (t_wlan t) \<Longrightarrow> TmpTxBuf t' = TmpTxBuf t \<Longrightarrow>
    tx_ok t' = tx_ok t"
  by (simp add: tx_ok_def wmm_ok_def)

lemma t_upd_simps [simp]:
  "t_wlan (t_upd f t) = f (t_wlan t)" "TmpTxBuf (t_upd f t) = TmpTxBuf t" "card_writes (t_upd f t) = card_writes t"
  by (simp_all add: t_upd_def)

lemma CurrentTxSkb_os [simp]:
  "CurrentTxSkb (os_carrier_on s) = CurrentTxSkb s" "CurrentTxSkb (os_start_queue s) = CurrentTxSkb s"
  "CurrentTxSkb (os_stop_queue s) = CurrentTxSkb s" "CurrentTxSkb (wmm_upd f s) = CurrentTxSkb s"
  "CurrentTxSkb (wmm_setup_queues s) = CurrentTxSkb s" "CurrentTxSkb (wmm_map_and_add_skb skb s) = CurrentTxSkb s"
  "CurrentTxSkb (wmm_start_queue s) = CurrentTxSkb s" "CurrentTxSkb (wmm_stop_queue s) = CurrentTxSkb s"
  "CurrentTxSkb (wmm_cleanup_queues s) = CurrentTxSkb s" "CurrentTxSkb (wmm_process_fw_iface_tx_xfer_end s) = CurrentTxSkb s"
  by (simp_all add: os_carrier_on_def os_start_queue_def os_stop_queue_def wmm_upd_def wmm_setup_queues_def
      wmm_setup_ac_downgrade_def wmm_setup_queue_priorities_def wmm_default_queue_priorities_def wmm_map_and_add_skb_def
      wmm_process_app_iface_tx_def wmm_start_queue_def wmm_stop_queue_def wmm_cleanup_queues_def
      wmm_process_fw_iface_tx_xfer_end_def Let_def)

lemma wmm_xfer_end [simp]: "wmm (wmm_process_fw_iface_tx_xfer_end s) = wmm s"
  by (simp add: wmm_process_fw_iface_tx_xfer_end_def)

lemma send_total:
  assumes "length (TmpTxBuf t) = WLAN_UPLD_SIZE" and "wmm_ok (t_wlan t)" and "6 \<le> length (sk_data skb)"
  shows "\<exists>ret t'. SendSinglePacket out delay skb t = Some (ret, t') \<and> length (TmpTxBuf t') = WLAN_UPLD_SIZE \<and>
    CurrentTxSkb (t_wlan t') = None \<and> (\<exists>n. wmm (t_wlan t') = (wmm (t_wlan t))\<lparr>packetsQueued := n\<rparr>)"
proof (cases "length (sk_data skb) \<le> 1574")
  case True
  have "length (userPriPktTxCtrl (wmm (t_wlan t))) = 8" using assms(2) by (simp add: wmm_ok_def Let_def)
  from send_spec [OF assms(1) this assms(3) True, of out delay]
  obtain t' where s: "SendSinglePacket out delay skb t = Some (tx_ret out, t')" "length (TmpTxBuf t') = WLAN_UPLD_SIZE"
    "CurrentTxSkb (t_wlan t') = None"
    "wmm (t_wlan t') = (if tx_ret out = 0 then (wmm (t_wlan t))\<lparr>packetsQueued := packetsQueued (wmm (t_wlan t)) - 1\<rparr> else wmm (t_wlan t))"
    by blast
  then have "wmm (t_wlan t') = (wmm (t_wlan t))\<lparr>packetsQueued :=
      (if tx_ret out = 0 then packetsQueued (wmm (t_wlan t)) - 1 else packetsQueued (wmm (t_wlan t)))\<rparr>" by simp
  with s show ?thesis by blast
next
  case False
  then have "SendSinglePacket out delay skb t = Some (- 1, tx_done_label (- 1) skb t)"
    by (simp add: SendSinglePacket_def MRVDRV_ETH_TX_PACKET_BUFFER_SIZE_def sizeof_TxPD_def)
  moreover have "wmm (t_wlan (tx_done_label (- 1) skb t)) = (wmm (t_wlan t))\<lparr>packetsQueued := packetsQueued (wmm (t_wlan t))\<rparr>"
    by (simp add: tx_done_label_def)
  moreover have "CurrentTxSkb (t_wlan (tx_done_label (- 1) skb t)) = None" "length (TmpTxBuf (tx_done_label (- 1) skb t)) = WLAN_UPLD_SIZE"
    using assms(1) by (simp_all add: tx_done_label_def os_free_tx_packet_def split: option.split)
  ultimately show ?thesis by blast
qed

lemma tx_ok_queued: "wmm (t_wlan t') = (wmm (t_wlan t))\<lparr>packetsQueued := n\<rparr> \<Longrightarrow> wmm_ok (t_wlan t') = wmm_ok (t_wlan t)"
  by (simp add: wmm_ok_def Let_def)

lemma process_tx_ok:
  assumes "tx_ok t"
  shows "\<exists>t'. wmm_process_tx out delay t = Some t' \<and> tx_ok t'"
proof (cases "PSState (t_wlan t) = PS_STATE_SLEEP \<or> PSState (t_wlan t) = PS_STATE_PRE_SLEEP \<or> dnld_sent (t_wlan t) \<or> wmm_lists_empty (t_wlan t)")
  case True
  have "wmm_lists_empty (t_wlan t) \<Longrightarrow> wmm_pop_highest_prio_skb (t_wlan t) = t_wlan t"
    using assms by (auto simp: wmm_pop_highest_prio_skb_def first_queue_None wmm_lists_empty_def list_all_length
        tx_ok_def wmm_ok_def Let_def split: option.split dest!: first_queue_SomeD)
  moreover have "t_upd (\<lambda>s. s) t = t" by (simp add: t_upd_def)
  moreover have "CurrentTxSkb (t_wlan t) = None" using assms by (simp add: tx_ok_def)
  ultimately show ?thesis using True assms by (auto simp: wmm_process_tx_def t_upd_def)
next
  case False
  let ?t = "t_upd wmm_pop_highest_prio_skb t"
  have ok: "wmm_ok (t_wlan t)" using assms by (simp add: tx_ok_def)
  from pop_spec [OF ok] False obtain ac x xs where p: "ac < 4" "txSkbQ (wmm (t_wlan t)) ! ac = x # xs"
    "CurrentTxSkb (t_wlan ?t) = Some x" "txSkbQ (wmm (t_wlan ?t)) = (txSkbQ (wmm (t_wlan t)))[ac := xs]" by auto
  have x: "6 \<le> length (sk_data x)" using assms p(1,2) unfolding tx_ok_def by fastforce
  have ok': "wmm_ok (t_wlan ?t)" using pop_ok [OF ok] by simp
  have buf: "length (TmpTxBuf ?t) = WLAN_UPLD_SIZE" using assms by (simp add: tx_ok_def)
  from send_total [OF buf ok' x, of out delay] obtain ret t' n where s: "SendSinglePacket out delay x ?t = Some (ret, t')"
    "length (TmpTxBuf t') = WLAN_UPLD_SIZE" "CurrentTxSkb (t_wlan t') = None" "wmm (t_wlan t') = (wmm (t_wlan ?t))\<lparr>packetsQueued := n\<rparr>"
    by blast
  let ?t' = "t'\<lparr>HisRegCpy := HisRegCpy t' AND NOT HIS_TxDnLdRdy\<rparr>"
  have d: "dnld_sent (t_wlan ?t) = dnld_sent (t_wlan t)" by (simp add: wmm_pop_highest_prio_skb_def wmm_upd_def split: option.split)
  have "wmm_process_tx out delay t = Some ?t'"
    using False p(3) s(1) d by (simp add: wmm_process_tx_def wlan_process_tx_def)
  moreover have "wmm_ok (t_wlan t')" using tx_ok_queued [OF s(4)] ok' by simp
  moreover have "\<forall>k < 4. \<forall>y \<in> set ((txSkbQ (wmm (t_wlan t)))[ac := xs] ! k). 6 \<le> length (sk_data y)"
    using assms p(1,2) unfolding tx_ok_def by (auto simp: nth_list_update wmm_ok_def Let_def)
  ultimately show ?thesis using s p(4) by (auto simp: tx_ok_def)
qed

lemma main_tx_ok: "tx_ok t \<Longrightarrow> \<exists>t'. main_tx out delay t = Some t' \<and> tx_ok t'"
  using process_tx_ok by (simp add: main_tx_def)

lemma add_packet_ok: "tx_ok t \<Longrightarrow> 6 \<le> length (sk_data skb) \<Longrightarrow> tx_ok (snd (wlan_tx_packet skb t))"
proof -
  assume ok: "tx_ok t" and l: "6 \<le> length (sk_data skb)"
  let ?w = "wmm (t_wlan t)"
  let ?d = "acDowngradedVals ?w ! skb_ac skb"
  have "6 \<le> length (sk_data (tagged skb))" using l by (simp add: tagged_def)
  then have "\<forall>k < 4. \<forall>y \<in> set ((txSkbQ ?w)[?d := txSkbQ ?w ! ?d @ [tagged skb]] ! k). 6 \<le> length (sk_data y)"
    using ok unfolding tx_ok_def by (metis (no_types, lifting) nth_list_update_eq nth_list_update_neq list_update_beyond not_le
        set_append Un_iff empty_iff set_ConsD empty_set wmm_ok_def)
  with ok add_ok [of "t_wlan t" skb] show ?thesis
    by (simp add: tx_ok_def wlan_tx_packet_def add_fields Let_def)
qed

text \<open>The operations that work on the queues, in any order.\<close>

inductive tx_step :: "txdev \<Rightarrow> txdev \<Rightarrow> bool" where
  step_packet: "6 \<le> length (sk_data skb) \<Longrightarrow> tx_step t (snd (wlan_tx_packet skb t))"
| step_main: "main_tx out delay t = Some t' \<Longrightarrow> tx_step t t'"
| step_done: "tx_step t (tx_done_int t)"
| step_power: "tx_step t (t_upd (\<lambda>s. s\<lparr>PSState := ps\<rparr>) t)"
| step_setup: "length st = 4 \<Longrightarrow>
    tx_step t (t_upd (\<lambda>s. wmm_setup_queues ((wmm_upd (\<lambda>w. w\<lparr>acStatus := st, enabled := en\<rparr>) s)\<lparr>wmmIE := ie\<rparr>)) t)"
| step_start: "tx_step t (t_upd wmm_start_queue t)"
| step_stop: "tx_step t (t_upd wmm_stop_queue t)"
| step_cleanup: "tx_step t (t_upd wmm_cleanup_queues t)"

inductive_cases tx_stepE: "tx_step t t'"

lemma tx_step_ok: "tx_step t t' \<Longrightarrow> tx_ok t \<Longrightarrow> tx_ok t'"
proof (induction rule: tx_step.induct)
  case (step_main out delay t t')
  then show ?case using main_tx_ok [of t out delay] by auto
next
  case (step_done t)
  then show ?case by (simp add: tx_done_int_def tx_ok_def wmm_ok_def)
next
  case (step_power t ps)
  then show ?case by (simp add: tx_ok_def wmm_ok_def)
next
  case (step_setup st t ie en)
  let ?s = "(wmm_upd (\<lambda>w. w\<lparr>acStatus := st, enabled := en\<rparr>) (t_wlan t))\<lparr>wmmIE := ie\<rparr>"
  have "wmm_ok ?s" using step_setup by (simp add: tx_ok_def wmm_ok_def Let_def)
  from setup_ok [OF this] step_setup show ?case by (simp add: tx_ok_def setup_queues_fields)
next
  case (step_cleanup t)
  then show ?case by (simp add: tx_ok_def wmm_cleanup_queues_def wmm_ok_def Let_def)
next
  case (step_packet skb t)
  then show ?case by (simp add: add_packet_ok)
next
  case (step_start t)
  then show ?case using start_queue_ok by (simp add: tx_ok_def wmm_start_queue_def)
next
  case (step_stop t)
  then show ?case using stop_queue_ok by (simp add: tx_ok_def wmm_stop_queue_def)
qed

interpretation tx_path: kept tx_step tx_ok
  by unfold_locales (rule tx_step_ok)

section \<open>Properties\<close>

definition sample_skb :: "u8 \<Rightarrow> skb" where
  "sample_skb tos = \<lparr>sk_proto = ETH_P_IP, sk_tos = tos, sk_data = replicate 60 1, sk_priority = 0\<rparr>"

definition sample_txdev :: txdev where
  "sample_txdev = \<lparr>t_wlan = wmm_setup_queues (wmm_init \<lparr>wmm = zero_wmm, CurrentTxSkb = None, dnld_sent = False, PSState = PS_STATE_FULL_POWER,
       netif_stopped = False, carrier = True, link_up = True, wmmIE = replicate 26 0, gen_null_pkg = True,
       tx_packets = 0, tx_bytes = 0, tx_dropped = 0, tx_errors = 0\<rparr>),
     TmpTxBuf = replicate WLAN_UPLD_SIZE 0, PktTxCtrl = 0, TxLockFlag = False, sleep_period = 0, wmm_uapsd_enabled = False,
     SurpriseRemoved = False, MediaConnected = True, HisRegCpy = 0, num_tx_host_to_card_failure = 0, card_writes = []\<rparr>"

lemma sample_txdev_ok: "tx_ok sample_txdev"
  using setup_ok [OF init_ok]
  by (simp add: tx_ok_def sample_txdev_def setup_queues_fields) (simp add: wmm_init_def zero_wmm_def)

text \<open>C6. The transmit path never leaves its arrays and never gets stuck: in every state that packets,
  interrupts, changes of power state, reconfiguration and cleaning of the queues can lead to,
  the main loop's transmit step returns, whatever the bus does, and no packet stays in the
  driver's hands.\<close>

theorem tx_never_stuck:
  assumes "tx_ok t" and "tx_step\<^sup>*\<^sup>* t t'"
  shows "\<exists>t''. main_tx out delay t' = Some t'' \<and> CurrentTxSkb (t_wlan t'') = None \<and> tx_ok t''"
  using main_tx_ok [OF tx_path.reach_keeps [OF assms(2,1)], of out delay] by (auto simp: tx_ok_def)

theorem tx_never_stuck_witness:
  "\<exists>t''. main_tx (\<lambda>_. - 1) 0 (snd (wlan_tx_packet (sample_skb 0xE0) sample_txdev)) = Some t'' \<and> CurrentTxSkb (t_wlan t'') = None"
proof -
  have "tx_step sample_txdev (snd (wlan_tx_packet (sample_skb 0xE0) sample_txdev))"
    by (rule step_packet) (simp add: sample_skb_def)
  then have "tx_step\<^sup>*\<^sup>* sample_txdev (snd (wlan_tx_packet (sample_skb 0xE0) sample_txdev))" by (rule r_into_rtranclp)
  from tx_never_stuck [OF sample_txdev_ok this, of "\<lambda>_. - 1" 0] show ?thesis by blast
qed

text \<open>C29. The highest category goes first: awake and with a packet waiting, the driver takes the head of
  the first queue in the order of service that is not empty, and if the bus accepts it the card
  receives exactly one frame with that packet's bytes, its length, its destination and, with WMM,
  its priority.\<close>

theorem tx_highest_first:
  assumes "tx_ok t" and "\<not> wmm_lists_empty (t_wlan t)" and "\<not> dnld_sent (t_wlan t)" and "0 \<le> tx_ret out"
    and "PSState (t_wlan t) = PS_STATE_FULL_POWER \<or> PSState (t_wlan t) = PS_STATE_AWAKE"
    and "\<forall>ac < 4. \<forall>x \<in> set (txSkbQ (wmm (t_wlan t)) ! ac). length (sk_data x) \<le> 1574"
  shows "\<exists>pre ac post x xs t' frame pd. queuePriority (wmm (t_wlan t)) = pre @ ac # post \<and>
    (\<forall>a \<in> set pre. txSkbQ (wmm (t_wlan t)) ! a = []) \<and> txSkbQ (wmm (t_wlan t)) ! ac = x # xs \<and>
    wmm_process_tx out delay t = Some t' \<and> txSkbQ (wmm (t_wlan t')) = (txSkbQ (wmm (t_wlan t)))[ac := xs] \<and>
    card_writes t' = card_writes t @ [frame] \<and> frame_of frame pd (sk_data x) \<and>
    TxPacketLength pd = of_nat (length (sk_data x)) \<and> TxDestAddr pd = take 6 (sk_data x) \<and>
    (enabled (wmm (t_wlan t)) \<longrightarrow> Priority pd = sk_priority x)"
proof -
  let ?t = "t_upd wmm_pop_highest_prio_skb t"
  have ok: "wmm_ok (t_wlan t)" using assms(1) by (simp add: tx_ok_def)
  from pop_spec [OF ok assms(2)] obtain pre ac post x xs where q: "queuePriority (wmm (t_wlan t)) = pre @ ac # post"
    "\<forall>a \<in> set pre. txSkbQ (wmm (t_wlan t)) ! a = []" "ac < 4" "txSkbQ (wmm (t_wlan t)) ! ac = x # xs"
    "CurrentTxSkb (t_wlan ?t) = Some x" "txSkbQ (wmm (t_wlan ?t)) = (txSkbQ (wmm (t_wlan t)))[ac := xs]" by auto
  have x: "6 \<le> length (sk_data x)" "length (sk_data x) \<le> 1574" using assms(1,6) q(3,4) unfolding tx_ok_def by fastforce+
  have ok': "wmm_ok (t_wlan ?t)" using pop_ok [OF ok] by simp
  have buf: "length (TmpTxBuf ?t) = WLAN_UPLD_SIZE" "length (userPriPktTxCtrl (wmm (t_wlan ?t))) = 8"
    using assms(1) ok' by (simp_all add: tx_ok_def wmm_ok_def Let_def)
  have en: "enabled (wmm (t_wlan ?t)) = enabled (wmm (t_wlan t))" "dnld_sent (t_wlan ?t) = dnld_sent (t_wlan t)"
    by (simp_all add: wmm_pop_highest_prio_skb_def wmm_upd_def split: option.split)
  from send_spec [OF buf x, of out delay] assms(4) obtain t' frame pd where
    s: "SendSinglePacket out delay x ?t = Some (tx_ret out, t')"
      "txSkbQ (wmm (t_wlan t')) = txSkbQ (wmm (t_wlan ?t))" "card_writes t' = card_writes ?t @ [frame]" "frame_of frame pd (sk_data x)"
      "TxPacketLength pd = of_nat (length (sk_data x))" "TxDestAddr pd = take 6 (sk_data x)"
      "enabled (wmm (t_wlan ?t)) \<longrightarrow> Priority pd = sk_priority x" by (auto split: if_splits)
  have "wmm_process_tx out delay t = Some (t'\<lparr>HisRegCpy := HisRegCpy t' AND NOT HIS_TxDnLdRdy\<rparr>)"
    using assms(3,5) q(5) s(1) en by (auto simp: wmm_process_tx_def wlan_process_tx_def)
  with s q en show ?thesis
    by (intro exI [of _ pre] exI [of _ ac] exI [of _ post] exI [of _ x] exI [of _ xs]
        exI [of _ "t'\<lparr>HisRegCpy := HisRegCpy t' AND NOT HIS_TxDnLdRdy\<rparr>"] exI [of _ frame] exI [of _ pd]) simp
qed

definition sample_queued :: txdev where
  "sample_queued = snd (wlan_tx_packet (sample_skb 0xE0) (snd (wlan_tx_packet (sample_skb 0x20) sample_txdev)))"

lemma sample_acs: "skb_ac (sample_skb 0xE0) = 3" "skb_ac (sample_skb 0x20) = 0"
  by (simp_all add: skb_ac_def sample_skb_def ETH_P_IP_def wmm_convert_tos_to_ac_def tos_to_ac_def)

lemma sample_wmm: "wmm (t_wlan sample_txdev) = zero_wmm\<lparr>queuePriority := [3, 2, 1, 0], acDowngradedVals := [0, 1, 2, 3]\<rparr>"
  by (simp add: sample_txdev_def setup_queues_fields)
    (simp add: wmm_init_def zero_wmm_def wmm_setup_queue_priorities_def wmm_default_queue_priorities_def upt_rec)

lemma sample_queued_wmm:
  "wmm (t_wlan sample_queued) = (wmm (t_wlan sample_txdev))\<lparr>packetsQueued := 2,
     txSkbQ := [[tagged (sample_skb 0x20)], [], [], [tagged (sample_skb 0xE0)]]\<rparr>"
  by (simp add: sample_queued_def wlan_tx_packet_def add_fields sample_acs sample_wmm zero_wmm_def Let_def numeral_3_eq_3)
    (simp add: eval_nat_numeral)

lemma add_keeps:
  "dnld_sent (wmm_map_and_add_skb skb s) = dnld_sent s" "PSState (wmm_map_and_add_skb skb s) = PSState s"
  "link_up (wmm_map_and_add_skb skb s) = link_up s"
  by (simp_all add: wmm_map_and_add_skb_def wmm_process_app_iface_tx_def os_stop_queue_def wmm_upd_def Let_def)

lemma setup_keeps:
  "dnld_sent (wmm_setup_queues s) = dnld_sent s" "PSState (wmm_setup_queues s) = PSState s"
  by (simp_all add: wmm_setup_queues_def wmm_setup_ac_downgrade_def wmm_setup_queue_priorities_def
      wmm_default_queue_priorities_def wmm_upd_def Let_def)

lemma sample_queued_ok: "tx_ok sample_queued"
  unfolding sample_queued_def by (intro add_packet_ok sample_txdev_ok) (simp_all add: sample_skb_def)

lemma sample_queued_idle: "dnld_sent (t_wlan sample_queued) = False" "PSState (t_wlan sample_queued) = PS_STATE_FULL_POWER"
  by (simp_all add: sample_queued_def wlan_tx_packet_def add_keeps sample_txdev_def setup_keeps wmm_init_def)

theorem tx_highest_first_witness:
  "\<exists>t' frame pd. wmm_process_tx (\<lambda>_. 0) 0 sample_queued = Some t' \<and>
    txSkbQ (wmm (t_wlan t')) = [[tagged (sample_skb 0x20)], [], [], []] \<and>
    card_writes t' = card_writes sample_queued @ [frame] \<and> frame_of frame pd (replicate 60 1)"
proof -
  have q: "txSkbQ (wmm (t_wlan sample_queued)) = [[tagged (sample_skb 0x20)], [], [], [tagged (sample_skb 0xE0)]]"
    "queuePriority (wmm (t_wlan sample_queued)) = [3, 2, 1, 0]" by (simp_all add: sample_queued_wmm sample_wmm)
  have d: "sk_data (tagged (sample_skb tos)) = replicate 60 1" for tos by (simp add: tagged_def sample_skb_def)
  have e: "\<not> wmm_lists_empty (t_wlan sample_queued)" by (simp add: wmm_lists_empty_def q)
  have r: "0 \<le> tx_ret (\<lambda>_. 0)" by (simp add: tx_ret_def iomem_retry_cases)
  have l: "\<forall>ac < 4. \<forall>x \<in> set (txSkbQ (wmm (t_wlan sample_queued)) ! ac). length (sk_data x) \<le> 1574"
    by (auto simp: q less_Suc_eq eval_nat_numeral d)
  from tx_highest_first [OF sample_queued_ok e _ r _ l, of 0] sample_queued_idle
  obtain pre ac post x xs t' frame pd where p: "[3, 2, 1, 0] = pre @ ac # post"
    "\<forall>a \<in> set pre. txSkbQ (wmm (t_wlan sample_queued)) ! a = []"
    "txSkbQ (wmm (t_wlan sample_queued)) ! ac = x # xs" "wmm_process_tx (\<lambda>_. 0) 0 sample_queued = Some t'"
    "txSkbQ (wmm (t_wlan t')) = (txSkbQ (wmm (t_wlan sample_queued)))[ac := xs]"
    "card_writes t' = card_writes sample_queued @ [frame]" "frame_of frame pd (sk_data x)" unfolding q(2) by auto
  have "pre = []" using p(1,2) by (cases pre) (auto simp: q numeral_3_eq_3)
  then have "ac = 3" using p(1) by simp
  then have "x = tagged (sample_skb 0xE0)" "xs = []" using p(3) by (simp_all add: q numeral_3_eq_3)
  with p \<open>ac = 3\<close> d show ?thesis by (auto simp: q numeral_3_eq_3)
qed

text \<open>C32. The retry loop of a transfer ends: for every behaviour of the bus it makes at most three
  attempts, it stops at the first one that succeeds with that result, and fails with -1 exactly
  when three in a row fail.\<close>

theorem iomem_retry_ends:
  "snd (iomem_retry out 0) \<le> 3 \<and> (fst (iomem_retry out 0) < 0 \<longleftrightarrow> out 0 < 0 \<and> out 1 < 0 \<and> out 2 < 0) \<and>
   (0 \<le> out 0 \<longrightarrow> iomem_retry out 0 = (out 0, 0)) \<and> (out 0 < 0 \<and> 0 \<le> out 1 \<longrightarrow> iomem_retry out 0 = (out 1, 1)) \<and>
   (out 0 < 0 \<and> out 1 < 0 \<and> 0 \<le> out 2 \<longrightarrow> iomem_retry out 0 = (out 2, 2))"
  by (auto simp: iomem_retry_cases)

theorem iomem_retry_ends_witness:
  "iomem_retry (\<lambda>i. if i = 1 then 0 else - 5) 0 = (0, 1)"
  using iomem_retry_ends [of "\<lambda>i. if i = 1 then 0 else - 5"] by simp

lemma send_fails:
  assumes "length (TmpTxBuf t) = WLAN_UPLD_SIZE" and "wmm_ok (t_wlan t)" and "6 \<le> length (sk_data skb)" and "tx_ret out < 0"
  shows "\<exists>ret t'. SendSinglePacket out delay skb t = Some (ret, t') \<and> wmm (t_wlan t') = wmm (t_wlan t) \<and>
    netif_stopped (t_wlan t') = netif_stopped (t_wlan t)"
proof (cases "length (sk_data skb) \<le> 1574")
  case True
  have "length (userPriPktTxCtrl (wmm (t_wlan t))) = 8" using assms(2) by (simp add: wmm_ok_def Let_def)
  from send_spec [OF assms(1) this assms(3) True, of out delay] assms(4) show ?thesis by auto
next
  case False
  then have "SendSinglePacket out delay skb t = Some (- 1, tx_done_label (- 1) skb t)"
    by (simp add: SendSinglePacket_def MRVDRV_ETH_TX_PACKET_BUFFER_SIZE_def sizeof_TxPD_def)
  then show ?thesis by (simp add: tx_done_label_def os_free_tx_packet_def split: option.split)
qed

text \<open>One failed transfer stalls the stack: given one packet in an idle, awake driver, when the three
  attempts on the bus fail, the packet is gone and every queue is empty, but the network stack
  stays stopped and the count of queued packets is one too high; later rounds of the main loop
  change nothing.\<close>

theorem tx_failure_stops_stack:
  assumes "tx_ok t" and "wmm_lists_empty (t_wlan t)" and "\<not> dnld_sent (t_wlan t)" and "PSState (t_wlan t) = PS_STATE_FULL_POWER"
    and "\<not> wmm_is_queue_stopped (t_wlan t)" and "6 \<le> length (sk_data skb)" and "tx_ret out < 0"
  shows "\<exists>t'. main_tx out delay (snd (wlan_tx_packet skb t)) = Some t' \<and> wmm_lists_empty (t_wlan t') \<and>
    netif_stopped (t_wlan t') \<and> packetsQueued (wmm (t_wlan t')) = packetsQueued (wmm (t_wlan t)) + 1 \<and>
    (\<forall>out' delay'. main_tx out' delay' t' = Some t')"
proof -
  let ?w = "wmm (t_wlan t)"
  let ?d = "acDowngradedVals ?w ! skb_ac skb"
  let ?t1 = "snd (wlan_tx_packet skb t)" and ?x = "tagged skb"
  let ?t2 = "t_upd wmm_pop_highest_prio_skb ?t1"
  have ok: "wmm_ok (t_wlan t)" using assms(1) by (simp add: tx_ok_def)
  have "skb_ac skb < 4" unfolding skb_ac_def by (rule tos_to_ac_less)
  then have "?d \<in> set (acDowngradedVals ?w)" using ok by (simp add: wmm_ok_def Let_def)
  then have d: "?d < 4" using ok by (auto simp: wmm_ok_def Let_def)
  have qs: "txSkbQ ?w = replicate 4 []"
    using assms(2) ok by (intro nth_equalityI) (auto simp: wmm_lists_empty_def list_all_length wmm_ok_def Let_def)
  have q1: "txSkbQ (wmm (t_wlan ?t1)) = (replicate 4 [])[?d := [?x]]"
    using d by (simp add: wlan_tx_packet_def add_fields Let_def qs)
  have w1: "wmm (t_wlan ?t1) = ?w\<lparr>txSkbQ := (replicate 4 [])[?d := [?x]], packetsQueued := packetsQueued ?w + 1\<rparr>"
    using d by (simp add: wlan_tx_packet_def add_fields Let_def qs)
  have ok1: "wmm_ok (t_wlan ?t1)" using add_ok [OF ok] by (simp add: wlan_tx_packet_def)
  have ne: "\<not> wmm_lists_empty (t_wlan ?t1)" using d by (auto simp: wmm_lists_empty_def q1 list_all_length)
  have ps: "dnld_sent (t_wlan ?t1) = False" "PSState (t_wlan ?t1) = PS_STATE_FULL_POWER" "wmm_is_queue_stopped (t_wlan ?t1) = False"
    using assms(3-5) w1 by (simp_all add: wlan_tx_packet_def add_keeps wmm_is_queue_stopped_def)
  have stop: "netif_stopped (t_wlan ?t1)"
    using assms(3,4) by (simp add: wlan_tx_packet_def wmm_map_and_add_skb_def wmm_process_app_iface_tx_def os_stop_queue_def wmm_upd_def Let_def)
  from pop_spec [OF ok1 ne] obtain ac x xs where p: "ac < 4" "txSkbQ (wmm (t_wlan ?t1)) ! ac = x # xs"
    "CurrentTxSkb (t_wlan ?t2) = Some x" "txSkbQ (wmm (t_wlan ?t2)) = (txSkbQ (wmm (t_wlan ?t1)))[ac := xs]" by auto
  have ac: "ac = ?d" "x = ?x" "xs = []" using p(1,2) d by (cases "ac = ?d"; simp add: q1)+
  have q2: "txSkbQ (wmm (t_wlan ?t2)) = replicate 4 []"
    using p(4) d by (intro nth_equalityI) (simp_all add: ac q1 nth_list_update)
  have k2: "dnld_sent (t_wlan ?t2) = dnld_sent (t_wlan ?t1)" "netif_stopped (t_wlan ?t2) = netif_stopped (t_wlan ?t1)"
    "packetsQueued (wmm (t_wlan ?t2)) = packetsQueued (wmm (t_wlan ?t1))" "TmpTxBuf ?t2 = TmpTxBuf t"
    by (simp_all add: wmm_pop_highest_prio_skb_def wmm_upd_def wlan_tx_packet_def split: option.split)
  have "wmm_ok (t_wlan ?t2)" using pop_ok [OF ok1] by simp
  moreover have "6 \<le> length (sk_data x)" using assms(6) by (simp add: ac(2) tagged_def)
  ultimately obtain ret t3 where s: "SendSinglePacket out delay x ?t2 = Some (ret, t3)" "wmm (t_wlan t3) = wmm (t_wlan ?t2)"
    "netif_stopped (t_wlan t3) = netif_stopped (t_wlan ?t2)"
    using send_fails [of ?t2 x out delay] assms(1,7) k2(4) by (auto simp: tx_ok_def)
  let ?t4 = "t3\<lparr>HisRegCpy := HisRegCpy t3 AND NOT HIS_TxDnLdRdy\<rparr>"
  have "main_tx out delay ?t1 = Some ?t4"
    using ps ne p(3) k2(1) s(1) by (simp add: main_tx_def wmm_process_tx_def wlan_process_tx_def)
  moreover have "wmm_lists_empty (t_wlan ?t4)" using s(2) q2 by (simp add: wmm_lists_empty_def list_all_length)
  ultimately show ?thesis using s k2 stop w1 by (intro exI [of _ ?t4]) (simp add: main_tx_def)
qed

theorem tx_failure_stops_stack_witness:
  "\<exists>t'. main_tx (\<lambda>_. - 1) 0 (snd (wlan_tx_packet (sample_skb 0) sample_txdev)) = Some t' \<and> wmm_lists_empty (t_wlan t') \<and>
    netif_stopped (t_wlan t') \<and> packetsQueued (wmm (t_wlan t')) = 1"
proof -
  have "wmm_lists_empty (t_wlan sample_txdev)" "\<not> wmm_is_queue_stopped (t_wlan sample_txdev)"
    "packetsQueued (wmm (t_wlan sample_txdev)) = 0"
    by (simp_all add: wmm_lists_empty_def list_all_length wmm_is_queue_stopped_def sample_wmm zero_wmm_def)
  moreover have "\<not> dnld_sent (t_wlan sample_txdev)" "PSState (t_wlan sample_txdev) = PS_STATE_FULL_POWER"
    by (simp_all add: sample_txdev_def setup_keeps wmm_init_def)
  moreover have "6 \<le> length (sk_data (sample_skb 0))" "tx_ret (\<lambda>_. - 1) < 0"
    by (simp_all add: sample_skb_def tx_ret_def iomem_retry_cases)
  ultimately show ?thesis
    using tx_failure_stops_stack [OF sample_txdev_ok, of "sample_skb 0" "\<lambda>_. - 1" 0] by auto
qed

end
