(* ===== verification/WlanStatus.thy ===== *)
theory WlanStatus
  imports WlanWmm
begin

text \<open>
  The firmware's report on the transmit queues, \<^verbatim>\<open>wlan_cmdresp_wmm_get_status\<close> of
  \<^verbatim>\<open>wlan_wmm.c\<close>: a sequence of type-length-value records in the command buffer, with
  the state of each queue and the current WMM element. The handler works in place on the
  buffer; an access outside of it is \<^term>\<open>None\<close>.
\<close>

definition TLV_TYPE_WMMQSTATUS :: u16 where "TLV_TYPE_WMMQSTATUS = 0x0110"
definition WMM_IE_TYPE :: u16 where "WMM_IE_TYPE = 221"
definition sizeof_WmmParameter :: nat where "sizeof_WmmParameter = 26"

text \<open>One round of the loop at offset \<open>pos\<close>. For a queue record the status is stored. For a WMM element the
  code lays an element header over the last two bytes of the record header, writes its length
  and its type there, and copies the element. The record length that the loop then adds is read
  from the buffer again. The result has the buffer, that length, the new status and
  whether the type was known.\<close>

definition tlv_step :: "u8 list \<Rightarrow> nat \<Rightarrow> WmmAcStatus list \<times> u8 list \<Rightarrow>
    (u8 list \<times> nat \<times> (WmmAcStatus list \<times> u8 list) \<times> bool) option" where
  "tlv_step buf pos = (\<lambda>(st, ie).
     do { t0 \<leftarrow> mem_get buf pos; t1 \<leftarrow> mem_get buf (pos + 1);
          l0 \<leftarrow> mem_get buf (pos + 2); l1 \<leftarrow> mem_get buf (pos + 3);
          let len = le16_to l0 l1;
          if le16_to t0 t1 = TLV_TYPE_WMMQSTATUS then
            do { q \<leftarrow> mem_get buf (pos + 4); dis \<leftarrow> mem_get buf (pos + 5);
                 req \<leftarrow> mem_get buf (pos + 8); created \<leftarrow> mem_get buf (pos + 9);
                 st \<leftarrow> mem_put st (unat q) \<lparr>Disabled = dis, FlowRequired = req, FlowCreated = created\<rparr>;
                 Some (buf, unat len, (st, ie), True) }
          else if le16_to t0 t1 = WMM_IE_TYPE then
            do { buf \<leftarrow> mem_put buf (pos + 3) (ucast len);
                 buf \<leftarrow> mem_put buf (pos + 2) 221;
                 n \<leftarrow> mem_get buf (pos + 3);
                 elem \<leftarrow> mem_sub buf (pos + 2) (unat n + 2);
                 ie \<leftarrow> mem_copy ie 0 elem;
                 l0 \<leftarrow> mem_get buf (pos + 2); l1 \<leftarrow> mem_get buf (pos + 3);
                 Some (buf, unat (le16_to l0 l1), (st, ie), True) }
          else Some (buf, unat len, (st, ie), False) })"

lemma tlv_step_in: "pos + 3 \<ge> length buf \<Longrightarrow> tlv_step buf pos s = None"
proof -
  assume "pos + 3 \<ge> length buf"
  then have "mem_get buf (pos + 3) = None" by (rule mem_get_out)
  then show ?thesis by (simp add: tlv_step_def split: prod.split option.split bind_split)
qed

lemma tlv_step_length: "tlv_step buf pos s = Some (buf', adv, s', v) \<Longrightarrow> length buf' = length buf"
  by (auto simp: tlv_step_def Let_def bind_eq_Some_conv split: if_splits prod.splits dest!: mem_put_length)

lemma tlv_step_bounds: "tlv_step buf pos s = Some (buf', adv, s', v) \<Longrightarrow> pos + 3 < length buf \<and> length buf' = length buf"
  using tlv_step_in [of buf pos s] tlv_step_length [of buf pos s] by (cases "pos + 3 < length buf") auto

text \<open>The loop; the remaining length is an unsigned word.\<close>

function tlv_loop :: "u8 list \<Rightarrow> nat \<Rightarrow> u32 \<Rightarrow> WmmAcStatus list \<times> u8 list \<Rightarrow> (WmmAcStatus list \<times> u8 list) option" where
  "tlv_loop buf pos respLen s =
     (if respLen < 4 then Some s
      else
        case tlv_step buf pos s of
          None \<Rightarrow> None
        | Some (buf', len, s', valid) \<Rightarrow>
            if \<not> valid then Some s' else tlv_loop buf' (pos + len + 4) (respLen - of_nat (len + 4)) s')"
  by auto

termination
  by (relation "measure (\<lambda>(buf, pos, respLen, s). length buf - pos)") (auto dest: tlv_step_bounds)

declare tlv_loop.simps [simp del]

text \<open>The whole handler. \<open>buf\<close> is the buffer behind the eight bytes of the response header, \<open>rsize\<close> the length
  in that header.\<close>

definition wlan_cmdresp_wmm_get_status :: "u8 list \<Rightarrow> u16 \<Rightarrow> wlan \<Rightarrow> (int \<times> wlan) option" where
  "wlan_cmdresp_wmm_get_status buf rsize s =
     do { (st, ie) \<leftarrow> tlv_loop buf 0 (ucast rsize) (acStatus (wmm s), wmmIE s);
          let s = (wmm_upd (\<lambda>w. w\<lparr>acStatus := st\<rparr>) s)\<lparr>wmmIE := ie\<rparr>;
          let s = wmm_setup_ac_downgrade (wmm_setup_queue_priorities s);
          Some (0, os_start_queue (os_carrier_on (wmm_start_queue s))) }"

section \<open>Queue records\<close>

type_synonym qrec = "u8 \<times> WmmAcStatus"

definition record_bytes :: "qrec \<Rightarrow> u8 list" where
  "record_bytes = (\<lambda>(q, r). [0x10, 1, 10, 0, q, Disabled r, 0, 0, FlowRequired r, FlowCreated r, 0, 0, 0, 0])"

definition store_record :: "qrec \<Rightarrow> WmmAcStatus list \<Rightarrow> WmmAcStatus list" where
  "store_record = (\<lambda>(q, r) st. st[unat q := r])"

lemma mem_get_app: "mem_get (pre @ xs) (length pre + i) = mem_get xs i"
  by (simp add: mem_get_def nth_append)

lemma record_step:
  assumes "unat (fst r) < length st"
  shows "tlv_step (pre @ record_bytes r @ post) (length pre) (st, ie) =
    Some (pre @ record_bytes r @ post, 10, (store_record r st, ie), True)"
proof -
  obtain q w where r: "r = (q, w)" by fastforce
  have g: "mem_get (pre @ record_bytes r @ post) (length pre + i) = mem_get (record_bytes r @ post) i" for i
    by (rule mem_get_app)
  have l: "le16_to 16 1 = TLV_TYPE_WMMQSTATUS" "unat (le16_to 10 0) = 10"
    by (simp_all add: le16_to_def TLV_TYPE_WMMQSTATUS_def)
  let ?buf = "pre @ record_bytes r @ post"
  have gs: "mem_get ?buf (length pre) = Some 16" "mem_get ?buf (length pre + 1) = Some 1" "mem_get ?buf (length pre + 2) = Some 10"
    "mem_get ?buf (length pre + 3) = Some 0" "mem_get ?buf (length pre + 4) = Some q" "mem_get ?buf (length pre + 5) = Some (Disabled w)"
    "mem_get ?buf (length pre + 8) = Some (FlowRequired w)" "mem_get ?buf (length pre + 9) = Some (FlowCreated w)"
    using g [of 0] unfolding g by (simp_all add: mem_get_def r record_bytes_def)
  have "\<lparr>Disabled = Disabled w, FlowRequired = FlowRequired w, FlowCreated = FlowCreated w\<rparr> = w" by simp
  then have "mem_put st (unat q) \<lparr>Disabled = Disabled w, FlowRequired = FlowRequired w, FlowCreated = FlowCreated w\<rparr> = Some (store_record r st)"
    using assms by (simp only:) (simp add: mem_put_in r store_record_def)
  then show ?thesis using gs l by (simp add: tlv_step_def Let_def)
qed

lemma record_loop:
  assumes "\<forall>r \<in> set rs. unat (fst r) < 4" and "length st = 4" and "14 * length rs + 4 \<le> unat respLen"
    and "buf = pre @ concat (map record_bytes rs) @ post"
  shows "tlv_loop buf (length pre) respLen (st, ie) =
    tlv_loop buf (length pre + 14 * length rs) (respLen - of_nat (14 * length rs)) (fold store_record rs st, ie)"
  using assms
proof (induction rs arbitrary: pre st respLen)
  case (Cons r rs)
  let ?pre = "pre @ record_bytes r"
  have len: "length (record_bytes r) = 14" by (simp add: record_bytes_def split: prod.split)
  have b: "buf = ?pre @ concat (map record_bytes rs) @ post" using Cons.prems(4) by simp
  have ge: "\<not> respLen < 4" using Cons.prems(3) by (simp add: word_less_nat_alt)
  have step: "tlv_step buf (length pre) (st, ie) = Some (buf, 10, (store_record r st, ie), True)"
    using record_step [of r st pre "concat (map record_bytes rs) @ post" ie] Cons.prems by simp
  have le: "(14 :: u32) \<le> respLen" using Cons.prems(3) by (simp add: word_le_nat_alt)
  have u: "unat (respLen - 14) = unat respLen - 14" using unat_sub [OF le] by simp
  have "tlv_loop buf (length pre) respLen (st, ie) = tlv_loop buf (length ?pre) (respLen - 14) (store_record r st, ie)"
    using ge step len by (simp add: tlv_loop.simps [of buf "length pre"] add.commute)
  also have "\<dots> = tlv_loop buf (length ?pre + 14 * length rs) (respLen - 14 - of_nat (14 * length rs)) (fold store_record rs (store_record r st), ie)"
    using Cons.prems u b by (intro Cons.IH) (auto simp: store_record_def split: prod.splits)
  finally show ?case using len by (simp add: algebra_simps)
qed simp

section \<open>The WMM element\<close>

lemma element_overruns:
  assumes "buf = pre @ [221, 0, 24, 0] @ body @ post" and "length body = 24" and "length buf \<le> 2040"
    and "4 \<le> unat respLen" and "unat respLen < 6369" and "length ie = sizeof_WmmParameter"
  shows "tlv_loop buf (length pre) respLen (st, ie) = None"
proof -
  let ?buf = "pre @ [221, 0, 221, 24] @ body @ post"
  have g: "mem_get (pre @ xs) (length pre + i) = mem_get xs i" for xs :: "u8 list" and i by (rule mem_get_app)
  have l: "le16_to 221 0 = WMM_IE_TYPE" "le16_to 24 0 = 24" "WMM_IE_TYPE \<noteq> TLV_TYPE_WMMQSTATUS" "unat (le16_to 221 24) = 6365"
    by (simp_all add: le16_to_def WMM_IE_TYPE_def TLV_TYPE_WMMQSTATUS_def)
  have p3: "mem_put buf (length pre + 3) 24 = Some (pre @ [221, 0, 24, 24] @ body @ post)"
    using assms(1) by (simp add: mem_put_def list_update_append numeral_3_eq_3)
  have p2: "mem_put (pre @ [221, 0, 24, 24] @ body @ post) (length pre + 2) 221 = Some ?buf"
    by (simp add: mem_put_def list_update_append numeral_2_eq_2)
  have sub: "mem_sub ?buf (length pre + 2) 26 = Some ([221, 24] @ body)"
    using assms(2) by (simp add: mem_sub_def numeral_2_eq_2)
  obtain ie' where cp: "mem_copy ie 0 ([221, 24] @ body) = Some ie'"
    using assms(2,6) by (simp add: mem_copy_def sizeof_WmmParameter_def)
  have gb: "mem_get buf (length pre) = Some 221" "mem_get buf (length pre + 1) = Some 0"
    "mem_get buf (length pre + 2) = Some 24" "mem_get buf (length pre + 3) = Some 0"
    using g [of "[221, 0, 24, 0] @ body @ post" 0] unfolding assms(1) g by (simp_all add: mem_get_def)
  have gb': "mem_get ?buf (length pre + 2) = Some 221" "mem_get ?buf (length pre + 3) = Some 24"
    unfolding g by (simp_all add: mem_get_def)
  have step: "tlv_step buf (length pre) (st, ie) = Some (?buf, 6365, (st, ie'), True)"
    using gb gb' p3 p2 sub cp l by (simp add: tlv_step_def Let_def)
  have "length ?buf = length buf" by (simp add: assms(1))
  then have out: "tlv_step ?buf (length pre + 6365 + 4) (st, ie') = None"
    using assms(3) by (simp add: tlv_step_def mem_get_def)
  have ge: "\<not> respLen < 4" using assms(4) by (simp add: word_less_nat_alt)
  have "unat (respLen - 6369) = unat respLen + 2 ^ 32 - 6369"
    using assms(5) by (simp add: unat_sub_if_size word_size word_le_nat_alt)
  then have "\<not> respLen - 6369 < 4" by (simp add: word_less_nat_alt)
  then have "tlv_loop ?buf (length pre + 6365 + 4) (respLen - 6369) (st, ie') = None"
    using out by (subst tlv_loop.simps) simp
  then show ?thesis using step ge by (subst tlv_loop.simps) simp
qed

section \<open>Properties\<close>

lemma unat_rsize: "unat (ucast (of_nat n :: u16) :: u32) = n" if "n < 65536"
  using that by (simp add: unsigned_ucast_eq unsigned_of_nat take_bit_nat_eq_self)

text \<open>A report of queue records sets the status of each queue: the records are stored in order, the
  priorities and downgrades follow from them, and transmission is allowed again. The length of the
  response includes its header of eight bytes, so the loop goes on into what lies behind the
  records; the statement holds when that is no known record.\<close>

theorem status_records_stored:
  assumes "\<forall>r \<in> set rs. unat (fst r) < 4" and "length (acStatus (wmm s)) = 4" and "length rs \<le> 100"
    and "buf = concat (map record_bytes rs) @ t0 # t1 # l0 # l1 # post"
    and "le16_to t0 t1 \<noteq> TLV_TYPE_WMMQSTATUS" and "le16_to t0 t1 \<noteq> WMM_IE_TYPE"
  shows "\<exists>s'. wlan_cmdresp_wmm_get_status buf (of_nat (8 + 14 * length rs)) s = Some (0, s') \<and>
    acStatus (wmm s') = fold store_record rs (acStatus (wmm s)) \<and> \<not> queueStopped (wmm s') \<and>
    (enabled (wmm s) \<longrightarrow> acDowngradedVals (wmm s') = map (downgrade_spec (fold store_record rs (acStatus (wmm s)))) [0..<4])"
proof -
  let ?n = "14 * length rs" and ?st = "fold store_record rs (acStatus (wmm s))"
  let ?r = "ucast (of_nat (8 + ?n) :: u16) :: u32"
  have r: "unat ?r = 8 + ?n" using assms(3) by (intro unat_rsize) simp
  have len: "length (concat (map record_bytes rs)) = ?n"
    by (induction rs) (simp_all add: record_bytes_def split: prod.split)
  have "tlv_loop buf 0 ?r (acStatus (wmm s), wmmIE s) = tlv_loop buf ?n (?r - of_nat ?n) (?st, wmmIE s)"
    using record_loop [OF assms(1,2), of ?r buf "[]" "t0 # t1 # l0 # l1 # post" "wmmIE s"] assms(4) r by simp
  also have "\<dots> = Some (?st, wmmIE s)"
  proof -
    have g: "mem_get buf (?n + i) = mem_get (t0 # t1 # l0 # l1 # post) i" for i
      using mem_get_app [of "concat (map record_bytes rs)" "t0 # t1 # l0 # l1 # post" i] assms(4) len by simp
    have "tlv_step buf ?n (?st, wmmIE s) = Some (buf, unat (le16_to l0 l1), (?st, wmmIE s), False)"
      using g [of 0] g [of 1] g [of 2] g [of 3] assms(5,6) by (simp add: tlv_step_def Let_def mem_get_def)
    then show ?thesis by (subst tlv_loop.simps) simp
  qed
  finally have l: "tlv_loop buf 0 ?r (acStatus (wmm s), wmmIE s) = Some (?st, wmmIE s)" .
  let ?s1 = "(wmm_upd (\<lambda>w. w\<lparr>acStatus := ?st\<rparr>) s)\<lparr>wmmIE := wmmIE s\<rparr>"
  let ?s2 = "os_start_queue (os_carrier_on (wmm_start_queue (wmm_setup_queues ?s1)))"
  have "wlan_cmdresp_wmm_get_status buf (of_nat (8 + ?n)) s = Some (0, ?s2)"
    unfolding wlan_cmdresp_wmm_get_status_def l by (simp add: wmm_setup_queues_def)
  moreover have "acStatus (wmm ?s2) = ?st" "\<not> queueStopped (wmm ?s2)"
    "enabled (wmm s) \<Longrightarrow> acDowngradedVals (wmm ?s2) = map (downgrade_spec ?st) [0..<4]"
    by (simp_all add: wmm_start_queue_def setup_queues_fields del: upt_Suc)
  ultimately show ?thesis by blast
qed

theorem status_records_stored_witness:
  "\<exists>s'. wlan_cmdresp_wmm_get_status (record_bytes (3, \<lparr>Disabled = 1, FlowRequired = 1, FlowCreated = 0\<rparr>) @ replicate 60 0) 22 sample_wlan = Some (0, s') \<and>
    acStatus (wmm s') ! 3 = \<lparr>Disabled = 1, FlowRequired = 1, FlowCreated = 0\<rparr>"
proof -
  let ?r = "(3, \<lparr>Disabled = 1, FlowRequired = 1, FlowCreated = 0\<rparr>) :: qrec"
  have z: "le16_to 0 0 \<noteq> TLV_TYPE_WMMQSTATUS" "le16_to 0 0 \<noteq> WMM_IE_TYPE"
    by (simp_all add: le16_to_def TLV_TYPE_WMMQSTATUS_def WMM_IE_TYPE_def)
  have l: "length (acStatus (wmm sample_wlan)) = 4" by (simp add: sample_wlan_def)
  have b: "record_bytes ?r @ replicate 60 0 = concat (map record_bytes [?r]) @ 0 # 0 # 0 # 0 # replicate 56 0"
    by (simp add: numeral_eq_Suc)
  have "fold store_record [?r] (acStatus (wmm sample_wlan)) ! 3 = snd ?r" using l by (simp add: store_record_def)
  with status_records_stored [OF _ l _ b z] show ?thesis by fastforce
qed

text \<open>Every report with the WMM element makes the handler leave its buffer: writing the element's header
  over the length of the record makes the loop continue 6369 bytes further on, while the whole
  buffer has 2048.\<close>

theorem status_element_overrun:
  assumes "\<forall>r \<in> set rs. unat (fst r) < 4" and "length (acStatus (wmm s)) = 4" and "length (wmmIE s) = sizeof_WmmParameter"
    and "buf = concat (map record_bytes rs) @ [221, 0, 24, 0] @ body @ post" and "length body = 24" and "length buf \<le> 2040"
  shows "wlan_cmdresp_wmm_get_status buf (of_nat (8 + 14 * length rs + 28)) s = None"
proof -
  let ?n = "14 * length rs" and ?st = "fold store_record rs (acStatus (wmm s))"
  let ?r = "ucast (of_nat (8 + ?n + 28) :: u16) :: u32"
  have len: "length (concat (map record_bytes rs)) = ?n"
    by (induction rs) (simp_all add: record_bytes_def split: prod.split)
  then have n: "?n \<le> 2040" using assms(4,6) by simp
  then have r: "unat ?r = 36 + ?n" by (subst unat_rsize) simp_all
  have "of_nat ?n \<le> ?r" using r n by (simp add: word_le_nat_alt unat_of_nat del: of_nat_mult)
  then have r': "unat (?r - of_nat ?n) = 36" using r n by (simp add: unat_sub unat_of_nat del: of_nat_mult of_nat_add)
  have "tlv_loop buf 0 ?r (acStatus (wmm s), wmmIE s) = tlv_loop buf ?n (?r - of_nat ?n) (?st, wmmIE s)"
    using record_loop [OF assms(1,2), of ?r buf "[]" "[221, 0, 24, 0] @ body @ post" "wmmIE s"] assms(4) r by simp
  also have "\<dots> = None"
    using element_overruns [OF assms(4-6), of "?r - of_nat ?n" "wmmIE s" ?st] assms(3) r' len by simp
  finally show ?thesis unfolding wlan_cmdresp_wmm_get_status_def by simp
qed

theorem status_element_overrun_witness:
  "wlan_cmdresp_wmm_get_status ([221, 0, 24, 0] @ replicate 24 1 @ replicate 2012 0) 36 sample_wlan = None"
  using status_element_overrun [of "[]" sample_wlan "[221, 0, 24, 0] @ replicate 24 1 @ replicate 2012 0" "replicate 24 1" "replicate 2012 0"]
  by (simp add: sample_wlan_def sizeof_WmmParameter_def)

end
