(* ===== verification/WlanRx.thy ===== *)
theory WlanRx
  imports Prelude
begin

text \<open>
  Reception of packets by the wireless driver, \<^verbatim>\<open>wlan_rx.c\<close>: the rewriting of a
  received frame into an Ethernet frame for the network stack, the moving averages of signal and noise,
  and the events that user space subscribes to. A frame is the memory of its buffer with the length
  of the data in it; an access outside of that memory is \<^term>\<open>None\<close>.
\<close>

section \<open>State\<close>

definition DEFAULT_DATA_AVG_FACTOR :: u16 where "DEFAULT_DATA_AVG_FACTOR = 8"
definition MIN_DATA_AVG_FACTOR :: int where "MIN_DATA_AVG_FACTOR = 1"
definition MAX_DATA_AVG_FACTOR :: int where "MAX_DATA_AVG_FACTOR = 8"
definition AVG_SCALE :: u16 where "AVG_SCALE = 100"

definition DATA_RSSI_LOW_BIT :: u16 where "DATA_RSSI_LOW_BIT = 1"
definition DATA_SNR_LOW_BIT :: u16 where "DATA_SNR_LOW_BIT = 2"
definition DATA_RSSI_HIGH_BIT :: u16 where "DATA_RSSI_HIGH_BIT = 4"
definition DATA_SNR_HIGH_BIT :: u16 where "DATA_SNR_HIGH_BIT = 8"

datatype cus_evt = CUS_EVT_DATA_RSSI_LOW | CUS_EVT_DATA_SNR_LOW | CUS_EVT_DATA_RSSI_HIGH | CUS_EVT_DATA_SNR_HIGH

record Threshold =
  thr_value :: u8
  thr_Freq :: u8

record wlan_subscribe_event =
  EventsBitmap :: u16
  Rssi_low :: Threshold
  Snr_low :: Threshold
  Rssi_high :: Threshold
  Snr_high :: Threshold
  Rssi_low_count :: u8
  Snr_low_count :: u8
  Rssi_high_count :: u8
  Snr_high_count :: u8

text \<open>Of the tables \<open>SNR\<close>, \<open>NF\<close> and \<open>RSSI\<close> the row \<open>TYPE_RXPD\<close> is kept; \<open>sent_events\<close>
  are the events given to user space, \<open>uploaded\<close> the frames given to the network stack.\<close>

record rxdev =
  data_avg_factor :: u16
  rawSNR :: "u8 list"
  rawNF :: "u8 list"
  nextSNRNF :: u16
  numSNRNF :: u16
  SNR_NOAVG :: u16
  SNR_AVG :: u16
  NF_NOAVG :: u16
  NF_AVG :: u16
  RSSI_NOAVG :: u8
  RSSI_AVG :: u8
  RxPDAge :: u32
  RxPDRate :: u16
  subevent :: wlan_subscribe_event
  sent_events :: "cus_evt list"
  uploaded :: "u8 list list"
  rx_packets :: u32
  rx_bytes :: u32
  rx_length_errors :: u32

section \<open>Averages\<close>

fun raw_sum :: "u8 list \<Rightarrow> nat \<Rightarrow> nat \<Rightarrow> u16 \<Rightarrow> u16 option" where
  "raw_sum raw i 0 temp = Some temp"
| "raw_sum raw i (Suc n) temp = do { x \<leftarrow> mem_get raw i; raw_sum raw (Suc i) n (temp + ucast x) }"

definition raw_avg :: "u8 list \<Rightarrow> u16 \<Rightarrow> u8 option" where
  "raw_avg raw num =
     (if num = 0 then Some 0 else do { temp \<leftarrow> raw_sum raw 0 (unat num) 0; Some (ucast (temp div num)) })"

definition wlan_getAvgSNR :: "rxdev \<Rightarrow> u8 option" where
  "wlan_getAvgSNR s = raw_avg (rawSNR s) (numSNRNF s)"

definition wlan_getAvgNF :: "rxdev \<Rightarrow> u8 option" where
  "wlan_getAvgNF s = raw_avg (rawNF s) (numSNRNF s)"

definition wlan_save_rawSNRNF :: "u8 \<times> u8 \<Rightarrow> rxdev \<Rightarrow> rxdev option" where
  "wlan_save_rawSNRNF = (\<lambda>(snr, nf) s.
     do { let s = (if numSNRNF s < data_avg_factor s then s\<lparr>numSNRNF := numSNRNF s + 1\<rparr> else s);
          snrs \<leftarrow> mem_put (rawSNR s) (unat (nextSNRNF s)) snr;
          nfs \<leftarrow> mem_put (rawNF s) (unat (nextSNRNF s)) nf;
          let s = s\<lparr>rawSNR := snrs, rawNF := nfs, nextSNRNF := nextSNRNF s + 1\<rparr>;
          Some (if nextSNRNF s \<ge> data_avg_factor s then s\<lparr>nextSNRNF := 0\<rparr> else s) })"

definition CAL_RSSI :: "u16 \<Rightarrow> u16 \<Rightarrow> int" where
  "CAL_RSSI snr nf = uint snr - uint nf"

section \<open>Events\<close>

text \<open>The body that the four events share, with the outcome of the comparison as \<open>hit\<close>: whether
  the event is sent, whether its bit is cleared, and the new count.\<close>

definition threshold_event :: "bool \<Rightarrow> u8 \<Rightarrow> u8 \<Rightarrow> bool \<times> bool \<times> u8" where
  "threshold_event hit freq count =
     (if hit then
        (if freq = 0 then (True, True, count)
         else if count + 1 \<ge> freq then (True, False, 0) else (False, False, count + 1))
      else (False, False, 0))"

definition check_event ::
  "u16 \<Rightarrow> cus_evt \<Rightarrow> bool \<Rightarrow> (wlan_subscribe_event \<Rightarrow> Threshold) \<Rightarrow> (wlan_subscribe_event \<Rightarrow> u8) \<Rightarrow>
   (u8 \<Rightarrow> wlan_subscribe_event \<Rightarrow> wlan_subscribe_event) \<Rightarrow> rxdev \<Rightarrow> rxdev" where
  "check_event b evt hit thr count set_count s =
     (if EventsBitmap (subevent s) AND b \<noteq> 0 then
        (case threshold_event hit (thr_Freq (thr (subevent s))) (count (subevent s)) of (send, clear, c) \<Rightarrow>
          (let e = set_count c (subevent s);
               e = (if clear then e\<lparr>EventsBitmap := EventsBitmap e AND NOT b\<rparr> else e)
           in s\<lparr>subevent := e, sent_events := (if send then sent_events s @ [evt] else sent_events s)\<rparr>))
      else s)"

definition avg_rssi_neg :: "rxdev \<Rightarrow> int" where
  "avg_rssi_neg s = - CAL_RSSI (SNR_AVG s div AVG_SCALE) (NF_AVG s div AVG_SCALE)"

definition check_rssi_low :: "rxdev \<Rightarrow> rxdev" where
  "check_rssi_low s = check_event DATA_RSSI_LOW_BIT CUS_EVT_DATA_RSSI_LOW
     (avg_rssi_neg s > uint (thr_value (Rssi_low (subevent s)))) Rssi_low Rssi_low_count (\<lambda>c e. e\<lparr>Rssi_low_count := c\<rparr>) s"

definition check_rssi_high :: "rxdev \<Rightarrow> rxdev" where
  "check_rssi_high s = check_event DATA_RSSI_HIGH_BIT CUS_EVT_DATA_RSSI_HIGH
     (avg_rssi_neg s < uint (thr_value (Rssi_high (subevent s)))) Rssi_high Rssi_high_count (\<lambda>c e. e\<lparr>Rssi_high_count := c\<rparr>) s"

definition check_snr_low :: "rxdev \<Rightarrow> rxdev" where
  "check_snr_low s = check_event DATA_SNR_LOW_BIT CUS_EVT_DATA_SNR_LOW
     (uint (SNR_AVG s div AVG_SCALE) < uint (thr_value (Snr_low (subevent s)))) Snr_low Snr_low_count (\<lambda>c e. e\<lparr>Snr_low_count := c\<rparr>) s"

definition check_snr_high :: "rxdev \<Rightarrow> rxdev" where
  "check_snr_high s = check_event DATA_SNR_HIGH_BIT CUS_EVT_DATA_SNR_HIGH
     (uint (SNR_AVG s div AVG_SCALE) > uint (thr_value (Snr_high (subevent s)))) Snr_high Snr_high_count (\<lambda>c e. e\<lparr>Snr_high_count := c\<rparr>) s"

definition wlan_check_subscribe_event :: "rxdev \<Rightarrow> rxdev" where
  "wlan_check_subscribe_event s =
     (if EventsBitmap (subevent s) = 0 then s
      else
        let b = EventsBitmap (subevent s);
            s = (if b AND DATA_RSSI_LOW_BIT \<noteq> 0 \<or> b AND DATA_RSSI_HIGH_BIT \<noteq> 0 then check_rssi_high (check_rssi_low s) else s);
            b = EventsBitmap (subevent s)
        in if b AND DATA_SNR_LOW_BIT \<noteq> 0 \<or> b AND DATA_SNR_HIGH_BIT \<noteq> 0 then check_snr_high (check_snr_low s) else s)"

definition wlan_compute_rssi :: "u32 \<Rightarrow> u8 \<Rightarrow> u8 \<Rightarrow> u8 \<Rightarrow> rxdev \<Rightarrow> rxdev option" where
  "wlan_compute_rssi now snr nf rate s =
     do { let s = s\<lparr>SNR_NOAVG := ucast snr, NF_NOAVG := ucast nf\<rparr>;
          s \<leftarrow> wlan_save_rawSNRNF (snr, nf) s;
          let s = s\<lparr>RxPDAge := now, RxPDRate := ucast rate\<rparr>;
          a \<leftarrow> wlan_getAvgSNR s;
          n \<leftarrow> wlan_getAvgNF s;
          let s = s\<lparr>SNR_AVG := ucast a * AVG_SCALE, NF_AVG := ucast n * AVG_SCALE\<rparr>;
          let s = s\<lparr>RSSI_NOAVG := of_int (CAL_RSSI (SNR_NOAVG s) (NF_NOAVG s)),
                    RSSI_AVG := of_int (CAL_RSSI (SNR_AVG s div AVG_SCALE) (NF_AVG s div AVG_SCALE))\<rparr>;
          Some (wlan_check_subscribe_event s) }"

section \<open>Frames\<close>

definition ETH_HLEN :: u32 where "ETH_HLEN = 14"

definition rfc1042_eth_hdr :: "u8 list" where "rfc1042_eth_hdr = [0xaa, 0xaa, 3, 0, 0, 0]"

text \<open>\<open>skb_pull\<close> on the position of the data in its buffer and its length.\<close>

definition skb_pull :: "nat \<Rightarrow> nat \<times> u32 \<Rightarrow> nat \<times> u32" where
  "skb_pull n = (\<lambda>(pos, len). if n > unat len then (pos, len) else (pos + n, len - of_nat n))"

text \<open>The replacement of the headers: the source address is moved first, since the new place of the
  destination overlaps the old one of the source. The result has the number of bytes to chop off.\<close>

definition rx_headers :: "u8 list \<Rightarrow> nat \<Rightarrow> (u8 list \<times> nat) option" where
  "rx_headers buf p =
     do { llc \<leftarrow> mem_sub buf (p + 14) 6;
          if llc = rfc1042_eth_hdr then
            do { src \<leftarrow> mem_sub buf (p + 6) 6;
                 buf \<leftarrow> mem_copy buf (p + 8 + 6) src;
                 dest \<leftarrow> mem_sub buf p 6;
                 buf \<leftarrow> mem_copy buf (p + 8) dest;
                 Some (buf, p + 8) }
          else Some (buf, p) }"

definition rx_upload :: "u32 \<Rightarrow> u32 \<Rightarrow> u8 list \<times> nat \<Rightarrow> rxdev \<Rightarrow> (int \<times> rxdev) option" where
  "rx_upload now len = (\<lambda>(buf, hdrChop) s.
     do { let (pos, len) = skb_pull hdrChop (0, len);
          snr \<leftarrow> mem_get buf 2;
          nf \<leftarrow> mem_get buf 6;
          rate \<leftarrow> mem_get buf 7;
          s \<leftarrow> wlan_compute_rssi now snr nf rate s;
          frame \<leftarrow> mem_sub buf pos (unat len);
          Some (0, s\<lparr>uploaded := uploaded s @ [frame], rx_bytes := rx_bytes s + len, rx_packets := rx_packets s + 1\<rparr>) })"

definition ProcessRxedPacket :: "u32 \<Rightarrow> u8 list \<times> u32 \<Rightarrow> rxdev \<Rightarrow> (int \<times> rxdev) option" where
  "ProcessRxedPacket now = (\<lambda>(buf, len) s.
     do { off \<leftarrow> mem_sub buf 8 4;
          let PktOffset = le32_to off;
          if len < ETH_HLEN + 8 + PktOffset then Some (0, s\<lparr>rx_length_errors := rx_length_errors s + 1\<rparr>)
          else
            do { b \<leftarrow> rx_headers buf (unat PktOffset);
                 rx_upload now len b s } })"

section \<open>Configuration\<close>

definition reset_raw :: "rxdev \<Rightarrow> rxdev" where
  "reset_raw s = s\<lparr>rawSNR := replicate 8 0, rawNF := replicate 8 0, nextSNRNF := 0, numSNRNF := 0\<rparr>"

text \<open>The ioctl \<open>WLANSETDATAAVG\<close>; an illegal value is refused before anything is changed.\<close>

definition set_data_avg :: "int \<Rightarrow> rxdev \<Rightarrow> int \<times> rxdev" where
  "set_data_avg idata s =
     (if idata = 0 then (0, reset_raw (s\<lparr>data_avg_factor := DEFAULT_DATA_AVG_FACTOR\<rparr>))
      else if idata > MAX_DATA_AVG_FACTOR \<or> idata < MIN_DATA_AVG_FACTOR then (- 22, s)
      else (0, reset_raw (s\<lparr>data_avg_factor := of_int idata\<rparr>)))"

text \<open>\<open>wlan_data_subscribe_event\<close> with up to nine integers from user space and both copies successful: the result and the
  nine integers given back.\<close>

definition wlan_data_subscribe_event :: "int list \<Rightarrow> rxdev \<Rightarrow> int \<times> int list \<times> rxdev" where
  "wlan_data_subscribe_event xs s =
     (if length xs > 9 then (- 14, [], s)
      else if length xs > 0 then
        (let d = xs @ replicate (9 - length xs) 0;
             t = (\<lambda>i. \<lparr>thr_value = of_int (d ! i), thr_Freq = of_int (d ! (i + 1))\<rparr>)
         in (0, d, s\<lparr>subevent := \<lparr>EventsBitmap = of_int (d ! 0), Rssi_low = t 1, Snr_low = t 3, Rssi_high = t 5, Snr_high = t 7,
               Rssi_low_count = 0, Snr_low_count = 0, Rssi_high_count = 0, Snr_high_count = 0\<rparr>\<rparr>))
      else
        (let e = subevent s; f = (\<lambda>t. [uint (thr_value t), uint (thr_Freq t)])
         in (0, uint (EventsBitmap e) # f (Rssi_low e) @ f (Snr_low e) @ f (Rssi_high e) @ f (Snr_high e), s)))"

section \<open>Moving windows\<close>

definition recent :: "nat \<Rightarrow> 'a list \<Rightarrow> 'a list" where
  "recent n xs = drop (length xs - n) xs"

lemma recent_recent: "recent n (recent n xs @ ys) = recent n (xs @ ys)"
  by (cases "length xs \<le> n") (auto simp: recent_def add.commute)

lemma recent_Nil [simp]: "recent n [] = []"
  by (simp add: recent_def)

lemma recent_short: "length xs \<le> n \<Longrightarrow> recent n xs = xs"
  by (simp add: recent_def)

lemma recent_snoc_full: "length xs = n \<Longrightarrow> 0 < n \<Longrightarrow> recent n (xs @ [x]) = tl xs @ [x]"
  by (cases xs) (auto simp: recent_def)

fun run :: "('a \<Rightarrow> 's \<Rightarrow> 's option) \<Rightarrow> 'a list \<Rightarrow> 's \<Rightarrow> 's option" where
  "run f [] s = Some s"
| "run f (a # as) s = do { s \<leftarrow> f a s; run f as s }"

lemma run_map: "run f (map g xs) = run (\<lambda>x. f (g x)) xs"
proof (induction xs)
  case (Cons x xs)
  show ?case by (rule ext) (simp add: Cons)
qed (simp add: fun_eq_iff)

text \<open>A state that keeps the last \<open>n\<close> values of the inputs it accepts.\<close>

locale moving_window =
  fixes n :: nat and ok :: "'s \<Rightarrow> bool" and vals :: "'s \<Rightarrow> 'v list"
    and good :: "'a \<Rightarrow> bool" and val_of :: "'a \<Rightarrow> 'v" and push :: "'a \<Rightarrow> 's \<Rightarrow> 's option"
  assumes push_ok: "ok s \<Longrightarrow> good a \<Longrightarrow> \<exists>s'. push a s = Some s' \<and> ok s' \<and> vals s' = recent n (vals s @ [val_of a])"
    and vals_short: "ok s \<Longrightarrow> length (vals s) \<le> n"
begin

lemma run_window:
  "ok s \<Longrightarrow> \<forall>a \<in> set as. good a \<Longrightarrow>
   \<exists>s'. run push as s = Some s' \<and> ok s' \<and> vals s' = recent n (vals s @ map val_of as)"
proof (induction as arbitrary: s)
  case Nil
  then show ?case using vals_short [of s] by (simp add: recent_short)
next
  case (Cons a as)
  then obtain s1 where s1: "push a s = Some s1" "ok s1" "vals s1 = recent n (vals s @ [val_of a])"
    using push_ok [of s a] by auto
  with Cons obtain s2 where "run push as s1 = Some s2" "ok s2" "vals s2 = recent n (vals s1 @ map val_of as)"
    using Cons.IH [of s1] by auto
  then show ?case using s1 recent_recent [of n "vals s @ [val_of a]" "map val_of as"] by simp
qed

end

section \<open>The ring of raw values\<close>

definition rx_ok :: "nat \<Rightarrow> rxdev \<Rightarrow> bool" where
  "rx_ok f s \<longleftrightarrow> unat (data_avg_factor s) = f \<and> 1 \<le> f \<and> f \<le> 8 \<and> length (rawSNR s) = 8 \<and> length (rawNF s) = 8 \<and>
     unat (numSNRNF s) \<le> f \<and> unat (nextSNRNF s) < f \<and> (unat (numSNRNF s) < f \<longrightarrow> nextSNRNF s = numSNRNF s)"

definition window :: "rxdev \<Rightarrow> (u8 \<times> u8) list" where
  "window s = rotate (unat (nextSNRNF s)) (take (unat (numSNRNF s)) (zip (rawSNR s) (rawNF s)))"

lemma rotate_update:
  assumes "k < length xs"
  shows "rotate (Suc k) (xs[k := x]) = tl (rotate k xs) @ [x]"
proof -
  have "xs = take k xs @ xs ! k # drop (Suc k) xs" using assms by (rule id_take_nth_drop)
  then obtain ys y zs where xs: "xs = ys @ y # zs" "length ys = k" using assms
    by (metis length_take min.absorb2 less_imp_le)
  have "rotate k xs = (y # zs) @ ys" using rotate_append [of ys "y # zs"] xs by simp
  moreover have "rotate (Suc k) (ys @ x # zs) = zs @ ys @ [x]"
    using rotate_append [of "ys @ [x]" zs] xs(2) by simp
  moreover have "xs[k := x] = ys @ x # zs" unfolding xs(1) xs(2) [symmetric] by simp
  ultimately show ?thesis by simp
qed

lemma rotate_all: "k = length xs \<Longrightarrow> rotate k xs = xs"
  by simp

text \<open>One step of the ring, on a list in place of the two arrays.\<close>

lemma ring_step:
  assumes "k < f" "m \<le> f" "f \<le> length raw" "m < f \<longrightarrow> k = m" "m' = min f (m + 1)" "k' = (if k + 1 < f then k + 1 else 0)"
  shows "rotate k' (take m' (raw[k := x])) = recent f (rotate k (take m raw) @ [x])"
proof -
  have r: "rotate k' w = rotate (Suc k) w" if "length w = f" for w :: "'a list"
    using that assms(1,6) by (cases "k + 1 = f") auto
  show ?thesis
  proof (cases "m < f")
    case True
    then have km: "k = m" and m': "m' = Suc m" using assms by auto
    have t: "take m' (raw[k := x]) = take m raw @ [x]"
      using True assms(3) by (simp add: km m' take_Suc_conv_app_nth)
    have "rotate k' (take m raw @ [x]) = take m raw @ [x]"
      using True assms(3,6) km by (cases "Suc m < f") (auto intro!: rotate_all simp del: rotate_Suc)
    moreover have "recent f (rotate k (take m raw) @ [x]) = take m raw @ [x]"
      using True assms(3) km by (subst recent_short) auto
    ultimately show ?thesis using t by simp
  next
    case False
    then have m: "m = f" "m' = f" using assms by auto
    let ?w = "take f raw"
    have len: "length ?w = f" using assms(3) by simp
    have "take f (raw[k := x]) = ?w[k := x]" by (simp add: take_update_swap)
    then have "rotate k' (take m' (raw[k := x])) = rotate (Suc k) (?w[k := x])" using m r [of "?w[k := x]"] len by simp
    also have "\<dots> = tl (rotate k ?w) @ [x]" using len assms(1) by (intro rotate_update) simp
    also have "\<dots> = recent f (rotate k ?w @ [x])" using len assms(1) by (intro recent_snoc_full [symmetric]) auto
    finally show ?thesis using m by simp
  qed
qed

lemma unat_inc16: "unat (w :: u16) < 100 \<Longrightarrow> unat (w + 1) = unat w + 1"
  by (simp add: unat_word_ariths)

lemma save_raw_ok:
  assumes "rx_ok f s"
  shows "\<exists>s'. wlan_save_rawSNRNF (a, b) s = Some s' \<and> rx_ok f s' \<and> window s' = recent f (window s @ [(a, b)]) \<and>
    s' = s\<lparr>rawSNR := rawSNR s', rawNF := rawNF s', nextSNRNF := nextSNRNF s', numSNRNF := numSNRNF s'\<rparr> \<and> numSNRNF s' \<noteq> 0"
proof -
  let ?k = "unat (nextSNRNF s)" and ?m = "unat (numSNRNF s)"
  let ?num = "if numSNRNF s < data_avg_factor s then numSNRNF s + 1 else numSNRNF s"
  let ?nxt = "if nextSNRNF s + 1 \<ge> data_avg_factor s then 0 else nextSNRNF s + 1"
  let ?s' = "s\<lparr>rawSNR := (rawSNR s)[?k := a], rawNF := (rawNF s)[?k := b], nextSNRNF := ?nxt, numSNRNF := ?num\<rparr>"
  have f: "unat (data_avg_factor s) = f" "1 \<le> f" "f \<le> 8" "length (rawSNR s) = 8" "length (rawNF s) = 8"
    "?m \<le> f" "?k < f" "?m < f \<longrightarrow> nextSNRNF s = numSNRNF s" using assms by (auto simp: rx_ok_def)
  have save: "wlan_save_rawSNRNF (a, b) s = Some ?s'"
    using f by (simp add: wlan_save_rawSNRNF_def Let_def mem_put_in)
  have i: "unat (nextSNRNF s + 1) = ?k + 1" "unat (numSNRNF s + 1) = ?m + 1" using f by (simp_all add: unat_inc16)
  have num: "unat ?num = min f (?m + 1)" using f i by (simp add: word_less_nat_alt)
  have nxt: "unat ?nxt = (if ?k + 1 < f then ?k + 1 else 0)" using f i by (simp add: word_le_nat_alt)
  have z: "zip (rawSNR ?s') (rawNF ?s') = (zip (rawSNR s) (rawNF s))[?k := (a, b)]" by (simp add: update_zip)
  have "window ?s' = recent f (window s @ [(a, b)])"
    unfolding window_def z
    using ring_step [of ?k f ?m "zip (rawSNR s) (rawNF s)" "unat ?num" "unat ?nxt" "(a, b)"] f num nxt by simp
  moreover have "rx_ok f ?s'"
  proof -
    have "?nxt = ?num" if "unat ?num < f"
      using that f num nxt by (intro unsigned_word_eqI) (auto split: if_splits)
    then show ?thesis using f num nxt by (auto simp: rx_ok_def)
  qed
  moreover have "unat ?num \<noteq> 0" using num f by simp
  ultimately show ?thesis using save by (auto simp: unat_eq_zero)
qed

section \<open>Averages of the window\<close>

definition mean :: "u8 list \<Rightarrow> nat" where
  "mean xs = sum_list (map unat xs) div length xs"

lemma sum_list_rotate: "sum_list (rotate k xs) = sum_list (xs :: nat list)"
proof (induction k)
  case (Suc k)
  then show ?case by (cases "rotate k xs") simp_all
qed simp

lemma mean_rotate: "mean (rotate k xs) = mean xs"
  by (simp add: mean_def rotate_map [symmetric] sum_list_rotate)

lemma raw_sum_eq:
  "i + n \<le> length raw \<Longrightarrow> raw_sum raw i n temp = Some (temp + of_nat (sum_list (map unat (take n (drop i raw)))))"
proof (induction n arbitrary: i temp)
  case (Suc n)
  then have "drop i raw = raw ! i # drop (Suc i) raw" by (intro Cons_nth_drop_Suc [symmetric]) simp
  moreover have "(ucast x :: u16) = of_nat (unat x)" for x :: u8 by simp
  ultimately show ?case using Suc by (simp add: mem_get_in algebra_simps)
qed simp

lemma sum_bytes_le: "sum_list (map unat xs) \<le> 255 * length (xs :: u8 list)"
proof (induction xs)
  case (Cons x xs)
  have "unat x < 256" by (rule unat_u8_less)
  with Cons show ?case by simp
qed simp

lemma raw_avg_eq:
  assumes "length raw = 8" and "num \<noteq> 0" and "unat num \<le> 8"
  shows "raw_avg raw num = Some (of_nat (mean (take (unat num) raw))) \<and> mean (take (unat num) raw) \<le> 255"
proof -
  let ?n = "unat num" and ?S = "sum_list (map unat (take (unat num) raw))"
  have n: "0 < ?n" using assms(2) by (simp add: unat_gt_0)
  have le: "?S \<le> 255 * ?n" using sum_bytes_le [of "take ?n raw"] assms by simp
  then have m: "mean (take ?n raw) \<le> 255"
    using assms n div_le_mono [of ?S "255 * ?n" ?n] by (simp add: mean_def)
  have u: "unat (of_nat ?S :: u16) = ?S" using le assms(3) by (simp add: unat_of_nat)
  have "unat (of_nat ?S div num) = mean (take ?n raw)"
    using u assms by (simp add: unat_div mean_def)
  moreover have "(ucast w :: u8) = of_nat (unat w)" for w :: u16 by simp
  ultimately have "(ucast (of_nat ?S div num :: u16) :: u8) = of_nat (mean (take ?n raw))" by metis
  then show ?thesis using assms m raw_sum_eq [of 0 ?n raw 0] by (simp add: raw_avg_def)
qed

lemma avg_window:
  assumes "rx_ok f s" and "numSNRNF s \<noteq> 0"
  shows "\<exists>a n. wlan_getAvgSNR s = Some a \<and> wlan_getAvgNF s = Some n \<and>
    unat a = mean (map fst (window s)) \<and> unat n = mean (map snd (window s))"
proof -
  let ?m = "unat (numSNRNF s)"
  have l: "length (rawSNR s) = 8" "length (rawNF s) = 8" "?m \<le> 8" using assms(1) by (auto simp: rx_ok_def)
  have "map fst (window s) = rotate (unat (nextSNRNF s)) (take ?m (rawSNR s))"
    "map snd (window s) = rotate (unat (nextSNRNF s)) (take ?m (rawNF s))"
    using l by (simp_all add: window_def rotate_map [symmetric] take_map [symmetric] map_fst_zip map_snd_zip)
  then show ?thesis
    using raw_avg_eq [OF l(1) assms(2) l(3)] raw_avg_eq [OF l(2) assms(2) l(3)]
    by (auto simp: wlan_getAvgSNR_def wlan_getAvgNF_def mean_rotate unat_of_nat)
qed

section \<open>Events change nothing else\<close>

definition only_events :: "rxdev \<Rightarrow> rxdev \<Rightarrow> bool" where
  "only_events s t \<longleftrightarrow> t = s\<lparr>subevent := subevent t, sent_events := sent_events t\<rparr>"

lemma only_events_refl: "only_events s s"
  by (simp add: only_events_def)

lemma only_events_trans: "only_events s t \<Longrightarrow> only_events t u \<Longrightarrow> only_events s u"
  by (cases s; cases t; cases u) (simp add: only_events_def)

lemma check_event_only: "only_events s (check_event b evt hit thr count set_count s)"
  by (cases "threshold_event hit (thr_Freq (thr (subevent s))) (count (subevent s))")
    (simp add: only_events_def check_event_def Let_def)

lemma subscribe_only: "only_events s (wlan_check_subscribe_event s)"
proof -
  have c: "only_events t (check_rssi_low t)" "only_events t (check_rssi_high t)" "only_events t (check_snr_low t)"
    "only_events t (check_snr_high t)" for t
    unfolding check_rssi_low_def check_rssi_high_def check_snr_low_def check_snr_high_def by (rule check_event_only)+
  have "only_events t (check_rssi_high (check_rssi_low t))" "only_events t (check_snr_high (check_snr_low t))" for t
    using c only_events_trans by blast+
  then have "only_events t (if P then check_rssi_high (check_rssi_low t) else t)" "only_events t (if P then check_snr_high (check_snr_low t) else t)" for t P
    by (simp_all add: only_events_refl)
  note i = this
  show ?thesis
    unfolding wlan_check_subscribe_event_def Let_def
    by (rule if_split [THEN iffD2], intro conjI impI, rule only_events_refl, rule only_events_trans [OF i(1) i(2)])
qed

section \<open>Well-formed frames\<close>

text \<open>A received frame: the descriptor with the bytes up to the packet, the Ethernet addresses, the length
  field, six bytes that are the LLC and SNAP header or not, the type, the payload and the
  unused rest of the buffer.\<close>

record rxpkt =
  rp_head :: "u8 list"
  rp_dst :: "u8 list"
  rp_src :: "u8 list"
  rp_len :: "u8 list"
  rp_llc :: "u8 list"
  rp_type :: "u8 list"
  rp_payload :: "u8 list"
  rp_slack :: "u8 list"

definition rx_bytes_of :: "rxpkt \<Rightarrow> u8 list \<times> u32" where
  "rx_bytes_of p = (rp_head p @ rp_dst p @ rp_src p @ rp_len p @ rp_llc p @ rp_type p @ rp_payload p @ rp_slack p,
     of_nat (length (rp_head p) + 22 + length (rp_payload p)))"

definition rx_good :: "rxpkt \<Rightarrow> bool" where
  "rx_good p \<longleftrightarrow> 20 \<le> length (rp_head p) \<and> le32_to (take 4 (drop 8 (rp_head p))) = of_nat (length (rp_head p)) \<and>
     length (rp_dst p) = 6 \<and> length (rp_src p) = 6 \<and> length (rp_len p) = 2 \<and> length (rp_llc p) = 6 \<and> length (rp_type p) = 2 \<and>
     length (rp_head p) + 22 + length (rp_payload p) < 2 ^ 32"

definition ethernet :: "rxpkt \<Rightarrow> u8 list" where
  "ethernet p = (if rp_llc p = rfc1042_eth_hdr then rp_dst p @ rp_src p @ rp_type p @ rp_payload p
     else rp_dst p @ rp_src p @ rp_len p @ rp_llc p @ rp_type p @ rp_payload p)"

definition rp_levels :: "rxpkt \<Rightarrow> u8 \<times> u8" where
  "rp_levels p = (rp_head p ! 2, rp_head p ! 6)"

lemma snap_rewrite:
  assumes "length dst = 6" "length src = 6" "length ln = 2" "length llc = 6"
  shows "mem_sub (h @ dst @ src @ ln @ llc @ r) (length h + 14) 6 = Some llc"
    and "mem_sub (h @ dst @ src @ ln @ llc @ r) (length h + 6) 6 = Some src"
    and "mem_copy (h @ dst @ src @ ln @ llc @ r) (length h + 8 + 6) src = Some (h @ dst @ src @ ln @ src @ r)"
    and "mem_sub (h @ dst @ src @ ln @ src @ r) (length h) 6 = Some dst"
    and "mem_copy (h @ dst @ src @ ln @ src @ r) (length h + 8) dst = Some (h @ dst @ take 2 src @ dst @ src @ r)"
  using assms by (simp_all add: mem_sub_def mem_copy_def)

lemma rx_headers_eq:
  assumes "length dst = 6" "length src = 6" "length ln = 2" "length llc = 6" and "buf = h @ dst @ src @ ln @ llc @ r"
  shows "rx_headers buf (length h) =
    Some (if llc = rfc1042_eth_hdr then (h @ dst @ take 2 src @ dst @ src @ r, length h + 8) else (buf, length h))"
proof -
  have "do { src \<leftarrow> mem_sub buf (length h + 6) 6; buf \<leftarrow> mem_copy buf (length h + 8 + 6) src;
    dest \<leftarrow> mem_sub buf (length h) 6; buf \<leftarrow> mem_copy buf (length h + 8) dest; Some (buf, length h + 8) } =
    Some (h @ dst @ take 2 src @ dst @ src @ r, length h + 8)"
    by (simp only: assms(5) snap_rewrite [OF assms(1-4)] Option.bind.bind_lunit)
  moreover have "mem_sub buf (length h + 14) 6 = Some llc" using snap_rewrite(1) [OF assms(1-4)] assms(5) by simp
  ultimately show ?thesis unfolding rx_headers_def by (simp only: Option.bind.bind_lunit if_distrib split: if_split) blast
qed

lemma compute_rssi_ok:
  assumes "rx_ok f s"
  shows "\<exists>s'. wlan_compute_rssi now a b rate s = Some s' \<and> rx_ok f s' \<and> window s' = recent f (window s @ [(a, b)]) \<and>
    unat (SNR_AVG s') = 100 * mean (map fst (window s')) \<and> unat (NF_AVG s') = 100 * mean (map snd (window s')) \<and>
    uploaded s' = uploaded s \<and> rx_packets s' = rx_packets s \<and> rx_bytes s' = rx_bytes s \<and> rx_length_errors s' = rx_length_errors s"
proof -
  let ?s0 = "s\<lparr>SNR_NOAVG := ucast a, NF_NOAVG := ucast b\<rparr>"
  have "rx_ok f ?s0" "window ?s0 = window s" using assms by (simp_all add: rx_ok_def window_def)
  then obtain s1 where s1: "wlan_save_rawSNRNF (a, b) ?s0 = Some s1" "rx_ok f s1" "window s1 = recent f (window s @ [(a, b)])"
    "s1 = ?s0\<lparr>rawSNR := rawSNR s1, rawNF := rawNF s1, nextSNRNF := nextSNRNF s1, numSNRNF := numSNRNF s1\<rparr>" "numSNRNF s1 \<noteq> 0"
    using save_raw_ok [of f ?s0 a b] by auto
  let ?s2 = "s1\<lparr>RxPDAge := now, RxPDRate := ucast rate\<rparr>"
  have "rx_ok f ?s2" "window ?s2 = window s1" "numSNRNF ?s2 \<noteq> 0" using s1 by (simp_all add: rx_ok_def window_def)
  then obtain x y where xy: "wlan_getAvgSNR ?s2 = Some x" "wlan_getAvgNF ?s2 = Some y"
    "unat x = mean (map fst (window s1))" "unat y = mean (map snd (window s1))"
    using avg_window [of f ?s2] by auto
  let ?s3 = "?s2\<lparr>SNR_AVG := ucast x * AVG_SCALE, NF_AVG := ucast y * AVG_SCALE\<rparr>"
  let ?s4 = "?s3\<lparr>RSSI_NOAVG := of_int (CAL_RSSI (SNR_NOAVG ?s3) (NF_NOAVG ?s3)),
      RSSI_AVG := of_int (CAL_RSSI (SNR_AVG ?s3 div AVG_SCALE) (NF_AVG ?s3 div AVG_SCALE))\<rparr>"
  let ?s5 = "wlan_check_subscribe_event ?s4"
  have c: "wlan_compute_rssi now a b rate s = Some ?s5" using s1(1) xy(1,2) by (simp add: wlan_compute_rssi_def Let_def)
  have scale: "unat (ucast w * AVG_SCALE) = 100 * unat w" for w :: u8
    using unat_u8_less [of w] by (simp add: AVG_SCALE_def unat_word_ariths unsigned_ucast_eq take_bit_nat_eq_self)
  obtain e l where e: "?s5 = ?s4\<lparr>subevent := e, sent_events := l\<rparr>"
    using subscribe_only [of ?s4] unfolding only_events_def by blast
  have k: "uploaded s1 = uploaded s" "rx_packets s1 = rx_packets s" "rx_bytes s1 = rx_bytes s" "rx_length_errors s1 = rx_length_errors s"
    by (subst s1(4), simp)+
  have "rx_ok f ?s5" "window ?s5 = window s1" unfolding e using s1(2) by (simp_all add: rx_ok_def window_def)
  moreover have "unat (SNR_AVG ?s5) = 100 * unat x" "unat (NF_AVG ?s5) = 100 * unat y" unfolding e using scale by simp_all
  moreover have "uploaded ?s5 = uploaded s" "rx_packets ?s5 = rx_packets s" "rx_bytes ?s5 = rx_bytes s" "rx_length_errors ?s5 = rx_length_errors s"
    unfolding e using k by simp_all
  ultimately show ?thesis using c s1(3) xy by auto
qed

lemma process_good:
  assumes "rx_ok f s" and "rx_good p"
  shows "\<exists>s'. ProcessRxedPacket now (rx_bytes_of p) s = Some (0, s') \<and> rx_ok f s' \<and> window s' = recent f (window s @ [rp_levels p]) \<and>
    unat (SNR_AVG s') = 100 * mean (map fst (window s')) \<and> unat (NF_AVG s') = 100 * mean (map snd (window s')) \<and>
    uploaded s' = uploaded s @ [ethernet p] \<and> rx_packets s' = rx_packets s + 1 \<and>
    rx_bytes s' = rx_bytes s + of_nat (length (ethernet p)) \<and> rx_length_errors s' = rx_length_errors s"
proof -
  let ?h = "rp_head p" and ?t = "rp_type p @ rp_payload p @ rp_slack p"
  let ?n = "length ?h + 22 + length (rp_payload p)"
  let ?buf = "?h @ rp_dst p @ rp_src p @ rp_len p @ rp_llc p @ ?t"
  let ?buf' = "?h @ rp_dst p @ take 2 (rp_src p) @ rp_dst p @ rp_src p @ ?t"
  let ?b = "if rp_llc p = rfc1042_eth_hdr then (?buf', length ?h + 8) else (?buf, length ?h)"
  have g: "20 \<le> length ?h" "le32_to (take 4 (drop 8 ?h)) = of_nat (length ?h)" "length (rp_dst p) = 6" "length (rp_src p) = 6"
    "length (rp_len p) = 2" "length (rp_llc p) = 6" "length (rp_type p) = 2" "?n < 2 ^ 32" using assms(2) by (auto simp: rx_good_def)
  have off: "mem_sub ?buf 8 4 = Some (take 4 (drop 8 ?h))" using g(1) by (simp add: mem_sub_def)
  have uh: "unat (of_nat (length ?h) :: u32) = length ?h" "unat (of_nat ?n :: u32) = ?n" using g(8) by (simp_all add: unat_of_nat del: of_nat_add)
  have nle: "\<not> (of_nat ?n :: u32) < ETH_HLEN + 8 + of_nat (length ?h)"
  proof -
    have "ETH_HLEN + 8 + of_nat (length ?h) = (of_nat (length ?h + 22) :: u32)" by (simp add: ETH_HLEN_def)
    then show ?thesis using g(8) uh by (simp add: word_less_nat_alt unat_of_nat del: of_nat_add)
  qed
  have rw: "rx_headers ?buf (length ?h) = Some ?b" by (rule rx_headers_eq [OF g(3-6) refl])
  have gets: "mem_get (fst ?b) i = Some (?h ! i)" if "i < 20" for i
    using that g(1) by (simp add: mem_get_def nth_append)
  have pull: "skb_pull (snd ?b) (0, of_nat ?n) = (snd ?b, of_nat (?n - snd ?b))"
    using uh(2) by (simp add: skb_pull_def of_nat_diff)
  have len: "unat (of_nat (?n - snd ?b) :: u32) = length (ethernet p)" "?n - snd ?b = length (ethernet p)"
    using g by (simp_all add: unat_of_nat ethernet_def del: of_nat_add of_nat_diff)
  have frame: "mem_sub (fst ?b) (snd ?b) (length (ethernet p)) = Some (ethernet p)"
    using g by (simp add: mem_sub_def ethernet_def)
  obtain s' where s': "wlan_compute_rssi now (?h ! 2) (?h ! 6) (?h ! 7) s = Some s'" "rx_ok f s'" "window s' = recent f (window s @ [rp_levels p])"
    "unat (SNR_AVG s') = 100 * mean (map fst (window s'))" "unat (NF_AVG s') = 100 * mean (map snd (window s'))"
    "uploaded s' = uploaded s" "rx_packets s' = rx_packets s" "rx_bytes s' = rx_bytes s" "rx_length_errors s' = rx_length_errors s"
    using compute_rssi_ok [OF assms(1), of now "?h ! 2" "?h ! 6" "?h ! 7"] by (auto simp: rp_levels_def)
  let ?s = "s'\<lparr>uploaded := uploaded s' @ [ethernet p], rx_bytes := rx_bytes s' + of_nat (length (ethernet p)), rx_packets := rx_packets s' + 1\<rparr>"
  have "ProcessRxedPacket now (rx_bytes_of p) s = Some (0, ?s)"
    unfolding ProcessRxedPacket_def rx_bytes_of_def prod.case off g(2) uh(1) Let_def Option.bind.bind_lunit rw
    using nle pull gets [of 2] gets [of 6] gets [of 7] s'(1) frame len
    by (cases ?b) (simp add: rx_upload_def del: of_nat_add)
  moreover have "rx_ok f ?s" "window ?s = window s'" using s'(2) by (simp_all add: rx_ok_def window_def)
  ultimately show ?thesis using s' by auto
qed

section \<open>The window of packets\<close>

definition rx_step :: "u32 \<times> (u8 list \<times> u32) \<Rightarrow> rxdev \<Rightarrow> rxdev option" where
  "rx_step = (\<lambda>(now, frame) s. map_option snd (ProcessRxedPacket now frame s))"

definition rx_avg_ok :: "nat \<Rightarrow> rxdev \<Rightarrow> bool" where
  "rx_avg_ok f s \<longleftrightarrow> rx_ok f s \<and> (window s \<noteq> [] \<longrightarrow>
     unat (SNR_AVG s) = 100 * mean (map fst (window s)) \<and> unat (NF_AVG s) = 100 * mean (map snd (window s)))"

interpretation rx: moving_window f "rx_avg_ok f" window "\<lambda>(now, p). rx_good p" "\<lambda>(now, p). rp_levels p"
  "\<lambda>(now, p). rx_step (now, rx_bytes_of p)"
proof unfold_locales
  fix s :: rxdev and a :: "u32 \<times> rxpkt"
  assume "rx_avg_ok f s" and "case a of (now, p) \<Rightarrow> rx_good p"
  then show "\<exists>s'. (case a of (now, p) \<Rightarrow> rx_step (now, rx_bytes_of p)) s = Some s' \<and> rx_avg_ok f s' \<and>
      window s' = recent f (window s @ [case a of (now, p) \<Rightarrow> rp_levels p])"
    using process_good [of f s "snd a" "fst a"] by (auto simp: rx_step_def rx_avg_ok_def split: prod.splits)
next
  fix s assume "rx_avg_ok f s"
  then show "length (window s) \<le> f" by (auto simp: rx_avg_ok_def rx_ok_def window_def)
qed

lemma set_data_avg_ok:
  assumes "fst (set_data_avg idata s) = 0"
  defines "f \<equiv> if idata = 0 then 8 else nat idata"
  shows "rx_avg_ok f (snd (set_data_avg idata s)) \<and> window (snd (set_data_avg idata s)) = []"
proof -
  have "unat (of_int idata :: u16) = nat idata" if "0 < idata" "idata \<le> 8"
    using that by (simp add: unat_eq_nat_uint uint_word_of_int)
  then show ?thesis using assms
    by (auto simp: set_data_avg_def reset_raw_def rx_avg_ok_def rx_ok_def window_def DEFAULT_DATA_AVG_FACTOR_def
        MAX_DATA_AVG_FACTOR_def MIN_DATA_AVG_FACTOR_def split: if_splits)
qed

section \<open>One-shot events\<close>

fun evt_bit :: "cus_evt \<Rightarrow> u16" where
  "evt_bit CUS_EVT_DATA_RSSI_LOW = DATA_RSSI_LOW_BIT"
| "evt_bit CUS_EVT_DATA_SNR_LOW = DATA_SNR_LOW_BIT"
| "evt_bit CUS_EVT_DATA_RSSI_HIGH = DATA_RSSI_HIGH_BIT"
| "evt_bit CUS_EVT_DATA_SNR_HIGH = DATA_SNR_HIGH_BIT"

fun evt_thr :: "cus_evt \<Rightarrow> wlan_subscribe_event \<Rightarrow> Threshold" where
  "evt_thr CUS_EVT_DATA_RSSI_LOW = Rssi_low"
| "evt_thr CUS_EVT_DATA_SNR_LOW = Snr_low"
| "evt_thr CUS_EVT_DATA_RSSI_HIGH = Rssi_high"
| "evt_thr CUS_EVT_DATA_SNR_HIGH = Snr_high"

lemmas evt_bits = DATA_RSSI_LOW_BIT_def DATA_SNR_LOW_BIT_def DATA_RSSI_HIGH_BIT_def DATA_SNR_HIGH_BIT_def

lemma evt_bit_clear: "(m AND NOT (evt_bit d)) AND evt_bit e = (if d = e then 0 else m AND evt_bit e)"
proof -
  have "NOT (evt_bit d) AND evt_bit e = (if d = e then 0 else evt_bit e)"
    by (cases d; cases e) (simp_all add: evt_bits)
  then show ?thesis by (simp add: and.assoc)
qed

text \<open>Events sent so far, plus one while the event is still subscribed to.\<close>

definition potential :: "cus_evt \<Rightarrow> rxdev \<Rightarrow> nat" where
  "potential e s = count_list (sent_events s) e + (if EventsBitmap (subevent s) AND evt_bit e \<noteq> 0 then 1 else 0)"

definition falls :: "cus_evt \<Rightarrow> rxdev \<Rightarrow> rxdev \<Rightarrow> bool" where
  "falls e s t \<longleftrightarrow> thr_Freq (evt_thr e (subevent t)) = thr_Freq (evt_thr e (subevent s)) \<and>
     (thr_Freq (evt_thr e (subevent s)) = 0 \<longrightarrow> potential e t \<le> potential e s)"

lemma falls_refl: "falls e s s"
  by (simp add: falls_def)

lemma falls_trans: "falls e s t \<Longrightarrow> falls e t u \<Longrightarrow> falls e s u"
  by (auto simp: falls_def)

lemma falls_cong: "subevent t = subevent s \<Longrightarrow> sent_events t = sent_events s \<Longrightarrow> falls e s t"
  by (simp add: falls_def potential_def)

lemma check_event_falls:
  assumes "\<And>c x. evt_thr e (set_count c x) = evt_thr e x" and "\<And>c x. EventsBitmap (set_count c x) = EventsBitmap x"
    and "\<And>c m x. evt_thr e (set_count c x\<lparr>EventsBitmap := m\<rparr>) = evt_thr e x"
  shows "falls e s (check_event (evt_bit d) d hit (evt_thr d) count set_count s)"
proof (cases "EventsBitmap (subevent s) AND evt_bit d = 0")
  case True
  then show ?thesis by (simp add: check_event_def falls_refl)
next
  case False
  obtain send clear c where r: "threshold_event hit (thr_Freq (evt_thr d (subevent s))) (count (subevent s)) = (send, clear, c)"
    by (metis prod_cases3)
  then have "thr_Freq (evt_thr d (subevent s)) = 0 \<longrightarrow> send = clear"
    by (auto simp: threshold_event_def split: if_splits)
  moreover have "clear \<longrightarrow> send" using r by (auto simp: threshold_event_def split: if_splits)
  ultimately show ?thesis using False r assms
    by (cases "d = e") (auto simp: check_event_def falls_def potential_def Let_def evt_bit_clear)
qed

lemma subscribe_falls: "falls e s (wlan_check_subscribe_event s)"
proof -
  have c: "falls e t (check_rssi_low t)" "falls e t (check_rssi_high t)" "falls e t (check_snr_low t)" "falls e t (check_snr_high t)" for t
    unfolding check_rssi_low_def check_rssi_high_def check_snr_low_def check_snr_high_def
      evt_bit.simps [symmetric] evt_thr.simps [symmetric]
    by ((rule check_event_falls; cases e; simp)+)
  have i: "falls e t (if P then check_rssi_high (check_rssi_low t) else t)" "falls e t (if P then check_snr_high (check_snr_low t) else t)" for t P
    using falls_trans [OF c(1) c(2)] falls_trans [OF c(3) c(4)] by (simp_all add: falls_refl)
  show ?thesis
    unfolding wlan_check_subscribe_event_def Let_def
    by (rule if_split [THEN iffD2], intro conjI impI, rule falls_refl, rule falls_trans [OF i(1) i(2)])
qed

lemma save_raw_events: "wlan_save_rawSNRNF v s = Some t \<Longrightarrow> subevent t = subevent s \<and> sent_events t = sent_events s"
  by (cases v) (auto simp: wlan_save_rawSNRNF_def Let_def bind_eq_Some_conv)

lemma compute_rssi_falls:
  assumes "wlan_compute_rssi now a b rate s = Some t"
  shows "falls e s t"
proof -
  obtain s1 t1 where "wlan_save_rawSNRNF (a, b) (s\<lparr>SNR_NOAVG := ucast a, NF_NOAVG := ucast b\<rparr>) = Some s1"
    and t: "t = wlan_check_subscribe_event t1" "subevent t1 = subevent s1" "sent_events t1 = sent_events s1"
    using assms by (auto simp: wlan_compute_rssi_def Let_def bind_eq_Some_conv)
  then have "falls e s t1" using save_raw_events [of "(a, b)" "s\<lparr>SNR_NOAVG := ucast a, NF_NOAVG := ucast b\<rparr>" s1] by (auto intro: falls_cong)
  then show ?thesis unfolding t(1) using subscribe_falls by (rule falls_trans)
qed

lemma upload_falls:
  assumes "rx_upload now len b s = Some (ret, t)"
  shows "falls e s t"
proof -
  obtain a c r s1 x y z where "wlan_compute_rssi now a c r s = Some s1" and t: "t = s1\<lparr>uploaded := x, rx_bytes := y, rx_packets := z\<rparr>"
    using assms by (auto simp: rx_upload_def bind_eq_Some_conv split: prod.splits)
  then have "falls e s s1" by (intro compute_rssi_falls)
  then show ?thesis by (rule falls_trans) (simp add: t falls_cong)
qed

lemma process_falls:
  assumes "ProcessRxedPacket now frame s = Some (ret, t)"
  shows "falls e s t"
proof -
  obtain buf len where fr: "frame = (buf, len)" by fastforce
  show ?thesis
    using assms by (auto simp: fr ProcessRxedPacket_def bind_eq_Some_conv Let_def split: if_splits intro: falls_cong upload_falls)
qed

lemma rx_run_falls: "run rx_step fs s = Some t \<Longrightarrow> falls e s t"
proof (induction fs arbitrary: s)
  case (Cons f fs)
  then obtain u where "rx_step f s = Some u" "run rx_step fs u = Some t" by (auto simp: bind_eq_Some_conv)
  with Cons.IH [of u] show ?case
    by (auto simp: rx_step_def split: prod.splits intro: falls_trans process_falls)
qed (simp add: falls_refl)

section \<open>Properties\<close>

definition zero_thr :: Threshold where "zero_thr = \<lparr>thr_value = 0, thr_Freq = 0\<rparr>"

definition sample_rxdev :: rxdev where
  "sample_rxdev = \<lparr>data_avg_factor = 2, rawSNR = replicate 8 0, rawNF = replicate 8 0, nextSNRNF = 0, numSNRNF = 0,
     SNR_NOAVG = 0, SNR_AVG = 0, NF_NOAVG = 0, NF_AVG = 0, RSSI_NOAVG = 0, RSSI_AVG = 0, RxPDAge = 0, RxPDRate = 0,
     subevent = \<lparr>EventsBitmap = 1, Rssi_low = zero_thr, Snr_low = zero_thr, Rssi_high = zero_thr, Snr_high = zero_thr,
       Rssi_low_count = 0, Snr_low_count = 0, Rssi_high_count = 0, Snr_high_count = 0\<rparr>,
     sent_events = [], uploaded = [], rx_packets = 0, rx_bytes = 0, rx_length_errors = 0\<rparr>"

definition sample_rxpkt :: "u8 \<Rightarrow> u8 \<Rightarrow> rxpkt" where
  "sample_rxpkt snr nf = \<lparr>rp_head = [0, 0, snr, 0, 26, 0, nf, 11, 20, 0, 0, 0, 0, 0, 0, 0, 0, 0, 0, 0], rp_dst = [1, 2, 3, 4, 5, 6],
     rp_src = [7, 8, 9, 10, 11, 12], rp_len = [0, 12], rp_llc = rfc1042_eth_hdr, rp_type = [8, 0], rp_payload = [1, 2, 3, 4], rp_slack = []\<rparr>"

lemma sample_rx_good: "rx_good (sample_rxpkt snr nf)"
  by (simp add: rx_good_def sample_rxpkt_def rfc1042_eth_hdr_def le32_to_def)

text \<open>C12. A received frame reaches the network stack as an Ethernet frame: when the firmware delivers a SNAP frame, the
  802.3 and SNAP headers are replaced in place by an Ethernet II header with the same destination,
  source and type, and any other frame is passed on unchanged; the payload is kept, the statistics
  count exactly the delivered bytes, and no byte outside the frame's buffer is touched.\<close>

theorem rx_delivers:
  assumes "rx_ok f s" and "rx_good p"
  shows "\<exists>s'. ProcessRxedPacket now (rx_bytes_of p) s = Some (0, s') \<and> rx_ok f s' \<and>
    uploaded s' = uploaded s @ [if rp_llc p = rfc1042_eth_hdr then rp_dst p @ rp_src p @ rp_type p @ rp_payload p
      else rp_dst p @ rp_src p @ rp_len p @ rp_llc p @ rp_type p @ rp_payload p] \<and>
    rx_packets s' = rx_packets s + 1 \<and> rx_bytes s' = rx_bytes s + of_nat (length (last (uploaded s'))) \<and>
    rx_length_errors s' = rx_length_errors s"
proof -
  obtain s' where "ProcessRxedPacket now (rx_bytes_of p) s = Some (0, s')" "rx_ok f s'" "uploaded s' = uploaded s @ [ethernet p]"
    "rx_packets s' = rx_packets s + 1" "rx_bytes s' = rx_bytes s + of_nat (length (ethernet p))" "rx_length_errors s' = rx_length_errors s"
    using process_good [OF assms, of now] by blast
  then show ?thesis by (intro exI [of _ s']) (simp only: ethernet_def last_snoc simp_thms)
qed

theorem rx_delivers_witness:
  "\<exists>s'. ProcessRxedPacket 0 (rx_bytes_of (sample_rxpkt 40 10)) sample_rxdev = Some (0, s') \<and>
    uploaded s' = [[1, 2, 3, 4, 5, 6, 7, 8, 9, 10, 11, 12, 8, 0, 1, 2, 3, 4]]"
proof -
  have "rx_ok 2 sample_rxdev" by (simp add: rx_ok_def sample_rxdev_def)
  from rx_delivers [OF this sample_rx_good, of 0 40 10] show ?thesis
    by (auto simp: sample_rxpkt_def sample_rxdev_def)
qed

text \<open>C33. The signal averages implement a moving average: after user space sets the window to \<open>n\<close> packets,
  the driver reports, after any sequence of well-formed packets, the mean of the levels of the last
  \<open>n\<close> of them (of all, when there were fewer), scaled by 100 and without overflow.\<close>

theorem rx_average:
  assumes "fst (set_data_avg idata s) = 0" and "\<forall>p \<in> set ps. rx_good (snd p)" and "ps \<noteq> []"
    and "n = (if idata = 0 then 8 else nat idata)" and "levels = recent n (map (rp_levels \<circ> snd) ps)"
  shows "\<exists>s'. run rx_step (map (map_prod id rx_bytes_of) ps) (snd (set_data_avg idata s)) = Some s' \<and>
    unat (SNR_AVG s') = 100 * mean (map fst levels) \<and> unat (NF_AVG s') = 100 * mean (map snd levels)"
proof -
  let ?s = "snd (set_data_avg idata s)"
  have ok: "rx_avg_ok n ?s" "window ?s = []" using set_data_avg_ok [OF assms(1)] assms(4) by auto
  have "\<exists>s'. run (\<lambda>(now, p). rx_step (now, rx_bytes_of p)) ps ?s = Some s' \<and> rx_avg_ok n s' \<and>
      window s' = recent n (window ?s @ map (\<lambda>(now, p). rp_levels p) ps)"
    by (rule rx.run_window [OF ok(1)]) (use assms(2) in auto)
  then obtain s' where s': "run (\<lambda>(now, p). rx_step (now, rx_bytes_of p)) ps ?s = Some s'" "rx_avg_ok n s'"
    "window s' = levels" using ok(2) assms(5) by (auto simp: comp_def case_prod_unfold)
  have "run rx_step (map (map_prod id rx_bytes_of) qs) t = run (\<lambda>(now, p). rx_step (now, rx_bytes_of p)) qs t" for qs t
    by (simp add: run_map case_prod_unfold map_prod_def)
  moreover have "levels \<noteq> []"
  proof -
    have "0 < n" using ok(1) by (simp add: rx_avg_ok_def rx_ok_def)
    moreover have "0 < length ps" using assms(3) by simp
    ultimately have "length levels > 0" by (simp add: assms(5) recent_def)
    then show ?thesis by simp
  qed
  ultimately show ?thesis using s' by (auto simp: rx_avg_ok_def)
qed

theorem rx_average_witness:
  "\<exists>s'. run rx_step (map (\<lambda>v. (0, rx_bytes_of (sample_rxpkt v 10))) [30, 40, 51]) (snd (set_data_avg 2 sample_rxdev)) = Some s' \<and>
    SNR_AVG s' = 4500 \<and> NF_AVG s' = 1000"
proof -
  let ?ps = "map (\<lambda>v. (0 :: u32, sample_rxpkt v 10)) [30, 40, 51]"
  have l: "recent 2 (map (rp_levels \<circ> snd) ?ps) = [(40, 10), (51, 10)]"
    by (simp add: recent_def rp_levels_def sample_rxpkt_def)
  have "fst (set_data_avg 2 sample_rxdev) = 0" by (simp add: set_data_avg_def MAX_DATA_AVG_FACTOR_def MIN_DATA_AVG_FACTOR_def)
  moreover have "\<forall>p \<in> set ?ps. rx_good (snd p)" by (simp add: sample_rx_good)
  ultimately obtain s' where s': "run rx_step (map (map_prod id rx_bytes_of) ?ps) (snd (set_data_avg 2 sample_rxdev)) = Some s'"
    "unat (SNR_AVG s') = 100 * mean [40, 51]" "unat (NF_AVG s') = 100 * mean [10, 10]"
    using rx_average [of 2 sample_rxdev ?ps 2 "[(40, 10), (51, 10)]"] l by auto
  moreover have "mean [40, 51] = 45" "mean [10, 10] = 10" by (simp_all add: mean_def numeral_2_eq_2 [symmetric])
  ultimately have "SNR_AVG s' = 4500" "NF_AVG s' = 1000" by (auto intro!: unsigned_word_eqI)
  with s'(1) show ?thesis by (intro exI [of _ s']) (simp add: run_map del: run.simps)
qed

text \<open>A one-shot event is sent at most once: for an event subscribed to with frequency 0, whatever
  frames arrive, well-formed or not, at most one further event is sent, and none when its bit is already clear.\<close>

theorem rx_event_once:
  assumes "run rx_step frames s = Some s'" and "thr_Freq (evt_thr e (subevent s)) = 0"
  shows "count_list (sent_events s') e \<le> count_list (sent_events s) e + 1 \<and>
    (EventsBitmap (subevent s) AND evt_bit e = 0 \<longrightarrow> count_list (sent_events s') e \<le> count_list (sent_events s) e)"
proof -
  have "potential e s' \<le> potential e s" using rx_run_falls [OF assms(1), of e] assms(2) by (simp add: falls_def)
  then show ?thesis by (auto simp: potential_def split: if_splits)
qed

theorem rx_event_once_witness:
  "\<exists>s'. run rx_step (map (\<lambda>v. (0, rx_bytes_of (sample_rxpkt v 100))) [30, 40, 51]) (snd (set_data_avg 2 sample_rxdev)) = Some s' \<and>
    count_list (sent_events s') CUS_EVT_DATA_RSSI_LOW \<le> 1"
proof -
  let ?s = "snd (set_data_avg 2 sample_rxdev)" and ?ps = "map (\<lambda>v. (0 :: u32, sample_rxpkt v 100)) [30, 40, 51]"
  have a: "fst (set_data_avg 2 sample_rxdev) = 0" by (simp add: set_data_avg_def MAX_DATA_AVG_FACTOR_def MIN_DATA_AVG_FACTOR_def)
  have "rx_avg_ok 2 ?s" using set_data_avg_ok [OF a] by simp
  from rx.run_window [OF this, of ?ps] obtain s' where
    r: "run (\<lambda>(now, p). rx_step (now, rx_bytes_of p)) ?ps ?s = Some s'" by (auto simp: sample_rx_good)
  have "run rx_step (map (\<lambda>v. (0, rx_bytes_of (sample_rxpkt v 100))) [30, 40, 51]) ?s = Some s'" using r by (simp only: run_map case_prod_conv)
  moreover have "thr_Freq (evt_thr CUS_EVT_DATA_RSSI_LOW (subevent ?s)) = 0" "sent_events ?s = []"
    by (simp_all add: set_data_avg_def reset_raw_def sample_rxdev_def zero_thr_def)
  ultimately show ?thesis using rx_event_once [of _ ?s s' CUS_EVT_DATA_RSSI_LOW] by fastforce
qed

text \<open>A frame shorter than its headers is counted and dropped. The sum in the test is a 32-bit one, so a
  descriptor with an offset just below 4 GB passes it and the handler leaves the buffer.\<close>

theorem rx_short_dropped:
  assumes "mem_sub buf 8 4 = Some off" and "unat len < 22 + unat (le32_to off)" and "unat (le32_to off) < 2 ^ 32 - 22"
  shows "ProcessRxedPacket now (buf, len) s = Some (0, s\<lparr>rx_length_errors := rx_length_errors s + 1\<rparr>)"
proof -
  have "unat (ETH_HLEN + 8 + le32_to off) = 22 + unat (le32_to off)"
    using assms(3) by (simp add: ETH_HLEN_def unat_word_ariths)
  then show ?thesis using assms(1,2) by (simp add: ProcessRxedPacket_def word_less_nat_alt)
qed

theorem rx_offset_wraps:
  assumes "mem_sub buf 8 4 = Some off" and "2 ^ 32 - 22 \<le> unat (le32_to off)" and "22 \<le> unat len" and "length buf \<le> 2 ^ 31"
  shows "ProcessRxedPacket now (buf, len) s = None"
proof -
  have lt: "unat (le32_to off) < 2 ^ 32" using unsigned_less [of "le32_to off", where ?'a = nat] by simp
  have "unat (ETH_HLEN + 8 + le32_to off) = 22 + unat (le32_to off) - 2 ^ 32"
    using assms(2) lt by (simp add: ETH_HLEN_def unat_word_ariths mod_if)
  then have "\<not> len < ETH_HLEN + 8 + le32_to off" using assms(3) lt by (simp add: word_less_nat_alt)
  moreover have "rx_headers buf (unat (le32_to off)) = None"
    using assms(2,4) by (simp add: rx_headers_def mem_sub_def)
  ultimately show ?thesis using assms(1) by (simp add: ProcessRxedPacket_def)
qed

end
