(* ===== verification/WlanBss.thy ===== *)
theory WlanBss
  imports Prelude
begin

text \<open>
  Beacons and probe responses, \<^verbatim>\<open>InterpretBSSDescriptionWithIE\<close> of \<^verbatim>\<open>wlan_scan.c\<close>: the
  description of a network that the driver keeps, and the reading of its fixed fields and information
  elements from the response of the firmware. Every array has its C size; a copy that would leave
  its array, or a read outside the response buffer, is \<^term>\<open>None\<close>.
\<close>

section \<open>Data\<close>

definition ELEM_SSID :: u8 where "ELEM_SSID = 0"
definition SUPPORTED_RATES :: u8 where "SUPPORTED_RATES = 1"
definition FH_PARAM_SET :: u8 where "FH_PARAM_SET = 2"
definition DS_PARAM_SET :: u8 where "DS_PARAM_SET = 3"
definition CF_PARAM_SET :: u8 where "CF_PARAM_SET = 4"
definition IBSS_PARAM_SET :: u8 where "IBSS_PARAM_SET = 6"
definition COUNTRY_INFO :: u8 where "COUNTRY_INFO = 7"
definition ERP_INFO :: u8 where "ERP_INFO = 42"
definition RSN_IE :: u8 where "RSN_IE = 48"
definition EXTENDED_SUPPORTED_RATES :: u8 where "EXTENDED_SUPPORTED_RATES = 50"
definition EXTRA_IE :: u8 where "EXTRA_IE = 133"
definition VENDOR_SPECIFIC_221 :: u8 where "VENDOR_SPECIFIC_221 = 221"

lemmas elem_ids = ELEM_SSID_def SUPPORTED_RATES_def FH_PARAM_SET_def DS_PARAM_SET_def CF_PARAM_SET_def
  IBSS_PARAM_SET_def COUNTRY_INFO_def ERP_INFO_def RSN_IE_def EXTENDED_SUPPORTED_RATES_def EXTRA_IE_def VENDOR_SPECIFIC_221_def

definition WLAN_SUPPORTED_RATES :: nat where "WLAN_SUPPORTED_RATES = 14"
definition WLAN_MAX_SSID_LENGTH :: nat where "WLAN_MAX_SSID_LENGTH = 32"
definition IEEE_MAX_IE_SIZE :: nat where "IEEE_MAX_IE_SIZE = 256"

datatype network_type = Wlan802_11FH | Wlan802_11DS

datatype infra = Wlan802_11IBSS | Wlan802_11Infrastructure | Wlan802_11AutoUnknown

text \<open>The pointer to the raw beacon: into the response buffer while that is interpreted, later into the
  driver's beacon storage.\<close>

datatype bcn_ptr = Null | InResp nat | Stored nat

record BSSDescriptor =
  MacAddress :: "u8 list"
  SsidLength :: u32
  Ssid :: "u8 list"
  Privacy :: u32
  Rssi :: u32
  bss_Channel :: u32
  BeaconPeriod :: u16
  ATIMWindow :: u32
  ERPFlags :: u8
  NetworkTypeInUse :: network_type
  bss_mode :: infra
  SupportedRates :: "u8 list"
  bss_wmmIE :: "u8 list"
  extra_ie :: int
  TimeStamp :: "u8 list"
  PhyParamSet :: "u8 list"
  SsParamSet :: "u8 list"
  Cap :: u16
  DataRates :: "u8 list"
  networkTSF :: "u8 list"
  CountryInfo :: "u8 list"
  wpaIE :: "u8 list"
  rsnIE :: "u8 list"
  wpsIE :: "u8 list"
  pBeaconBuf :: bcn_ptr
  beaconBufSize :: nat
  beaconBufSizeMax :: nat

definition zero_bss :: BSSDescriptor where
  "zero_bss = \<lparr>MacAddress = replicate 6 0, SsidLength = 0, Ssid = replicate WLAN_MAX_SSID_LENGTH 0, Privacy = 0, Rssi = 0, bss_Channel = 0,
     BeaconPeriod = 0, ATIMWindow = 0, ERPFlags = 0, NetworkTypeInUse = Wlan802_11FH, bss_mode = Wlan802_11IBSS,
     SupportedRates = replicate WLAN_SUPPORTED_RATES 0, bss_wmmIE = replicate 26 0, extra_ie = 0, TimeStamp = replicate 8 0,
     PhyParamSet = replicate 7 0, SsParamSet = replicate 8 0, Cap = 0, DataRates = replicate WLAN_SUPPORTED_RATES 0,
     networkTSF = replicate 8 0, CountryInfo = replicate 254 0, wpaIE = replicate IEEE_MAX_IE_SIZE 0,
     rsnIE = replicate IEEE_MAX_IE_SIZE 0, wpsIE = replicate IEEE_MAX_IE_SIZE 0,
     pBeaconBuf = Null, beaconBufSize = 0, beaconBufSizeMax = 0\<rparr>"

section \<open>Information elements\<close>

text \<open>The local variables \<open>rateSize\<close> and \<open>foundDataRateIE\<close> go with the descriptor.\<close>

type_synonym ie_state = "u8 \<times> bool \<times> BSSDescriptor"

definition wpa_oui :: "u8 list" where "wpa_oui = [0, 0x50, 0xf2, 1]"
definition wmm_oui :: "u8 list" where "wmm_oui = [0, 0x50, 0xf2, 2]"
definition wps_oui :: "u8 list" where "wps_oui = [0, 0x50, 0xf2, 4]"

text \<open>The comparison of a vendor element with one of these: three bytes by \<open>memcmp\<close>, then the type.\<close>

definition oui_is :: "u8 list \<Rightarrow> nat \<Rightarrow> u8 list \<Rightarrow> bool option" where
  "oui_is buf pos oui =
     do { o3 \<leftarrow> mem_sub buf (pos + 2) 3;
          if o3 = take 3 oui then do { t \<leftarrow> mem_get buf (pos + 5); Some (t = oui ! 3) } else Some False }"

definition ie_vendor :: "u8 list \<Rightarrow> nat \<Rightarrow> nat \<Rightarrow> BSSDescriptor \<Rightarrow> BSSDescriptor option" where
  "ie_vendor buf pos totalIeLen d =
     do { wpa \<leftarrow> oui_is buf pos wpa_oui;
          if wpa then
            do { e \<leftarrow> mem_sub buf pos (min totalIeLen IEEE_MAX_IE_SIZE);
                 ie \<leftarrow> mem_copy (wpaIE d) 0 e;
                 Some (d\<lparr>wpaIE := ie\<rparr>) }
          else
            do { wmm \<leftarrow> oui_is buf pos wmm_oui;
                 if wmm then
                   (if totalIeLen = 26 \<or> totalIeLen = 9 then
                      do { e \<leftarrow> mem_sub buf pos totalIeLen;
                           ie \<leftarrow> mem_copy (bss_wmmIE d) 0 e;
                           Some (d\<lparr>bss_wmmIE := ie\<rparr>) }
                    else Some d)
                 else
                   do { wps \<leftarrow> oui_is buf pos wps_oui;
                        if wps then
                          do { e \<leftarrow> mem_sub buf pos totalIeLen;
                               ie \<leftarrow> mem_copy (wpsIE d) 0 e;
                               Some (d\<lparr>wpsIE := ie\<rparr>) }
                        else Some d } } }"

definition ie_ext_rates :: "u8 list \<Rightarrow> nat \<Rightarrow> u8 \<Rightarrow> ie_state \<Rightarrow> ie_state option" where
  "ie_ext_rates buf pos elemLen = (\<lambda>(rateSize, found, d).
     if found then
       do { let bytesToCopy = (if unat elemLen + unat rateSize > WLAN_SUPPORTED_RATES
              then of_nat WLAN_SUPPORTED_RATES - rateSize else elemLen);
            r \<leftarrow> mem_sub buf (pos + 2) (unat bytesToCopy);
            dr \<leftarrow> mem_copy (DataRates d) (unat rateSize) r;
            sr \<leftarrow> mem_copy (SupportedRates d) (unat rateSize) r;
            Some (rateSize, found, d\<lparr>DataRates := dr, SupportedRates := sr\<rparr>) }
     else Some (rateSize, found, d))"

text \<open>The \<^verbatim>\<open>switch\<close> on the element: \<^term>\<open>Inl\<close> is the early return with failure.\<close>

definition ie_switch :: "u8 list \<Rightarrow> nat \<Rightarrow> u8 \<Rightarrow> u8 \<Rightarrow> ie_state \<Rightarrow> (BSSDescriptor + ie_state) option" where
  "ie_switch buf pos elemID elemLen = (\<lambda>(rateSize, found, d).
     let ok = (\<lambda>d. Some (Inr (rateSize, found, d)))
     in if elemID = ELEM_SSID then
          do { x \<leftarrow> mem_sub buf (pos + 2) (unat elemLen);
               ssid \<leftarrow> mem_copy (Ssid d) 0 x;
               ok (d\<lparr>SsidLength := ucast elemLen, Ssid := ssid\<rparr>) }
        else if elemID = SUPPORTED_RATES then
          do { r \<leftarrow> mem_sub buf (pos + 2) (unat elemLen);
               dr \<leftarrow> mem_copy (DataRates d) 0 r;
               sr \<leftarrow> mem_copy (SupportedRates d) 0 r;
               Some (Inr (elemLen, True, d\<lparr>DataRates := dr, SupportedRates := sr\<rparr>)) }
        else if elemID = EXTRA_IE then ok (d\<lparr>extra_ie := 1\<rparr>)
        else if elemID = FH_PARAM_SET then
          do { x \<leftarrow> mem_sub buf pos 7;
               ph \<leftarrow> mem_copy (PhyParamSet d) 0 x;
               ok (d\<lparr>NetworkTypeInUse := Wlan802_11FH, PhyParamSet := ph\<rparr>) }
        else if elemID = DS_PARAM_SET then
          do { ch \<leftarrow> mem_get buf (pos + 2);
               x \<leftarrow> mem_sub buf pos 3;
               ph \<leftarrow> mem_copy (PhyParamSet d) 0 x;
               ok (d\<lparr>NetworkTypeInUse := Wlan802_11DS, bss_Channel := ucast ch, PhyParamSet := ph\<rparr>) }
        else if elemID = CF_PARAM_SET then
          do { x \<leftarrow> mem_sub buf pos 8;
               ss \<leftarrow> mem_copy (SsParamSet d) 0 x;
               ok (d\<lparr>SsParamSet := ss\<rparr>) }
        else if elemID = IBSS_PARAM_SET then
          do { a0 \<leftarrow> mem_get buf (pos + 2);
               a1 \<leftarrow> mem_get buf (pos + 3);
               x \<leftarrow> mem_sub buf pos 4;
               ss \<leftarrow> mem_copy (SsParamSet d) 0 x;
               ok (d\<lparr>ATIMWindow := ucast (le16_to a0 a1), SsParamSet := ss\<rparr>) }
        else if elemID = COUNTRY_INFO then
          (if unat elemLen < 3 \<or> unat elemLen > 254 then Some (Inl d)
           else
             do { x \<leftarrow> mem_sub buf pos (unat elemLen + 2);
                  ci \<leftarrow> mem_copy (CountryInfo d) 0 x;
                  ok (d\<lparr>CountryInfo := ci\<rparr>) })
        else if elemID = ERP_INFO then
          do { f \<leftarrow> mem_get buf (pos + 2); ok (d\<lparr>ERPFlags := f\<rparr>) }
        else if elemID = EXTENDED_SUPPORTED_RATES then
          map_option Inr (ie_ext_rates buf pos elemLen (rateSize, found, d))
        else if elemID = VENDOR_SPECIFIC_221 then
          do { d \<leftarrow> ie_vendor buf pos (unat elemLen + 2) d; ok d }
        else if elemID = RSN_IE then
          do { x \<leftarrow> mem_sub buf pos (min (unat elemLen + 2) IEEE_MAX_IE_SIZE);
               ie \<leftarrow> mem_copy (rsnIE d) 0 x;
               ok (d\<lparr>rsnIE := ie\<rparr>) }
        else ok d)"

lemma uint_gt_m2: "(- 2 :: int) < uint (x :: u8)"
  by (rule less_le_trans [of _ 0]) simp_all

text \<open>The loop; \<open>left\<close> may fall below zero, since an element is compared with it without its header.\<close>

function ie_loop :: "u8 list \<Rightarrow> nat \<Rightarrow> int \<Rightarrow> ie_state \<Rightarrow> (int \<times> BSSDescriptor) option" where
  "ie_loop buf pos left s =
     (if left < 2 then Some (0, snd (snd s))
      else
        do { elemID \<leftarrow> mem_get buf pos;
             elemLen \<leftarrow> mem_get buf (pos + 1);
             if left < int (unat elemLen) then Some (0, snd (snd s))
             else
               do { r \<leftarrow> ie_switch buf pos elemID elemLen s;
                    case r of
                      Inl d \<Rightarrow> Some (- 1, d)
                    | Inr s \<Rightarrow> ie_loop buf (pos + unat elemLen + 2) (left - int (unat elemLen + 2)) s } })"
  by auto

termination
  by (relation "measure (\<lambda>(buf, pos, left, s). nat left)") (auto simp: uint_gt_m2)

declare ie_loop.simps [simp del]

section \<open>A description\<close>

text \<open>The fixed fields at \<open>pos\<close>, behind the hardware address.\<close>

definition bss_fixed :: "u8 list \<Rightarrow> nat \<Rightarrow> nat \<Rightarrow> BSSDescriptor \<Rightarrow> BSSDescriptor option" where
  "bss_fixed buf pos left d =
     do { rssi \<leftarrow> mem_get buf pos;
          ts \<leftarrow> mem_sub buf (pos + 1) 8;
          b0 \<leftarrow> mem_get buf (pos + 9);
          b1 \<leftarrow> mem_get buf (pos + 10);
          c0 \<leftarrow> mem_get buf (pos + 11);
          c1 \<leftarrow> mem_get buf (pos + 12);
          let cap = le16_to c0 c1;
          Some (d\<lparr>Rssi := ucast rssi, pBeaconBuf := InResp (pos + 1), beaconBufSize := left - 1, TimeStamp := ts,
                  BeaconPeriod := le16_to b0 b1, Cap := cap, Privacy := (if bit cap 4 then 1 else 0),
                  bss_mode := (if bit cap 1 then Wlan802_11IBSS else Wlan802_11Infrastructure)\<rparr>) }"

text \<open>The whole function: \<open>pos\<close> and \<open>left\<close> are \<open>*pBeaconInfo\<close> and \<open>*bytesLeft\<close>.\<close>

definition InterpretBSSDescriptionWithIE ::
  "u8 list \<Rightarrow> BSSDescriptor \<Rightarrow> nat \<Rightarrow> nat \<Rightarrow> (int \<times> BSSDescriptor \<times> nat \<times> nat) option" where
  "InterpretBSSDescriptionWithIE buf d pos left =
     do { (beaconSize, pos, left) \<leftarrow>
            (if left \<ge> 2 then
               do { b0 \<leftarrow> mem_get buf pos; b1 \<leftarrow> mem_get buf (pos + 1); Some (unat (le16_to b0 b1), pos + 2, left - 2) }
             else Some (0, pos, left));
          if beaconSize = 0 \<or> beaconSize > left then Some (- 1, d, pos + left, 0)
          else
            do { let pos' = pos + beaconSize;
                 let left' = left - beaconSize;
                 mac \<leftarrow> mem_sub buf pos 6;
                 let d = d\<lparr>MacAddress := mac\<rparr>;
                 if int beaconSize - 6 < 12 then Some (- 1, d, pos', left')
                 else
                   do { d \<leftarrow> bss_fixed buf (pos + 6) (beaconSize - 6) d;
                        (ret, d) \<leftarrow> ie_loop buf (pos + 19) (int beaconSize - 19) (0, False, d);
                        Some (ret, d, pos', left') } } }"

section \<open>Elements as values\<close>

type_synonym elem = "u8 \<times> u8 list"

definition elem_bytes :: "elem \<Rightarrow> u8 list" where
  "elem_bytes = (\<lambda>(i, b). i # of_nat (length b) # b)"

definition has_oui :: "u8 list \<Rightarrow> u8 list \<Rightarrow> bool" where
  "has_oui oui b \<longleftrightarrow> take 4 b = oui"

text \<open>The lengths that the standard gives the elements the driver reads, and what the arrays of the
  driver hold.\<close>

definition wf_elem :: "elem \<Rightarrow> bool" where
  "wf_elem = (\<lambda>(i, b). length b \<le> 255 \<and> (i = ELEM_SSID \<longrightarrow> length b \<le> 32) \<and> (i = SUPPORTED_RATES \<longrightarrow> length b \<le> 14) \<and>
     (i = FH_PARAM_SET \<longrightarrow> length b = 5) \<and> (i = DS_PARAM_SET \<longrightarrow> length b = 1) \<and> (i = CF_PARAM_SET \<longrightarrow> length b = 6) \<and>
     (i = IBSS_PARAM_SET \<longrightarrow> length b = 2) \<and> (i = COUNTRY_INFO \<longrightarrow> 3 \<le> length b \<and> length b \<le> 252) \<and>
     (i = ERP_INFO \<longrightarrow> length b = 1) \<and>
     (i = VENDOR_SPECIFIC_221 \<longrightarrow> 4 \<le> length b \<and> (has_oui wps_oui b \<longrightarrow> length b \<le> 254)))"

definition put :: "'a list \<Rightarrow> 'a list \<Rightarrow> 'a list" where
  "put xs d = xs @ drop (length xs) d"

text \<open>What an element means, without the buffer it comes in.\<close>

definition elem_vendor :: "elem \<Rightarrow> BSSDescriptor \<Rightarrow> BSSDescriptor" where
  "elem_vendor e d =
     (if has_oui wpa_oui (snd e) then d\<lparr>wpaIE := put (take 256 (elem_bytes e)) (wpaIE d)\<rparr>
      else if has_oui wmm_oui (snd e) then
        (if length (snd e) = 24 \<or> length (snd e) = 7 then d\<lparr>bss_wmmIE := put (elem_bytes e) (bss_wmmIE d)\<rparr> else d)
      else if has_oui wps_oui (snd e) then d\<lparr>wpsIE := put (elem_bytes e) (wpsIE d)\<rparr>
      else d)"

definition elem_apply :: "elem \<Rightarrow> ie_state \<Rightarrow> ie_state" where
  "elem_apply e = (\<lambda>(rs, found, d).
     let i = fst e; b = snd e
     in if i = ELEM_SSID then (rs, found, d\<lparr>SsidLength := of_nat (length b), Ssid := put b (Ssid d)\<rparr>)
        else if i = SUPPORTED_RATES then
          (of_nat (length b), True, d\<lparr>DataRates := put b (DataRates d), SupportedRates := put b (SupportedRates d)\<rparr>)
        else if i = EXTRA_IE then (rs, found, d\<lparr>extra_ie := 1\<rparr>)
        else if i = FH_PARAM_SET then (rs, found, d\<lparr>NetworkTypeInUse := Wlan802_11FH, PhyParamSet := elem_bytes e\<rparr>)
        else if i = DS_PARAM_SET then
          (rs, found, d\<lparr>NetworkTypeInUse := Wlan802_11DS, bss_Channel := ucast (b ! 0), PhyParamSet := put (elem_bytes e) (PhyParamSet d)\<rparr>)
        else if i = CF_PARAM_SET then (rs, found, d\<lparr>SsParamSet := elem_bytes e\<rparr>)
        else if i = IBSS_PARAM_SET then
          (rs, found, d\<lparr>ATIMWindow := ucast (le16_to (b ! 0) (b ! 1)), SsParamSet := put (elem_bytes e) (SsParamSet d)\<rparr>)
        else if i = COUNTRY_INFO then (rs, found, d\<lparr>CountryInfo := put (elem_bytes e) (CountryInfo d)\<rparr>)
        else if i = ERP_INFO then (rs, found, d\<lparr>ERPFlags := b ! 0\<rparr>)
        else if i = EXTENDED_SUPPORTED_RATES then
          (if found then (rs, found,
             d\<lparr>DataRates := take (unat rs) (DataRates d) @ put (take (14 - unat rs) b) (drop (unat rs) (DataRates d)),
               SupportedRates := take (unat rs) (SupportedRates d) @ put (take (14 - unat rs) b) (drop (unat rs) (SupportedRates d))\<rparr>)
           else (rs, found, d))
        else if i = VENDOR_SPECIFIC_221 then (rs, found, elem_vendor e d)
        else if i = RSN_IE then (rs, found, d\<lparr>rsnIE := put (take 256 (elem_bytes e)) (rsnIE d)\<rparr>)
        else (rs, found, d))"

definition wf_bss :: "BSSDescriptor \<Rightarrow> bool" where
  "wf_bss d \<longleftrightarrow> length (Ssid d) = 32 \<and> length (SupportedRates d) = 14 \<and> length (DataRates d) = 14 \<and> length (PhyParamSet d) = 7 \<and>
     length (SsParamSet d) = 8 \<and> length (CountryInfo d) = 254 \<and> length (wpaIE d) = 256 \<and> length (rsnIE d) = 256 \<and>
     length (wpsIE d) = 256 \<and> length (bss_wmmIE d) = 26"

definition wf_ie :: "ie_state \<Rightarrow> bool" where
  "wf_ie = (\<lambda>(rs, found, d). (found \<longrightarrow> unat rs \<le> 14) \<and> wf_bss d)"

lemma length_put: "length xs \<le> length d \<Longrightarrow> length (put xs d) = length d"
  by (simp add: put_def)

lemma mem_copy_0: "length x \<le> length d \<Longrightarrow> mem_copy d 0 x = Some (put x d)"
  by (simp add: mem_copy_def put_def)

lemma length_elem_bytes [simp]: "length (elem_bytes e) = length (snd e) + 2"
  by (simp add: elem_bytes_def split: prod.split)

text \<open>Reading the buffer at an element.\<close>

lemma elem_reads:
  assumes "buf = pre @ elem_bytes (i, b) @ post"
  shows "mem_get buf (length pre) = Some i" and "mem_get buf (length pre + 1) = Some (of_nat (length b))"
    and "k < length b \<Longrightarrow> mem_get buf (length pre + 2 + k) = Some (b ! k)"
    and "n \<le> length b \<Longrightarrow> mem_sub buf (length pre + 2) n = Some (take n b)"
    and "n \<le> length b + 2 \<Longrightarrow> mem_sub buf (length pre) n = Some (take n (elem_bytes (i, b)))"
  using assms by (simp_all add: elem_bytes_def mem_get_def mem_sub_def nth_append take_Cons split: nat.split)

lemma oui_is_eq:
  assumes "buf = pre @ elem_bytes (i, b) @ post" and "4 \<le> length b" and "length oui = 4"
  shows "oui_is buf (length pre) oui = Some (has_oui oui b)"
proof -
  have "take 4 b = take 3 b @ [b ! 3]" "oui = take 3 oui @ [oui ! 3]"
    using take_Suc_conv_app_nth [of 3 b] take_Suc_conv_app_nth [of 3 oui] assms(2,3) by simp_all
  then have "has_oui oui b \<longleftrightarrow> take 3 b = take 3 oui \<and> b ! 3 = oui ! 3"
    using assms(2,3) unfolding has_oui_def by (metis append1_eq_conv)
  moreover have "mem_get buf (length pre + 5) = Some (b ! 3)" "mem_sub buf (length pre + 2) 3 = Some (take 3 b)"
    using elem_reads(3) [OF assms(1), of 3] elem_reads(4) [OF assms(1), of 3] assms(2) by (simp_all add: add.commute)
  ultimately show ?thesis by (simp add: oui_is_def)
qed

lemma ie_vendor_eq:
  assumes "buf = pre @ elem_bytes (i, b) @ post" and "4 \<le> length b" and "has_oui wps_oui b \<longrightarrow> length b \<le> 254" and "wf_bss d"
  shows "ie_vendor buf (length pre) (length b + 2) d = Some (elem_vendor (i, b) d)"
proof -
  have o: "oui_is buf (length pre) wpa_oui = Some (has_oui wpa_oui b)" "oui_is buf (length pre) wmm_oui = Some (has_oui wmm_oui b)"
    "oui_is buf (length pre) wps_oui = Some (has_oui wps_oui b)"
    by (rule oui_is_eq [OF assms(1,2)], simp add: wpa_oui_def wmm_oui_def wps_oui_def)+
  have m: "mem_sub buf (length pre) (min (length b + 2) 256) = Some (take 256 (elem_bytes (i, b)))"
    "mem_sub buf (length pre) (length b + 2) = Some (elem_bytes (i, b))"
    using elem_reads(5) [OF assms(1), of "min (length b + 2) 256"] elem_reads(5) [OF assms(1), of "length b + 2"]
    by (simp_all add: min_def)
  have l: "length (wpaIE d) = 256" "length (bss_wmmIE d) = 26" "length (wpsIE d) = 256" using assms(4) by (simp_all add: wf_bss_def)
  show ?thesis
    using assms(3) l m
    by (simp add: ie_vendor_def elem_vendor_def o IEEE_MAX_IE_SIZE_def mem_copy_0)
qed

lemma ie_ext_rates_eq:
  assumes "buf = pre @ elem_bytes (i, b) @ post" and "length b \<le> 255" and "i = EXTENDED_SUPPORTED_RATES" and "wf_ie s"
  shows "ie_ext_rates buf (length pre) (of_nat (length b)) s = Some (elem_apply (i, b) s)"
proof -
  obtain rs found d where s: "s = (rs, found, d)" by (cases s)
  have len: "length (DataRates d) = 14" "length (SupportedRates d) = 14" "found \<longrightarrow> unat rs \<le> 14"
    using assms(4) by (simp_all add: s wf_ie_def wf_bss_def)
  have u: "unat (of_nat (length b) :: u8) = length b" using assms(2) by (simp add: unat_of_nat)
  let ?n = "if length b + unat rs > 14 then 14 - rs else of_nat (length b) :: u8"
  have n: "unat ?n = min (length b) (14 - unat rs)" if found
    using that len(3) u by (cases "length b + unat rs > 14") (simp_all add: unat_sub word_le_nat_alt min_def, linarith+)
  have r: "mem_sub buf (length pre + 2) (min (length b) (14 - unat rs)) = Some (take (14 - unat rs) b)"
    using elem_reads(4) [OF assms(1), of "min (length b) (14 - unat rs)"] by (simp add: min_def)
  have c: "mem_copy x (unat rs) (take (14 - unat rs) b) = Some (take (unat rs) x @ put (take (14 - unat rs) b) (drop (unat rs) x))"
    if "found" "length x = 14" for x :: "u8 list"
    using that len(3) by (simp add: mem_copy_def put_def add.commute)
  show ?thesis
  proof (cases found)
    case True
    have "ie_ext_rates buf (length pre) (of_nat (length b)) s =
      do { r \<leftarrow> mem_sub buf (length pre + 2) (unat ?n); dr \<leftarrow> mem_copy (DataRates d) (unat rs) r;
           sr \<leftarrow> mem_copy (SupportedRates d) (unat rs) r; Some (rs, found, d\<lparr>DataRates := dr, SupportedRates := sr\<rparr>) }"
      by (simp only: s ie_ext_rates_def prod.case True if_True Let_def u WLAN_SUPPORTED_RATES_def of_nat_numeral)
    then show ?thesis using True
      by (simp only: n [OF True] r c [OF True len(1)] c [OF True len(2)] Option.bind.bind_lunit)
        (simp add: s assms(3) elem_apply_def elem_ids)
  next
    case False
    then show ?thesis by (simp add: s assms(3) ie_ext_rates_def elem_apply_def elem_ids)
  qed
qed

lemma ie_switch_eq:
  assumes "buf = pre @ elem_bytes (i, b) @ post" and "wf_elem (i, b)" and "wf_ie s"
  shows "ie_switch buf (length pre) i (of_nat (length b)) s = Some (Inr (elem_apply (i, b) s))"
proof -
  obtain rs found d where s: "s = (rs, found, d)" by (cases s)
  have wd: "wf_bss d" and len: "length (Ssid d) = 32" "length (SupportedRates d) = 14" "length (DataRates d) = 14" "length (PhyParamSet d) = 7"
    "length (SsParamSet d) = 8" "length (CountryInfo d) = 254" "length (rsnIE d) = 256"
    using assms(3) by (simp_all add: s wf_ie_def wf_bss_def)
  have b: "length b \<le> 255" using assms(2) by (simp add: wf_elem_def)
  have u: "unat (of_nat (length b) :: u8) = length b" using b by (simp add: unat_of_nat)
  have body: "mem_sub buf (length pre + 2) (length b) = Some b" using elem_reads(4) [OF assms(1), of "length b"] by simp
  have whole: "n = length b + 2 \<Longrightarrow> mem_sub buf (length pre) n = Some (elem_bytes (i, b))" for n
    using elem_reads(5) [OF assms(1), of "length b + 2"] by simp
  have cut: "mem_sub buf (length pre) (min (length b + 2) 256) = Some (take 256 (elem_bytes (i, b)))"
    using elem_reads(5) [OF assms(1), of "min (length b + 2) 256"] by (simp add: min_def)
  have g0: "0 < length b \<Longrightarrow> mem_get buf (length pre + 2) = Some (b ! 0)" using elem_reads(3) [OF assms(1), of 0] by simp
  have g1: "1 < length b \<Longrightarrow> mem_get buf (length pre + 3) = Some (b ! 1)" using elem_reads(3) [OF assms(1), of 1] by (simp add: numeral_3_eq_3)
  have uc: "(ucast (of_nat (length b) :: u8) :: u32) = of_nat (length b)"
    using u by (metis of_nat_unat)
  note facts = ie_switch_def elem_apply_def s Let_def u mem_copy_0 len
  have all: "put (elem_bytes (i, b)) x = elem_bytes (i, b)" if "length x = length b + 2" for x using that by (simp add: put_def)
  consider "i = ELEM_SSID" | "i = SUPPORTED_RATES" | "i = EXTRA_IE" | "i = FH_PARAM_SET" | "i = DS_PARAM_SET" | "i = CF_PARAM_SET"
    | "i = IBSS_PARAM_SET" | "i = COUNTRY_INFO" | "i = ERP_INFO" | "i = EXTENDED_SUPPORTED_RATES" | "i = VENDOR_SPECIFIC_221" | "i = RSN_IE"
    | "i \<notin> {ELEM_SSID, SUPPORTED_RATES, EXTRA_IE, FH_PARAM_SET, DS_PARAM_SET, CF_PARAM_SET, IBSS_PARAM_SET, COUNTRY_INFO, ERP_INFO,
          EXTENDED_SUPPORTED_RATES, VENDOR_SPECIFIC_221, RSN_IE}" by blast
  then show ?thesis
  proof cases
    case 1
    then show ?thesis using assms(2) body uc by (simp add: facts wf_elem_def)
  next
    case 2
    then show ?thesis using assms(2) body by (simp add: facts wf_elem_def elem_ids)
  next
    case 3
    then show ?thesis by (simp add: facts elem_ids)
  next
    case 4
    then have "length b = 5" using assms(2) by (simp add: wf_elem_def)
    then show ?thesis using 4 whole [of 7] all [of "PhyParamSet d"] len by (simp add: facts elem_ids)
  next
    case 5
    then have "length b = 1" using assms(2) by (simp add: wf_elem_def)
    then show ?thesis using 5 whole [of 3] g0 by (simp add: facts elem_ids)
  next
    case 6
    then have "length b = 6" using assms(2) by (simp add: wf_elem_def)
    then show ?thesis using 6 whole [of 8] all [of "SsParamSet d"] len by (simp add: facts elem_ids)
  next
    case 7
    then have "length b = 2" using assms(2) by (simp add: wf_elem_def)
    then show ?thesis using 7 whole [of 4] g0 g1 by (simp add: facts elem_ids)
  next
    case 8
    then have "3 \<le> length b" "length b \<le> 252" using assms(2) by (simp_all add: wf_elem_def elem_ids)
    then show ?thesis using 8 whole [of "length b + 2"] by (simp add: facts elem_ids)
  next
    case 9
    then have "length b = 1" using assms(2) by (simp add: wf_elem_def)
    then show ?thesis using 9 g0 by (simp add: facts elem_ids)
  next
    case 10
    then show ?thesis using ie_ext_rates_eq [OF assms(1) b 10 assms(3)] by (simp add: ie_switch_def s Let_def elem_ids)
  next
    case 11
    then have "4 \<le> length b" "has_oui wps_oui b \<longrightarrow> length b \<le> 254" using assms(2) by (simp_all add: wf_elem_def elem_ids)
    then show ?thesis using 11 ie_vendor_eq [OF assms(1) _ _ wd] by (simp add: facts elem_ids)
  next
    case 12
    then show ?thesis using cut by (simp add: facts elem_ids IEEE_MAX_IE_SIZE_def)
  next
    case 13
    then show ?thesis by (simp add: facts)
  qed
qed

lemma elem_vendor_wf: "wf_bss d \<Longrightarrow> wf_elem e \<Longrightarrow> fst e = VENDOR_SPECIFIC_221 \<Longrightarrow> wf_bss (elem_vendor e d)"
  by (cases e) (auto simp: wf_bss_def elem_vendor_def wf_elem_def length_put)

lemma elem_apply_wf:
  assumes "wf_ie s" and "wf_elem e"
  shows "wf_ie (elem_apply e s)"
proof -
  obtain rs found d where s: "s = (rs, found, d)" by (cases s)
  obtain i b where e: "e = (i, b)" by (cases e)
  have d: "wf_bss d" and r: "found \<longrightarrow> unat rs \<le> 14" using assms(1) by (simp_all add: s wf_ie_def)
  have u: "unat (of_nat (length b) :: u8) = length b" using assms(2) by (simp add: e wf_elem_def unat_of_nat)
  show ?thesis
  proof (cases "i = VENDOR_SPECIFIC_221")
    case True
    then show ?thesis using d r assms(2) elem_vendor_wf [of d e] by (simp add: s e elem_apply_def wf_ie_def elem_ids)
  next
    case False
    then show ?thesis using d r assms(2) u
      by (auto simp: s e elem_apply_def wf_ie_def wf_bss_def wf_elem_def Let_def length_put)
  qed
qed

lemma ie_loop_prefix:
  assumes "\<forall>e \<in> set es. wf_elem e" and "wf_ie s" and "buf = pre @ concat (map elem_bytes es) @ post"
  shows "ie_loop buf (length pre) (int (length (concat (map elem_bytes es)) + r)) s =
    ie_loop buf (length pre + length (concat (map elem_bytes es))) (int r) (fold elem_apply es s) \<and> wf_ie (fold elem_apply es s)"
  using assms
proof (induction es arbitrary: pre s)
  case Nil
  then show ?case by simp
next
  case (Cons e es)
  obtain i b where e: "e = (i, b)" by (cases e)
  let ?rest = "concat (map elem_bytes es)"
  have buf: "buf = pre @ elem_bytes (i, b) @ ?rest @ post" using Cons.prems(3) by (simp add: e)
  have wf: "wf_elem (i, b)" using Cons.prems(1) by (simp add: e)
  have u: "unat (of_nat (length b) :: u8) = length b" using wf by (simp add: wf_elem_def unat_of_nat)
  have ui: "uint (of_nat (length b) :: u8) = int (length b)" using arg_cong [OF u, of int] by simp
  have sw: "ie_switch buf (length pre) i (of_nat (length b)) s = Some (Inr (elem_apply (i, b) s))"
    by (rule ie_switch_eq [OF buf wf Cons.prems(2)])
  have "ie_loop buf (length pre) (int (length (concat (map elem_bytes (e # es))) + r)) s =
      ie_loop buf (length pre + length b + 2) (int (length (concat (map elem_bytes (e # es))) + r) - int (length b + 2)) (elem_apply (i, b) s)"
    using elem_reads(1,2) [OF buf] sw u ui by (subst ie_loop.simps) (simp add: e)
  also have "\<dots> = ie_loop buf (length (pre @ elem_bytes e)) (int (length ?rest + r)) (elem_apply e s)" by (simp add: e algebra_simps)
  finally have step: "ie_loop buf (length pre) (int (length (concat (map elem_bytes (e # es))) + r)) s =
      ie_loop buf (length (pre @ elem_bytes e)) (int (length ?rest + r)) (elem_apply e s)" .
  have "ie_loop buf (length (pre @ elem_bytes e)) (int (length ?rest + r)) (elem_apply e s) =
      ie_loop buf (length (pre @ elem_bytes e) + length ?rest) (int r) (fold elem_apply es (elem_apply e s)) \<and>
      wf_ie (fold elem_apply es (elem_apply e s))"
    using Cons.prems elem_apply_wf by (intro Cons.IH) auto
  with step show ?case by (simp add: e algebra_simps)
qed

lemma ie_loop_eq:
  assumes "\<forall>e \<in> set es. wf_elem e" and "wf_ie s" and "buf = pre @ concat (map elem_bytes es) @ post"
  shows "ie_loop buf (length pre) (int (length (concat (map elem_bytes es)))) s = Some (0, snd (snd (fold elem_apply es s)))"
  using ie_loop_prefix [OF assms, of 0] by (simp add: ie_loop.simps [of _ _ 0])

section \<open>What a list of elements says\<close>

text \<open>The body of the last element with an identifier.\<close>

definition last_elem :: "elem list \<Rightarrow> u8 \<Rightarrow> u8 list option" where
  "last_elem es = map_of (rev es)"

definition bss_of :: "ie_state \<Rightarrow> BSSDescriptor" where "bss_of s = snd (snd s)"

lemma last_elem_snoc: "last_elem (es @ [e]) i = (if fst e = i then Some (snd e) else last_elem es i)"
  by (cases e) (auto simp: last_elem_def)

lemma elem_apply_fields:
  "Ssid (bss_of (elem_apply e s)) = (if fst e = ELEM_SSID then put (snd e) (Ssid (bss_of s)) else Ssid (bss_of s))"
  "SsidLength (bss_of (elem_apply e s)) = (if fst e = ELEM_SSID then of_nat (length (snd e)) else SsidLength (bss_of s))"
  "bss_Channel (bss_of (elem_apply e s)) = (if fst e = DS_PARAM_SET then ucast (snd e ! 0) else bss_Channel (bss_of s))"
  "rsnIE (bss_of (elem_apply e s)) = (if fst e = RSN_IE then put (take 256 (elem_bytes e)) (rsnIE (bss_of s)) else rsnIE (bss_of s))"
  "wpaIE (bss_of (elem_apply e s)) = (if fst e = VENDOR_SPECIFIC_221 \<and> has_oui wpa_oui (snd e)
     then put (take 256 (elem_bytes e)) (wpaIE (bss_of s)) else wpaIE (bss_of s))"
  "CountryInfo (bss_of (elem_apply e s)) = (if fst e = COUNTRY_INFO then put (elem_bytes e) (CountryInfo (bss_of s)) else CountryInfo (bss_of s))"
  by (cases s; simp add: bss_of_def elem_apply_def elem_vendor_def Let_def elem_ids)+

lemma elem_apply_fixed:
  "MacAddress (bss_of (elem_apply e s)) = MacAddress (bss_of s) \<and> Rssi (bss_of (elem_apply e s)) = Rssi (bss_of s) \<and>
   BeaconPeriod (bss_of (elem_apply e s)) = BeaconPeriod (bss_of s) \<and> Privacy (bss_of (elem_apply e s)) = Privacy (bss_of s) \<and>
   bss_mode (bss_of (elem_apply e s)) = bss_mode (bss_of s) \<and> pBeaconBuf (bss_of (elem_apply e s)) = pBeaconBuf (bss_of s) \<and>
   beaconBufSize (bss_of (elem_apply e s)) = beaconBufSize (bss_of s)"
  by (cases s) (simp add: bss_of_def elem_apply_def elem_vendor_def Let_def)

lemma fold_fixed:
  "MacAddress (bss_of (fold elem_apply es s)) = MacAddress (bss_of s) \<and> Rssi (bss_of (fold elem_apply es s)) = Rssi (bss_of s) \<and>
   BeaconPeriod (bss_of (fold elem_apply es s)) = BeaconPeriod (bss_of s) \<and> Privacy (bss_of (fold elem_apply es s)) = Privacy (bss_of s) \<and>
   bss_mode (bss_of (fold elem_apply es s)) = bss_mode (bss_of s) \<and> pBeaconBuf (bss_of (fold elem_apply es s)) = pBeaconBuf (bss_of s) \<and>
   beaconBufSize (bss_of (fold elem_apply es s)) = beaconBufSize (bss_of s)"
  by (induction es arbitrary: s) (simp_all add: elem_apply_fixed)

lemma fold_ssid:
  "case last_elem es ELEM_SSID of
     None \<Rightarrow> SsidLength (bss_of (fold elem_apply es s)) = SsidLength (bss_of s)
   | Some b \<Rightarrow> SsidLength (bss_of (fold elem_apply es s)) = of_nat (length b) \<and> take (length b) (Ssid (bss_of (fold elem_apply es s))) = b"
proof (induction es rule: rev_induct)
  case (snoc e es)
  then show ?case by (auto simp: last_elem_snoc elem_apply_fields put_def split: option.split)
qed (simp add: last_elem_def)

lemma fold_channel:
  "bss_Channel (bss_of (fold elem_apply es s)) =
    (case last_elem es DS_PARAM_SET of None \<Rightarrow> bss_Channel (bss_of s) | Some b \<Rightarrow> ucast (b ! 0))"
proof (induction es rule: rev_induct)
  case (snoc e es)
  then show ?case by (simp add: last_elem_snoc elem_apply_fields split: option.split)
qed (simp add: last_elem_def)

lemma fold_country:
  "case last_elem es COUNTRY_INFO of
     None \<Rightarrow> CountryInfo (bss_of (fold elem_apply es s)) = CountryInfo (bss_of s)
   | Some b \<Rightarrow> take (length b + 2) (CountryInfo (bss_of (fold elem_apply es s))) = elem_bytes (COUNTRY_INFO, b)"
proof (induction es rule: rev_induct)
  case (snoc e es)
  have "e = (fst e, snd e)" by simp
  then show ?case using snoc by (cases e) (auto simp: last_elem_snoc elem_apply_fields put_def split: option.split)
qed (simp add: last_elem_def)

lemma put_elem_0: "put (take 256 (elem_bytes e)) x ! 0 = fst e"
  by (cases e) (simp add: put_def elem_bytes_def numeral_eq_Suc)

lemma fold_rsn:
  "rsnIE (bss_of (fold elem_apply es s)) ! 0 = RSN_IE \<longleftrightarrow> rsnIE (bss_of s) ! 0 = RSN_IE \<or> RSN_IE \<in> fst ` set es"
  by (induction es arbitrary: s) (auto simp: elem_apply_fields put_elem_0)

lemma fold_wpa:
  "wpaIE (bss_of (fold elem_apply es s)) ! 0 = VENDOR_SPECIFIC_221 \<longleftrightarrow>
   wpaIE (bss_of s) ! 0 = VENDOR_SPECIFIC_221 \<or> (\<exists>b. (VENDOR_SPECIFIC_221, b) \<in> set es \<and> has_oui wpa_oui b)"
proof (induction es arbitrary: s)
  case (Cons e es)
  then show ?case by (cases e) (auto simp: elem_apply_fields put_elem_0)
qed simp

section \<open>A whole description\<close>

record beacon =
  bc_mac :: "u8 list"
  bc_rssi :: u8
  bc_time :: "u8 list"
  bc_interval :: u16
  bc_cap :: u16
  bc_elems :: "elem list"

definition beacon_body :: "beacon \<Rightarrow> u8 list" where
  "beacon_body bc = bc_time bc @ le16_of (bc_interval bc) @ le16_of (bc_cap bc) @ concat (map elem_bytes (bc_elems bc))"

definition beacon_size :: "beacon \<Rightarrow> nat" where
  "beacon_size bc = 7 + length (beacon_body bc)"

definition beacon_bytes :: "beacon \<Rightarrow> u8 list" where
  "beacon_bytes bc = le16_of (of_nat (beacon_size bc)) @ bc_mac bc @ bc_rssi bc # beacon_body bc"

definition wf_frame :: "beacon \<Rightarrow> bool" where
  "wf_frame bc \<longleftrightarrow> length (bc_mac bc) = 6 \<and> length (bc_time bc) = 8 \<and> beacon_size bc < 65536"

definition wf_beacon :: "beacon \<Rightarrow> bool" where
  "wf_beacon bc \<longleftrightarrow> wf_frame bc \<and> (\<forall>e \<in> set (bc_elems bc). wf_elem e)"

lemma length_beacon_bytes: "wf_frame bc \<Longrightarrow> length (beacon_bytes bc) = beacon_size bc + 2"
  by (simp add: wf_frame_def beacon_bytes_def beacon_size_def le16_of_def)

lemma wf_zero_bss: "wf_bss zero_bss"
  by (simp add: wf_bss_def zero_bss_def WLAN_MAX_SSID_LENGTH_def WLAN_SUPPORTED_RATES_def IEEE_MAX_IE_SIZE_def)

definition fixed_bss :: "beacon \<Rightarrow> nat \<Rightarrow> BSSDescriptor" where
  "fixed_bss bc pos = zero_bss\<lparr>MacAddress := bc_mac bc, Rssi := ucast (bc_rssi bc), pBeaconBuf := InResp (pos + 9),
     beaconBufSize := length (beacon_body bc), TimeStamp := bc_time bc, BeaconPeriod := bc_interval bc, Cap := bc_cap bc,
     Privacy := (if bit (bc_cap bc) 4 then 1 else 0),
     bss_mode := (if bit (bc_cap bc) 1 then Wlan802_11IBSS else Wlan802_11Infrastructure)\<rparr>"

lemma wf_fixed_bss: "wf_ie (0, False, fixed_bss bc pos)"
  using wf_zero_bss by (simp add: wf_ie_def wf_bss_def fixed_bss_def)

text \<open>Up to the elements, any frame of the right shape is read alike.\<close>

lemma interpret_frame:
  assumes "wf_frame bc" and "buf = pre @ beacon_bytes bc @ post"
  shows "\<exists>p post'. length p = length pre + 21 \<and> buf = p @ concat (map elem_bytes (bc_elems bc)) @ post' \<and>
    InterpretBSSDescriptionWithIE buf zero_bss (length pre) (beacon_size bc + 2 + k) =
    do { (ret, d) \<leftarrow> ie_loop buf (length p) (int (length (concat (map elem_bytes (bc_elems bc))))) (0, False, fixed_bss bc (length pre));
         Some (ret, d, length pre + beacon_size bc + 2, k) }"
proof -
  let ?n = "beacon_size bc" and ?es = "concat (map elem_bytes (bc_elems bc))"
  let ?iv = "bc_interval bc" and ?cap = "bc_cap bc"
  let ?p = "pre @ ucast (of_nat ?n :: u16) # ucast (drop_bit 8 (of_nat ?n :: u16)) # bc_mac bc @ bc_rssi bc # bc_time bc @
      [ucast ?iv, ucast (drop_bit 8 ?iv), ucast ?cap, ucast (drop_bit 8 ?cap)]"
  have wf: "length (bc_mac bc) = 6" "length (bc_time bc) = 8" "?n < 65536" using assms(1) by (simp_all add: wf_frame_def)
  have n: "?n = 19 + length ?es" using wf by (simp add: beacon_size_def beacon_body_def le16_of_def)
  have un: "unat (of_nat ?n :: u16) = ?n" using wf(3) by (simp add: unat_of_nat)
  have buf: "buf = ?p @ ?es @ post" using assms(2) by (simp add: beacon_bytes_def beacon_body_def le16_of_def)
  have lp: "length ?p = length pre + 21" using wf(1,2) by simp
  have g: "mem_get buf (length pre) = Some (ucast (of_nat ?n :: u16))" "mem_get buf (length pre + 1) = Some (ucast (drop_bit 8 (of_nat ?n :: u16)))"
    "mem_sub buf (length pre + 2) 6 = Some (bc_mac bc)" "mem_get buf (length pre + 8) = Some (bc_rssi bc)"
    "mem_sub buf (length pre + 9) 8 = Some (bc_time bc)" "mem_get buf (length pre + 17) = Some (ucast ?iv)"
    "mem_get buf (length pre + 18) = Some (ucast (drop_bit 8 ?iv))" "mem_get buf (length pre + 19) = Some (ucast ?cap)"
    "mem_get buf (length pre + 20) = Some (ucast (drop_bit 8 ?cap))"
    using wf(1,2) by (simp_all add: buf mem_get_def mem_sub_def nth_append)
  have sz: "?n - 6 - 1 = length (beacon_body bc)" by (simp add: beacon_size_def)
  have fx: "bss_fixed buf (length pre + 2 + 6) (?n - 6) (zero_bss\<lparr>MacAddress := bc_mac bc\<rparr>) = Some (fixed_bss bc (length pre))"
    using g sz by (simp add: bss_fixed_def fixed_bss_def add.commute Let_def)
  have "int ?n - 19 = int (length ?es)" using n by simp
  then have "InterpretBSSDescriptionWithIE buf zero_bss (length pre) (?n + 2 + k) =
    do { (ret, d) \<leftarrow> ie_loop buf (length ?p) (int (length ?es)) (0, False, fixed_bss bc (length pre));
         Some (ret, d, length pre + ?n + 2, k) }"
    using g(1-3) un fx n lp unfolding InterpretBSSDescriptionWithIE_def Let_def
    by (simp add: add.commute [of "length pre" 21])
  with lp buf show ?thesis by blast
qed

lemma interpret_beacon:
  assumes "wf_beacon bc" and "buf = pre @ beacon_bytes bc @ post"
  shows "InterpretBSSDescriptionWithIE buf zero_bss (length pre) (beacon_size bc + 2 + k) =
    Some (0, bss_of (fold elem_apply (bc_elems bc) (0, False, fixed_bss bc (length pre))), length pre + beacon_size bc + 2, k)"
proof -
  have wf: "wf_frame bc" "\<forall>e \<in> set (bc_elems bc). wf_elem e" using assms(1) by (simp_all add: wf_beacon_def)
  obtain p post' where p: "buf = p @ concat (map elem_bytes (bc_elems bc)) @ post'"
    "InterpretBSSDescriptionWithIE buf zero_bss (length pre) (beacon_size bc + 2 + k) =
      do { (ret, d) \<leftarrow> ie_loop buf (length p) (int (length (concat (map elem_bytes (bc_elems bc))))) (0, False, fixed_bss bc (length pre));
           Some (ret, d, length pre + beacon_size bc + 2, k) }"
    using interpret_frame [OF wf(1) assms(2), of k] by blast
  then show ?thesis using ie_loop_eq [OF wf(2) wf_fixed_bss p(1)] by (simp add: bss_of_def)
qed

section \<open>Properties\<close>

text \<open>C15. Reading a description recovers what the access point sent: for every well-formed beacon, at any place
  of the response, the function succeeds without leaving an array, advances exactly to the next
  description, and yields the address, signal, interval and mode of the beacon, the network name and
  channel of the last elements that give them, the encryption elements exactly when they were sent,
  and the place of the raw beacon for later use.\<close>

theorem bss_parse:
  assumes "wf_beacon bc" and "buf = pre @ beacon_bytes bc @ post"
  shows "\<exists>d. InterpretBSSDescriptionWithIE buf zero_bss (length pre) (beacon_size bc + 2 + k) = Some (0, d, length pre + beacon_size bc + 2, k) \<and>
    MacAddress d = bc_mac bc \<and> Rssi d = ucast (bc_rssi bc) \<and> BeaconPeriod d = bc_interval bc \<and>
    (Privacy d = 1 \<longleftrightarrow> bit (bc_cap bc) 4) \<and> (bss_mode d = Wlan802_11IBSS \<longleftrightarrow> bit (bc_cap bc) 1) \<and>
    (case last_elem (bc_elems bc) ELEM_SSID of None \<Rightarrow> SsidLength d = 0
       | Some b \<Rightarrow> SsidLength d = of_nat (length b) \<and> take (length b) (Ssid d) = b) \<and>
    bss_Channel d = (case last_elem (bc_elems bc) DS_PARAM_SET of None \<Rightarrow> 0 | Some b \<Rightarrow> ucast (b ! 0)) \<and>
    (rsnIE d ! 0 = RSN_IE \<longleftrightarrow> RSN_IE \<in> fst ` set (bc_elems bc)) \<and>
    (wpaIE d ! 0 = VENDOR_SPECIFIC_221 \<longleftrightarrow> (\<exists>b. (VENDOR_SPECIFIC_221, b) \<in> set (bc_elems bc) \<and> has_oui wpa_oui b)) \<and>
    pBeaconBuf d = InResp (length pre + 9) \<and> mem_sub buf (length pre + 9) (beaconBufSize d) = Some (beacon_body bc)"
proof -
  let ?s = "(0, False, fixed_bss bc (length pre)) :: ie_state"
  let ?d = "bss_of (fold elem_apply (bc_elems bc) ?s)"
  have fx: "bss_of ?s = fixed_bss bc (length pre)" by (simp add: bss_of_def)
  have z: "rsnIE (fixed_bss bc (length pre)) ! 0 \<noteq> RSN_IE" "wpaIE (fixed_bss bc (length pre)) ! 0 \<noteq> VENDOR_SPECIFIC_221"
    "bss_Channel (fixed_bss bc (length pre)) = 0" "SsidLength (fixed_bss bc (length pre)) = 0"
    by (simp_all add: fixed_bss_def zero_bss_def elem_ids IEEE_MAX_IE_SIZE_def)
  have "MacAddress ?d = bc_mac bc \<and> Rssi ?d = ucast (bc_rssi bc) \<and> BeaconPeriod ?d = bc_interval bc \<and>
      (Privacy ?d = 1 \<longleftrightarrow> bit (bc_cap bc) 4) \<and> (bss_mode ?d = Wlan802_11IBSS \<longleftrightarrow> bit (bc_cap bc) 1) \<and>
      pBeaconBuf ?d = InResp (length pre + 9) \<and> beaconBufSize ?d = length (beacon_body bc)"
    using fold_fixed [of "bc_elems bc" ?s] by (simp add: fx) (simp add: fixed_bss_def)
  moreover have "mem_sub buf (length pre + 9) (length (beacon_body bc)) = Some (beacon_body bc)"
  proof -
    have "length (bc_mac bc) = 6" using assms(1) by (simp add: wf_beacon_def wf_frame_def)
    then show ?thesis using assms(2) by (simp add: mem_sub_def beacon_bytes_def le16_of_def)
  qed
  ultimately show ?thesis
    using interpret_beacon [OF assms, of k] fold_ssid [of "bc_elems bc" ?s] fold_channel [of "bc_elems bc" ?s]
      fold_rsn [of "bc_elems bc" ?s] fold_wpa [of "bc_elems bc" ?s] z
    by (intro exI [of _ ?d]) (simp only: fx simp_thms)
qed

definition sample_beacon :: beacon where
  "sample_beacon = \<lparr>bc_mac = [0, 4, 0x20, 1, 2, 3], bc_rssi = 60, bc_time = replicate 8 0, bc_interval = 100, bc_cap = 0x11,
     bc_elems = [(0, [115, 113, 117]), (1, [130, 132, 139, 150]), (3, [6]), (48, [1, 0])]\<rparr>"

lemma sample_beacon_wf: "wf_beacon sample_beacon"
  by (simp add: wf_beacon_def wf_frame_def sample_beacon_def wf_elem_def elem_ids beacon_size_def beacon_body_def elem_bytes_def le16_of_def)

theorem bss_parse_witness:
  "\<exists>d. InterpretBSSDescriptionWithIE (beacon_bytes sample_beacon @ [1, 2]) zero_bss 0 (beacon_size sample_beacon + 2 + 2) =
      Some (0, d, beacon_size sample_beacon + 2, 2) \<and> SsidLength d = 3 \<and> take 3 (Ssid d) = [115, 113, 117] \<and> bss_Channel d = 6 \<and> rsnIE d ! 0 = 48"
proof -
  have l: "last_elem (bc_elems sample_beacon) ELEM_SSID = Some [115, 113, 117]" "last_elem (bc_elems sample_beacon) DS_PARAM_SET = Some [6]"
    "RSN_IE \<in> fst ` set (bc_elems sample_beacon)" by (simp_all add: sample_beacon_def last_elem_def elem_ids)
  from bss_parse [OF sample_beacon_wf, of "beacon_bytes sample_beacon @ [1, 2]" "[]" "[1, 2]" 2] obtain d where
    "InterpretBSSDescriptionWithIE (beacon_bytes sample_beacon @ [1, 2]) zero_bss 0 (beacon_size sample_beacon + 2 + 2) =
      Some (0, d, beacon_size sample_beacon + 2, 2)" "SsidLength d = of_nat (length [115 :: u8, 113, 117])"
    "take (length [115 :: u8, 113, 117]) (Ssid d) = [115, 113, 117]" "bss_Channel d = ucast (([6] :: u8 list) ! 0)" "rsnIE d ! 0 = RSN_IE"
    unfolding l option.case using l(3) by auto
  then show ?thesis by (intro exI [of _ d]) (simp add: RSN_IE_def numeral_3_eq_3)
qed

text \<open>C34. A network name longer than 32 bytes overruns its array: the length of the element is not compared with the
  size of the array \<open>Ssid\<close>, so any beacon with such an element, in an otherwise well-formed frame, makes the driver
  write behind the array, over up to 223 bytes of the fields of the descriptor that follow the name.\<close>

theorem bss_ssid_overrun:
  assumes "wf_frame bc" and "bc_elems bc = es @ (ELEM_SSID, b) # es'" and "\<forall>e \<in> set es. wf_elem e" and "32 < length b" and "length b \<le> 255"
    and "buf = pre @ beacon_bytes bc @ post"
  shows "InterpretBSSDescriptionWithIE buf zero_bss (length pre) (beacon_size bc + 2 + k) = None"
proof -
  let ?rest = "elem_bytes (ELEM_SSID, b) @ concat (map elem_bytes es')" and ?s = "(0, False, fixed_bss bc (length pre)) :: ie_state"
  let ?s' = "fold elem_apply es ?s" and ?l = "length (concat (map elem_bytes es))"
  obtain p post' where p: "buf = p @ concat (map elem_bytes (bc_elems bc)) @ post'"
    "InterpretBSSDescriptionWithIE buf zero_bss (length pre) (beacon_size bc + 2 + k) =
      do { (ret, d) \<leftarrow> ie_loop buf (length p) (int (length (concat (map elem_bytes (bc_elems bc))))) ?s;
           Some (ret, d, length pre + beacon_size bc + 2, k) }"
    using interpret_frame [OF assms(1,6), of k] by blast
  have b1: "buf = p @ concat (map elem_bytes es) @ ?rest @ post'" using p(1) assms(2) by simp
  have loop: "ie_loop buf (length p) (int (?l + length ?rest)) ?s = ie_loop buf (length p + ?l) (int (length ?rest)) ?s'" "wf_ie ?s'"
    using ie_loop_prefix [OF assms(3) wf_fixed_bss b1, of "length ?rest"] by auto
  obtain rs found d where s': "?s' = (rs, found, d)" by (cases ?s')
  have d: "length (Ssid d) = 32" using loop(2) s' by (simp add: wf_ie_def wf_bss_def)
  have b2: "buf = (p @ concat (map elem_bytes es)) @ elem_bytes (ELEM_SSID, b) @ concat (map elem_bytes es') @ post'" using b1 by simp
  have u: "unat (of_nat (length b) :: u8) = length b" using assms(5) by (simp add: unat_of_nat)
  have ui: "uint (of_nat (length b) :: u8) = int (length b)" using arg_cong [OF u, of int] by simp
  have "ie_switch buf (length p + ?l) ELEM_SSID (of_nat (length b)) ?s' = None"
    using elem_reads(4) [OF b2, of "length b"] assms(4) d u
    by (simp add: s' ie_switch_def mem_copy_def Let_def)
  then have "ie_loop buf (length p + ?l) (int (length ?rest)) ?s' = None"
    using elem_reads(1,2) [OF b2] assms(4) ui by (subst ie_loop.simps) simp
  then show ?thesis using p(2) loop(1) assms(2) by simp
qed

theorem bss_ssid_overrun_witness:
  "InterpretBSSDescriptionWithIE (beacon_bytes (sample_beacon\<lparr>bc_elems := [(0, replicate 40 65)]\<rparr>)) zero_bss 0 63 = None"
proof -
  let ?bc = "sample_beacon\<lparr>bc_elems := [(0, replicate 40 65)]\<rparr>"
  have "beacon_size ?bc = 61" by (simp add: beacon_size_def beacon_body_def le16_of_def sample_beacon_def)
  moreover have "wf_frame ?bc" by (simp add: wf_frame_def beacon_size_def beacon_body_def le16_of_def sample_beacon_def)
  ultimately show ?thesis
    using bss_ssid_overrun [of ?bc "[]" "replicate 40 65" "[]" "beacon_bytes ?bc" "[]" "[]" 0] by (simp add: elem_ids)
qed

end
