(* ===== verification/WlanBeacon.thy ===== *)
theory WlanBeacon
  imports WlanBss
begin

text \<open>
  The storage for raw beacons of the scan table, \<^verbatim>\<open>wlan_ret_802_11_scan_store_beacon\<close> and
  \<^verbatim>\<open>wlan_scan_delete_table_entry\<close> of \<^verbatim>\<open>wlan_scan.c\<close>: one buffer of 6000 bytes, in which each
  entry of the table owns a region with some space to grow. Replacing a beacon moves the regions behind it,
  deleting one closes the gap. A pointer into the buffer is an offset.
\<close>

section \<open>State and operations\<close>

definition MRVDRV_MAX_BSSID_LIST :: nat where "MRVDRV_MAX_BSSID_LIST = 64"
definition MAX_SCAN_BEACON_BUFFER :: nat where "MAX_SCAN_BEACON_BUFFER = 6000"
definition SCAN_BEACON_ENTRY_PAD :: nat where "SCAN_BEACON_ENTRY_PAD = 6"

record scan_dev =
  ScanTable :: "BSSDescriptor list"
  NumInScanTable :: nat
  beaconBuffer :: "u8 list"
  pBeaconBufEnd :: nat

definition mem_move :: "'a list \<Rightarrow> nat \<Rightarrow> nat \<Rightarrow> nat \<Rightarrow> 'a list option" where
  "mem_move d dst src n = do { x \<leftarrow> mem_sub d src n; mem_copy d dst x }"

text \<open>\<open>memmove\<close> of everything from \<open>src\<close> to the end of the used part.\<close>

definition move_tail :: "nat \<Rightarrow> nat \<Rightarrow> scan_dev \<Rightarrow> u8 list option" where
  "move_tail dst src s =
     (if src \<le> pBeaconBufEnd s then mem_move (beaconBuffer s) dst src (pBeaconBufEnd s - src) else None)"

text \<open>Both loops over the table that adjust the pointers behind \<open>p\<close>.\<close>

definition adjust_behind :: "nat \<Rightarrow> (nat \<Rightarrow> nat) \<Rightarrow> BSSDescriptor \<Rightarrow> BSSDescriptor" where
  "adjust_behind p g e = (case pBeaconBuf e of Stored q \<Rightarrow> if q > p then e\<lparr>pBeaconBuf := Stored (g q)\<rparr> else e | _ \<Rightarrow> e)"

definition adjust_table :: "nat \<Rightarrow> nat \<Rightarrow> (nat \<Rightarrow> nat) \<Rightarrow> BSSDescriptor list \<Rightarrow> BSSDescriptor list" where
  "adjust_table n p g tab = map (adjust_behind p g) (take n tab) @ drop n tab"

definition new_bytes :: "u8 list \<Rightarrow> BSSDescriptor \<Rightarrow> u8 list option" where
  "new_bytes resp new = (case pBeaconBuf new of InResp off \<Rightarrow> mem_sub resp off (beaconBufSize new) | _ \<Rightarrow> None)"

text \<open>The branch for an entry that has a region at \<open>p\<close>; the old entry has size and space.\<close>

definition replace_beacon :: "u8 list \<Rightarrow> nat \<Rightarrow> nat \<Rightarrow> nat \<Rightarrow> nat \<Rightarrow> BSSDescriptor \<Rightarrow> scan_dev \<Rightarrow> (BSSDescriptor \<times> scan_dev) option" where
  "replace_beacon resp numInTable p oldBcnSize bcnSpace new s =
     (let newBcnSize = beaconBufSize new; new = new\<lparr>beaconBufSizeMax := bcnSpace\<rparr>
      in if newBcnSize = oldBcnSize then
           do { x \<leftarrow> new_bytes resp new;
                buf \<leftarrow> mem_copy (beaconBuffer s) p x;
                Some (new\<lparr>pBeaconBuf := Stored p\<rparr>, s\<lparr>beaconBuffer := buf\<rparr>) }
         else if newBcnSize \<le> bcnSpace then
           do { x \<leftarrow> new_bytes resp new;
                buf \<leftarrow> mem_copy (beaconBuffer s) p x;
                let s = s\<lparr>beaconBuffer := buf\<rparr>;
                if oldBcnSize < bcnSpace \<and> newBcnSize \<noteq> bcnSpace then
                  do { buf \<leftarrow> move_tail (p + oldBcnSize) (p + bcnSpace) s;
                       Some (new\<lparr>beaconBufSizeMax := oldBcnSize, pBeaconBuf := Stored p\<rparr>,
                             s\<lparr>beaconBuffer := buf, pBeaconBufEnd := pBeaconBufEnd s - (bcnSpace - oldBcnSize),
                               ScanTable := adjust_table numInTable p (\<lambda>q. q - (bcnSpace - oldBcnSize)) (ScanTable s)\<rparr>) }
                else Some (new\<lparr>pBeaconBuf := Stored p\<rparr>, s) }
         else if pBeaconBufEnd s + (newBcnSize - bcnSpace) < MAX_SCAN_BEACON_BUFFER then
           do { buf \<leftarrow> move_tail (p + newBcnSize) (p + bcnSpace) s;
                x \<leftarrow> new_bytes resp new;
                buf \<leftarrow> mem_copy buf p x;
                Some (new\<lparr>beaconBufSizeMax := newBcnSize, pBeaconBuf := Stored p\<rparr>,
                      s\<lparr>beaconBuffer := buf, pBeaconBufEnd := pBeaconBufEnd s + (newBcnSize - bcnSpace),
                        ScanTable := adjust_table numInTable p (\<lambda>q. q + (newBcnSize - bcnSpace)) (ScanTable s)\<rparr>) }
         else Some (new\<lparr>beaconBufSize := oldBcnSize, pBeaconBuf := Stored p\<rparr>, s))"

definition append_beacon :: "u8 list \<Rightarrow> BSSDescriptor \<Rightarrow> scan_dev \<Rightarrow> (BSSDescriptor \<times> scan_dev) option" where
  "append_beacon resp new s =
     (if pBeaconBufEnd s + beaconBufSize new + SCAN_BEACON_ENTRY_PAD < MAX_SCAN_BEACON_BUFFER then
        do { x \<leftarrow> new_bytes resp new;
             buf \<leftarrow> mem_copy (beaconBuffer s) (pBeaconBufEnd s) x;
             let max = beaconBufSize new + SCAN_BEACON_ENTRY_PAD;
             Some (new\<lparr>pBeaconBuf := Stored (pBeaconBufEnd s), beaconBufSizeMax := max\<rparr>,
                   s\<lparr>beaconBuffer := buf, pBeaconBufEnd := pBeaconBufEnd s + max\<rparr>) }
      else Some (new\<lparr>pBeaconBuf := Null, beaconBufSize := 0, beaconBufSizeMax := 0\<rparr>, s))"

definition wlan_ret_802_11_scan_store_beacon ::
  "u8 list \<Rightarrow> nat \<Rightarrow> nat \<Rightarrow> BSSDescriptor \<Rightarrow> scan_dev \<Rightarrow> (BSSDescriptor \<times> scan_dev) option" where
  "wlan_ret_802_11_scan_store_beacon resp beaconIdx numInTable new s =
     do { old \<leftarrow> mem_get (ScanTable s) beaconIdx;
          case pBeaconBuf old of
            Null \<Rightarrow> append_beacon resp new s
          | Stored p \<Rightarrow> replace_beacon resp numInTable p (beaconBufSize old) (beaconBufSizeMax old) new s
          | InResp _ \<Rightarrow> None }"

text \<open>Deletion: the buffer is compacted, the entries behind move up, and their pointers go down by the size of
  the deleted region.\<close>

definition compact_buffer :: "nat \<Rightarrow> BSSDescriptor \<Rightarrow> scan_dev \<Rightarrow> scan_dev option" where
  "compact_buffer adj e s =
     (if adj = 0 then Some s
      else
        (case pBeaconBuf e of
           Stored p \<Rightarrow>
             if adj \<le> pBeaconBufEnd s then
               (let lim = pBeaconBufEnd s - adj
                in if p \<le> lim then
                     do { buf \<leftarrow> mem_move (beaconBuffer s) p (p + adj) (lim - p);
                          Some (s\<lparr>beaconBuffer := buf, pBeaconBufEnd := lim\<rparr>) }
                   else None)
             else None
         | _ \<Rightarrow> None))"

definition lower_ptr :: "nat \<Rightarrow> BSSDescriptor \<Rightarrow> BSSDescriptor option" where
  "lower_ptr adj e =
     (case pBeaconBuf e of Stored q \<Rightarrow> if adj \<le> q then Some (e\<lparr>pBeaconBuf := Stored (q - adj)\<rparr>) else None
      | Null \<Rightarrow> Some e | InResp _ \<Rightarrow> None)"

fun shift_entries :: "nat \<Rightarrow> nat \<Rightarrow> nat \<Rightarrow> BSSDescriptor list \<Rightarrow> BSSDescriptor list option" where
  "shift_entries adj delIdx 0 tab = Some tab"
| "shift_entries adj delIdx (Suc k) tab =
     do { e \<leftarrow> mem_get tab (delIdx + 1);
          e \<leftarrow> lower_ptr adj e;
          tab \<leftarrow> mem_put tab delIdx e;
          shift_entries adj (delIdx + 1) k tab }"

definition wlan_scan_delete_table_entry :: "nat \<Rightarrow> scan_dev \<Rightarrow> scan_dev option" where
  "wlan_scan_delete_table_entry tableIdx s =
     do { e \<leftarrow> mem_get (ScanTable s) tableIdx;
          let adj = beaconBufSizeMax e;
          s \<leftarrow> compact_buffer adj e s;
          tab \<leftarrow> shift_entries adj tableIdx (NumInScanTable s - 1 - tableIdx) (ScanTable s);
          tab \<leftarrow> mem_put tab (NumInScanTable s - 1) zero_bss;
          Some (s\<lparr>ScanTable := tab, NumInScanTable := NumInScanTable s - 1\<rparr>) }"

section \<open>Regions\<close>

text \<open>An entry without storage has no sizes; a stored beacon lies in its region, and that in the used part
  of the buffer.\<close>

definition entry_ok :: "nat \<Rightarrow> BSSDescriptor \<Rightarrow> bool" where
  "entry_ok lim e \<longleftrightarrow> (case pBeaconBuf e of
       Null \<Rightarrow> beaconBufSize e = 0 \<and> beaconBufSizeMax e = 0
     | Stored p \<Rightarrow> 0 < beaconBufSize e \<and> beaconBufSize e \<le> beaconBufSizeMax e \<and> p + beaconBufSizeMax e \<le> lim
     | InResp _ \<Rightarrow> False)"

definition apart :: "BSSDescriptor \<Rightarrow> BSSDescriptor \<Rightarrow> bool" where
  "apart e f \<longleftrightarrow> (\<forall>p q. pBeaconBuf e = Stored p \<longrightarrow> pBeaconBuf f = Stored q \<longrightarrow>
     p + beaconBufSizeMax e \<le> q \<or> q + beaconBufSizeMax f \<le> p)"

definition bcn_ok :: "nat \<Rightarrow> scan_dev \<Rightarrow> bool" where
  "bcn_ok n s \<longleftrightarrow> length (ScanTable s) = MRVDRV_MAX_BSSID_LIST \<and> n \<le> MRVDRV_MAX_BSSID_LIST \<and>
     length (beaconBuffer s) = MAX_SCAN_BEACON_BUFFER \<and> pBeaconBufEnd s \<le> MAX_SCAN_BEACON_BUFFER \<and>
     (\<forall>i < n. entry_ok (pBeaconBufEnd s) (ScanTable s ! i)) \<and>
     (\<forall>i < n. \<forall>j < n. i \<noteq> j \<longrightarrow> apart (ScanTable s ! i) (ScanTable s ! j))"

text \<open>The beacon stored for an entry.\<close>

definition stored :: "scan_dev \<Rightarrow> BSSDescriptor \<Rightarrow> u8 list option" where
  "stored s e = (case pBeaconBuf e of Stored p \<Rightarrow> mem_sub (beaconBuffer s) p (beaconBufSize e) | _ \<Rightarrow> None)"

definition set_entry :: "nat \<Rightarrow> BSSDescriptor \<Rightarrow> scan_dev \<Rightarrow> scan_dev" where
  "set_entry i e s = s\<lparr>ScanTable := (ScanTable s)[i := e]\<rparr>"

lemma stored_cong: "beaconBuffer t = beaconBuffer s \<Longrightarrow> stored t x = stored s x"
  by (simp only: stored_def)

lemma stored_set_entry: "stored (set_entry i e s) x = stored s x"
  by (rule stored_cong) (simp add: set_entry_def)

lemma regions_apart_sym: "apart e f \<Longrightarrow> apart f e"
  by (auto simp: apart_def)

lemma mem_move_length: "mem_move d a b n = Some d' \<Longrightarrow> length d' = length d"
  by (auto simp: mem_move_def bind_eq_Some_conv dest: mem_copy_length)

lemma mem_move_defined: "a + n \<le> length d \<Longrightarrow> b + n \<le> length d \<Longrightarrow> \<exists>d'. mem_move d a b n = Some d'"
  by (simp add: mem_move_def mem_sub_def mem_copy_def)

lemma mem_move_outside: "mem_move d a b n = Some d' \<Longrightarrow> q + m \<le> a \<or> a + n \<le> q \<Longrightarrow> mem_sub d' q m = mem_sub d q m"
  by (auto simp: mem_move_def bind_eq_Some_conv dest!: mem_sub_length intro: mem_sub_copy_disjoint)

lemma mem_sub_sub: "mem_sub d i n = Some x \<Longrightarrow> j + m \<le> n \<Longrightarrow> mem_sub x j m = mem_sub d (i + j) m"
  by (auto simp: mem_sub_def take_drop min_def ac_simps split: if_splits)

lemma mem_move_inside:
  assumes "mem_move d a b n = Some d'" and "j + m \<le> n"
  shows "mem_sub d' (a + j) m = mem_sub d (b + j) m"
proof -
  obtain x where x: "mem_sub d b n = Some x" "mem_copy d a x = Some d'" using assms(1) by (auto simp: mem_move_def bind_eq_Some_conv)
  have "length x = n" using x(1) by (rule mem_sub_length)
  then have "mem_sub d' a n = Some x" using mem_sub_copy_same [OF x(2)] by simp
  then have "mem_sub d' (a + j) m = mem_sub x j m" using assms(2) mem_sub_sub by metis
  then show ?thesis using mem_sub_sub [OF x(1) assms(2)] by simp
qed

text \<open>How a state \<open>t\<close> comes from \<open>s\<close> by giving the region at \<open>p\<close> of entry \<open>idx\<close> the space \<open>m\<close> in place of
  \<open>space\<close> and moving what is behind.\<close>

definition resized :: "nat \<Rightarrow> nat \<Rightarrow> nat \<Rightarrow> nat \<Rightarrow> nat \<Rightarrow> scan_dev \<Rightarrow> scan_dev \<Rightarrow> bool" where
  "resized n idx p space m s t \<longleftrightarrow>
     length (ScanTable t) = length (ScanTable s) \<and> length (beaconBuffer t) = length (beaconBuffer s) \<and>
     pBeaconBufEnd t = pBeaconBufEnd s - space + m \<and> pBeaconBufEnd t \<le> MAX_SCAN_BEACON_BUFFER \<and>
     (\<forall>j < n. j \<noteq> idx \<longrightarrow> ScanTable t ! j = adjust_behind p (\<lambda>q. q - space + m) (ScanTable s ! j)) \<and>
     (\<forall>q k. q + k \<le> p \<longrightarrow> mem_sub (beaconBuffer t) q k = mem_sub (beaconBuffer s) q k) \<and>
     (\<forall>q k. p + space \<le> q \<and> q + k \<le> pBeaconBufEnd s \<longrightarrow>
        mem_sub (beaconBuffer t) (q - space + m) k = mem_sub (beaconBuffer s) q k)"

lemma adjust_behind_sizes [simp]:
  "beaconBufSize (adjust_behind p g e) = beaconBufSize e" "beaconBufSizeMax (adjust_behind p g e) = beaconBufSizeMax e"
  by (simp_all add: adjust_behind_def split: bcn_ptr.split)

lemma adjusted_ok:
  assumes "entry_ok lim old" "pBeaconBuf old = Stored p" "beaconBufSizeMax old = space" "entry_ok lim e" "apart old e"
    and "f = adjust_behind p (\<lambda>q. q - space + m) e"
  shows "entry_ok (lim - space + m) f \<and> (\<forall>q. pBeaconBuf f = Stored q \<longrightarrow> q + beaconBufSizeMax f \<le> p \<or> p + m \<le> q)"
proof (cases "pBeaconBuf e")
  case (Stored q)
  with assms have "p + space \<le> q \<or> q + beaconBufSizeMax e \<le> p" "0 < beaconBufSizeMax e" "0 < space" "p + space \<le> lim"
    by (auto simp: apart_def entry_ok_def)
  with Stored assms(4) show ?thesis
    by (auto simp: assms(6) adjust_behind_def entry_ok_def)
qed (use assms(4) in \<open>simp_all add: assms(6) adjust_behind_def entry_ok_def\<close>)

lemma adjusted_apart:
  assumes "entry_ok lim old" "pBeaconBuf old = Stored p" "beaconBufSizeMax old = space"
    and "entry_ok lim e" "apart old e" "entry_ok lim f" "apart old f" "apart e f"
  shows "apart (adjust_behind p (\<lambda>q. q - space + m) e) (adjust_behind p (\<lambda>q. q - space + m) f)"
proof (cases "pBeaconBuf e"; cases "pBeaconBuf f")
  fix a b assume st: "pBeaconBuf e = Stored a" "pBeaconBuf f = Stored b"
  have "p + space \<le> a \<or> a + beaconBufSizeMax e \<le> p" "p + space \<le> b \<or> b + beaconBufSizeMax f \<le> p"
    "0 < beaconBufSizeMax e" "0 < beaconBufSizeMax f" "0 < space" "a + beaconBufSizeMax e \<le> b \<or> b + beaconBufSizeMax f \<le> a"
    using assms st by (auto simp: apart_def entry_ok_def)
  then show ?thesis using st by (auto simp: apart_def adjust_behind_def)
qed (auto simp: apart_def adjust_behind_def)

lemma adjusted_stored:
  assumes "entry_ok (pBeaconBufEnd s) old" "pBeaconBuf old = Stored p" "beaconBufSizeMax old = space"
    and "entry_ok (pBeaconBufEnd s) e" "apart old e" "resized n idx p space m s t"
  shows "stored t (adjust_behind p (\<lambda>q. q - space + m) e) = stored s e"
proof (cases "pBeaconBuf e")
  case (Stored q)
  with assms have "p + space \<le> q \<or> q + beaconBufSizeMax e \<le> p" "0 < beaconBufSizeMax e" "0 < space" "beaconBufSize e \<le> beaconBufSizeMax e"
    "q + beaconBufSizeMax e \<le> pBeaconBufEnd s" by (auto simp: apart_def entry_ok_def)
  with Stored assms(6) show ?thesis
    by (cases "q > p") (auto simp: stored_def adjust_behind_def resized_def)
qed (simp_all add: stored_def adjust_behind_def)

text \<open>Resizing keeps the invariant and every other beacon.\<close>

lemma resized_ok:
  assumes "bcn_ok n s" "idx < n" "ScanTable s ! idx = old" "pBeaconBuf old = Stored p" "beaconBufSizeMax old = space"
    and "resized n idx p space m s t" and "pBeaconBuf new = Stored p" "beaconBufSizeMax new = m" "0 < beaconBufSize new" "beaconBufSize new \<le> m"
  shows "bcn_ok n (set_entry idx new t) \<and>
    (\<forall>j < n. j \<noteq> idx \<longrightarrow> stored (set_entry idx new t) (ScanTable (set_entry idx new t) ! j) = stored s (ScanTable s ! j))"
proof -
  let ?g = "adjust_behind p (\<lambda>q. q - space + m)" and ?T = "ScanTable (set_entry idx new t)"
  have ok: "entry_ok (pBeaconBufEnd s) old" "\<And>j. j < n \<Longrightarrow> entry_ok (pBeaconBufEnd s) (ScanTable s ! j)"
    "\<And>j. j < n \<Longrightarrow> j \<noteq> idx \<Longrightarrow> apart old (ScanTable s ! j)"
    "\<And>i j. i < n \<Longrightarrow> j < n \<Longrightarrow> i \<noteq> j \<Longrightarrow> apart (ScanTable s ! i) (ScanTable s ! j)"
    and len: "n \<le> 64" "length (ScanTable s) = 64" "length (beaconBuffer s) = MAX_SCAN_BEACON_BUFFER"
    using assms(1-3) by (auto simp: bcn_ok_def MRVDRV_MAX_BSSID_LIST_def)
  have T: "?T ! j = (if j = idx then new else ?g (ScanTable s ! j))" if "j < n" for j
    using that assms(2,6) len by (auto simp: set_entry_def resized_def)
  have le: "p + space \<le> pBeaconBufEnd s" using ok(1) assms(4,5) by (simp add: entry_ok_def)
  have other: "entry_ok (pBeaconBufEnd t) (?g (ScanTable s ! j)) \<and> apart new (?g (ScanTable s ! j))" if "j < n" "j \<noteq> idx" for j
    using adjusted_ok [OF ok(1) assms(4,5) ok(2) [OF that(1)] ok(3) [OF that] refl, of m] assms(6,7,8)
    by (auto simp: resized_def apart_def)
  have new: "entry_ok (pBeaconBufEnd t) new" using assms(6-10) le by (simp add: entry_ok_def resized_def)
  have "apart (?T ! i) (?T ! j)" if "i < n" "j < n" "i \<noteq> j" for i j
    using that other [of i] other [of j] adjusted_apart [OF ok(1) assms(4,5) ok(2) ok(3) ok(2) ok(3) ok(4), of i j m] regions_apart_sym
    by (auto simp: T)
  moreover have "entry_ok (pBeaconBufEnd t) (?T ! i)" if "i < n" for i
    using that other [of i] new by (auto simp: T)
  moreover have "length ?T = 64" "length (beaconBuffer t) = MAX_SCAN_BEACON_BUFFER" "pBeaconBufEnd t \<le> MAX_SCAN_BEACON_BUFFER"
    using assms(6) len by (simp_all add: set_entry_def resized_def)
  ultimately have "bcn_ok n (set_entry idx new t)" using len by (simp add: bcn_ok_def MRVDRV_MAX_BSSID_LIST_def set_entry_def)
  moreover have "stored (set_entry idx new t) (?T ! j) = stored s (ScanTable s ! j)" if "j < n" "j \<noteq> idx" for j
    using adjusted_stored [OF ok(1) assms(4,5) ok(2) [OF that(1)] ok(3) [OF that] assms(6)] that
    by (simp only: stored_set_entry T if_False)
  ultimately show ?thesis by blast
qed

section \<open>Replacing a beacon\<close>

lemma adjust_cong:
  assumes "entry_ok lim old" "pBeaconBuf old = Stored p" "beaconBufSizeMax old = space" "entry_ok lim e" "apart old e"
    and "\<And>q. p + space \<le> q \<Longrightarrow> q \<le> lim \<Longrightarrow> g q = h q"
  shows "adjust_behind p g e = adjust_behind p h e"
proof (cases "pBeaconBuf e")
  case (Stored q)
  with assms(1-5) have "p + space \<le> q \<or> q + beaconBufSizeMax e \<le> p" "0 < beaconBufSizeMax e" "q + beaconBufSizeMax e \<le> lim"
    by (auto simp: apart_def entry_ok_def)
  then have "q > p \<Longrightarrow> g q = h q" by (intro assms(6)) auto
  then show ?thesis by (simp add: adjust_behind_def Stored)
qed (simp_all add: adjust_behind_def)

lemma adjust_same: "adjust_behind p (\<lambda>q. q) e = e"
proof (cases "pBeaconBuf e")
  case (Stored q)
  have "e\<lparr>pBeaconBuf := pBeaconBuf e\<rparr> = e" by simp
  then show ?thesis by (simp add: adjust_behind_def Stored)
qed (simp_all add: adjust_behind_def)

lemma adjust_table_nth: "j < n \<Longrightarrow> n \<le> length tab \<Longrightarrow> adjust_table n p g tab ! j = adjust_behind p g (tab ! j)"
  by (simp add: adjust_table_def nth_append)

lemma length_adjust_table [simp]: "n \<le> length tab \<Longrightarrow> length (adjust_table n p g tab) = length tab"
  by (simp add: adjust_table_def)

text \<open>The entry \<open>idx\<close> with its region, in a state that satisfies the invariant.\<close>

definition at_entry :: "nat \<Rightarrow> scan_dev \<Rightarrow> nat \<Rightarrow> nat \<Rightarrow> nat \<Rightarrow> nat \<Rightarrow> bool" where
  "at_entry n s idx p sz space \<longleftrightarrow> bcn_ok n s \<and> idx < n \<and> pBeaconBuf (ScanTable s ! idx) = Stored p \<and>
     beaconBufSize (ScanTable s ! idx) = sz \<and> beaconBufSizeMax (ScanTable s ! idx) = space"

lemma at_entryD:
  assumes "at_entry n s idx p sz space"
  shows "0 < sz" "sz \<le> space" "p + space \<le> pBeaconBufEnd s" "pBeaconBufEnd s \<le> 6000" "length (beaconBuffer s) = 6000"
    "n \<le> length (ScanTable s)" "entry_ok (pBeaconBufEnd s) (ScanTable s ! idx)"
    "\<And>j. j < n \<Longrightarrow> j \<noteq> idx \<Longrightarrow> entry_ok (pBeaconBufEnd s) (ScanTable s ! j) \<and> apart (ScanTable s ! idx) (ScanTable s ! j)"
proof -
  have e: "entry_ok (pBeaconBufEnd s) (ScanTable s ! idx)" using assms by (auto simp: at_entry_def bcn_ok_def)
  then show "entry_ok (pBeaconBufEnd s) (ScanTable s ! idx)" .
  show "0 < sz" "sz \<le> space" "p + space \<le> pBeaconBufEnd s" using e assms by (auto simp: at_entry_def entry_ok_def)
  show "pBeaconBufEnd s \<le> 6000" "length (beaconBuffer s) = 6000" "n \<le> length (ScanTable s)"
    using assms by (auto simp: at_entry_def bcn_ok_def MAX_SCAN_BEACON_BUFFER_def)
  show "entry_ok (pBeaconBufEnd s) (ScanTable s ! j) \<and> apart (ScanTable s ! idx) (ScanTable s ! j)" if "j < n" "j \<noteq> idx" for j
    using that assms by (auto simp: at_entry_def bcn_ok_def)
qed

lemma table_adjusted:
  assumes "at_entry n s idx p sz space" "j < n" "j \<noteq> idx" and "\<And>q. p + space \<le> q \<Longrightarrow> g q = h q"
  shows "adjust_behind p g (ScanTable s ! j) = adjust_behind p h (ScanTable s ! j)"
  using at_entryD(7,8) [OF assms(1)] assms by (intro adjust_cong [of "pBeaconBufEnd s" "ScanTable s ! idx" p space]) (auto simp: at_entry_def)

text \<open>Overwriting within the region.\<close>

lemma overwrite_resized:
  assumes "at_entry n s idx p sz space" and "mem_copy (beaconBuffer s) p x = Some buf" and "length x \<le> space"
  shows "resized n idx p space space s (s\<lparr>beaconBuffer := buf\<rparr>)"
proof -
  note d = at_entryD [OF assms(1)]
  have "ScanTable s ! j = adjust_behind p (\<lambda>q. q - space + space) (ScanTable s ! j)" if "j < n" "j \<noteq> idx" for j
    using table_adjusted [OF assms(1) that, of "\<lambda>q. q" "\<lambda>q. q - space + space"] by (simp add: adjust_same)
  moreover have "mem_sub buf q k = mem_sub (beaconBuffer s) q k" if "q + k \<le> p \<or> p + space \<le> q" for q k
    using that assms(3) by (intro mem_sub_copy_disjoint [OF assms(2)]) auto
  ultimately show ?thesis
    using d mem_copy_length [OF assms(2)] by (auto simp: resized_def MAX_SCAN_BEACON_BUFFER_def)
qed

lemma keep_resized:
  assumes "at_entry n s idx p sz space"
  shows "resized n idx p space space s s"
proof -
  note d = at_entryD [OF assms]
  have "ScanTable s ! j = adjust_behind p (\<lambda>q. q - space + space) (ScanTable s ! j)" if "j < n" "j \<noteq> idx" for j
    using table_adjusted [OF assms that, of "\<lambda>q. q" "\<lambda>q. q - space + space"] by (simp add: adjust_same)
  then show ?thesis using d by (auto simp: resized_def MAX_SCAN_BEACON_BUFFER_def)
qed

text \<open>Moving the tail before or after the copy.\<close>

lemma move_resized:
  assumes "at_entry n s idx p sz space" and "pBeaconBufEnd s - space + m \<le> 6000" and "length (beaconBuffer t) = 6000"
    and "ScanTable t = adjust_table n p g (ScanTable s)" and "\<And>q. p + space \<le> q \<Longrightarrow> g q = q - space + m"
    and "pBeaconBufEnd t = pBeaconBufEnd s - space + m"
    and "\<And>q k. q + k \<le> p \<Longrightarrow> mem_sub (beaconBuffer t) q k = mem_sub (beaconBuffer s) q k"
    and "\<And>j k. p + space + j + k \<le> pBeaconBufEnd s \<Longrightarrow> mem_sub (beaconBuffer t) (p + m + j) k = mem_sub (beaconBuffer s) (p + space + j) k"
  shows "resized n idx p space m s t"
proof -
  note d = at_entryD [OF assms(1)]
  have "ScanTable t ! j = adjust_behind p (\<lambda>q. q - space + m) (ScanTable s ! j)" if "j < n" "j \<noteq> idx" for j
    using table_adjusted [OF assms(1) that, of g "\<lambda>q. q - space + m"] that d(6) assms(4,5) by (simp add: adjust_table_nth)
  moreover have "mem_sub (beaconBuffer t) (q - space + m) k = mem_sub (beaconBuffer s) q k"
    if "p + space \<le> q" "q + k \<le> pBeaconBufEnd s" for q k
  proof -
    obtain j where "q = p + space + j" using \<open>p + space \<le> q\<close> le_Suc_ex by blast
    then show ?thesis using assms(8) [of j k] that by (simp add: ac_simps)
  qed
  ultimately show ?thesis using assms d by (auto simp: resized_def MAX_SCAN_BEACON_BUFFER_def)
qed

text \<open>What a store does: the invariant holds again with the new entry, which owns the new
  beacon when there was room, and every other entry keeps its own.\<close>

definition store_result :: "nat \<Rightarrow> nat \<Rightarrow> scan_dev \<Rightarrow> BSSDescriptor \<Rightarrow> u8 list option \<Rightarrow> BSSDescriptor \<Rightarrow> scan_dev \<Rightarrow> bool" where
  "store_result n idx s new x new' t \<longleftrightarrow>
     new' = new\<lparr>pBeaconBuf := pBeaconBuf new', beaconBufSize := beaconBufSize new', beaconBufSizeMax := beaconBufSizeMax new'\<rparr> \<and>
     NumInScanTable t = NumInScanTable s \<and> bcn_ok n (set_entry idx new' t) \<and>
     stored (set_entry idx new' t) new' = x \<and>
     (\<forall>j < n. j \<noteq> idx \<longrightarrow> stored (set_entry idx new' t) (ScanTable (set_entry idx new' t) ! j) = stored s (ScanTable s ! j))"

lemma store_resultI:
  assumes "at_entry n s idx p sz space" "resized n idx p space m s t" "0 < k" "k \<le> m" "mem_sub (beaconBuffer t) p k = Some x"
    and "NumInScanTable t = NumInScanTable s"
    and "new' = new\<lparr>pBeaconBuf := Stored p, beaconBufSize := k, beaconBufSizeMax := m\<rparr>"
  shows "store_result n idx s new (Some x) new' t"
proof -
  have "stored (set_entry idx new' t) new' = Some x" using assms(5,7) by (simp add: stored_set_entry) (simp add: stored_def)
  moreover have "bcn_ok n (set_entry idx new' t) \<and>
    (\<forall>j < n. j \<noteq> idx \<longrightarrow> stored (set_entry idx new' t) (ScanTable (set_entry idx new' t) ! j) = stored s (ScanTable s ! j))"
    using assms by (intro resized_ok [of n s idx "ScanTable s ! idx" p space m]) (auto simp: at_entry_def)
  ultimately show ?thesis using assms(6,7) by (simp add: store_result_def)
qed

lemma replace_beacon_ok:
  assumes "at_entry n s idx p sz space" and "new_bytes resp new = Some x" and "length x = beaconBufSize new" and "0 < beaconBufSize new"
    and "\<not> (sz < beaconBufSize new \<and> beaconBufSize new < space)"
    and "fits = (beaconBufSize new \<le> space \<or> pBeaconBufEnd s + (beaconBufSize new - space) < 6000)"
  shows "\<exists>new' t. replace_beacon resp n p sz space new s = Some (new', t) \<and>
    store_result n idx s new (if fits then Some x else stored s (ScanTable s ! idx)) new' t"
proof -
  note d = at_entryD [OF assms(1)]
  let ?k = "beaconBufSize new"
  have nb: "new_bytes resp (new\<lparr>beaconBufSizeMax := a\<rparr>) = Some x" for a using assms(2) by (simp add: new_bytes_def split: bcn_ptr.splits)
  consider (over) "?k \<le> space" "?k = sz \<or> sz = space \<or> ?k = space" | (shrink) "?k < sz" "sz < space"
    | (grow) "space < ?k" "pBeaconBufEnd s + (?k - space) < 6000" | (full) "space < ?k" "\<not> pBeaconBufEnd s + (?k - space) < 6000"
    using assms(5) d(2) by linarith
  then show ?thesis
  proof cases
    case over
    obtain buf where buf: "mem_copy (beaconBuffer s) p x = Some buf" using d over assms(3) by (simp add: mem_copy_def)
    let ?new = "new\<lparr>beaconBufSizeMax := space, pBeaconBuf := Stored p\<rparr>" and ?t = "s\<lparr>beaconBuffer := buf\<rparr>"
    have "replace_beacon resp n p sz space new s = Some (?new, ?t)"
      using over nb buf d(2) by (auto simp: replace_beacon_def Let_def)
    moreover have "store_result n idx s new (Some x) ?new ?t"
      using over assms(3,4) mem_sub_copy_same [OF buf] overwrite_resized [OF assms(1) buf]
      by (intro store_resultI [OF assms(1), where m = space and k = ?k]) simp_all
    ultimately show ?thesis using over assms(6) by auto
  next
    case shrink
    obtain b1 where b1: "mem_copy (beaconBuffer s) p x = Some b1" using d shrink assms(3) by (simp add: mem_copy_def)
    have l1: "length b1 = 6000" using mem_copy_length [OF b1] d(5) by simp
    let ?n = "pBeaconBufEnd s - (p + space)"
    have "p + sz + ?n \<le> length b1" "p + space + ?n \<le> length b1" using d(3,4) shrink l1 by linarith+
    then obtain b2 where b2: "mem_move b1 (p + sz) (p + space) ?n = Some b2" using mem_move_defined by blast
    let ?new = "new\<lparr>beaconBufSizeMax := sz, pBeaconBuf := Stored p\<rparr>"
    let ?t = "s\<lparr>beaconBuffer := b2, pBeaconBufEnd := pBeaconBufEnd s - (space - sz),
      ScanTable := adjust_table n p (\<lambda>q. q - (space - sz)) (ScanTable s)\<rparr>"
    have "replace_beacon resp n p sz space new s = Some (?new, ?t)"
      using shrink nb b1 b2 d(2,3) by (simp add: replace_beacon_def Let_def move_tail_def)
    moreover have "resized n idx p space sz s ?t"
    proof (rule move_resized [OF assms(1)])
      fix q j assume "q + j \<le> p"
      then show "mem_sub (beaconBuffer ?t) q j = mem_sub (beaconBuffer s) q j"
        using mem_move_outside [OF b2, of q j] mem_sub_copy_disjoint [OF b1, of q j] by simp
    next
      fix j k assume jk: "p + space + j + k \<le> pBeaconBufEnd s"
      have "mem_sub b2 (p + sz + j) k = mem_sub b1 (p + space + j) k" using jk by (intro mem_move_inside [OF b2]) simp
      also have "\<dots> = mem_sub (beaconBuffer s) (p + space + j) k"
        using shrink assms(3) by (intro mem_sub_copy_disjoint [OF b1]) auto
      finally show "mem_sub (beaconBuffer ?t) (p + sz + j) k = mem_sub (beaconBuffer s) (p + space + j) k" by simp
    qed (use d shrink mem_move_length [OF b2] l1 in auto)
    moreover have "mem_sub b2 p ?k = Some x"
      using mem_move_outside [OF b2, of p ?k] mem_sub_copy_same [OF b1] shrink assms(3) by simp
    ultimately show ?thesis
      using store_resultI [OF assms(1), of sz ?t ?k x ?new new] shrink assms(4,6) by auto
  next
    case grow
    let ?n = "pBeaconBufEnd s - (p + space)"
    have "p + ?k + ?n \<le> length (beaconBuffer s)" "p + space + ?n \<le> length (beaconBuffer s)" using d(3-5) grow by linarith+
    then obtain b1 where b1: "mem_move (beaconBuffer s) (p + ?k) (p + space) ?n = Some b1" using mem_move_defined by blast
    have l1: "length b1 = 6000" using mem_move_length [OF b1] d(5) by simp
    have "p + length x \<le> length b1" using d(3) grow assms(3) l1 by linarith
    then obtain b2 where b2: "mem_copy b1 p x = Some b2" by (simp add: mem_copy_def)
    let ?new = "new\<lparr>beaconBufSizeMax := ?k, pBeaconBuf := Stored p\<rparr>"
    let ?t = "s\<lparr>beaconBuffer := b2, pBeaconBufEnd := pBeaconBufEnd s + (?k - space),
      ScanTable := adjust_table n p (\<lambda>q. q + (?k - space)) (ScanTable s)\<rparr>"
    have "replace_beacon resp n p sz space new s = Some (?new, ?t)"
      using grow nb b1 b2 d(2,3) by (simp add: replace_beacon_def Let_def move_tail_def MAX_SCAN_BEACON_BUFFER_def)
    moreover have "resized n idx p space ?k s ?t"
    proof (rule move_resized [OF assms(1)])
      fix q j assume "q + j \<le> p"
      then show "mem_sub (beaconBuffer ?t) q j = mem_sub (beaconBuffer s) q j"
        using mem_move_outside [OF b1, of q j] mem_sub_copy_disjoint [OF b2, of q j] by simp
    next
      fix j k assume jk: "p + space + j + k \<le> pBeaconBufEnd s"
      have "mem_sub b2 (p + ?k + j) k = mem_sub b1 (p + ?k + j) k" using assms(3) by (intro mem_sub_copy_disjoint [OF b2]) auto
      also have "\<dots> = mem_sub (beaconBuffer s) (p + space + j) k" using jk by (intro mem_move_inside [OF b1]) simp
      finally show "mem_sub (beaconBuffer ?t) (p + ?k + j) k = mem_sub (beaconBuffer s) (p + space + j) k" by simp
    qed (use d grow mem_copy_length [OF b2] l1 in auto)
    ultimately show ?thesis
      using store_resultI [OF assms(1), of ?k ?t ?k x ?new new] mem_sub_copy_same [OF b2] grow assms(3,4,6) by auto
  next
    case full
    let ?new = "new\<lparr>beaconBufSizeMax := space, beaconBufSize := sz, pBeaconBuf := Stored p\<rparr>"
    have r: "replace_beacon resp n p sz space new s = Some (?new, s)"
      using full d(2) by (auto simp: replace_beacon_def Let_def MAX_SCAN_BEACON_BUFFER_def)
    have "p + sz \<le> 6000" using d by linarith
    then obtain y where y: "mem_sub (beaconBuffer s) p sz = Some y" using d(5) by (simp add: mem_sub_def)
    then have "stored s (ScanTable s ! idx) = Some y" using assms(1) by (simp add: stored_def at_entry_def)
    then show ?thesis
      using r y store_resultI [OF assms(1) keep_resized [OF assms(1)] d(1,2), of y ?new new] full assms(6) by auto
  qed
qed

section \<open>Storing a beacon\<close>

lemma append_beacon_ok:
  assumes "bcn_ok n s" "idx < n" "pBeaconBuf (ScanTable s ! idx) = Null"
    and "new_bytes resp new = Some x" and "length x = beaconBufSize new" and "0 < beaconBufSize new"
    and "fits = (pBeaconBufEnd s + beaconBufSize new + 6 < 6000)"
  shows "\<exists>new' t. append_beacon resp new s = Some (new', t) \<and> store_result n idx s new (if fits then Some x else None) new' t"
proof -
  let ?k = "beaconBufSize new" and ?e = "pBeaconBufEnd s"
  have ok: "\<And>j. j < n \<Longrightarrow> entry_ok ?e (ScanTable s ! j)" "\<And>i j. i < n \<Longrightarrow> j < n \<Longrightarrow> i \<noteq> j \<Longrightarrow> apart (ScanTable s ! i) (ScanTable s ! j)"
    and len: "n \<le> 64" "length (ScanTable s) = 64" "length (beaconBuffer s) = 6000" "?e \<le> 6000"
    using assms(1) by (auto simp: bcn_ok_def MRVDRV_MAX_BSSID_LIST_def MAX_SCAN_BEACON_BUFFER_def)
  show ?thesis
  proof (cases fits)
    case True
    then obtain buf where buf: "mem_copy (beaconBuffer s) ?e x = Some buf" using assms(5,7) len by (simp add: mem_copy_def)
    let ?new = "new\<lparr>pBeaconBuf := Stored ?e, beaconBufSizeMax := ?k + 6\<rparr>" and ?t = "s\<lparr>beaconBuffer := buf, pBeaconBufEnd := ?e + (?k + 6)\<rparr>"
    let ?u = "set_entry idx ?new ?t"
    have r: "append_beacon resp new s = Some (?new, ?t)"
      using True assms(4,7) buf by (simp add: append_beacon_def SCAN_BEACON_ENTRY_PAD_def MAX_SCAN_BEACON_BUFFER_def Let_def)
    have T: "ScanTable ?u ! j = (if j = idx then ?new else ScanTable s ! j)" if "j < n" for j
      using that assms(2) len by (auto simp: set_entry_def)
    have grow: "entry_ok (?e + (?k + 6)) f" "apart ?new f" "apart f ?new" if "entry_ok ?e f" for f
      using that by (auto simp: entry_ok_def apart_def split: bcn_ptr.splits)
    have "bcn_ok n ?u"
      unfolding bcn_ok_def
    proof (intro conjI allI impI)
      fix i assume "i < n"
      then show "entry_ok (pBeaconBufEnd ?u) (ScanTable ?u ! i)"
        using grow(1) ok(1) assms(6) by (simp add: T) (simp add: set_entry_def entry_ok_def)
    next
      fix i j assume "i < n" "j < n" "i \<noteq> j"
      then show "apart (ScanTable ?u ! i) (ScanTable ?u ! j)" using grow(2,3) ok by (auto simp: T)
    qed (use len True assms(7) mem_copy_length [OF buf] in
        \<open>auto simp: set_entry_def MRVDRV_MAX_BSSID_LIST_def MAX_SCAN_BEACON_BUFFER_def\<close>)
    moreover have "stored ?t (ScanTable s ! j) = stored s (ScanTable s ! j)" if "j < n" for j
      using ok(1) [OF that] mem_sub_copy_disjoint [OF buf]
      by (cases "pBeaconBuf (ScanTable s ! j)") (auto simp: stored_def entry_ok_def)
    moreover have "stored ?t ?new = Some x" using mem_sub_copy_same [OF buf] assms(5) by (simp add: stored_def)
    ultimately have "store_result n idx s new (Some x) ?new ?t" by (simp add: store_result_def stored_set_entry T)
    then show ?thesis using r True by auto
  next
    case False
    let ?new = "new\<lparr>pBeaconBuf := Null, beaconBufSize := 0, beaconBufSizeMax := 0\<rparr>" and ?u = "set_entry idx (new\<lparr>pBeaconBuf := Null, beaconBufSize := 0, beaconBufSizeMax := 0\<rparr>) s"
    have r: "append_beacon resp new s = Some (?new, s)"
      using False assms(7) by (simp add: append_beacon_def SCAN_BEACON_ENTRY_PAD_def MAX_SCAN_BEACON_BUFFER_def)
    have T: "ScanTable ?u ! j = (if j = idx then ?new else ScanTable s ! j)" if "j < n" for j
      using that assms(2) len by (auto simp: set_entry_def)
    have null: "entry_ok ?e ?new" "apart ?new f" "apart f ?new" for f by (auto simp: entry_ok_def apart_def)
    have "bcn_ok n ?u"
      unfolding bcn_ok_def
    proof (intro conjI allI impI)
      fix i assume "i < n"
      then show "entry_ok (pBeaconBufEnd ?u) (ScanTable ?u ! i)" using null(1) ok(1) by (simp add: T) (simp add: set_entry_def)
    next
      fix i j assume "i < n" "j < n" "i \<noteq> j"
      then show "apart (ScanTable ?u ! i) (ScanTable ?u ! j)" using null(2,3) ok by (auto simp: T)
    qed (use len in \<open>auto simp: set_entry_def MRVDRV_MAX_BSSID_LIST_def MAX_SCAN_BEACON_BUFFER_def\<close>)
    moreover have "stored s ?new = None" by (simp add: stored_def)
    ultimately have "store_result n idx s new None ?new s" by (simp add: store_result_def stored_set_entry T)
    then show ?thesis using r False by auto
  qed
qed

section \<open>Deleting an entry\<close>

definition lowered :: "nat \<Rightarrow> BSSDescriptor \<Rightarrow> BSSDescriptor" where
  "lowered adj e = (case pBeaconBuf e of Stored q \<Rightarrow> e\<lparr>pBeaconBuf := Stored (q - adj)\<rparr> | _ \<Rightarrow> e)"

lemma lowered_sizes [simp]: "beaconBufSize (lowered adj e) = beaconBufSize e" "beaconBufSizeMax (lowered adj e) = beaconBufSizeMax e"
  by (simp_all add: lowered_def split: bcn_ptr.split)

lemma shift_entries_eq:
  assumes "idx + k < length tab" and "\<And>j. idx < j \<Longrightarrow> j \<le> idx + k \<Longrightarrow> lower_ptr adj (tab ! j) = Some (lowered adj (tab ! j))"
  shows "\<exists>tab'. shift_entries adj idx k tab = Some tab' \<and> length tab' = length tab \<and>
    (\<forall>j < length tab. tab' ! j = (if idx \<le> j \<and> j < idx + k then lowered adj (tab ! (j + 1)) else tab ! j))"
  using assms
proof (induction k arbitrary: idx tab)
  case (Suc k)
  let ?tab = "tab[idx := lowered adj (tab ! (idx + 1))]"
  have "\<exists>tab'. shift_entries adj (idx + 1) k ?tab = Some tab' \<and> length tab' = length ?tab \<and>
    (\<forall>j < length ?tab. tab' ! j = (if idx + 1 \<le> j \<and> j < idx + 1 + k then lowered adj (?tab ! (j + 1)) else ?tab ! j))"
    using Suc.prems by (intro Suc.IH) auto
  then obtain tab' where t: "shift_entries adj (idx + 1) k ?tab = Some tab'" "length tab' = length tab"
    "\<And>j. j < length tab \<Longrightarrow> tab' ! j = (if idx + 1 \<le> j \<and> j < idx + 1 + k then lowered adj (?tab ! (j + 1)) else ?tab ! j)" by auto
  have "lower_ptr adj (tab ! (idx + 1)) = Some (lowered adj (tab ! (idx + 1)))" by (rule Suc.prems(2)) simp_all
  then have "shift_entries adj idx (Suc k) tab = Some tab'"
    using Suc.prems(1) t(1) by (simp add: mem_get_in mem_put_in)
  moreover have "tab' ! j = (if idx \<le> j \<and> j < idx + Suc k then lowered adj (tab ! (j + 1)) else tab ! j)" if "j < length tab" for j
    using t(3) [OF that] that Suc.prems(1) by (cases "j = idx") (simp_all add: nth_list_update)
  ultimately show ?case using t(2) by blast
qed (auto intro!: exI [of _ tab])

text \<open>The regions lie in the buffer in the order of the table.\<close>

definition in_order :: "nat \<Rightarrow> scan_dev \<Rightarrow> bool" where
  "in_order n s \<longleftrightarrow> (\<forall>i j p q. i < j \<longrightarrow> j < n \<longrightarrow> pBeaconBuf (ScanTable s ! i) = Stored p \<longrightarrow> pBeaconBuf (ScanTable s ! j) = Stored q \<longrightarrow> p < q)"

text \<open>Two entries of which one is before the other in both orders.\<close>

definition before_in :: "nat \<Rightarrow> BSSDescriptor \<Rightarrow> BSSDescriptor \<Rightarrow> bool" where
  "before_in lim e f \<longleftrightarrow> entry_ok lim e \<and> entry_ok lim f \<and>
     (\<forall>p q. pBeaconBuf e = Stored p \<longrightarrow> pBeaconBuf f = Stored q \<longrightarrow> p + beaconBufSizeMax e \<le> q)"

lemma in_order_before:
  assumes "bcn_ok n s" "in_order n s" "i < j" "j < n"
  shows "before_in (pBeaconBufEnd s) (ScanTable s ! i) (ScanTable s ! j)"
proof -
  have i: "i < n" "i \<noteq> j" using assms(3,4) by simp_all
  have e: "entry_ok (pBeaconBufEnd s) (ScanTable s ! i)" "entry_ok (pBeaconBufEnd s) (ScanTable s ! j)" "apart (ScanTable s ! i) (ScanTable s ! j)"
    using assms(1,4) i by (simp_all add: bcn_ok_def)
  have "p + beaconBufSizeMax (ScanTable s ! i) \<le> q" if st: "pBeaconBuf (ScanTable s ! i) = Stored p" "pBeaconBuf (ScanTable s ! j) = Stored q" for p q
  proof -
    have "p < q" using assms(2-4) st unfolding in_order_def by blast
    moreover have "p + beaconBufSizeMax (ScanTable s ! i) \<le> q \<or> q + beaconBufSizeMax (ScanTable s ! j) \<le> p"
      using e(3) st unfolding apart_def by blast
    ultimately show ?thesis by linarith
  qed
  with e(1,2) show ?thesis by (simp add: before_in_def)
qed

text \<open>The compacted buffer: what was before the deleted region stays, what was behind moves down.\<close>

lemma compact_ok:
  assumes "entry_ok (pBeaconBufEnd s) e" "beaconBufSizeMax e = adj" "pBeaconBufEnd s \<le> length (beaconBuffer s)"
  shows "\<exists>t. compact_buffer adj e s = Some t \<and> ScanTable t = ScanTable s \<and> NumInScanTable t = NumInScanTable s \<and>
    length (beaconBuffer t) = length (beaconBuffer s) \<and> pBeaconBufEnd t = pBeaconBufEnd s - adj \<and>
    (\<forall>f. before_in (pBeaconBufEnd s) f e \<longrightarrow> adj > 0 \<longrightarrow> entry_ok (pBeaconBufEnd t) f \<and> stored t f = stored s f) \<and>
    (\<forall>f. before_in (pBeaconBufEnd s) e f \<longrightarrow> adj > 0 \<longrightarrow>
       lower_ptr adj f = Some (lowered adj f) \<and> entry_ok (pBeaconBufEnd t) (lowered adj f) \<and> stored t (lowered adj f) = stored s f)"
proof (cases "pBeaconBuf e")
  case (Stored p)
  then have e: "0 < adj" "p + adj \<le> pBeaconBufEnd s" using assms(1,2) by (auto simp: entry_ok_def)
  let ?lim = "pBeaconBufEnd s - adj"
  have "p + (?lim - p) \<le> length (beaconBuffer s)" "p + adj + (?lim - p) \<le> length (beaconBuffer s)" using e assms(3) by linarith+
  then obtain buf where buf: "mem_move (beaconBuffer s) p (p + adj) (?lim - p) = Some buf" using mem_move_defined by blast
  let ?t = "s\<lparr>beaconBuffer := buf, pBeaconBufEnd := ?lim\<rparr>"
  have c: "compact_buffer adj e s = Some ?t" using e buf Stored by (simp add: compact_buffer_def Let_def)
  have b: "entry_ok ?lim f \<and> stored ?t f = stored s f" if "before_in (pBeaconBufEnd s) f e" for f
  proof (cases "pBeaconBuf f")
    case (Stored q)
    then have "q + beaconBufSizeMax f \<le> p" "beaconBufSize f \<le> beaconBufSizeMax f" "0 < beaconBufSize f"
      using that \<open>pBeaconBuf e = Stored p\<close> by (auto simp: before_in_def entry_ok_def)
    then show ?thesis using Stored e mem_move_outside [OF buf, of q "beaconBufSize f"] by (simp add: entry_ok_def stored_def)
  qed (use that in \<open>auto simp: before_in_def entry_ok_def stored_def\<close>)
  have a: "lower_ptr adj f = Some (lowered adj f) \<and> entry_ok ?lim (lowered adj f) \<and> stored ?t (lowered adj f) = stored s f"
    if "before_in (pBeaconBufEnd s) e f" for f
  proof (cases "pBeaconBuf f")
    case (Stored q)
    then have q: "p + adj \<le> q" "beaconBufSize f \<le> beaconBufSizeMax f" "0 < beaconBufSize f" "q + beaconBufSizeMax f \<le> pBeaconBufEnd s"
      using that \<open>pBeaconBuf e = Stored p\<close> assms(2) by (auto simp: before_in_def entry_ok_def)
    then have "mem_sub buf (p + (q - (p + adj))) (beaconBufSize f) = mem_sub (beaconBuffer s) (p + adj + (q - (p + adj))) (beaconBufSize f)"
      by (intro mem_move_inside [OF buf]) simp
    moreover have "p + (q - (p + adj)) = q - adj" "p + adj + (q - (p + adj)) = q" using q(1) by simp_all
    ultimately show ?thesis using Stored q by (simp add: lower_ptr_def lowered_def entry_ok_def stored_def)
  qed (use that in \<open>auto simp: before_in_def entry_ok_def stored_def lower_ptr_def lowered_def\<close>)
  show ?thesis using c a b mem_move_length [OF buf] by (intro exI [of _ ?t]) simp
qed (use assms(1,2) in \<open>auto simp: entry_ok_def compact_buffer_def\<close>)

definition moved :: "nat \<Rightarrow> scan_dev \<Rightarrow> nat \<Rightarrow> BSSDescriptor" where
  "moved idx s j = (if j < idx then ScanTable s ! j else lowered (beaconBufSizeMax (ScanTable s ! idx)) (ScanTable s ! j))"

lemma lowered_0: "lowered 0 e = e"
proof (cases "pBeaconBuf e")
  case (Stored q)
  have "e\<lparr>pBeaconBuf := pBeaconBuf e\<rparr> = e" by simp
  then show ?thesis by (simp add: lowered_def Stored)
qed (simp_all add: lowered_def)

lemma lower_ptr_0: "entry_ok lim e \<Longrightarrow> lower_ptr 0 e = Some e"
  using lowered_0 [of e] by (simp add: lower_ptr_def lowered_def entry_ok_def split: bcn_ptr.splits)

lemma delete_entries:
  assumes "bcn_ok n s" "in_order n s" "idx < n" and adj: "beaconBufSizeMax (ScanTable s ! idx) = adj"
  shows "\<exists>t. compact_buffer adj (ScanTable s ! idx) s = Some t \<and> ScanTable t = ScanTable s \<and> NumInScanTable t = NumInScanTable s \<and>
    length (beaconBuffer t) = length (beaconBuffer s) \<and> pBeaconBufEnd t = pBeaconBufEnd s - adj \<and>
    (\<forall>j < n. j \<noteq> idx \<longrightarrow> (idx < j \<longrightarrow> lower_ptr adj (ScanTable s ! j) = Some (lowered adj (ScanTable s ! j))) \<and>
       entry_ok (pBeaconBufEnd t) (moved idx s j) \<and> stored t (moved idx s j) = stored s (ScanTable s ! j))"
proof -
  let ?e = "ScanTable s ! idx" and ?lim = "pBeaconBufEnd s"
  have e: "entry_ok ?lim ?e" "?lim \<le> length (beaconBuffer s)" "\<And>j. j < n \<Longrightarrow> entry_ok ?lim (ScanTable s ! j)"
    using assms(1,3) by (simp_all add: bcn_ok_def)
  obtain t where t: "compact_buffer adj ?e s = Some t" "ScanTable t = ScanTable s" "NumInScanTable t = NumInScanTable s"
    "length (beaconBuffer t) = length (beaconBuffer s)" "pBeaconBufEnd t = ?lim - adj"
    "\<And>f. before_in ?lim f ?e \<Longrightarrow> adj > 0 \<Longrightarrow> entry_ok (pBeaconBufEnd t) f \<and> stored t f = stored s f"
    "\<And>f. before_in ?lim ?e f \<Longrightarrow> adj > 0 \<Longrightarrow>
       lower_ptr adj f = Some (lowered adj f) \<and> entry_ok (pBeaconBufEnd t) (lowered adj f) \<and> stored t (lowered adj f) = stored s f"
    using compact_ok [OF e(1) adj e(2)] by blast
  have "(idx < j \<longrightarrow> lower_ptr adj (ScanTable s ! j) = Some (lowered adj (ScanTable s ! j))) \<and>
      entry_ok (pBeaconBufEnd t) (moved idx s j) \<and> stored t (moved idx s j) = stored s (ScanTable s ! j)" if j: "j < n" "j \<noteq> idx" for j
  proof (cases "adj = 0")
    case True
    then have "t = s" using t(1) by (simp add: compact_buffer_def)
    then show ?thesis using e(3) [OF j(1)] True adj by (simp add: moved_def lowered_0 lower_ptr_0)
  next
    case False
    show ?thesis
    proof (cases "j < idx")
      case True
      then show ?thesis using t(6) in_order_before [OF assms(1,2) True assms(3)] False by (simp add: moved_def)
    next
      case False
      then have "idx < j" using j by simp
      then show ?thesis using t(7) [OF in_order_before [OF assms(1,2) _ j(1)]] \<open>adj \<noteq> 0\<close> adj False by (simp add: moved_def)
    qed
  qed
  with t(1-5) show ?thesis by blast
qed

lemma moved_before:
  assumes "bcn_ok n s" "in_order n s" "idx < n" "i < j" "j < n" "i \<noteq> idx" "j \<noteq> idx"
    and "pBeaconBuf (moved idx s i) = Stored p" "pBeaconBuf (moved idx s j) = Stored q"
  shows "p + beaconBufSizeMax (moved idx s i) \<le> q"
proof -
  let ?T = "ScanTable s" and ?adj = "beaconBufSizeMax (ScanTable s ! idx)"
  have b: "before_in (pBeaconBufEnd s) (?T ! a) (?T ! b)" if "a < b" "b < n" for a b
    using in_order_before [OF assms(1,2) that] .
  have low: "\<exists>q'. pBeaconBuf (?T ! k) = Stored q' \<and> r = q' - ?adj" if "pBeaconBuf (lowered ?adj (?T ! k)) = Stored r" for k r
    using that by (auto simp: lowered_def split: bcn_ptr.splits)
  have null: "?adj = 0" if "\<And>r. pBeaconBuf (?T ! idx) \<noteq> Stored r"
  proof -
    have "entry_ok (pBeaconBufEnd s) (?T ! idx)" using assms(1,3) by (simp add: bcn_ok_def)
    then show ?thesis using that by (cases "pBeaconBuf (?T ! idx)") (auto simp: entry_ok_def)
  qed
  consider "j < idx" | "i < idx" "idx < j" | "idx < i" using assms(4,6,7) by linarith
  then show ?thesis
  proof cases
    case 1
    then show ?thesis using b [OF assms(4,5)] assms(4,8,9) by (simp add: moved_def before_in_def)
  next
    case 2
    then obtain q' where q': "pBeaconBuf (?T ! j) = Stored q'" "q = q' - ?adj" using low assms(9) by (auto simp: moved_def)
    have p: "pBeaconBuf (?T ! i) = Stored p" using 2 assms(8) by (simp add: moved_def)
    show ?thesis
    proof (cases "\<exists>r. pBeaconBuf (?T ! idx) = Stored r")
      case True
      then obtain r where r: "pBeaconBuf (?T ! idx) = Stored r" by blast
      have "p + beaconBufSizeMax (?T ! i) \<le> r" "r + ?adj \<le> q'"
        using b [OF 2(1) assms(3)] b [OF 2(2) assms(5)] p q'(1) r unfolding before_in_def by blast+
      then show ?thesis using 2 q'(2) by (simp add: moved_def)
    next
      case False
      then have "?adj = 0" using null by blast
      moreover have "p + beaconBufSizeMax (?T ! i) \<le> q'" using b [OF assms(4,5)] p q'(1) unfolding before_in_def by blast
      ultimately show ?thesis using 2 q'(2) by (simp add: moved_def)
    qed
  next
    case 3
    then have l: "pBeaconBuf (lowered ?adj (?T ! i)) = Stored p" "pBeaconBuf (lowered ?adj (?T ! j)) = Stored q"
      using assms(4,8,9) by (simp_all add: moved_def)
    obtain p' q' where pq: "pBeaconBuf (?T ! i) = Stored p'" "p = p' - ?adj" "pBeaconBuf (?T ! j) = Stored q'" "q = q' - ?adj"
      using low [OF l(1)] low [OF l(2)] by blast
    have "p' + beaconBufSizeMax (?T ! i) \<le> q'" using b [OF assms(4,5)] pq unfolding before_in_def by blast
    moreover have "?adj \<le> p'"
    proof (cases "\<exists>r. pBeaconBuf (?T ! idx) = Stored r")
      case True
      then obtain r where "pBeaconBuf (?T ! idx) = Stored r" by blast
      moreover have "i < n" using assms(4,5) by simp
      ultimately show ?thesis using b [OF 3] pq(1) unfolding before_in_def by fastforce
    next
      case False
      then show ?thesis using null by simp
    qed
    ultimately show ?thesis using 3 pq by (simp add: moved_def)
  qed
qed

text \<open>The entry that stands at \<open>j\<close> after the deletion was at \<open>undel idx j\<close> before.\<close>

definition undel :: "nat \<Rightarrow> nat \<Rightarrow> nat" where
  "undel idx j = (if j < idx then j else j + 1)"

lemma undel_props: "undel idx j \<noteq> idx" "idx < n \<Longrightarrow> j < n - 1 \<Longrightarrow> undel idx j < n" "i < j \<Longrightarrow> undel idx i < undel idx j"
  by (auto simp: undel_def)

lemma delete_table:
  assumes "bcn_ok n s" "in_order n s" "NumInScanTable s = n" "idx < n"
  shows "\<exists>t. wlan_scan_delete_table_entry idx s = Some t \<and> NumInScanTable t = n - 1 \<and> length (ScanTable t) = 64 \<and>
    length (beaconBuffer t) = length (beaconBuffer s) \<and> pBeaconBufEnd t \<le> pBeaconBufEnd s \<and>
    (\<forall>j < n - 1. ScanTable t ! j = moved idx s (undel idx j) \<and> entry_ok (pBeaconBufEnd t) (moved idx s (undel idx j)) \<and>
       stored t (moved idx s (undel idx j)) = stored s (ScanTable s ! undel idx j))"
proof -
  let ?e = "ScanTable s ! idx"
  define adj where "adj = beaconBufSizeMax ?e"
  have len: "length (ScanTable s) = 64" "n \<le> 64" using assms(1) by (simp_all add: bcn_ok_def MRVDRV_MAX_BSSID_LIST_def)
  obtain t where t: "compact_buffer adj ?e s = Some t" "ScanTable t = ScanTable s" "NumInScanTable t = NumInScanTable s"
    "length (beaconBuffer t) = length (beaconBuffer s)" "pBeaconBufEnd t = pBeaconBufEnd s - adj"
    "\<And>j. j < n \<Longrightarrow> j \<noteq> idx \<Longrightarrow> (idx < j \<longrightarrow> lower_ptr adj (ScanTable s ! j) = Some (lowered adj (ScanTable s ! j))) \<and>
       entry_ok (pBeaconBufEnd t) (moved idx s j) \<and> stored t (moved idx s j) = stored s (ScanTable s ! j)"
    using delete_entries [OF assms(1,2,4)] unfolding adj_def by blast
  obtain tab where tab: "shift_entries adj idx (n - 1 - idx) (ScanTable s) = Some tab" "length tab = 64"
    "\<And>j. j < 64 \<Longrightarrow> tab ! j = (if idx \<le> j \<and> j < idx + (n - 1 - idx) then lowered adj (ScanTable s ! (j + 1)) else ScanTable s ! j)"
  proof -
    have a: "idx + (n - 1 - idx) < length (ScanTable s)" using assms(4) len by simp
    have b: "lower_ptr adj (ScanTable s ! j) = Some (lowered adj (ScanTable s ! j))" if "idx < j" "j \<le> idx + (n - 1 - idx)" for j
    proof -
      have "j < n" "j \<noteq> idx" using that assms(4) by simp_all
      then show ?thesis using t(6) that(1) by blast
    qed
    show thesis using shift_entries_eq [of idx "n - 1 - idx" "ScanTable s" adj, OF a b] that unfolding len(1) by blast
  qed
  let ?u = "t\<lparr>ScanTable := tab[n - 1 := zero_bss], NumInScanTable := n - 1\<rparr>"
  have get: "mem_get (ScanTable s) idx = Some ?e" using assms(4) len by (simp add: mem_get_in)
  have put: "mem_put tab (n - 1) zero_bss = Some (tab[n - 1 := zero_bss])" using assms(4) len tab(2) by (simp add: mem_put_in)
  have d: "wlan_scan_delete_table_entry idx s = Some ?u"
    unfolding wlan_scan_delete_table_entry_def get Option.bind.bind_lunit Let_def adj_def [symmetric] t(1)
    by (simp only: t(2,3) assms(3) tab(1) put Option.bind.bind_lunit)
  have "ScanTable ?u ! j = moved idx s (undel idx j)" if "j < n - 1" for j
    using that tab(3) [of j] len by (simp add: moved_def undel_def adj_def)
  moreover have "entry_ok (pBeaconBufEnd ?u) (moved idx s (undel idx j)) \<and> stored ?u (moved idx s (undel idx j)) = stored s (ScanTable s ! undel idx j)"
    if "j < n - 1" for j
    using t(6) [of "undel idx j"] that undel_props(1,2) assms(4) stored_cong [of ?u t] by simp
  ultimately show ?thesis using d t tab(2) by (intro exI [of _ ?u]) simp
qed

lemma delete_ok:
  assumes "bcn_ok n s" "in_order n s" "NumInScanTable s = n" "idx < n"
  shows "\<exists>t. wlan_scan_delete_table_entry idx s = Some t \<and> NumInScanTable t = n - 1 \<and> bcn_ok (n - 1) t \<and> in_order (n - 1) t \<and>
    (\<forall>j < n - 1. ScanTable t ! j = (ScanTable s ! undel idx j)\<lparr>pBeaconBuf := pBeaconBuf (ScanTable t ! j)\<rparr> \<and>
       stored t (ScanTable t ! j) = stored s (ScanTable s ! undel idx j))"
proof -
  obtain t where t: "wlan_scan_delete_table_entry idx s = Some t" "NumInScanTable t = n - 1" "length (ScanTable t) = 64"
    "length (beaconBuffer t) = length (beaconBuffer s)" "pBeaconBufEnd t \<le> pBeaconBufEnd s"
    "\<And>j. j < n - 1 \<Longrightarrow> ScanTable t ! j = moved idx s (undel idx j)"
    "\<And>j. j < n - 1 \<Longrightarrow> entry_ok (pBeaconBufEnd t) (moved idx s (undel idx j))"
    "\<And>j. j < n - 1 \<Longrightarrow> stored t (moved idx s (undel idx j)) = stored s (ScanTable s ! undel idx j)"
    using delete_table [OF assms] by blast
  have ord: "p + beaconBufSizeMax (ScanTable t ! i) \<le> q"
    if "i < j" "j < n - 1" "pBeaconBuf (ScanTable t ! i) = Stored p" "pBeaconBuf (ScanTable t ! j) = Stored q" for i j p q
  proof -
    have i: "i < n - 1" using that by simp
    show ?thesis
      using moved_before [OF assms(1,2,4) undel_props(3) [OF that(1)] undel_props(2) [OF assms(4) that(2)] undel_props(1) undel_props(1), of p q] that
      by (simp only: t(6) [OF i] t(6) [OF that(2)])
  qed
  have "apart (ScanTable t ! i) (ScanTable t ! j)" if "i < n - 1" "j < n - 1" "i \<noteq> j" for i j
    unfolding apart_def using ord [of i j] ord [of j i] that by (metis linorder_neqE_nat)
  then have "bcn_ok (n - 1) t" using assms(1) t by (auto simp: bcn_ok_def MRVDRV_MAX_BSSID_LIST_def)
  moreover have "in_order (n - 1) t"
    unfolding in_order_def
  proof (intro allI impI)
    fix i j p q assume a: "i < j" "j < n - 1" "pBeaconBuf (ScanTable t ! i) = Stored p" "pBeaconBuf (ScanTable t ! j) = Stored q"
    have "entry_ok (pBeaconBufEnd t) (ScanTable t ! i)" using t(6,7) [of i] a by simp
    then have "0 < beaconBufSizeMax (ScanTable t ! i)" using a(3) by (simp add: entry_ok_def)
    then show "p < q" using ord [OF a] by simp
  qed
  moreover have "ScanTable t ! j = (ScanTable s ! undel idx j)\<lparr>pBeaconBuf := pBeaconBuf (ScanTable t ! j)\<rparr>" if "j < n - 1" for j
    unfolding t(6) [OF that] by (simp add: moved_def lowered_def split: bcn_ptr.split)
  ultimately show ?thesis using t(1,2,6,8) by (intro exI [of _ t]) simp
qed

section \<open>Properties\<close>

definition sample_entry :: "nat \<Rightarrow> nat \<Rightarrow> nat \<Rightarrow> BSSDescriptor" where
  "sample_entry p k m = zero_bss\<lparr>pBeaconBuf := Stored p, beaconBufSize := k, beaconBufSizeMax := m\<rparr>"

definition sample_scan :: scan_dev where
  "sample_scan = \<lparr>ScanTable = sample_entry 0 3 9 # sample_entry 9 2 8 # replicate 62 zero_bss, NumInScanTable = 2,
     beaconBuffer = [1, 2, 3, 0, 0, 0, 0, 0, 0, 4, 5] @ replicate 5989 0, pBeaconBufEnd = 17\<rparr>"

lemma sample_scan_ok: "bcn_ok 2 sample_scan" "in_order 2 sample_scan"
  by (auto simp: bcn_ok_def in_order_def sample_scan_def sample_entry_def entry_ok_def apart_def less_2_cases_iff
      MRVDRV_MAX_BSSID_LIST_def MAX_SCAN_BEACON_BUFFER_def)

text \<open>C8. The beacon storage refines a table of beacons: storing a new beacon for an entry leaves the beacon of
  every other entry as it was and gives the entry the new one, or, when the buffer has no room, the old one or
  none, and never leaves the buffer. The condition excludes a beacon that is longer than the
  old one and shorter than its space, see the next property.\<close>

theorem store_beacon_refines:
  assumes "bcn_ok n s" and "idx < n" and "pBeaconBuf new = InResp off" and "mem_sub resp off (beaconBufSize new) = Some x" and "0 < beaconBufSize new"
    and "\<not> (beaconBufSize (ScanTable s ! idx) < beaconBufSize new \<and> beaconBufSize new < beaconBufSizeMax (ScanTable s ! idx))"
  shows "\<exists>new' t. wlan_ret_802_11_scan_store_beacon resp idx n new s = Some (new', t) \<and> bcn_ok n (set_entry idx new' t) \<and>
    stored (set_entry idx new' t) new' =
      (case pBeaconBuf (ScanTable s ! idx) of
         Null \<Rightarrow> if pBeaconBufEnd s + beaconBufSize new + SCAN_BEACON_ENTRY_PAD < MAX_SCAN_BEACON_BUFFER then Some x else None
       | _ \<Rightarrow> if beaconBufSize new \<le> beaconBufSizeMax (ScanTable s ! idx) \<or>
             pBeaconBufEnd s + (beaconBufSize new - beaconBufSizeMax (ScanTable s ! idx)) < MAX_SCAN_BEACON_BUFFER
           then Some x else stored s (ScanTable s ! idx)) \<and>
    (\<forall>j < n. j \<noteq> idx \<longrightarrow> stored (set_entry idx new' t) (ScanTable (set_entry idx new' t) ! j) = stored s (ScanTable s ! j))"
proof -
  let ?e = "ScanTable s ! idx"
  have nb: "new_bytes resp new = Some x" "length x = beaconBufSize new" using assms(3,4) mem_sub_length by (simp_all add: new_bytes_def)
  have e: "entry_ok (pBeaconBufEnd s) ?e" "mem_get (ScanTable s) idx = Some ?e"
    using assms(1,2) by (simp_all add: bcn_ok_def mem_get_in)
  show ?thesis
  proof (cases "pBeaconBuf ?e")
    case Null
    obtain new' t where "append_beacon resp new s = Some (new', t)"
      "store_result n idx s new (if pBeaconBufEnd s + beaconBufSize new + 6 < 6000 then Some x else None) new' t"
      using append_beacon_ok [OF assms(1,2) Null nb assms(5) refl] by blast
    then show ?thesis using e Null
      by (simp add: wlan_ret_802_11_scan_store_beacon_def store_result_def SCAN_BEACON_ENTRY_PAD_def MAX_SCAN_BEACON_BUFFER_def)
  next
    case (Stored p)
    then have "at_entry n s idx p (beaconBufSize ?e) (beaconBufSizeMax ?e)" using assms(1,2) by (simp add: at_entry_def)
    from replace_beacon_ok [OF this nb assms(5,6) refl] obtain new' t where
      "replace_beacon resp n p (beaconBufSize ?e) (beaconBufSizeMax ?e) new s = Some (new', t)"
      "store_result n idx s new (if beaconBufSize new \<le> beaconBufSizeMax ?e \<or> pBeaconBufEnd s + (beaconBufSize new - beaconBufSizeMax ?e) < 6000
         then Some x else stored s ?e) new' t" by blast
    then show ?thesis using e Stored
      by (simp add: wlan_ret_802_11_scan_store_beacon_def store_result_def MAX_SCAN_BEACON_BUFFER_def)
  qed (use e(1) in \<open>simp add: entry_ok_def\<close>)
qed

theorem store_beacon_refines_witness:
  "\<exists>new' t. wlan_ret_802_11_scan_store_beacon (replicate 12 7) 0 2 (zero_bss\<lparr>pBeaconBuf := InResp 0, beaconBufSize := 12\<rparr>) sample_scan = Some (new', t) \<and>
    stored (set_entry 0 new' t) new' = Some (replicate 12 7) \<and> stored (set_entry 0 new' t) (ScanTable (set_entry 0 new' t) ! 1) = Some [4, 5]"
proof -
  let ?new = "zero_bss\<lparr>pBeaconBuf := InResp 0, beaconBufSize := 12\<rparr>"
  have e: "ScanTable sample_scan ! 0 = sample_entry 0 3 9" by (simp add: sample_scan_def)
  have m: "mem_sub (replicate 12 (7 :: u8)) 0 (beaconBufSize ?new) = Some (replicate 12 7)" by (simp add: mem_sub_def)
  have "stored sample_scan (ScanTable sample_scan ! 1) = Some [4, 5]"
    by (simp add: stored_def sample_scan_def sample_entry_def mem_sub_def)
  with store_beacon_refines [OF sample_scan_ok(1), of 0 ?new 0 "replicate 12 7" "replicate 12 7"] m show ?thesis
    unfolding e by (fastforce simp: sample_entry_def MAX_SCAN_BEACON_BUFFER_def sample_scan_def)
qed

text \<open>A slightly longer beacon is damaged: when the new beacon is longer than the old one but still within
  its space, the code copies it and then moves the regions behind it to the end of the old beacon, over the
  tail of the new one. The entry's beacon then ends in bytes of its neighbour, and its region is
  shorter than its beacon.\<close>

theorem store_beacon_overlap:
  assumes "bcn_ok n s" and "idx < n" and "pBeaconBuf (ScanTable s ! idx) = Stored p"
    and "sz = beaconBufSize (ScanTable s ! idx)" and "space = beaconBufSizeMax (ScanTable s ! idx)"
    and "pBeaconBuf new = InResp off" and "mem_sub resp off (beaconBufSize new) = Some x"
    and "sz < beaconBufSize new" and "beaconBufSize new < space" and "p + space + (beaconBufSize new - sz) \<le> pBeaconBufEnd s"
  shows "\<exists>new' t. wlan_ret_802_11_scan_store_beacon resp idx n new s = Some (new', t) \<and> beaconBufSizeMax new' < beaconBufSize new' \<and>
    stored t new' = Some (take sz x @ take (beaconBufSize new - sz) (drop (p + space) (beaconBuffer s)))"
proof -
  let ?k = "beaconBufSize new" and ?B = "beaconBuffer s" and ?n = "pBeaconBufEnd s - (p + space)"
  have at: "at_entry n s idx p sz space" using assms(1-5) by (simp add: at_entry_def)
  note d = at_entryD [OF at]
  have x: "length x = ?k" using assms(7) by (rule mem_sub_length)
  let ?b1 = "take p ?B @ x @ drop (p + ?k) ?B"
  have b1: "mem_copy ?B p x = Some ?b1" using d(3,4,5) assms(9) x by (simp add: mem_copy_def)
  have l1: "length ?b1 = 6000" using mem_copy_length [OF b1] d(5) by simp
  have "p + sz + ?n \<le> length ?b1" "p + space + ?n \<le> length ?b1" using d(2-4) l1 by linarith+
  then obtain b2 where b2: "mem_move ?b1 (p + sz) (p + space) ?n = Some b2" using mem_move_defined by blast
  let ?new = "new\<lparr>beaconBufSizeMax := sz, pBeaconBuf := Stored p\<rparr>"
  let ?t = "s\<lparr>beaconBuffer := b2, pBeaconBufEnd := pBeaconBufEnd s - (space - sz),
      ScanTable := adjust_table n p (\<lambda>q. q - (space - sz)) (ScanTable s)\<rparr>"
  have nb: "new_bytes resp (new\<lparr>beaconBufSizeMax := a\<rparr>) = Some x" for a using assms(6,7) by (simp add: new_bytes_def)
  have "replace_beacon resp n p sz space new s = Some (?new, ?t)"
    using nb b1 b2 d(2,3) assms(8,9) by (simp add: replace_beacon_def Let_def move_tail_def)
  moreover have "mem_get (ScanTable s) idx = Some (ScanTable s ! idx)" using assms(1,2) by (simp add: bcn_ok_def mem_get_in)
  ultimately have r: "wlan_ret_802_11_scan_store_beacon resp idx n new s = Some (?new, ?t)"
    using assms(3-5) by (simp add: wlan_ret_802_11_scan_store_beacon_def)
  have lo: "mem_sub b2 p sz = Some (take sz x)"
  proof -
    have "mem_sub ?b1 p sz = Some (take sz x)" using d(2,3,4) d(5) assms(8) x by (simp add: mem_sub_def)
    then show ?thesis using mem_move_outside [OF b2, of p sz] by simp
  qed
  have hi: "mem_sub b2 (p + sz) (?k - sz) = Some (take (?k - sz) (drop (p + space) ?B))"
  proof -
    have "mem_sub b2 (p + sz + 0) (?k - sz) = mem_sub ?b1 (p + space + 0) (?k - sz)"
      using assms(10) by (intro mem_move_inside [OF b2]) simp
    also have "\<dots> = mem_sub ?B (p + space) (?k - sz)" using x assms(9) mem_sub_copy_disjoint [OF b1, of "p + space"] by simp
    finally show ?thesis using assms(10) d(4,5) by (simp add: mem_sub_def)
  qed
  have "length b2 = 6000" using mem_move_length [OF b2] l1 by simp
  then have "mem_sub b2 p ?k = Some (take sz x @ take (?k - sz) (drop (p + space) ?B))"
    using lo hi assms(8,9) d(3,4) by (auto simp: mem_sub_def take_add [symmetric] add.commute split: if_splits)
      (metis le_add_diff_inverse less_imp_le take_add drop_drop add.commute)
  then show ?thesis using r assms(8) by (intro exI [of _ ?new] exI [of _ ?t]) (simp add: stored_def)
qed

theorem store_beacon_overlap_witness:
  "\<exists>new' t. wlan_ret_802_11_scan_store_beacon [7, 7, 7, 7, 7] 0 2 (zero_bss\<lparr>pBeaconBuf := InResp 0, beaconBufSize := 5\<rparr>) sample_scan = Some (new', t) \<and>
    stored t new' = Some [7, 7, 7, 4, 5]"
proof -
  have "ScanTable sample_scan ! 0 = sample_entry 0 3 9" by (simp add: sample_scan_def)
  then show ?thesis
    using store_beacon_overlap [OF sample_scan_ok(1), of 0 0 3 9 "zero_bss\<lparr>pBeaconBuf := InResp 0, beaconBufSize := 5\<rparr>" 0 "[7, 7, 7, 7, 7]" "[7, 7, 7, 7, 7]"]
    by (auto simp: sample_entry_def mem_sub_def sample_scan_def numeral_eq_Suc)
qed

text \<open>Deleting an entry deletes only that: while the regions lie in the order of the table, the entries behind
  it move up by one, each remaining entry keeps all its fields and its beacon, and the storage stays
  in order.\<close>

theorem delete_entry_refines:
  assumes "bcn_ok n s" and "in_order n s" and "NumInScanTable s = n" and "idx < n"
  shows "\<exists>t. wlan_scan_delete_table_entry idx s = Some t \<and> NumInScanTable t = n - 1 \<and> bcn_ok (n - 1) t \<and> in_order (n - 1) t \<and>
    (\<forall>j < n - 1. let j' = if j < idx then j else j + 1
       in ScanTable t ! j = (ScanTable s ! j')\<lparr>pBeaconBuf := pBeaconBuf (ScanTable t ! j)\<rparr> \<and>
          stored t (ScanTable t ! j) = stored s (ScanTable s ! j'))"
  using delete_ok [OF assms] by (simp add: undel_def Let_def)

theorem delete_entry_refines_witness:
  "\<exists>t. wlan_scan_delete_table_entry 0 sample_scan = Some t \<and> NumInScanTable t = 1 \<and> stored t (ScanTable t ! 0) = Some [4, 5]"
proof -
  have s: "stored sample_scan (ScanTable sample_scan ! 1) = Some [4, 5]" "NumInScanTable sample_scan = 2"
    by (simp_all add: stored_def sample_scan_def sample_entry_def mem_sub_def)
  from delete_entry_refines [OF sample_scan_ok s(2), of 0] obtain t where
    "wlan_scan_delete_table_entry 0 sample_scan = Some t" "NumInScanTable t = 1"
    "stored t (ScanTable t ! 0) = stored sample_scan (ScanTable sample_scan ! 1)" by (auto simp: Let_def)
  with s(1) show ?thesis by auto
qed

text \<open>Out of order the pointers go wrong: the code lowers every pointer behind the deleted entry in the
  table, also one whose region is in front of the deleted one in the buffer.\<close>

theorem delete_out_of_order:
  assumes "bcn_ok n s" and "NumInScanTable s = n" and "idx + 1 < n" and "pBeaconBuf (ScanTable s ! (idx + 1)) = Stored q"
    and "q < beaconBufSizeMax (ScanTable s ! idx)"
  shows "wlan_scan_delete_table_entry idx s = None"
proof -
  let ?adj = "beaconBufSizeMax (ScanTable s ! idx)"
  have g: "mem_get (ScanTable s) idx = Some (ScanTable s ! idx)" "mem_get (ScanTable s) (idx + 1) = Some (ScanTable s ! (idx + 1))"
    using assms(1,3) by (auto simp: bcn_ok_def mem_get_in)
  obtain k where k: "n - 1 - idx = Suc k" using assms(3) by (metis Suc_diff_Suc diff_Suc_1 less_diff_conv Suc_eq_plus1 diff_commute)
  have "lower_ptr ?adj (ScanTable s ! (idx + 1)) = None" using assms(4,5) by (simp add: lower_ptr_def)
  then have "shift_entries ?adj idx (n - 1 - idx) (ScanTable s) = None" unfolding k using g(2) by simp
  moreover have "ScanTable t = ScanTable s \<and> NumInScanTable t = n" if "compact_buffer ?adj (ScanTable s ! idx) s = Some t" for t
    using that assms(2) by (auto simp: compact_buffer_def Let_def bind_eq_Some_conv split: if_splits bcn_ptr.splits)
  ultimately show ?thesis
  proof (cases "compact_buffer ?adj (ScanTable s ! idx) s")
    case None
    then show ?thesis by (simp only: wlan_scan_delete_table_entry_def g(1) Option.bind.simps Let_def)
  next
    case (Some t)
    then have t: "ScanTable t = ScanTable s" "NumInScanTable t = n"
      using \<open>\<And>t. compact_buffer ?adj (ScanTable s ! idx) s = Some t \<Longrightarrow> ScanTable t = ScanTable s \<and> NumInScanTable t = n\<close> by blast+
    have "shift_entries ?adj idx (n - 1 - idx) (ScanTable s) = None" by fact
    then show ?thesis by (simp only: wlan_scan_delete_table_entry_def g(1) Option.bind.simps Let_def Some t)
  qed
qed

end
