(* ===== verification/WlanScan.thy ===== *)
theory WlanScan
  imports WlanBeacon Wlan11d
begin

text \<open>
  The scan table of the wireless driver, from \<^verbatim>\<open>wlan_scan.c\<close>: the response of the firmware to a scan
  command, which is read description by description into the table, and the searches for a network in
  it by name, by address and by signal.
\<close>

section \<open>Compatibility\<close>

datatype wep_status = Wlan802_11WEPEnabled | Wlan802_11WEPDisabled | Wlan802_11WEPKeyAbsent | Wlan802_11WEPNotSupported

record net_cfg =
  nc_connected :: bool
  InfrastructureMode :: infra
  SessionEnable :: bool
  WEPStatus :: wep_status
  WPAEnabled :: bool
  WPA2Enabled :: bool
  AdhocAESEnabled :: bool
  CipherNone :: bool

definition has_wpa :: "BSSDescriptor \<Rightarrow> bool" where "has_wpa d = (wpaIE d ! 0 = VENDOR_SPECIFIC_221)"
definition has_rsn :: "BSSDescriptor \<Rightarrow> bool" where "has_rsn d = (rsnIE d ! 0 = RSN_IE)"

text \<open>The cases of \<open>IsNetworkCompatible\<close>, in the order of the code.\<close>

definition security_match :: "net_cfg \<Rightarrow> BSSDescriptor \<Rightarrow> bool" where
  "security_match c d =
     (if WEPStatus c = Wlan802_11WEPDisabled \<and> \<not> WPAEnabled c \<and> \<not> WPA2Enabled c \<and> \<not> has_wpa d \<and> \<not> has_rsn d \<and> \<not> AdhocAESEnabled c \<and> CipherNone c \<and> Privacy d = 0
      then True
      else if WEPStatus c = Wlan802_11WEPEnabled \<and> \<not> WPAEnabled c \<and> \<not> WPA2Enabled c \<and> \<not> AdhocAESEnabled c \<and> Privacy d \<noteq> 0 then True
      else if WEPStatus c = Wlan802_11WEPDisabled \<and> WPAEnabled c \<and> \<not> WPA2Enabled c \<and> has_wpa d \<and> \<not> AdhocAESEnabled c then True
      else if WEPStatus c = Wlan802_11WEPDisabled \<and> \<not> WPAEnabled c \<and> WPA2Enabled c \<and> has_rsn d \<and> \<not> AdhocAESEnabled c then True
      else if WEPStatus c = Wlan802_11WEPDisabled \<and> \<not> WPAEnabled c \<and> \<not> WPA2Enabled c \<and> \<not> has_wpa d \<and> \<not> has_rsn d \<and> AdhocAESEnabled c \<and> CipherNone c \<and> Privacy d \<noteq> 0
      then True
      else if WEPStatus c = Wlan802_11WEPDisabled \<and> \<not> WPAEnabled c \<and> \<not> WPA2Enabled c \<and> \<not> has_wpa d \<and> \<not> has_rsn d \<and> \<not> AdhocAESEnabled c \<and> \<not> CipherNone c \<and> Privacy d \<noteq> 0
      then True
      else False)"

definition IsNetworkCompatible :: "net_cfg \<Rightarrow> BSSDescriptor list \<Rightarrow> nat \<Rightarrow> infra \<Rightarrow> int option" where
  "IsNetworkCompatible c tab index mode =
     do { d \<leftarrow> mem_get tab index;
          if nc_connected c \<and> InfrastructureMode c = Wlan802_11Infrastructure \<and> bss_mode d = Wlan802_11Infrastructure then Some (int index)
          else if SessionEnable c then Some (int index)
          else if bss_mode d = mode then (if security_match c d then Some (int index) else Some (- ECONNREFUSED))
          else Some (- ENETUNREACH) }"

definition SCAN_RSSI :: "u32 \<Rightarrow> nat" where
  "SCAN_RSSI r = 256 - unat (ucast r :: u8)"

section \<open>Searches\<close>

text \<open>\<open>memcmp\<close> of the network names; both lengths are those of the first.\<close>

definition SSIDcmp :: "BSSDescriptor \<Rightarrow> u32 \<times> u8 list \<Rightarrow> bool option" where
  "SSIDcmp d = (\<lambda>(len, ssid).
     if SsidLength d \<noteq> len then Some False
     else do { x \<leftarrow> mem_sub (Ssid d) 0 (unat len); y \<leftarrow> mem_sub ssid 0 (unat len); Some (x = y) })"

fun find_cfp_chan :: "nat \<Rightarrow> CHANNEL_FREQ_POWER list \<Rightarrow> nat list \<Rightarrow> CHANNEL_FREQ_POWER option option" where
  "find_cfp_chan ch cfps [] = Some None"
| "find_cfp_chan ch cfps (i # is) =
     do { x \<leftarrow> mem_get cfps i; if Channel x = ch then Some (Some x) else find_cfp_chan ch cfps is }"

definition FIRST_VALID_CHANNEL :: nat where "FIRST_VALID_CHANNEL = 0xff"

fun find_cfp_regions :: "u8 \<Rightarrow> nat \<Rightarrow> REGION_CHANNEL list \<Rightarrow> CHANNEL_FREQ_POWER option option" where
  "find_cfp_regions band ch [] = Some None"
| "find_cfp_regions band ch (rc # rcs) =
     (case CFP rc of
        Some cfps \<Rightarrow>
          if \<not> Valid rc \<or> Band rc \<noteq> band then find_cfp_regions band ch rcs
          else
            do { r \<leftarrow> (if ch = FIRST_VALID_CHANNEL then map_option Some (mem_get cfps 0)
                       else find_cfp_chan ch cfps [0..<unat (NrCFP rc)]);
                 case r of None \<Rightarrow> find_cfp_regions band ch rcs | Some x \<Rightarrow> Some (Some x) }
      | None \<Rightarrow> find_cfp_regions band ch rcs)"

definition find_cfp_by_band_and_channel :: "adapter_11d \<Rightarrow> u8 \<Rightarrow> u16 \<Rightarrow> CHANNEL_FREQ_POWER option option" where
  "find_cfp_by_band_and_channel a band ch =
     find_cfp_regions band (unat ch) (if Enable11D a then universal_channel a else region_channel a)"

text \<open>The end of both searches: a network on a channel that is not allowed is not found.\<close>

definition check_channel :: "adapter_11d \<Rightarrow> BSSDescriptor list \<Rightarrow> int \<Rightarrow> int option" where
  "check_channel a tab net =
     (if net \<ge> 0 then
        do { d \<leftarrow> mem_get tab (nat net);
             r \<leftarrow> find_cfp_by_band_and_channel a 0 (ucast (bss_Channel d));
             Some (if r = None then - ENETUNREACH else net) }
      else Some net)"

fun find_bssid_loop :: "net_cfg \<Rightarrow> BSSDescriptor list \<Rightarrow> u8 list \<Rightarrow> infra \<Rightarrow> nat list \<Rightarrow> int \<Rightarrow> int option" where
  "find_bssid_loop c tab bssid mode [] ret = Some ret"
| "find_bssid_loop c tab bssid mode (i # is) ret =
     (if ret < 0 then
        do { d \<leftarrow> mem_get tab i;
             ret \<leftarrow> (if MacAddress d = bssid then
                 (if mode = Wlan802_11AutoUnknown then Some (int i) else IsNetworkCompatible c tab i mode) else Some ret);
             find_bssid_loop c tab bssid mode is ret }
      else Some ret)"

definition FindBSSIDInList :: "net_cfg \<Rightarrow> adapter_11d \<Rightarrow> scan_dev \<Rightarrow> u8 list \<Rightarrow> infra \<Rightarrow> int option" where
  "FindBSSIDInList c a s bssid mode =
     do { ret \<leftarrow> find_bssid_loop c (ScanTable s) bssid mode [0..<NumInScanTable s] (- ENETUNREACH);
          check_channel a (ScanTable s) ret }"

text \<open>One entry in the search by name; \<open>bestrssi\<close> is a \<open>u8\<close>.\<close>

definition find_ssid_entry :: "net_cfg \<Rightarrow> BSSDescriptor list \<Rightarrow> infra \<Rightarrow> nat \<Rightarrow> BSSDescriptor \<Rightarrow> int \<times> u8 \<Rightarrow> (int \<times> u8) option" where
  "find_ssid_entry c tab mode i d = (\<lambda>(net, best).
     let better = (if SCAN_RSSI (Rssi d) > unat best then (int i, of_nat (SCAN_RSSI (Rssi d))) else (net, best))
     in if mode = Wlan802_11AutoUnknown then Some better
        else
          do { j \<leftarrow> IsNetworkCompatible c tab i mode;
               Some (if j \<ge> 0 then better else if net = - ENETUNREACH then (j, best) else (net, best)) })"

fun find_ssid_loop ::
  "net_cfg \<Rightarrow> BSSDescriptor list \<Rightarrow> u32 \<times> u8 list \<Rightarrow> u8 list option \<Rightarrow> infra \<Rightarrow> nat list \<Rightarrow> int \<times> u8 \<Rightarrow> int option" where
  "find_ssid_loop c tab ssid bssid mode [] nb = Some (fst nb)"
| "find_ssid_loop c tab ssid bssid mode (i # is) nb =
     (if bssid = None \<or> fst nb < 0 then
        do { d \<leftarrow> mem_get tab i;
             same \<leftarrow> SSIDcmp d ssid;
             nb \<leftarrow> (if same \<and> (bssid = None \<or> bssid = Some (MacAddress d)) then find_ssid_entry c tab mode i d nb else Some nb);
             find_ssid_loop c tab ssid bssid mode is nb }
      else Some (fst nb))"

definition FindSSIDInList :: "net_cfg \<Rightarrow> adapter_11d \<Rightarrow> scan_dev \<Rightarrow> u32 \<times> u8 list \<Rightarrow> u8 list option \<Rightarrow> infra \<Rightarrow> int option" where
  "FindSSIDInList c a s ssid bssid mode =
     do { net \<leftarrow> find_ssid_loop c (ScanTable s) ssid bssid mode [0..<NumInScanTable s] (- ENETUNREACH, 0);
          check_channel a (ScanTable s) net }"

fun find_best_loop :: "net_cfg \<Rightarrow> BSSDescriptor list \<Rightarrow> nat list \<Rightarrow> int \<times> u8 \<Rightarrow> int option" where
  "find_best_loop c tab [] nb = Some (fst nb)"
| "find_best_loop c tab (i # is) nb =
     do { d \<leftarrow> mem_get tab i;
          let better = (if SCAN_RSSI (Rssi d) > unat (snd nb) then (int i, of_nat (SCAN_RSSI (Rssi d))) else nb);
          nb \<leftarrow> (if InfrastructureMode c = Wlan802_11AutoUnknown then Some better
                 else do { j \<leftarrow> IsNetworkCompatible c tab i (InfrastructureMode c); Some (if j \<ge> 0 then better else nb) });
          find_best_loop c tab is nb }"

definition FindBestSSIDInList :: "net_cfg \<Rightarrow> scan_dev \<Rightarrow> int option" where
  "FindBestSSIDInList c s = find_best_loop c (ScanTable s) [0..<NumInScanTable s] (- ENETUNREACH, 0)"

section \<open>The scan response\<close>

definition TLV_TYPE_TSFTIMESTAMP :: u16 where "TLV_TYPE_TSFTIMESTAMP = 0x0113"

text \<open>The search for the table of time stamps. The remaining size is an \<open>int\<close> but is compared as an unsigned word, so a value below zero
  counts as large.\<close>

function wlan_ret_802_11_scan_get_tlv_ptrs :: "u8 list \<Rightarrow> nat \<Rightarrow> u32 \<Rightarrow> nat option \<Rightarrow> nat option option" where
  "wlan_ret_802_11_scan_get_tlv_ptrs resp pos left tsf =
     (if left < 4 then Some tsf
      else if pos + 3 < length resp then
        do { t0 \<leftarrow> mem_get resp pos; t1 \<leftarrow> mem_get resp (pos + 1);
             l0 \<leftarrow> mem_get resp (pos + 2); l1 \<leftarrow> mem_get resp (pos + 3);
             let tlvLen = unat (le16_to l0 l1);
             if le16_to t0 t1 = TLV_TYPE_TSFTIMESTAMP
             then wlan_ret_802_11_scan_get_tlv_ptrs resp (pos + 4 + tlvLen) (left - of_nat (4 + tlvLen)) (Some pos)
             else Some tsf }
      else None)"
  by auto

termination
  by (relation "measure (\<lambda>(resp, pos, left, tsf). length resp - pos)") auto

declare wlan_ret_802_11_scan_get_tlv_ptrs.simps [simp del]

definition same_bss :: "BSSDescriptor \<Rightarrow> BSSDescriptor \<Rightarrow> bool option" where
  "same_bss new d =
     (if MacAddress new = MacAddress d \<and> SsidLength new = SsidLength d then
        do { x \<leftarrow> mem_sub (Ssid new) 0 (unat (SsidLength new));
             y \<leftarrow> mem_sub (Ssid d) 0 (unat (SsidLength new));
             Some (x = y) }
      else Some False)"

fun find_dup :: "BSSDescriptor \<Rightarrow> BSSDescriptor list \<Rightarrow> nat \<Rightarrow> nat \<Rightarrow> nat option" where
  "find_dup new tab bssIdx 0 = Some bssIdx"
| "find_dup new tab bssIdx (Suc k) =
     do { d \<leftarrow> mem_get tab bssIdx;
          same \<leftarrow> same_bss new d;
          if same then Some bssIdx else find_dup new tab (bssIdx + 1) k }"

text \<open>One accepted description: its place, its beacon, its time stamp.\<close>

definition scan_insert :: "u8 list \<Rightarrow> nat option \<Rightarrow> nat \<Rightarrow> BSSDescriptor \<Rightarrow> nat \<Rightarrow> scan_dev \<Rightarrow> (nat \<times> scan_dev) option" where
  "scan_insert resp tsf idx new numInTable s =
     do { bssIdx \<leftarrow> find_dup new (ScanTable s) 0 numInTable;
          let (bssIdx, numInTable) =
            (if bssIdx = numInTable then
               (if bssIdx = MRVDRV_MAX_BSSID_LIST then (bssIdx - 1, numInTable) else (bssIdx, numInTable + 1))
             else (bssIdx, numInTable));
          (new, s) \<leftarrow> wlan_ret_802_11_scan_store_beacon resp bssIdx numInTable new s;
          new \<leftarrow> (case tsf of
              None \<Rightarrow> Some new
            | Some p \<Rightarrow> do { v \<leftarrow> mem_sub resp (p + 4 + 8 * idx) 8; Some (new\<lparr>networkTSF := v\<rparr>) });
          tab \<leftarrow> mem_put (ScanTable s) bssIdx new;
          Some (numInTable, s\<lparr>ScanTable := tab\<rparr>) }"

fun scan_loop :: "u8 list \<Rightarrow> nat option \<Rightarrow> nat \<Rightarrow> nat \<Rightarrow> nat \<Rightarrow> nat \<Rightarrow> nat \<Rightarrow> scan_dev \<Rightarrow> (nat \<times> scan_dev) option" where
  "scan_loop resp tsf idx 0 pos left numInTable s = Some (numInTable, s)"
| "scan_loop resp tsf idx (Suc k) pos left numInTable s =
     (if left = 0 then Some (numInTable, s)
      else
        do { (ret, new, pos, left) \<leftarrow> InterpretBSSDescriptionWithIE resp zero_bss pos left;
             (numInTable, s) \<leftarrow> (if ret = 0 then scan_insert resp tsf idx new numInTable s else Some (numInTable, s));
             scan_loop resp tsf (idx + 1) k pos left numInTable s })"

text \<open>The handler: \<open>resp\<close> is the buffer from the field \<open>BSSDescriptSize\<close> on, \<open>rsize\<close> the length of the whole
  response with its header of eight bytes.\<close>

definition wlan_ret_802_11_scan :: "u8 list \<Rightarrow> u16 \<Rightarrow> scan_dev \<Rightarrow> (int \<times> scan_dev) option" where
  "wlan_ret_802_11_scan resp rsize s =
     do { sets \<leftarrow> mem_get resp 2;
          if unat sets > MRVDRV_MAX_BSSID_LIST then Some (- 1, s)
          else
            do { d0 \<leftarrow> mem_get resp 0; d1 \<leftarrow> mem_get resp 1;
                 let bytesLeft = unat (le16_to d0 d1);
                 let tlvBufSize = (ucast rsize - (of_nat bytesLeft + 2 + 1 + 8) :: u32);
                 tsf \<leftarrow> wlan_ret_802_11_scan_get_tlv_ptrs resp (3 + bytesLeft) tlvBufSize None;
                 (numInTable, s) \<leftarrow> scan_loop resp tsf 0 (unat sets) 3 bytesLeft (NumInScanTable s) s;
                 Some (0, s\<lparr>NumInScanTable := numInTable\<rparr>) } }"

section \<open>Searching for the strongest\<close>

text \<open>Both searches keep the index and the strength of the best candidate so far; an entry that is
  not a candidate may only replace one error code by another.\<close>

locale strongest_search =
  fixes cand :: "nat \<Rightarrow> bool" and strength :: "nat \<Rightarrow> nat" and step :: "nat \<Rightarrow> int \<times> nat \<Rightarrow> int \<times> nat"
  assumes step_cand: "cand i \<Longrightarrow> step i (net, b) = (if strength i > b then (int i, strength i) else (net, b))"
    and step_other: "\<not> cand i \<Longrightarrow> snd (step i (net, b)) = b \<and> (net \<ge> 0 \<longrightarrow> fst (step i (net, b)) = net) \<and> (net < 0 \<longrightarrow> fst (step i (net, b)) < 0)"
    and positive: "cand i \<Longrightarrow> 0 < strength i"
begin

definition good_so_far :: "nat \<Rightarrow> int \<times> nat \<Rightarrow> bool" where
  "good_so_far n nb \<longleftrightarrow>
     (if \<exists>i < n. cand i
      then \<exists>k < n. cand k \<and> nb = (int k, strength k) \<and> (\<forall>i < n. cand i \<longrightarrow> strength i \<le> strength k)
      else fst nb < 0 \<and> snd nb = 0)"

lemma fold_good: "net < 0 \<Longrightarrow> good_so_far n (fold step [0..<n] (net, 0))"
proof (induction n)
  case 0
  then show ?case by (simp add: good_so_far_def)
next
  case (Suc n)
  obtain m b where mb: "fold step [0..<n] (net, 0) = (m, b)" by fastforce
  have f: "fold step [0..<Suc n] (net, 0) = step n (m, b)" using mb by simp
  have g: "good_so_far n (m, b)" using Suc mb by simp
  have ex: "(\<exists>i < Suc n. cand i) \<longleftrightarrow> cand n \<or> (\<exists>i < n. cand i)" by (metis less_Suc_eq)
  show ?case
  proof (cases "cand n")
    case True
    have "\<exists>k < Suc n. cand k \<and> step n (m, b) = (int k, strength k) \<and> (\<forall>i < Suc n. cand i \<longrightarrow> strength i \<le> strength k)"
    proof (cases "strength n > b")
      case better: True
      then have "\<forall>i < Suc n. cand i \<longrightarrow> strength i \<le> strength n"
        using g by (auto simp: good_so_far_def less_Suc_eq split: if_splits)
      then show ?thesis using True better step_cand [OF True] by (intro exI [of _ n]) simp
    next
      case False
      then have "b \<noteq> 0" using positive [OF True] by simp
      then obtain k where "k < n" "cand k" "(m, b) = (int k, strength k)" "\<forall>i < n. cand i \<longrightarrow> strength i \<le> strength k"
        using g by (auto simp: good_so_far_def split: if_splits)
      then show ?thesis using False step_cand [OF True] by (intro exI [of _ k]) (auto simp: less_Suc_eq)
    qed
    then show ?thesis unfolding f good_so_far_def using True ex by auto
  next
    case False
    note o = step_other [OF False, of m b]
    show ?thesis
    proof (cases "\<exists>i < n. cand i")
      case True
      then obtain k where k: "k < n" "cand k" "m = int k" "b = strength k" "\<forall>i < n. cand i \<longrightarrow> strength i \<le> strength k"
        using g by (auto simp: good_so_far_def)
      then have "step n (m, b) = (int k, strength k)" using o by (cases "step n (m, b)") auto
      then show ?thesis unfolding f good_so_far_def using k False True by (auto simp: less_Suc_eq)
    next
      case none: False
      then show ?thesis unfolding f good_so_far_def using g False ex o by (auto simp: good_so_far_def)
    qed
  qed
qed

lemma fold_result:
  assumes "net < 0"
  shows "if \<exists>i < n. cand i
    then \<exists>k < n. cand k \<and> fst (fold step [0..<n] (net, 0)) = int k \<and> (\<forall>i < n. cand i \<longrightarrow> strength i \<le> strength k)
    else fst (fold step [0..<n] (net, 0)) < 0"
  using fold_good [OF assms, of n] by (auto simp: good_so_far_def split: if_splits)

end

text \<open>A table that can be searched: names fit their arrays, and no signal has the value that the strength's type cannot hold.\<close>

definition table_ok :: "BSSDescriptor list \<Rightarrow> nat \<Rightarrow> bool" where
  "table_ok tab n \<longleftrightarrow> n \<le> length tab \<and> (\<forall>i < n. length (Ssid (tab ! i)) = 32 \<and> unat (SsidLength (tab ! i)) \<le> 32 \<and> (ucast (Rssi (tab ! i)) :: u8) \<noteq> 0)"

definition net_name :: "BSSDescriptor \<Rightarrow> u8 list" where
  "net_name d = take (unat (SsidLength d)) (Ssid d)"

text \<open>The table in the comment of \<open>IsNetworkCompatible\<close>, row by row: WEP, WPA, WPA2 and ad-hoc AES enabled, cipher mode
  \<open>NONE\<close>, then privacy, WPA and WPA2 element of the network; \<^term>\<open>None\<close> is its \<open>x\<close>, and
  also its \<open>1x\<close> for the privacy of WPA and WPA2 networks, which some access points do not announce.\<close>

definition compat_table :: "(bool \<times> bool \<times> bool \<times> bool \<times> bool option \<times> bool option \<times> bool option \<times> bool option) list" where
  "compat_table =
    [(False, False, False, False, Some True, Some False, Some False, Some False),
     (False, True, False, False, None, None, Some True, None),
     (False, False, True, False, None, None, None, Some True),
     (False, False, False, True, Some True, Some True, Some False, Some False),
     (True, False, False, False, Some True, Some True, Some False, Some False),
     (False, False, False, False, Some False, Some True, Some False, Some False)]"

definition column :: "bool option \<Rightarrow> bool \<Rightarrow> bool" where
  "column col b \<longleftrightarrow> col = None \<or> col = Some b"

definition table_allows :: "net_cfg \<Rightarrow> BSSDescriptor \<Rightarrow> bool" where
  "table_allows c d \<longleftrightarrow> (\<exists>(wep, wpa, wpa2, aes, none, priv, wpa_ie, rsn_ie) \<in> set compat_table.
     WEPStatus c = (if wep then Wlan802_11WEPEnabled else Wlan802_11WEPDisabled) \<and> WPAEnabled c = wpa \<and> WPA2Enabled c = wpa2 \<and>
     AdhocAESEnabled c = aes \<and> column none (CipherNone c) \<and> column priv (Privacy d \<noteq> 0) \<and> column wpa_ie (has_wpa d) \<and> column rsn_ie (has_rsn d))"

text \<open>With a static WEP key the code accepts every network with privacy, also one with WPA elements or while a cipher mode is set.\<close>

definition any_privacy :: "net_cfg \<Rightarrow> BSSDescriptor \<Rightarrow> bool" where
  "any_privacy c d \<longleftrightarrow> WEPStatus c = Wlan802_11WEPEnabled \<and> \<not> WPAEnabled c \<and> \<not> WPA2Enabled c \<and> \<not> AdhocAESEnabled c \<and> Privacy d \<noteq> 0"

lemma security_match_table: "security_match c d \<longleftrightarrow> table_allows c d \<or> any_privacy c d"
  unfolding security_match_def table_allows_def any_privacy_def compat_table_def column_def
  by (cases "WEPStatus c"; cases "WPAEnabled c"; cases "WPA2Enabled c"; cases "AdhocAESEnabled c"; cases "CipherNone c"; simp)

theorem static_wep_beyond_table: "\<exists>c d. security_match c d \<and> has_rsn d \<and> \<not> table_allows c d"
proof -
  let ?c = "\<lparr>nc_connected = False, InfrastructureMode = Wlan802_11Infrastructure, SessionEnable = False, WEPStatus = Wlan802_11WEPEnabled, WPAEnabled = False,
     WPA2Enabled = False, AdhocAESEnabled = False, CipherNone = True\<rparr>"
  let ?d = "zero_bss\<lparr>Privacy := 1, rsnIE := RSN_IE # replicate 255 0\<rparr>"
  have r: "has_rsn ?d" by (simp add: has_rsn_def)
  then have "security_match ?c ?d \<and> has_rsn ?d \<and> \<not> table_allows ?c ?d"
    by (simp add: security_match_def table_allows_def compat_table_def column_def)
  then show ?thesis by blast
qed

definition compatible :: "net_cfg \<Rightarrow> infra \<Rightarrow> BSSDescriptor \<Rightarrow> bool" where
  "compatible c mode d \<longleftrightarrow> mode = Wlan802_11AutoUnknown \<or>
     nc_connected c \<and> InfrastructureMode c = Wlan802_11Infrastructure \<and> bss_mode d = Wlan802_11Infrastructure \<or>
     SessionEnable c \<or> bss_mode d = mode \<and> (table_allows c d \<or> any_privacy c d)"

lemma compatible_eq:
  assumes "i < length tab" and "mode \<noteq> Wlan802_11AutoUnknown"
  shows "\<exists>j. IsNetworkCompatible c tab i mode = Some j \<and> (j \<ge> 0 \<longleftrightarrow> compatible c mode (tab ! i))"
  using assms by (simp add: IsNetworkCompatible_def mem_get_in compatible_def security_match_table [symmetric] ECONNREFUSED_def ENETUNREACH_def)

lemma SSIDcmp_eq:
  assumes "length (Ssid d) = 32" "unat (SsidLength d) \<le> 32" "unat len \<le> 32" "length ssid = 32"
  shows "SSIDcmp d (len, ssid) = Some (net_name d = take (unat len) ssid)"
proof (cases "SsidLength d = len")
  case True
  then show ?thesis using assms by (simp add: SSIDcmp_def mem_sub_def net_name_def)
next
  case False
  then have "length (net_name d) \<noteq> length (take (unat len) ssid)"
    using assms by (simp add: net_name_def unsigned_word_eqI) (metis unsigned_word_eqI)
  then show ?thesis using False by (auto simp: SSIDcmp_def)
qed

definition ssid_step :: "net_cfg \<Rightarrow> BSSDescriptor list \<Rightarrow> u8 list \<Rightarrow> infra \<Rightarrow> nat \<Rightarrow> int \<times> nat \<Rightarrow> int \<times> nat" where
  "ssid_step c tab name mode i = (\<lambda>(net, b).
     if net_name (tab ! i) = name then
       (if compatible c mode (tab ! i) then (if SCAN_RSSI (Rssi (tab ! i)) > b then (int i, SCAN_RSSI (Rssi (tab ! i))) else (net, b))
        else if net = - ENETUNREACH then (the (IsNetworkCompatible c tab i mode), b) else (net, b))
     else (net, b))"

definition searchable :: "BSSDescriptor list \<Rightarrow> nat \<Rightarrow> bool" where
  "searchable tab i \<longleftrightarrow> i < length tab \<and> (ucast (Rssi (tab ! i)) :: u8) \<noteq> 0"

definition ssid_cand :: "net_cfg \<Rightarrow> BSSDescriptor list \<Rightarrow> u8 list \<Rightarrow> infra \<Rightarrow> nat \<Rightarrow> bool" where
  "ssid_cand c tab name mode i \<longleftrightarrow> searchable tab i \<and> net_name (tab ! i) = name \<and> compatible c mode (tab ! i)"

lemma scan_rssi_bounds: "(ucast r :: u8) \<noteq> 0 \<Longrightarrow> 0 < SCAN_RSSI r \<and> SCAN_RSSI r \<le> 255"
proof -
  assume "(ucast r :: u8) \<noteq> 0"
  then have "0 < unat (ucast r :: u8)" by (simp add: unat_gt_0)
  moreover have "unat (ucast r :: u8) < 256" using unsigned_less [of "ucast r :: u8", where ?'a = nat] by simp
  ultimately show ?thesis by (simp add: SCAN_RSSI_def)
qed

lemma ssid_loop_fold:
  assumes "table_ok tab n" "unat len \<le> 32" "length ssid = 32" "\<forall>i \<in> set is. i < n"
  shows "find_ssid_loop c tab (len, ssid) None mode is (net, best) = Some (fst (fold (ssid_step c tab (take (unat len) ssid) mode) is (net, unat best)))"
  using assms(4)
proof (induction "is" arbitrary: net best)
  case (Cons i "is")
  let ?d = "tab ! i" and ?r = "SCAN_RSSI (Rssi (tab ! i))"
  have i: "i < n" "i < length tab" "length (Ssid ?d) = 32" "unat (SsidLength ?d) \<le> 32" "(ucast (Rssi ?d) :: u8) \<noteq> 0"
    using Cons.prems assms(1) by (auto simp: table_ok_def)
  have r: "unat (of_nat ?r :: u8) = ?r" using scan_rssi_bounds [OF i(5)] by (simp add: unat_of_nat)
  have cmp: "SSIDcmp ?d (len, ssid) = Some (net_name ?d = take (unat len) ssid)" using SSIDcmp_eq i assms by simp
  have "\<exists>net' best'. (if net_name ?d = take (unat len) ssid then find_ssid_entry c tab mode i ?d (net, best) else Some (net, best)) = Some (net', best') \<and>
      ssid_step c tab (take (unat len) ssid) mode i (net, unat best) = (net', unat best')"
  proof (cases "mode = Wlan802_11AutoUnknown")
    case True
    then show ?thesis using r by (simp add: find_ssid_entry_def ssid_step_def compatible_def)
  next
    case False
    then obtain j where "IsNetworkCompatible c tab i mode = Some j" "j \<ge> 0 \<longleftrightarrow> compatible c mode ?d" using compatible_eq [OF i(2)] by blast
    then show ?thesis using r False by (simp add: find_ssid_entry_def ssid_step_def)
  qed
  then show ?case using Cons i(2) cmp by (auto simp: mem_get_in)
qed simp

interpretation ssid: strongest_search "ssid_cand c tab name mode" "\<lambda>i. SCAN_RSSI (Rssi (tab ! i))"
  "\<lambda>i nb. if searchable tab i then ssid_step c tab name mode i nb else nb"
proof unfold_locales
  fix i and net :: int and b :: nat
  assume "\<not> ssid_cand c tab name mode i"
  moreover have "the (IsNetworkCompatible c tab i mode) < 0" if "searchable tab i" "\<not> compatible c mode (tab ! i)"
  proof -
    have "i < length tab" "mode \<noteq> Wlan802_11AutoUnknown" using that by (auto simp: searchable_def compatible_def)
    then show ?thesis using compatible_eq [of i tab mode c] that(2) by fastforce
  qed
  ultimately show "snd (if searchable tab i then ssid_step c tab name mode i (net, b) else (net, b)) = b \<and>
    (net \<ge> 0 \<longrightarrow> fst (if searchable tab i then ssid_step c tab name mode i (net, b) else (net, b)) = net) \<and>
    (net < 0 \<longrightarrow> fst (if searchable tab i then ssid_step c tab name mode i (net, b) else (net, b)) < 0)"
    by (auto simp: ssid_cand_def ssid_step_def ENETUNREACH_def)
qed (use scan_rssi_bounds in \<open>auto simp: ssid_cand_def ssid_step_def searchable_def\<close>)

lemma table_searchable: "table_ok tab n \<Longrightarrow> i < n \<Longrightarrow> searchable tab i"
  by (simp add: table_ok_def searchable_def)

text \<open>The search of the best network of the adapter's own mode.\<close>

definition best_step :: "net_cfg \<Rightarrow> BSSDescriptor list \<Rightarrow> nat \<Rightarrow> int \<times> nat \<Rightarrow> int \<times> nat" where
  "best_step c tab i = (\<lambda>(net, b).
     if compatible c (InfrastructureMode c) (tab ! i) \<and> SCAN_RSSI (Rssi (tab ! i)) > b then (int i, SCAN_RSSI (Rssi (tab ! i))) else (net, b))"

definition best_cand :: "net_cfg \<Rightarrow> BSSDescriptor list \<Rightarrow> nat \<Rightarrow> bool" where
  "best_cand c tab i \<longleftrightarrow> searchable tab i \<and> compatible c (InfrastructureMode c) (tab ! i)"

interpretation best: strongest_search "best_cand c tab" "\<lambda>i. SCAN_RSSI (Rssi (tab ! i))"
  "\<lambda>i nb. if searchable tab i then best_step c tab i nb else nb"
  by unfold_locales (use scan_rssi_bounds in \<open>auto simp: best_cand_def best_step_def searchable_def\<close>)

lemma best_loop_fold:
  assumes "table_ok tab n" "\<forall>i \<in> set is. i < n"
  shows "find_best_loop c tab is (net, best) = Some (fst (fold (best_step c tab) is (net, unat best)))"
  using assms(2)
proof (induction "is" arbitrary: net best)
  case (Cons i "is")
  let ?d = "tab ! i" and ?r = "SCAN_RSSI (Rssi (tab ! i))"
  have i: "i < n" "i < length tab" "(ucast (Rssi ?d) :: u8) \<noteq> 0" using Cons.prems assms(1) by (auto simp: table_ok_def)
  have r: "unat (of_nat ?r :: u8) = ?r" using scan_rssi_bounds [OF i(3)] by (simp add: unat_of_nat)
  show ?case
  proof (cases "InfrastructureMode c = Wlan802_11AutoUnknown")
    case True
    then show ?thesis using Cons i r by (simp add: mem_get_in best_step_def compatible_def)
  next
    case False
    then obtain j where "IsNetworkCompatible c tab i (InfrastructureMode c) = Some j" "j \<ge> 0 \<longleftrightarrow> compatible c (InfrastructureMode c) ?d"
      using compatible_eq [OF i(2)] by blast
    then show ?thesis using Cons i r False by (simp add: mem_get_in best_step_def)
  qed
qed simp

lemma fold_guard: "table_ok tab n \<Longrightarrow> fold (\<lambda>i nb. if searchable tab i then f i nb else nb) [0..<n] nb = fold f [0..<n] nb"
  using table_searchable [of tab n] by (intro fold_cong) auto

section \<open>Properties of the searches\<close>

text \<open>C35. The search by name finds the strongest network. An entry counts if it has the name and passes the mode and security
  checks: no mode is asked for, or the driver is roaming, or in a session of WPS, or the mode is the wanted one and the security is that of a row of
  the table in the comment, or a static WEP key is set and the network has privacy, which the code accepts beyond
  the table. When there is such an entry, the result is one with the best signal among them, if its channel is
  allowed, and otherwise the code for unreachable; when there is none, the result is an error. The names fit their
  arrays and no entry of the table has the signal byte 0, whose strength the search cannot hold.\<close>

theorem find_ssid_strongest:
  assumes "table_ok (ScanTable s) n" and "NumInScanTable s = n" and "unat len \<le> 32" and "length ssid = 32"
    and "\<forall>i < n. find_cfp_by_band_and_channel a 0 (ucast (bss_Channel (ScanTable s ! i))) = Some (allowed i)"
    and "cand = (\<lambda>i. i < n \<and> net_name (ScanTable s ! i) = take (unat len) ssid \<and> compatible c mode (ScanTable s ! i))"
  shows "\<exists>r. FindSSIDInList c a s (len, ssid) None mode = Some r \<and>
    (if \<exists>i. cand i
     then \<exists>k. cand k \<and> (\<forall>i. cand i \<longrightarrow> SCAN_RSSI (Rssi (ScanTable s ! i)) \<le> SCAN_RSSI (Rssi (ScanTable s ! k))) \<and>
       r = (if allowed k = None then - ENETUNREACH else int k)
     else r < 0)"
proof -
  let ?T = "ScanTable s" and ?name = "take (unat len) ssid"
  let ?net = "fst (fold (ssid_step c ?T ?name mode) [0..<n] (- ENETUNREACH, 0))"
  have loop: "find_ssid_loop c ?T (len, ssid) None mode [0..<n] (- ENETUNREACH, 0) = Some ?net"
    using ssid_loop_fold [OF assms(1,3,4), of "[0..<n]" c mode "- ENETUNREACH" 0] by simp
  have neg: "- ENETUNREACH < 0" by (simp add: ENETUNREACH_def)
  have res: "if \<exists>i < n. ssid_cand c ?T ?name mode i
      then \<exists>k < n. ssid_cand c ?T ?name mode k \<and> ?net = int k \<and> (\<forall>i < n. ssid_cand c ?T ?name mode i \<longrightarrow> SCAN_RSSI (Rssi (?T ! i)) \<le> SCAN_RSSI (Rssi (?T ! k)))
      else ?net < 0"
    using ssid.fold_result [OF neg, of n c ?T ?name mode] unfolding fold_guard [OF assms(1)] .
  have cand: "i < n \<and> ssid_cand c ?T ?name mode i \<longleftrightarrow> cand i" for i
    using table_searchable [OF assms(1)] by (auto simp: ssid_cand_def assms(6))
  have get: "mem_get ?T k = Some (?T ! k)" if "k < n" for k using that assms(1) by (auto simp: table_ok_def mem_get_in)
  show ?thesis
  proof (cases "\<exists>i. cand i")
    case True
    then have "\<exists>i < n. ssid_cand c ?T ?name mode i" using cand by blast
    then obtain k where k: "k < n" "cand k" "?net = int k" "\<forall>i. cand i \<longrightarrow> SCAN_RSSI (Rssi (?T ! i)) \<le> SCAN_RSSI (Rssi (?T ! k))"
      using res cand by auto
    then have "FindSSIDInList c a s (len, ssid) None mode = Some (if allowed k = None then - ENETUNREACH else int k)"
      using loop assms(2,5) get by (simp add: FindSSIDInList_def check_channel_def)
    then show ?thesis using True k by auto
  next
    case False
    then have "\<not> (\<exists>i < n. ssid_cand c ?T ?name mode i)" using cand by blast
    then have "?net < 0" using res by simp
    then show ?thesis using False loop assms(2) by (simp add: FindSSIDInList_def check_channel_def)
  qed
qed

definition sample_net :: "u32 \<Rightarrow> BSSDescriptor" where
  "sample_net rssi = zero_bss\<lparr>SsidLength := 1, Ssid := 65 # replicate 31 0, Rssi := rssi, bss_Channel := 6, bss_mode := Wlan802_11Infrastructure\<rparr>"

definition sample_nets :: scan_dev where
  "sample_nets = \<lparr>ScanTable = sample_net 60 # sample_net 40 # replicate 62 zero_bss, NumInScanTable = 2,
     beaconBuffer = replicate 6000 0, pBeaconBufEnd = 0\<rparr>"

definition sample_open :: net_cfg where
  "sample_open = \<lparr>nc_connected = False, InfrastructureMode = Wlan802_11Infrastructure, SessionEnable = False, WEPStatus = Wlan802_11WEPDisabled, WPAEnabled = False,
     WPA2Enabled = False, AdhocAESEnabled = False, CipherNone = True\<rparr>"

theorem find_ssid_strongest_witness:
  "\<exists>a. FindSSIDInList sample_open a sample_nets (1, 65 # replicate 31 0) None Wlan802_11Infrastructure = Some 1"
proof -
  let ?rc = "\<lparr>Valid = True, Region = 0x10, Band = 0, NrCFP = 1, CFP = Some [cfp 6 2437 20]\<rparr>"
  define a :: adapter_11d where "a = \<lparr>Enable11D = False, MediaConnected = False, region_channel = [?rc, zero_region_channel], universal_channel = [],
    DomainReg = undefined, parsed_region_chan = undefined, CountryInfo = undefined, ScanType = 0, PassiveScanTime = 0,
    ActiveScanTime = 0, SpecificScanTime = 0, sent_cmds = []\<rparr>"
  let ?T = "ScanTable sample_nets"
  have T: "?T ! 0 = sample_net 60" "?T ! 1 = sample_net 40" "length ?T = 64" "NumInScanTable sample_nets = 2"
    by (simp_all add: sample_nets_def)
  have ok: "table_ok ?T 2" using T by (auto simp: table_ok_def less_2_cases_iff sample_net_def)
  have ch: "\<forall>i < 2. find_cfp_by_band_and_channel a 0 (ucast (bss_Channel (?T ! i))) = Some (Some (cfp 6 2437 20))"
    using T by (auto simp: less_2_cases_iff sample_net_def find_cfp_by_band_and_channel_def a_def cfp_def mem_get_def FIRST_VALID_CHANNEL_def)
  have c: "net_name (?T ! i) = [65] \<and> compatible sample_open Wlan802_11Infrastructure (?T ! i)" if "i < 2" for i
    using that T by (auto simp: less_2_cases_iff sample_net_def net_name_def compatible_def sample_open_def security_match_table [symmetric] security_match_def has_wpa_def has_rsn_def
        zero_bss_def IEEE_MAX_IE_SIZE_def elem_ids)
  have r: "SCAN_RSSI (Rssi (?T ! 0)) = 196" "SCAN_RSSI (Rssi (?T ! 1)) = 216" using T by (simp_all add: sample_net_def SCAN_RSSI_def)
  let ?cand = "\<lambda>i. i < 2 \<and> net_name (?T ! i) = take (unat (1 :: u32)) (65 # replicate 31 0) \<and> compatible sample_open Wlan802_11Infrastructure (?T ! i)"
  have cd: "?cand i \<longleftrightarrow> i < 2" for i using c by auto
  have "\<exists>i. ?cand i" unfolding cd by (intro exI [of _ 0]) simp
  then obtain k r where k: "?cand k" "\<forall>i. ?cand i \<longrightarrow> SCAN_RSSI (Rssi (?T ! i)) \<le> SCAN_RSSI (Rssi (?T ! k))"
    and f: "FindSSIDInList sample_open a sample_nets (1, 65 # replicate 31 0) None Wlan802_11Infrastructure = Some r"
      "r = (if Some (cfp 6 2437 20) = None then - ENETUNREACH else int k)"
    using find_ssid_strongest [OF ok T(4) _ _ ch refl, of 1 "65 # replicate 31 0" sample_open Wlan802_11Infrastructure] by auto
  have "SCAN_RSSI (Rssi (?T ! 1)) \<le> SCAN_RSSI (Rssi (?T ! k))" using k(2) cd by simp
  then have "k = 1" using k(1) cd r by (cases "k = 0") auto
  then show ?thesis using f by auto
qed

section \<open>Reading a fresh scan\<close>

definition bc_name :: "beacon \<Rightarrow> u8 list" where
  "bc_name bc = (case last_elem (bc_elems bc) ELEM_SSID of None \<Rightarrow> [] | Some b \<Rightarrow> b)"

text \<open>An entry of the table that describes a beacon.\<close>

definition entry_is :: "BSSDescriptor \<Rightarrow> beacon \<Rightarrow> bool" where
  "entry_is d bc \<longleftrightarrow> MacAddress d = bc_mac bc \<and> net_name d = bc_name bc \<and> Rssi d = ucast (bc_rssi bc) \<and>
     bss_Channel d = (case last_elem (bc_elems bc) DS_PARAM_SET of None \<Rightarrow> 0 | Some b \<Rightarrow> ucast (b ! 0)) \<and>
     length (Ssid d) = 32 \<and> unat (SsidLength d) \<le> 32"

lemma last_elem_in: "last_elem es i = Some b \<Longrightarrow> (i, b) \<in> set es"
  unfolding last_elem_def by (metis map_of_SomeD set_rev)

lemma fold_wf: "\<forall>e \<in> set es. wf_elem e \<Longrightarrow> wf_ie s \<Longrightarrow> wf_ie (fold elem_apply es s)"
proof (induction es arbitrary: s)
  case (Cons e es)
  then have "wf_ie (elem_apply e s)" by (intro elem_apply_wf) simp_all
  then show ?case using Cons by simp
qed simp

lemma parsed_beacon:
  assumes "wf_beacon bc" and "resp = pre @ beacon_bytes bc @ post"
  shows "\<exists>d. InterpretBSSDescriptionWithIE resp zero_bss (length pre) (beacon_size bc + 2 + k) = Some (0, d, length pre + beacon_size bc + 2, k) \<and>
    entry_is d bc \<and> pBeaconBuf d = InResp (length pre + 9) \<and> beaconBufSize d = length (beacon_body bc) \<and>
    mem_sub resp (length pre + 9) (length (beacon_body bc)) = Some (beacon_body bc)"
proof -
  let ?s = "(0, False, fixed_bss bc (length pre)) :: ie_state"
  let ?f = "fold elem_apply (bc_elems bc) ?s"
  have wf: "\<forall>e \<in> set (bc_elems bc). wf_elem e" "length (bc_mac bc) = 6" using assms(1) by (simp_all add: wf_beacon_def wf_frame_def)
  have "wf_ie ?f" by (rule fold_wf [OF wf(1) wf_fixed_bss])
  then have w: "wf_bss (bss_of ?f)" by (cases ?f) (simp add: wf_ie_def bss_of_def)
  have fx: "bss_of ?s = fixed_bss bc (length pre)" by (simp add: bss_of_def)
  have z: "SsidLength (fixed_bss bc (length pre)) = 0" "bss_Channel (fixed_bss bc (length pre)) = 0" by (simp_all add: fixed_bss_def zero_bss_def)
  have name: "net_name (bss_of ?f) = bc_name bc \<and> unat (SsidLength (bss_of ?f)) \<le> 32"
  proof (cases "last_elem (bc_elems bc) ELEM_SSID")
    case None
    then show ?thesis using fold_ssid [of "bc_elems bc" ?s] fx z by (simp add: net_name_def bc_name_def)
  next
    case (Some b)
    then have "length b \<le> 32" using last_elem_in wf(1) by (fastforce simp: wf_elem_def)
    then show ?thesis using Some fold_ssid [of "bc_elems bc" ?s] by (simp add: net_name_def bc_name_def unat_of_nat)
  qed
  have ch: "bss_Channel (bss_of ?f) = (case last_elem (bc_elems bc) DS_PARAM_SET of None \<Rightarrow> 0 | Some b \<Rightarrow> ucast (b ! 0))"
    using fold_channel [of "bc_elems bc" ?s] by (simp only: fx z)
  have "MacAddress (bss_of ?f) = bc_mac bc" "Rssi (bss_of ?f) = ucast (bc_rssi bc)"
    using fold_fixed [of "bc_elems bc" ?s] fx by (simp_all add: fixed_bss_def)
  then have "entry_is (bss_of ?f) bc" using name w ch by (simp add: entry_is_def wf_bss_def)
  moreover have "pBeaconBuf (bss_of ?f) = InResp (length pre + 9)" "beaconBufSize (bss_of ?f) = length (beacon_body bc)"
    using fold_fixed [of "bc_elems bc" ?s] fx by (simp_all add: fixed_bss_def)
  moreover have "mem_sub resp (length pre + 9) (length (beacon_body bc)) = Some (beacon_body bc)"
    using wf(2) assms(2) by (simp add: mem_sub_def beacon_bytes_def le16_of_def)
  ultimately show ?thesis using interpret_beacon [OF assms, of k] by blast
qed

lemma same_bss_eq:
  assumes "length (Ssid new) = 32" "unat (SsidLength new) \<le> 32" "length (Ssid d) = 32" "unat (SsidLength d) \<le> 32"
  shows "same_bss new d = Some (MacAddress new = MacAddress d \<and> net_name new = net_name d)"
proof (cases "SsidLength new = SsidLength d")
  case True
  then show ?thesis using assms by (simp add: same_bss_def mem_sub_def net_name_def)
next
  case False
  then have "unat (SsidLength new) \<noteq> unat (SsidLength d)" using unsigned_word_eqI by blast
  then have "length (net_name new) \<noteq> length (net_name d)" using assms by (simp add: net_name_def)
  then show ?thesis using False by (auto simp: same_bss_def)
qed

lemma find_dup_none:
  "i + k \<le> length tab \<Longrightarrow> \<forall>j < k. same_bss new (tab ! (i + j)) = Some False \<Longrightarrow> find_dup new tab i k = Some (i + k)"
proof (induction k arbitrary: i)
  case (Suc k)
  have "\<forall>j < k. same_bss new (tab ! (i + 1 + j)) = Some False"
    using Suc.prems(2) by (metis Suc_less_eq add_Suc_right add_Suc_shift Suc_eq_plus1)
  then have "find_dup new tab (i + 1) k = Some (i + 1 + k)" using Suc.prems(1) by (intro Suc.IH) simp_all
  moreover have "same_bss new (tab ! i) = Some False" using Suc.prems(2) by (metis add_0_right zero_less_Suc)
  ultimately show ?case using Suc.prems(1) by (simp add: mem_get_in)
qed simp

text \<open>The table after some beacons of a fresh scan, with the storage.\<close>

definition table_is :: "beacon list \<Rightarrow> scan_dev \<Rightarrow> bool" where
  "table_is bs s \<longleftrightarrow> bcn_ok (length bs) s \<and> (\<forall>i < length bs. entry_is (ScanTable s ! i) (bs ! i)) \<and>
     (\<forall>i. length bs \<le> i \<longrightarrow> i < 64 \<longrightarrow> ScanTable s ! i = zero_bss)"

definition room :: "beacon list \<Rightarrow> nat" where
  "room bs = sum_list (map (\<lambda>b. length (beacon_body b) + 6) bs)"

definition all_stored :: "beacon list \<Rightarrow> scan_dev \<Rightarrow> bool" where
  "all_stored bs s \<longleftrightarrow> pBeaconBufEnd s = room bs \<and> (\<forall>i < length bs. stored s (ScanTable s ! i) = Some (beacon_body (bs ! i)))"

lemma append_effect:
  assumes "append_beacon resp new s = Some (new', t)"
  shows "ScanTable t = ScanTable s \<and>
    pBeaconBufEnd t = (if pBeaconBufEnd s + beaconBufSize new + 6 < 6000 then pBeaconBufEnd s + (beaconBufSize new + 6) else pBeaconBufEnd s)"
  using assms
  by (auto simp: append_beacon_def Let_def bind_eq_Some_conv SCAN_BEACON_ENTRY_PAD_def MAX_SCAN_BEACON_BUFFER_def split: if_splits)

lemma bcn_ok_grow:
  assumes "bcn_ok n s" "n < 64" "ScanTable s ! n = zero_bss"
  shows "bcn_ok (n + 1) s"
proof -
  have z: "entry_ok (pBeaconBufEnd s) zero_bss" "apart zero_bss e" "apart e zero_bss" for e
    by (simp_all add: entry_ok_def apart_def zero_bss_def)
  show ?thesis
    unfolding bcn_ok_def
  proof (intro conjI allI impI)
    fix i assume "i < n + 1"
    then show "entry_ok (pBeaconBufEnd s) (ScanTable s ! i)" using assms z by (cases "i = n") (simp_all add: bcn_ok_def)
  next
    fix i j assume "i < n + 1" "j < n + 1" "i \<noteq> j"
    then show "apart (ScanTable s ! i) (ScanTable s ! j)" using assms z by (cases "i = n"; cases "j = n") (simp_all add: bcn_ok_def)
  qed (use assms in \<open>simp_all add: bcn_ok_def MRVDRV_MAX_BSSID_LIST_def\<close>)
qed

definition bkey :: "beacon \<Rightarrow> u8 list \<times> u8 list" where
  "bkey bc = (bc_mac bc, bc_name bc)"

lemma insert_fresh:
  assumes "table_is bs s" "length bs < 64" "entry_is d bc" "bkey bc \<notin> bkey ` set bs"
    and "pBeaconBuf d = InResp off" "beaconBufSize d = length (beacon_body bc)" "mem_sub resp off (length (beacon_body bc)) = Some (beacon_body bc)"
    and "beacon_body bc \<noteq> []"
  shows "\<exists>t. scan_insert resp None idx d (length bs) s = Some (length bs + 1, t) \<and> table_is (bs @ [bc]) t \<and>
    (all_stored bs s \<longrightarrow> room (bs @ [bc]) < 6000 \<longrightarrow> all_stored (bs @ [bc]) t)"
proof -
  let ?n = "length bs" and ?T = "ScanTable s"
  have ti: "bcn_ok ?n s" "\<And>i. i < ?n \<Longrightarrow> entry_is (?T ! i) (bs ! i)" "\<And>i. ?n \<le> i \<Longrightarrow> i < 64 \<Longrightarrow> ?T ! i = zero_bss"
    using assms(1) by (simp_all add: table_is_def)
  have len: "length ?T = 64" using ti(1) by (simp add: bcn_ok_def MRVDRV_MAX_BSSID_LIST_def)
  have old: "?T ! ?n = zero_bss" "mem_get ?T ?n = Some zero_bss" "pBeaconBuf (?T ! ?n) = Null" "pBeaconBuf zero_bss = Null"
    using ti(3) [of ?n] assms(2) len by (simp_all add: mem_get_in zero_bss_def)
  have ne: "same_bss d (?T ! i) = Some False" if "i < ?n" for i
  proof -
    have "bkey (bs ! i) \<noteq> bkey bc" using that assms(4) by (metis image_eqI nth_mem)
    then have "\<not> (MacAddress d = MacAddress (?T ! i) \<and> net_name d = net_name (?T ! i))"
      using ti(2) [OF that] assms(3) by (auto simp: entry_is_def bkey_def)
    then show ?thesis using same_bss_eq [of d "?T ! i"] ti(2) [OF that] assms(3) by (simp add: entry_is_def)
  qed
  have dup: "find_dup d ?T 0 ?n = Some ?n" using find_dup_none [of 0 ?n ?T d] ne assms(2) len by simp
  have nb: "new_bytes resp d = Some (beacon_body bc)" "length (beacon_body bc) = beaconBufSize d" "0 < beaconBufSize d"
    using assms(5-8) by (simp_all add: new_bytes_def)
  let ?fits = "pBeaconBufEnd s + beaconBufSize d + 6 < 6000"
  obtain d' t where t: "append_beacon resp d s = Some (d', t)" "store_result (?n + 1) ?n s d (if ?fits then Some (beacon_body bc) else None) d' t"
    using append_beacon_ok [OF bcn_ok_grow [OF ti(1) assms(2) old(1)] _ old(3) nb refl] by auto
  have st: "wlan_ret_802_11_scan_store_beacon resp ?n (?n + 1) d s = Some (d', t)"
    using t(1) old by (simp add: wlan_ret_802_11_scan_store_beacon_def)
  have eff: "ScanTable t = ?T" "pBeaconBufEnd t = (if ?fits then pBeaconBufEnd s + (beaconBufSize d + 6) else pBeaconBufEnd s)"
    using append_effect [OF t(1)] by simp_all
  let ?u = "set_entry ?n d' t"
  have ins: "scan_insert resp None idx d ?n s = Some (?n + 1, ?u)"
    using dup st assms(2) len eff(1) by (simp add: scan_insert_def MRVDRV_MAX_BSSID_LIST_def mem_put_in set_entry_def)
  have r: "bcn_ok (?n + 1) ?u" "stored ?u d' = (if ?fits then Some (beacon_body bc) else None)"
    "\<And>j. j < ?n \<Longrightarrow> stored ?u (ScanTable ?u ! j) = stored s (?T ! j)" "\<exists>a b c. d' = d\<lparr>pBeaconBuf := a, beaconBufSize := b, beaconBufSizeMax := c\<rparr>"
    using t(2) by (auto simp: store_result_def)
  have new: "entry_is d' bc" using r(4) assms(3) by (auto simp: entry_is_def net_name_def)
  have U: "ScanTable ?u ! i = (if i = ?n then d' else ?T ! i)" for i using len assms(2) eff(1) by (simp add: set_entry_def)
  have "table_is (bs @ [bc]) ?u"
    unfolding table_is_def
  proof (intro conjI allI impI)
    fix i assume "i < length (bs @ [bc])"
    then show "entry_is (ScanTable ?u ! i) ((bs @ [bc]) ! i)" using new ti(2) by (simp add: U nth_append)
  qed (use r(1) ti(3) in \<open>simp_all add: U\<close>)
  moreover have "all_stored (bs @ [bc]) ?u" if "all_stored bs s" "room (bs @ [bc]) < 6000"
  proof -
    have "pBeaconBufEnd s = room bs" using that(1) by (simp add: all_stored_def)
    then have f: ?fits "pBeaconBufEnd ?u = room (bs @ [bc])" using that(2) assms(6) eff(2) by (simp_all add: room_def set_entry_def)
    have "stored ?u (ScanTable ?u ! i) = Some (beacon_body ((bs @ [bc]) ! i))" if "i < length (bs @ [bc])" for i
    proof (cases "i = ?n")
      case True
      then show ?thesis using r(2) f(1) by (simp add: U nth_append)
    next
      case False
      then have "i < ?n" using that by simp
      then show ?thesis using r(3) [of i] \<open>all_stored bs s\<close> by (simp add: all_stored_def nth_append)
    qed
    then show ?thesis using f(2) by (simp add: all_stored_def)
  qed
  ultimately show ?thesis using ins by blast
qed

lemma beacon_body_ne: "wf_beacon bc \<Longrightarrow> beacon_body bc \<noteq> []"
  by (auto simp: wf_beacon_def wf_frame_def beacon_body_def le16_of_def)

lemma scan_loop_fresh:
  assumes "table_is done s" "\<forall>b \<in> set bs. wf_beacon b" "distinct (map bkey (done @ bs))" "length (done @ bs) \<le> 64"
    and "resp = pre @ concat (map beacon_bytes bs) @ post"
  shows "\<exists>t. scan_loop resp None idx (length bs) (length pre) (length (concat (map beacon_bytes bs))) (length done) s = Some (length (done @ bs), t) \<and>
    table_is (done @ bs) t \<and> (all_stored done s \<longrightarrow> room (done @ bs) < 6000 \<longrightarrow> all_stored (done @ bs) t)"
  using assms
proof (induction bs arbitrary: "done" s pre idx)
  case (Cons bc bs)
  let ?rest = "length (concat (map beacon_bytes bs))"
  have wf: "wf_beacon bc" "wf_frame bc" using Cons.prems(2) by (simp_all add: wf_beacon_def)
  have r1: "resp = pre @ beacon_bytes bc @ (concat (map beacon_bytes bs) @ post)" using Cons.prems(5) by simp
  have len: "length (concat (map beacon_bytes (bc # bs))) = beacon_size bc + 2 + ?rest" using length_beacon_bytes [OF wf(2)] by simp
  obtain d where d: "InterpretBSSDescriptionWithIE resp zero_bss (length pre) (beacon_size bc + 2 + ?rest) = Some (0, d, length pre + beacon_size bc + 2, ?rest)"
    "entry_is d bc" "pBeaconBuf d = InResp (length pre + 9)" "beaconBufSize d = length (beacon_body bc)"
    "mem_sub resp (length pre + 9) (length (beacon_body bc)) = Some (beacon_body bc)"
    using parsed_beacon [OF wf(1) r1, of ?rest] by blast
  have "bkey bc \<notin> bkey ` set done" "length done < 64" using Cons.prems(3,4) by auto
  from insert_fresh [OF Cons.prems(1) this(2) d(2) this(1) d(3-5) beacon_body_ne [OF wf(1)], of idx] obtain t where
    t: "scan_insert resp None idx d (length done) s = Some (length done + 1, t)" "table_is (done @ [bc]) t"
      "all_stored done s \<longrightarrow> room (done @ [bc]) < 6000 \<longrightarrow> all_stored (done @ [bc]) t" by blast
  have pre': "length pre + beacon_size bc + 2 = length (pre @ beacon_bytes bc)" using length_beacon_bytes [OF wf(2)] by simp
  have "\<exists>u. scan_loop resp None (idx + 1) (length bs) (length (pre @ beacon_bytes bc)) ?rest (length (done @ [bc])) t = Some (length ((done @ [bc]) @ bs), u) \<and>
      table_is ((done @ [bc]) @ bs) u \<and> (all_stored (done @ [bc]) t \<longrightarrow> room ((done @ [bc]) @ bs) < 6000 \<longrightarrow> all_stored ((done @ [bc]) @ bs) u)"
    using Cons.prems t(2) by (intro Cons.IH) auto
  then obtain u where u: "scan_loop resp None (idx + 1) (length bs) (length (pre @ beacon_bytes bc)) ?rest (length done + 1) t = Some (length (done @ bc # bs), u)"
    "table_is (done @ bc # bs) u" "all_stored (done @ [bc]) t \<longrightarrow> room (done @ bc # bs) < 6000 \<longrightarrow> all_stored (done @ bc # bs) u" by auto
  have "scan_loop resp None idx (length (bc # bs)) (length pre) (length (concat (map beacon_bytes (bc # bs)))) (length done) s =
      scan_loop resp None (idx + 1) (length bs) (length (pre @ beacon_bytes bc)) ?rest (length done + 1) t"
    unfolding len pre' [symmetric] using d(1) t(1) by simp
  moreover have "room (done @ bc # bs) < 6000 \<longrightarrow> room (done @ [bc]) < 6000" by (simp add: room_def)
  ultimately show ?case using u t(3) by auto
qed simp

definition fresh_table :: "scan_dev \<Rightarrow> bool" where
  "fresh_table s \<longleftrightarrow> ScanTable s = replicate MRVDRV_MAX_BSSID_LIST zero_bss \<and> NumInScanTable s = 0 \<and>
     length (beaconBuffer s) = MAX_SCAN_BEACON_BUFFER \<and> pBeaconBufEnd s = 0"

lemma fresh_table_is: "fresh_table s \<Longrightarrow> table_is [] s \<and> all_stored [] s"
  by (simp add: fresh_table_def table_is_def all_stored_def room_def bcn_ok_def MRVDRV_MAX_BSSID_LIST_def)

definition scan_response :: "beacon list \<Rightarrow> u8 list" where
  "scan_response bs = le16_of (of_nat (length (concat (map beacon_bytes bs)))) @ of_nat (length bs) # concat (map beacon_bytes bs)"

lemma get_tlv_ptrs_none: "wlan_ret_802_11_scan_get_tlv_ptrs resp pos 0 tsf = Some tsf"
  by (subst wlan_ret_802_11_scan_get_tlv_ptrs.simps) simp

lemma scan_response_header:
  assumes "length bs \<le> 64" "length (scan_response bs) < 65528" "rest = concat (map beacon_bytes bs)"
  shows "mem_get (scan_response bs) 2 = Some (of_nat (length bs))"
    and "mem_get (scan_response bs) 0 = Some (ucast (of_nat (length rest) :: u16))"
    and "mem_get (scan_response bs) 1 = Some (ucast (drop_bit 8 (of_nat (length rest) :: u16)))"
    and "unat (of_nat (length bs) :: u8) = length bs"
    and "unat (of_nat (length rest) :: u16) = length rest"
    and "(ucast (of_nat (8 + length (scan_response bs)) :: u16) :: u32) = of_nat (length rest) + 2 + 1 + 8"
proof -
  have l: "length (scan_response bs) = 3 + length rest" by (simp add: scan_response_def le16_of_def assms(3))
  show "unat (of_nat (length rest) :: u16) = length rest" using assms(2) l by (simp add: unat_of_nat)
  show "(ucast (of_nat (8 + length (scan_response bs)) :: u16) :: u32) = of_nat (length rest) + 2 + 1 + 8"
    using assms(2) l by (intro unsigned_word_eqI [where ?'a = nat]) (simp add: unat_of_nat unsigned_ucast_eq unat_word_ariths take_bit_nat_eq_self)
qed (use assms in \<open>simp_all add: mem_get_def scan_response_def le16_of_def unat_of_nat\<close>)

lemma scan_more:
  assumes "table_is done s" and "NumInScanTable s = length done" and "\<forall>b \<in> set bs. wf_beacon b" and "distinct (map bkey (done @ bs))"
    and "length (done @ bs) \<le> 64" and "length (scan_response bs) < 65528"
  shows "\<exists>t. wlan_ret_802_11_scan (scan_response bs) (of_nat (8 + length (scan_response bs))) s = Some (0, t) \<and>
    NumInScanTable t = length (done @ bs) \<and> table_is (done @ bs) t \<and> (all_stored done s \<longrightarrow> room (done @ bs) < 6000 \<longrightarrow> all_stored (done @ bs) t)"
proof -
  let ?r = "scan_response bs" and ?rest = "concat (map beacon_bytes bs)" and ?all = "done @ bs"
  let ?pre = "le16_of (of_nat (length ?rest)) @ [of_nat (length bs)] :: u8 list"
  have r: "?r = ?pre @ ?rest @ []" "length ?pre = 3" by (simp_all add: scan_response_def le16_of_def)
  have n: "length bs \<le> 64" using assms(5) by simp
  note h = scan_response_header [OF n assms(6) refl]
  obtain t where t: "scan_loop ?r None 0 (length bs) 3 (length ?rest) (NumInScanTable s) s = Some (length ?all, t)"
    "table_is ?all t" "all_stored done s \<longrightarrow> room ?all < 6000 \<longrightarrow> all_stored ?all t"
    using scan_loop_fresh [OF assms(1,3-5) r(1), of 0] unfolding assms(2) r(2) by blast
  have "wlan_ret_802_11_scan ?r (of_nat (8 + length ?r)) s = Some (0, t\<lparr>NumInScanTable := length ?all\<rparr>)"
    unfolding wlan_ret_802_11_scan_def h(1-3) Option.bind.simps Let_def h(4) h(6) le16_to_of h(5)
    using t(1) n by (simp add: get_tlv_ptrs_none MRVDRV_MAX_BSSID_LIST_def)
  moreover have "stored (t\<lparr>NumInScanTable := k\<rparr>) d = stored t d" for k d by (rule stored_cong) simp
  moreover have "table_is ?all (t\<lparr>NumInScanTable := length ?all\<rparr>)" using t(2) by (simp add: table_is_def bcn_ok_def)
  ultimately show ?thesis using t(3) by (intro exI [of _ "t\<lparr>NumInScanTable := length ?all\<rparr>"]) (simp add: all_stored_def)
qed

text \<open>A fresh scan fills the table with what the firmware reported: for any response of at most 64 well-formed
  and different networks the handler returns success without leaving an array, the table has one
  entry per network in the order of the response with its address, name, signal and channel, the beacon
  regions are in order and disjoint, and if they fit into the buffer every beacon is kept byte for byte.\<close>

theorem scan_fresh:
  assumes "fresh_table s" and "\<forall>b \<in> set bs. wf_beacon b" and "distinct (map bkey bs)" and "length bs \<le> 64"
    and "length (scan_response bs) < 65528"
  shows "\<exists>t. wlan_ret_802_11_scan (scan_response bs) (of_nat (8 + length (scan_response bs))) s = Some (0, t) \<and>
    NumInScanTable t = length bs \<and> bcn_ok (length bs) t \<and> (\<forall>i < length bs. entry_is (ScanTable t ! i) (bs ! i)) \<and>
    (room bs < 6000 \<longrightarrow> (\<forall>i < length bs. stored t (ScanTable t ! i) = Some (beacon_body (bs ! i))))"
proof -
  have "table_is [] s" "all_stored [] s" "NumInScanTable s = length ([] :: beacon list)" using fresh_table_is [OF assms(1)] assms(1) by (simp_all add: fresh_table_def)
  then show ?thesis using scan_more [of "[]" s bs] assms(2-5) by (auto simp: table_is_def all_stored_def)
qed

definition sample_fresh :: scan_dev where
  "sample_fresh = \<lparr>ScanTable = replicate 64 zero_bss, NumInScanTable = 0, beaconBuffer = replicate 6000 0, pBeaconBufEnd = 0\<rparr>"

theorem scan_fresh_witness:
  "\<exists>t. wlan_ret_802_11_scan (scan_response [sample_beacon]) (of_nat (8 + length (scan_response [sample_beacon]))) sample_fresh = Some (0, t) \<and>
     NumInScanTable t = 1 \<and> bss_Channel (ScanTable t ! 0) = 6 \<and> stored t (ScanTable t ! 0) = Some (beacon_body sample_beacon)"
proof -
  have f: "fresh_table sample_fresh" by (simp add: fresh_table_def sample_fresh_def MRVDRV_MAX_BSSID_LIST_def MAX_SCAN_BEACON_BUFFER_def)
  have b: "length (beacon_body sample_beacon) = 30" by (simp add: beacon_body_def sample_beacon_def le16_of_def elem_bytes_def)
  have r: "length (scan_response [sample_beacon]) = 42" "room [sample_beacon] = 36"
    using b by (simp_all add: scan_response_def le16_of_def beacon_bytes_def room_def) (simp add: sample_beacon_def)
  have c: "last_elem (bc_elems sample_beacon) DS_PARAM_SET = Some [6]" by (simp add: sample_beacon_def last_elem_def elem_ids)
  show ?thesis
    using scan_fresh [OF f, of "[sample_beacon]"] sample_beacon_wf r c by (auto simp: entry_is_def)
qed

end
