(* ===== verification/WlanCmd.thy ===== *)
theory WlanCmd
  imports WlanTx
begin

text \<open>
  Commands to the firmware and power management of the wireless driver: the ten command buffers and their
  queues, the sending of a command and the handling of its response and of a timeout, from
  \<^verbatim>\<open>wlan_cmd.c\<close> and \<^verbatim>\<open>wlan_cmdresp.c\<close>, and of the
  interrupt handler of \<^verbatim>\<open>wlan_main.c\<close>. A command buffer is identified by its
  index in \<open>CmdArray\<close>. The debug counters of the adapter are left out, and so are the calls that only
  set the clock of the bus, which are empty in \<^verbatim>\<open>if_sdio.c\<close>.
\<close>

section \<open>State\<close>

text \<open>The header of a command in host order, and its body.\<close>

record HostCmd =
  c_Command :: u16
  c_Size :: u16
  c_SeqNum :: u16
  c_Result :: u16
  c_params :: "u8 list"

definition MRVDRV_NUM_OF_CMD_BUFFER :: nat where "MRVDRV_NUM_OF_CMD_BUFFER = 10"
definition MRVDRV_SIZE_OF_CMD_BUFFER :: nat where "MRVDRV_SIZE_OF_CMD_BUFFER = 2048"

definition zero_cmd :: HostCmd where
  "zero_cmd = \<lparr>c_Command = 0, c_Size = 0, c_SeqNum = 0, c_Result = 0, c_params = replicate (MRVDRV_SIZE_OF_CMD_BUFFER - 8) 0\<rparr>"

definition cmd_bytes :: "HostCmd \<Rightarrow> u8 list" where
  "cmd_bytes c = le16_of (c_Command c) @ le16_of (c_Size c) @ le16_of (c_SeqNum c) @ le16_of (c_Result c) @ c_params c"

definition cmd_of_bytes :: "u8 list \<Rightarrow> HostCmd" where
  "cmd_of_bytes b = \<lparr>c_Command = le16_to (b ! 0) (b ! 1), c_Size = le16_to (b ! 2) (b ! 3), c_SeqNum = le16_to (b ! 4) (b ! 5),
     c_Result = le16_to (b ! 6) (b ! 7), c_params = drop 8 b\<rparr>"

text \<open>The pointer of a node to the data of its caller is left out: the responses that are stored there are in other
  parts of the driver, except those to a command of the user, which are collected in \<open>host_replies\<close>.\<close>

record CmdCtrlNode =
  cmd_oid :: u32
  wait_option :: u16
  BufVirtualAddr :: "HostCmd option"
  CmdFlags :: u16
  CmdWaitQWoken :: bool

record cmdq =
  CmdArray :: "CmdCtrlNode list"
  CmdFreeQ :: "nat list"
  CmdPendingQ :: "nat list"
  CurCmd :: "nat option"

text \<open>\<open>PSMode_CAM\<close> is \<open>PSMode == Wlan802_11PowerModeCAM\<close>, \<open>IBSS\<close> is an ad-hoc network, and
  \<open>WPA\<close> one of the two WPA flags of \<open>SecInfo\<close>.\<close>

record cmddev =
  d_q :: cmdq
  d_tx :: txdev
  SeqNum :: u16
  CurCmdRetCode :: int
  CommandTimerIsSet :: bool
  num_cmd_timeout :: u32
  IntCounter :: u32
  IntCounterSaved :: u32
  PSMode_CAM :: bool
  NeedToWakeup :: bool
  NullPktInterval :: u16
  MultipleDtim :: u16
  BCNMissTimeOut :: u16
  LocalListenInterval :: u16
  AdhocAwakePeriod :: u16
  PSConfirmSleep_cmd :: "u8 list"
  IBSS :: bool
  cur_ATIMWindow :: u32
  WPA :: bool
  IsGTK_SET :: bool
  IsDeepSleep :: bool
  IsAutoDeepSleepEnabled :: bool
  bWakeupDevRequired :: bool
  WakeupTries :: u32
  bHostSleepConfigured :: bool
  HSCfg_gap :: u8
  HS_Activated :: bool
  EventCause :: u32
  host_replies :: "u8 list list"

abbreviation d_ps :: "cmddev \<Rightarrow> ps_state" where "d_ps d \<equiv> PSState (t_wlan (d_tx d))"
abbreviation d_dnld :: "cmddev \<Rightarrow> bool" where "d_dnld d \<equiv> dnld_sent (t_wlan (d_tx d))"

definition w_upd :: "(wlan \<Rightarrow> wlan) \<Rightarrow> cmddev \<Rightarrow> cmddev" where
  "w_upd f d = d\<lparr>d_tx := t_upd f (d_tx d)\<rparr>"

definition set_ps :: "ps_state \<Rightarrow> cmddev \<Rightarrow> cmddev" where
  "set_ps ps = w_upd (\<lambda>s. s\<lparr>PSState := ps\<rparr>)"

section \<open>Nodes\<close>

definition node_upd :: "nat \<Rightarrow> (CmdCtrlNode \<Rightarrow> CmdCtrlNode) \<Rightarrow> cmdq \<Rightarrow> cmdq option" where
  "node_upd i f q = do { n \<leftarrow> mem_get (CmdArray q) i; a \<leftarrow> mem_put (CmdArray q) i (f n); Some (q\<lparr>CmdArray := a\<rparr>) }"

definition CleanUpCmdCtrlNode :: "CmdCtrlNode \<Rightarrow> CmdCtrlNode" where
  "CleanUpCmdCtrlNode n = n\<lparr>CmdWaitQWoken := True, cmd_oid := 0, wait_option := 0, CmdFlags := 0,
     BufVirtualAddr := map_option (\<lambda>_. zero_cmd) (BufVirtualAddr n)\<rparr>"

definition CleanupAndInsertCmd :: "nat \<Rightarrow> cmdq \<Rightarrow> cmdq option" where
  "CleanupAndInsertCmd i q = do { q \<leftarrow> node_upd i CleanUpCmdCtrlNode q; Some (q\<lparr>CmdFreeQ := CmdFreeQ q @ [i]\<rparr>) }"

definition GetFreeCmdCtrlNode :: "cmdq \<Rightarrow> (nat option \<times> cmdq) option" where
  "GetFreeCmdCtrlNode q =
     (case CmdFreeQ q of
        [] \<Rightarrow> Some (None, q)
      | i # r \<Rightarrow> do { q \<leftarrow> node_upd i CleanUpCmdCtrlNode (q\<lparr>CmdFreeQ := r\<rparr>); Some (Some i, q) })"

definition SetCmdCtrlNode :: "nat \<Rightarrow> u32 \<Rightarrow> u16 \<Rightarrow> cmdq \<Rightarrow> cmdq option" where
  "SetCmdCtrlNode i oid wait = node_upd i (\<lambda>n. n\<lparr>cmd_oid := oid, wait_option := wait\<rparr>)"

text \<open>Allocation: \<open>ok\<close> says which of the calls of \<open>kmalloc\<close> succeed, the first for the array.\<close>

definition fresh_node :: "bool \<Rightarrow> CmdCtrlNode" where
  "fresh_node b = \<lparr>cmd_oid = 0, wait_option = 0, BufVirtualAddr = (if b then Some zero_cmd else None), CmdFlags = 0, CmdWaitQWoken = False\<rparr>"

fun alloc_bufs :: "(nat \<Rightarrow> bool) \<Rightarrow> nat list \<Rightarrow> cmdq \<Rightarrow> (bool \<times> cmdq) option" where
  "alloc_bufs ok [] q = Some (True, q)"
| "alloc_bufs ok (i # is) q =
     (if ok (Suc i) then do { q \<leftarrow> node_upd i (\<lambda>n. n\<lparr>BufVirtualAddr := Some zero_cmd\<rparr>) q; alloc_bufs ok is q }
      else Some (False, q))"

fun insert_all :: "nat list \<Rightarrow> cmdq \<Rightarrow> cmdq option" where
  "insert_all [] q = Some q"
| "insert_all (i # is) q = do { q \<leftarrow> CleanupAndInsertCmd i q; insert_all is q }"

definition AllocateCmdBuffer :: "(nat \<Rightarrow> bool) \<Rightarrow> cmdq \<Rightarrow> (int \<times> cmdq) option" where
  "AllocateCmdBuffer ok q =
     (if \<not> ok 0 then Some (- 1, q)
      else
        do { (b, q) \<leftarrow> alloc_bufs ok [0..<MRVDRV_NUM_OF_CMD_BUFFER] (q\<lparr>CmdArray := replicate MRVDRV_NUM_OF_CMD_BUFFER (fresh_node False)\<rparr>);
             if b then do { q \<leftarrow> insert_all [0..<MRVDRV_NUM_OF_CMD_BUFFER] q; Some (0, q) } else Some (- 1, q) })"

section \<open>Queueing a command\<close>

definition HostCmd_CMD_802_11_PS_MODE :: u16 where "HostCmd_CMD_802_11_PS_MODE = 0x21"
definition HostCmd_CMD_802_11_RSSI :: u16 where "HostCmd_CMD_802_11_RSSI = 0x1f"
definition HostCmd_CMD_802_11_DEEP_SLEEP :: u16 where "HostCmd_CMD_802_11_DEEP_SLEEP = 0x3e"
definition HostCmd_CMD_802_11_HOST_SLEEP_CFG :: u16 where "HostCmd_CMD_802_11_HOST_SLEEP_CFG = 0x43"
definition HostCmd_CMD_802_11_WAKEUP_CONFIRM :: u16 where "HostCmd_CMD_802_11_WAKEUP_CONFIRM = 0x44"
definition HostCmd_CMD_802_11_HOST_SLEEP_ACTIVATE :: u16 where "HostCmd_CMD_802_11_HOST_SLEEP_ACTIVATE = 0x45"
definition HostCmd_SubCmd_Enter_PS :: u16 where "HostCmd_SubCmd_Enter_PS = 0x30"
definition HostCmd_SubCmd_Exit_PS :: u16 where "HostCmd_SubCmd_Exit_PS = 0x31"

lemmas cmd_nos = HostCmd_CMD_802_11_PS_MODE_def HostCmd_CMD_802_11_RSSI_def HostCmd_CMD_802_11_DEEP_SLEEP_def
  HostCmd_CMD_802_11_HOST_SLEEP_CFG_def HostCmd_CMD_802_11_WAKEUP_CONFIRM_def HostCmd_CMD_802_11_HOST_SLEEP_ACTIVATE_def
  HostCmd_SubCmd_Enter_PS_def HostCmd_SubCmd_Exit_PS_def

text \<open>The first field of the body, which is the action of a power save command.\<close>

definition psm_Action :: "HostCmd \<Rightarrow> u16" where
  "psm_Action c = le16_to (c_params c ! 0) (c_params c ! 1)"

definition QueueCmd :: "ps_state \<Rightarrow> nat \<Rightarrow> bool \<Rightarrow> cmdq \<Rightarrow> cmdq option" where
  "QueueCmd ps i addtail q =
     do { n \<leftarrow> mem_get (CmdArray q) i;
          case BufVirtualAddr n of
            None \<Rightarrow> Some q
          | Some c \<Rightarrow>
              (let addtail = (if c_Command c = HostCmd_CMD_802_11_PS_MODE \<and> psm_Action c = HostCmd_SubCmd_Exit_PS \<and> ps \<noteq> PS_STATE_FULL_POWER
                              then False else addtail);
                   addtail = (if c_Command c = HostCmd_CMD_802_11_WAKEUP_CONFIRM \<or> c_Command c = HostCmd_CMD_802_11_HOST_SLEEP_ACTIVATE \<or>
                                c_Command c = HostCmd_CMD_802_11_HOST_SLEEP_CFG then False else addtail)
               in Some (if addtail then q\<lparr>CmdPendingQ := CmdPendingQ q @ [i]\<rparr> else q\<lparr>CmdPendingQ := i # CmdPendingQ q\<rparr>)) }"

text \<open>The cases of the switch that the driver uses for its own power management.\<close>

definition wlan_cmd_802_11_ps_mode :: "u16 \<Rightarrow> cmddev \<Rightarrow> HostCmd \<Rightarrow> int \<times> HostCmd" where
  "wlan_cmd_802_11_ps_mode act d c =
     (let p = c_params c;
          c = c\<lparr>c_Command := HostCmd_CMD_802_11_PS_MODE, c_Size := 20\<rparr>
      in (0, c\<lparr>c_params :=
           (if act = HostCmd_SubCmd_Enter_PS then
              le16_of act @ le16_of (NullPktInterval d) @ le16_of (MultipleDtim d) @ le16_of (BCNMissTimeOut d) @
              le16_of (LocalListenInterval d) @ (if IBSS d then le16_of (AdhocAwakePeriod d) else take 2 (drop 10 p)) @ drop 12 p
            else le16_of act @ take 2 (drop 2 p) @ le16_of 0 @ drop 6 p)\<rparr>))"

definition prep_header :: "u16 \<Rightarrow> cmddev \<Rightarrow> HostCmd \<Rightarrow> int \<times> HostCmd" where
  "prep_header cmd_no d c = (0, c\<lparr>c_Command := cmd_no, c_Size := 8\<rparr>)"

text \<open>\<open>PrepareAndSendCommand\<close> up to the wait for the response, which is \<open>command_wait\<close> below; \<open>body\<close> is the
  selected case of the switch over the commands.\<close>

definition PrepareAndSendCommand ::
  "(cmddev \<Rightarrow> HostCmd \<Rightarrow> int \<times> HostCmd) \<Rightarrow> u16 \<Rightarrow> u32 \<Rightarrow> u16 \<Rightarrow> cmddev \<Rightarrow> (int \<times> cmddev) option" where
  "PrepareAndSendCommand body cmd_no oid wait d =
     (if SurpriseRemoved (d_tx d) then Some (- 1, d)
      else
        do { (r, q) \<leftarrow> GetFreeCmdCtrlNode (d_q d);
             case r of
               None \<Rightarrow> Some (- 1, d\<lparr>d_q := q\<rparr>)
             | Some i \<Rightarrow>
                 do { q \<leftarrow> SetCmdCtrlNode i oid wait q;
                      n \<leftarrow> mem_get (CmdArray q) i;
                      case BufVirtualAddr n of
                        None \<Rightarrow> do { q \<leftarrow> CleanupAndInsertCmd i q; Some (- 1, d\<lparr>d_q := q\<rparr>) }
                      | Some c \<Rightarrow>
                          (case body d (c\<lparr>c_Command := cmd_no, c_Result := 0\<rparr>) of (ret, c) \<Rightarrow>
                             do { q \<leftarrow> node_upd i (\<lambda>n. n\<lparr>BufVirtualAddr := Some c\<rparr>) q;
                                  if ret \<noteq> 0 then do { q \<leftarrow> CleanupAndInsertCmd i q; Some (- 1, d\<lparr>d_q := q\<rparr>) }
                                  else
                                    do { q \<leftarrow> node_upd i (\<lambda>n. n\<lparr>CmdWaitQWoken := False\<rparr>) q;
                                         q \<leftarrow> QueueCmd (d_ps d) i True q;
                                         Some (0, d\<lparr>d_q := q\<rparr>) } }) } })"

text \<open>What a caller that waits does after it was woken.\<close>

definition command_wait :: "cmddev \<Rightarrow> int \<times> cmddev" where
  "command_wait d = (if CurCmdRetCode d \<noteq> 0 then (- 1, d\<lparr>CurCmdRetCode := 0\<rparr>) else (0, d))"

definition PSSleep :: "u16 \<Rightarrow> cmddev \<Rightarrow> cmddev option" where
  "PSSleep wait d = map_option snd (PrepareAndSendCommand (wlan_cmd_802_11_ps_mode HostCmd_SubCmd_Enter_PS) HostCmd_CMD_802_11_PS_MODE 0 wait d)"

definition PSWakeup :: "u16 \<Rightarrow> cmddev \<Rightarrow> cmddev option" where
  "PSWakeup wait d = map_option snd (PrepareAndSendCommand (wlan_cmd_802_11_ps_mode HostCmd_SubCmd_Exit_PS) HostCmd_CMD_802_11_PS_MODE 0 wait d)"

section \<open>Sending\<close>

definition os_carrier_off :: "wlan \<Rightarrow> wlan" where
  "os_carrier_off s = (if carrier s then s\<lparr>carrier := False\<rparr> else s)"

definition wlan_host_sleep_activated_event :: "cmddev \<Rightarrow> cmddev" where
  "wlan_host_sleep_activated_event d = w_upd (\<lambda>s. wmm_stop_queue (os_stop_queue (os_carrier_off s))) (d\<lparr>HS_Activated := True\<rparr>)"

definition wlan_host_sleep_deactivated_event :: "cmddev \<Rightarrow> cmddev" where
  "wlan_host_sleep_deactivated_event d = d\<lparr>HS_Activated := False\<rparr>"

text \<open>The command at hand is finished: its node goes back to the free queue.\<close>

definition finish_cmd :: "nat \<Rightarrow> cmddev \<Rightarrow> cmddev option" where
  "finish_cmd i d = do { q \<leftarrow> CleanupAndInsertCmd i (d_q d); Some (d\<lparr>d_q := q\<lparr>CurCmd := None\<rparr>\<rparr>) }"

text \<open>After the deep sleep command, to which there is no response.\<close>

definition enter_deep_sleep :: "nat \<Rightarrow> cmddev \<Rightarrow> cmddev option" where
  "enter_deep_sleep i d =
     do { let d = (if IntCounter d \<noteq> 0 then d\<lparr>IntCounterSaved := IntCounter d, IntCounter := 0\<rparr> else d);
          let d = (if CurrentTxSkb (t_wlan (d_tx d)) \<noteq> None
                   then w_upd (\<lambda>s. s\<lparr>CurrentTxSkb := None, tx_dropped := tx_dropped s + 1\<rparr>) d else d);
          d \<leftarrow> finish_cmd i (d\<lparr>IsDeepSleep := True\<rparr>);
          let d = d\<lparr>CommandTimerIsSet := False\<rparr>;
          let d = (if IsAutoDeepSleepEnabled d then w_upd (\<lambda>s. s\<lparr>dnld_sent := False\<rparr>) (d\<lparr>bWakeupDevRequired := True\<rparr>) else d);
          Some (if bHostSleepConfigured d then wlan_host_sleep_activated_event (d\<lparr>bWakeupDevRequired := True\<rparr>) else d) }"

definition DownloadCommandToStation :: "(nat \<Rightarrow> int) \<Rightarrow> nat \<Rightarrow> cmddev \<Rightarrow> (int \<times> cmddev) option" where
  "DownloadCommandToStation out i d =
     do { n \<leftarrow> mem_get (CmdArray (d_q d)) i;
          case BufVirtualAddr n of
            None \<Rightarrow> do { q \<leftarrow> CleanupAndInsertCmd i (d_q d); Some (- 1, d\<lparr>d_q := q\<rparr>) }
          | Some c \<Rightarrow>
              if c_Size c = 0 then do { q \<leftarrow> CleanupAndInsertCmd i (d_q d); Some (- 1, d\<lparr>d_q := q\<rparr>) }
              else
                do { let c = c\<lparr>c_SeqNum := SeqNum d + 1\<rparr>;
                     q \<leftarrow> node_upd i (\<lambda>n. n\<lparr>BufVirtualAddr := Some c, CmdWaitQWoken := False\<rparr>) (d_q d);
                     let d = d\<lparr>SeqNum := SeqNum d + 1, d_q := q\<lparr>CurCmd := Some i\<rparr>, CurCmdRetCode := 0\<rparr>;
                     payload \<leftarrow> (if unat (c_Size c) \<le> WLAN_UPLD_SIZE - SDIO_HEADER_LEN then mem_sub (cmd_bytes c) 0 (unat (c_Size c)) else Some []);
                     (ret, t) \<leftarrow> sbi_host_to_card out MVMS_CMD payload (unat (c_Size c)) (d_tx d);
                     let d = d\<lparr>d_tx := t\<lparr>HisRegCpy := HisRegCpy t AND NOT HIS_TxDnLdRdy\<rparr>\<rparr>;
                     if ret \<noteq> 0 then do { d \<leftarrow> finish_cmd i (d\<lparr>CurCmdRetCode := - 1\<rparr>); Some (- 1, d) }
                     else
                       do { let d = d\<lparr>CommandTimerIsSet := True\<rparr>;
                            d \<leftarrow> (if c_Command c = HostCmd_CMD_802_11_DEEP_SLEEP then enter_deep_sleep i d else Some d);
                            Some (0, d) } } }"

definition Commands_Allowed_In_PS :: "u16 list" where
  "Commands_Allowed_In_PS = [HostCmd_CMD_802_11_RSSI, HostCmd_CMD_802_11_HOST_SLEEP_CFG, HostCmd_CMD_802_11_WAKEUP_CONFIRM]"

definition Is_Command_Allowed_In_PS :: "u16 \<Rightarrow> bool" where
  "Is_Command_Allowed_In_PS command = list_ex (\<lambda>x. command = x) Commands_Allowed_In_PS"

definition asleep :: "ps_state \<Rightarrow> bool" where
  "asleep ps = (ps = PS_STATE_SLEEP \<or> ps = PS_STATE_PRE_SLEEP)"

definition del_pending :: "nat \<Rightarrow> cmddev \<Rightarrow> cmddev" where
  "del_pending i d = d\<lparr>d_q := (d_q d)\<lparr>CmdPendingQ := remove1 i (CmdPendingQ (d_q d))\<rparr>\<rparr>"

text \<open>The branch of \<open>ExecuteNextCommand\<close> for a pending command.\<close>

definition exec_pending :: "(nat \<Rightarrow> int) \<Rightarrow> nat \<Rightarrow> cmddev \<Rightarrow> (int \<times> cmddev) option" where
  "exec_pending out i d =
     do { n \<leftarrow> mem_get (CmdArray (d_q d)) i;
          c \<leftarrow> BufVirtualAddr n;
          let send = do { (_, d) \<leftarrow> DownloadCommandToStation out i (del_pending i d); Some (0, d) };
          if Is_Command_Allowed_In_PS (c_Command c) then (if asleep (d_ps d) then Some (- 1, d) else send)
          else if d_ps d \<noteq> PS_STATE_FULL_POWER then
            (if c_Command c \<noteq> HostCmd_CMD_802_11_PS_MODE then
               (if asleep (d_ps d) then Some (0, d\<lparr>NeedToWakeup := True\<rparr>) else do { d \<leftarrow> PSWakeup 0 d; Some (0, d) })
             else if psm_Action c \<noteq> HostCmd_SubCmd_Exit_PS then
               do { q \<leftarrow> CleanupAndInsertCmd i (d_q (del_pending i d)); Some (0, d\<lparr>d_q := q\<rparr>) }
             else if asleep (d_ps d) then
               do { q \<leftarrow> CleanupAndInsertCmd i (d_q (del_pending i d)); Some (0, d\<lparr>d_q := q, NeedToWakeup := True\<rparr>) }
             else send)
          else send }"

text \<open>The branch for an empty queue: the device goes back to its sleep mode.\<close>

definition exec_idle :: "cmddev \<Rightarrow> (int \<times> cmddev) option" where
  "exec_idle d =
     do { let conn = MediaConnected (d_tx d);
          d \<leftarrow> (if conn then
                   (if \<not> PSMode_CAM d \<and> d_ps d = PS_STATE_FULL_POWER then
                      (if WPA d then (if IsGTK_SET d then PSSleep 0 d else Some d)
                       else if \<not> IBSS d \<or> cur_ATIMWindow d \<noteq> 0 then PSSleep 0 d else Some d)
                    else Some d)
                 else if IsAutoDeepSleepEnabled d \<and> IntCounter d = 0 then
                   map_option snd (PrepareAndSendCommand (prep_header HostCmd_CMD_802_11_DEEP_SLEEP) HostCmd_CMD_802_11_DEEP_SLEEP 0 0 d)
                 else Some d);
          d \<leftarrow> (if bHostSleepConfigured d \<and> \<not> HS_Activated d \<and> (conn \<or> \<not> IsAutoDeepSleepEnabled d) \<and>
                   (PSMode_CAM d \<and> d_ps d = PS_STATE_FULL_POWER \<or> IBSS d \<and> cur_ATIMWindow d = 0) then
                   map_option snd (PrepareAndSendCommand (prep_header HostCmd_CMD_802_11_HOST_SLEEP_ACTIVATE) HostCmd_CMD_802_11_HOST_SLEEP_ACTIVATE 0 0 d)
                 else Some d);
          Some (0, d) }"

definition ExecuteNextCommand :: "(nat \<Rightarrow> int) \<Rightarrow> cmddev \<Rightarrow> (int \<times> cmddev) option" where
  "ExecuteNextCommand out d =
     (if CurCmd (d_q d) \<noteq> None then Some (- 1, d)
      else (case CmdPendingQ (d_q d) of [] \<Rightarrow> exec_idle d | i # _ \<Rightarrow> exec_pending out i d))"

section \<open>Sleep confirmation\<close>

definition SendConfirmSleep :: "(nat \<Rightarrow> int) \<Rightarrow> cmddev \<Rightarrow> (int \<times> cmddev) option" where
  "SendConfirmSleep out d =
     do { (ret, t) \<leftarrow> sbi_host_to_card out MVMS_CMD (PSConfirmSleep_cmd d) (length (PSConfirmSleep_cmd d)) (d_tx d);
          let d = w_upd (\<lambda>s. s\<lparr>dnld_sent := False\<rparr>) (d\<lparr>d_tx := t\<rparr>);
          if ret \<noteq> 0 then Some (ret, d)
          else
            (let d = set_ps PS_STATE_SLEEP d;
                 d = (if bHostSleepConfigured d \<and> sleep_period (d_tx d) = 0
                      then wlan_host_sleep_activated_event (d\<lparr>bWakeupDevRequired := True\<rparr>) else d)
             in Some (0, if IntCounter d \<noteq> 0 then set_ps PS_STATE_AWAKE d else d)) }"

definition PSConfirmSleep :: "(nat \<Rightarrow> int) \<Rightarrow> cmddev \<Rightarrow> cmddev option" where
  "PSConfirmSleep out d =
     (if \<not> d_dnld d \<and> CurCmd (d_q d) = None \<and> IntCounter d = 0
      then do { (_, d) \<leftarrow> SendConfirmSleep out d; Some (w_upd os_start_queue d) }
      else Some d)"

section \<open>Responses, timeouts and interrupts\<close>

text \<open>The upload of a response by \<open>sbi_get_int_status\<close>, into the buffer of the current command.\<close>

definition upload_cmd :: "u8 list \<Rightarrow> cmddev \<Rightarrow> cmddev option" where
  "upload_cmd bytes d =
     (case CurCmd (d_q d) of
        None \<Rightarrow> Some d
      | Some i \<Rightarrow>
          do { n \<leftarrow> mem_get (CmdArray (d_q d)) i;
               c \<leftarrow> BufVirtualAddr n;
               b \<leftarrow> mem_copy (cmd_bytes c) 0 (take MRVDRV_SIZE_OF_CMD_BUFFER bytes);
               q \<leftarrow> node_upd i (\<lambda>n. n\<lparr>BufVirtualAddr := Some (cmd_of_bytes b)\<rparr>) (d_q d);
               Some (d\<lparr>d_q := q\<rparr>) })"

definition HOST_SLEEP_CFG_CANCEL :: u32 where "HOST_SLEEP_CFG_CANCEL = 0xffffffff"
definition HOST_SLEEP_CFG_GAP_FF :: u8 where "HOST_SLEEP_CFG_GAP_FF = 0xff"
definition CMD_F_HOSTCMD :: u16 where "CMD_F_HOSTCMD = 1"

definition wlan_ret_host_sleep_cfg :: "HostCmd \<Rightarrow> cmddev \<Rightarrow> cmddev" where
  "wlan_ret_host_sleep_cfg c d =
     (if le32_to (take 4 (c_params c)) \<noteq> HOST_SLEEP_CFG_CANCEL then d\<lparr>bHostSleepConfigured := True\<rparr>
      else
        (let d = d\<lparr>bHostSleepConfigured := False\<rparr>;
             d = (if d_ps d = PS_STATE_FULL_POWER \<and> HS_Activated d then wlan_host_sleep_deactivated_event d else d)
         in w_upd (\<lambda>s. wmm_start_queue (os_carrier_on (os_start_queue s))) d))"

text \<open>The response to a power save command.\<close>

definition ret_ps_mode :: "HostCmd \<Rightarrow> cmddev \<Rightarrow> cmddev option" where
  "ret_ps_mode c d =
     (if c_Result c \<noteq> 0 then
        Some (if IBSS d \<and> psm_Action c = HostCmd_SubCmd_Enter_PS then d\<lparr>PSMode_CAM := True\<rparr> else d)
      else if psm_Action c = HostCmd_SubCmd_Enter_PS then
        (let d = set_ps PS_STATE_AWAKE (d\<lparr>NeedToWakeup := False\<rparr>)
         in if \<not> MediaConnected (d_tx d) then PSWakeup 0 d else Some d)
      else if psm_Action c = HostCmd_SubCmd_Exit_PS then Some (set_ps PS_STATE_FULL_POWER (d\<lparr>NeedToWakeup := False\<rparr>))
      else Some d)"

definition wlan_clean_txrx :: "wlan \<Rightarrow> wlan" where
  "wlan_clean_txrx s = os_free_tx_packet (wmm_cleanup_queues (wmm_stop_queue (os_carrier_off (os_stop_queue s))))"

text \<open>\<open>MacEventDisconnected\<close>, as far as this state goes; the received packets, the averages and the names of
  the networks are in other parts.\<close>

definition MacEventDisconnected :: "cmddev \<Rightarrow> cmddev option" where
  "MacEventDisconnected d =
     (if \<not> MediaConnected (d_tx d) then Some d
      else
        (let d = w_upd (\<lambda>s. (wlan_clean_txrx s)\<lparr>link_up := False\<rparr>) d;
             d = d\<lparr>WPA := False, d_tx := (d_tx d)\<lparr>MediaConnected := False\<rparr>, cur_ATIMWindow := 0\<rparr>
         in if d_ps d \<noteq> PS_STATE_FULL_POWER then PSWakeup 0 d else Some d))"

text \<open>The responses of the switch that queue a command or change the sleep state. Those to associating, to joining and to
  a key change the connection, which other parts of the driver may change at any time; the rest does
  not touch this state. That these other handlers return is not claimed: some read or write outside the command
  buffer for lengths that the firmware gives (\<^verbatim>\<open>wlan_scan.c\<close>, \<^verbatim>\<open>wlan_wmm.c\<close>), so the statements about
  a round exclude them from what is said to return (\<open>reply_here\<close> in \<open>WlanPower\<close>).\<close>

definition ret_switch :: "HostCmd \<Rightarrow> cmddev \<Rightarrow> cmddev option" where
  "ret_switch c d =
     (if c_Command c = 0x8043 then Some (wlan_ret_host_sleep_cfg c d)
      else if c_Command c = 0x8044 then Some (wlan_host_sleep_deactivated_event d)
      else if c_Command c = 0x8045 then
        Some (wlan_host_sleep_activated_event (if bHostSleepConfigured d \<and> HSCfg_gap d = HOST_SLEEP_CFG_GAP_FF then d\<lparr>bWakeupDevRequired := True\<rparr> else d))
      else if c_Command c = 0x8024 \<or> c_Command c = 0x8040 then MacEventDisconnected d
      else Some d)"

definition wlan_process_rx_command :: "cmddev \<Rightarrow> cmddev option" where
  "wlan_process_rx_command d =
     (let d = d\<lparr>CommandTimerIsSet := False\<rparr> in
      case CurCmd (d_q d) of
        None \<Rightarrow> Some d
      | Some i \<Rightarrow>
          do { let d = d\<lparr>num_cmd_timeout := 0\<rparr>;
               n \<leftarrow> mem_get (CmdArray (d_q d)) i;
               c \<leftarrow> BufVirtualAddr n;
               if c_Command c AND 0x8000 = 0 then finish_cmd i (d\<lparr>CurCmdRetCode := - 1\<rparr>)
               else
                 do { let d = d\<lparr>CurCmdRetCode := uint (c_Result c)\<rparr>;
                      if c_Command c = 0x8021 then do { d \<leftarrow> ret_ps_mode c d; finish_cmd i d }
                      else if CmdFlags n AND CMD_F_HOSTCMD \<noteq> 0 then
                        do { reply \<leftarrow> mem_sub (cmd_bytes c) 0 (unat (c_Size c));
                             let d = d\<lparr>host_replies := host_replies d @ [reply]\<rparr>;
                             finish_cmd i (if c_Result c = 0 \<and> c_Command c = 0x8043 then wlan_ret_host_sleep_cfg c d else d) }
                      else if c_Result c \<noteq> 0 then finish_cmd i d
                      else do { d \<leftarrow> ret_switch c d; finish_cmd i d } } })"

definition MAX_CMD_TIMEOUT_COUNT :: u32 where "MAX_CMD_TIMEOUT_COUNT = 5"

definition MrvDrvCommandTimerFunction :: "cmddev \<Rightarrow> cmddev" where
  "MrvDrvCommandTimerFunction d =
     (let d = d\<lparr>CommandTimerIsSet := False\<rparr> in
      case CurCmd (d_q d) of
        None \<Rightarrow> d
      | Some i \<Rightarrow>
          (let d = d\<lparr>num_cmd_timeout := num_cmd_timeout d + 1\<rparr>
           in if num_cmd_timeout d > MAX_CMD_TIMEOUT_COUNT then d
              else d\<lparr>CommandTimerIsSet := True, IntCounter := IntCounter d + 1\<rparr>))"

definition wlan_interrupt :: "cmddev \<Rightarrow> cmddev" where
  "wlan_interrupt d =
     (let d = d\<lparr>IntCounter := IntCounter d + 1, WakeupTries := 0\<rparr>
      in if d_ps d = PS_STATE_SLEEP then set_ps PS_STATE_AWAKE d else d)"

end
