(* ===== verification/WlanCmdInv.thy ===== *)
theory WlanCmdInv
  imports WlanCmd
begin

text \<open>
  Properties of the command queue and of power management: the command buffers are never lost or queued twice, the
  driver is idle while the firmware sleeps, a pending command gets through in power save, and the
  situations in which it does not.
\<close>

section \<open>The nodes\<close>

definition node_ok :: "CmdCtrlNode \<Rightarrow> bool" where
  "node_ok n \<longleftrightarrow> (\<exists>c. BufVirtualAddr n = Some c \<and> length (c_params c) = 2040)"

definition size_ok :: "CmdCtrlNode \<Rightarrow> bool" where
  "size_ok n \<longleftrightarrow> (\<exists>c. BufVirtualAddr n = Some c \<and> unat (c_Size c) \<le> 2048)"

definition cur_nodes :: "cmdq \<Rightarrow> nat multiset" where
  "cur_nodes q = (case CurCmd q of None \<Rightarrow> {#} | Some i \<Rightarrow> {#i#})"

text \<open>All ten nodes are in one of the queues, at the firmware, or held by the function that runs.\<close>

definition q_held :: "nat multiset \<Rightarrow> cmdq \<Rightarrow> bool" where
  "q_held X q \<longleftrightarrow> length (CmdArray q) = 10 \<and> mset (CmdFreeQ q) + mset (CmdPendingQ q) + cur_nodes q + X = mset [0..<10] \<and>
     (\<forall>i < 10. node_ok (CmdArray q ! i)) \<and> (\<forall>i \<in> set (CmdPendingQ q). size_ok (CmdArray q ! i))"

abbreviation q_ok :: "cmdq \<Rightarrow> bool" where "q_ok \<equiv> q_held {#}"

lemma held_less:
  assumes "q_held X q" shows "i \<in># X \<Longrightarrow> i < 10" "i \<in> set (CmdFreeQ q) \<Longrightarrow> i < 10" "i \<in> set (CmdPendingQ q) \<Longrightarrow> i < 10" "CurCmd q = Some i \<Longrightarrow> i < 10"
proof -
  have m: "j < 10" if "j \<in># mset (CmdFreeQ q) + mset (CmdPendingQ q) + cur_nodes q + X" for j
  proof -
    have "j \<in># mset [0..<10]" using that assms by (simp only: q_held_def)
    then show ?thesis by (simp only: set_mset_mset set_upt) simp
  qed
  show "i \<in># X \<Longrightarrow> i < 10" "i \<in> set (CmdFreeQ q) \<Longrightarrow> i < 10" "i \<in> set (CmdPendingQ q) \<Longrightarrow> i < 10" "CurCmd q = Some i \<Longrightarrow> i < 10"
    by (auto intro!: m simp: cur_nodes_def)
qed

lemma held_apart:
  assumes "q_held X q" "i \<in># X + cur_nodes q"
  shows "i \<notin> set (CmdPendingQ q)" "i \<notin> set (CmdFreeQ q)"
proof -
  have "count (mset (CmdFreeQ q) + mset (CmdPendingQ q) + cur_nodes q + X) i \<le> 1"
    using assms(1) distinct_count_atmost_1 [of "[0..<10 :: nat]"] unfolding q_held_def by (metis distinct_upt le_numeral_extra(4) zero_le_one)
  moreover have "0 < count (X + cur_nodes q) i" using assms(2) by (simp only: count_greater_zero_iff)
  ultimately have "count (mset (CmdFreeQ q)) i = 0 \<and> count (mset (CmdPendingQ q)) i = 0"
    by (simp only: count_union) linarith
  then show "i \<notin> set (CmdPendingQ q)" "i \<notin> set (CmdFreeQ q)" by simp_all
qed

lemma held_empty: "cur_nodes (q\<lparr>CmdArray := a\<rparr>) = cur_nodes q"
  by (simp add: cur_nodes_def)

lemma node_upd_ok:
  assumes "q_held X q" "i \<in># X + cur_nodes q" "node_ok (f (CmdArray q ! i))"
  shows "\<exists>q'. node_upd i f q = Some q' \<and> q_held X q' \<and> q' = q\<lparr>CmdArray := (CmdArray q)[i := f (CmdArray q ! i)]\<rparr>"
proof -
  have i: "i < 10" using held_less(1,4) [OF assms(1), of i] assms(2) by (auto simp: cur_nodes_def split: option.splits)
  have l: "length (CmdArray q) = 10" using assms(1) by (simp add: q_held_def)
  have "q_held X (q\<lparr>CmdArray := (CmdArray q)[i := f (CmdArray q ! i)]\<rparr>)"
    using assms(1,3) l i held_apart(1) [OF assms(1,2)] by (auto simp: q_held_def held_empty nth_list_update)
  then show ?thesis using i l by (simp add: node_upd_def mem_get_in mem_put_in)
qed

lemma clean_ok: "node_ok n \<Longrightarrow> node_ok (CleanUpCmdCtrlNode n)"
  by (auto simp: node_ok_def CleanUpCmdCtrlNode_def zero_cmd_def MRVDRV_SIZE_OF_CMD_BUFFER_def)

lemma held_node: "q_held X q \<Longrightarrow> i < 10 \<Longrightarrow> node_ok (CmdArray q ! i) \<and> mem_get (CmdArray q) i = Some (CmdArray q ! i)"
  by (simp add: q_held_def mem_get_in)

lemma insert_ok:
  assumes "q_held (add_mset i X) q"
  shows "\<exists>q'. CleanupAndInsertCmd i q = Some q' \<and> q_held X q' \<and> CmdFreeQ q' = CmdFreeQ q @ [i] \<and> CmdPendingQ q' = CmdPendingQ q \<and>
    CurCmd q' = CurCmd q \<and> CmdArray q' = (CmdArray q)[i := CleanUpCmdCtrlNode (CmdArray q ! i)]"
proof -
  have i: "i < 10" using held_less(1) [OF assms, of i] by simp
  have n: "node_ok (CleanUpCmdCtrlNode (CmdArray q ! i))" using held_node [OF assms i] clean_ok by simp
  obtain q' where q': "node_upd i CleanUpCmdCtrlNode q = Some q'" "q_held (add_mset i X) q'"
    "q' = q\<lparr>CmdArray := (CmdArray q)[i := CleanUpCmdCtrlNode (CmdArray q ! i)]\<rparr>"
    using node_upd_ok [OF assms, of i CleanUpCmdCtrlNode] n by auto
  have "q_held X (q'\<lparr>CmdFreeQ := CmdFreeQ q' @ [i]\<rparr>)" using q'(2) by (simp add: q_held_def cur_nodes_def)
  then show ?thesis using q' by (simp add: CleanupAndInsertCmd_def)
qed

lemma get_ok:
  assumes "q_ok q"
  shows "(CmdFreeQ q = [] \<longrightarrow> GetFreeCmdCtrlNode q = Some (None, q)) \<and>
    (\<forall>i r. CmdFreeQ q = i # r \<longrightarrow> (\<exists>q'. GetFreeCmdCtrlNode q = Some (Some i, q') \<and> q_held {#i#} q' \<and> CmdFreeQ q' = r \<and>
      CmdPendingQ q' = CmdPendingQ q \<and> CurCmd q' = CurCmd q \<and> CmdArray q' = (CmdArray q)[i := CleanUpCmdCtrlNode (CmdArray q ! i)]))"
proof (intro conjI allI impI)
  fix i r assume f: "CmdFreeQ q = i # r"
  have h: "q_held {#i#} (q\<lparr>CmdFreeQ := r\<rparr>)" using assms f by (simp add: q_held_def cur_nodes_def)
  have i: "i < 10" using held_less(1) [OF h, of i] by simp
  have n: "node_ok (CleanUpCmdCtrlNode (CmdArray (q\<lparr>CmdFreeQ := r\<rparr>) ! i))" using held_node [OF assms i] clean_ok by simp
  from node_upd_ok [OF h, of i CleanUpCmdCtrlNode] n
  show "\<exists>q'. GetFreeCmdCtrlNode q = Some (Some i, q') \<and> q_held {#i#} q' \<and> CmdFreeQ q' = r \<and>
      CmdPendingQ q' = CmdPendingQ q \<and> CurCmd q' = CurCmd q \<and> CmdArray q' = (CmdArray q)[i := CleanUpCmdCtrlNode (CmdArray q ! i)]"
    using f by (auto simp: GetFreeCmdCtrlNode_def)
qed (simp add: GetFreeCmdCtrlNode_def)

lemma queue_ok:
  assumes "q_held {#i#} q" "size_ok (CmdArray q ! i)"
  shows "\<exists>q'. QueueCmd ps i b q = Some q' \<and> q_ok q' \<and> (q' = q\<lparr>CmdPendingQ := CmdPendingQ q @ [i]\<rparr> \<or> q' = q\<lparr>CmdPendingQ := i # CmdPendingQ q\<rparr>)"
proof -
  have i: "i < 10" using held_less(1) [OF assms(1), of i] by simp
  obtain c where c: "BufVirtualAddr (CmdArray q ! i) = Some c" using assms(2) by (auto simp: size_ok_def)
  have "q_ok (q\<lparr>CmdPendingQ := CmdPendingQ q @ [i]\<rparr>)" "q_ok (q\<lparr>CmdPendingQ := i # CmdPendingQ q\<rparr>)"
    using assms by (simp_all add: q_held_def cur_nodes_def)
  then show ?thesis using held_node [OF assms(1) i] c by (simp add: QueueCmd_def Let_def)
qed

section \<open>Preparing a command\<close>

definition body_ok :: "(cmddev \<Rightarrow> HostCmd \<Rightarrow> int \<times> HostCmd) \<Rightarrow> bool" where
  "body_ok body \<longleftrightarrow> (\<forall>d c. length (c_params c) = 2040 \<longrightarrow> length (c_params (snd (body d c))) = 2040 \<and> unat (c_Size (snd (body d c))) \<le> 2048)"

lemma body_okD: "body_ok body \<Longrightarrow> length (c_params c) = 2040 \<Longrightarrow> body d c = (ret, c') \<Longrightarrow> length (c_params c') = 2040 \<and> unat (c_Size c') \<le> 2048"
  by (metis body_ok_def snd_conv)

lemma ps_mode_body: "body_ok (wlan_cmd_802_11_ps_mode act)"
  by (simp add: body_ok_def wlan_cmd_802_11_ps_mode_def Let_def le16_of_def)

lemma header_body: "body_ok (prep_header n)"
  by (simp add: body_ok_def prep_header_def)

lemma length_zero_cmd [simp]: "length (c_params zero_cmd) = 2040"
  by (simp add: zero_cmd_def MRVDRV_SIZE_OF_CMD_BUFFER_def)

definition fresh_cmd :: "(cmddev \<Rightarrow> HostCmd \<Rightarrow> int \<times> HostCmd) \<Rightarrow> u16 \<Rightarrow> cmddev \<Rightarrow> int \<times> HostCmd" where
  "fresh_cmd body cmd_no d = body d (zero_cmd\<lparr>c_Command := cmd_no, c_Result := 0\<rparr>)"

text \<open>The node with the prepared command, as it is queued.\<close>

definition prepared_node :: "u32 \<Rightarrow> u16 \<Rightarrow> HostCmd \<Rightarrow> CmdCtrlNode \<Rightarrow> CmdCtrlNode" where
  "prepared_node oid wait c n = (CleanUpCmdCtrlNode n)\<lparr>cmd_oid := oid, wait_option := wait, BufVirtualAddr := Some c, CmdWaitQWoken := False\<rparr>"

lemma prepare_cases:
  assumes "q_ok (d_q d)" "body_ok body" "fresh_cmd body cmd_no d = (ret, c)"
  shows "\<exists>r d'. PrepareAndSendCommand body cmd_no oid wait d = Some (r, d') \<and> d' = d\<lparr>d_q := d_q d'\<rparr> \<and> q_ok (d_q d') \<and>
    CurCmd (d_q d') = CurCmd (d_q d) \<and>
    (SurpriseRemoved (d_tx d) \<or> CmdFreeQ (d_q d) = [] \<longrightarrow> r = - 1 \<and> d' = d) \<and>
    (\<forall>i f. CmdFreeQ (d_q d) = i # f \<longrightarrow> \<not> SurpriseRemoved (d_tx d) \<longrightarrow> ret = 0 \<longrightarrow>
       r = 0 \<and> CmdFreeQ (d_q d') = f \<and> CmdArray (d_q d') = (CmdArray (d_q d))[i := prepared_node oid wait c (CmdArray (d_q d) ! i)] \<and>
       QueueCmd (d_ps d) i True ((d_q d)\<lparr>CmdFreeQ := f, CmdArray := CmdArray (d_q d')\<rparr>) = Some (d_q d'))"
proof (cases "SurpriseRemoved (d_tx d) \<or> CmdFreeQ (d_q d) = []")
  case True
  then have "PrepareAndSendCommand body cmd_no oid wait d = Some (- 1, d)"
    using get_ok [OF assms(1)] by (auto simp: PrepareAndSendCommand_def)
  then show ?thesis using True assms(1) by auto
next
  case False
  then obtain i f where f: "CmdFreeQ (d_q d) = i # f" by (cases "CmdFreeQ (d_q d)") auto
  let ?q = "d_q d"
  obtain q1 where q1: "GetFreeCmdCtrlNode ?q = Some (Some i, q1)" "q_held {#i#} q1" "CmdFreeQ q1 = f" "CmdPendingQ q1 = CmdPendingQ ?q"
    "CurCmd q1 = CurCmd ?q" "CmdArray q1 = (CmdArray ?q)[i := CleanUpCmdCtrlNode (CmdArray ?q ! i)]"
    using get_ok [OF assms(1)] f by blast
  have i: "i < 10" "i < length (CmdArray ?q)" using held_less(1) [OF q1(2), of i] assms(1) by (simp_all add: q_held_def)
  have n1: "CmdArray q1 ! i = CleanUpCmdCtrlNode (CmdArray ?q ! i)" "node_ok (CmdArray ?q ! i)"
    using q1(6) i held_node [OF assms(1) i(1)] by simp_all
  then have b1: "BufVirtualAddr (CmdArray q1 ! i) = Some zero_cmd" by (auto simp: node_ok_def CleanUpCmdCtrlNode_def)
  let ?set = "\<lambda>n. n\<lparr>cmd_oid := oid, wait_option := wait\<rparr>"
  obtain q2 where q2: "SetCmdCtrlNode i oid wait q1 = Some q2" "q_held {#i#} q2" "q2 = q1\<lparr>CmdArray := (CmdArray q1)[i := ?set (CmdArray q1 ! i)]\<rparr>"
    using node_upd_ok [OF q1(2), of i ?set] b1 by (auto simp: SetCmdCtrlNode_def node_ok_def)
  have l: "length (CmdArray q1) = 10" using q1(2) by (simp add: q_held_def)
  have b2: "CmdArray q2 ! i = ?set (CmdArray q1 ! i)" "mem_get (CmdArray q2) i = Some (?set (CmdArray q1 ! i))"
    using q2(3) i(1) l by (simp_all add: mem_get_in)
  have c: "length (c_params c) = 2040" "unat (c_Size c) \<le> 2048"
    using body_okD [OF assms(2) _ assms(3) [unfolded fresh_cmd_def]] by simp_all
  let ?buf = "\<lambda>n :: CmdCtrlNode. n\<lparr>BufVirtualAddr := Some c\<rparr>"
  obtain q3 where q3: "node_upd i ?buf q2 = Some q3" "q_held {#i#} q3" "q3 = q2\<lparr>CmdArray := (CmdArray q2)[i := ?buf (CmdArray q2 ! i)]\<rparr>"
    using node_upd_ok [OF q2(2), of i ?buf] c by (auto simp: node_ok_def)
  show ?thesis
  proof (cases "ret = 0")
    case r: False
    obtain q4 where q4: "CleanupAndInsertCmd i q3 = Some q4" "q_ok q4" "CurCmd q4 = CurCmd q3" using insert_ok [OF q3(2)] by auto
    have "PrepareAndSendCommand body cmd_no oid wait d = Some (- 1, d\<lparr>d_q := q4\<rparr>)"
      using False q1(1) q2(1) b2 b1 assms(3) q3(1) q4(1) r by (simp add: PrepareAndSendCommand_def fresh_cmd_def)
    then show ?thesis using q4 q3(3) q2(3) q1(5) r False by auto
  next
    case r: True
    let ?w = "\<lambda>n :: CmdCtrlNode. n\<lparr>CmdWaitQWoken := False\<rparr>"
    have b3: "CmdArray q3 ! i = ?buf (?set (CleanUpCmdCtrlNode (CmdArray ?q ! i)))" using q3(3) q2(3) b2(1) n1(1) i(1) l by simp
    have "node_ok (?w (CmdArray q3 ! i))" using b3 c by (simp add: node_ok_def)
    then obtain q4 where q4: "node_upd i ?w q3 = Some q4" "q_held {#i#} q4" "q4 = q3\<lparr>CmdArray := (CmdArray q3)[i := ?w (CmdArray q3 ! i)]\<rparr>"
      using node_upd_ok [OF q3(2), of i ?w] by auto
    have b4: "CmdArray q4 ! i = prepared_node oid wait c (CmdArray ?q ! i)" using q4(3) b3 q3(3) q2(3) i(1) l by (simp add: prepared_node_def)
    have "size_ok (CmdArray q4 ! i)" using b4 c by (simp add: size_ok_def prepared_node_def)
    from queue_ok [OF q4(2) this, of "d_ps d" True] obtain q5 where q5: "QueueCmd (d_ps d) i True q4 = Some q5" "q_ok q5"
      "CurCmd q5 = CurCmd q4" "CmdFreeQ q5 = CmdFreeQ q4" "CmdArray q5 = CmdArray q4" by auto
    have P: "PrepareAndSendCommand body cmd_no oid wait d = Some (0, d\<lparr>d_q := q5\<rparr>)"
      using False q1(1) q2(1) b2 b1 assms(3) q3(1) q4(1) q5(1) r by (simp add: PrepareAndSendCommand_def fresh_cmd_def)
    have arr: "CmdArray q4 = (CmdArray ?q)[i := prepared_node oid wait c (CmdArray ?q ! i)]"
      using b4 q4(3) q3(3) q2(3) q1(6) i by (intro nth_equalityI) (auto simp: nth_list_update)
    have "CmdFreeQ q4 = f" "CmdPendingQ q4 = CmdPendingQ ?q" "CurCmd q4 = CurCmd ?q" using q4(3) q3(3) q2(3) q1(3-5) by simp_all
    then have q4eq: "q4 = ?q\<lparr>CmdFreeQ := f, CmdArray := CmdArray q5\<rparr>" using q5(5) by (cases q4; cases ?q) simp
    show ?thesis
      using P q5 arr f r \<open>CmdFreeQ q4 = f\<close> \<open>CurCmd q4 = CurCmd ?q\<close> False q4eq [symmetric] by (intro exI [of _ 0] exI [of _ "d\<lparr>d_q := q5\<rparr>"]) simp
  qed
qed

section \<open>Transfers\<close>

text \<open>What a transfer may change.\<close>

definition same_tx :: "txdev \<Rightarrow> txdev \<Rightarrow> bool" where
  "same_tx t t' \<longleftrightarrow> PSState (t_wlan t') = PSState (t_wlan t) \<and> wmm (t_wlan t') = wmm (t_wlan t) \<and> CurrentTxSkb (t_wlan t') = CurrentTxSkb (t_wlan t) \<and>
     SurpriseRemoved t' = SurpriseRemoved t \<and> MediaConnected t' = MediaConnected t \<and> sleep_period t' = sleep_period t \<and> length (TmpTxBuf t') = length (TmpTxBuf t)"

lemma same_tx_ok: "same_tx t t' \<Longrightarrow> tx_ok t \<Longrightarrow> tx_ok t'"
  by (simp add: same_tx_def tx_ok_def wmm_ok_def)

definition sent_frame :: "u8 list \<Rightarrow> u8 list \<Rightarrow> bool" where
  "sent_frame payload frame \<longleftrightarrow> mem_sub frame 2 1 = Some [MVMS_CMD] \<and> mem_sub frame 4 (length payload) = Some payload"

lemma host_to_card_cmd:
  assumes "length (TmpTxBuf t) = 2312" "nb = length payload" "0 < nb" "nb \<le> 2048"
  shows "\<exists>t' frame. sbi_host_to_card out MVMS_CMD payload nb t = Some (tx_ret out, t') \<and> same_tx t t' \<and>
    dnld_sent (t_wlan t') = (0 \<le> tx_ret out \<or> dnld_sent (t_wlan t)) \<and> sent_frame payload frame \<and>
    card_writes t' = (if tx_ret out < 0 then card_writes t else card_writes t @ [frame])"
proof -
  let ?h = "[of_nat (nb + 4), of_nat ((nb + 4) div 256), MVMS_CMD, 0] :: u8 list"
  let ?n = "(nb + 4 + 256 - 1) div 256 * 256"
  obtain b1 where b1: "mem_copy (TmpTxBuf t) 0 ?h = Some b1" "length b1 = 2312" using mem_copy_Some [of 0 ?h "TmpTxBuf t"] assms(1) by auto
  obtain b2 where b2: "mem_copy b1 4 payload = Some b2" "length b2 = 2312" using mem_copy_Some [of 4 payload b1] b1(2) assms(2,4) by auto
  have n: "?n \<le> 2312" "nb + 4 \<le> ?n" using assms(4) by linarith+
  have d: "mem_sub b2 0 ?n = Some (take ?n b2)" using n(1) b2(2) by (simp add: mem_sub_def)
  have "mem_sub b2 2 1 = mem_sub b1 2 1" using mem_sub_copy_disjoint [OF b2(1), of 2 1] by simp
  also have "\<dots> = Some [MVMS_CMD]" using b1(1) assms(1) by (auto simp: mem_copy_def mem_sub_def)
  finally have "sent_frame payload (take ?n b2)"
    using mem_sub_copy_same [OF b2(1)] n b2(2) assms(2) by (simp add: sent_frame_def mem_sub_take)
  moreover obtain i where r: "iomem_retry out 0 = (tx_ret out, i)" by (cases "iomem_retry out 0") (simp add: tx_ret_def)
  let ?t = "t\<lparr>HisRegCpy := 0, TmpTxBuf := b2\<rparr>"
  have "sbi_host_to_card out MVMS_CMD payload nb t =
    Some (tx_ret out, if tx_ret out < 0 then ?t else t_upd (\<lambda>s. s\<lparr>dnld_sent := True\<rparr>) ?t\<lparr>card_writes := card_writes ?t @ [take ?n b2]\<rparr>)"
    using b1(1) b2(1) d r assms(2-4) by (simp add: sbi_host_to_card_def Let_def SDIO_HEADER_LEN_def SD_BLOCK_SIZE_def WLAN_UPLD_SIZE_def)
  ultimately show ?thesis using b2(2) assms(1)
    by (intro exI [of _ "if tx_ret out < 0 then ?t else t_upd (\<lambda>s. s\<lparr>dnld_sent := True\<rparr>) ?t\<lparr>card_writes := card_writes ?t @ [take ?n b2]\<rparr>"]
        exI [of _ "take ?n b2"]) (auto simp: same_tx_def t_upd_def)
qed

section \<open>The invariant\<close>

definition cmd_ok :: "cmddev \<Rightarrow> bool" where
  "cmd_ok d \<longleftrightarrow> q_ok (d_q d) \<and> tx_ok (d_tx d) \<and> length (PSConfirmSleep_cmd d) = 18 \<and>
     (d_ps d = PS_STATE_SLEEP \<longrightarrow> CurCmd (d_q d) = None \<and> \<not> d_dnld d)"

lemma w_upd_simps [simp]:
  "d_q (w_upd f d) = d_q d" "t_wlan (d_tx (w_upd f d)) = f (t_wlan (d_tx d))" "PSConfirmSleep_cmd (w_upd f d) = PSConfirmSleep_cmd d"
  "IntCounter (w_upd f d) = IntCounter d" "IsDeepSleep (w_upd f d) = IsDeepSleep d" "card_writes (d_tx (w_upd f d)) = card_writes (d_tx d)"
  "SurpriseRemoved (d_tx (w_upd f d)) = SurpriseRemoved (d_tx d)" "MediaConnected (d_tx (w_upd f d)) = MediaConnected (d_tx d)"
  "sleep_period (d_tx (w_upd f d)) = sleep_period (d_tx d)" "bHostSleepConfigured (w_upd f d) = bHostSleepConfigured d"
  "TmpTxBuf (d_tx (w_upd f d)) = TmpTxBuf (d_tx d)" "NeedToWakeup (w_upd f d) = NeedToWakeup d" "HS_Activated (w_upd f d) = HS_Activated d"
  "bWakeupDevRequired (w_upd f d) = bWakeupDevRequired d" "CommandTimerIsSet (w_upd f d) = CommandTimerIsSet d" "CurCmdRetCode (w_upd f d) = CurCmdRetCode d"
  by (simp_all add: w_upd_def t_upd_def)

lemma set_ps_simps [simp]:
  "d_q (set_ps ps d) = d_q d" "t_wlan (d_tx (set_ps ps d)) = (t_wlan (d_tx d))\<lparr>PSState := ps\<rparr>" "PSConfirmSleep_cmd (set_ps ps d) = PSConfirmSleep_cmd d"
  "IntCounter (set_ps ps d) = IntCounter d" "IsDeepSleep (set_ps ps d) = IsDeepSleep d" "card_writes (d_tx (set_ps ps d)) = card_writes (d_tx d)"
  "MediaConnected (d_tx (set_ps ps d)) = MediaConnected (d_tx d)" "SurpriseRemoved (d_tx (set_ps ps d)) = SurpriseRemoved (d_tx d)"
  "NeedToWakeup (set_ps ps d) = NeedToWakeup d" "TmpTxBuf (d_tx (set_ps ps d)) = TmpTxBuf (d_tx d)"
  "bHostSleepConfigured (set_ps ps d) = bHostSleepConfigured d" "sleep_period (d_tx (set_ps ps d)) = sleep_period (d_tx d)"
  by (simp_all add: set_ps_def)

lemma tx_ok_w_upd:
  "wmm (f (t_wlan (d_tx d))) = wmm (t_wlan (d_tx d)) \<Longrightarrow> CurrentTxSkb (f (t_wlan (d_tx d))) = CurrentTxSkb (t_wlan (d_tx d)) \<Longrightarrow>
   tx_ok (d_tx (w_upd f d)) = tx_ok (d_tx d)"
  by (rule tx_ok_cong) simp_all

lemma tx_ok_set_ps [simp]: "tx_ok (d_tx (set_ps ps d)) = tx_ok (d_tx d)"
  unfolding set_ps_def by (rule tx_ok_w_upd) simp_all

lemma cmd_ok_awake: "cmd_ok d \<Longrightarrow> ps \<noteq> PS_STATE_SLEEP \<Longrightarrow> cmd_ok (set_ps ps d)"
  by (simp add: cmd_ok_def)

text \<open>A change of other fields.\<close>

lemma cmd_ok_other:
  "cmd_ok d \<Longrightarrow> d_q d' = d_q d \<Longrightarrow> d_tx d' = d_tx d \<Longrightarrow> PSConfirmSleep_cmd d' = PSConfirmSleep_cmd d \<Longrightarrow> cmd_ok d'"
  by (simp add: cmd_ok_def)

lemma cmd_ok_q:
  "cmd_ok d \<Longrightarrow> q_ok q \<Longrightarrow> CurCmd q = CurCmd (d_q d) \<or> CurCmd q = None \<Longrightarrow> cmd_ok (d\<lparr>d_q := q\<rparr>)"
  by (auto simp: cmd_ok_def)

lemma prepare_ok:
  assumes "cmd_ok d" "body_ok body"
  shows "\<exists>r d'. PrepareAndSendCommand body cmd_no oid wait d = Some (r, d') \<and> d' = d\<lparr>d_q := d_q d'\<rparr> \<and> cmd_ok d' \<and> CurCmd (d_q d') = CurCmd (d_q d)"
proof -
  obtain ret c where "fresh_cmd body cmd_no d = (ret, c)" by fastforce
  from prepare_cases [OF _ assms(2) this, of oid wait] assms(1) obtain r d' where
    p: "PrepareAndSendCommand body cmd_no oid wait d = Some (r, d')" "d' = d\<lparr>d_q := d_q d'\<rparr>" "q_ok (d_q d')" "CurCmd (d_q d') = CurCmd (d_q d)"
    by (auto simp: cmd_ok_def)
  then show ?thesis using cmd_ok_q [OF assms(1) p(3)] by metis
qed

lemma wakeup_ok: "cmd_ok d \<Longrightarrow> \<exists>d'. PSWakeup wait d = Some d' \<and> d' = d\<lparr>d_q := d_q d'\<rparr> \<and> cmd_ok d' \<and> CurCmd (d_q d') = CurCmd (d_q d)"
  using prepare_ok [OF _ ps_mode_body] by (fastforce simp: PSWakeup_def)

lemma sleep_ok: "cmd_ok d \<Longrightarrow> \<exists>d'. PSSleep wait d = Some d' \<and> d' = d\<lparr>d_q := d_q d'\<rparr> \<and> cmd_ok d' \<and> CurCmd (d_q d') = CurCmd (d_q d)"
  using prepare_ok [OF _ ps_mode_body] by (fastforce simp: PSSleep_def)

lemma finish_ok:
  assumes "q_ok (d_q d)" "CurCmd (d_q d) = Some i"
  shows "\<exists>d'. finish_cmd i d = Some d' \<and> d' = d\<lparr>d_q := d_q d'\<rparr> \<and> q_ok (d_q d') \<and> CurCmd (d_q d') = None \<and>
    CmdPendingQ (d_q d') = CmdPendingQ (d_q d) \<and> CmdFreeQ (d_q d') = CmdFreeQ (d_q d) @ [i] \<and>
    CmdArray (d_q d') = (CmdArray (d_q d))[i := CleanUpCmdCtrlNode (CmdArray (d_q d) ! i)]"
proof -
  have i: "i \<in># {#} + cur_nodes (d_q d)" "i < 10" using assms held_less(4) [OF assms(1), of i] by (simp_all add: cur_nodes_def)
  have n: "node_ok (CleanUpCmdCtrlNode (CmdArray (d_q d) ! i))" using held_node [OF assms(1) i(2)] clean_ok by simp
  obtain q where q: "node_upd i CleanUpCmdCtrlNode (d_q d) = Some q" "q_ok q" "q = (d_q d)\<lparr>CmdArray := (CmdArray (d_q d))[i := CleanUpCmdCtrlNode (CmdArray (d_q d) ! i)]\<rparr>"
    using node_upd_ok [OF assms(1) i(1), of CleanUpCmdCtrlNode] n by auto
  have "q_ok (q\<lparr>CmdFreeQ := CmdFreeQ q @ [i], CurCmd := None\<rparr>)" using q(2,3) assms(2) by (simp add: q_held_def cur_nodes_def)
  then show ?thesis using q by (simp add: finish_cmd_def CleanupAndInsertCmd_def)
qed

lemma finish_cmd_ok: "cmd_ok d \<Longrightarrow> CurCmd (d_q d) = Some i \<Longrightarrow> \<exists>d'. finish_cmd i d = Some d' \<and> d' = d\<lparr>d_q := d_q d'\<rparr> \<and> cmd_ok d' \<and> CurCmd (d_q d') = None"
  using finish_ok [of d i] cmd_ok_q [of d] by (metis cmd_ok_def)

text \<open>At most one frame is written, and then the card is busy or sleeps.\<close>

definition wrote :: "cmddev \<Rightarrow> cmddev \<Rightarrow> bool" where
  "wrote d d' \<longleftrightarrow> card_writes (d_tx d') = card_writes (d_tx d) \<or>
     (\<exists>f. card_writes (d_tx d') = card_writes (d_tx d) @ [f] \<and> (d_dnld d' \<or> IsDeepSleep d'))"

lemma deep_sleep_ok:
  assumes "q_ok (d_q d)" "CurCmd (d_q d) = Some i" "tx_ok (d_tx d)"
  shows "\<exists>d'. enter_deep_sleep i d = Some d' \<and> q_ok (d_q d') \<and> tx_ok (d_tx d') \<and> PSConfirmSleep_cmd d' = PSConfirmSleep_cmd d \<and>
    CurCmd (d_q d') = None \<and> d_ps d' = d_ps d \<and> IsDeepSleep d' \<and> card_writes (d_tx d') = card_writes (d_tx d)"
proof -
  have n: "CurrentTxSkb (t_wlan (d_tx d)) = None" using assms(3) by (simp add: tx_ok_def)
  define x where "x = (if IntCounter d \<noteq> 0 then d\<lparr>IntCounterSaved := IntCounter d, IntCounter := 0\<rparr> else d)"
  have x: "d_q x = d_q d" "d_tx x = d_tx d" "PSConfirmSleep_cmd x = PSConfirmSleep_cmd d" by (simp_all add: x_def)
  obtain d1 where d1: "finish_cmd i (x\<lparr>IsDeepSleep := True\<rparr>) = Some d1" "d1 = x\<lparr>IsDeepSleep := True, d_q := d_q d1\<rparr>" "q_ok (d_q d1)" "CurCmd (d_q d1) = None"
    using finish_ok [of "x\<lparr>IsDeepSleep := True\<rparr>" i] assms(1,2) x by auto
  have f: "d_tx d1 = d_tx d" "IsDeepSleep d1" "PSConfirmSleep_cmd d1 = PSConfirmSleep_cmd d"
    using arg_cong [OF d1(2), of d_tx] arg_cong [OF d1(2), of IsDeepSleep] arg_cong [OF d1(2), of PSConfirmSleep_cmd] x by simp_all
  let ?d2 = "d1\<lparr>CommandTimerIsSet := False\<rparr>"
  let ?d3 = "if IsAutoDeepSleepEnabled ?d2 then w_upd (\<lambda>s. s\<lparr>dnld_sent := False\<rparr>) (?d2\<lparr>bWakeupDevRequired := True\<rparr>) else ?d2"
  let ?d4 = "if bHostSleepConfigured ?d3 then wlan_host_sleep_activated_event (?d3\<lparr>bWakeupDevRequired := True\<rparr>) else ?d3"
  have e: "enter_deep_sleep i d = Some ?d4"
    using d1(1) n x(2) unfolding enter_deep_sleep_def Let_def x_def [symmetric] by simp
  have t3: "tx_ok (d_tx ?d3)" using assms(3) f(1) by (auto simp: tx_ok_def wmm_ok_def)
  have st: "tx_ok (d_tx (wlan_host_sleep_activated_event x))" if "tx_ok (d_tx x)" for x
    using that by (simp add: wlan_host_sleep_activated_event_def tx_ok_def wmm_ok_def w_upd_def t_upd_def wmm_stop_queue_def wmm_upd_def
        os_stop_queue_def os_carrier_off_def Let_def)
  have "tx_ok (d_tx ?d4)" using t3 st [of "?d3\<lparr>bWakeupDevRequired := True\<rparr>"] by simp
  moreover have "d_q ?d4 = d_q d1" "IsDeepSleep ?d4" "PSConfirmSleep_cmd ?d4 = PSConfirmSleep_cmd d" "card_writes (d_tx ?d4) = card_writes (d_tx d)"
    using f by (simp_all add: wlan_host_sleep_activated_event_def)
  moreover have "d_ps ?d4 = d_ps d" using f(1)
    by (simp add: wlan_host_sleep_activated_event_def wmm_stop_queue_def wmm_upd_def os_stop_queue_def os_carrier_off_def)
  ultimately show ?thesis using e d1(3,4) by simp
qed

lemma length_cmd_bytes: "length (cmd_bytes c) = 8 + length (c_params c)"
  by (simp add: cmd_bytes_def le16_of_def)

definition loaded :: "cmddev \<Rightarrow> nat \<Rightarrow> HostCmd \<Rightarrow> bool" where
  "loaded d i c \<longleftrightarrow> BufVirtualAddr (CmdArray (d_q d) ! i) = Some c"

text \<open>Sending the command of node \<open>i\<close>, which is in no queue.\<close>

lemma download_ok:
  assumes "q_held {#i#} (d_q d)" "CurCmd (d_q d) = None" "loaded d i c" "unat (c_Size c) \<le> 2048" "tx_ok (d_tx d)"
    and "length (PSConfirmSleep_cmd d) = 18" "d_ps d \<noteq> PS_STATE_SLEEP"
  shows "\<exists>r d'. DownloadCommandToStation out i d = Some (r, d') \<and> cmd_ok d' \<and> d_ps d' = d_ps d \<and> wrote d d' \<and>
    (tx_ret out = 0 \<longrightarrow> c_Size c \<noteq> 0 \<longrightarrow> c_Command c \<noteq> HostCmd_CMD_802_11_DEEP_SLEEP \<longrightarrow>
       CurCmd (d_q d') = Some i \<and> CmdPendingQ (d_q d') = CmdPendingQ (d_q d) \<and> CmdFreeQ (d_q d') = CmdFreeQ (d_q d) \<and> CurCmdRetCode d' = 0 \<and>
       (\<forall>j. j \<noteq> i \<longrightarrow> CmdArray (d_q d') ! j = CmdArray (d_q d) ! j) \<and> CommandTimerIsSet d' \<and> d_dnld d' \<and> SurpriseRemoved (d_tx d') = SurpriseRemoved (d_tx d) \<and>
       (\<exists>frame. card_writes (d_tx d') = card_writes (d_tx d) @ [frame] \<and>
          sent_frame (take (unat (c_Size c)) (cmd_bytes (c\<lparr>c_SeqNum := SeqNum d + 1\<rparr>))) frame))"
proof -
  have i: "i < 10" using held_less(1) [OF assms(1), of i] by simp
  have g: "mem_get (CmdArray (d_q d)) i = Some (CmdArray (d_q d) ! i)" and nok: "node_ok (CmdArray (d_q d) ! i)" using held_node [OF assms(1) i] by simp_all
  have c: "BufVirtualAddr (CmdArray (d_q d) ! i) = Some c" "length (c_params c) = 2040" using assms(3) nok by (auto simp: loaded_def node_ok_def)
  show ?thesis
  proof (cases "c_Size c = 0")
    case True
    obtain q where q: "CleanupAndInsertCmd i (d_q d) = Some q" "q_ok q" "CurCmd q = None" using insert_ok [OF assms(1)] assms(2) by auto
    have "DownloadCommandToStation out i d = Some (- 1, d\<lparr>d_q := q\<rparr>)" using g c True q(1) by (simp add: DownloadCommandToStation_def)
    then show ?thesis using q assms True by (auto simp: cmd_ok_def wrote_def)
  next
    case False
    let ?c = "c\<lparr>c_SeqNum := SeqNum d + 1\<rparr>" and ?sz = "unat (c_Size c)"
    let ?f = "\<lambda>n. n\<lparr>BufVirtualAddr := Some ?c, CmdWaitQWoken := False\<rparr>"
    obtain q where q: "node_upd i ?f (d_q d) = Some q" "q_held {#i#} q" "q = (d_q d)\<lparr>CmdArray := (CmdArray (d_q d))[i := ?f (CmdArray (d_q d) ! i)]\<rparr>"
      using node_upd_ok [OF assms(1), of i ?f] c(2) by (auto simp: node_ok_def)
    let ?d1 = "d\<lparr>SeqNum := SeqNum d + 1, d_q := q\<lparr>CurCmd := Some i\<rparr>, CurCmdRetCode := 0\<rparr>"
    have q1: "q_ok (q\<lparr>CurCmd := Some i\<rparr>)" using q(2,3) assms(2) by (simp add: q_held_def cur_nodes_def)
    have sz: "0 < ?sz" using False by (simp add: unat_gt_0)
    let ?pl = "take ?sz (cmd_bytes ?c)"
    have pl: "mem_sub (cmd_bytes ?c) 0 ?sz = Some ?pl" "?sz = length ?pl" using assms(4) c(2) by (simp_all add: mem_sub_def length_cmd_bytes)
    obtain t frame where t: "sbi_host_to_card out MVMS_CMD ?pl ?sz (d_tx d) = Some (tx_ret out, t)" "same_tx (d_tx d) t"
      "dnld_sent (t_wlan t) = (0 \<le> tx_ret out \<or> d_dnld d)" "sent_frame ?pl frame"
      "card_writes t = (if tx_ret out < 0 then card_writes (d_tx d) else card_writes (d_tx d) @ [frame])"
      using host_to_card_cmd [OF _ pl(2) sz assms(4), of "d_tx d" out] assms(5) by (auto simp: tx_ok_def WLAN_UPLD_SIZE_def)
    let ?t = "t\<lparr>HisRegCpy := HisRegCpy t AND NOT HIS_TxDnLdRdy\<rparr>"
    let ?d2 = "?d1\<lparr>d_tx := ?t\<rparr>"
    have tok: "tx_ok ?t" using same_tx_ok [OF t(2) assms(5)] by (simp add: tx_ok_def)
    have ps: "PSState (t_wlan t) = d_ps d" "SurpriseRemoved t = SurpriseRemoved (d_tx d)" using t(2) by (simp_all add: same_tx_def)
    have D: "DownloadCommandToStation out i d =
      (if tx_ret out \<noteq> 0 then do { d \<leftarrow> finish_cmd i (?d2\<lparr>CurCmdRetCode := - 1\<rparr>); Some (- 1, d) }
       else do { d \<leftarrow> (if c_Command c = HostCmd_CMD_802_11_DEEP_SLEEP then enter_deep_sleep i (?d2\<lparr>CommandTimerIsSet := True\<rparr>) else Some (?d2\<lparr>CommandTimerIsSet := True\<rparr>));
                 Some (0, d) })"
      using g c(1) False q(1) pl(1) t(1) assms(4) by (simp add: DownloadCommandToStation_def Let_def WLAN_UPLD_SIZE_def SDIO_HEADER_LEN_def)
    show ?thesis
    proof (cases "tx_ret out = 0")
      case r: False
      let ?d3 = "?d2\<lparr>CurCmdRetCode := - 1\<rparr>"
      obtain d' where d': "finish_cmd i ?d3 = Some d'" "d' = ?d3\<lparr>d_q := d_q d'\<rparr>" "q_ok (d_q d')" "CurCmd (d_q d') = None"
        using finish_ok [of ?d3 i] q1 by auto
      have f: "d_tx d' = ?t" "PSConfirmSleep_cmd d' = PSConfirmSleep_cmd d"
        using arg_cong [OF d'(2), of d_tx] arg_cong [OF d'(2), of PSConfirmSleep_cmd] by simp_all
      have "cmd_ok d'" using d'(3,4) f tok assms(6,7) ps by (simp add: cmd_ok_def)
      moreover have "wrote d d'" using t(3,5) f(1) by (auto simp: wrote_def)
      ultimately show ?thesis using D d'(1) r f(1) ps by simp
    next
      case r: True
      show ?thesis
      proof (cases "c_Command c = HostCmd_CMD_802_11_DEEP_SLEEP")
        case True
        let ?d3 = "?d2\<lparr>CommandTimerIsSet := True\<rparr>"
        obtain d' where d': "enter_deep_sleep i ?d3 = Some d'" "q_ok (d_q d')" "tx_ok (d_tx d')" "PSConfirmSleep_cmd d' = PSConfirmSleep_cmd d"
          "d_ps d' = d_ps d" "IsDeepSleep d'" "card_writes (d_tx d') = card_writes (d_tx d) @ [frame]"
          using deep_sleep_ok [of ?d3 i] q1 tok ps t(5) r by auto
        then show ?thesis using D r True assms(6,7) by (auto simp: cmd_ok_def wrote_def)
      next
        case False
        have "cmd_ok (?d2\<lparr>CommandTimerIsSet := True\<rparr>)" using q1 tok assms(6,7) ps by (simp add: cmd_ok_def)
        then show ?thesis using D r False t ps q(3) by (auto simp: wrote_def)
      qed
    qed
  qed
qed

section \<open>The operations keep the invariant\<close>

lemma wrote_same: "card_writes (d_tx d') = card_writes (d_tx d) \<Longrightarrow> wrote d d'"
  by (simp add: wrote_def)

lemma del_pending_head:
  assumes "q_ok (d_q d)" "CmdPendingQ (d_q d) = i # r"
  shows "q_held {#i#} (d_q (del_pending i d))" "CurCmd (d_q (del_pending i d)) = CurCmd (d_q d)" "CmdPendingQ (d_q (del_pending i d)) = r"
    "CmdArray (d_q (del_pending i d)) = CmdArray (d_q d)" "CmdFreeQ (d_q (del_pending i d)) = CmdFreeQ (d_q d)"
    "d_tx (del_pending i d) = d_tx d" "PSConfirmSleep_cmd (del_pending i d) = PSConfirmSleep_cmd d" "SeqNum (del_pending i d) = SeqNum d"
  using assms by (simp_all add: del_pending_def q_held_def cur_nodes_def)

lemma pending_loaded:
  assumes "q_ok (d_q d)" "CmdPendingQ (d_q d) = i # r"
  shows "\<exists>c. loaded d i c \<and> unat (c_Size c) \<le> 2048 \<and> mem_get (CmdArray (d_q d)) i = Some (CmdArray (d_q d) ! i)"
proof -
  have "i < 10" using held_less(3) [OF assms(1), of i] assms(2) by simp
  moreover have "size_ok (CmdArray (d_q d) ! i)" using assms by (simp add: q_held_def)
  ultimately show ?thesis using held_node [OF assms(1)] by (auto simp: size_ok_def loaded_def)
qed

lemma send_pending:
  assumes "cmd_ok d" "CurCmd (d_q d) = None" "CmdPendingQ (d_q d) = i # r" "loaded d i c" "unat (c_Size c) \<le> 2048" "d_ps d \<noteq> PS_STATE_SLEEP"
  shows "\<exists>ret d'. DownloadCommandToStation out i (del_pending i d) = Some (ret, d') \<and> cmd_ok d' \<and> d_ps d' = d_ps d \<and> wrote d d' \<and>
    (tx_ret out = 0 \<longrightarrow> c_Size c \<noteq> 0 \<longrightarrow> c_Command c \<noteq> HostCmd_CMD_802_11_DEEP_SLEEP \<longrightarrow>
       CurCmd (d_q d') = Some i \<and> CmdPendingQ (d_q d') = r \<and> CmdFreeQ (d_q d') = CmdFreeQ (d_q d) \<and> CurCmdRetCode d' = 0 \<and>
       (\<forall>j. j \<noteq> i \<longrightarrow> CmdArray (d_q d') ! j = CmdArray (d_q d) ! j) \<and> CommandTimerIsSet d' \<and> d_dnld d' \<and> SurpriseRemoved (d_tx d') = SurpriseRemoved (d_tx d) \<and>
       (\<exists>frame. card_writes (d_tx d') = card_writes (d_tx d) @ [frame] \<and>
          sent_frame (take (unat (c_Size c)) (cmd_bytes (c\<lparr>c_SeqNum := SeqNum d + 1\<rparr>))) frame))"
proof -
  have q: "q_ok (d_q d)" using assms(1) by (simp add: cmd_ok_def)
  note p = del_pending_head [OF q assms(3)]
  have l: "loaded (del_pending i d) i c" using assms(4) p(4) by (simp add: loaded_def)
  have w: "wrote (del_pending i d) x = wrote d x" for x by (simp add: wrote_def p(6))
  from download_ok [OF p(1) _ l assms(5), of out] assms(1,2,6) show ?thesis unfolding p w by (auto simp: cmd_ok_def)
qed

lemma drop_pending:
  assumes "cmd_ok d" "CmdPendingQ (d_q d) = i # r"
  shows "\<exists>q. CleanupAndInsertCmd i (d_q (del_pending i d)) = Some q \<and> cmd_ok (d\<lparr>d_q := q\<rparr>)"
proof -
  have q: "q_ok (d_q d)" using assms(1) by (simp add: cmd_ok_def)
  note p = del_pending_head [OF q assms(2)]
  obtain q' where "CleanupAndInsertCmd i (d_q (del_pending i d)) = Some q'" "q_ok q'" "CurCmd q' = CurCmd (d_q d)" using insert_ok [OF p(1)] p(2) by auto
  then show ?thesis using cmd_ok_q [OF assms(1)] by auto
qed

lemma exec_pending_ok:
  assumes "cmd_ok d" "CurCmd (d_q d) = None" "CmdPendingQ (d_q d) = i # r" "d_ps d \<noteq> PS_STATE_SLEEP"
  shows "\<exists>ret d'. exec_pending out i d = Some (ret, d') \<and> cmd_ok d' \<and> d_ps d' = d_ps d \<and> wrote d d'"
proof -
  have q: "q_ok (d_q d)" using assms(1) by (simp add: cmd_ok_def)
  obtain c where c: "loaded d i c" "unat (c_Size c) \<le> 2048" "mem_get (CmdArray (d_q d)) i = Some (CmdArray (d_q d) ! i)"
    using pending_loaded [OF q assms(3)] by blast
  obtain ret1 d1 where s: "DownloadCommandToStation out i (del_pending i d) = Some (ret1, d1)" "cmd_ok d1" "d_ps d1 = d_ps d" "wrote d d1"
    using send_pending [OF assms(1-3) c(1,2) assms(4), of out] by blast
  obtain d2 where w: "PSWakeup 0 d = Some d2" "d2 = d\<lparr>d_q := d_q d2\<rparr>" "cmd_ok d2" using wakeup_ok [OF assms(1)] by blast
  have w': "d_tx d2 = d_tx d" using arg_cong [OF w(2), of d_tx] by simp
  obtain q3 where x: "CleanupAndInsertCmd i (d_q (del_pending i d)) = Some q3" "cmd_ok (d\<lparr>d_q := q3\<rparr>)" using drop_pending [OF assms(1,3)] by blast
  have n: "cmd_ok (d\<lparr>NeedToWakeup := True\<rparr>)" "cmd_ok (d\<lparr>d_q := q3, NeedToWakeup := True\<rparr>)"
    using cmd_ok_other [OF assms(1), of "d\<lparr>NeedToWakeup := True\<rparr>"] cmd_ok_other [OF x(2), of "d\<lparr>d_q := q3, NeedToWakeup := True\<rparr>"] by simp_all
  show ?thesis
    using c s w w' x n assms(1) unfolding exec_pending_def loaded_def by (auto simp: Let_def wrote_def)
qed

text \<open>An operation that only works on the queues.\<close>

lemma keep_tx:
  assumes e: "d' = d\<lparr>d_q := d_q d'\<rparr>"
  shows "d_tx d' = d_tx d" "IsDeepSleep d' = IsDeepSleep d" "NeedToWakeup d' = NeedToWakeup d" "HS_Activated d' = HS_Activated d"
    "bWakeupDevRequired d' = bWakeupDevRequired d" "IntCounter d' = IntCounter d" "CurCmdRetCode d' = CurCmdRetCode d" "IsAutoDeepSleepEnabled d' = IsAutoDeepSleepEnabled d"
  using arg_cong [OF e, of d_tx] arg_cong [OF e, of IsDeepSleep] arg_cong [OF e, of NeedToWakeup] arg_cong [OF e, of HS_Activated]
    arg_cong [OF e, of bWakeupDevRequired] arg_cong [OF e, of IntCounter] arg_cong [OF e, of CurCmdRetCode] arg_cong [OF e, of IsAutoDeepSleepEnabled]
  by simp_all

lemma prepare_snd:
  assumes "cmd_ok d" "body_ok body"
  shows "\<exists>d'. map_option snd (PrepareAndSendCommand body cmd_no oid wait d) = Some d' \<and> d' = d\<lparr>d_q := d_q d'\<rparr> \<and> cmd_ok d' \<and> CurCmd (d_q d') = CurCmd (d_q d)"
  using prepare_ok [OF assms, of cmd_no oid wait] by fastforce

text \<open>Both parts of \<open>exec_idle\<close> are a conditional command.\<close>

definition only_q :: "cmddev \<Rightarrow> cmddev \<Rightarrow> bool" where
  "only_q d d' \<longleftrightarrow> d' = d\<lparr>d_q := d_q d'\<rparr> \<and> cmd_ok d' \<and> CurCmd (d_q d') = CurCmd (d_q d)"

lemma only_q_refl: "cmd_ok d \<Longrightarrow> only_q d d"
  by (simp add: only_q_def)

lemma only_q_trans: "only_q a b \<Longrightarrow> only_q b c \<Longrightarrow> only_q a c"
proof -
  assume h: "only_q a b" "only_q b c"
  have "c = (a\<lparr>d_q := d_q b\<rparr>)\<lparr>d_q := d_q c\<rparr>" using h unfolding only_q_def by metis
  then show ?thesis using h by (simp add: only_q_def)
qed

lemma exec_idle_ok:
  assumes "cmd_ok d"
  shows "\<exists>d'. exec_idle d = Some (0, d') \<and> only_q d d'"
proof -
  have P: "\<exists>d'. map_option snd (PrepareAndSendCommand (prep_header n) n 0 0 x) = Some d' \<and> only_q x d'" if "cmd_ok x" for n x
    using prepare_snd [OF that header_body] by (simp add: only_q_def)
  have S: "\<exists>d'. PSSleep 0 x = Some d' \<and> only_q x d'" if "cmd_ok x" for x using sleep_ok [OF that] by (simp add: only_q_def)
  let ?A = "if MediaConnected (d_tx d) then
       (if \<not> PSMode_CAM d \<and> d_ps d = PS_STATE_FULL_POWER then
          (if WPA d then (if IsGTK_SET d then PSSleep 0 d else Some d)
           else if \<not> IBSS d \<or> cur_ATIMWindow d \<noteq> 0 then PSSleep 0 d else Some d)
        else Some d)
     else if IsAutoDeepSleepEnabled d \<and> IntCounter d = 0 then
       map_option snd (PrepareAndSendCommand (prep_header HostCmd_CMD_802_11_DEEP_SLEEP) HostCmd_CMD_802_11_DEEP_SLEEP 0 0 d)
     else Some d"
  have "\<exists>d1. ?A = Some d1 \<and> only_q d d1" using P [OF assms] S [OF assms] only_q_refl [OF assms] by simp
  then obtain d1 where d1: "?A = Some d1" "only_q d d1" by blast
  let ?B = "bHostSleepConfigured d1 \<and> \<not> HS_Activated d1 \<and> (MediaConnected (d_tx d) \<or> \<not> IsAutoDeepSleepEnabled d1) \<and>
     (PSMode_CAM d1 \<and> d_ps d1 = PS_STATE_FULL_POWER \<or> IBSS d1 \<and> cur_ATIMWindow d1 = 0)"
  let ?C = "if ?B then map_option snd (PrepareAndSendCommand (prep_header HostCmd_CMD_802_11_HOST_SLEEP_ACTIVATE) HostCmd_CMD_802_11_HOST_SLEEP_ACTIVATE 0 0 d1) else Some d1"
  have c1: "cmd_ok d1" using d1(2) by (simp add: only_q_def)
  have "\<exists>d2. ?C = Some d2 \<and> only_q d1 d2" using P [OF c1] only_q_refl [OF c1] by simp
  then obtain d2 where d2: "?C = Some d2" "only_q d1 d2" by blast
  have "exec_idle d = Some (0, d2)"
    unfolding exec_idle_def Let_def d1(1) Option.bind.simps d2(1) by simp
  then show ?thesis using only_q_trans [OF d1(2) d2(2)] by simp
qed

lemma execute_ok:
  assumes "cmd_ok d" "d_ps d \<noteq> PS_STATE_SLEEP"
  shows "\<exists>ret d'. ExecuteNextCommand out d = Some (ret, d') \<and> cmd_ok d' \<and> d_ps d' = d_ps d \<and> wrote d d'"
proof (cases "CurCmd (d_q d) \<noteq> None")
  case True
  then show ?thesis using assms by (auto simp: ExecuteNextCommand_def wrote_def)
next
  case False
  show ?thesis
  proof (cases "CmdPendingQ (d_q d)")
    case Nil
    then show ?thesis using exec_idle_ok [OF assms(1)] False by (auto simp: ExecuteNextCommand_def only_q_def wrote_def dest: keep_tx(1))
  next
    case (Cons i r)
    then show ?thesis using exec_pending_ok [OF assms(1) _ Cons assms(2), of out] False by (simp add: ExecuteNextCommand_def)
  qed
qed

end
