(* ===== verification/WlanMain.thy ===== *)
theory WlanMain
  imports WlanCmd
begin

text \<open>
  The thread that drives the wireless card: the reading of the interrupt status and of what the card has to say,
  \<^verbatim>\<open>sbi_get_int_status\<close> of \<^verbatim>\<open>if_sdio.c\<close>, the events of the firmware,
  \<^verbatim>\<open>wlan_process_event\<close>, a round of the main loop of \<^verbatim>\<open>wlan_main.c\<close>, and the
  commands that a user gives by \<^verbatim>\<open>wlan_hostcmd_ioctl\<close>. The bus is a parameter: what
  the registers and the port of the card answer.
\<close>

section \<open>Interrupt status\<close>

text \<open>The answers of the bus during one call, \<open>None\<close> or \<open>False\<close> where a transfer fails: the status register, the write that
  clears it, the allocation of a packet buffer, the length of the data in the card and the data.\<close>

record card_irq =
  irq_status :: "u8 option"
  irq_clear :: bool
  irq_skb :: bool
  irq_scratch :: "u16 option"
  irq_iomem :: "u8 list option"

definition DN_LD_HOST_INT_STATUS :: u8 where "DN_LD_HOST_INT_STATUS = 2"
definition UP_LD_HOST_INT_STATUS :: u8 where "UP_LD_HOST_INT_STATUS = 1"
definition HIS_RxUpLdRdy :: u8 where "HIS_RxUpLdRdy = 1"
definition HIS_CardEvent :: u8 where "HIS_CardEvent = 8"
definition HIS_CmdUpLdRdy :: u8 where "HIS_CmdUpLdRdy = 16"
definition MVSD_DAT :: u32 where "MVSD_DAT = 0"
definition MVSD_CMD :: u32 where "MVSD_CMD = 1"
definition MVSD_EVENT :: u32 where "MVSD_EVENT = 3"
definition ALLOC_BUF_SIZE :: nat where
  "ALLOC_BUF_SIZE = (MRVDRV_SIZE_OF_CMD_BUFFER + SDIO_HEADER_LEN + SD_BLOCK_SIZE - 1) div SD_BLOCK_SIZE * SD_BLOCK_SIZE"

text \<open>The value is \<open>Inl\<close> when the transfer fails, and otherwise the type, the length and the data.\<close>

definition mv_sdio_card_to_host :: "card_irq \<Rightarrow> cmddev \<Rightarrow> (unit + u32 \<times> nat \<times> u8 list) option \<times> cmddev" where
  "mv_sdio_card_to_host c d =
     (case irq_scratch c of
        None \<Rightarrow> (Some (Inl ()), d)
      | Some buf_len \<Rightarrow>
          if unat buf_len \<le> SDIO_HEADER_LEN \<or> unat buf_len > ALLOC_BUF_SIZE then (Some (Inl ()), d)
          else
            case irq_iomem c of
              None \<Rightarrow> (Some (Inl ()), d)
            | Some payload \<Rightarrow>
                if length payload < 8 then (None, d)
                else
                  let typ = ucast (payload ! 2) OR push_bit 8 (ucast (payload ! 3));
                      ev = le32_to (take 4 (drop 4 payload))
                  in (Some (Inr (typ, unat buf_len, payload)),
                      if typ = MVSD_EVENT then d\<lparr>EventCause := MVSD_EVENT OR push_bit 3 (ucast (ucast ev :: u16))\<rparr> else d))"

text \<open>The values are the result, the bits for \<open>HisRegCpy\<close> and the packet received, if there is one.\<close>

definition sbi_get_int_status :: "card_irq \<Rightarrow> cmddev \<Rightarrow> (int \<times> u8 \<times> u8 list option \<times> cmddev) option" where
  "sbi_get_int_status c d =
     (case irq_status c of
        None \<Rightarrow> Some (- 1, 0, None, d)
      | Some st \<Rightarrow>
          if st \<noteq> 0 \<and> \<not> irq_clear c then Some (- 1, 0, None, d)
          else
            do { let dn = st AND DN_LD_HOST_INT_STATUS \<noteq> 0;
                 let ireg = (if dn then HIS_TxDnLdRdy else 0);
                 let d = (if dn then d\<lparr>d_tx := tx_done_int (d_tx d)\<rparr> else d);
                 if st AND UP_LD_HOST_INT_STATUS = 0 then Some (0, ireg, None, d)
                 else if \<not> irq_skb c then Some (- 1, ireg, None, d)
                 else
                   (case mv_sdio_card_to_host c d of
                      (None, _) \<Rightarrow> None
                    | (Some (Inl _), d) \<Rightarrow> Some (- 1, ireg, None, d)
                    | (Some (Inr (typ, upld_len, payload)), d) \<Rightarrow>
                        if typ = MVSD_DAT then
                          do { frame \<leftarrow> mem_sub payload SDIO_HEADER_LEN (upld_len - SDIO_HEADER_LEN);
                               Some (0, ireg OR HIS_RxUpLdRdy, Some frame, d) }
                        else if typ = MVSD_CMD then
                          do { bytes \<leftarrow> mem_sub payload SDIO_HEADER_LEN (upld_len - SDIO_HEADER_LEN);
                               d \<leftarrow> upload_cmd bytes d;
                               Some (0, ireg OR HIS_CmdUpLdRdy, None, d) }
                        else if typ = MVSD_EVENT then Some (0, ireg OR HIS_CardEvent, None, d)
                        else Some (0, ireg, None, d)) })"

section \<open>Events of the firmware\<close>

definition MRVDRV_TxPD_POWER_MGMT_NULL_PACKET :: u8 where "MRVDRV_TxPD_POWER_MGMT_NULL_PACKET = 1"

definition event_ps_sleep :: "(nat \<Rightarrow> int) \<Rightarrow> cmddev \<Rightarrow> cmddev option" where
  "event_ps_sleep out d = (if d_ps d = PS_STATE_FULL_POWER then Some d else PSConfirmSleep out (set_ps PS_STATE_PRE_SLEEP d))"

definition event_ps_awake :: "(nat \<Rightarrow> int) \<Rightarrow> cmddev \<Rightarrow> cmddev option" where
  "event_ps_awake out d =
     (if d_ps d = PS_STATE_FULL_POWER then Some d
      else
        do { let t = (d_tx d)\<lparr>TxLockFlag := False\<rparr>;
             t \<leftarrow> (if CheckLastPacketIndication t \<and> \<not> dnld_sent (t_wlan t) \<and> gen_null_pkg (t_wlan t) then
                      do { (_, t) \<leftarrow> SendNullPacket out (MRVDRV_TxPD_POWER_MGMT_NULL_PACKET OR MRVDRV_TxPD_POWER_MGMT_LAST_PACKET) t;
                           Some (t\<lparr>TxLockFlag := True\<rparr>) }
                    else Some t);
             let d = set_ps PS_STATE_AWAKE (d\<lparr>d_tx := t\<rparr>);
             if NeedToWakeup d then PSWakeup 0 d else Some d })"

definition event_ds_awake :: "cmddev \<Rightarrow> cmddev" where
  "event_ds_awake d =
     (if IsDeepSleep d then
        (let d = w_upd (\<lambda>s. s\<lparr>dnld_sent := False\<rparr>) (d\<lparr>IsDeepSleep := False, bWakeupDevRequired := False, WakeupTries := 0\<rparr>)
         in d\<lparr>d_tx := (d_tx d)\<lparr>HisRegCpy := HisRegCpy (d_tx d) OR HIS_TxDnLdRdy\<rparr>\<rparr>)
      else d)"

definition event_hs_awake :: "cmddev \<Rightarrow> cmddev option" where
  "event_hs_awake d =
     (let d = d\<lparr>bWakeupDevRequired := False, WakeupTries := 0\<rparr>;
          d = (if IsDeepSleep d then
                 (let d = w_upd (\<lambda>s. s\<lparr>dnld_sent := False\<rparr>) (d\<lparr>IsDeepSleep := False\<rparr>)
                  in d\<lparr>d_tx := (d_tx d)\<lparr>HisRegCpy := HisRegCpy (d_tx d) OR HIS_TxDnLdRdy\<rparr>\<rparr>)
               else d)
      in map_option snd (PrepareAndSendCommand (prep_header HostCmd_CMD_802_11_WAKEUP_CONFIRM) HostCmd_CMD_802_11_WAKEUP_CONFIRM 0 0 d))"

text \<open>The commands that three of the events send.\<close>

definition HostCmd_CMD_802_11_BG_SCAN_QUERY :: u16 where "HostCmd_CMD_802_11_BG_SCAN_QUERY = 0x6c"
definition HostCmd_CMD_WMM_GET_STATUS :: u16 where "HostCmd_CMD_WMM_GET_STATUS = 0x71"
definition HostCmd_CMD_802_11_IBSS_COALESCING_STATUS :: u16 where "HostCmd_CMD_802_11_IBSS_COALESCING_STATUS = 0x83"

definition wlan_cmd_802_11_bg_scan_query :: "cmddev \<Rightarrow> HostCmd \<Rightarrow> int \<times> HostCmd" where
  "wlan_cmd_802_11_bg_scan_query d c = (0, c\<lparr>c_Command := HostCmd_CMD_802_11_BG_SCAN_QUERY, c_Size := 9, c_params := (c_params c)[0 := 1]\<rparr>)"

definition wlan_cmd_wmm_get_status :: "cmddev \<Rightarrow> HostCmd \<Rightarrow> int \<times> HostCmd" where
  "wlan_cmd_wmm_get_status d c = (0, c\<lparr>c_Command := HostCmd_CMD_WMM_GET_STATUS, c_Size := 92\<rparr>)"

definition HostCmd_ACT_GET :: u16 where "HostCmd_ACT_GET = 0"
definition HostCmd_ACT_SET :: u16 where "HostCmd_ACT_SET = 1"

definition wlan_cmd_802_11_IBSS_Coalesced_Status :: "u16 \<Rightarrow> u16 \<Rightarrow> cmddev \<Rightarrow> HostCmd \<Rightarrow> int \<times> HostCmd" where
  "wlan_cmd_802_11_IBSS_Coalesced_Status act enable d c =
     (0, c\<lparr>c_Command := HostCmd_CMD_802_11_IBSS_COALESCING_STATUS, c_Size := 24, c_Result := 0,
        c_params := le16_of act @ (if act = HostCmd_ACT_SET then le16_of enable else take 2 (drop 2 (c_params c))) @ drop 4 (c_params c)\<rparr>)"

text \<open>The events, as far as this state goes: those to the user and to the reassociation timer are left out.\<close>

definition wlan_process_event :: "(nat \<Rightarrow> int) \<Rightarrow> cmddev \<Rightarrow> cmddev option" where
  "wlan_process_event out d =
     (let cause = drop_bit 3 (EventCause d)
      in map_option (\<lambda>d. d\<lparr>EventCause := 0\<rparr>)
        (if cause = 0x4 then Some (w_upd (\<lambda>s. wmm_start_queue (os_start_queue (os_carrier_on s))) d)
         else if cause = 0x8 \<or> cause = 0x9 \<or> cause = 0x3 then MacEventDisconnected d
         else if cause = 0xb then event_ps_sleep out d
         else if cause = 0xa then event_ps_awake out d
         else if cause = 0x10 then Some (event_ds_awake d)
         else if cause = 0x12 then event_hs_awake d
         else if cause = 0x11 then Some (w_upd wlan_clean_txrx d)
         else if cause = 0x18 then
           map_option snd (PrepareAndSendCommand wlan_cmd_802_11_bg_scan_query HostCmd_CMD_802_11_BG_SCAN_QUERY 0 0 d)
         else if cause = 0x17 then map_option snd (PrepareAndSendCommand wlan_cmd_wmm_get_status HostCmd_CMD_WMM_GET_STATUS 0 0 d)
         else if cause = 0x1e then
           map_option snd (PrepareAndSendCommand (wlan_cmd_802_11_IBSS_Coalesced_Status HostCmd_ACT_GET 0)
             HostCmd_CMD_802_11_IBSS_COALESCING_STATUS 0 0 d)
         else Some d))"

section \<open>A round of the main loop\<close>

text \<open>From the check of a pending sleep request to the transmission of a packet; the three arguments are what the
  bus does for the confirmation, the command and the packet.\<close>

definition main_tail :: "(nat \<Rightarrow> int) \<Rightarrow> (nat \<Rightarrow> int) \<Rightarrow> (nat \<Rightarrow> int) \<Rightarrow> u8 \<Rightarrow> cmddev \<Rightarrow> cmddev option" where
  "main_tail out1 out2 out3 delay d =
     do { d \<leftarrow> (if d_ps d = PS_STATE_PRE_SLEEP \<and> \<not> d_dnld d \<and> CurCmd (d_q d) = None then PSConfirmSleep out1 d else Some d);
          if asleep (d_ps d) then Some d
          else if IsDeepSleep d then Some d
          else if HS_Activated d \<and> bWakeupDevRequired d then Some d
          else
            do { d \<leftarrow> (if \<not> d_dnld d \<and> CurCmd (d_q d) = None then map_option snd (ExecuteNextCommand out2 d) else Some d);
                 t \<leftarrow> main_tx out3 delay (d_tx d);
                 Some (d\<lparr>d_tx := t\<rparr>) } }"

text \<open>The condition under which the thread goes to sleep until the next interrupt, command or packet.\<close>

definition main_waits :: "cmddev \<Rightarrow> bool" where
  "main_waits d \<longleftrightarrow>
     WakeupTries d \<noteq> 0 \<or>
     d_ps d = PS_STATE_SLEEP \<and> \<not> bWakeupDevRequired d \<or>
     IntCounter d = 0 \<and> d_ps d = PS_STATE_PRE_SLEEP \<or>
     IntCounter d = 0 \<and>
       (d_dnld d \<or> TxLockFlag (d_tx d) \<or> wmm_lists_empty (t_wlan (d_tx d)) \<or> wmm_is_queue_stopped (t_wlan (d_tx d))) \<and>
       (d_dnld d \<or> CurrentTxSkb (t_wlan (d_tx d)) = None) \<and>
       (d_dnld d \<or> CurCmd (d_q d) \<noteq> None \<or> CmdPendingQ (d_q d) = [])"

definition his_clear :: "u8 \<Rightarrow> cmddev \<Rightarrow> cmddev" where
  "his_clear b d = d\<lparr>d_tx := (d_tx d)\<lparr>HisRegCpy := HisRegCpy (d_tx d) AND NOT b\<rparr>\<rparr>"

text \<open>A round after the thread has woken up: the values are whether the loop goes on, the packet received and the state.
  Handing over the received packets is the subject of the receive path.\<close>

definition main_round ::
  "card_irq \<Rightarrow> (nat \<Rightarrow> int) \<Rightarrow> (nat \<Rightarrow> int) \<Rightarrow> (nat \<Rightarrow> int) \<Rightarrow> (nat \<Rightarrow> int) \<Rightarrow> u8 \<Rightarrow> cmddev \<Rightarrow> (bool \<times> u8 list option \<times> cmddev) option" where
  "main_round irq out0 out1 out2 out3 delay d =
     (if SurpriseRemoved (d_tx d) then Some (False, None, d)
      else
        do { (cont, frame, d) \<leftarrow>
               (if IntCounter d \<noteq> 0 then
                  do { (ret, ireg, frame, d) \<leftarrow> sbi_get_int_status irq (d\<lparr>IntCounter := 0\<rparr>);
                       if ret \<noteq> 0 then Some (True, frame, d)
                       else Some (False, frame, d\<lparr>d_tx := (d_tx d)\<lparr>HisRegCpy := HisRegCpy (d_tx d) OR ireg\<rparr>\<rparr>) }
                else if bWakeupDevRequired d \<and> (HS_Activated d \<or> IsDeepSleep d) then Some (True, None, d\<lparr>WakeupTries := WakeupTries d + 1\<rparr>)
                else Some (False, None, d));
             if cont then Some (True, frame, d)
             else
               do { d \<leftarrow> (if HisRegCpy (d_tx d) AND HIS_CmdUpLdRdy \<noteq> 0 then wlan_process_rx_command (his_clear HIS_CmdUpLdRdy d) else Some d);
                    let d = (if HisRegCpy (d_tx d) AND HIS_RxUpLdRdy \<noteq> 0 then his_clear HIS_RxUpLdRdy d else d);
                    d \<leftarrow> (if HisRegCpy (d_tx d) AND HIS_CardEvent \<noteq> 0 then wlan_process_event out0 (his_clear HIS_CardEvent d) else Some d);
                    d \<leftarrow> main_tail out1 out2 out3 delay d;
                    Some (True, frame, d) } })"

section \<open>Commands of a user\<close>

definition S_DS_GEN :: nat where "S_DS_GEN = 8"
definition HostCmd_OPTION_WAITFORRSP :: u16 where "HostCmd_OPTION_WAITFORRSP = 2"

text \<open>Up to the wait for the response. \<open>mem\<close> says whether the buffer for the response is allocated; \<open>user\<close> is the memory of
  the caller, \<open>None\<close> if it cannot be read.\<close>

definition wlan_hostcmd_ioctl :: "bool \<Rightarrow> u8 list option \<Rightarrow> nat \<Rightarrow> cmddev \<Rightarrow> (int \<times> cmddev) option" where
  "wlan_hostcmd_ioctl mem user len d =
     (if len < S_DS_GEN then Some (- EFAULT, d)
      else
        do { (r, q) \<leftarrow> GetFreeCmdCtrlNode (d_q d);
             case r of
               None \<Rightarrow> Some (- ENOMEM, d\<lparr>d_q := q\<rparr>)
             | Some i \<Rightarrow>
                 if \<not> mem then do { q \<leftarrow> CleanupAndInsertCmd i q; Some (- ENOMEM, d\<lparr>d_q := q\<rparr>) }
                 else
                   do { q \<leftarrow> SetCmdCtrlNode i 0 HostCmd_OPTION_WAITFORRSP q;
                        n \<leftarrow> mem_get (CmdArray q) i;
                        c \<leftarrow> BufVirtualAddr n;
                        case user of
                          None \<Rightarrow> do { q \<leftarrow> CleanupAndInsertCmd i q; Some (- EFAULT, d\<lparr>d_q := q\<rparr>) }
                        | Some u \<Rightarrow>
                            do { data \<leftarrow> mem_sub u 0 len;
                                 b \<leftarrow> mem_copy (cmd_bytes c) 0 data;
                                 let c = cmd_of_bytes b;
                                 if unat (c_Size c) < S_DS_GEN then do { q \<leftarrow> CleanupAndInsertCmd i q; Some (- EFAULT, d\<lparr>d_q := q\<rparr>) }
                                 else
                                   do { q \<leftarrow> node_upd i (\<lambda>n. n\<lparr>CmdFlags := CmdFlags n OR CMD_F_HOSTCMD, BufVirtualAddr := Some (c\<lparr>c_Result := 0\<rparr>),
                                          CmdWaitQWoken := False\<rparr>) q;
                                        q \<leftarrow> QueueCmd (d_ps d) i True q;
                                        Some (0, d\<lparr>d_q := q\<rparr>) } } } })"

end
