(* ===== verification/WlanMainInv.thy ===== *)
theory WlanMainInv
  imports WlanCmdInv WlanMain
begin

text \<open>
  Responses, events, the interrupt status and the end of a round of the main loop keep the invariant of the command
  queue, with what each of them may write to the card and to the queues.
\<close>

lemma prepare_starved:
  assumes "cmd_ok d" "CmdFreeQ (d_q d) = []"
  shows "PrepareAndSendCommand body cmd_no oid wait d = Some (- 1, d)"
  using get_ok [of "d_q d"] assms by (simp add: cmd_ok_def PrepareAndSendCommand_def)

lemma wakeup_starved: "cmd_ok d \<Longrightarrow> CmdFreeQ (d_q d) = [] \<Longrightarrow> PSWakeup wait d = Some d"
  by (simp add: PSWakeup_def prepare_starved)

section \<open>Sleep confirmation\<close>

lemma activated_fields [simp]:
  "d_q (wlan_host_sleep_activated_event d) = d_q d" "d_ps (wlan_host_sleep_activated_event d) = d_ps d" "d_dnld (wlan_host_sleep_activated_event d) = d_dnld d"
  "PSConfirmSleep_cmd (wlan_host_sleep_activated_event d) = PSConfirmSleep_cmd d" "IntCounter (wlan_host_sleep_activated_event d) = IntCounter d"
  "IsDeepSleep (wlan_host_sleep_activated_event d) = IsDeepSleep d"
  "card_writes (d_tx (wlan_host_sleep_activated_event d)) = card_writes (d_tx d)" "tx_ok (d_tx (wlan_host_sleep_activated_event d)) = tx_ok (d_tx d)"
  by (simp_all add: wlan_host_sleep_activated_event_def tx_ok_def wmm_ok_def w_upd_def t_upd_def wmm_stop_queue_def wmm_upd_def
      os_stop_queue_def os_carrier_off_def Let_def)

lemma cmd_ok_activated [simp]: "cmd_ok (wlan_host_sleep_activated_event d) = cmd_ok d"
  by (simp add: cmd_ok_def)

lemma os_start_queue_fields [simp]:
  "PSState (os_start_queue s) = PSState s" "dnld_sent (os_start_queue s) = dnld_sent s" "wmm (os_start_queue s) = wmm s"
  by (simp_all add: os_start_queue_def)

lemma confirm_ok:
  assumes "cmd_ok d" "CurCmd (d_q d) = None" "\<not> d_dnld d"
  shows "\<exists>ret d' frame. SendConfirmSleep out d = Some (ret, d') \<and> cmd_ok d' \<and> d_q d' = d_q d \<and> sent_frame (PSConfirmSleep_cmd d) frame \<and> \<not> d_dnld d' \<and>
    IsDeepSleep d' = IsDeepSleep d \<and>
    card_writes (d_tx d') = (if tx_ret out < 0 then card_writes (d_tx d) else card_writes (d_tx d) @ [frame]) \<and>
    d_ps d' = (if tx_ret out \<noteq> 0 then d_ps d else if IntCounter d \<noteq> 0 then PS_STATE_AWAKE else PS_STATE_SLEEP)"
proof -
  have b: "length (TmpTxBuf (d_tx d)) = 2312" "0 < length (PSConfirmSleep_cmd d)" "length (PSConfirmSleep_cmd d) \<le> 2048"
    using assms(1) by (simp_all add: cmd_ok_def tx_ok_def WLAN_UPLD_SIZE_def)
  obtain t frame where t: "sbi_host_to_card out MVMS_CMD (PSConfirmSleep_cmd d) (length (PSConfirmSleep_cmd d)) (d_tx d) = Some (tx_ret out, t)"
    "same_tx (d_tx d) t" "sent_frame (PSConfirmSleep_cmd d) frame"
    "card_writes t = (if tx_ret out < 0 then card_writes (d_tx d) else card_writes (d_tx d) @ [frame])"
    using host_to_card_cmd [OF b(1) refl b(2,3)] by blast
  define x where "x = w_upd (\<lambda>s. s\<lparr>dnld_sent := False\<rparr>) (d\<lparr>d_tx := t\<rparr>)"
  have x: "d_q x = d_q d" "PSConfirmSleep_cmd x = PSConfirmSleep_cmd d" "IntCounter x = IntCounter d" "\<not> d_dnld x" "d_ps x = d_ps d" "IsDeepSleep x = IsDeepSleep d"
    "card_writes (d_tx x) = card_writes t" "tx_ok (d_tx x)"
    using same_tx_ok [OF t(2)] t(2) assms(1) by (simp_all add: x_def same_tx_def cmd_ok_def tx_ok_w_upd)
  have ok: "cmd_ok (set_ps ps x)" "cmd_ok x" for ps using x assms by (simp_all add: cmd_ok_def)
  define y where "y = (if bHostSleepConfigured (set_ps PS_STATE_SLEEP x) \<and> sleep_period (d_tx (set_ps PS_STATE_SLEEP x)) = 0
    then wlan_host_sleep_activated_event ((set_ps PS_STATE_SLEEP x)\<lparr>bWakeupDevRequired := True\<rparr>) else set_ps PS_STATE_SLEEP x)"
  have y: "d_q y = d_q d" "IntCounter y = IntCounter d" "\<not> d_dnld y" "d_ps y = PS_STATE_SLEEP" "card_writes (d_tx y) = card_writes t" "IsDeepSleep y = IsDeepSleep d"
    using x by (simp_all add: y_def)
  have yok: "cmd_ok y" using cmd_ok_other [OF ok(1), of "(set_ps PS_STATE_SLEEP x)\<lparr>bWakeupDevRequired := True\<rparr>"] ok(1) by (simp add: y_def)
  have S: "SendConfirmSleep out d = (if tx_ret out \<noteq> 0 then Some (tx_ret out, x) else Some (0, if IntCounter y \<noteq> 0 then set_ps PS_STATE_AWAKE y else y))"
    unfolding SendConfirmSleep_def t(1) Option.bind.simps prod.case Let_def x_def [symmetric] y_def [symmetric] by simp
  show ?thesis using S x y yok ok(2) t(3,4) cmd_ok_awake [OF yok, of PS_STATE_AWAKE] by auto
qed

lemma os_start_ok: "cmd_ok d \<Longrightarrow> cmd_ok (w_upd os_start_queue d)"
  by (simp add: cmd_ok_def tx_ok_w_upd)

lemma ps_confirm_ok:
  assumes "cmd_ok d"
  shows "\<exists>d'. PSConfirmSleep out d = Some d' \<and> cmd_ok d' \<and> d_q d' = d_q d \<and> IsDeepSleep d' = IsDeepSleep d \<and> (d_ps d' = d_ps d \<or> d_ps d' = PS_STATE_SLEEP) \<and>
    (d_dnld d \<longrightarrow> d' = d) \<and>
    (card_writes (d_tx d') = card_writes (d_tx d) \<or>
     (\<exists>frame. card_writes (d_tx d') = card_writes (d_tx d) @ [frame] \<and> sent_frame (PSConfirmSleep_cmd d) frame \<and>
        (tx_ret out \<le> 0 \<longrightarrow> d_ps d' = PS_STATE_SLEEP)))"
proof (cases "\<not> d_dnld d \<and> CurCmd (d_q d) = None \<and> IntCounter d = 0")
  case True
  then obtain ret d' frame where c: "SendConfirmSleep out d = Some (ret, d')" "cmd_ok d'" "d_q d' = d_q d" "sent_frame (PSConfirmSleep_cmd d) frame"
    "IsDeepSleep d' = IsDeepSleep d" "card_writes (d_tx d') = (if tx_ret out < 0 then card_writes (d_tx d) else card_writes (d_tx d) @ [frame])"
    "d_ps d' = (if tx_ret out \<noteq> 0 then d_ps d else if IntCounter d \<noteq> 0 then PS_STATE_AWAKE else PS_STATE_SLEEP)"
    using confirm_ok [OF assms, of out] by blast
  have "PSConfirmSleep out d = Some (w_upd os_start_queue d')" using True c(1) by (simp add: PSConfirmSleep_def)
  then show ?thesis using c True os_start_ok [OF c(2)] by auto
qed (use assms in \<open>auto simp: PSConfirmSleep_def\<close>)

section \<open>Responses, timeouts and events\<close>

lemma length_cmd_of_bytes: "length (c_params (cmd_of_bytes b)) = length b - 8"
  by (simp add: cmd_of_bytes_def)

lemma upload_ok:
  assumes "cmd_ok d"
  shows "\<exists>d'. upload_cmd bytes d = Some d' \<and> cmd_ok d' \<and> d' = d\<lparr>d_q := d_q d'\<rparr> \<and> CurCmd (d_q d') = CurCmd (d_q d) \<and>
    CmdPendingQ (d_q d') = CmdPendingQ (d_q d) \<and> CmdFreeQ (d_q d') = CmdFreeQ (d_q d) \<and>
    (\<forall>j. CmdFlags (CmdArray (d_q d') ! j) = CmdFlags (CmdArray (d_q d) ! j))"
proof (cases "CurCmd (d_q d)")
  case None
  then show ?thesis using assms by (auto simp: upload_cmd_def)
next
  case (Some i)
  let ?q = "d_q d"
  have q: "q_ok ?q" using assms by (simp add: cmd_ok_def)
  have i: "i < 10" using held_less(4) [OF q Some] .
  have m: "i \<in># {#} + cur_nodes ?q" using Some by (simp add: cur_nodes_def)
  obtain c where c: "BufVirtualAddr (CmdArray ?q ! i) = Some c" "length (c_params c) = 2040" using held_node [OF q i] by (auto simp: node_ok_def)
  obtain b where b: "mem_copy (cmd_bytes c) 0 (take MRVDRV_SIZE_OF_CMD_BUFFER bytes) = Some b" "length b = 2048"
    using mem_copy_Some [of 0 "take MRVDRV_SIZE_OF_CMD_BUFFER bytes" "cmd_bytes c"] c(2) by (auto simp: length_cmd_bytes MRVDRV_SIZE_OF_CMD_BUFFER_def)
  let ?f = "\<lambda>n. n\<lparr>BufVirtualAddr := Some (cmd_of_bytes b)\<rparr>"
  obtain q' where q': "node_upd i ?f ?q = Some q'" "q_ok q'" "q' = ?q\<lparr>CmdArray := (CmdArray ?q)[i := ?f (CmdArray ?q ! i)]\<rparr>"
    using node_upd_ok [OF q m, of ?f] b(2) by (auto simp: node_ok_def length_cmd_of_bytes)
  have "upload_cmd bytes d = Some (d\<lparr>d_q := q'\<rparr>)" using Some held_node [OF q i] c(1) b(1) q'(1) by (simp add: upload_cmd_def)
  moreover have "cmd_ok (d\<lparr>d_q := q'\<rparr>)" using cmd_ok_q [OF assms q'(2)] q'(3) by simp
  ultimately show ?thesis using q'(3) Some q i by (simp add: nth_list_update q_held_def)
qed

text \<open>A change of the transmit state that adds no packet.\<close>

definition calm :: "wlan \<Rightarrow> wlan \<Rightarrow> bool" where
  "calm s s' \<longleftrightarrow> PSState s' = PSState s \<and> dnld_sent s' = dnld_sent s \<and> (wmm_ok s \<longrightarrow> wmm_ok s') \<and>
     (CurrentTxSkb s = None \<longrightarrow> CurrentTxSkb s' = None) \<and>
     (wmm_ok s \<longrightarrow> (\<forall>ac < 4. set (txSkbQ (wmm s') ! ac) \<subseteq> set (txSkbQ (wmm s) ! ac)))"

lemma calm_trans:
  assumes "calm s s'" "calm s' s''" shows "calm s s''"
proof -
  have "wmm_ok s \<Longrightarrow> ac < 4 \<Longrightarrow> set (txSkbQ (wmm s'') ! ac) \<subseteq> set (txSkbQ (wmm s) ! ac)" for ac
    using assms unfolding calm_def by blast
  then show ?thesis using assms by (simp add: calm_def)
qed

lemma calm_os: "calm s (os_start_queue s)" "calm s (os_stop_queue s)" "calm s (os_carrier_on s)" "calm s (os_carrier_off s)" "calm s (os_free_tx_packet s)"
  by (simp_all add: calm_def os_start_queue_def os_stop_queue_def os_carrier_on_def os_carrier_off_def os_free_tx_packet_def wmm_ok_def split: option.split)

lemma calm_wmm: "calm s (wmm_start_queue s)" "calm s (wmm_stop_queue s)" "calm s (wmm_cleanup_queues s)"
proof -
  have u: "calm s (wmm_upd (\<lambda>w. w\<lparr>queueStopped := b\<rparr>) s)" for b by (simp add: calm_def wmm_upd_def wmm_ok_def Let_def)
  show "calm s (wmm_stop_queue s)" using u [of True] by (simp add: wmm_stop_queue_def)
  show "calm s (wmm_start_queue s)" unfolding wmm_start_queue_def by (blast intro: calm_trans u calm_os)
  show "calm s (wmm_cleanup_queues s)" by (simp add: calm_def wmm_cleanup_queues_def wmm_upd_def wmm_ok_def Let_def)
qed

lemma calm_clean: "calm s (wlan_clean_txrx s)"
  unfolding wlan_clean_txrx_def by (meson calm_trans calm_os calm_wmm)

lemma calm_link: "calm s s' \<Longrightarrow> calm s (s'\<lparr>link_up := b\<rparr>)"
  by (simp add: calm_def wmm_ok_def)

lemma calm_ok:
  assumes "calm (t_wlan (d_tx d)) (f (t_wlan (d_tx d)))" "cmd_ok d"
  shows "cmd_ok (w_upd f d)" "d_ps (w_upd f d) = d_ps d"
proof -
  let ?s = "t_wlan (d_tx d)"
  have f: "PSState (f ?s) = PSState ?s" "dnld_sent (f ?s) = dnld_sent ?s" "wmm_ok (f ?s)" "CurrentTxSkb (f ?s) = None"
    "\<forall>ac < 4. set (txSkbQ (wmm (f ?s)) ! ac) \<subseteq> set (txSkbQ (wmm ?s) ! ac)"
    using assms by (simp_all add: calm_def cmd_ok_def tx_ok_def)
  have "\<forall>ac < 4. \<forall>x \<in> set (txSkbQ (wmm (f ?s)) ! ac). 6 \<le> length (sk_data x)"
    using f(5) assms(2) unfolding cmd_ok_def tx_ok_def by blast
  then have "tx_ok (d_tx (w_upd f d))" using f(3,4) assms(2) by (simp add: tx_ok_def cmd_ok_def)
  then show "cmd_ok (w_upd f d)" "d_ps (w_upd f d) = d_ps d" using f(1,2) assms(2) by (simp_all add: cmd_ok_def)
qed

lemma host_sleep_cfg_ok:
  assumes "cmd_ok d"
  shows "cmd_ok (wlan_ret_host_sleep_cfg c d) \<and> d_q (wlan_ret_host_sleep_cfg c d) = d_q d \<and> d_ps (wlan_ret_host_sleep_cfg c d) = d_ps d"
proof -
  have c: "calm s (wmm_start_queue (os_carrier_on (os_start_queue s)))" for s by (meson calm_trans calm_os calm_wmm)
  define x where "x = (if d_ps (d\<lparr>bHostSleepConfigured := False\<rparr>) = PS_STATE_FULL_POWER \<and> HS_Activated (d\<lparr>bHostSleepConfigured := False\<rparr>)
    then wlan_host_sleep_deactivated_event (d\<lparr>bHostSleepConfigured := False\<rparr>) else d\<lparr>bHostSleepConfigured := False\<rparr>)"
  have x: "d_q x = d_q d" "d_tx x = d_tx d" "PSConfirmSleep_cmd x = PSConfirmSleep_cmd d"
    by (simp_all add: x_def wlan_host_sleep_deactivated_event_def)
  have xo: "cmd_ok x" using cmd_ok_other [OF assms x] .
  have b: "cmd_ok (d\<lparr>bHostSleepConfigured := True\<rparr>)" using cmd_ok_other [OF assms, of "d\<lparr>bHostSleepConfigured := True\<rparr>"] by simp
  show ?thesis
    using calm_ok [where d = x and f = "\<lambda>s. wmm_start_queue (os_carrier_on (os_start_queue s))", OF c xo] x b unfolding wlan_ret_host_sleep_cfg_def Let_def x_def [symmetric] by simp
qed

lemma disconnect_ok:
  assumes "cmd_ok d"
  shows "\<exists>d'. MacEventDisconnected d = Some d' \<and> cmd_ok d' \<and> CurCmd (d_q d') = CurCmd (d_q d) \<and> d_ps d' = d_ps d \<and> (CmdFreeQ (d_q d) = [] \<longrightarrow> d_q d' = d_q d)"
proof (cases "MediaConnected (d_tx d)")
  case True
  define x where "x = w_upd (\<lambda>s. (wlan_clean_txrx s)\<lparr>link_up := False\<rparr>) d"
  define y where "y = x\<lparr>WPA := False, d_tx := (d_tx x)\<lparr>MediaConnected := False\<rparr>, cur_ATIMWindow := 0\<rparr>"
  have x: "cmd_ok x" "d_ps x = d_ps d" "d_q x = d_q d" using calm_ok [where f = "\<lambda>s. (wlan_clean_txrx s)\<lparr>link_up := False\<rparr>", OF calm_link [OF calm_clean] assms] by (simp_all add: x_def)
  have y: "cmd_ok y" "d_ps y = d_ps d" "d_q y = d_q d" using x by (simp_all add: y_def cmd_ok_def tx_ok_def)
  obtain z where z: "PSWakeup 0 y = Some z" "z = y\<lparr>d_q := d_q z\<rparr>" "cmd_ok z" "CurCmd (d_q z) = CurCmd (d_q y)" using wakeup_ok [OF y(1)] by blast
  have zt: "d_tx z = d_tx y" using arg_cong [OF z(2), of d_tx] by simp
  have "MacEventDisconnected d = (if d_ps y \<noteq> PS_STATE_FULL_POWER then PSWakeup 0 y else Some y)"
    using True by (simp add: MacEventDisconnected_def Let_def x_def y_def)
  then show ?thesis using y z zt wakeup_starved [OF y(1)] by auto
qed (use assms in \<open>auto simp: MacEventDisconnected_def\<close>)

text \<open>A response leaves no command at the firmware. The one thing that may go wrong is the length of a reply to a command of
  the user, which the firmware gives.\<close>

definition quiet :: "cmddev \<Rightarrow> cmddev \<Rightarrow> bool" where
  "quiet d d' \<longleftrightarrow> card_writes (d_tx d') = card_writes (d_tx d) \<and> (d_dnld d \<longrightarrow> \<not> IsDeepSleep d \<longrightarrow> d_dnld d' \<and> \<not> IsDeepSleep d')"

definition reply_fits :: "cmddev \<Rightarrow> bool" where
  "reply_fits d \<longleftrightarrow> (\<forall>i c. CurCmd (d_q d) = Some i \<longrightarrow> loaded d i c \<longrightarrow> CmdFlags (CmdArray (d_q d) ! i) AND CMD_F_HOSTCMD \<noteq> 0 \<longrightarrow> unat (c_Size c) \<le> 2048)"

lemma quiet_trans: "quiet d x \<Longrightarrow> quiet x y \<Longrightarrow> quiet d y"
  by (simp add: quiet_def)

lemma host_sleep_cfg_quiet: "quiet d (wlan_ret_host_sleep_cfg c d)"
  by (simp add: wlan_ret_host_sleep_cfg_def wlan_host_sleep_deactivated_event_def Let_def quiet_def wmm_start_queue_def os_start_queue_def os_carrier_on_def wmm_upd_def)

lemma ps_mode_ok:
  assumes "cmd_ok d" "CurCmd (d_q d) = Some i"
  shows "\<exists>d'. ret_ps_mode c d = Some d' \<and> cmd_ok d' \<and> CurCmd (d_q d') = Some i \<and> quiet d d'"
proof -
  let ?d = "d\<lparr>NeedToWakeup := False\<rparr>"
  have d: "cmd_ok ?d" "cmd_ok (d\<lparr>PSMode_CAM := True\<rparr>)"
    using cmd_ok_other [OF assms(1), of ?d] cmd_ok_other [OF assms(1), of "d\<lparr>PSMode_CAM := True\<rparr>"] by simp_all
  note a = cmd_ok_awake [OF d(1), of PS_STATE_AWAKE, simplified] and f = cmd_ok_awake [OF d(1), of PS_STATE_FULL_POWER, simplified]
  obtain z where z: "PSWakeup 0 (set_ps PS_STATE_AWAKE ?d) = Some z" "z = (set_ps PS_STATE_AWAKE ?d)\<lparr>d_q := d_q z\<rparr>" "cmd_ok z" "CurCmd (d_q z) = Some i"
    using wakeup_ok [OF a] assms(2) by auto
  have zt: "quiet d z" using keep_tx(1,2) [OF z(2)] by (simp add: quiet_def)
  show ?thesis using assms d a f z(1,3,4) zt by (simp add: ret_ps_mode_def Let_def quiet_def)
qed

lemma disconnect_quiet: "MacEventDisconnected d = Some d' \<Longrightarrow> cmd_ok d \<Longrightarrow> quiet d d'"
proof -
  assume h: "MacEventDisconnected d = Some d'" "cmd_ok d"
  define x where "x = w_upd (\<lambda>s. (wlan_clean_txrx s)\<lparr>link_up := False\<rparr>) d"
  define y where "y = x\<lparr>WPA := False, d_tx := (d_tx x)\<lparr>MediaConnected := False\<rparr>, cur_ATIMWindow := 0\<rparr>"
  have x: "cmd_ok x" using calm_ok [where f = "\<lambda>s. (wlan_clean_txrx s)\<lparr>link_up := False\<rparr>", OF calm_link [OF calm_clean] h(2)] by (simp add: x_def)
  have "dnld_sent (wlan_clean_txrx s) = dnld_sent s" for s using calm_clean [of s] by (simp add: calm_def)
  then have y: "cmd_ok y" "quiet d y" using x by (simp_all add: y_def x_def cmd_ok_def tx_ok_def quiet_def)
  obtain z where z: "PSWakeup 0 y = Some z" "z = y\<lparr>d_q := d_q z\<rparr>" using wakeup_ok [OF y(1)] by blast
  have q: "quiet d z" using y(2) keep_tx(1,2) [OF z(2)] by (simp add: quiet_def)
  have "MacEventDisconnected d = (if \<not> MediaConnected (d_tx d) then Some d else if d_ps y \<noteq> PS_STATE_FULL_POWER then Some z else Some y)"
    using z(1) by (simp add: MacEventDisconnected_def Let_def x_def y_def)
  then show ?thesis using h(1) q y(2) by (auto simp: quiet_def split: if_splits)
qed

lemma switch_ok:
  assumes "cmd_ok d" "CurCmd (d_q d) = Some i"
  shows "\<exists>d'. ret_switch c d = Some d' \<and> cmd_ok d' \<and> CurCmd (d_q d') = Some i \<and> quiet d d'"
proof -
  have w: "cmd_ok (d\<lparr>bWakeupDevRequired := True\<rparr>)" "cmd_ok (wlan_host_sleep_deactivated_event d)"
    using cmd_ok_other [OF assms(1), of "d\<lparr>bWakeupDevRequired := True\<rparr>"] cmd_ok_other [OF assms(1), of "wlan_host_sleep_deactivated_event d"]
    by (simp_all add: wlan_host_sleep_deactivated_event_def)
  obtain x where x: "MacEventDisconnected d = Some x" "cmd_ok x" "CurCmd (d_q x) = Some i" using disconnect_ok [OF assms(1)] assms(2) by auto
  have c: "quiet d (wlan_host_sleep_deactivated_event d)" "d_q (wlan_host_sleep_deactivated_event d) = d_q d"
    "quiet d (wlan_host_sleep_activated_event (d\<lparr>bWakeupDevRequired := True\<rparr>))" "quiet d (wlan_host_sleep_activated_event d)" "quiet d d"
    by (simp_all add: wlan_host_sleep_deactivated_event_def quiet_def)
  show ?thesis using w c x host_sleep_cfg_ok [OF assms(1)] host_sleep_cfg_quiet [of d c] assms disconnect_quiet [OF x(1) assms(1)] by (simp add: ret_switch_def)
qed

lemma response_ok:
  assumes "cmd_ok d" "reply_fits d \<or> wlan_process_rx_command d \<noteq> None"
  shows "\<exists>d'. wlan_process_rx_command d = Some d' \<and> cmd_ok d' \<and> CurCmd (d_q d') = None \<and> quiet d d'"
proof (cases "CurCmd (d_q d)")
  case None
  then have "wlan_process_rx_command d = Some (d\<lparr>CommandTimerIsSet := False\<rparr>)" by (simp add: wlan_process_rx_command_def)
  then show ?thesis using None cmd_ok_other [OF assms(1), of "d\<lparr>CommandTimerIsSet := False\<rparr>"] by (simp add: quiet_def)
next
  case (Some i)
  let ?q = "d_q d" and ?d = "d\<lparr>CommandTimerIsSet := False, num_cmd_timeout := 0\<rparr>"
  have q: "q_ok ?q" using assms(1) by (simp add: cmd_ok_def)
  have i: "i < 10" using held_less(4) [OF q Some] .
  obtain c where c: "BufVirtualAddr (CmdArray ?q ! i) = Some c" "length (c_params c) = 2040" using held_node [OF q i] by (auto simp: node_ok_def)
  have F: "\<exists>d'. finish_cmd i x = Some d' \<and> cmd_ok d' \<and> CurCmd (d_q d') = None \<and> quiet d d'"
    if h: "cmd_ok x" "CurCmd (d_q x) = Some i" "quiet d x" for x
  proof -
    obtain d' where d': "finish_cmd i x = Some d'" "d' = x\<lparr>d_q := d_q d'\<rparr>" "cmd_ok d'" "CurCmd (d_q d') = None" using finish_cmd_ok [OF h(1,2)] by blast
    have "quiet d d'" using h(3) keep_tx(1,2) [OF d'(2)] by (simp add: quiet_def)
    then show ?thesis using d' by blast
  qed
  let ?n = "CmdArray ?q ! i"
  define e1 where "e1 = ?d\<lparr>CurCmdRetCode := uint (c_Result c)\<rparr>"
  have e: "cmd_ok (?d\<lparr>CurCmdRetCode := - 1\<rparr>)" "cmd_ok e1" "CurCmd (d_q e1) = Some i" "quiet d e1" "quiet d (?d\<lparr>CurCmdRetCode := - 1\<rparr>)"
    "CurCmd (d_q (?d\<lparr>CurCmdRetCode := - 1\<rparr>)) = Some i"
    using cmd_ok_other [OF assms(1), of "?d\<lparr>CurCmdRetCode := - 1\<rparr>"] cmd_ok_other [OF assms(1), of e1] Some by (simp_all add: e1_def quiet_def)
  obtain p where p: "ret_ps_mode c e1 = Some p" "cmd_ok p" "CurCmd (d_q p) = Some i" "quiet d p"
    using ps_mode_ok [OF e(2,3)] e(4) quiet_trans by blast
  obtain s where s: "ret_switch c e1 = Some s" "cmd_ok s" "CurCmd (d_q s) = Some i" "quiet d s"
    using switch_ok [OF e(2,3)] e(4) quiet_trans by blast
  let ?r = "e1\<lparr>host_replies := host_replies e1 @ [take (unat (c_Size c)) (cmd_bytes c)]\<rparr>"
  have r: "cmd_ok ?r" "CurCmd (d_q ?r) = Some i" using cmd_ok_other [OF e(2), of ?r] e(3) by simp_all
  let ?x = "if c_Result c = 0 \<and> c_Command c = 0x8043 then wlan_ret_host_sleep_cfg c ?r else ?r"
  have rq: "quiet d ?r" using e(4) by (simp add: quiet_def)
  have x: "cmd_ok ?x" "CurCmd (d_q ?x) = Some i" "quiet d ?x"
    using r rq host_sleep_cfg_ok [OF r(1), of c] quiet_trans [OF rq host_sleep_cfg_quiet] by simp_all
  have h: "mem_sub (cmd_bytes c) 0 (unat (c_Size c)) = Some (take (unat (c_Size c)) (cmd_bytes c))"
    if "CmdFlags ?n AND CMD_F_HOSTCMD \<noteq> 0" "c_Command c AND 0x8000 \<noteq> 0" "c_Command c \<noteq> 0x8021"
  proof -
    have "wlan_process_rx_command d \<noteq> None \<Longrightarrow> mem_sub (cmd_bytes c) 0 (unat (c_Size c)) \<noteq> None"
      using that Some held_node [OF q i] c(1) by (auto simp: wlan_process_rx_command_def Let_def bind_eq_Some_conv)
    moreover have "reply_fits d \<Longrightarrow> unat (c_Size c) \<le> length (cmd_bytes c)"
      using that(1) Some c by (simp add: reply_fits_def loaded_def length_cmd_bytes)
    ultimately show ?thesis using assms(2) by (auto simp: mem_sub_def split: if_splits)
  qed
  have R: "wlan_process_rx_command d =
    (if c_Command c AND 0x8000 = 0 then finish_cmd i (?d\<lparr>CurCmdRetCode := - 1\<rparr>)
     else if c_Command c = 0x8021 then finish_cmd i p
     else if CmdFlags ?n AND CMD_F_HOSTCMD \<noteq> 0 then finish_cmd i ?x
     else if c_Result c \<noteq> 0 then finish_cmd i e1 else finish_cmd i s)"
    using Some held_node [OF q i] c(1) p(1) s(1) h by (simp add: wlan_process_rx_command_def Let_def flip: e1_def)
  show ?thesis using R F [OF e(1,6,5)] F [OF p(2-4)] F [OF x] F [OF e(2-4)] F [OF s(2-4)] by simp
qed

section \<open>Packets and transfers\<close>

lemma host_to_card_total:
  assumes "length (TmpTxBuf t) = WLAN_UPLD_SIZE" "nb \<le> 2048" "typ \<noteq> MVMS_CMD"
  shows "\<exists>t'. sbi_host_to_card out typ payload nb t = Some (tx_ret out, t') \<and> same_tx t t' \<and> dnld_sent (t_wlan t') = (0 \<le> tx_ret out \<or> dnld_sent (t_wlan t)) \<and>
    (\<exists>fs. length fs \<le> 1 \<and> card_writes t' = card_writes t @ fs \<and> (fs \<noteq> [] \<longrightarrow> dnld_sent (t_wlan t')))"
proof -
  let ?h = "[of_nat (nb + 4), of_nat ((nb + 4) div 256), typ, 0] :: u8 list"
  let ?n = "(nb + 4 + 256 - 1) div 256 * 256"
  obtain b where b: "mem_copy (TmpTxBuf t) 0 ?h = Some b" "length b = 2312" using mem_copy_Some [of 0 ?h "TmpTxBuf t"] assms(1) by (auto simp: WLAN_UPLD_SIZE_def)
  have "?n \<le> 2312" using assms(2) by linarith
  then have d: "mem_sub b 0 ?n = Some (take ?n b)" using b(2) by (simp add: mem_sub_def)
  obtain i where r: "iomem_retry out 0 = (tx_ret out, i)" by (cases "iomem_retry out 0") (simp add: tx_ret_def)
  let ?t = "t\<lparr>HisRegCpy := 0, TmpTxBuf := b\<rparr>"
  have "sbi_host_to_card out typ payload nb t =
    Some (tx_ret out, if tx_ret out < 0 then ?t else t_upd (\<lambda>s. s\<lparr>dnld_sent := True\<rparr>) ?t\<lparr>card_writes := card_writes ?t @ [take ?n b]\<rparr>)"
    using b(1) d r assms(3) by (simp add: sbi_host_to_card_def Let_def SDIO_HEADER_LEN_def SD_BLOCK_SIZE_def)
  then show ?thesis using b(2) assms(1)
    by (intro exI [of _ "if tx_ret out < 0 then ?t else t_upd (\<lambda>s. s\<lparr>dnld_sent := True\<rparr>) ?t\<lparr>card_writes := card_writes ?t @ [take ?n b]\<rparr>"])
      (auto simp: same_tx_def t_upd_def WLAN_UPLD_SIZE_def)
qed

lemma null_packet_ok:
  assumes "tx_ok t"
  shows "\<exists>r t'. SendNullPacket out flags t = Some (r, t') \<and> same_tx t t' \<and>
    (\<exists>fs. length fs \<le> 1 \<and> card_writes t' = card_writes t @ fs \<and> (fs \<noteq> [] \<longrightarrow> dnld_sent (t_wlan t')))"
proof (cases "SurpriseRemoved t \<or> \<not> MediaConnected t")
  case True
  then show ?thesis by (auto simp: SendNullPacket_def same_tx_def)
next
  case False
  define pd where "pd = \<lparr>TxStatus = 0, TxControl = PktTxCtrl t, TxPacketLocation = of_nat sizeof_TxPD, TxPacketLength = 0,
    TxDestAddr = replicate 6 0, Priority = WMM_HIGHEST_PRIORITY, Flags = flags, PktDelay_2ms = 0\<rparr>"
  have l: "length (TxPD_bytes pd) = 24" by (rule length_TxPD_bytes) (simp add: pd_def)
  obtain b where b: "mem_copy (TmpTxBuf t) SDIO_HEADER_LEN (TxPD_bytes pd) = Some b" "length b = WLAN_UPLD_SIZE"
    using mem_copy_Some [of SDIO_HEADER_LEN "TxPD_bytes pd" "TmpTxBuf t"] l assms by (auto simp: tx_ok_def WLAN_UPLD_SIZE_def SDIO_HEADER_LEN_def)
  obtain t' fs where t': "sbi_host_to_card out MVMS_DAT b sizeof_TxPD (t\<lparr>TmpTxBuf := b\<rparr>) = Some (tx_ret out, t')" "same_tx (t\<lparr>TmpTxBuf := b\<rparr>) t'"
    "length fs \<le> 1" "card_writes t' = card_writes t @ fs" "fs \<noteq> [] \<longrightarrow> dnld_sent (t_wlan t')"
    using host_to_card_total [of "t\<lparr>TmpTxBuf := b\<rparr>" sizeof_TxPD MVMS_DAT out b] b(2) by (auto simp: sizeof_TxPD_def MVMS_DAT_def MVMS_CMD_def)
  have "SendNullPacket out flags t =
    Some (tx_ret out, if tx_ret out \<noteq> 0 then t'\<lparr>num_tx_host_to_card_failure := num_tx_host_to_card_failure t' + 1\<rparr> else t')"
    using False b(1) t'(1) by (simp add: SendNullPacket_def Let_def pd_def)
  then show ?thesis using t'(2-5) b(2) assms by (auto simp: same_tx_def tx_ok_def)
qed

lemma tx_done_label_fields [simp]:
  "card_writes (tx_done_label r skb t) = card_writes t" "dnld_sent (t_wlan (tx_done_label r skb t)) = dnld_sent (t_wlan t)"
  "PSState (t_wlan (tx_done_label r skb t)) = PSState (t_wlan t)"
  by (simp_all add: tx_done_label_def os_free_tx_packet_def split: option.split)

lemma xfer_start_fields [simp]:
  "PSState (wmm_process_fw_iface_tx_xfer_start s) = PSState s" "dnld_sent (wmm_process_fw_iface_tx_xfer_start s) = dnld_sent s"
  by (simp_all add: wmm_process_fw_iface_tx_xfer_start_def wmm_upd_def os_start_queue_def Let_def)

lemma host_to_card_SomeD:
  assumes "sbi_host_to_card out typ payload nb t = Some (r, t')"
  shows "PSState (t_wlan t') = PSState (t_wlan t) \<and> (card_writes t' = card_writes t \<or> (\<exists>f. card_writes t' = card_writes t @ [f] \<and> dnld_sent (t_wlan t')))"
proof -
  obtain ret i where r: "iomem_retry out 0 = (ret, i)" by fastforce
  show ?thesis
  proof (cases "ret < 0")
    case True
    then obtain b where "t' = t\<lparr>HisRegCpy := 0, TmpTxBuf := b\<rparr>"
      using assms r unfolding sbi_host_to_card_def Let_def r prod.case by (simp add: bind_eq_Some_conv split del: if_split) blast
    then show ?thesis by simp
  next
    case False
    then obtain b data where "t' = t_upd (\<lambda>s. s\<lparr>dnld_sent := True\<rparr>) (t\<lparr>HisRegCpy := 0, TmpTxBuf := b\<rparr>)\<lparr>card_writes := card_writes t @ [data]\<rparr>"
      using assms r unfolding sbi_host_to_card_def Let_def r prod.case by (simp add: bind_eq_Some_conv split del: if_split) blast
    then show ?thesis by simp
  qed
qed

lemma single_packet_SomeD:
  assumes "SendSinglePacket out delay skb t = Some (r, t')"
  shows "PSState (t_wlan t') = PSState (t_wlan t) \<and> (card_writes t' = card_writes t \<or> (\<exists>f. card_writes t' = card_writes t @ [f] \<and> dnld_sent (t_wlan t')))"
proof (cases "sk_data skb = [] \<or> length (sk_data skb) > MRVDRV_ETH_TX_PACKET_BUFFER_SIZE")
  case True
  then show ?thesis using assms by (auto simp: SendSinglePacket_def)
next
  case False
  obtain ty b nb t1 t2 where h: "sbi_host_to_card out ty b nb t1 = Some (r, t2)" "card_writes t1 = card_writes t" "t_wlan t1 = t_wlan t"
    "t' = tx_done_label r skb (if r \<noteq> 0 then t2\<lparr>num_tx_host_to_card_failure := num_tx_host_to_card_failure t2 + 1\<rparr> else t_upd wmm_process_fw_iface_tx_xfer_start t2)"
    using assms False by (auto simp: SendSinglePacket_def Let_def bind_eq_Some_conv split: if_splits)
  show ?thesis using host_to_card_SomeD [OF h(1)] h(2-4) by auto
qed

lemma main_tx_SomeD:
  assumes "main_tx out delay t = Some t'"
  shows "PSState (t_wlan t') = PSState (t_wlan t) \<and> (card_writes t' = card_writes t \<or> (\<exists>f. card_writes t' = card_writes t @ [f] \<and> dnld_sent (t_wlan t')))"
    "dnld_sent (t_wlan t) \<or> asleep (PSState (t_wlan t)) \<Longrightarrow> t' = t"
proof -
  have p: "PSState (wmm_pop_highest_prio_skb s) = PSState s" "dnld_sent (wmm_pop_highest_prio_skb s) = dnld_sent s" for s
    by (simp_all add: wmm_pop_highest_prio_skb_def wmm_upd_def split: option.split)
  show "PSState (t_wlan t') = PSState (t_wlan t) \<and> (card_writes t' = card_writes t \<or> (\<exists>f. card_writes t' = card_writes t @ [f] \<and> dnld_sent (t_wlan t')))"
    using assms p
    by (auto simp: main_tx_def wmm_process_tx_def wlan_process_tx_def Let_def bind_eq_Some_conv split: if_splits dest!: single_packet_SomeD)
  show "dnld_sent (t_wlan t) \<or> asleep (PSState (t_wlan t)) \<Longrightarrow> t' = t"
    using assms by (auto simp: main_tx_def wmm_process_tx_def asleep_def split: if_splits)
qed

section \<open>Events\<close>

text \<open>What an event may do: write at most one frame, after which the card is busy or sleeps, and none while the card is busy.
  Without a free node the queues stay as they are, and the device does not leave power save.\<close>

definition one_write :: "cmddev \<Rightarrow> cmddev \<Rightarrow> bool" where
  "one_write d d' \<longleftrightarrow> card_writes (d_tx d') = card_writes (d_tx d) \<or>
     (\<exists>f. card_writes (d_tx d') = card_writes (d_tx d) @ [f] \<and> (d_dnld d' \<or> d_ps d' = PS_STATE_SLEEP))"

definition keeps :: "cmddev \<Rightarrow> cmddev \<Rightarrow> bool" where
  "keeps d d' \<longleftrightarrow> d_q d' = d_q d \<and> (d_ps d \<noteq> PS_STATE_FULL_POWER \<longrightarrow> d_ps d' \<noteq> PS_STATE_FULL_POWER)"

definition ev_ok :: "cmddev \<Rightarrow> cmddev \<Rightarrow> bool" where
  "ev_ok d d' \<longleftrightarrow> cmd_ok d' \<and> CurCmd (d_q d') = CurCmd (d_q d) \<and> one_write d d' \<and> (CmdFreeQ (d_q d) = [] \<longrightarrow> keeps d d') \<and>
     (d_dnld d \<longrightarrow> \<not> IsDeepSleep d \<longrightarrow> card_writes (d_tx d') = card_writes (d_tx d) \<and> d_dnld d' \<and> \<not> IsDeepSleep d')"

lemma ev_ok_refl: "cmd_ok d \<Longrightarrow> ev_ok d d"
  by (simp add: ev_ok_def one_write_def keeps_def)

lemma ev_prepare:
  assumes "cmd_ok d" "body_ok body"
  shows "\<exists>d'. map_option snd (PrepareAndSendCommand body cmd_no oid wait d) = Some d' \<and> ev_ok d d'"
proof -
  obtain d' where d': "map_option snd (PrepareAndSendCommand body cmd_no oid wait d) = Some d'" "d' = d\<lparr>d_q := d_q d'\<rparr>" "cmd_ok d'" "CurCmd (d_q d') = CurCmd (d_q d)"
    using prepare_snd [OF assms, of cmd_no oid wait] by blast
  note k = keep_tx(1,2) [OF d'(2)]
  have "keeps d d'" if "CmdFreeQ (d_q d) = []"
    using prepare_starved [OF assms(1) that, of body cmd_no oid wait] d'(1) by (simp add: keeps_def)
  then show ?thesis using d'(1,3,4) k by (auto simp: ev_ok_def one_write_def)
qed

lemma ev_wakeup: "cmd_ok d \<Longrightarrow> \<exists>d'. PSWakeup wait d = Some d' \<and> ev_ok d d'"
  unfolding PSWakeup_def by (rule ev_prepare [OF _ ps_mode_body])

lemma ev_sleep:
  assumes "cmd_ok d" "tx_ret out \<le> 0"
  shows "\<exists>d'. event_ps_sleep out d = Some d' \<and> ev_ok d d'"
proof (cases "d_ps d = PS_STATE_FULL_POWER")
  case True
  then show ?thesis using ev_ok_refl [OF assms(1)] by (simp add: event_ps_sleep_def)
next
  case False
  let ?d = "set_ps PS_STATE_PRE_SLEEP d"
  have "cmd_ok ?d" using cmd_ok_awake [OF assms(1)] by simp
  from ps_confirm_ok [OF this, of out] obtain d' where d': "PSConfirmSleep out ?d = Some d'" "cmd_ok d'" "d_q d' = d_q d" "IsDeepSleep d' = IsDeepSleep d"
    "d_ps d' = PS_STATE_PRE_SLEEP \<or> d_ps d' = PS_STATE_SLEEP" "d_dnld d \<longrightarrow> d' = ?d"
    "card_writes (d_tx d') = card_writes (d_tx d) \<or> (\<exists>f. card_writes (d_tx d') = card_writes (d_tx d) @ [f] \<and> d_ps d' = PS_STATE_SLEEP)"
    using assms(2) by auto
  then show ?thesis using False by (auto simp: event_ps_sleep_def ev_ok_def one_write_def keeps_def)
qed

lemma ev_trans_wakeup:
  assumes "ev_ok d x" "d_ps x = PS_STATE_AWAKE" "ev_ok x y" "y = x\<lparr>d_q := d_q y\<rparr>"
  shows "ev_ok d y"
proof -
  note k = keep_tx(1,2) [OF assms(4)]
  show ?thesis using assms(1,3) k assms(2) by (auto simp: ev_ok_def one_write_def keeps_def)
qed

lemma ev_awake:
  assumes "cmd_ok d"
  shows "\<exists>d'. event_ps_awake out d = Some d' \<and> ev_ok d d'"
proof (cases "d_ps d = PS_STATE_FULL_POWER")
  case True
  then show ?thesis using ev_ok_refl [OF assms(1)] by (simp add: event_ps_awake_def)
next
  case False
  let ?t = "(d_tx d)\<lparr>TxLockFlag := False\<rparr>" and ?fl = "MRVDRV_TxPD_POWER_MGMT_NULL_PACKET OR MRVDRV_TxPD_POWER_MGMT_LAST_PACKET"
  let ?A = "if CheckLastPacketIndication ?t \<and> \<not> dnld_sent (t_wlan ?t) \<and> gen_null_pkg (t_wlan ?t) then
      do { (_, t) \<leftarrow> SendNullPacket out ?fl ?t; Some (t\<lparr>TxLockFlag := True\<rparr>) } else Some ?t"
  have ok: "tx_ok ?t" using assms by (simp add: cmd_ok_def tx_ok_def)
  obtain t where t: "?A = Some t" "tx_ok t" "PSState (t_wlan t) = d_ps d" "d_dnld d \<longrightarrow> card_writes t = card_writes (d_tx d) \<and> dnld_sent (t_wlan t)"
    "card_writes t = card_writes (d_tx d) \<or> (\<exists>f. card_writes t = card_writes (d_tx d) @ [f] \<and> dnld_sent (t_wlan t))"
  proof (cases "CheckLastPacketIndication ?t \<and> \<not> dnld_sent (t_wlan ?t) \<and> gen_null_pkg (t_wlan ?t)")
    case True
    obtain r t fs where n: "SendNullPacket out ?fl ?t = Some (r, t)" "same_tx ?t t" "length fs \<le> 1" "card_writes t = card_writes (d_tx d) @ fs" "fs \<noteq> [] \<longrightarrow> dnld_sent (t_wlan t)"
      using null_packet_ok [OF ok, of out ?fl] by auto
    have "fs = [] \<or> (\<exists>f. fs = [f])" using n(3) by (cases fs) auto
    with True n same_tx_ok [OF n(2) ok] that [of "t\<lparr>TxLockFlag := True\<rparr>"] show ?thesis by (auto simp: same_tx_def tx_ok_def)
  next
    case False
    then show ?thesis using that [of ?t] ok by auto
  qed
  let ?x = "set_ps PS_STATE_AWAKE (d\<lparr>d_tx := t\<rparr>)"
  have e: "event_ps_awake out d = (if NeedToWakeup ?x then PSWakeup 0 ?x else Some ?x)"
    using False t(1) by (simp add: event_ps_awake_def Let_def)
  have x: "cmd_ok ?x" using t(2) assms by (simp add: cmd_ok_def)
  have ex: "ev_ok d ?x" using x t(4,5) by (auto simp: ev_ok_def one_write_def keeps_def)
  obtain y where y: "PSWakeup 0 ?x = Some y" "ev_ok ?x y" using ev_wakeup [OF x] by blast
  have "y = ?x\<lparr>d_q := d_q y\<rparr>" using wakeup_ok [OF x, of 0] y(1) by auto
  then have "ev_ok d y" using ev_trans_wakeup [OF ex _ y(2)] by simp
  then show ?thesis using e y(1) ex by simp
qed

lemma ev_ds_awake: "cmd_ok d \<Longrightarrow> ev_ok d (event_ds_awake d)"
  by (auto simp: event_ds_awake_def ev_ok_def one_write_def keeps_def cmd_ok_def tx_ok_def wmm_ok_def Let_def)

lemma ev_hs_awake:
  assumes "cmd_ok d"
  shows "\<exists>d'. event_hs_awake d = Some d' \<and> ev_ok d d'"
proof -
  define x where "x = d\<lparr>bWakeupDevRequired := False, WakeupTries := 0\<rparr>"
  define z where "z = w_upd (\<lambda>s. s\<lparr>dnld_sent := False\<rparr>) (x\<lparr>IsDeepSleep := False\<rparr>)"
  define y where "y = (if IsDeepSleep x then z\<lparr>d_tx := (d_tx z)\<lparr>HisRegCpy := HisRegCpy (d_tx z) OR HIS_TxDnLdRdy\<rparr>\<rparr> else x)"
  have y: "ev_ok d y" "cmd_ok y" "card_writes (d_tx y) = card_writes (d_tx d)" "d_q y = d_q d" "d_ps y = d_ps d"
    using assms by (auto simp: y_def z_def x_def ev_ok_def one_write_def keeps_def cmd_ok_def tx_ok_def wmm_ok_def)
  obtain w where w: "map_option snd (PrepareAndSendCommand (prep_header HostCmd_CMD_802_11_WAKEUP_CONFIRM) HostCmd_CMD_802_11_WAKEUP_CONFIRM 0 0 y) = Some w" "ev_ok y w"
    using ev_prepare [OF y(2) header_body] by blast
  obtain w' where w': "map_option snd (PrepareAndSendCommand (prep_header HostCmd_CMD_802_11_WAKEUP_CONFIRM) HostCmd_CMD_802_11_WAKEUP_CONFIRM 0 0 y) = Some w'"
    "w' = y\<lparr>d_q := d_q w'\<rparr>" using prepare_snd [OF y(2) header_body] by blast
  have k: "d_tx w = d_tx y" "IsDeepSleep w = IsDeepSleep y" using w(1) w' keep_tx(1,2) by (metis option.inject)+
  have "event_hs_awake d = Some w" using w(1) unfolding event_hs_awake_def Let_def x_def [symmetric] z_def [symmetric] y_def [symmetric] .
  moreover have "ev_ok d w" using y w(2) k by (auto simp: ev_ok_def one_write_def keeps_def)
  ultimately show ?thesis by blast
qed

lemma event_bodies: "body_ok wlan_cmd_802_11_bg_scan_query" "body_ok wlan_cmd_wmm_get_status" "body_ok (wlan_cmd_802_11_IBSS_Coalesced_Status act en)"
  by (simp_all add: body_ok_def wlan_cmd_802_11_bg_scan_query_def wlan_cmd_wmm_get_status_def wlan_cmd_802_11_IBSS_Coalesced_Status_def le16_of_def)

lemma ev_calm:
  assumes "\<And>s. calm s (f s)" "cmd_ok d"
  shows "ev_ok d (w_upd f d)"
proof -
  have "dnld_sent (f (t_wlan (d_tx d))) = d_dnld d" using assms(1) [of "t_wlan (d_tx d)"] by (simp add: calm_def)
  then show ?thesis using calm_ok [of d f, OF assms(1) assms(2)] by (simp add: ev_ok_def one_write_def keeps_def)
qed

lemma ev_disconnect:
  assumes "cmd_ok d"
  shows "\<exists>d'. MacEventDisconnected d = Some d' \<and> ev_ok d d'"
proof (cases "MediaConnected (d_tx d)")
  case False
  then show ?thesis using ev_ok_refl [OF assms] by (simp add: MacEventDisconnected_def)
next
  case True
  define x where "x = w_upd (\<lambda>s. (wlan_clean_txrx s)\<lparr>link_up := False\<rparr>) d"
  define y where "y = x\<lparr>WPA := False, d_tx := (d_tx x)\<lparr>MediaConnected := False\<rparr>, cur_ATIMWindow := 0\<rparr>"
  have x: "ev_ok d x" unfolding x_def using ev_calm [OF calm_link [OF calm_clean] assms] .
  have y: "ev_ok d y" "cmd_ok y" "d_ps y = d_ps x" "d_q y = d_q d" "card_writes (d_tx y) = card_writes (d_tx d)" "IsDeepSleep y = IsDeepSleep d"
    using x by (auto simp: y_def x_def ev_ok_def one_write_def keeps_def cmd_ok_def tx_ok_def)
  obtain w where w: "PSWakeup 0 y = Some w" "ev_ok y w" using ev_wakeup [OF y(2)] by blast
  have k: "d_tx w = d_tx y" "IsDeepSleep w = IsDeepSleep y" using w(1) wakeup_ok [OF y(2), of 0] keep_tx(1,2) by (metis option.inject)+
  have "ev_ok d w" using y w(2) k by (auto simp: ev_ok_def one_write_def keeps_def)
  moreover have "MacEventDisconnected d = (if d_ps y \<noteq> PS_STATE_FULL_POWER then PSWakeup 0 y else Some y)"
    using True by (simp add: MacEventDisconnected_def Let_def x_def y_def)
  ultimately show ?thesis using w(1) y(1) by simp
qed

lemma event_ok:
  assumes "cmd_ok d" "tx_ret out \<le> 0"
  shows "\<exists>d'. wlan_process_event out d = Some d' \<and> ev_ok d d'"
proof -
  have c: "calm s (wmm_start_queue (os_start_queue (os_carrier_on s)))" for s by (meson calm_trans calm_os calm_wmm)
  have e: "ev_ok d (x\<lparr>EventCause := 0\<rparr>) = ev_ok d x" for x
  proof -
    have "cmd_ok (x\<lparr>EventCause := 0\<rparr>) = cmd_ok x" by (simp add: cmd_ok_def)
    then show ?thesis by (simp add: ev_ok_def one_write_def keeps_def)
  qed
  define P where "P r \<longleftrightarrow> (\<exists>d'. r = Some d' \<and> ev_ok d d')" for r
  have E: "P (map_option (\<lambda>d. d\<lparr>EventCause := 0\<rparr>) r) = P r" for r by (cases r) (simp_all add: P_def e)
  have p: "P (Some (w_upd (\<lambda>s. wmm_start_queue (os_start_queue (os_carrier_on s))) d))" "P (MacEventDisconnected d)" "P (event_ps_sleep out d)"
    "P (event_ps_awake out d)" "P (Some (event_ds_awake d))" "P (event_hs_awake d)" "P (Some (w_upd wlan_clean_txrx d))" "P (Some d)"
    using ev_calm [of "\<lambda>s. wmm_start_queue (os_start_queue (os_carrier_on s))", OF c assms(1)] ev_disconnect [OF assms(1)] ev_sleep [OF assms] ev_awake [OF assms(1), of out]
      ev_ds_awake [OF assms(1)] ev_hs_awake [OF assms(1)] ev_calm [of wlan_clean_txrx, OF calm_clean assms(1)] ev_ok_refl [OF assms(1)]
    by (simp_all add: P_def)
  have b: "P (map_option snd (PrepareAndSendCommand body n 0 0 d))" if "body_ok body" for body n
    using ev_prepare [OF assms(1) that] by (simp add: P_def)
  have "P (wlan_process_event out d)"
    unfolding wlan_process_event_def Let_def E by (simp only: p b [OF event_bodies(1)] b [OF event_bodies(2)] b [OF event_bodies(3)] simp_thms split: if_split)
  then show ?thesis by (simp add: P_def)
qed

section \<open>The interrupt status\<close>

text \<open>The bus delivers whole blocks.\<close>

definition irq_ok :: "card_irq \<Rightarrow> bool" where
  "irq_ok c \<longleftrightarrow> (\<forall>len b. irq_scratch c = Some len \<longrightarrow> irq_iomem c = Some b \<longrightarrow> length b = (unat len + 255) div 256 * 256)"

text \<open>The card does not say that it has taken the last transfer.\<close>

definition no_ack :: "card_irq \<Rightarrow> bool" where
  "no_ack c \<longleftrightarrow> (\<forall>st. irq_status c = Some st \<longrightarrow> st AND DN_LD_HOST_INT_STATUS = 0)"

lemma tx_done_ok: "cmd_ok d \<Longrightarrow> cmd_ok (d\<lparr>d_tx := tx_done_int (d_tx d)\<rparr>)"
  by (auto simp: cmd_ok_def tx_done_int_def tx_ok_def wmm_ok_def wmm_process_fw_iface_tx_xfer_end_def os_stop_queue_def)

lemma tx_done_fields [simp]:
  "card_writes (tx_done_int t) = card_writes t" "PSState (t_wlan (tx_done_int t)) = PSState (t_wlan t)"
  by (simp_all add: tx_done_int_def wmm_process_fw_iface_tx_xfer_end_def os_stop_queue_def)

lemma card_to_host_ok:
  assumes "irq_ok c"
  shows "\<exists>r. fst (mv_sdio_card_to_host c d) = Some r \<and> (\<forall>ty n b. r = Inr (ty, n, b) \<longrightarrow> 4 < n \<and> n \<le> length b)" "\<exists>e. snd (mv_sdio_card_to_host c d) = d\<lparr>EventCause := e\<rparr>"
proof -
  have l: "unat len \<le> length b \<and> 8 \<le> length b" if "irq_scratch c = Some len" "irq_iomem c = Some b" "4 < unat len" for len b
  proof -
    have e: "length b = (unat len + 255) div 256 * 256" using assms that(1,2) by (simp add: irq_ok_def)
    have "1 \<le> (unat len + 255) div 256" using that(3) by (simp add: Suc_le_eq div_greater_zero_iff)
    moreover have "unat len \<le> (unat len + 255) div 256 * 256" by linarith
    ultimately show ?thesis unfolding e by linarith
  qed
  have self: "d\<lparr>EventCause := EventCause d\<rparr> = d" by simp
  show "\<exists>r. fst (mv_sdio_card_to_host c d) = Some r \<and> (\<forall>ty n b. r = Inr (ty, n, b) \<longrightarrow> 4 < n \<and> n \<le> length b)"
    by (auto simp: mv_sdio_card_to_host_def Let_def SDIO_HEADER_LEN_def not_le split: option.split dest: l)
  show "\<exists>e. snd (mv_sdio_card_to_host c d) = d\<lparr>EventCause := e\<rparr>"
    by (auto simp: mv_sdio_card_to_host_def Let_def split: option.split intro: exI [of _ "EventCause d"])
qed

lemma cmd_ok_his: "cmd_ok (d\<lparr>d_tx := (d_tx d)\<lparr>HisRegCpy := h\<rparr>\<rparr>) = cmd_ok d"
  by (simp add: cmd_ok_def tx_ok_def)

definition read_ok :: "cmddev \<Rightarrow> cmddev \<Rightarrow> bool" where
  "read_ok d d' \<longleftrightarrow> cmd_ok d' \<and> card_writes (d_tx d') = card_writes (d_tx d) \<and> d_ps d' = d_ps d \<and> IsDeepSleep d' = IsDeepSleep d \<and>
     CurCmd (d_q d') = CurCmd (d_q d) \<and> CmdFreeQ (d_q d') = CmdFreeQ (d_q d) \<and> CmdPendingQ (d_q d') = CmdPendingQ (d_q d) \<and>
     (CurCmd (d_q d) = None \<longrightarrow> d_q d' = d_q d) \<and> (\<forall>j. CmdFlags (CmdArray (d_q d') ! j) = CmdFlags (CmdArray (d_q d) ! j))"

lemma int_status_ok:
  assumes "cmd_ok d" "irq_ok c"
  shows "\<exists>ret ireg frame d'. sbi_get_int_status c d = Some (ret, ireg, frame, d') \<and> read_ok d d' \<and>
    (no_ack c \<longrightarrow> d_dnld d' = d_dnld d)"
proof (cases "irq_status c")
  case None
  then show ?thesis using assms by (simp add: sbi_get_int_status_def read_ok_def)
next
  case (Some st)
  define x where "x = (if st AND DN_LD_HOST_INT_STATUS \<noteq> 0 then d\<lparr>d_tx := tx_done_int (d_tx d)\<rparr> else d)"
  have x: "read_ok d x" "cmd_ok x" "st AND DN_LD_HOST_INT_STATUS = 0 \<longrightarrow> d_dnld x = d_dnld d"
    using assms(1) tx_done_ok [OF assms(1)] by (simp_all add: x_def read_ok_def)
  obtain r y where m: "mv_sdio_card_to_host c x = (Some r, y)" "\<And>ty n b. r = Inr (ty, n, b) \<Longrightarrow> 4 < n \<and> n \<le> length b"
    using card_to_host_ok(1) [OF assms(2), of x] by (cases "mv_sdio_card_to_host c x") auto
  obtain e where y: "y = x\<lparr>EventCause := e\<rparr>" using card_to_host_ok(2) [OF assms(2), of x] m(1) by auto
  have yr: "read_ok d y" "cmd_ok y" "d_dnld y = d_dnld x" using x cmd_ok_other [OF x(2), of y] by (simp_all add: y read_ok_def)
  have u: "\<exists>z. upload_cmd b y = Some z \<and> read_ok d z \<and> d_dnld z = d_dnld x" for b
  proof -
    obtain z where z: "upload_cmd b y = Some z" "cmd_ok z" "z = y\<lparr>d_q := d_q z\<rparr>" "CurCmd (d_q z) = CurCmd (d_q y)" "CmdPendingQ (d_q z) = CmdPendingQ (d_q y)"
      "CmdFreeQ (d_q z) = CmdFreeQ (d_q y)" "\<forall>j. CmdFlags (CmdArray (d_q z) ! j) = CmdFlags (CmdArray (d_q y) ! j)" using upload_ok [OF yr(2)] by blast
    have "CurCmd (d_q y) = None \<Longrightarrow> z = y" using z(1) by (simp add: upload_cmd_def)
    then show ?thesis using z yr keep_tx(1,2) [OF z(3)] by (auto simp: read_ok_def)
  qed
  have sub: "\<exists>bs. mem_sub b SDIO_HEADER_LEN (n - SDIO_HEADER_LEN) = Some bs" if "r = Inr (ty, n, b)" for ty n b
    using m(2) [OF that] by (simp add: mem_sub_def SDIO_HEADER_LEN_def)
  define Q where "Q v \<longleftrightarrow> (\<exists>ret ireg frame d'. v = Some (ret, ireg, frame, d') \<and> read_ok d d' \<and>
    (st AND DN_LD_HOST_INT_STATUS = 0 \<longrightarrow> d_dnld d' = d_dnld d))" for v :: "(int \<times> u8 \<times> u8 list option \<times> cmddev) option"
  have q: "Q (Some (a, i, f, d'))" if "read_ok d d'" "d_dnld d' = d_dnld x" for a i f d' using that x(3) by (simp add: Q_def)
  have "Q (sbi_get_int_status c d)"
  proof (cases "st \<noteq> 0 \<and> \<not> irq_clear c")
    case True
    have "read_ok d d" using assms(1) by (simp add: read_ok_def)
    then show ?thesis using True Some by (simp add: sbi_get_int_status_def Q_def)
  next
    case False
    let ?i = "if st AND DN_LD_HOST_INT_STATUS \<noteq> 0 then HIS_TxDnLdRdy else 0"
    have S: "sbi_get_int_status c d =
      (if st AND UP_LD_HOST_INT_STATUS = 0 then Some (0, ?i, None, x) else if \<not> irq_skb c then Some (- 1, ?i, None, x)
       else case r of Inl _ \<Rightarrow> Some (- 1, ?i, None, y)
         | Inr (ty, upld_len, payload) \<Rightarrow>
             if ty = MVSD_DAT then do { frame \<leftarrow> mem_sub payload SDIO_HEADER_LEN (upld_len - SDIO_HEADER_LEN); Some (0, ?i OR HIS_RxUpLdRdy, Some frame, y) }
             else if ty = MVSD_CMD then do { bytes \<leftarrow> mem_sub payload SDIO_HEADER_LEN (upld_len - SDIO_HEADER_LEN); d \<leftarrow> upload_cmd bytes y; Some (0, ?i OR HIS_CmdUpLdRdy, None, d) }
             else if ty = MVSD_EVENT then Some (0, ?i OR HIS_CardEvent, None, y) else Some (0, ?i, None, y))"
      unfolding sbi_get_int_status_def Some option.case Let_def x_def [symmetric] m(1) prod.case by (simp only: False if_False)
    show ?thesis
    proof (cases r)
      case (Inl a)
      then show ?thesis unfolding S using q [OF x(1)] q [OF yr(1,3)] by simp
    next
      case (Inr v)
      obtain ty n b where v: "v = (ty, n, b)" by (cases v) auto
      obtain bs where bs: "mem_sub b SDIO_HEADER_LEN (n - SDIO_HEADER_LEN) = Some bs" using sub [of ty n b] Inr v by blast
      obtain z where z: "upload_cmd bs y = Some z" "read_ok d z" "d_dnld z = d_dnld x" using u by blast
      show ?thesis unfolding S using Inr v bs z(1) q [OF x(1)] q [OF yr(1,3)] q [OF z(2,3)] by simp
    qed
  qed
  then show ?thesis using Some by (auto simp: Q_def no_ack_def)
qed

section \<open>The main loop\<close>

text \<open>The end of a round: at most one frame, unless the card was sent into deep sleep, and none to a card that is busy or asleep.\<close>

lemma main_tail_ok:
  assumes "cmd_ok d" "tx_ret out1 \<le> 0"
  shows "\<exists>d'. main_tail out1 out2 out3 delay d = Some d' \<and> cmd_ok d' \<and> (d_dnld d \<or> d_ps d = PS_STATE_SLEEP \<longrightarrow> card_writes (d_tx d') = card_writes (d_tx d)) \<and>
    (\<exists>fs. card_writes (d_tx d') = card_writes (d_tx d) @ fs \<and> (length fs \<le> 1 \<or> IsDeepSleep d'))"
proof -
  let ?A = "if d_ps d = PS_STATE_PRE_SLEEP \<and> \<not> d_dnld d \<and> CurCmd (d_q d) = None then PSConfirmSleep out1 d else Some d"
  obtain x where x: "?A = Some x" "cmd_ok x" "d_dnld d \<longrightarrow> x = d" "d_ps d \<noteq> PS_STATE_PRE_SLEEP \<longrightarrow> x = d"
    "d_ps d = PS_STATE_PRE_SLEEP \<longrightarrow> asleep (d_ps x)" "\<exists>fs. length fs \<le> 1 \<and> card_writes (d_tx x) = card_writes (d_tx d) @ fs"
  proof (cases "d_ps d = PS_STATE_PRE_SLEEP \<and> \<not> d_dnld d \<and> CurCmd (d_q d) = None")
    case True
    from ps_confirm_ok [OF assms(1), of out1] True obtain x where "PSConfirmSleep out1 d = Some x" "cmd_ok x" "asleep (d_ps x)"
      "card_writes (d_tx x) = card_writes (d_tx d) \<or> (\<exists>f. card_writes (d_tx x) = card_writes (d_tx d) @ [f])" by (auto simp: asleep_def)
    then show ?thesis using that [of x] True by fastforce
  next
    case False
    then show ?thesis using assms(1) by (intro that [of d]) (auto simp: asleep_def)
  qed
  show ?thesis
  proof (cases "asleep (d_ps x) \<or> IsDeepSleep x \<or> HS_Activated x \<and> bWakeupDevRequired x")
    case True
    then have "main_tail out1 out2 out3 delay d = Some x" unfolding main_tail_def x(1) Option.bind.simps by auto
    then show ?thesis using x by auto
  next
    case False
    then have xd: "x = d" using x(4,5) by auto
    have ns: "d_ps d \<noteq> PS_STATE_SLEEP" using False xd by (auto simp: asleep_def)
    let ?B = "if \<not> d_dnld d \<and> CurCmd (d_q d) = None then map_option snd (ExecuteNextCommand out2 d) else Some d"
    obtain z where z: "map_option snd (ExecuteNextCommand out2 d) = Some z" "cmd_ok z" "d_ps z = d_ps d" "wrote d z"
      using execute_ok [OF assms(1) ns, of out2] by auto
    define y where "y = (if \<not> d_dnld d \<and> CurCmd (d_q d) = None then z else d)"
    have y: "?B = Some y" "cmd_ok y" "d_ps y = d_ps d" "wrote d y" "d_dnld d \<longrightarrow> y = d"
      using z assms(1) by (simp_all add: y_def wrote_same)
    obtain t where t: "main_tx out3 delay (d_tx y) = Some t" "tx_ok t" using main_tx_ok [of "d_tx y" out3 delay] y(2) by (auto simp: cmd_ok_def)
    have M: "main_tail out1 out2 out3 delay d = Some (y\<lparr>d_tx := t\<rparr>)"
      using False [unfolded xd] unfolding main_tail_def x(1) Option.bind.simps unfolding xd y(1) Option.bind.simps t(1) by auto
    have p: "PSState (t_wlan t) = d_ps y" "card_writes t = card_writes (d_tx y) \<or> (\<exists>f. card_writes t = card_writes (d_tx y) @ [f])"
      using main_tx_SomeD(1) [OF t(1)] by blast+
    have busy: "d_dnld y \<Longrightarrow> t = d_tx y" using main_tx_SomeD(2) [OF t(1)] by blast
    have ok: "cmd_ok (y\<lparr>d_tx := t\<rparr>)" using y(2,3) t(2) p(1) ns by (simp add: cmd_ok_def)
    have w: "\<exists>fs. card_writes t = card_writes (d_tx d) @ fs \<and> (length fs \<le> 1 \<or> IsDeepSleep y)"
      using y(4) p(2) busy unfolding wrote_def by fastforce
    have "d_dnld d \<Longrightarrow> card_writes t = card_writes (d_tx d)" using y(5) busy by auto
    then show ?thesis using M ok w ns by auto
  qed
qed

end
