(* ===== verification/WlanPower.thy ===== *)
theory WlanPower
  imports WlanMainInv
begin

text \<open>
  The command path under everything that can happen to it: callers, users, interrupts, packets, timeouts and rounds of
  the main thread, in any order. The nodes are conserved and the driver respects the sleep of the card; a command
  gets through in power save; and the situations in which commands are lost, stuck or misreported.
\<close>

section \<open>Allocation\<close>

definition free_q :: cmdq where
  "free_q = \<lparr>CmdArray = replicate 10 (CleanUpCmdCtrlNode (fresh_node True)), CmdFreeQ = [0..<10], CmdPendingQ = [], CurCmd = None\<rparr>"

lemma free_q_ok: "q_ok free_q"
  by (simp add: free_q_def q_held_def cur_nodes_def node_ok_def CleanUpCmdCtrlNode_def fresh_node_def)

lemma node_upd_nth: "i < length (CmdArray q) \<Longrightarrow> node_upd i f q = Some (q\<lparr>CmdArray := (CmdArray q)[i := f (CmdArray q ! i)]\<rparr>)"
  by (simp add: node_upd_def mem_get_in mem_put_in)

lemma upt_10: "[0..<MRVDRV_NUM_OF_CMD_BUFFER] = [0, 1, 2, 3, 4, 5, 6, 7, 8, 9]"
  by (simp add: MRVDRV_NUM_OF_CMD_BUFFER_def upt_rec)

lemma replicate_10: "replicate MRVDRV_NUM_OF_CMD_BUFFER x = [x, x, x, x, x, x, x, x, x, x]"
  by (simp add: MRVDRV_NUM_OF_CMD_BUFFER_def numeral_eq_Suc)

lemma alloc_free_q:
  assumes "CmdFreeQ q = []" "CmdPendingQ q = []" "CurCmd q = None" "\<And>i. i \<le> 10 \<Longrightarrow> ok i"
  shows "AllocateCmdBuffer ok q = Some (0, free_q)"
proof -
  have f: "(fresh_node False)\<lparr>BufVirtualAddr := Some zero_cmd\<rparr> = fresh_node True" by (simp add: fresh_node_def)
  have o: "ok 0" "ok (Suc 0)" "ok 1" "ok 2" "ok 3" "ok 4" "ok 5" "ok 6" "ok 7" "ok 8" "ok 9" "ok 10" using assms(4) by simp_all
  have u: "[0..<10 :: nat] = [0, 1, 2, 3, 4, 5, 6, 7, 8, 9]" by (simp add: upt_rec)
  show ?thesis
    unfolding AllocateCmdBuffer_def upt_10 replicate_10
    using assms(1-3) o by (cases q) (simp add: node_upd_nth f CleanupAndInsertCmd_def free_q_def numeral_eq_Suc u)
qed

section \<open>Queueing\<close>

text \<open>Leaving power save and the commands for the sleep of the host go to the head of the queue.\<close>

definition goes_first :: "ps_state \<Rightarrow> HostCmd \<Rightarrow> bool" where
  "goes_first ps c \<longleftrightarrow>
     c_Command c = HostCmd_CMD_802_11_PS_MODE \<and> psm_Action c = HostCmd_SubCmd_Exit_PS \<and> ps \<noteq> PS_STATE_FULL_POWER \<or>
     c_Command c = HostCmd_CMD_802_11_WAKEUP_CONFIRM \<or> c_Command c = HostCmd_CMD_802_11_HOST_SLEEP_ACTIVATE \<or>
     c_Command c = HostCmd_CMD_802_11_HOST_SLEEP_CFG"

lemma queue_eval:
  assumes "i < length (CmdArray q)" "BufVirtualAddr (CmdArray q ! i) = Some c"
  shows "QueueCmd ps i True q = Some (q\<lparr>CmdPendingQ := (if goes_first ps c then i # CmdPendingQ q else CmdPendingQ q @ [i])\<rparr>)"
  using assms by (auto simp: QueueCmd_def mem_get_in goes_first_def Let_def)

lemma prepare_pending:
  assumes "cmd_ok d" "body_ok body" "fresh_cmd body cmd_no d = (0, c)" "CmdFreeQ (d_q d) = i # f" "\<not> SurpriseRemoved (d_tx d)"
  shows "\<exists>d'. PrepareAndSendCommand body cmd_no oid wait d = Some (0, d') \<and> d' = d\<lparr>d_q := d_q d'\<rparr> \<and> cmd_ok d' \<and> CmdFreeQ (d_q d') = f \<and> CurCmd (d_q d') = CurCmd (d_q d) \<and>
    CmdArray (d_q d') = (CmdArray (d_q d))[i := prepared_node oid wait c (CmdArray (d_q d) ! i)] \<and> loaded d' i c \<and>
    CmdPendingQ (d_q d') = (if goes_first (d_ps d) c then i # CmdPendingQ (d_q d) else CmdPendingQ (d_q d) @ [i])"
proof -
  have q: "q_ok (d_q d)" using assms(1) by (simp add: cmd_ok_def)
  have i: "i < 10" "i < length (CmdArray (d_q d))" using held_less(2) [OF q, of i] assms(4) q by (simp_all add: q_held_def)
  obtain d' where d': "PrepareAndSendCommand body cmd_no oid wait d = Some (0, d')" "d' = d\<lparr>d_q := d_q d'\<rparr>" "q_ok (d_q d')" "CurCmd (d_q d') = CurCmd (d_q d)"
    "CmdFreeQ (d_q d') = f" "CmdArray (d_q d') = (CmdArray (d_q d))[i := prepared_node oid wait c (CmdArray (d_q d) ! i)]"
    "QueueCmd (d_ps d) i True ((d_q d)\<lparr>CmdFreeQ := f, CmdArray := CmdArray (d_q d')\<rparr>) = Some (d_q d')"
    using prepare_cases [OF q assms(2,3), of oid wait] assms(4,5) by metis
  have l: "BufVirtualAddr (CmdArray (d_q d') ! i) = Some c" using d'(6) i(2) by (simp add: prepared_node_def)
  define q1 where "q1 = (d_q d)\<lparr>CmdFreeQ := f, CmdArray := CmdArray (d_q d')\<rparr>"
  have q1: "CmdArray q1 = CmdArray (d_q d')" "CmdPendingQ q1 = CmdPendingQ (d_q d)" "i < length (CmdArray q1)" using d'(6) i(2) by (simp_all add: q1_def)
  have l': "BufVirtualAddr (CmdArray q1 ! i) = Some c" using l q1(1) by simp
  have e: "Some (d_q d') = Some (q1\<lparr>CmdPendingQ := (if goes_first (d_ps d) c then i # CmdPendingQ q1 else CmdPendingQ q1 @ [i])\<rparr>)"
    by (rule trans [OF d'(7) [folded q1_def, symmetric] queue_eval [OF q1(3) l']])
  have p: "CmdPendingQ (d_q d') = (if goes_first (d_ps d) c then i # CmdPendingQ (d_q d) else CmdPendingQ (d_q d) @ [i])"
    using arg_cong [OF e, of "\<lambda>r. CmdPendingQ (the r)"] q1(2) by simp
  have "cmd_ok (d\<lparr>d_q := d_q d'\<rparr>)" using cmd_ok_q [OF assms(1) d'(3)] d'(4) by simp
  then have "cmd_ok d'" using d'(2) by simp
  then show ?thesis using d'(1,2,4-6) p l unfolding loaded_def by blast
qed

section \<open>A command of the user\<close>

definition user_size :: "u8 list \<Rightarrow> nat" where
  "user_size u = unat (le16_to (u ! 2) (u ! 3))"

lemma hostcmd_ok:
  assumes "cmd_ok d" "len \<le> 2048" "\<And>u. user = Some u \<Longrightarrow> len \<le> length u \<and> user_size u \<le> 2048"
  shows "\<exists>r d'. wlan_hostcmd_ioctl mem user len d = Some (r, d') \<and> d' = d\<lparr>d_q := d_q d'\<rparr> \<and> cmd_ok d' \<and> CurCmd (d_q d') = CurCmd (d_q d) \<and>
    (CmdFreeQ (d_q d) = [] \<longrightarrow> d' = d)"
proof (cases "len < S_DS_GEN \<or> CmdFreeQ (d_q d) = []")
  case True
  have q: "q_ok (d_q d)" using assms(1) by (simp add: cmd_ok_def)
  have "\<exists>r. wlan_hostcmd_ioctl mem user len d = Some (r, d)" using True get_ok [OF q] by (auto simp: wlan_hostcmd_ioctl_def)
  then show ?thesis using assms(1) by auto
next
  case False
  let ?q = "d_q d"
  have q: "q_ok ?q" using assms(1) by (simp add: cmd_ok_def)
  obtain i f where f: "CmdFreeQ ?q = i # f" using False by (cases "CmdFreeQ ?q") auto
  obtain q1 where q1: "GetFreeCmdCtrlNode ?q = Some (Some i, q1)" "q_held {#i#} q1" "CurCmd q1 = CurCmd ?q" "CmdArray q1 = (CmdArray ?q)[i := CleanUpCmdCtrlNode (CmdArray ?q ! i)]"
    using get_ok [OF q] f by blast
  have i: "i < 10" using held_less(1) [OF q1(2), of i] by simp
  have R: "\<exists>q'. CleanupAndInsertCmd i x = Some q' \<and> cmd_ok (d\<lparr>d_q := q'\<rparr>) \<and> CurCmd q' = CurCmd ?q" if "q_held {#i#} x" "CurCmd x = CurCmd ?q" for x
    using insert_ok [OF that(1)] that(2) cmd_ok_q [OF assms(1)] by metis
  have n1: "BufVirtualAddr (CmdArray q1 ! i) = Some zero_cmd"
    using q1(4) i q held_node [OF q i] by (auto simp: node_ok_def CleanUpCmdCtrlNode_def q_held_def)
  let ?set = "\<lambda>n. n\<lparr>cmd_oid := 0, wait_option := HostCmd_OPTION_WAITFORRSP\<rparr>"
  obtain q2 where q2: "SetCmdCtrlNode i 0 HostCmd_OPTION_WAITFORRSP q1 = Some q2" "q_held {#i#} q2" "q2 = q1\<lparr>CmdArray := (CmdArray q1)[i := ?set (CmdArray q1 ! i)]\<rparr>"
    using node_upd_ok [OF q1(2), of i ?set] n1 by (auto simp: SetCmdCtrlNode_def node_ok_def)
  have c2: "CurCmd q2 = CurCmd ?q" "mem_get (CmdArray q2) i = Some (CmdArray q2 ! i)" "BufVirtualAddr (CmdArray q2 ! i) = Some zero_cmd"
    using q2(2,3) q1(2,3) n1 i held_node [OF q2(2) i] by (simp_all add: q_held_def)
  have fin: ?thesis if "wlan_hostcmd_ioctl mem user len d = Some (r, d\<lparr>d_q := q'\<rparr>)" "cmd_ok (d\<lparr>d_q := q'\<rparr>)" "CurCmd q' = CurCmd ?q" for r q'
    using that f by auto
  consider (mem) "\<not> mem" | (copy) "mem" "user = None" | (user) u where "mem" "user = Some u" by (cases user) auto
  then show ?thesis
  proof cases
    case mem
    obtain q' where "CleanupAndInsertCmd i q1 = Some q'" "cmd_ok (d\<lparr>d_q := q'\<rparr>)" "CurCmd q' = CurCmd ?q" using R [OF q1(2,3)] by blast
    then show ?thesis using mem False q1(1) by (intro fin [of "- ENOMEM" q']) (auto simp: wlan_hostcmd_ioctl_def)
  next
    case copy
    obtain q' where "CleanupAndInsertCmd i q2 = Some q'" "cmd_ok (d\<lparr>d_q := q'\<rparr>)" "CurCmd q' = CurCmd ?q" using R [OF q2(2) c2(1)] by blast
    then show ?thesis using copy False q1(1) q2(1) c2(2,3) by (intro fin [of "- EFAULT" q']) (auto simp: wlan_hostcmd_ioctl_def)
  next
    case user
    have u: "len \<le> length u" "user_size u \<le> 2048" using assms(3) [OF user(2)] by simp_all
    have s: "mem_sub u 0 len = Some (take len u)" using u(1) by (simp add: mem_sub_def)
    have l: "length (cmd_bytes zero_cmd) = 2048" by (simp add: length_cmd_bytes)
    obtain b where b: "mem_copy (cmd_bytes zero_cmd) 0 (take len u) = Some b" "length b = 2048"
      using mem_copy_Some [of 0 "take len u" "cmd_bytes zero_cmd"] l assms(2) u(1) by auto
    have "b = take len u @ drop len (cmd_bytes zero_cmd)" using b(1) u(1) by (auto simp: mem_copy_def split: if_splits)
    moreover have "3 < len" using False by (simp add: S_DS_GEN_def)
    ultimately have sz: "unat (c_Size (cmd_of_bytes b)) \<le> 2048" using u by (simp add: cmd_of_bytes_def user_size_def nth_append)
    show ?thesis
    proof (cases "unat (c_Size (cmd_of_bytes b)) < S_DS_GEN")
      case True
      obtain q' where "CleanupAndInsertCmd i q2 = Some q'" "cmd_ok (d\<lparr>d_q := q'\<rparr>)" "CurCmd q' = CurCmd ?q" using R [OF q2(2) c2(1)] by blast
      then show ?thesis using user False True q1(1) q2(1) c2(2,3) s b(1) by (intro fin [of "- EFAULT" q']) (auto simp: wlan_hostcmd_ioctl_def Let_def)
    next
      case big: False
      let ?f = "\<lambda>n. n\<lparr>CmdFlags := CmdFlags n OR CMD_F_HOSTCMD, BufVirtualAddr := Some ((cmd_of_bytes b)\<lparr>c_Result := 0\<rparr>), CmdWaitQWoken := False\<rparr>"
      obtain q3 where q3: "node_upd i ?f q2 = Some q3" "q_held {#i#} q3" "q3 = q2\<lparr>CmdArray := (CmdArray q2)[i := ?f (CmdArray q2 ! i)]\<rparr>"
        using node_upd_ok [OF q2(2), of i ?f] b(2) by (auto simp: node_ok_def length_cmd_of_bytes)
      have "size_ok (CmdArray q3 ! i)" using q3(3) sz i q2(2) by (simp add: size_ok_def q_held_def)
      from queue_ok [OF q3(2) this, of "d_ps d" True] obtain q4 where q4: "QueueCmd (d_ps d) i True q3 = Some q4" "q_ok q4" "CurCmd q4 = CurCmd q3" by auto
      have c4: "CurCmd q4 = CurCmd ?q" using q4(3) q3(3) c2(1) by simp
      have "cmd_ok (d\<lparr>d_q := q4\<rparr>)" using cmd_ok_q [OF assms(1) q4(2)] c4 by simp
      then show ?thesis using user False big q1(1) q2(1) c2(2,3) s b(1) q3(1) q4(1) c4
        by (intro fin [of 0 q4]) (simp_all add: wlan_hostcmd_ioctl_def Let_def)
    qed
  qed
qed

text \<open>The length that the user gives is not compared with the size of the buffer.\<close>

lemma hostcmd_overrun:
  assumes "cmd_ok d" "CmdFreeQ (d_q d) = i # f" "2048 < len" "len \<le> length u"
  shows "wlan_hostcmd_ioctl True (Some u) len d = None"
proof -
  have q: "q_ok (d_q d)" using assms(1) by (simp add: cmd_ok_def)
  obtain q1 where q1: "GetFreeCmdCtrlNode (d_q d) = Some (Some i, q1)" "q_held {#i#} q1" using get_ok [OF q] assms(2) by blast
  have i: "i < 10" using held_less(1) [OF q1(2), of i] by simp
  obtain c where c: "BufVirtualAddr (CmdArray q1 ! i) = Some c" "length (c_params c) = 2040" using held_node [OF q1(2) i] by (auto simp: node_ok_def)
  have l: "i < length (CmdArray q1)" using q1(2) i by (simp add: q_held_def)
  have "mem_copy (cmd_bytes c) 0 (take len u) = None" using assms(3,4) c(2) by (simp add: mem_copy_def length_cmd_bytes)
  then show ?thesis using q1(1) c(1) l assms(3,4) by (simp add: wlan_hostcmd_ioctl_def SetCmdCtrlNode_def node_upd_nth mem_get_in mem_sub_def S_DS_GEN_def)
qed

section \<open>A round of the main loop\<close>

lemma tx_ret_le: "\<forall>i. out i \<le> 0 \<Longrightarrow> tx_ret out \<le> 0"
  by (simp add: tx_ret_def iomem_retry_cases)

lemma cmd_ok_his_clear [simp]: "cmd_ok (his_clear b d) = cmd_ok d"
  by (simp add: his_clear_def cmd_ok_his)

lemma his_clear_fields [simp]: "d_q (his_clear b d) = d_q d" "t_wlan (d_tx (his_clear b d)) = t_wlan (d_tx d)" "card_writes (d_tx (his_clear b d)) = card_writes (d_tx d)"
  "IsDeepSleep (his_clear b d) = IsDeepSleep d"
  by (simp_all add: his_clear_def)

lemma reply_fits_his [simp]: "reply_fits (his_clear b d) = reply_fits d"
  by (simp add: reply_fits_def loaded_def)

text \<open>The first half of a round: the interrupt status.\<close>

definition round_read :: "card_irq \<Rightarrow> cmddev \<Rightarrow> (bool \<times> u8 list option \<times> cmddev) option" where
  "round_read irq d =
     (if IntCounter d \<noteq> 0 then
        do { (ret, ireg, frame, d) \<leftarrow> sbi_get_int_status irq (d\<lparr>IntCounter := 0\<rparr>);
             if ret \<noteq> 0 then Some (True, frame, d)
             else Some (False, frame, d\<lparr>d_tx := (d_tx d)\<lparr>HisRegCpy := HisRegCpy (d_tx d) OR ireg\<rparr>\<rparr>) }
      else if bWakeupDevRequired d \<and> (HS_Activated d \<or> IsDeepSleep d) then Some (True, None, d\<lparr>WakeupTries := WakeupTries d + 1\<rparr>)
      else Some (False, None, d))"

text \<open>The response at the firmware's command, if there is one, is one that this part handles itself: the reply to a command of
  a user that fits the buffer, a rejection, or one of the responses that change the sleep state or the connection. What the
  other handlers of \<open>wlan_process_rx_command\<close> do (the scan, the hardware specification, the traffic classes, the
  registers) is not in this state, where they count as doing nothing.\<close>

definition own_reply :: "cmddev \<Rightarrow> bool" where
  "own_reply d \<longleftrightarrow> (\<forall>i c. CurCmd (d_q d) = Some i \<longrightarrow> loaded d i c \<longrightarrow>
     (if CmdFlags (CmdArray (d_q d) ! i) AND CMD_F_HOSTCMD \<noteq> 0 then unat (c_Size c) \<le> 2048
      else c_Command c AND 0x8000 = 0 \<or> c_Result c \<noteq> 0 \<or> c_Command c \<in> {0x8021, 0x8024, 0x8040, 0x8043, 0x8044, 0x8045}))"

text \<open>What the round reads leaves a state whose response, if it is processed, is of this kind.\<close>

definition reply_here :: "card_irq \<Rightarrow> cmddev \<Rightarrow> bool" where
  "reply_here irq d \<longleftrightarrow> (case round_read irq d of Some (_, _, x) \<Rightarrow> HisRegCpy (d_tx x) AND HIS_CmdUpLdRdy \<noteq> 0 \<longrightarrow> own_reply x | None \<Rightarrow> False)"

lemma own_reply_fits: "own_reply d \<Longrightarrow> reply_fits d"
  unfolding own_reply_def reply_fits_def by (auto split: if_splits)

text \<open>The second half: a response, an event, and what may be sent.\<close>

definition round_act :: "(nat \<Rightarrow> int) \<Rightarrow> (cmddev \<Rightarrow> cmddev option) \<Rightarrow> cmddev \<Rightarrow> cmddev option" where
  "round_act out0 tail d =
     do { d \<leftarrow> (if HisRegCpy (d_tx d) AND HIS_CmdUpLdRdy \<noteq> 0 then wlan_process_rx_command (his_clear HIS_CmdUpLdRdy d) else Some d);
          let d = (if HisRegCpy (d_tx d) AND HIS_RxUpLdRdy \<noteq> 0 then his_clear HIS_RxUpLdRdy d else d);
          d \<leftarrow> (if HisRegCpy (d_tx d) AND HIS_CardEvent \<noteq> 0 then wlan_process_event out0 (his_clear HIS_CardEvent d) else Some d);
          tail d }"

lemma map_option_bind: "map_option f r = r \<bind> (\<lambda>x. Some (f x))"
  by (cases r) simp_all

lemma main_round_eq:
  "main_round irq out0 out1 out2 out3 delay d =
     (if SurpriseRemoved (d_tx d) then Some (False, None, d)
      else do { (cont, frame, x) \<leftarrow> round_read irq d;
                if cont then Some (True, frame, x) else map_option (\<lambda>d. (True, frame, d)) (round_act out0 (main_tail out1 out2 out3 delay) x) })"
  unfolding main_round_def round_read_def [symmetric] round_act_def Let_def map_option_bind Option.bind_assoc by (rule refl)

lemma round_read_ok:
  assumes "cmd_ok d" "irq_ok irq"
  shows "\<exists>cont frame x. round_read irq d = Some (cont, frame, x) \<and> read_ok d x \<and>
    (no_ack irq \<longrightarrow> d_dnld x = d_dnld d)"
proof (cases "IntCounter d = 0")
  case True
  have "cmd_ok (d\<lparr>WakeupTries := WakeupTries d + 1\<rparr>)" using cmd_ok_other [OF assms(1), of "d\<lparr>WakeupTries := WakeupTries d + 1\<rparr>"] by simp
  then show ?thesis using True assms(1) by (auto simp: round_read_def read_ok_def)
next
  case False
  let ?d = "d\<lparr>IntCounter := 0\<rparr>"
  have d: "cmd_ok ?d" using cmd_ok_other [OF assms(1), of ?d] by simp
  obtain ret ireg frame y where y: "sbi_get_int_status irq ?d = Some (ret, ireg, frame, y)" "read_ok ?d y"
    "no_ack irq \<longrightarrow> d_dnld y = d_dnld d"
    using int_status_ok [OF d assms(2)] by auto
  have r: "read_ok d y" "read_ok d (y\<lparr>d_tx := (d_tx y)\<lparr>HisRegCpy := h\<rparr>\<rparr>)" for h
    using y(2) by (simp_all add: read_ok_def cmd_ok_his)
  then show ?thesis using False y(1,3) by (auto simp: round_read_def)
qed

lemma round_spec:
  assumes "cmd_ok d" "irq_ok irq" "tx_ret out0 \<le> 0" "tx_ret out1 \<le> 0"
    and fits: "reply_here irq d \<or> main_round irq out0 out1 out2 out3 delay d \<noteq> None"
  shows "\<exists>go frame d'. main_round irq out0 out1 out2 out3 delay d = Some (go, frame, d') \<and> cmd_ok d' \<and>
    (\<exists>fs. card_writes (d_tx d') = card_writes (d_tx d) @ fs \<and> (length fs \<le> 1 \<or> IsDeepSleep d')) \<and>
    (d_dnld d \<longrightarrow> \<not> IsDeepSleep d \<longrightarrow> no_ack irq \<longrightarrow>
       card_writes (d_tx d') = card_writes (d_tx d))"
proof (cases "SurpriseRemoved (d_tx d)")
  case True
  then show ?thesis using assms(1) by (auto simp: main_round_def)
next
  case False
  obtain cont frame x where x: "round_read irq d = Some (cont, frame, x)" "read_ok d x"
    "no_ack irq \<longrightarrow> d_dnld x = d_dnld d"
    using round_read_ok [OF assms(1,2)] by blast
  let ?R = "if HisRegCpy (d_tx x) AND HIS_CmdUpLdRdy \<noteq> 0 then wlan_process_rx_command (his_clear HIS_CmdUpLdRdy x) else Some x"
  have M: "main_round irq out0 out1 out2 out3 delay d =
    (if cont then Some (True, frame, x) else map_option (\<lambda>d. (True, frame, d)) (round_act out0 (main_tail out1 out2 out3 delay) x))"
    using False x(1) by (simp add: main_round_eq)
  have xo: "cmd_ok x" "card_writes (d_tx x) = card_writes (d_tx d)" "IsDeepSleep x = IsDeepSleep d" using x(2) by (simp_all add: read_ok_def)
  show ?thesis
  proof (cases cont)
    case True
    then show ?thesis using M xo by auto
  next
    case nc: False
    have nu: "reply_here irq d \<Longrightarrow> HisRegCpy (d_tx x) AND HIS_CmdUpLdRdy \<noteq> 0 \<Longrightarrow> reply_fits x"
      using x(1) own_reply_fits [of x] by (simp add: reply_here_def)
    have rf: "reply_fits (his_clear HIS_CmdUpLdRdy x) \<or> wlan_process_rx_command (his_clear HIS_CmdUpLdRdy x) \<noteq> None" if "HisRegCpy (d_tx x) AND HIS_CmdUpLdRdy \<noteq> 0"
      using fits nu M nc that by (cases "wlan_process_rx_command (his_clear HIS_CmdUpLdRdy x)") (auto simp: round_act_def)
    obtain y where y: "?R = Some y" "cmd_ok y" "quiet x y"
    proof (cases "HisRegCpy (d_tx x) AND HIS_CmdUpLdRdy = 0")
      case True
      then show ?thesis using that [of x] xo(1) by (simp add: quiet_def)
    next
      case resp: False
      from response_ok [OF _ rf [OF resp]] xo(1) obtain y where "wlan_process_rx_command (his_clear HIS_CmdUpLdRdy x) = Some y" "cmd_ok y" "quiet (his_clear HIS_CmdUpLdRdy x) y" by auto
      then show ?thesis using that [of y] resp by (simp add: quiet_def)
    qed
    define z where "z = (if HisRegCpy (d_tx y) AND HIS_RxUpLdRdy \<noteq> 0 then his_clear HIS_RxUpLdRdy y else y)"
    have z: "cmd_ok z" "quiet x z" using y(2,3) by (simp_all add: z_def quiet_def)
    let ?E = "if HisRegCpy (d_tx z) AND HIS_CardEvent \<noteq> 0 then wlan_process_event out0 (his_clear HIS_CardEvent z) else Some z"
    obtain w where w: "?E = Some w" "cmd_ok w" "one_write z w" "d_dnld z \<longrightarrow> \<not> IsDeepSleep z \<longrightarrow> card_writes (d_tx w) = card_writes (d_tx z) \<and> d_dnld w"
    proof (cases "HisRegCpy (d_tx z) AND HIS_CardEvent = 0")
      case True
      then show ?thesis using that [of z] z(1) by (simp add: one_write_def)
    next
      case ev: False
      from event_ok [OF _ assms(3), of "his_clear HIS_CardEvent z"] z(1)
      obtain w where "wlan_process_event out0 (his_clear HIS_CardEvent z) = Some w" "ev_ok (his_clear HIS_CardEvent z) w" by auto
      then show ?thesis using that [of w] ev by (simp add: ev_ok_def one_write_def)
    qed
    obtain v fs where v: "main_tail out1 out2 out3 delay w = Some v" "cmd_ok v" "d_dnld w \<or> d_ps w = PS_STATE_SLEEP \<longrightarrow> card_writes (d_tx v) = card_writes (d_tx w)"
      "card_writes (d_tx v) = card_writes (d_tx w) @ fs" "length fs \<le> 1 \<or> IsDeepSleep v"
      using main_tail_ok [OF w(2) assms(4), of out2 out3 delay] by blast
    have zw: "card_writes (d_tx z) = card_writes (d_tx d)" "d_dnld x \<longrightarrow> \<not> IsDeepSleep d \<longrightarrow> d_dnld z \<and> \<not> IsDeepSleep z"
      using z(2) xo by (auto simp: quiet_def)
    have E: "main_round irq out0 out1 out2 out3 delay d = Some (True, frame, v)"
      unfolding M round_act_def y(1) Option.bind.simps Let_def z_def [symmetric] w(1) v(1) using nc by simp
    have 1: "\<exists>fs. card_writes (d_tx v) = card_writes (d_tx d) @ fs \<and> (length fs \<le> 1 \<or> IsDeepSleep v)"
    proof (cases "card_writes (d_tx w) = card_writes (d_tx z)")
      case True
      then show ?thesis using v(4,5) zw(1) by auto
    next
      case False
      then obtain f where f: "card_writes (d_tx w) = card_writes (d_tx z) @ [f]" "d_dnld w \<or> d_ps w = PS_STATE_SLEEP" using w(3) by (auto simp: one_write_def)
      then show ?thesis using v(3) zw(1) by auto
    qed
    show ?thesis using E v(2,3) 1 w(4) zw x(3) by auto
  qed
qed

section \<open>Everything that can happen\<close>

definition empty_q :: cmdq where
  "empty_q = \<lparr>CmdArray = [], CmdFreeQ = [], CmdPendingQ = [], CurCmd = None\<rparr>"

lemma alloc_bufs_all: "alloc_bufs ok is q = Some (True, q') \<Longrightarrow> i \<in> set is \<Longrightarrow> ok (Suc i)"
  by (induction ok "is" q rule: alloc_bufs.induct) (auto simp: bind_eq_Some_conv split: if_splits)

lemma alloc_succeeds: "AllocateCmdBuffer ok empty_q = Some (0, q) \<Longrightarrow> q = free_q"
proof -
  assume a: "AllocateCmdBuffer ok empty_q = Some (0, q)"
  then have "ok 0" by (auto simp: AllocateCmdBuffer_def split: if_splits)
  moreover have "ok (Suc i)" if "i < 10" for i
    using a that by (auto simp: AllocateCmdBuffer_def MRVDRV_NUM_OF_CMD_BUFFER_def bind_eq_Some_conv split: if_splits dest: alloc_bufs_all)
  ultimately have "ok i" if "i \<le> 10" for i using that by (cases i) auto
  with alloc_free_q [of empty_q ok] a show "q = free_q" by (simp add: empty_q_def)
qed

text \<open>A device after initialisation: the buffers were allocated, the transmit path is set up, and the sleep confirmation is a command
  without body.\<close>

definition cmd_start :: "cmddev \<Rightarrow> bool" where
  "cmd_start d \<longleftrightarrow> (\<exists>ok. AllocateCmdBuffer ok empty_q = Some (0, d_q d)) \<and> tx_ok (d_tx d) \<and> length (PSConfirmSleep_cmd d) = 18 \<and> d_ps d = PS_STATE_FULL_POWER"

text \<open>What the rest of the driver may change.\<close>

definition outside :: "cmddev \<Rightarrow> cmddev \<Rightarrow> bool" where
  "outside d d' \<longleftrightarrow> d_q d' = d_q d \<and> PSConfirmSleep_cmd d' = PSConfirmSleep_cmd d \<and> d_ps d' = d_ps d \<and> d_dnld d' = d_dnld d \<and> tx_ok (d_tx d')"

text \<open>The steps are whole operations. Not among them are the removal of the card, where \<^verbatim>\<open>wlan_main.c\<close> clears
  \<open>CurCmd\<close> without giving its buffer back (the driver is then unloaded), and the moments inside an operation: the entry is
  taken off the pending queue without the lock in \<open>ExecuteNextCommand\<close>.\<close>

inductive cmd_step :: "cmddev \<Rightarrow> cmddev \<Rightarrow> bool" where
  step_prepare: "body_ok body \<Longrightarrow> PrepareAndSendCommand body cmd_no oid wait d = Some (r, d') \<Longrightarrow> cmd_step d d'"
| step_user: "len \<le> 2048 \<Longrightarrow> (\<And>u. user = Some u \<Longrightarrow> len \<le> length u \<and> user_size u \<le> 2048) \<Longrightarrow> wlan_hostcmd_ioctl mem user len d = Some (r, d') \<Longrightarrow> cmd_step d d'"
| step_woken: "command_wait d = (r, d') \<Longrightarrow> cmd_step d d'"
| step_packet: "6 \<le> length (sk_data skb) \<Longrightarrow> wlan_tx_packet skb (d_tx d) = (r, t) \<Longrightarrow> cmd_step d (d\<lparr>d_tx := t\<rparr>)"
| step_interrupt: "cmd_step d (wlan_interrupt d)"
| step_timeout: "cmd_step d (MrvDrvCommandTimerFunction d)"
| step_disconnect: "MacEventDisconnected d = Some d' \<Longrightarrow> cmd_step d d'"
| step_round: "irq_ok irq \<Longrightarrow> \<forall>i. out0 i \<le> 0 \<Longrightarrow> \<forall>i. out1 i \<le> 0 \<Longrightarrow> main_round irq out0 out1 out2 out3 delay d = Some (go, frame, d') \<Longrightarrow> cmd_step d d'"
| step_outside: "outside d d' \<Longrightarrow> cmd_step d d'"

lemma interrupt_ok: "cmd_ok d \<Longrightarrow> cmd_ok (wlan_interrupt d)"
proof -
  assume ok: "cmd_ok d"
  let ?d = "d\<lparr>IntCounter := IntCounter d + 1, WakeupTries := 0\<rparr>"
  have "cmd_ok ?d" using cmd_ok_other [OF ok, of ?d] by simp
  then show ?thesis using cmd_ok_awake [of ?d PS_STATE_AWAKE] by (simp add: wlan_interrupt_def Let_def)
qed

lemma timeout_ok: "cmd_ok d \<Longrightarrow> cmd_ok (MrvDrvCommandTimerFunction d)"
  by (erule cmd_ok_other) (simp_all add: MrvDrvCommandTimerFunction_def Let_def split: option.split)

lemma packet_ok:
  assumes "cmd_ok d" "6 \<le> length (sk_data skb)" "wlan_tx_packet skb (d_tx d) = (r, t)"
  shows "cmd_ok (d\<lparr>d_tx := t\<rparr>)" "PSState (t_wlan t) = d_ps d"
proof -
  have t: "t = t_upd (wmm_map_and_add_skb skb) (d_tx d)" using assms(3) by (simp add: wlan_tx_packet_def)
  have "tx_ok t" using add_packet_ok [of "d_tx d" skb] assms by (simp add: cmd_ok_def)
  then show "cmd_ok (d\<lparr>d_tx := t\<rparr>)" "PSState (t_wlan t) = d_ps d" using assms(1) by (simp_all add: cmd_ok_def t add_keeps)
qed

lemma cmd_step_ok: "cmd_step d d' \<Longrightarrow> cmd_ok d \<Longrightarrow> cmd_ok d'"
proof (induction rule: cmd_step.induct)
  case (step_prepare body cmd_no oid wait d r d')
  then show ?case using prepare_ok [of d body cmd_no oid wait] by auto
next
  case (step_user len user mem d r d')
  then show ?case using hostcmd_ok [of d len user mem] by auto
next
  case (step_woken d r d')
  then show ?case using cmd_ok_other [of d "d\<lparr>CurCmdRetCode := 0\<rparr>"] by (auto simp: command_wait_def split: if_splits)
next
  case (step_packet skb d r t)
  then show ?case using packet_ok(1) by blast
next
  case (step_disconnect d d')
  then show ?case using disconnect_ok [of d] by auto
next
  case (step_round irq out0 out1 out2 out3 delay d go frame d')
  then show ?case using round_spec [OF _ _ tx_ret_le tx_ret_le, of d irq out0 out1 out2 out3 delay] by auto
next
  case (step_outside d d')
  then show ?case by (simp add: outside_def cmd_ok_def)
qed (simp_all add: interrupt_ok timeout_ok)

lemma start_ok: "cmd_start d \<Longrightarrow> cmd_ok d"
  using free_q_ok by (auto simp: cmd_start_def cmd_ok_def dest: alloc_succeeds)

interpretation cmd_path: kept cmd_step cmd_ok
  by unfold_locales (rule cmd_step_ok)

lemma reach_ok: "cmd_step\<^sup>*\<^sup>* d d' \<Longrightarrow> cmd_start d \<Longrightarrow> cmd_ok d'"
  using cmd_path.reach_keeps start_ok by blast

section \<open>Properties\<close>

definition sample_cmddev :: cmddev where
  "sample_cmddev = \<lparr>d_q = free_q, d_tx = sample_txdev, SeqNum = 0, CurCmdRetCode = 0, CommandTimerIsSet = False, num_cmd_timeout = 0,
     IntCounter = 0, IntCounterSaved = 0, PSMode_CAM = False, NeedToWakeup = False, NullPktInterval = 0, MultipleDtim = 1, BCNMissTimeOut = 0,
     LocalListenInterval = 0, AdhocAwakePeriod = 0, PSConfirmSleep_cmd = replicate 18 0, IBSS = False, cur_ATIMWindow = 0, WPA = False, IsGTK_SET = False,
     IsDeepSleep = False, IsAutoDeepSleepEnabled = False, bWakeupDevRequired = False, WakeupTries = 0, bHostSleepConfigured = False, HSCfg_gap = 0,
     HS_Activated = False, EventCause = 0, host_replies = []\<rparr>"

lemma sample_tx_idle: "PSState (t_wlan sample_txdev) = PS_STATE_FULL_POWER" "dnld_sent (t_wlan sample_txdev) = False"
  by (simp_all add: sample_txdev_def setup_keeps wmm_init_def)

lemma sample_start: "cmd_start sample_cmddev"
proof -
  have "AllocateCmdBuffer (\<lambda>_. True) empty_q = Some (0, free_q)" by (rule alloc_free_q) (simp_all add: empty_q_def)
  then show ?thesis using sample_txdev_ok sample_tx_idle by (auto simp: cmd_start_def sample_cmddev_def)
qed

lemma sample_prepare:
  "\<exists>d. PrepareAndSendCommand (prep_header HostCmd_CMD_802_11_RSSI) HostCmd_CMD_802_11_RSSI 0 0 sample_cmddev = Some (0, d) \<and> CmdPendingQ (d_q d) = [0]"
proof -
  let ?c = "zero_cmd\<lparr>c_Command := HostCmd_CMD_802_11_RSSI, c_Result := 0, c_Size := 8\<rparr>"
  have f: "fresh_cmd (prep_header HostCmd_CMD_802_11_RSSI) HostCmd_CMD_802_11_RSSI sample_cmddev = (0, ?c)" by (simp add: fresh_cmd_def prep_header_def)
  have "\<not> goes_first ps ?c" for ps by (simp add: goes_first_def cmd_nos)
  with prepare_pending [OF start_ok [OF sample_start] header_body f, of 0 "[1..<10]" 0 0] show ?thesis
    by (auto simp: sample_cmddev_def free_q_def sample_txdev_def upt_conv_Cons)
qed

text \<open>C4. No command buffer is ever lost or queued twice: after initialisation, whatever callers, users, interrupts, packets,
  timeouts, disconnections and rounds of the main thread do and in whatever order, each of the ten buffers is in
  exactly one place, the free queue, the pending queue or at the firmware; and while the firmware sleeps no
  command is outstanding and no transfer is unacknowledged.\<close>

theorem cmd_nodes_conserved:
  assumes "cmd_start d0" "cmd_step\<^sup>*\<^sup>* d0 d"
  shows "mset (CmdFreeQ (d_q d)) + mset (CmdPendingQ (d_q d)) + cur_nodes (d_q d) = mset [0..<10] \<and>
    (d_ps d = PS_STATE_SLEEP \<longrightarrow> CurCmd (d_q d) = None \<and> \<not> d_dnld d)"
  using reach_ok [OF assms(2,1)] by (simp add: cmd_ok_def q_held_def)

theorem cmd_nodes_conserved_witness:
  "\<exists>d. cmd_step sample_cmddev d \<and> CmdPendingQ (d_q d) = [0] \<and> mset (CmdFreeQ (d_q d)) + mset (CmdPendingQ (d_q d)) + cur_nodes (d_q d) = mset [0..<10]"
proof -
  obtain d where d: "PrepareAndSendCommand (prep_header HostCmd_CMD_802_11_RSSI) HostCmd_CMD_802_11_RSSI 0 0 sample_cmddev = Some (0, d)" "CmdPendingQ (d_q d) = [0]"
    using sample_prepare by blast
  have s: "cmd_step sample_cmddev d" using step_prepare [OF header_body d(1)] .
  show ?thesis using s d(2) cmd_nodes_conserved [OF sample_start r_into_rtranclp [of cmd_step, OF s]] by blast
qed

text \<open>A reply to a command of a user is copied with the length that the firmware gives, which is not compared with the
  size of the buffer.\<close>

theorem user_reply_overrun:
  assumes "cmd_ok d" "CurCmd (d_q d) = Some i" "loaded d i c" "CmdFlags (CmdArray (d_q d) ! i) AND CMD_F_HOSTCMD \<noteq> 0"
    "c_Command c AND 0x8000 \<noteq> 0" "c_Command c \<noteq> 0x8021" "2048 < unat (c_Size c)"
  shows "wlan_process_rx_command d = None"
proof -
  have q: "q_ok (d_q d)" using assms(1) by (simp add: cmd_ok_def)
  have i: "i < 10" using held_less(4) [OF q assms(2)] .
  have l: "length (cmd_bytes c) = 2048" using held_node [OF q i] assms(3) by (auto simp: node_ok_def loaded_def length_cmd_bytes)
  then have "mem_sub (cmd_bytes c) 0 (unat (c_Size c)) = None" using assms(7) by (simp add: mem_sub_def)
  then show ?thesis using assms(2-6) held_node [OF q i] by (simp add: wlan_process_rx_command_def Let_def loaded_def)
qed




section \<open>Starvation in power save\<close>

text \<open>An ordinary command waits at the head of the queue and there is no free node for the command that would wake up the firmware.\<close>

definition ordinary :: "HostCmd \<Rightarrow> bool" where
  "ordinary c \<longleftrightarrow> \<not> Is_Command_Allowed_In_PS (c_Command c) \<and> c_Command c \<noteq> HostCmd_CMD_802_11_PS_MODE"

definition starved :: "cmddev \<Rightarrow> bool" where
  "starved d \<longleftrightarrow> cmd_ok d \<and> CmdFreeQ (d_q d) = [] \<and> CurCmd (d_q d) = None \<and> d_ps d \<noteq> PS_STATE_FULL_POWER \<and>
     (\<exists>i r c. CmdPendingQ (d_q d) = i # r \<and> loaded d i c \<and> ordinary c)"

lemma starved_keeps: "starved d \<Longrightarrow> cmd_ok d' \<Longrightarrow> keeps d d' \<Longrightarrow> starved d'"
  by (auto simp: starved_def keeps_def loaded_def)

lemma keeps_refl [simp]: "keeps d d"
  by (simp add: keeps_def)

lemma keeps_trans: "keeps a b \<Longrightarrow> keeps b c \<Longrightarrow> keeps a c"
  by (simp add: keeps_def)

lemma keeps_same: "d_q d' = d_q d \<Longrightarrow> d_ps d' = d_ps d \<Longrightarrow> keeps d d'"
  by (simp add: keeps_def)

lemma execute_starved:
  assumes "starved d"
  shows "\<exists>d'. ExecuteNextCommand out d = Some (0, d') \<and> keeps d d' \<and> card_writes (d_tx d') = card_writes (d_tx d)"
proof -
  obtain i r c where p: "CmdPendingQ (d_q d) = i # r" "loaded d i c" "ordinary c" using assms by (auto simp: starved_def)
  have ok: "cmd_ok d" "q_ok (d_q d)" using assms by (simp_all add: starved_def cmd_ok_def)
  have g: "mem_get (CmdArray (d_q d)) i = Some (CmdArray (d_q d) ! i)" using pending_loaded [OF ok(2) p(1)] by blast
  show ?thesis
    using assms p g wakeup_starved [OF ok(1), of 0] by (auto simp: ExecuteNextCommand_def exec_pending_def starved_def ordinary_def loaded_def Let_def keeps_def)
qed

lemma tail_starved:
  assumes "starved d" "tx_ret out1 \<le> 0" "main_tail out1 out2 out3 delay d = Some d'"
  shows "keeps d d'"
proof -
  have ok: "cmd_ok d" using assms(1) by (simp add: starved_def)
  let ?A = "if d_ps d = PS_STATE_PRE_SLEEP \<and> \<not> d_dnld d \<and> CurCmd (d_q d) = None then PSConfirmSleep out1 d else Some d"
  obtain y where y: "PSConfirmSleep out1 d = Some y" "cmd_ok y" "d_q y = d_q d" "d_ps y = d_ps d \<or> d_ps y = PS_STATE_SLEEP" using ps_confirm_ok [OF ok, of out1] by blast
  have "?A = Some y \<or> ?A = Some d" using y(1) by simp
  then obtain x where x: "?A = Some x" "cmd_ok x" "keeps d x" using y ok by (auto simp: keeps_def)
  have sx: "starved x" using starved_keeps [OF assms(1) x(2,3)] .
  obtain z where z: "ExecuteNextCommand out2 x = Some (0, z)" "keeps x z" using execute_starved [OF sx] by blast
  have T: "keeps x d'" if "main_tx out3 delay (d_tx v) \<bind> (\<lambda>t. Some (v\<lparr>d_tx := t\<rparr>)) = Some d'" "keeps x v" for v
    using that main_tx_SomeD(1) by (fastforce simp: bind_eq_Some_conv keeps_def)
  have "keeps x d'"
    using assms(3) z T [of z] T [of x] unfolding main_tail_def x(1) Option.bind.simps by (auto split: if_splits)
  then show ?thesis using keeps_trans [OF x(3)] by blast
qed

lemma response_idle: "CurCmd (d_q d) = None \<Longrightarrow> wlan_process_rx_command d = Some (d\<lparr>CommandTimerIsSet := False\<rparr>)"
  by (simp add: wlan_process_rx_command_def)

lemma round_starved:
  assumes "starved d" "irq_ok irq" "tx_ret out0 \<le> 0" "tx_ret out1 \<le> 0" "main_round irq out0 out1 out2 out3 delay d = Some (go, frame, d')"
  shows "keeps d d'"
proof (cases "SurpriseRemoved (d_tx d)")
  case True
  then show ?thesis using assms(5) by (simp add: main_round_def)
next
  case False
  have ok: "cmd_ok d" "CurCmd (d_q d) = None" using assms(1) by (simp_all add: starved_def)
  obtain cont frame' x where x: "round_read irq d = Some (cont, frame', x)" "read_ok d x" using round_read_ok [OF ok(1) assms(2)] by blast
  have kx: "keeps d x" "cmd_ok x" using x(2) ok(2) by (simp_all add: read_ok_def keeps_def)
  have sx: "starved x" using starved_keeps [OF assms(1) kx(2,1)] .
  let ?R = "if HisRegCpy (d_tx x) AND HIS_CmdUpLdRdy \<noteq> 0 then wlan_process_rx_command (his_clear HIS_CmdUpLdRdy x) else Some x"
  define y where "y = (if HisRegCpy (d_tx x) AND HIS_CmdUpLdRdy \<noteq> 0 then (his_clear HIS_CmdUpLdRdy x)\<lparr>CommandTimerIsSet := False\<rparr> else x)"
  have y: "?R = Some y" using sx response_idle [of "his_clear HIS_CmdUpLdRdy x"] by (simp add: y_def starved_def)
  define z where "z = (if HisRegCpy (d_tx y) AND HIS_RxUpLdRdy \<noteq> 0 then his_clear HIS_RxUpLdRdy y else y)"
  have yo: "cmd_ok y" using cmd_ok_other [of "his_clear HIS_CmdUpLdRdy x" "(his_clear HIS_CmdUpLdRdy x)\<lparr>CommandTimerIsSet := False\<rparr>"] kx(2) by (simp add: y_def)
  have "keeps x y" by (simp add: y_def keeps_def)
  then have kz: "keeps x z" "cmd_ok z" using yo by (simp_all add: z_def keeps_def)
  have sz: "starved z" using starved_keeps [OF sx kz(2,1)] .
  let ?E = "if HisRegCpy (d_tx z) AND HIS_CardEvent \<noteq> 0 then wlan_process_event out0 (his_clear HIS_CardEvent z) else Some z"
  obtain w where w: "?E = Some w" "cmd_ok w" "keeps z w"
  proof (cases "HisRegCpy (d_tx z) AND HIS_CardEvent = 0")
    case True
    then show ?thesis using that [of z] kz(2) by simp
  next
    case ev: False
    from event_ok [OF _ assms(3), of "his_clear HIS_CardEvent z"] kz(2)
    obtain w where "wlan_process_event out0 (his_clear HIS_CardEvent z) = Some w" "ev_ok (his_clear HIS_CardEvent z) w" by auto
    then show ?thesis using that [of w] ev sz by (simp add: ev_ok_def keeps_def starved_def)
  qed
  have sw: "starved w" using starved_keeps [OF sz w(2,3)] .
  have A: "round_act out0 (main_tail out1 out2 out3 delay) x = main_tail out1 out2 out3 delay w"
    unfolding round_act_def y Option.bind.simps Let_def z_def [symmetric] w(1) by (rule refl)
  have M: "main_round irq out0 out1 out2 out3 delay d =
    (if cont then Some (True, frame', x) else map_option (\<lambda>d. (True, frame', d)) (main_tail out1 out2 out3 delay w))"
    using False x(1) A by (simp add: main_round_eq)
  show ?thesis
  proof (cases cont)
    case True
    then show ?thesis using M assms(5) kx(1) by simp
  next
    case nc: False
    then have "main_tail out1 out2 out3 delay w = Some d'" using M assms(5) by (cases "main_tail out1 out2 out3 delay w") auto
    then show ?thesis using tail_starved [OF sw assms(4)] keeps_trans kx(1) kz(1) w(3) by blast
  qed
qed

lemma step_starved: "cmd_step d d' \<Longrightarrow> starved d \<Longrightarrow> starved d' \<and> d_q d' = d_q d"
proof -
  assume s: "cmd_step d d'" "starved d"
  have ok: "cmd_ok d" "CmdFreeQ (d_q d) = []" "CurCmd (d_q d) = None" using s(2) by (simp_all add: starved_def)
  have "keeps d d'"
    using s(1)
  proof cases
    case (step_prepare body cmd_no oid wait r)
    then show ?thesis using prepare_starved [OF ok(1,2)] by simp
  next
    case (step_user len user mem r)
    then show ?thesis using hostcmd_ok [OF ok(1), of len user mem] ok(2) by auto
  next
    case (step_woken r)
    then show ?thesis by (auto simp: command_wait_def keeps_def split: if_splits)
  next
    case (step_packet skb r t)
    then show ?thesis using packet_ok(2) [OF ok(1)] by (auto simp: keeps_def)
  next
    case step_interrupt
    then show ?thesis by (simp add: wlan_interrupt_def keeps_def Let_def)
  next
    case step_timeout
    then show ?thesis using ok(3) by (simp add: MrvDrvCommandTimerFunction_def keeps_def Let_def)
  next
    case step_disconnect
    then show ?thesis using disconnect_ok [OF ok(1)] ok(2) by (auto simp: keeps_def)
  next
    case (step_round irq out0 out1 out2 out3 delay go frame)
    then show ?thesis using round_starved [OF s(2)] tx_ret_le by blast
  next
    case step_outside
    then show ?thesis by (simp add: outside_def keeps_def)
  qed
  then show ?thesis using starved_keeps [OF s(2) cmd_step_ok [OF s(1) ok(1)]] by (simp add: keeps_def)
qed

interpretation starvation: kept cmd_step "\<lambda>d. starved d \<and> d_q d = q" for q
  by unfold_locales (auto dest: step_starved)

lemma reach_starved: "cmd_step\<^sup>*\<^sup>* d d' \<Longrightarrow> starved d \<Longrightarrow> starved d' \<and> d_q d' = d_q d"
  using starvation.reach_keeps [of d d' "d_q d"] by blast

text \<open>The main thread does not even sleep then: it tries again and again.\<close>

lemma starved_spins: "starved d \<Longrightarrow> d_ps d = PS_STATE_AWAKE \<Longrightarrow> \<not> d_dnld d \<Longrightarrow> WakeupTries d = 0 \<Longrightarrow> \<not> main_waits d"
  by (auto simp: starved_def main_waits_def)

text \<open>Ordinary commands fill the queue.\<close>

lemma fill_queue:
  assumes "cmd_ok d" "body_ok body" "\<And>d. fresh_cmd body cmd_no d = (0, c)" "\<And>ps. \<not> goes_first ps c" "\<not> SurpriseRemoved (d_tx d)"
  shows "\<exists>d'. cmd_step\<^sup>*\<^sup>* d d' \<and> cmd_ok d' \<and> d' = d\<lparr>d_q := d_q d'\<rparr> \<and> CmdFreeQ (d_q d') = [] \<and> CmdPendingQ (d_q d') = CmdPendingQ (d_q d) @ CmdFreeQ (d_q d) \<and>
    CurCmd (d_q d') = CurCmd (d_q d) \<and> (\<forall>i \<in> set (CmdFreeQ (d_q d)). loaded d' i c) \<and> (\<forall>i. i \<notin> set (CmdFreeQ (d_q d)) \<longrightarrow> CmdArray (d_q d') ! i = CmdArray (d_q d) ! i)"
  using assms(1,5)
proof (induction "CmdFreeQ (d_q d)" arbitrary: d)
  case Nil
  then show ?case by (intro exI [of _ d]) auto
next
  case (Cons i f)
  obtain x where x: "PrepareAndSendCommand body cmd_no 0 0 d = Some (0, x)" "x = d\<lparr>d_q := d_q x\<rparr>" "cmd_ok x" "CmdFreeQ (d_q x) = f" "CurCmd (d_q x) = CurCmd (d_q d)"
    "CmdArray (d_q x) = (CmdArray (d_q d))[i := prepared_node 0 0 c (CmdArray (d_q d) ! i)]" "loaded x i c" "CmdPendingQ (d_q x) = CmdPendingQ (d_q d) @ [i]"
    using prepare_pending [OF Cons(3) assms(2) assms(3) Cons(2) [symmetric] Cons(4), of 0 0] assms(4) by auto
  have "d_tx x = d_tx d" using keep_tx(1) [OF x(2)] .
  with Cons(1) [of x] x(3,4) Cons(4) obtain d' where d': "cmd_step\<^sup>*\<^sup>* x d'" "cmd_ok d'" "d' = x\<lparr>d_q := d_q d'\<rparr>" "CmdFreeQ (d_q d') = []" "CmdPendingQ (d_q d') = CmdPendingQ (d_q x) @ f"
    "CurCmd (d_q d') = CurCmd (d_q x)" "\<forall>i \<in> set f. loaded d' i c" "\<forall>i. i \<notin> set f \<longrightarrow> CmdArray (d_q d') ! i = CmdArray (d_q x) ! i" by auto
  have n: "i \<notin> set f"
    using Cons(2) [symmetric] Cons(3) held_apart(2) [of "{#i#}" "(d_q d)\<lparr>CmdFreeQ := f\<rparr>" i] by (auto simp: cmd_ok_def q_held_def cur_nodes_def)
  have e: "d' = d\<lparr>d_q := d_q x\<rparr>\<lparr>d_q := d_q d'\<rparr>" using d'(3) x(2) by metis
  have "d' = d\<lparr>d_q := d_q d'\<rparr>" by (rule e [simplified])
  moreover have "cmd_step\<^sup>*\<^sup>* d d'" using step_prepare [OF assms(2) x(1)] d'(1) by (rule converse_rtranclp_into_rtranclp)
  moreover have "loaded d' j c" if "j \<in> set (i # f)" for j using that d'(7,8) x(7) n by (auto simp: loaded_def)
  moreover have "CmdArray (d_q d') ! j = CmdArray (d_q d) ! j" if "j \<notin> set (i # f)" for j using that d'(8) x(6) by simp
  ultimately show ?case using d'(2,4-6) x(5,8) Cons(2) [symmetric] by auto
qed

text \<open>C14. The command queue can starve. In power save, when no command is outstanding, as many commands as there are buffers can be queued
  before the main thread gets to them, for example while the firmware sleeps; then there is no buffer for the command that
  would leave power save, and from that moment on, whatever happens, no command is ever sent again, every
  attempt to queue one fails, and the waiting callers are never woken.\<close>

theorem cmd_starved:
  assumes "cmd_ok d" "d_ps d \<noteq> PS_STATE_FULL_POWER" "CurCmd (d_q d) = None" "CmdPendingQ (d_q d) = []" "\<not> SurpriseRemoved (d_tx d)"
    and "body_ok body" "\<forall>d. fresh_cmd body cmd_no d = (0, c)" "ordinary c" "\<forall>ps. \<not> goes_first ps c"
  shows "\<exists>d1. cmd_step\<^sup>*\<^sup>* d d1 \<and> d_ps d1 = d_ps d \<and> length (CmdPendingQ (d_q d1)) = 10 \<and>
    (\<forall>d2. cmd_step\<^sup>*\<^sup>* d1 d2 \<longrightarrow> d_q d2 = d_q d1 \<and> d_ps d2 \<noteq> PS_STATE_FULL_POWER \<and>
       (\<forall>body cmd_no oid wait. PrepareAndSendCommand body cmd_no oid wait d2 = Some (- 1, d2)) \<and>
       (\<forall>out. \<exists>d3. ExecuteNextCommand out d2 = Some (0, d3) \<and> card_writes (d_tx d3) = card_writes (d_tx d2)))"
proof -
  have f: "mset (CmdFreeQ (d_q d)) = mset [0..<10]" using assms(1,3,4) by (simp add: cmd_ok_def q_held_def cur_nodes_def)
  have l: "length (CmdFreeQ (d_q d)) = 10" using arg_cong [OF f, of size] by simp
  then obtain i r where ir: "CmdFreeQ (d_q d) = i # r" by (cases "CmdFreeQ (d_q d)") auto
  obtain d1 where d1: "cmd_step\<^sup>*\<^sup>* d d1" "cmd_ok d1" "d1 = d\<lparr>d_q := d_q d1\<rparr>" "CmdFreeQ (d_q d1) = []" "CmdPendingQ (d_q d1) = CmdFreeQ (d_q d)"
    "CurCmd (d_q d1) = None" "\<forall>i \<in> set (CmdFreeQ (d_q d)). loaded d1 i c"
    using fill_queue [OF assms(1,6), of cmd_no c] assms(3-5,7,9) by auto
  have ps: "d_ps d1 = d_ps d" using keep_tx(1) [OF d1(3)] by simp
  have st: "starved d1" using d1(2,4-7) ps assms(2,8) ir by (auto simp: starved_def)
  have "d_q d2 = d_q d1 \<and> d_ps d2 \<noteq> PS_STATE_FULL_POWER \<and>
       (\<forall>body cmd_no oid wait. PrepareAndSendCommand body cmd_no oid wait d2 = Some (- 1, d2)) \<and>
       (\<forall>out. \<exists>d3. ExecuteNextCommand out d2 = Some (0, d3) \<and> card_writes (d_tx d3) = card_writes (d_tx d2))" if "cmd_step\<^sup>*\<^sup>* d1 d2" for d2
  proof -
    have s: "starved d2" "d_q d2 = d_q d1" using reach_starved [OF that st] by blast+
    have e: "\<exists>d3. ExecuteNextCommand out d2 = Some (0, d3) \<and> card_writes (d_tx d3) = card_writes (d_tx d2)" for out using execute_starved [OF s(1)] by blast
    show ?thesis using s prepare_starved [of d2] e by (simp add: starved_def)
  qed
  moreover have "length (CmdPendingQ (d_q d1)) = 10" using d1(5) l by simp
  ultimately show ?thesis using d1(1) ps by blast
qed

lemma sample_awake: "cmd_ok (set_ps PS_STATE_AWAKE sample_cmddev)"
  using cmd_ok_awake [OF start_ok [OF sample_start]] by simp

lemma sample_q: "d_q sample_cmddev = free_q" "d_tx sample_cmddev = sample_txdev"
  by (simp_all add: sample_cmddev_def)

abbreviation status_cmd :: HostCmd where
  "status_cmd \<equiv> zero_cmd\<lparr>c_Command := HostCmd_CMD_WMM_GET_STATUS, c_Result := 0, c_Size := 92\<rparr>"

lemma status_fresh: "fresh_cmd wlan_cmd_wmm_get_status HostCmd_CMD_WMM_GET_STATUS d = (0, status_cmd)"
  by (simp add: fresh_cmd_def wlan_cmd_wmm_get_status_def)

lemma status_ordinary: "ordinary status_cmd" "\<not> goes_first ps status_cmd"
  by (simp_all add: ordinary_def goes_first_def Is_Command_Allowed_In_PS_def Commands_Allowed_In_PS_def cmd_nos HostCmd_CMD_WMM_GET_STATUS_def)

theorem cmd_starved_witness:
  "\<exists>d1. cmd_step\<^sup>*\<^sup>* (set_ps PS_STATE_AWAKE sample_cmddev) d1 \<and> d_ps d1 = PS_STATE_AWAKE \<and> length (CmdPendingQ (d_q d1)) = 10 \<and>
    (\<forall>d2. cmd_step\<^sup>*\<^sup>* d1 d2 \<longrightarrow> d_q d2 = d_q d1)"
proof -
  have "\<exists>d1. cmd_step\<^sup>*\<^sup>* (set_ps PS_STATE_AWAKE sample_cmddev) d1 \<and> d_ps d1 = d_ps (set_ps PS_STATE_AWAKE sample_cmddev) \<and> length (CmdPendingQ (d_q d1)) = 10 \<and>
    (\<forall>d2. cmd_step\<^sup>*\<^sup>* d1 d2 \<longrightarrow> d_q d2 = d_q d1 \<and> d_ps d2 \<noteq> PS_STATE_FULL_POWER \<and>
       (\<forall>body cmd_no oid wait. PrepareAndSendCommand body cmd_no oid wait d2 = Some (- 1, d2)) \<and>
       (\<forall>out. \<exists>d3. ExecuteNextCommand out d2 = Some (0, d3) \<and> card_writes (d_tx d3) = card_writes (d_tx d2)))"
    by (rule cmd_starved [OF sample_awake _ _ _ _ event_bodies(2), of HostCmd_CMD_WMM_GET_STATUS status_cmd])
      (simp_all add: sample_q free_q_def status_fresh status_ordinary, simp add: sample_txdev_def)
  then show ?thesis by auto
qed

section \<open>A command in power save\<close>

text \<open>The head of the queue is sent.\<close>

definition sends_now :: "cmddev \<Rightarrow> HostCmd \<Rightarrow> bool" where
  "sends_now d c \<longleftrightarrow> d_ps d = PS_STATE_FULL_POWER \<or>
     d_ps d = PS_STATE_AWAKE \<and> c_Command c = HostCmd_CMD_802_11_PS_MODE \<and> psm_Action c = HostCmd_SubCmd_Exit_PS"

lemma execute_sends:
  assumes "cmd_ok d" "CurCmd (d_q d) = None" "CmdPendingQ (d_q d) = i # r" "loaded d i c" "sends_now d c"
    and "tx_ret out = 0" "c_Size c \<noteq> 0" "c_Command c \<noteq> HostCmd_CMD_802_11_DEEP_SLEEP"
  shows "\<exists>d'. ExecuteNextCommand out d = Some (0, d') \<and> cmd_ok d' \<and> d_ps d' = d_ps d \<and> CurCmd (d_q d') = Some i \<and> CmdPendingQ (d_q d') = r \<and>
    CurCmdRetCode d' = 0 \<and> (\<forall>j. j \<noteq> i \<longrightarrow> CmdArray (d_q d') ! j = CmdArray (d_q d) ! j) \<and>
    (\<exists>frame. card_writes (d_tx d') = card_writes (d_tx d) @ [frame] \<and> sent_frame (take (unat (c_Size c)) (cmd_bytes (c\<lparr>c_SeqNum := SeqNum d + 1\<rparr>))) frame)"
proof -
  have q: "q_ok (d_q d)" using assms(1) by (simp add: cmd_ok_def)
  obtain c' where c': "loaded d i c'" "unat (c_Size c') \<le> 2048" "mem_get (CmdArray (d_q d)) i = Some (CmdArray (d_q d) ! i)" using pending_loaded [OF q assms(3)] by blast
  have sz: "unat (c_Size c) \<le> 2048" using c'(1,2) assms(4) by (simp add: loaded_def)
  have ns: "d_ps d \<noteq> PS_STATE_SLEEP" "\<not> asleep (d_ps d)" using assms(5) by (auto simp: sends_now_def asleep_def)
  obtain ret d' where d': "DownloadCommandToStation out i (del_pending i d) = Some (ret, d')" "cmd_ok d'" "d_ps d' = d_ps d" "CurCmd (d_q d') = Some i"
    "CmdPendingQ (d_q d') = r" "CurCmdRetCode d' = 0" "\<forall>j. j \<noteq> i \<longrightarrow> CmdArray (d_q d') ! j = CmdArray (d_q d) ! j"
    "\<exists>frame. card_writes (d_tx d') = card_writes (d_tx d) @ [frame] \<and> sent_frame (take (unat (c_Size c)) (cmd_bytes (c\<lparr>c_SeqNum := SeqNum d + 1\<rparr>))) frame"
    using send_pending [OF assms(1-4) sz ns(1), of out] assms(6-8) by blast
  have "ExecuteNextCommand out d = Some (0, d')"
    using assms(2-5) c'(3) d'(1) ns(2) by (auto simp: ExecuteNextCommand_def exec_pending_def loaded_def sends_now_def Let_def cmd_nos)
  then show ?thesis using d' by blast
qed

text \<open>The command that leaves power save.\<close>

definition exit_cmd :: HostCmd where
  "exit_cmd = snd (wlan_cmd_802_11_ps_mode HostCmd_SubCmd_Exit_PS undefined (zero_cmd\<lparr>c_Command := HostCmd_CMD_802_11_PS_MODE, c_Result := 0\<rparr>))"

lemma exit_fresh: "fresh_cmd (wlan_cmd_802_11_ps_mode HostCmd_SubCmd_Exit_PS) HostCmd_CMD_802_11_PS_MODE d = (0, exit_cmd)"
  by (simp add: fresh_cmd_def exit_cmd_def wlan_cmd_802_11_ps_mode_def Let_def cmd_nos)

lemma exit_fields: "c_Command exit_cmd = HostCmd_CMD_802_11_PS_MODE" "c_Size exit_cmd = 20" "psm_Action exit_cmd = HostCmd_SubCmd_Exit_PS"
  by (simp_all add: exit_cmd_def wlan_cmd_802_11_ps_mode_def Let_def psm_Action_def le16_of_def cmd_nos le16_to_def)

lemma wakeup_queues:
  assumes "cmd_ok d" "d_ps d \<noteq> PS_STATE_FULL_POWER" "CmdFreeQ (d_q d) = f # fs" "\<not> SurpriseRemoved (d_tx d)"
  shows "\<exists>d'. PSWakeup 0 d = Some d' \<and> d' = d\<lparr>d_q := d_q d'\<rparr> \<and> cmd_ok d' \<and> CurCmd (d_q d') = CurCmd (d_q d) \<and> loaded d' f exit_cmd \<and> CmdPendingQ (d_q d') = f # CmdPendingQ (d_q d) \<and>
    (\<forall>j. j \<noteq> f \<longrightarrow> CmdArray (d_q d') ! j = CmdArray (d_q d) ! j)"
proof -
  have g: "goes_first (d_ps d) exit_cmd" using assms(2) by (simp add: goes_first_def exit_fields)
  from prepare_pending [OF assms(1) ps_mode_body exit_fresh assms(3,4), of 0 0] g show ?thesis by (auto simp: PSWakeup_def)
qed

text \<open>The response of the firmware to it.\<close>

definition exit_reply :: "u8 list \<Rightarrow> bool" where
  "exit_reply b \<longleftrightarrow> 10 \<le> length b \<and> length b \<le> 2048 \<and> take 2 b = le16_of 0x8021 \<and> take 4 (drop 6 b) = le16_of 0 @ le16_of HostCmd_SubCmd_Exit_PS"

lemma exit_reply_cmd:
  assumes "exit_reply b" "mem_copy (cmd_bytes c) 0 b = Some b'"
  shows "c_Command (cmd_of_bytes b') = 0x8021" "c_Result (cmd_of_bytes b') = 0" "psm_Action (cmd_of_bytes b') = HostCmd_SubCmd_Exit_PS"
proof -
  have l: "10 \<le> length b" and b': "b' = b @ drop (length b) (cmd_bytes c)" using assms by (auto simp: exit_reply_def mem_copy_def split: if_splits)
  have t: "take 2 b = [0x21, 0x80]" "take 4 (drop 6 b) = [0, 0, 0x31, 0]" using assms(1) by (simp_all add: exit_reply_def le16_of_def cmd_nos)
  have n: "b ! 0 = 0x21" "b ! 1 = 0x80" using arg_cong [OF t(1), of "\<lambda>x. x ! 0"] arg_cong [OF t(1), of "\<lambda>x. x ! 1"] l by simp_all
  have m: "b ! 6 = 0" "b ! 7 = 0" "b ! 8 = 0x31" "b ! 9 = 0"
    using arg_cong [OF t(2), of "\<lambda>x. x ! 0"] arg_cong [OF t(2), of "\<lambda>x. x ! 1"] arg_cong [OF t(2), of "\<lambda>x. x ! 2"] arg_cong [OF t(2), of "\<lambda>x. x ! 3"] l by simp_all
  show "c_Command (cmd_of_bytes b') = 0x8021" "c_Result (cmd_of_bytes b') = 0" "psm_Action (cmd_of_bytes b') = HostCmd_SubCmd_Exit_PS"
    using n m l by (auto simp: cmd_of_bytes_def b' nth_append psm_Action_def le16_to_def cmd_nos)
qed

lemma upload_eval:
  assumes "cmd_ok d" "CurCmd (d_q d) = Some i" "length b \<le> 2048"
  shows "\<exists>c b'. loaded d i c \<and> mem_copy (cmd_bytes c) 0 b = Some b' \<and> length b' = 2048 \<and>
    upload_cmd b d = Some (d\<lparr>d_q := (d_q d)\<lparr>CmdArray := (CmdArray (d_q d))[i := (CmdArray (d_q d) ! i)\<lparr>BufVirtualAddr := Some (cmd_of_bytes b')\<rparr>]\<rparr>\<rparr>)"
proof -
  have q: "q_ok (d_q d)" using assms(1) by (simp add: cmd_ok_def)
  have i: "i < 10" "length (CmdArray (d_q d)) = 10" using held_less(4) [OF q assms(2)] q by (simp_all add: q_held_def)
  obtain c where c: "BufVirtualAddr (CmdArray (d_q d) ! i) = Some c" "length (c_params c) = 2040" using held_node [OF q i(1)] by (auto simp: node_ok_def)
  obtain b' where b': "mem_copy (cmd_bytes c) 0 b = Some b'" "length b' = 2048"
    using mem_copy_Some [of 0 b "cmd_bytes c"] assms(3) c(2) by (auto simp: length_cmd_bytes)
  show ?thesis using c b' i assms(2,3) by (auto simp: upload_cmd_def loaded_def mem_get_in node_upd_nth MRVDRV_SIZE_OF_CMD_BUFFER_def)
qed

lemma exit_response:
  assumes "cmd_ok d" "CurCmd (d_q d) = Some f" "exit_reply b"
  shows "\<exists>d1 d2. upload_cmd b d = Some d1 \<and> wlan_process_rx_command d1 = Some d2 \<and> cmd_ok d2 \<and> d_ps d2 = PS_STATE_FULL_POWER \<and> CurCmd (d_q d2) = None \<and>
    CmdPendingQ (d_q d2) = CmdPendingQ (d_q d) \<and> (\<forall>j. j \<noteq> f \<longrightarrow> CmdArray (d_q d2) ! j = CmdArray (d_q d) ! j) \<and> card_writes (d_tx d2) = card_writes (d_tx d)"
proof -
  have lb: "length b \<le> 2048" using assms(3) by (simp add: exit_reply_def)
  obtain c b' where u: "mem_copy (cmd_bytes c) 0 b = Some b'" "length b' = 2048"
    "upload_cmd b d = Some (d\<lparr>d_q := (d_q d)\<lparr>CmdArray := (CmdArray (d_q d))[f := (CmdArray (d_q d) ! f)\<lparr>BufVirtualAddr := Some (cmd_of_bytes b')\<rparr>]\<rparr>\<rparr>)"
    using upload_eval [OF assms(1,2) lb] by blast
  note c = exit_reply_cmd [OF assms(3) u(1)]
  define n where "n = (CmdArray (d_q d) ! f)\<lparr>BufVirtualAddr := Some (cmd_of_bytes b')\<rparr>"
  define d1 where "d1 = d\<lparr>d_q := (d_q d)\<lparr>CmdArray := (CmdArray (d_q d))[f := n]\<rparr>\<rparr>"
  have u1: "upload_cmd b d = Some d1" using u(3) by (simp add: d1_def n_def)
  have ok1: "cmd_ok d1" using upload_ok [OF assms(1), of b] u1 by auto
  have q: "q_ok (d_q d)" using assms(1) by (simp add: cmd_ok_def)
  have f: "f < 10" "length (CmdArray (d_q d)) = 10" using held_less(4) [OF q assms(2)] q by (simp_all add: q_held_def)
  have g: "mem_get (CmdArray (d_q d1)) f = Some n" "CurCmd (d_q d1) = Some f" "CmdPendingQ (d_q d1) = CmdPendingQ (d_q d)" "d_tx d1 = d_tx d"
    using f assms(2) by (simp_all add: d1_def mem_get_in)
  define e where "e = set_ps PS_STATE_FULL_POWER (d1\<lparr>CommandTimerIsSet := False, num_cmd_timeout := 0, CurCmdRetCode := 0, NeedToWakeup := False\<rparr>)"
  have e: "cmd_ok e" "d_q e = d_q d1" "d_ps e = PS_STATE_FULL_POWER" "card_writes (d_tx e) = card_writes (d_tx d)"
    using cmd_ok_awake [OF cmd_ok_other [OF ok1, of "d1\<lparr>CommandTimerIsSet := False, num_cmd_timeout := 0, CurCmdRetCode := 0, NeedToWakeup := False\<rparr>"], of PS_STATE_FULL_POWER] g(4)
    by (simp_all add: e_def)
  have "wlan_process_rx_command d1 = finish_cmd f e"
    using g(1,2) c by (simp add: wlan_process_rx_command_def Let_def n_def ret_ps_mode_def cmd_nos e_def)
  moreover obtain d2 where d2: "finish_cmd f e = Some d2" "d2 = e\<lparr>d_q := d_q d2\<rparr>" "q_ok (d_q d2)" "CurCmd (d_q d2) = None" "CmdPendingQ (d_q d2) = CmdPendingQ (d_q e)"
    "CmdArray (d_q d2) = (CmdArray (d_q e))[f := CleanUpCmdCtrlNode (CmdArray (d_q e) ! f)]"
    using finish_ok [of e f] e(1,2) g(2) by (auto simp: cmd_ok_def)
  moreover have "cmd_ok d2" using finish_cmd_ok [OF e(1), of f] e(2) g(2) d2(1) by auto
  moreover have "d_tx d2 = d_tx e" using keep_tx(1) [OF d2(2)] .
  moreover have "CmdArray (d_q d2) ! j = CmdArray (d_q d) ! j" if "j \<noteq> f" for j using that d2(6) e(2) by (simp add: d1_def)
  ultimately show ?thesis using u1 e(2-4) g(3) by auto
qed

text \<open>C13. A command gets through in power save: when the device is awake in power save and an ordinary command is at the head of
  the queue and a command buffer is free (without one see \<open>cmd_starved\<close>), the next time the main thread may send, the command to leave power save is put before it; then that one is
  sent; its response takes the device to full power; and then the command itself is written to the card, with its
  bytes behind the header of the transfer.\<close>

theorem ps_command_sent:
  assumes "cmd_ok d" "d_ps d = PS_STATE_AWAKE" "CurCmd (d_q d) = None" "CmdPendingQ (d_q d) = i # r" "loaded d i c" "ordinary c"
    and "c_Size c \<noteq> 0" "c_Command c \<noteq> HostCmd_CMD_802_11_DEEP_SLEEP" "CmdFreeQ (d_q d) \<noteq> []" "\<not> SurpriseRemoved (d_tx d)"
    and "\<forall>j. out j = 0" "exit_reply reply"
  shows "\<exists>d1 d2 d3 d4 d5 f1 f2 seq1 seq2. ExecuteNextCommand out d = Some (0, d1) \<and> ExecuteNextCommand out d1 = Some (0, d2) \<and>
    upload_cmd reply d2 = Some d3 \<and> wlan_process_rx_command d3 = Some d4 \<and> d_ps d4 = PS_STATE_FULL_POWER \<and>
    ExecuteNextCommand out d4 = Some (0, d5) \<and> CurCmd (d_q d5) = Some i \<and> CmdPendingQ (d_q d5) = r \<and>
    card_writes (d_tx d5) = card_writes (d_tx d) @ [f1, f2] \<and> sent_frame (take 20 (cmd_bytes (exit_cmd\<lparr>c_SeqNum := seq1\<rparr>))) f1 \<and>
    sent_frame (take (unat (c_Size c)) (cmd_bytes (c\<lparr>c_SeqNum := seq2\<rparr>))) f2"
proof -
  have tr: "tx_ret out = 0" using assms(11) by (simp add: tx_ret_def iomem_retry_cases)
  obtain f fs where free: "CmdFreeQ (d_q d) = f # fs" using assms(9) by (cases "CmdFreeQ (d_q d)") auto
  have q: "q_ok (d_q d)" using assms(1) by (simp add: cmd_ok_def)
  have fi: "i \<noteq> f"
    using held_apart(1) [of "{#f#}" "(d_q d)\<lparr>CmdFreeQ := fs\<rparr>" f] q free assms(4) by (auto simp: q_held_def cur_nodes_def)
  obtain d1 where d1: "PSWakeup 0 d = Some d1" "d1 = d\<lparr>d_q := d_q d1\<rparr>" "cmd_ok d1" "CurCmd (d_q d1) = None" "loaded d1 f exit_cmd" "CmdPendingQ (d_q d1) = f # i # r"
    "\<forall>j. j \<noteq> f \<longrightarrow> CmdArray (d_q d1) ! j = CmdArray (d_q d) ! j"
    using wakeup_queues [OF assms(1) _ free assms(10)] assms(2-4) by auto
  have g: "mem_get (CmdArray (d_q d)) i = Some (CmdArray (d_q d) ! i)" using pending_loaded [OF q assms(4)] by blast
  have e1: "ExecuteNextCommand out d = Some (0, d1)"
    using assms(2-6) g d1(1) by (simp add: ExecuteNextCommand_def exec_pending_def loaded_def ordinary_def asleep_def Let_def)
  have t1: "d_tx d1 = d_tx d" using keep_tx(1) [OF d1(2)] .
  have s1: "sends_now d1 exit_cmd" using t1 assms(2) by (simp add: sends_now_def exit_fields)
  have "c_Size exit_cmd \<noteq> 0" "c_Command exit_cmd \<noteq> HostCmd_CMD_802_11_DEEP_SLEEP" by (simp_all add: exit_fields cmd_nos)
  from execute_sends [OF d1(3,4,6,5) s1 tr this]
  obtain d2 f1 where d2: "ExecuteNextCommand out d1 = Some (0, d2)" "cmd_ok d2" "CurCmd (d_q d2) = Some f" "CmdPendingQ (d_q d2) = i # r"
    "\<forall>j. j \<noteq> f \<longrightarrow> CmdArray (d_q d2) ! j = CmdArray (d_q d1) ! j" "card_writes (d_tx d2) = card_writes (d_tx d1) @ [f1]"
    "sent_frame (take 20 (cmd_bytes (exit_cmd\<lparr>c_SeqNum := SeqNum d1 + 1\<rparr>))) f1"
    by (auto simp: exit_fields)
  obtain d3 d4 where d4: "upload_cmd reply d2 = Some d3" "wlan_process_rx_command d3 = Some d4" "cmd_ok d4" "d_ps d4 = PS_STATE_FULL_POWER" "CurCmd (d_q d4) = None"
    "CmdPendingQ (d_q d4) = i # r" "\<forall>j. j \<noteq> f \<longrightarrow> CmdArray (d_q d4) ! j = CmdArray (d_q d2) ! j" "card_writes (d_tx d4) = card_writes (d_tx d2)"
    using exit_response [OF d2(2,3) assms(12)] d2(4) by auto
  have l4: "loaded d4 i c" using assms(5) fi d1(7) d2(5) d4(7) by (simp add: loaded_def)
  have s4: "sends_now d4 c" using d4(4) by (simp add: sends_now_def)
  from execute_sends [OF d4(3,5,6) l4 s4 tr assms(7,8)]
  obtain d5 f2 where d5: "ExecuteNextCommand out d4 = Some (0, d5)" "CurCmd (d_q d5) = Some i" "CmdPendingQ (d_q d5) = r"
    "card_writes (d_tx d5) = card_writes (d_tx d4) @ [f2]" "sent_frame (take (unat (c_Size c)) (cmd_bytes (c\<lparr>c_SeqNum := SeqNum d4 + 1\<rparr>))) f2" by blast
  have "card_writes (d_tx d5) = card_writes (d_tx d) @ [f1, f2]" using d5(4) d4(8) d2(6) t1 by simp
  then show ?thesis using e1 d2(1,7) d4(1,2,4) d5(1-3,5) by blast
qed

text \<open>The device with one status request in the queue.\<close>

lemma sample_pending:
  assumes "cmd_ok d" "d_q d = free_q" "d_tx d = t_upd (\<lambda>s. s\<lparr>PSState := ps\<rparr>) sample_txdev"
  shows "\<exists>d'. PrepareAndSendCommand wlan_cmd_wmm_get_status HostCmd_CMD_WMM_GET_STATUS 0 0 d = Some (0, d') \<and> cmd_ok d' \<and> d_tx d' = d_tx d \<and>
    CurCmd (d_q d') = None \<and> CmdPendingQ (d_q d') = [0] \<and> CmdFreeQ (d_q d') = [1..<10] \<and> loaded d' 0 status_cmd"
proof -
  have "CmdFreeQ (d_q d) = 0 # [1..<10]" "\<not> SurpriseRemoved (d_tx d)" using assms(2,3) by (simp_all add: free_q_def upt_conv_Cons sample_txdev_def t_upd_def)
  from prepare_pending [OF assms(1) event_bodies(2) status_fresh this, of 0 0]
  obtain d' where d': "PrepareAndSendCommand wlan_cmd_wmm_get_status HostCmd_CMD_WMM_GET_STATUS 0 0 d = Some (0, d')" "d' = d\<lparr>d_q := d_q d'\<rparr>" "cmd_ok d'"
    "CmdFreeQ (d_q d') = [1..<10]" "CurCmd (d_q d') = CurCmd (d_q d)" "loaded d' 0 status_cmd" "CmdPendingQ (d_q d') = CmdPendingQ (d_q d) @ [0]"
    using status_ordinary(2) by auto
  then show ?thesis using keep_tx(1) [OF d'(2)] assms(2) by (auto simp: free_q_def)
qed

theorem ps_command_sent_witness:
  "\<exists>d d1 d2 d3 d4 d5 f1 f2. d_ps d = PS_STATE_AWAKE \<and> loaded d 0 status_cmd \<and> ExecuteNextCommand (\<lambda>_. 0) d = Some (0, d1) \<and>
    ExecuteNextCommand (\<lambda>_. 0) d1 = Some (0, d2) \<and> upload_cmd [0x21, 0x80, 20, 0, 1, 0, 0, 0, 0x31, 0] d2 = Some d3 \<and> wlan_process_rx_command d3 = Some d4 \<and>
    ExecuteNextCommand (\<lambda>_. 0) d4 = Some (0, d5) \<and> card_writes (d_tx d5) = [f1, f2]"
proof -
  let ?d = "set_ps PS_STATE_AWAKE sample_cmddev"
  obtain d where d: "cmd_ok d" "d_tx d = d_tx ?d" "CurCmd (d_q d) = None" "CmdPendingQ (d_q d) = [0]" "CmdFreeQ (d_q d) = [1..<10]" "loaded d 0 status_cmd"
    using sample_pending [OF sample_awake, of PS_STATE_AWAKE] by (auto simp: sample_q set_ps_def w_upd_def)
  have a: "d_ps d = PS_STATE_AWAKE" "\<not> SurpriseRemoved (d_tx d)" "card_writes (d_tx d) = []" using d(2) by (simp_all add: sample_q) (simp_all add: sample_txdev_def)
  have c: "c_Size status_cmd \<noteq> 0" "c_Command status_cmd \<noteq> HostCmd_CMD_802_11_DEEP_SLEEP" "CmdFreeQ (d_q d) \<noteq> []"
    using d(5) by (simp_all add: cmd_nos HostCmd_CMD_WMM_GET_STATUS_def)
  have x: "exit_reply [0x21, 0x80, 20, 0, 1, 0, 0, 0, 0x31, 0]" by (simp add: exit_reply_def le16_of_def cmd_nos)
  show ?thesis
    using ps_command_sent [OF d(1) a(1) d(3,4,6) status_ordinary(1) c a(2) _ x, of "\<lambda>_. 0"] a(1,3) d(6) by auto
qed

section \<open>Lost results\<close>

text \<open>C36. The result of a command can be lost. When the firmware reports that a command failed, its caller is woken and would see the
  failure in \<open>CurCmdRetCode\<close>; but if the main thread sends the next command before the caller runs, that variable is
  cleared, and the caller is told that its command succeeded.\<close>

theorem retcode_race:
  assumes "cmd_ok d" "CurCmd (d_q d) = Some i" "loaded d i c" "c_Command c AND 0x8000 \<noteq> 0" "c_Command c \<noteq> 0x8021" "c_Result c \<noteq> 0"
    and "CmdFlags (CmdArray (d_q d) ! i) = 0" and "d_ps d = PS_STATE_FULL_POWER" "CmdPendingQ (d_q d) = j # r" "loaded d j c'"
    and "c_Size c' \<noteq> 0" "c_Command c' \<noteq> HostCmd_CMD_802_11_DEEP_SLEEP" "\<forall>k. out k = 0"
  shows "\<exists>d1 d2. wlan_process_rx_command d = Some d1 \<and> CmdWaitQWoken (CmdArray (d_q d1) ! i) \<and> fst (command_wait d1) = - 1 \<and>
    ExecuteNextCommand out d1 = Some (0, d2) \<and> fst (command_wait d2) = 0"
proof -
  have tr: "tx_ret out = 0" using assms(13) by (simp add: tx_ret_def iomem_retry_cases)
  have q: "q_ok (d_q d)" using assms(1) by (simp add: cmd_ok_def)
  have i: "i < 10" using held_less(4) [OF q assms(2)] .
  have l: "i < length (CmdArray (d_q d))" using q i by (simp add: q_held_def)
  have ij: "i \<noteq> j" using held_apart(1) [OF q, of i] assms(2,9) by (auto simp: cur_nodes_def)
  define e where "e = d\<lparr>CommandTimerIsSet := False, num_cmd_timeout := 0, CurCmdRetCode := uint (c_Result c)\<rparr>"
  have e: "cmd_ok e" "d_q e = d_q d" "d_tx e = d_tx d" using cmd_ok_other [OF assms(1), of e] by (simp_all add: e_def)
  have R: "wlan_process_rx_command d = finish_cmd i e"
    using assms(2-7) held_node [OF q i] by (simp add: wlan_process_rx_command_def Let_def loaded_def e_def)
  obtain d1 where d1: "finish_cmd i e = Some d1" "d1 = e\<lparr>d_q := d_q d1\<rparr>" "CurCmd (d_q d1) = None" "CmdPendingQ (d_q d1) = j # r"
    "CmdArray (d_q d1) = (CmdArray (d_q d))[i := CleanUpCmdCtrlNode (CmdArray (d_q d) ! i)]"
    using finish_ok [of e i] e q assms(2,9) by auto
  have ok1: "cmd_ok d1" using finish_cmd_ok [OF e(1), of i] e(2) assms(2) d1(1) by auto
  have k: "d_tx d1 = d_tx d" "CurCmdRetCode d1 = uint (c_Result c)" using keep_tx(1,7) [OF d1(2)] e(3) by (simp_all add: e_def)
  have w: "CmdWaitQWoken (CmdArray (d_q d1) ! i)" using d1(5) l by (simp add: CleanUpCmdCtrlNode_def)
  have lj: "loaded d1 j c'" using d1(5) ij assms(10) by (simp add: loaded_def)
  have "sends_now d1 c'" using k(1) assms(8) by (simp add: sends_now_def)
  from execute_sends [OF ok1 d1(3,4) lj this tr assms(11,12)] obtain d2 where "ExecuteNextCommand out d1 = Some (0, d2)" "CurCmdRetCode d2 = 0" by blast
  moreover have "CurCmdRetCode d1 \<noteq> 0" using k(2) assms(6) by (simp add: uint_0_iff)
  ultimately show ?thesis using R d1(1) w by (auto simp: command_wait_def)
qed

text \<open>A device with a failed command at the firmware and another one in the queue.\<close>

definition race_q :: cmdq where
  "race_q = free_q\<lparr>CmdArray := (CmdArray free_q)[0 := (fresh_node True)\<lparr>BufVirtualAddr := Some (status_cmd\<lparr>c_Command := 0x8071, c_Result := 1\<rparr>)\<rparr>,
     1 := (fresh_node True)\<lparr>BufVirtualAddr := Some status_cmd\<rparr>], CmdFreeQ := [2..<10], CmdPendingQ := [1], CurCmd := Some 0\<rparr>"

lemma race_ok: "cmd_ok (sample_cmddev\<lparr>d_q := race_q\<rparr>)"
proof -
  have m: "mset [2..<10] + {#1#} + {#0#} = mset [0..<10 :: nat]" by (simp add: upt_rec numeral_eq_Suc)
  have "q_ok race_q" using free_q_ok m by (auto simp: q_held_def race_q_def cur_nodes_def node_ok_def size_ok_def nth_list_update free_q_def)
  then show ?thesis using start_ok [OF sample_start] by (simp add: cmd_ok_def sample_q sample_tx_idle)
qed

theorem retcode_race_witness:
  "\<exists>d1 d2. wlan_process_rx_command (sample_cmddev\<lparr>d_q := race_q\<rparr>) = Some d1 \<and> fst (command_wait d1) = - 1 \<and>
    ExecuteNextCommand (\<lambda>_. 0) d1 = Some (0, d2) \<and> fst (command_wait d2) = 0"
proof -
  let ?d = "sample_cmddev\<lparr>d_q := race_q\<rparr>"
  have q: "CurCmd (d_q ?d) = Some 0" "CmdPendingQ (d_q ?d) = 1 # []" "d_ps ?d = PS_STATE_FULL_POWER" by (simp_all add: race_q_def sample_q sample_tx_idle)
  have l: "loaded ?d 0 (status_cmd\<lparr>c_Command := 0x8071, c_Result := 1\<rparr>)" "loaded ?d 1 status_cmd" "CmdFlags (CmdArray (d_q ?d) ! 0) = 0"
    by (simp_all add: loaded_def race_q_def free_q_def fresh_node_def)
  show ?thesis
    using retcode_race [OF race_ok q(1) l(1) _ _ _ l(3) q(3,2) l(2), of "\<lambda>_. 0"] by (auto simp: cmd_nos HostCmd_CMD_WMM_GET_STATUS_def)
qed

section \<open>Timeouts\<close>

lemma timer_step:
  assumes "CurCmd (d_q d) = Some i"
  shows "d_q (MrvDrvCommandTimerFunction d) = d_q d" "d_tx (MrvDrvCommandTimerFunction d) = d_tx d" "num_cmd_timeout (MrvDrvCommandTimerFunction d) = num_cmd_timeout d + 1"
    "CommandTimerIsSet (MrvDrvCommandTimerFunction d) = (num_cmd_timeout d + 1 \<le> 5)"
  using assms by (simp_all add: MrvDrvCommandTimerFunction_def Let_def MAX_CMD_TIMEOUT_COUNT_def not_less not_le)

lemma timer_steps:
  assumes "CurCmd (d_q d) = Some i" "num_cmd_timeout d = 0"
  shows "d_q ((MrvDrvCommandTimerFunction ^^ n) d) = d_q d \<and> d_tx ((MrvDrvCommandTimerFunction ^^ n) d) = d_tx d \<and> num_cmd_timeout ((MrvDrvCommandTimerFunction ^^ n) d) = of_nat n"
  using assms by (induction n) (simp_all add: timer_step)

text \<open>A command that is never answered blocks the queue for good: contrary to the comment of the timer function the command is not sent
  again; after six timeouts the timer is off, the command is still the current one, and then no command is sent any
  more.\<close>

theorem cmd_timeout_gives_up:
  assumes "CurCmd (d_q d) = Some i" "num_cmd_timeout d = 0"
  shows "\<exists>d'. (MrvDrvCommandTimerFunction ^^ 6) d = d' \<and> \<not> CommandTimerIsSet d' \<and> d_q d' = d_q d \<and> card_writes (d_tx d') = card_writes (d_tx d) \<and>
    (\<forall>out. ExecuteNextCommand out d' = Some (- 1, d'))"
proof -
  define x where "x = (MrvDrvCommandTimerFunction ^^ 5) d"
  have x: "d_q x = d_q d" "d_tx x = d_tx d" "num_cmd_timeout x = 5" using timer_steps [OF assms, of 5] by (simp_all add: x_def)
  have "(MrvDrvCommandTimerFunction ^^ 6) d = MrvDrvCommandTimerFunction x"
    using funpow.simps(2) [of 5 MrvDrvCommandTimerFunction] by (simp add: x_def)
  then show ?thesis using timer_step [of x i] x assms(1) by (simp add: ExecuteNextCommand_def)
qed

theorem cmd_timeout_gives_up_witness:
  "\<exists>d'. (MrvDrvCommandTimerFunction ^^ 6) (sample_cmddev\<lparr>d_q := race_q\<rparr>) = d' \<and> \<not> CommandTimerIsSet d' \<and> CurCmd (d_q d') = Some 0 \<and>
    (\<forall>out. ExecuteNextCommand out d' = Some (- 1, d'))"
  using cmd_timeout_gives_up [of "sample_cmddev\<lparr>d_q := race_q\<rparr>" 0] by (auto simp: race_q_def sample_cmddev_def)

end
