(* ===== verification/WlanTlv.thy ===== *)
theory WlanTlv
  imports Prelude
begin

text \<open>
  The elements of firmware commands: a type, a length and bytes, which the driver appends to a command one after
  another. The locale \<open>listing\<close> is the contract of a format that can be read back from a concatenation; elements
  and the entries of a channel list are its interpretations.
\<close>

section \<open>Writing\<close>

definition tlv_header :: "u16 \<Rightarrow> nat \<Rightarrow> u8 list" where
  "tlv_header t n = le16_of t @ le16_of (of_nat n)"

text \<open>A position in the body of the command: \<open>pos\<close> in the code.\<close>

type_synonym cursor = "u8 list \<times> nat"

definition put_bytes :: "u8 list \<Rightarrow> cursor \<Rightarrow> cursor option" where
  "put_bytes b = (\<lambda>(p, pos). do { p \<leftarrow> mem_copy p pos b; Some (p, pos + length b) })"

definition put_tlv :: "u16 \<Rightarrow> u8 list \<Rightarrow> cursor \<Rightarrow> cursor option" where
  "put_tlv t b c = do { c \<leftarrow> put_bytes (tlv_header t (length b)) c; put_bytes b c }"

section \<open>Formats that can be read back\<close>

locale listing =
  fixes enc :: "'x \<Rightarrow> 'b list" and read :: "'b list \<Rightarrow> 'x list option" and ok :: "'x \<Rightarrow> bool"
  assumes read_nil: "read [] = Some []" and read_enc: "ok x \<Longrightarrow> read (enc x @ r) = map_option ((#) x) (read r)"
begin

lemma read_all: "list_all ok xs \<Longrightarrow> read (concat (map enc xs)) = Some xs"
  by (induction xs) (simp_all add: read_nil read_enc)

lemma enc_unique: "list_all ok xs \<Longrightarrow> list_all ok ys \<Longrightarrow> concat (map enc xs) = concat (map enc ys) \<longleftrightarrow> xs = ys"
  using read_all by (metis option.inject)

end

section \<open>Elements\<close>

type_synonym tlv = "u16 \<times> u8 list"

definition tlv_bytes :: "tlv \<Rightarrow> u8 list" where
  "tlv_bytes = (\<lambda>(t, b). tlv_header t (length b) @ b)"

definition tlvs_bytes :: "tlv list \<Rightarrow> u8 list" where
  "tlvs_bytes ts = concat (map tlv_bytes ts)"

text \<open>Reading a sequence of elements.\<close>

function parse_tlvs :: "u8 list \<Rightarrow> tlv list option" where
  "parse_tlvs [] = Some []"
| "parse_tlvs (t0 # t1 # l0 # l1 # r) =
     (let n = unat (le16_to l0 l1)
      in if n \<le> length r then map_option ((#) (le16_to t0 t1, take n r)) (parse_tlvs (drop n r)) else None)"
| "parse_tlvs [a] = None" | "parse_tlvs [a, b] = None" | "parse_tlvs [a, b, c] = None"
  by pat_completeness auto

termination
  by (relation "measure length") auto

lemma length_tlv_header [simp]: "length (tlv_header t n) = 4"
  by (simp add: tlv_header_def le16_of_def)

lemma length_tlv_bytes [simp]: "length (tlv_bytes t) = 4 + length (snd t)"
  by (simp add: tlv_bytes_def split: prod.split)

lemma tlvs_bytes_simps [simp]:
  "tlvs_bytes [] = []" "tlvs_bytes (t # ts) = tlv_bytes t @ tlvs_bytes ts" "tlvs_bytes (ts @ us) = tlvs_bytes ts @ tlvs_bytes us"
  by (simp_all add: tlvs_bytes_def)

abbreviation tlv_fits :: "tlv \<Rightarrow> bool" where "tlv_fits t \<equiv> length (snd t) < 65536"

interpretation tlvs: listing tlv_bytes parse_tlvs tlv_fits
proof
  fix t :: tlv and r
  assume fits: "tlv_fits t"
  obtain ty b where t: "t = (ty, b)" by (cases t)
  have "unat (of_nat (length b) :: u16) = length b" using fits by (simp add: t unat_of_nat)
  then show "parse_tlvs (tlv_bytes t @ r) = map_option ((#) t) (parse_tlvs r)" by (simp add: t tlv_bytes_def tlv_header_def le16_of_def)
qed simp

lemma parse_tlvs_bytes: "\<forall>t \<in> set ts. tlv_fits t \<Longrightarrow> parse_tlvs (tlvs_bytes ts) = Some ts"
  using tlvs.read_all [of ts] by (simp add: tlvs_bytes_def list_all_iff)

text \<open>A buffer of zeros in which the first bytes are written, and the position behind them.\<close>

definition pad :: "nat \<Rightarrow> u8 list \<Rightarrow> u8 list" where
  "pad n pre = pre @ replicate (n - length pre) 0"

abbreviation at_end :: "nat \<Rightarrow> u8 list \<Rightarrow> cursor" where
  "at_end n pre \<equiv> (pad n pre, length pre)"

lemma length_pad: "length pre \<le> n \<Longrightarrow> length (pad n pre) = n"
  by (simp add: pad_def)

lemma take_pad: "take (length pre) (pad n pre) = pre"
  by (simp add: pad_def)

lemma pad_zeros: "length pre + k \<le> n \<Longrightarrow> pad n (pre @ replicate k 0) = pad n pre"
  by (simp add: pad_def replicate_add [symmetric])

lemma put_bytes_pad: "length pre + length b \<le> n \<Longrightarrow> put_bytes b (at_end n pre) = Some (at_end n (pre @ b))"
  by (simp add: put_bytes_def pad_def mem_copy_def)

lemma put_tlv_pad: "length pre + 4 + length b \<le> n \<Longrightarrow> put_tlv t b (at_end n pre) = Some (at_end n (pre @ tlv_bytes (t, b)))"
  using put_bytes_pad [of pre "tlv_header t (length b)" n] put_bytes_pad [of "pre @ tlv_header t (length b)" b n]
  by (simp add: put_tlv_def tlv_bytes_def)

end
