(* ===== verification/WlanJoin.thy ===== *)
theory WlanJoin
  imports WlanTlv WlanScan WlanCmd WlanRx
begin

text \<open>
  Association of the wireless driver with an access point, from \<^verbatim>\<open>wlan_join.c\<close>: the rates that both sides
  support, the association command with its elements, the response of the firmware, and
  \<^verbatim>\<open>wlan_associate\<close>, which brings these together and controls the data path. The elements that an application
  adds to the command, \<^verbatim>\<open>wlan_set_mrvl_tlv_ioctl\<close> and the generic elements of
  \<^verbatim>\<open>wlan_wext.c\<close>, and the reading of the response are here too.
\<close>

section \<open>State\<close>

text \<open>The state of the other parts that a connection uses, and what is kept for it alone. The attempted network is a
  pointer into the scan table; \<open>cur_bss\<close>, \<open>NumOfRates\<close> and \<open>cur_rates\<close> are fields of \<open>CurBssParams\<close>.
  \<open>j_sent\<close> are the association commands given to the firmware, \<open>ap_events\<close> the addresses reported by
  \<open>SIOCGIWAP\<close>.\<close>

record joindev =
  j_cfg :: net_cfg
  j_scan :: scan_dev
  j_11d :: adapter_11d
  j_wlan :: wlan
  j_rx :: rxdev
  ListenInterval :: u16
  AuthenticationMode :: u16
  Is_DataRate_Auto :: bool
  DataRate :: u32
  Wpa_ie :: "u8 list"
  Wpa_ie_len :: u8
  wpsIe :: "u8 list"
  genIeBuffer :: "u8 list"
  genIeBufferLen :: u8
  mrvlAssocTlvBuffer :: "u8 list"
  mrvlAssocTlvBufferLen :: u8
  assocRspBuffer :: "u8 list"
  assocRspSize :: u32
  pAttemptedBSSDesc :: "nat option"
  cur_bss :: BSSDescriptor
  NumOfRates :: nat
  cur_rates :: "u8 list"
  cur_wmm_enabled :: bool
  cur_wmm_uapsd :: bool
  j_GTK_SET :: bool
  j_sent :: "HostCmd list"
  ap_events :: "u8 list list"

text \<open>\<open>MediaConnectStatus\<close> is one field of the adapter; its copies in the other parts are kept equal.\<close>

definition set_connected :: "bool \<Rightarrow> joindev \<Rightarrow> joindev" where
  "set_connected b s = s\<lparr>j_cfg := (j_cfg s)\<lparr>nc_connected := b\<rparr>, j_11d := (j_11d s)\<lparr>Wlan11d.MediaConnected := b\<rparr>,
     j_wlan := (j_wlan s)\<lparr>link_up := b\<rparr>\<rparr>"

abbreviation connected :: "joindev \<Rightarrow> bool" where "connected s \<equiv> nc_connected (j_cfg s)"

text \<open>The same for the WMM element of the current network.\<close>

definition set_cur_bss :: "BSSDescriptor \<Rightarrow> joindev \<Rightarrow> joindev" where
  "set_cur_bss d s = s\<lparr>cur_bss := d, j_wlan := (j_wlan s)\<lparr>wmmIE := bss_wmmIE d\<rparr>\<rparr>"

definition jw_upd :: "(wlan \<Rightarrow> wlan) \<Rightarrow> joindev \<Rightarrow> joindev" where
  "jw_upd f s = s\<lparr>j_wlan := f (j_wlan s)\<rparr>"

section \<open>Common rates\<close>

definition card_rates :: "u8 list" where
  "card_rates = [0x82, 0x84, 0x8b, 0x96, 0x0c, 0x12, 0x18, 0x24, 0x30, 0x48, 0x60, 0x6c, 0, 0]"

text \<open>Both loops read the entry before they compare the index with the size.\<close>

fun match_rate :: "u8 list \<Rightarrow> u8 \<Rightarrow> nat \<Rightarrow> nat \<Rightarrow> u8 option option" where
  "match_rate tmp r j 0 = do { x \<leftarrow> mem_get tmp j; Some None }"
| "match_rate tmp r j (Suc k) =
     do { x \<leftarrow> mem_get tmp j;
          if x = 0 then Some None
          else if r AND 0x7f = x AND 0x7f then Some (Some x)
          else match_rate tmp r (j + 1) k }"

fun common_loop :: "u8 list \<Rightarrow> u8 list \<Rightarrow> nat \<Rightarrow> nat \<Rightarrow> nat \<Rightarrow> u8 list \<Rightarrow> u8 list option" where
  "common_loop rate2 tmp i 0 p rate1 = do { r \<leftarrow> mem_get rate2 i; Some rate1 }"
| "common_loop rate2 tmp i (Suc k) p rate1 =
     do { r \<leftarrow> mem_get rate2 i;
          if r = 0 then Some rate1
          else
            do { m \<leftarrow> match_rate tmp r 0 (length tmp);
                 case m of
                   None \<Rightarrow> common_loop rate2 tmp (i + 1) k p rate1
                 | Some x \<Rightarrow> do { rate1 \<leftarrow> mem_put rate1 p x; common_loop rate2 tmp (i + 1) k (p + 1) rate1 } } }"

text \<open>The search for the rate that the user has fixed, and \<open>strlen\<close>; neither stops at the end of the array.\<close>

fun fixed_rate :: "u32 \<Rightarrow> u8 list \<Rightarrow> bool option" where
  "fixed_rate rate [] = None"
| "fixed_rate rate (x # xs) =
     (if x = 0 then Some False else if ucast (x AND 0x7f) = rate then Some True else fixed_rate rate xs)"

fun c_strlen :: "u8 list \<Rightarrow> nat option" where
  "c_strlen [] = None"
| "c_strlen (x # xs) = (if x = 0 then Some 0 else map_option Suc (c_strlen xs))"

definition get_common_rates :: "bool \<Rightarrow> joindev \<Rightarrow> u8 list \<Rightarrow> u8 list \<Rightarrow> (int \<times> u8 list) option" where
  "get_common_rates kmalloc_ok s rate1 rate2 =
     (if \<not> kmalloc_ok then Some (- ENOMEM, rate1)
      else
        do { out \<leftarrow> common_loop rate2 rate1 0 (length rate2) 0 (replicate (length rate1) 0);
             if Is_DataRate_Auto s then Some (0, out)
             else do { found \<leftarrow> fixed_rate (DataRate s) out; Some (if found then 0 else - 1, out) } })"

text \<open>The result is the outcome, the array and the number of rates.\<close>

definition setup_rates_from_bssdesc :: "bool \<Rightarrow> BSSDescriptor \<Rightarrow> joindev \<Rightarrow> (int \<times> u8 list \<times> nat) option" where
  "setup_rates_from_bssdesc kmalloc_ok d s =
     do { rates \<leftarrow> mem_sub (SupportedRates d) 0 WLAN_SUPPORTED_RATES;
          (ret, rates) \<leftarrow> get_common_rates kmalloc_ok s rates card_rates;
          if ret \<noteq> 0 then Some (- 1, rates, 0)
          else do { n \<leftarrow> c_strlen rates; Some (0, rates, min n WLAN_SUPPORTED_RATES) } }"

section \<open>Elements of the command\<close>

definition TLV_TYPE_SSID :: u16 where "TLV_TYPE_SSID = 0"
definition TLV_TYPE_RATES :: u16 where "TLV_TYPE_RATES = 1"
definition TLV_TYPE_PHY_DS :: u16 where "TLV_TYPE_PHY_DS = 3"
definition TLV_TYPE_CF :: u16 where "TLV_TYPE_CF = 4"
definition TLV_TYPE_PASSTHROUGH :: u16 where "TLV_TYPE_PASSTHROUGH = 0x010a"
definition TLV_TYPE_AUTH_TYPE :: u16 where "TLV_TYPE_AUTH_TYPE = 0x011f"

definition wmm_info_ie :: "u8 list" where
  "wmm_info_ie = [VENDOR_SPECIFIC_221, 7, 0, 0x50, 0xf2, 2, 0, 1, 0]"

definition QOS_INFO_PARA_MASK :: u8 where "QOS_INFO_PARA_MASK = 0x0f"

text \<open>\<open>QoSInfo.QosUAPSD\<close> of a WMM element.\<close>

definition QosUAPSD :: "u8 list \<Rightarrow> bool" where
  "QosUAPSD ie = bit (ie ! 8) 7"

definition wlan_wmm_process_association_req :: "joindev \<Rightarrow> u8 list \<Rightarrow> cursor \<Rightarrow> cursor option" where
  "wlan_wmm_process_association_req s ie c =
     (if required (wmm (j_wlan s)) \<and> ie ! 0 = VENDOR_SPECIFIC_221 then
        (let b = drop 2 wmm_info_ie;
             b = (if QosUAPSD ie \<and> qosinfo (wmm (j_wlan s)) AND QOS_INFO_PARA_MASK \<noteq> 0
                  then b[length b - 1 := qosinfo (wmm (j_wlan s))] else b)
         in put_tlv (ucast (wmm_info_ie ! 0)) b c)
      else Some c)"

definition wlan_cmd_append_generic_ie :: "joindev \<Rightarrow> cursor \<Rightarrow> (joindev \<times> cursor) option" where
  "wlan_cmd_append_generic_ie s c =
     (if genIeBufferLen s \<noteq> 0 then
        do { b \<leftarrow> mem_sub (genIeBuffer s) 0 (unat (genIeBufferLen s));
             c \<leftarrow> put_tlv TLV_TYPE_PASSTHROUGH b c;
             Some (s\<lparr>genIeBufferLen := 0\<rparr>, c) }
      else Some (s, c))"

definition wlan_cmd_append_marvell_tlv :: "joindev \<Rightarrow> cursor \<Rightarrow> (joindev \<times> cursor) option" where
  "wlan_cmd_append_marvell_tlv s c =
     (if mrvlAssocTlvBufferLen s \<noteq> 0 then
        do { b \<leftarrow> mem_sub (mrvlAssocTlvBuffer s) 0 (unat (mrvlAssocTlvBufferLen s));
             c \<leftarrow> put_bytes b c;
             Some (s\<lparr>mrvlAssocTlvBufferLen := 0\<rparr>, c) }
      else Some (s, c))"

definition wlan_cmd_append_tsf_tlv :: "BSSDescriptor \<Rightarrow> cursor \<Rightarrow> cursor option" where
  "wlan_cmd_append_tsf_tlv d c =
     do { c \<leftarrow> put_bytes (tlv_header TLV_TYPE_TSFTIMESTAMP 16) c;
          c \<leftarrow> put_bytes (networkTSF d) c;
          put_bytes (TimeStamp d) c }"

section \<open>The association command\<close>

definition HostCmd_CMD_802_11_ASSOCIATE :: u16 where "HostCmd_CMD_802_11_ASSOCIATE = 0x12"
definition HostCmd_CMD_802_11_DEAUTHENTICATE :: u16 where "HostCmd_CMD_802_11_DEAUTHENTICATE = 0x24"
definition CAPINFO_MASK :: u16 where "CAPINFO_MASK = NOT 0xda00"

text \<open>The fixed fields, the name, the channel, and the header of the contention-free parameters, whose value is left as the
  buffer has it.\<close>

definition assoc_head :: "BSSDescriptor \<Rightarrow> joindev \<Rightarrow> u8 list \<Rightarrow> cursor option" where
  "assoc_head d s p =
     do { p \<leftarrow> mem_copy p 0 (MacAddress d);
          p \<leftarrow> mem_copy p 8 (le16_of (ListenInterval s));
          name \<leftarrow> mem_sub (Ssid d) 0 (unat (ucast (SsidLength d) :: u16));
          c \<leftarrow> put_tlv TLV_TYPE_SSID name (p, 13);
          chan \<leftarrow> mem_sub (PhyParamSet d) 2 1;
          c \<leftarrow> put_tlv TLV_TYPE_PHY_DS chan c;
          (p, pos) \<leftarrow> put_bytes (tlv_header TLV_TYPE_CF 6) c;
          Some (p, pos + 6) }"

text \<open>The security element that the supplicant has set; \<^term>\<open>None\<close> inside is the failure for a length that cannot be. The
  header that the code has then written is left out: the command is not sent, and its buffer is cleared for the next use.\<close>

definition assoc_rsn :: "joindev \<Rightarrow> cursor \<Rightarrow> cursor option option" where
  "assoc_rsn s c =
     (if \<not> SessionEnable (j_cfg s) \<and> (WPAEnabled (j_cfg s) \<or> WPA2Enabled (j_cfg s)) then
        do { t \<leftarrow> mem_get (Wpa_ie s) 0;
             n \<leftarrow> mem_get (Wpa_ie s) 1;
             if unat n \<le> length (Wpa_ie s) - 2 then
               do { b \<leftarrow> mem_sub (Wpa_ie s) 2 (unat n); c \<leftarrow> put_tlv (ucast t) b c; Some (Some c) }
             else Some None }
      else Some (Some c))"

definition assoc_appends :: "BSSDescriptor \<Rightarrow> joindev \<Rightarrow> cursor \<Rightarrow> (joindev \<times> cursor) option" where
  "assoc_appends d s c =
     do { c \<leftarrow> wlan_wmm_process_association_req s (bss_wmmIE d) c;
          (s, c) \<leftarrow> wlan_cmd_append_generic_ie s c;
          (s, c) \<leftarrow> wlan_cmd_append_marvell_tlv s c;
          c \<leftarrow> wlan_cmd_append_tsf_tlv d c;
          Some (s, c) }"

text \<open>The country element as \<^verbatim>\<open>wlan_11d.c\<close> sees it. The parser there converts the country code in place.\<close>

fun subbands_of :: "u8 list \<Rightarrow> IEEEtypes_SubbandSet list" where
  "subbands_of (a # b # c # r) = \<lparr>FirstChan = a, NoOfChan = b, MaxTxPwr = c\<rparr> # subbands_of r"
| "subbands_of _ = []"

definition country_of :: "u8 list \<Rightarrow> IEEEtypes_CountryInfoFullSet" where
  "country_of b = \<lparr>ci_Len = b ! 1, ci_CountryCode = take 3 (drop 2 b), ci_Subband = subbands_of (drop 5 b)\<rparr>"

definition country_back :: "IEEEtypes_CountryInfoFullSet \<Rightarrow> u8 list \<Rightarrow> u8 list" where
  "country_back ci b = take 2 b @ ci_CountryCode ci @ drop 5 b"

definition dnld_countryinfo :: "cmd_env \<Rightarrow> cmd_env \<Rightarrow> nat \<Rightarrow> joindev \<Rightarrow> (int \<times> joindev) option" where
  "dnld_countryinfo env1 env2 idx s =
     do { (ret, a) \<leftarrow> wlan_create_dnld_countryinfo_11d env1 0 (j_11d s);
          if ret \<noteq> 0 then Some (- 1, s\<lparr>j_11d := a\<rparr>)
          else
            do { d \<leftarrow> mem_get (ScanTable (j_scan s)) idx;
                 (ret, a) \<leftarrow> wlan_parse_dnld_countryinfo_11d env2 (a\<lparr>Wlan11d.CountryInfo := country_of (WlanBss.CountryInfo d)\<rparr>);
                 tab \<leftarrow> mem_put (ScanTable (j_scan s)) idx
                   (d\<lparr>WlanBss.CountryInfo := country_back (Wlan11d.CountryInfo a) (WlanBss.CountryInfo d)\<rparr>);
                 Some (if ret \<noteq> 0 then - 1 else 0, s\<lparr>j_11d := a, j_scan := (j_scan s)\<lparr>ScanTable := tab\<rparr>\<rparr>) } }"

text \<open>What the surroundings contribute to one association: the free command buffer, the success of the two calls of
  \<open>kmalloc\<close>, the commands with the domain tables, the response of the firmware if there is one, and the result of
  \<open>PrepareAndSendCommand\<close> after the wait.\<close>

record assoc_env =
  e_buf :: "HostCmd option"
  e_kmalloc1 :: bool
  e_kmalloc2 :: bool
  e_dom1 :: cmd_env
  e_dom2 :: cmd_env
  e_answer :: "HostCmd option"
  e_ret :: int

definition wlan_cmd_802_11_associate :: "assoc_env \<Rightarrow> nat \<Rightarrow> joindev \<Rightarrow> HostCmd \<Rightarrow> (int \<times> joindev \<times> HostCmd) option" where
  "wlan_cmd_802_11_associate e idx s cmd =
     do { d \<leftarrow> mem_get (ScanTable (j_scan s)) idx;
          let cmd = cmd\<lparr>WlanCmd.c_Command := HostCmd_CMD_802_11_ASSOCIATE\<rparr>;
          let s = s\<lparr>pAttemptedBSSDesc := Some idx\<rparr>;
          (p, pos) \<leftarrow> assoc_head d s (c_params cmd);
          (ret, rates, ratesSize) \<leftarrow> setup_rates_from_bssdesc (e_kmalloc1 e) d s;
          if ret \<noteq> 0 then Some (- 1, s, cmd\<lparr>c_params := p\<rparr>)
          else
            do { rs \<leftarrow> mem_sub rates 0 ratesSize;
                 c \<leftarrow> put_tlv TLV_TYPE_RATES rs (p, pos);
                 c \<leftarrow> put_tlv TLV_TYPE_AUTH_TYPE (le16_of (AuthenticationMode s)) c;
                 r \<leftarrow> assoc_rsn s c;
                 case r of
                   None \<Rightarrow> Some (- 1, s, cmd\<lparr>c_params := fst c\<rparr>)
                 | Some c \<Rightarrow>
                     do { (s, p, pos) \<leftarrow> assoc_appends d s c;
                          (ret, s) \<leftarrow> dnld_countryinfo (e_dom1 e) (e_dom2 e) idx s;
                          if ret \<noteq> 0 then Some (- 1, s, cmd\<lparr>c_params := p\<rparr>)
                          else
                            do { p \<leftarrow> mem_copy p 6 (le16_of (Cap d AND CAPINFO_MASK));
                                 Some (0, s, cmd\<lparr>c_params := p, WlanCmd.c_Size := of_nat pos + 8\<rparr>) } } } }"

definition wlan_cmd_802_11_deauthenticate :: "joindev \<Rightarrow> HostCmd \<Rightarrow> (int \<times> HostCmd) option" where
  "wlan_cmd_802_11_deauthenticate s cmd =
     do { p \<leftarrow> mem_copy (c_params cmd) 0 (MacAddress (cur_bss s));
          p \<leftarrow> mem_copy p 6 (le16_of 3);
          Some (0, cmd\<lparr>WlanCmd.c_Command := HostCmd_CMD_802_11_DEAUTHENTICATE, WlanCmd.c_Size := 16, c_params := p\<rparr>) }"

section \<open>The response\<close>

text \<open>Time stamps of 64 bits.\<close>

definition le64_to :: "u8 list \<Rightarrow> 64 word" where
  "le64_to b = ucast (le32_to (take 4 b)) OR push_bit 32 (ucast (le32_to (drop 4 b)))"

definition le64_of :: "64 word \<Rightarrow> u8 list" where
  "le64_of w = le32_of (ucast w) @ le32_of (ucast (drop_bit 32 w))"

definition add_tsf :: "64 word \<Rightarrow> BSSDescriptor \<Rightarrow> BSSDescriptor" where
  "add_tsf delta d = d\<lparr>networkTSF := le64_of (le64_to (networkTSF d) + delta)\<rparr>"

definition wlan_scan_update_tsf_timestamps :: "BSSDescriptor \<Rightarrow> scan_dev \<Rightarrow> scan_dev" where
  "wlan_scan_update_tsf_timestamps d s =
     (let delta = le64_to (TimeStamp d) - le64_to (networkTSF d)
      in s\<lparr>ScanTable := map (add_tsf delta) (take (NumInScanTable s) (ScanTable s)) @ drop (NumInScanTable s) (ScanTable s)\<rparr>)"

definition MRVDRV_ASSOC_RSP_BUF_SIZE :: nat where "MRVDRV_ASSOC_RSP_BUF_SIZE = 500"

text \<open>\<open>StatusCode\<close> of a response.\<close>

definition StatusCode :: "u8 list \<Rightarrow> u16" where
  "StatusCode b = le16_to (b ! 2) (b ! 3)"

text \<open>The response is kept for the application; \<open>MIN\<close> compares unsigned numbers.\<close>

definition save_response :: "HostCmd \<Rightarrow> joindev \<Rightarrow> joindev option" where
  "save_response resp s =
     do { let n = min (ucast (WlanCmd.c_Size resp) - 8 :: u32) (of_nat MRVDRV_ASSOC_RSP_BUF_SIZE);
          b \<leftarrow> mem_sub (c_params resp) 0 (unat n);
          buf \<leftarrow> mem_copy (assocRspBuffer s) 0 b;
          Some (s\<lparr>assocRspSize := n, assocRspBuffer := buf\<rparr>) }"

definition set_wmm_state :: "BSSDescriptor \<Rightarrow> joindev \<Rightarrow> joindev" where
  "set_wmm_state d s =
     (let we = (bss_wmmIE d ! 0 = VENDOR_SPECIFIC_221); on = (required (wmm (j_wlan s)) \<and> we)
      in jw_upd (wmm_upd (\<lambda>w. w\<lparr>enabled := on\<rparr>)) (s\<lparr>cur_wmm_enabled := we, cur_wmm_uapsd := (on \<and> QosUAPSD (bss_wmmIE d))\<rparr>))"

definition wlan_ret_802_11_associate :: "bool \<Rightarrow> HostCmd \<Rightarrow> joindev \<Rightarrow> (int \<times> joindev) option" where
  "wlan_ret_802_11_associate kmalloc_ok resp s =
     do { s \<leftarrow> save_response resp s;
          if StatusCode (c_params resp) \<noteq> 0 then Some (- 1, s)
          else
            do { let s = set_connected True s;
                 i \<leftarrow> pAttemptedBSSDesc s;
                 d \<leftarrow> mem_get (ScanTable (j_scan s)) i;
                 chan \<leftarrow> mem_get (PhyParamSet d) 2;
                 let s = set_cur_bss (d\<lparr>bss_Channel := ucast chan\<rparr>) s;
                 (ret, rates, ratesSize) \<leftarrow> setup_rates_from_bssdesc kmalloc_ok d s;
                 if ret \<noteq> 0 then Some (- 1, s)
                 else
                   do { rs \<leftarrow> mem_sub rates 0 ratesSize;
                        cr \<leftarrow> mem_copy (cur_rates s) 0 rs;
                        let s = s\<lparr>NumOfRates := ratesSize, cur_rates := cr, j_scan := wlan_scan_update_tsf_timestamps d (j_scan s)\<rparr>;
                        let s = set_wmm_state d s;
                        let s = (if WPAEnabled (j_cfg s) \<or> WPA2Enabled (j_cfg s) then s\<lparr>j_GTK_SET := False\<rparr> else s);
                        Some (0, s\<lparr>j_rx := reset_raw ((j_rx s)\<lparr>SNR_AVG := 0, NF_AVG := 0\<rparr>)\<rparr>) } } }"

section \<open>Associating\<close>

text \<open>\<open>PrepareAndSendCommand\<close> for this command: preparation, queueing, and, if the firmware answers before the caller goes
  on, the handling of the response. A response with an error code does not reach the handler.\<close>

definition send_associate :: "assoc_env \<Rightarrow> nat \<Rightarrow> joindev \<Rightarrow> (int \<times> joindev) option" where
  "send_associate e idx s =
     (case e_buf e of
        None \<Rightarrow> Some (- 1, s)
      | Some buf \<Rightarrow>
          do { (ret, s, cmd) \<leftarrow> wlan_cmd_802_11_associate e idx s buf;
               if ret \<noteq> 0 then Some (- 1, s)
               else
                 do { let s = s\<lparr>j_sent := j_sent s @ [cmd]\<rparr>;
                      (case e_answer e of
                         None \<Rightarrow> Some (e_ret e, s)
                       | Some resp \<Rightarrow>
                           if c_Result resp \<noteq> 0 then Some (e_ret e, s)
                           else do { (_, s) \<leftarrow> wlan_ret_802_11_associate (e_kmalloc2 e) resp s; Some (e_ret e, s) }) } })"

text \<open>The data path after the attempt. \<open>bssid\<close> is the address of the network before it, \<open>reassoc\<close> whether there was one.\<close>

definition assoc_data_path :: "bool \<Rightarrow> u8 list \<Rightarrow> joindev \<Rightarrow> joindev" where
  "assoc_data_path reassoc bssid s =
     (let enableData = (\<not> enabled (wmm (j_wlan s)));
          s = (if enabled (wmm (j_wlan s)) then s else jw_upd wmm_setup_queues s)
      in if connected s then
           (let enableData = (enableData \<or> reassoc \<and> bssid = MacAddress (cur_bss s))
            in if enableData then jw_upd (\<lambda>w. os_start_queue (os_carrier_on (wmm_start_queue w))) s else s)
         else jw_upd (\<lambda>w. os_stop_queue (os_carrier_off w)) s)"

definition wlan_associate :: "assoc_env \<Rightarrow> nat \<Rightarrow> joindev \<Rightarrow> (int \<times> joindev) option" where
  "wlan_associate e idx s =
     do { d \<leftarrow> mem_get (ScanTable (j_scan s)) idx;
          if InfrastructureMode (j_cfg s) \<noteq> Wlan802_11Infrastructure \<or> bss_mode d \<noteq> Wlan802_11Infrastructure then Some (- EINVAL, s)
          else
            do { let reassoc = connected s;
                 let bssid = MacAddress (cur_bss s);
                 let s = (if reassoc then jw_upd wmm_stop_queue s else s);
                 (ret, s) \<leftarrow> send_associate e idx (s\<lparr>assocRspSize := 0\<rparr>);
                 let s = assoc_data_path reassoc bssid s;
                 let s = s\<lparr>ap_events := ap_events s @ [MacAddress (cur_bss s)]\<rparr>;
                 Some (if ret \<noteq> 0 \<or> StatusCode (assocRspBuffer s) \<noteq> 0 then - ENETUNREACH else ret, s) } }"

text \<open>The index of the user counts from one; the comparison is unsigned, so a negative index is too large.\<close>

definition wlan_associate_to_table_idx :: "assoc_env \<Rightarrow> int \<Rightarrow> joindev \<Rightarrow> (int \<times> joindev) option" where
  "wlan_associate_to_table_idx e tableIdx s =
     (if tableIdx > 0 \<and> tableIdx \<le> int (NumInScanTable (j_scan s)) then wlan_associate e (nat (tableIdx - 1)) s
      else Some (- EINVAL, s))"

section \<open>What the application adds and reads\<close>

text \<open>\<open>copy_ok\<close> says whether the copy from or to user space succeeds.\<close>

definition wlan_set_mrvl_tlv_ioctl :: "bool \<Rightarrow> u8 list \<Rightarrow> joindev \<Rightarrow> (int \<times> joindev) option" where
  "wlan_set_mrvl_tlv_ioctl copy_ok b s =
     (if length b = 0 then Some (0, s\<lparr>mrvlAssocTlvBufferLen := 0\<rparr>)
      else if length b < 256 - unat (mrvlAssocTlvBufferLen s) then
        (if copy_ok then
           do { buf \<leftarrow> mem_copy (mrvlAssocTlvBuffer s) (unat (mrvlAssocTlvBufferLen s)) b;
                Some (0, s\<lparr>mrvlAssocTlvBuffer := buf, mrvlAssocTlvBufferLen := mrvlAssocTlvBufferLen s + of_nat (length b)\<rparr>) }
         else Some (- EFAULT, s))
      else Some (- 1, s))"

definition wlan_get_assoc_rsp_ioctl :: "bool \<Rightarrow> u16 \<Rightarrow> joindev \<Rightarrow> (int \<times> u8 list \<times> joindev) option" where
  "wlan_get_assoc_rsp_ioctl copy_ok len s =
     do { b \<leftarrow> mem_sub (assocRspBuffer s) 0 (min (unat (assocRspSize s)) (unat len));
          Some (if copy_ok then (0, b, s\<lparr>assocRspSize := 0\<rparr>) else (- EFAULT, [], s)) }"

definition wlan_set_wpa_ie_helper :: "bool \<Rightarrow> u8 list \<Rightarrow> joindev \<Rightarrow> (int \<times> joindev) option" where
  "wlan_set_wpa_ie_helper copy_ok b s =
     (let sec = (\<lambda>wpa wpa2 s. s\<lparr>j_cfg := (j_cfg s)\<lparr>WPAEnabled := wpa, WPA2Enabled := wpa2\<rparr>\<rparr>)
      in if length b \<noteq> 0 then
           (if length b > 256 \<or> \<not> copy_ok then Some (- EFAULT, s)
            else
              do { ie \<leftarrow> mem_copy (Wpa_ie s) 0 b;
                   let s = s\<lparr>Wpa_ie := ie, Wpa_ie_len := of_nat (length b)\<rparr>;
                   Some (0, if ie ! 0 = VENDOR_SPECIFIC_221 then sec True (WPA2Enabled (j_cfg s)) s
                            else if ie ! 0 = RSN_IE then sec (WPAEnabled (j_cfg s)) True s
                            else sec False False s) })
         else Some (0, sec False False (s\<lparr>Wpa_ie := replicate 256 0, Wpa_ie_len := 0\<rparr>)))"

text \<open>The vendor fields are read from the memory of the user, of which \<open>mem\<close> is the part from the element on.\<close>

definition wlan_set_gen_ie_helper :: "bool \<Rightarrow> u8 list \<Rightarrow> u16 \<Rightarrow> joindev \<Rightarrow> (int \<times> joindev) option" where
  "wlan_set_gen_ie_helper copy_ok mem ie_len s =
     (if ie_len = 0 then Some (0, s\<lparr>genIeBufferLen := 0\<rparr>)
      else
        do { ie \<leftarrow> mem_sub mem 0 (unat ie_len);
             let vendor = (\<lambda>oui. mem ! 0 = VENDOR_SPECIFIC_221 \<and> take 4 (drop 2 mem) = oui);
             if mem ! 0 = RSN_IE \<or> vendor wpa_oui then wlan_set_wpa_ie_helper copy_ok ie s
             else if vendor wps_oui then
               (if mem ! 1 > 4 then do { w \<leftarrow> mem_copy (wpsIe s) 0 ie; Some (0, s\<lparr>wpsIe := w\<rparr>) }
                else Some (0, s\<lparr>wpsIe := replicate 256 0\<rparr>))
             else if unat ie_len < 256 - unat (genIeBufferLen s) then
               (if copy_ok then
                  do { buf \<leftarrow> mem_copy (genIeBuffer s) (unat (genIeBufferLen s)) ie;
                       Some (0, s\<lparr>genIeBuffer := buf, genIeBufferLen := genIeBufferLen s + ucast ie_len\<rparr>) }
                else Some (- EFAULT, s))
             else Some (- 1, s) })"

text \<open>The size is computed as it is written, with one sign too many; a negative size is refused by the copy to user space.\<close>

definition wlan_get_gen_ie_helper :: "bool \<Rightarrow> u16 \<Rightarrow> joindev \<Rightarrow> (int \<times> u8 list) option" where
  "wlan_get_gen_ie_helper copy_ok len s =
     (let copySize = min (sint (assocRspSize s - 2 - (- 2) - 2)) (uint len)
      in if copySize < 0 \<or> \<not> copy_ok then Some (- EFAULT, [])
         else do { b \<leftarrow> mem_sub (assocRspBuffer s) 6 (nat copySize); Some (0, b) })"

end
