(* ===== verification/WlanJoinInv.thy ===== *)
theory WlanJoinInv
  imports WlanJoin
begin

text \<open>
  What the steps of an association keep and compute: the rates common to a network and the card, the domain tables
  that are downloaded before the command, the bytes of the command as a list of elements, and the well-formed
  states (\<open>join_ok\<close>) that every step preserves. \<open>assoc_body\<close> is the command as a specification;
  \<open>wlan_cmd_802_11_associate\<close> is shown to write it.
\<close>

section \<open>Rates\<close>

abbreviation nz :: "u8 \<Rightarrow> bool" where "nz x \<equiv> x \<noteq> 0"

definition same_rate :: "u8 \<Rightarrow> u8 \<Rightarrow> bool" where
  "same_rate r x \<longleftrightarrow> r AND 0x7f = x AND 0x7f"

text \<open>The specification: for each rate of the card in turn, the first of the network that is the same, with the mark of the
  network for a basic rate.\<close>

definition common_rates :: "u8 list \<Rightarrow> u8 list \<Rightarrow> u8 list" where
  "common_rates net own = List.map_filter (\<lambda>r. find (same_rate r) net) own"

definition rates_of :: "u8 list \<Rightarrow> u8 list" where
  "rates_of = takeWhile nz"

lemma match_rate_eq:
  "match_rate (pre @ xs) r (length pre) (length xs) =
     (case find (same_rate r) (rates_of xs) of Some x \<Rightarrow> Some (Some x) | None \<Rightarrow> if 0 \<in> set xs then Some None else None)"
proof (induction xs arbitrary: pre)
  case (Cons x xs)
  then show ?case using Cons [of "pre @ [x]"] by (auto simp: mem_get_def nth_append rates_of_def same_rate_def split: option.splits)
qed (simp add: mem_get_def rates_of_def)

lemma length_common_rates: "length (common_rates net own) \<le> length own"
  by (induction own) (simp_all add: common_rates_def map_filter_simps split: option.split)

lemma in_rates_of: "x \<in> set (rates_of xs) \<Longrightarrow> x \<in> set xs \<and> x \<noteq> 0"
  unfolding rates_of_def by (rule set_takeWhileD)

lemma common_rates_in: "x \<in> set (common_rates net own) \<Longrightarrow> x \<in> set net \<and> (\<exists>r \<in> set own. same_rate r x)"
  by (induction own) (auto simp: common_rates_def map_filter_simps find_Some_iff split: option.splits)

lemma common_rates_nz: "x \<in> set (common_rates (rates_of xs) own) \<Longrightarrow> x \<noteq> 0"
  using common_rates_in in_rates_of by blast

text \<open>Whether all comparisons stay inside the array of the network.\<close>

definition rates_end :: "u8 list \<Rightarrow> u8 list \<Rightarrow> bool" where
  "rates_end net own \<longleftrightarrow> 0 \<in> set net \<or> (\<forall>r \<in> set own. \<exists>x \<in> set net. same_rate r x)"

lemma rates_of_full: "0 \<notin> set net \<Longrightarrow> rates_of net = net"
  unfolding rates_of_def by (rule takeWhile_eq_all_conv [THEN iffD2]) auto

lemma match_found:
  assumes "rates_end net (r # own)"
  shows "match_rate net r 0 (length net) = Some (find (same_rate r) (rates_of net))"
proof (cases "find (same_rate r) (rates_of net)")
  case None
  then have "\<not> (\<exists>x \<in> set (rates_of net). same_rate r x)" by (auto simp: find_None_iff)
  then have "0 \<in> set net" using assms rates_of_full by (fastforce simp: rates_end_def)
  then show ?thesis using match_rate_eq [of "[]" net r] None by simp
next
  case (Some x)
  then show ?thesis using match_rate_eq [of "[]" net r] by simp
qed

lemma rates_end_Cons: "rates_end net (r # own) \<Longrightarrow> rates_end net own"
  by (auto simp: rates_end_def)

lemma common_loop_eq:
  assumes "0 \<in> set ys" and "rates_end net (rates_of ys)" and "length (common_rates (rates_of net) (rates_of ys)) \<le> m"
  shows "common_loop (pre @ ys) net (length pre) (length ys) (length out) (out @ replicate m 0) =
    (let cr = common_rates (rates_of net) (rates_of ys) in Some (out @ cr @ replicate (m - length cr) 0))"
  using assms
proof (induction ys arbitrary: pre out m)
  case (Cons y ys)
  show ?case
  proof (cases "y = 0")
    case False
    let ?f = "find (same_rate y) (rates_of net)"
    have r: "rates_of (y # ys) = y # rates_of ys" using False by (simp add: rates_of_def)
    have m: "match_rate net y 0 (length net) = Some ?f" using Cons.prems(2) by (simp add: r match_found)
    have IH: "common_loop ((pre @ [y]) @ ys) net (length (pre @ [y])) (length ys) (length out') (out' @ replicate m' 0) =
      (let cr = common_rates (rates_of net) (rates_of ys) in Some (out' @ cr @ replicate (m' - length cr) 0))"
      if "length (common_rates (rates_of net) (rates_of ys)) \<le> m'" for out' m'
      using Cons.IH [of m' "pre @ [y]" out'] Cons.prems that False rates_end_Cons by (auto simp: r)
    show ?thesis
    proof (cases ?f)
      case None
      then have c: "common_rates (rates_of net) (rates_of (y # ys)) = common_rates (rates_of net) (rates_of ys)"
        by (simp add: r common_rates_def map_filter_simps)
      show ?thesis using IH [of m out] Cons.prems(3) False None m by (simp add: c mem_get_def nth_append)
    next
      case (Some x)
      then have c: "common_rates (rates_of net) (rates_of (y # ys)) = x # common_rates (rates_of net) (rates_of ys)"
        by (simp add: r common_rates_def map_filter_simps)
      obtain m' where m': "m = Suc m'" using Cons.prems(3) by (cases m) (simp_all add: c)
      have u: "mem_put (out @ replicate m 0) (length out) x = Some ((out @ [x]) @ replicate m' 0)"
        by (simp add: m' mem_put_def)
      show ?thesis using IH [of m' "out @ [x]"] Cons.prems(3) False Some m u by (simp add: c m' mem_get_def nth_append Let_def)
    qed
  qed (simp add: rates_of_def common_rates_def map_filter_simps mem_get_def nth_append)
qed simp

lemma c_strlen_split: "\<forall>x \<in> set xs. x \<noteq> 0 \<Longrightarrow> c_strlen (xs @ 0 # ys) = Some (length xs)"
  by (induction xs) auto

lemma fixed_rate_split: "\<forall>x \<in> set xs. x \<noteq> 0 \<Longrightarrow> fixed_rate rate (xs @ 0 # ys) = Some (\<exists>x \<in> set xs. ucast (x AND 0x7f) = rate)"
  by (induction xs) auto

abbreviation net_rates :: "BSSDescriptor \<Rightarrow> u8 list" where
  "net_rates d \<equiv> common_rates (rates_of (SupportedRates d)) (rates_of card_rates)"

definition rate_allowed :: "joindev \<Rightarrow> BSSDescriptor \<Rightarrow> bool" where
  "rate_allowed s d \<longleftrightarrow> Is_DataRate_Auto s \<or> (\<exists>x \<in> set (net_rates d). ucast (x AND 0x7f) = DataRate s)"

lemma rates_of_card: "rates_of card_rates = [0x82, 0x84, 0x8b, 0x96, 0x0c, 0x12, 0x18, 0x24, 0x30, 0x48, 0x60, 0x6c]"
  by (simp add: rates_of_def card_rates_def)

lemma length_net_rates: "length (net_rates d) \<le> 12"
  using length_common_rates [of "rates_of (SupportedRates d)" "rates_of card_rates"] by (simp add: rates_of_card)

lemma setup_rates_eq:
  assumes "length (SupportedRates d) = 14" and "rates_end (SupportedRates d) (rates_of card_rates)"
  shows "setup_rates_from_bssdesc ok d s =
    (if \<not> ok then Some (- 1, SupportedRates d, 0)
     else
       (let out = net_rates d @ replicate (14 - length (net_rates d)) 0
        in if rate_allowed s d then Some (0, out, length (net_rates d)) else Some (- 1, out, 0)))"
proof -
  let ?cr = "net_rates d"
  have n: "length ?cr \<le> 12" by (rule length_net_rates)
  then obtain k where k: "14 - length ?cr = Suc k" by (cases "14 - length ?cr") auto
  have z: "\<forall>x \<in> set ?cr. x \<noteq> 0" using common_rates_nz by blast
  have l: "common_loop card_rates (SupportedRates d) 0 (length card_rates) 0 (replicate 14 0) = Some (?cr @ replicate (14 - length ?cr) 0)"
    using common_loop_eq [of card_rates "SupportedRates d" 14 "[]" "[]"] assms(2) n by (simp add: card_rates_def Let_def)
  have f: "fixed_rate (DataRate s) (?cr @ replicate (14 - length ?cr) 0) = Some (\<exists>x \<in> set ?cr. ucast (x AND 0x7f) = DataRate s)"
    "c_strlen (?cr @ replicate (14 - length ?cr) 0) = Some (length ?cr)"
    using fixed_rate_split [OF z, of "DataRate s" "replicate k 0"] c_strlen_split [OF z, of "replicate k 0"] by (simp_all add: k)
  show ?thesis
    using n by (simp add: setup_rates_from_bssdesc_def get_common_rates_def mem_sub_def assms(1) WLAN_SUPPORTED_RATES_def
      ENOMEM_def l f rate_allowed_def Let_def)
qed

lemma common_loop_overread:
  assumes "0 \<notin> set net" and "r \<in> set (rates_of ys)" and "\<not> (\<exists>x \<in> set net. same_rate r x)" and "length ys \<le> m"
  shows "common_loop (pre @ ys) net (length pre) (length ys) p (out @ replicate m 0) = None \<or> p \<noteq> length out"
  using assms
proof (induction ys arbitrary: pre out m p)
  case (Cons y ys)
  then have y: "y \<noteq> 0" "mem_get (pre @ y # ys) (length pre) = Some y" by (auto simp: rates_of_def mem_get_def split: if_splits)
  show ?case
  proof (cases "find (same_rate y) (rates_of net)")
    case None
    then show ?thesis using y Cons.prems(1) match_rate_eq [of "[]" net y] by simp
  next
    case (Some x)
    then have "x \<in> set net \<and> same_rate y x" using Cons.prems(1) by (auto simp: rates_of_full find_Some_iff)
    then have "r \<in> set (rates_of ys)" using Cons.prems(2,3) y by (auto simp: rates_of_def)
    moreover obtain m' where m': "m = Suc m'" using Cons.prems(4) by (cases m) auto
    moreover have "mem_put (out @ replicate m 0) (length out) x = Some ((out @ [x]) @ replicate m' 0)" by (simp add: m' mem_put_def)
    ultimately show ?thesis
      using Cons.IH [of m' "pre @ [y]" "p + 1" "out @ [x]"] Cons.prems y Some match_rate_eq [of "[]" net y] by auto
  qed
qed (simp add: rates_of_def)

lemma setup_rates_overread:
  assumes "length (SupportedRates d) = 14" and "\<not> rates_end (SupportedRates d) (rates_of card_rates)"
  shows "setup_rates_from_bssdesc True d s = None"
proof -
  obtain r where r: "0 \<notin> set (SupportedRates d)" "r \<in> set (rates_of card_rates)" "\<not> (\<exists>x \<in> set (SupportedRates d). same_rate r x)"
    using assms(2) by (auto simp: rates_end_def)
  have "common_loop card_rates (SupportedRates d) 0 (length card_rates) 0 (replicate 14 0) = None"
    using common_loop_overread [OF r, of 14 "[]" 0 "[]"] by (simp add: card_rates_def)
  then show ?thesis
    by (simp add: setup_rates_from_bssdesc_def get_common_rates_def mem_sub_def assms(1) WLAN_SUPPORTED_RATES_def)
qed

section \<open>Domain tables while associating\<close>

definition reg_ok :: "adapter_11d \<Rightarrow> bool" where
  "reg_ok a \<longleftrightarrow> (\<forall>rc \<in> set (region_channel a). \<forall>tab. CFP rc = Some tab \<longrightarrow> unat (NrCFP rc) = length tab \<and> length tab \<le> MAX_NO_OF_CHAN)"

text \<open>What the downloads leave alone.\<close>

definition same_11d :: "adapter_11d \<Rightarrow> adapter_11d \<Rightarrow> bool" where
  "same_11d a a' \<longleftrightarrow> region_channel a' = region_channel a \<and> Wlan11d.MediaConnected a' = Wlan11d.MediaConnected a"

lemma reg_ok_same: "same_11d a a' \<Longrightarrow> reg_ok a' = reg_ok a"
  by (simp add: same_11d_def reg_ok_def)

text \<open>A command buffer is free and the firmware accepts the command.\<close>

definition accepted :: "cmd_env \<Rightarrow> bool" where
  "accepted env \<longleftrightarrow> fst env \<noteq> None \<and> snd env = 0"

lemma set_domain_info_any:
  assumes "length (dr_Subband (DomainReg a)) = MRVDRV_MAX_SUBBAND_802_11D" and "unat (dr_NoOfSubband (DomainReg a)) \<le> MAX_NO_OF_CHAN"
  shows "\<exists>r x. wlan_set_domain_info_11d env a = Some (r, a\<lparr>sent_cmds := x\<rparr>) \<and> (accepted env \<longrightarrow> r = 0)"
proof -
  obtain buf ret where env: "env = (buf, ret)" by (cases env)
  show ?thesis
  proof (cases buf)
    case None
    then show ?thesis by (intro exI [of _ "- 1"] exI [of _ "sent_cmds a"]) (simp add: env wlan_set_domain_info_11d_def accepted_def)
  next
    case (Some old)
    obtain cmd where "wlan_cmd_802_11d_domain_info (DomainReg a) old HostCmd_CMD_802_11D_DOMAIN_INFO HostCmd_ACT_SET = Some cmd"
      using assms by (fastforce simp: wlan_cmd_802_11d_domain_info_def HostCmd_ACT_SET_def HostCmd_ACT_GET_def mem_sub_def
          MRVDRV_MAX_SUBBAND_802_11D_def MAX_NO_OF_CHAN_def Let_def)
    then show ?thesis using Some by (auto simp: env wlan_set_domain_info_11d_def accepted_def)
  qed
qed

lemma find_band_in: "find_band b rcs = Some rc \<Longrightarrow> rc \<in> set rcs \<and> CFP rc \<noteq> None"
  by (induction rcs) (auto split: if_splits)

lemma zero_sizes: "length (pr_chanPwr zero_parsed) = MAX_NO_OF_CHAN" "length (dr_Subband zero_domain_reg) = MRVDRV_MAX_SUBBAND_802_11D"
  by (simp_all add: zero_parsed_def zero_domain_reg_def)

lemma create_dnld_any:
  assumes "reg_ok a"
  shows "\<exists>r a'. wlan_create_dnld_countryinfo_11d env b a = Some (r, a') \<and> same_11d a a' \<and>
    (accepted env \<and> find_band b (region_channel a) \<noteq> None \<longrightarrow> r = 0)"
proof (cases "find_band b (region_channel a)")
  case None
  then show ?thesis by (simp add: wlan_create_dnld_countryinfo_11d_def same_11d_def)
next
  case (Some rc)
  then obtain tab where t: "CFP rc = Some tab" "unat (NrCFP rc) = length tab" "length tab \<le> MAX_NO_OF_CHAN"
    using find_band_in [OF Some] assms by (auto simp: reg_ok_def)
  obtain p where p: "wlan_generate_parsed_region_chan_11d rc zero_parsed = Some p"
    "length (pr_chanPwr p) = MAX_NO_OF_CHAN" "unat (pr_NoOfChan p) \<le> MAX_NO_OF_CHAN"
    using generate_parsed_spec [OF t] t(3) by auto
  obtain dr where d: "wlan_generate_domain_info_11d p zero_domain_reg = Some dr"
    "length (dr_Subband dr) = MRVDRV_MAX_SUBBAND_802_11D" "unat (dr_NoOfSubband dr) \<le> MAX_NO_OF_CHAN"
    using generate_domain_info_spec [OF p(2,3) zero_sizes(2)] by auto
  let ?a = "a\<lparr>parsed_region_chan := p, DomainReg := dr\<rparr>"
  obtain r x where "wlan_set_domain_info_11d env ?a = Some (r, ?a\<lparr>sent_cmds := x\<rparr>)" "accepted env \<longrightarrow> r = 0"
    using set_domain_info_any [of ?a env] d(2,3) by auto
  then show ?thesis using Some p(1) d(1) by (simp add: wlan_create_dnld_countryinfo_11d_def same_11d_def)
qed

lemma length_upper_code [simp]: "length (upper_code c) = length c"
  by (induction c) auto

lemma parse_dnld_any:
  assumes "ci_ok (Wlan11d.CountryInfo a)"
  shows "\<exists>r a'. wlan_parse_dnld_countryinfo_11d env a = Some (r, a') \<and> same_11d a a' \<and> ci_ok (Wlan11d.CountryInfo a') \<and>
    ci_Len (Wlan11d.CountryInfo a') = ci_Len (Wlan11d.CountryInfo a) \<and> (accepted env \<longrightarrow> r = 0)"
proof -
  let ?ci = "Wlan11d.CountryInfo a"
  consider "Wlan11d.MediaConnected a \<or> \<not> Enable11D a" | "\<not> Wlan11d.MediaConnected a" "Enable11D a" "ci_CountryCode ?ci ! 0 = 0 \<or> unat (ci_Len ?ci) \<le> 3"
    | "\<not> Wlan11d.MediaConnected a" "Enable11D a" "ci_CountryCode ?ci ! 0 \<noteq> 0" "3 < unat (ci_Len ?ci)" by fastforce
  then show ?thesis
  proof cases
    case 1
    then show ?thesis using assms by (auto simp: wlan_parse_dnld_countryinfo_11d_def wlan_get_state_11d_def same_11d_def)
  next
    case 2
    then show ?thesis using assms parse_no_country [OF assms 2(3), of 0 zero_parsed]
      by (auto simp: wlan_parse_dnld_countryinfo_11d_def wlan_get_state_11d_def same_11d_def)
  next
    case 3
    let ?ci' = "?ci\<lparr>ci_CountryCode := upper_code (ci_CountryCode ?ci)\<rparr>"
    obtain p where p: "wlan_parse_domain_info_11d ?ci 0 zero_parsed = Some (0, ?ci', p)"
      "length (pr_chanPwr p) = MAX_NO_OF_CHAN" "unat (pr_NoOfChan p) \<le> MAX_NO_OF_CHAN"
      using parse_ci [OF assms 3(3,4) zero_sizes(1), of 0] by (auto simp: MAX_NO_OF_CHAN_def)
    obtain dr where d: "wlan_generate_domain_info_11d p zero_domain_reg = Some dr"
      "length (dr_Subband dr) = MRVDRV_MAX_SUBBAND_802_11D" "unat (dr_NoOfSubband dr) \<le> MAX_NO_OF_CHAN"
      using generate_domain_info_spec [OF p(2,3) zero_sizes(2)] by auto
    let ?a = "a\<lparr>Wlan11d.CountryInfo := ?ci', parsed_region_chan := p, DomainReg := dr\<rparr>"
    obtain r x where "wlan_set_domain_info_11d env ?a = Some (r, ?a\<lparr>sent_cmds := x\<rparr>)" "accepted env \<longrightarrow> r = 0"
      using set_domain_info_any [of ?a env] d(2,3) by auto
    then show ?thesis using 3 p(1) d(1) assms
      by (simp add: wlan_parse_dnld_countryinfo_11d_def wlan_get_state_11d_def same_11d_def ci_ok_def Let_def)
  qed
qed

lemma length_subbands_of: "length (subbands_of b) = length b div 3"
  by (induction b rule: subbands_of.induct) auto

lemma country_ok: "length b = 254 \<Longrightarrow> unat (b ! 1) \<le> 254 \<Longrightarrow> ci_ok (country_of b)"
  by (simp add: ci_ok_def country_of_def length_subbands_of MRVDRV_MAX_SUBBAND_802_11D_def)

section \<open>Well-formed states\<close>

definition net_ok :: "BSSDescriptor \<Rightarrow> bool" where
  "net_ok d \<longleftrightarrow> wf_bss d \<and> length (MacAddress d) = 6 \<and> length (TimeStamp d) = 8 \<and> length (networkTSF d) = 8 \<and>
     unat (SsidLength d) \<le> 32 \<and> unat (WlanBss.CountryInfo d ! 1) \<le> 254"

definition tab_ok :: "scan_dev \<Rightarrow> bool" where
  "tab_ok s \<longleftrightarrow> length (ScanTable s) = MRVDRV_MAX_BSSID_LIST \<and> NumInScanTable s \<le> MRVDRV_MAX_BSSID_LIST \<and> list_all net_ok (ScanTable s)"

text \<open>The arrays have their sizes, and the views of the connection agree.\<close>

definition join_ok :: "joindev \<Rightarrow> bool" where
  "join_ok s \<longleftrightarrow> tab_ok (j_scan s) \<and> net_ok (cur_bss s) \<and> reg_ok (j_11d s) \<and> wmm_ok (j_wlan s) \<and>
     length (Wpa_ie s) = 256 \<and> length (wpsIe s) = 256 \<and> length (genIeBuffer s) = 256 \<and> length (mrvlAssocTlvBuffer s) = 256 \<and>
     length (assocRspBuffer s) = MRVDRV_ASSOC_RSP_BUF_SIZE \<and> assocRspSize s \<le> 500 \<and> length (cur_rates s) = 14 \<and>
     Wlan11d.MediaConnected (j_11d s) = connected s \<and> link_up (j_wlan s) = connected s \<and> wmmIE (j_wlan s) = bss_wmmIE (cur_bss s)"

lemma tab_entry: "tab_ok s \<Longrightarrow> i < MRVDRV_MAX_BSSID_LIST \<Longrightarrow> mem_get (ScanTable s) i = Some (ScanTable s ! i) \<and> net_ok (ScanTable s ! i)"
  by (simp add: tab_ok_def mem_get_def list_all_length)

lemma tab_put: "tab_ok s \<Longrightarrow> net_ok d \<Longrightarrow> tab_ok (s\<lparr>ScanTable := (ScanTable s)[i := d]\<rparr>)"
  by (auto simp: tab_ok_def list_all_iff dest!: set_update_subset_insert [THEN subsetD])

lemma country_net_ok:
  assumes "net_ok d" and "length (ci_CountryCode ci) = 3"
  shows "net_ok (d\<lparr>WlanBss.CountryInfo := country_back ci (WlanBss.CountryInfo d)\<rparr>)"
  using assms by (simp add: net_ok_def wf_bss_def country_back_def nth_append)

text \<open>The downloads always return; of the scan table only the letters of a country code change.\<close>

definition same_net :: "BSSDescriptor \<Rightarrow> BSSDescriptor \<Rightarrow> bool" where
  "same_net d d' \<longleftrightarrow> (\<exists>c. d' = d\<lparr>WlanBss.CountryInfo := c\<rparr>)"

lemma same_net_refl: "same_net d d"
  unfolding same_net_def by (rule exI [of _ "WlanBss.CountryInfo d"]) simp

lemma dnld_any:
  assumes "join_ok s" and "idx < MRVDRV_MAX_BSSID_LIST"
  shows "\<exists>r a tab. dnld_countryinfo env1 env2 idx s = Some (r, s\<lparr>j_11d := a, j_scan := (j_scan s)\<lparr>ScanTable := tab\<rparr>\<rparr>) \<and>
    same_11d (j_11d s) a \<and> tab_ok ((j_scan s)\<lparr>ScanTable := tab\<rparr>) \<and> list_all2 same_net (ScanTable (j_scan s)) tab \<and>
    (accepted env1 \<and> accepted env2 \<and> find_band 0 (region_channel (j_11d s)) \<noteq> None \<longrightarrow> r = 0)"
proof -
  let ?T = "ScanTable (j_scan s)" and ?d = "ScanTable (j_scan s) ! idx"
  have t: "tab_ok (j_scan s)" "reg_ok (j_11d s)" using assms(1) by (auto simp: join_ok_def)
  have d: "mem_get ?T idx = Some ?d" "net_ok ?d" "idx < length ?T" using tab_entry [OF t(1) assms(2)] t(1) assms(2) by (auto simp: tab_ok_def)
  have same: "list_all2 same_net ?T ?T"
    by (rule list_all2_refl) (rule same_net_refl)
  obtain r1 a1 where a1: "wlan_create_dnld_countryinfo_11d env1 0 (j_11d s) = Some (r1, a1)" "same_11d (j_11d s) a1"
    "accepted env1 \<and> find_band 0 (region_channel (j_11d s)) \<noteq> None \<longrightarrow> r1 = 0"
    using create_dnld_any [OF t(2)] by blast
  let ?a1 = "a1\<lparr>Wlan11d.CountryInfo := country_of (WlanBss.CountryInfo ?d)\<rparr>"
  have ci: "ci_ok (Wlan11d.CountryInfo ?a1)" using d(2) by (auto simp: net_ok_def wf_bss_def intro: country_ok)
  obtain r2 a2 where a2: "wlan_parse_dnld_countryinfo_11d env2 ?a1 = Some (r2, a2)" "same_11d ?a1 a2" "ci_ok (Wlan11d.CountryInfo a2)"
    "accepted env2 \<longrightarrow> r2 = 0"
    using parse_dnld_any [OF ci] by blast
  let ?d' = "?d\<lparr>WlanBss.CountryInfo := country_back (Wlan11d.CountryInfo a2) (WlanBss.CountryInfo ?d)\<rparr>"
  have n: "net_ok ?d'" using country_net_ok [OF d(2)] a2(3) by (simp add: ci_ok_def)
  have s2: "list_all2 same_net ?T (?T[idx := ?d'])"
  proof -
    have "same_net ?d ?d'" unfolding same_net_def by blast
    then show ?thesis using d(3) same_net_refl by (simp add: list_all2_conv_all_nth nth_list_update)
  qed
  show ?thesis
  proof (cases "r1 = 0")
    case True
    let ?r = "if r2 \<noteq> 0 then - 1 else 0 :: int"
    have "dnld_countryinfo env1 env2 idx s = Some (?r, s\<lparr>j_11d := a2, j_scan := (j_scan s)\<lparr>ScanTable := ?T[idx := ?d']\<rparr>\<rparr>)"
      using True a1(1) a2(1) d(1,3) by (simp add: dnld_countryinfo_def mem_put_def)
    moreover have "same_11d (j_11d s) a2" using a1(2) a2(2) by (simp add: same_11d_def)
    moreover have "accepted env2 \<longrightarrow> ?r = 0" using a2(4) by simp
    ultimately show ?thesis using s2 tab_put [OF t(1) n, of idx] by blast
  next
    case False
    then have "dnld_countryinfo env1 env2 idx s = Some (- 1, s\<lparr>j_11d := a1, j_scan := (j_scan s)\<lparr>ScanTable := ?T\<rparr>\<rparr>)"
      using a1(1) by (simp add: dnld_countryinfo_def)
    moreover have "tab_ok ((j_scan s)\<lparr>ScanTable := ?T\<rparr>)" using t(1) by simp
    ultimately show ?thesis using a1(2,3) same False by blast
  qed
qed

section \<open>The bytes of the command\<close>

definition rsn_wanted :: "joindev \<Rightarrow> bool" where
  "rsn_wanted s \<longleftrightarrow> \<not> SessionEnable (j_cfg s) \<and> (WPAEnabled (j_cfg s) \<or> WPA2Enabled (j_cfg s))"

definition rsn_fits :: "joindev \<Rightarrow> bool" where
  "rsn_fits s \<longleftrightarrow> rsn_wanted s \<longrightarrow> unat (Wpa_ie s ! 1) \<le> 254"

definition rsn_tlvs :: "joindev \<Rightarrow> tlv list" where
  "rsn_tlvs s = (if rsn_wanted s then [(ucast (Wpa_ie s ! 0), take (unat (Wpa_ie s ! 1)) (drop 2 (Wpa_ie s)))] else [])"

definition wmm_tlvs :: "joindev \<Rightarrow> BSSDescriptor \<Rightarrow> tlv list" where
  "wmm_tlvs s d =
     (if required (wmm (j_wlan s)) \<and> bss_wmmIE d ! 0 = VENDOR_SPECIFIC_221 then
        [(221, [0, 0x50, 0xf2, 2, 0, 1,
           if QosUAPSD (bss_wmmIE d) \<and> qosinfo (wmm (j_wlan s)) AND 0x0f \<noteq> 0 then qosinfo (wmm (j_wlan s)) else 0])]
      else [])"

definition generic_tlvs :: "joindev \<Rightarrow> tlv list" where
  "generic_tlvs s = (if genIeBufferLen s = 0 then [] else [(TLV_TYPE_PASSTHROUGH, take (unat (genIeBufferLen s)) (genIeBuffer s))])"

definition marvell_bytes :: "joindev \<Rightarrow> u8 list" where
  "marvell_bytes s = take (unat (mrvlAssocTlvBufferLen s)) (mrvlAssocTlvBuffer s)"

definition tsf_tlv :: "BSSDescriptor \<Rightarrow> tlv" where
  "tsf_tlv d = (TLV_TYPE_TSFTIMESTAMP, networkTSF d @ TimeStamp d)"

definition head_tlvs :: "BSSDescriptor \<Rightarrow> tlv list" where
  "head_tlvs d = [(TLV_TYPE_SSID, net_name d), (TLV_TYPE_PHY_DS, [PhyParamSet d ! 2]), (TLV_TYPE_CF, replicate 6 0)]"

definition assoc_tlvs :: "joindev \<Rightarrow> BSSDescriptor \<Rightarrow> tlv list" where
  "assoc_tlvs s d = head_tlvs d @ [(TLV_TYPE_RATES, net_rates d), (TLV_TYPE_AUTH_TYPE, le16_of (AuthenticationMode s))] @
     rsn_tlvs s @ wmm_tlvs s d @ generic_tlvs s"

definition assoc_body :: "joindev \<Rightarrow> BSSDescriptor \<Rightarrow> u8 list \<Rightarrow> u8 list" where
  "assoc_body s d cap = MacAddress d @ cap @ le16_of (ListenInterval s) @ [0, 0, 0] @ tlvs_bytes (assoc_tlvs s d) @ marvell_bytes s @ tlv_bytes (tsf_tlv d)"

lemma length_le16_of [simp]: "length (le16_of w) = 2"
  by (simp add: le16_of_def)

lemma net_name_len: "net_ok d \<Longrightarrow> length (net_name d) = unat (SsidLength d) \<and> length (net_name d) \<le> 32"
  by (simp add: net_name_def net_ok_def wf_bss_def)

lemma part_sizes:
  assumes "net_ok d"
  shows "length (tlvs_bytes (head_tlvs d)) \<le> 51 \<and> length (tlvs_bytes (rsn_tlvs s)) \<le> 259 \<and> length (tlvs_bytes (wmm_tlvs s d)) \<le> 11 \<and>
    length (tlvs_bytes (generic_tlvs s)) \<le> 259 \<and> length (marvell_bytes s) \<le> 255 \<and> length (tlv_bytes (tsf_tlv d)) = 20"
proof (intro conjI)
  have u: "unat (x :: u8) \<le> 255" for x using unat_u8_less [of x] by simp
  show "length (tlvs_bytes (head_tlvs d)) \<le> 51" using net_name_len [OF assms] by (simp add: head_tlvs_def)
  show "length (tlvs_bytes (rsn_tlvs s)) \<le> 259" using u [of "Wpa_ie s ! 1"] by (simp add: rsn_tlvs_def min_def)
  show "length (tlvs_bytes (wmm_tlvs s d)) \<le> 11" by (simp add: wmm_tlvs_def)
  show "length (tlvs_bytes (generic_tlvs s)) \<le> 259" using u [of "genIeBufferLen s"] by (simp add: generic_tlvs_def min_def)
  show "length (marvell_bytes s) \<le> 255" using u [of "mrvlAssocTlvBufferLen s"] by (simp add: marvell_bytes_def min_def)
  show "length (tlv_bytes (tsf_tlv d)) = 20" using assms by (simp add: tsf_tlv_def net_ok_def)
qed

abbreviation assoc_fixed :: "joindev \<Rightarrow> BSSDescriptor \<Rightarrow> u8 list" where
  "assoc_fixed s d \<equiv> MacAddress d @ [0, 0] @ le16_of (ListenInterval s) @ [0, 0, 0]"

lemma assoc_head_eq:
  assumes "net_ok d"
  shows "assoc_head d s (replicate 2040 0) = Some (at_end 2040 (assoc_fixed s d @ tlvs_bytes (head_tlvs d)))"
proof -
  have n: "length (MacAddress d) = 6" "length (PhyParamSet d) = 7" "length (Ssid d) = 32" "unat (SsidLength d) \<le> 32"
    using assms by (simp_all add: net_ok_def wf_bss_def)
  have l: "unat (ucast (SsidLength d) :: u16) = unat (SsidLength d)" using n(4) by (simp add: unsigned_ucast_eq take_bit_nat_eq_self)
  have c: "mem_copy (replicate 2040 0) 0 (MacAddress d) = Some (pad 2040 (MacAddress d))"
    "mem_copy (pad 2040 (MacAddress d)) 8 (le16_of (ListenInterval s)) = Some (pad 2040 (assoc_fixed s d))"
    using n(1) by (simp_all add: mem_copy_def pad_def le16_of_def numeral_eq_Suc)
  have s: "mem_sub (Ssid d) 0 (unat (SsidLength d)) = Some (net_name d)" "mem_sub (PhyParamSet d) 2 (Suc 0) = Some [PhyParamSet d ! 2]"
    using n by (simp_all add: mem_sub_def net_name_def take_Suc_conv_app_nth hd_drop_conv_nth)
  let ?f = "assoc_fixed s d" and ?a = "tlv_bytes (TLV_TYPE_SSID, net_name d)" and ?b = "tlv_bytes (TLV_TYPE_PHY_DS, [PhyParamSet d ! 2])"
  have f: "length ?f = 13" "length (net_name d) \<le> 32" using n(1) net_name_len [OF assms] by simp_all
  have "put_tlv TLV_TYPE_SSID (net_name d) (pad 2040 ?f, 13) = Some (at_end 2040 (?f @ ?a))"
    using put_tlv_pad [of ?f "net_name d" 2040 TLV_TYPE_SSID] f by simp
  moreover have "put_tlv TLV_TYPE_PHY_DS [PhyParamSet d ! 2] (at_end 2040 (?f @ ?a)) = Some (at_end 2040 ((?f @ ?a) @ ?b))"
    by (rule put_tlv_pad) (use f in simp)
  moreover have "put_bytes (tlv_header TLV_TYPE_CF 6) (at_end 2040 ((?f @ ?a) @ ?b)) = Some (at_end 2040 (((?f @ ?a) @ ?b) @ tlv_header TLV_TYPE_CF 6))"
    by (rule put_bytes_pad) (use f in simp)
  moreover have "pad 2040 (((?f @ ?a) @ ?b) @ tlv_header TLV_TYPE_CF 6) = pad 2040 (?f @ tlvs_bytes (head_tlvs d))"
    using pad_zeros [of "((?f @ ?a) @ ?b) @ tlv_header TLV_TYPE_CF 6" 6 2040] f by (simp add: head_tlvs_def tlv_bytes_def)
  ultimately show ?thesis
    unfolding assoc_head_def by (simp add: c l s head_tlvs_def)
qed

lemma assoc_rsn_eq:
  assumes "length (Wpa_ie s) = 256" and "length pre + 258 \<le> n"
  shows "assoc_rsn s (at_end n pre) = Some (if rsn_fits s then Some (at_end n (pre @ tlvs_bytes (rsn_tlvs s))) else None)"
proof (cases "rsn_wanted s")
  case True
  let ?b = "take (unat (Wpa_ie s ! 1)) (drop 2 (Wpa_ie s))"
  have g: "mem_get (Wpa_ie s) 0 = Some (Wpa_ie s ! 0)" "mem_get (Wpa_ie s) 1 = Some (Wpa_ie s ! 1)" using assms(1) by (simp_all add: mem_get_def)
  show ?thesis
  proof (cases "unat (Wpa_ie s ! 1) \<le> 254")
    case fits: True
    have m: "mem_sub (Wpa_ie s) 2 (unat (Wpa_ie s ! 1)) = Some ?b" using fits assms(1) by (simp add: mem_sub_def)
    have "put_tlv (ucast (Wpa_ie s ! 0)) ?b (at_end n pre) = Some (at_end n (pre @ tlv_bytes (ucast (Wpa_ie s ! 0), ?b)))"
      by (rule put_tlv_pad) (use fits assms in simp)
    with True fits m g assms(1) show ?thesis
      unfolding assoc_rsn_def rsn_wanted_def rsn_fits_def rsn_tlvs_def by simp
  qed (use True g assms(1) in \<open>simp add: assoc_rsn_def rsn_wanted_def rsn_fits_def\<close>)
next
  case False
  then have "assoc_rsn s (at_end n pre) = Some (Some (at_end n pre))" unfolding assoc_rsn_def rsn_wanted_def by (simp only: if_False)
  then show ?thesis using False by (simp add: rsn_fits_def rsn_tlvs_def)
qed

lemma wmm_req_eq:
  assumes "length pre + 11 \<le> n"
  shows "wlan_wmm_process_association_req s (bss_wmmIE d) (at_end n pre) = Some (at_end n (pre @ tlvs_bytes (wmm_tlvs s d)))"
proof -
  have "put_tlv 221 [0, 0x50, 0xf2, 2, 0, 1, x] (at_end n pre) = Some (at_end n (pre @ tlv_bytes (221, [0, 0x50, 0xf2, 2, 0, 1, x])))" for x
    by (rule put_tlv_pad) (use assms in simp)
  then show ?thesis
    by (simp add: wlan_wmm_process_association_req_def wmm_tlvs_def wmm_info_ie_def VENDOR_SPECIFIC_221_def QOS_INFO_PARA_MASK_def Let_def)
qed

lemma generic_eq:
  assumes "length (genIeBuffer s) = 256" and "length pre + 259 \<le> n"
  shows "wlan_cmd_append_generic_ie s (at_end n pre) = Some (s\<lparr>genIeBufferLen := 0\<rparr>, at_end n (pre @ tlvs_bytes (generic_tlvs s)))"
proof -
  let ?b = "take (unat (genIeBufferLen s)) (genIeBuffer s)"
  have u: "unat (genIeBufferLen s) < 256" by (rule unat_u8_less)
  have "put_tlv TLV_TYPE_PASSTHROUGH ?b (at_end n pre) = Some (at_end n (pre @ tlv_bytes (TLV_TYPE_PASSTHROUGH, ?b)))"
    by (rule put_tlv_pad) (use assms u in \<open>simp add: min_def\<close>)
  moreover have "genIeBufferLen s = 0 \<Longrightarrow> s\<lparr>genIeBufferLen := 0\<rparr> = s" by simp
  ultimately show ?thesis using u assms(1) by (simp add: wlan_cmd_append_generic_ie_def generic_tlvs_def mem_sub_def)
qed

lemma marvell_eq:
  assumes "length (mrvlAssocTlvBuffer s) = 256" and "length pre + 255 \<le> n"
  shows "wlan_cmd_append_marvell_tlv s (at_end n pre) = Some (s\<lparr>mrvlAssocTlvBufferLen := 0\<rparr>, at_end n (pre @ marvell_bytes s))"
proof -
  have u: "unat (mrvlAssocTlvBufferLen s) < 256" by (rule unat_u8_less)
  have "put_bytes (marvell_bytes s) (at_end n pre) = Some (at_end n (pre @ marvell_bytes s))"
    by (rule put_bytes_pad) (use assms u in \<open>simp add: marvell_bytes_def min_def\<close>)
  moreover have "mrvlAssocTlvBufferLen s = 0 \<Longrightarrow> s\<lparr>mrvlAssocTlvBufferLen := 0\<rparr> = s" by simp
  moreover have "mrvlAssocTlvBufferLen s = 0 \<Longrightarrow> marvell_bytes s = []" by (simp add: marvell_bytes_def)
  ultimately show ?thesis using u assms(1) by (simp add: wlan_cmd_append_marvell_tlv_def mem_sub_def marvell_bytes_def)
qed

lemma tsf_eq:
  assumes "net_ok d" and "length pre + 20 \<le> n"
  shows "wlan_cmd_append_tsf_tlv d (at_end n pre) = Some (at_end n (pre @ tlv_bytes (tsf_tlv d)))"
proof -
  let ?h = "tlv_header TLV_TYPE_TSFTIMESTAMP 16"
  have l: "length (networkTSF d) = 8" "length (TimeStamp d) = 8" using assms(1) by (simp_all add: net_ok_def)
  have "put_bytes ?h (at_end n pre) = Some (at_end n (pre @ ?h))" by (rule put_bytes_pad) (use assms(2) in simp)
  moreover have "put_bytes (networkTSF d) (at_end n (pre @ ?h)) = Some (at_end n ((pre @ ?h) @ networkTSF d))"
    by (rule put_bytes_pad) (use assms(2) l in simp)
  moreover have "put_bytes (TimeStamp d) (at_end n ((pre @ ?h) @ networkTSF d)) = Some (at_end n (((pre @ ?h) @ networkTSF d) @ TimeStamp d))"
    by (rule put_bytes_pad) (use assms(2) l in simp)
  ultimately show ?thesis using l by (simp add: wlan_cmd_append_tsf_tlv_def tsf_tlv_def tlv_bytes_def)
qed

lemma assoc_appends_eq:
  assumes "length (genIeBuffer s) = 256" "length (mrvlAssocTlvBuffer s) = 256" "net_ok d" and "length pre + 545 \<le> n"
  shows "assoc_appends d s (at_end n pre) = Some (s\<lparr>genIeBufferLen := 0, mrvlAssocTlvBufferLen := 0\<rparr>,
    at_end n (pre @ tlvs_bytes (wmm_tlvs s d @ generic_tlvs s) @ marvell_bytes s @ tlv_bytes (tsf_tlv d)))"
proof -
  let ?w = "pre @ tlvs_bytes (wmm_tlvs s d)" and ?s = "s\<lparr>genIeBufferLen := 0\<rparr>"
  let ?g = "?w @ tlvs_bytes (generic_tlvs s)"
  note z = part_sizes [OF assms(3), of s]
  have w: "wlan_wmm_process_association_req s (bss_wmmIE d) (at_end n pre) = Some (at_end n ?w)" by (rule wmm_req_eq) (use assms(4) in simp)
  have g: "wlan_cmd_append_generic_ie s (at_end n ?w) = Some (?s, at_end n ?g)" by (rule generic_eq) (use assms(1,4) z in simp_all)
  have m: "wlan_cmd_append_marvell_tlv ?s (at_end n ?g) = Some (?s\<lparr>mrvlAssocTlvBufferLen := 0\<rparr>, at_end n (?g @ marvell_bytes ?s))"
    by (rule marvell_eq) (use assms(2,4) z in simp_all)
  have t: "wlan_cmd_append_tsf_tlv d (at_end n (?g @ marvell_bytes ?s)) = Some (at_end n ((?g @ marvell_bytes ?s) @ tlv_bytes (tsf_tlv d)))"
    by (rule tsf_eq) (use assms(3,4) z in \<open>simp_all add: marvell_bytes_def\<close>)
  show ?thesis unfolding assoc_appends_def
    by (simp only: w g m t Option.bind.bind_lunit prod.case) (simp add: marvell_bytes_def)
qed

text \<open>The preparation of the command up to the download of the domain tables.\<close>

definition assoc_cmd :: "joindev \<Rightarrow> BSSDescriptor \<Rightarrow> HostCmd \<Rightarrow> HostCmd" where
  "assoc_cmd s d cmd = cmd\<lparr>WlanCmd.c_Command := HostCmd_CMD_802_11_ASSOCIATE,
     c_params := pad 2040 (assoc_body s d (le16_of (Cap d AND CAPINFO_MASK))),
     WlanCmd.c_Size := of_nat (length (assoc_body s d (le16_of (Cap d AND CAPINFO_MASK)))) + 8\<rparr>"

definition assoc_possible :: "assoc_env \<Rightarrow> joindev \<Rightarrow> BSSDescriptor \<Rightarrow> bool" where
  "assoc_possible e s d \<longleftrightarrow> e_kmalloc1 e \<and> rate_allowed s d \<and> rsn_fits s"

definition assoc_start :: "nat \<Rightarrow> joindev \<Rightarrow> joindev" where
  "assoc_start idx s = s\<lparr>pAttemptedBSSDesc := Some idx, genIeBufferLen := 0, mrvlAssocTlvBufferLen := 0\<rparr>"

lemma body_split:
  "assoc_body s d [0, 0] = (assoc_fixed s d @ tlvs_bytes (head_tlvs d) @ tlv_bytes (TLV_TYPE_RATES, net_rates d) @
     tlv_bytes (TLV_TYPE_AUTH_TYPE, le16_of (AuthenticationMode s)) @ tlvs_bytes (rsn_tlvs s)) @
     tlvs_bytes (wmm_tlvs s d @ generic_tlvs s) @ marvell_bytes s @ tlv_bytes (tsf_tlv d)"
  by (simp add: assoc_body_def assoc_tlvs_def)

lemma length_body: "net_ok d \<Longrightarrow> length c = 2 \<Longrightarrow> length (assoc_body s d c) \<le> 890"
  using part_sizes [of d s] length_net_rates [of d] by (simp add: assoc_body_def assoc_tlvs_def net_ok_def)

lemma put_cap:
  assumes "net_ok d" and "length c = 2"
  shows "mem_copy (pad 2040 (assoc_body s d [0, 0])) 6 c = Some (pad 2040 (assoc_body s d c))"
proof -
  have m: "length (MacAddress d) = 6" using assms(1) by (simp add: net_ok_def)
  have "length (assoc_body s d [0, 0]) = length (assoc_body s d c)" using assms(2) by (simp add: assoc_body_def)
  moreover have "length (assoc_body s d c) \<le> 890" using length_body assms by blast
  ultimately show ?thesis using m assms(2) by (simp add: mem_copy_def pad_def assoc_body_def)
qed

abbreviation attempt :: "nat \<Rightarrow> joindev \<Rightarrow> joindev" where
  "attempt idx s \<equiv> s\<lparr>pAttemptedBSSDesc := Some idx\<rparr>"

lemma attempt_same:
  "rate_allowed (attempt idx s) d = rate_allowed s d" "rsn_fits (attempt idx s) = rsn_fits s" "rsn_tlvs (attempt idx s) = rsn_tlvs s"
  "wmm_tlvs (attempt idx s) d = wmm_tlvs s d" "generic_tlvs (attempt idx s) = generic_tlvs s" "marvell_bytes (attempt idx s) = marvell_bytes s"
  "assoc_body (attempt idx s) d c = assoc_body s d c"
  by (simp_all add: rate_allowed_def rsn_fits_def rsn_wanted_def rsn_tlvs_def wmm_tlvs_def generic_tlvs_def marvell_bytes_def
      assoc_body_def assoc_tlvs_def)

lemma assoc_cmd_eq:
  assumes "join_ok s" and "idx < MRVDRV_MAX_BSSID_LIST" and "d = ScanTable (j_scan s) ! idx" and "c_params cmd = replicate 2040 0"
    and "rates_end (SupportedRates d) (rates_of card_rates)" and "assoc_possible e s d"
  shows "\<exists>c. wlan_cmd_802_11_associate e idx s cmd =
    do { (ret, s') \<leftarrow> dnld_countryinfo (e_dom1 e) (e_dom2 e) idx (assoc_start idx s);
         if ret \<noteq> 0 then Some (- 1, s', c) else Some (0, s', assoc_cmd s d cmd) }"
proof -
  let ?s = "attempt idx s" and ?cmd = "cmd\<lparr>WlanCmd.c_Command := HostCmd_CMD_802_11_ASSOCIATE\<rparr>"
  have d: "mem_get (ScanTable (j_scan s)) idx = Some d" "net_ok d" using tab_entry [of "j_scan s" idx] assms(1-3) by (auto simp: join_ok_def)
  have len: "length (Wpa_ie ?s) = 256" "length (genIeBuffer ?s) = 256" "length (mrvlAssocTlvBuffer ?s) = 256" using assms(1) by (simp_all add: join_ok_def)
  have sr: "length (SupportedRates d) = 14" using d(2) by (simp add: net_ok_def wf_bss_def)
  note z = part_sizes [OF d(2), of s]
  let ?h = "assoc_fixed ?s d @ tlvs_bytes (head_tlvs d)"
  let ?r = "?h @ tlv_bytes (TLV_TYPE_RATES, net_rates d)" and ?au = "le16_of (AuthenticationMode s)"
  let ?a = "?r @ tlv_bytes (TLV_TYPE_AUTH_TYPE, ?au)"
  let ?q = "?a @ tlvs_bytes (rsn_tlvs ?s)"
  have hl: "length ?h \<le> 64" "length (net_rates d) \<le> 12" using z d(2) length_net_rates [of d] by (simp_all add: net_ok_def)
  have h: "assoc_head d ?s (c_params ?cmd) = Some (at_end 2040 ?h)" using assoc_head_eq [OF d(2), of ?s] assms(4) by simp
  have rates: "setup_rates_from_bssdesc (e_kmalloc1 e) d ?s = Some (0, net_rates d @ replicate (14 - length (net_rates d)) 0, length (net_rates d))"
    using setup_rates_eq [OF sr assms(5), of "e_kmalloc1 e" ?s] assms(6) by (simp add: assoc_possible_def attempt_same)
  have ms: "mem_sub (net_rates d @ replicate (14 - length (net_rates d)) 0) 0 (length (net_rates d)) = Some (net_rates d)"
    by (simp add: mem_sub_def)
  have r: "put_tlv TLV_TYPE_RATES (net_rates d) (at_end 2040 ?h) = Some (at_end 2040 ?r)" by (rule put_tlv_pad) (use hl in linarith)
  have a: "put_tlv TLV_TYPE_AUTH_TYPE (le16_of (AuthenticationMode ?s)) (at_end 2040 ?r) = Some (at_end 2040 ?a)"
    using put_tlv_pad [of ?r ?au 2040 TLV_TYPE_AUTH_TYPE] hl by simp
  have q: "assoc_rsn ?s (at_end 2040 ?a) = Some (Some (at_end 2040 ?q))"
    using assoc_rsn_eq [OF len(1), of ?a 2040] hl assms(6) by (simp add: assoc_possible_def attempt_same)
  have ap: "assoc_appends d ?s (at_end 2040 ?q) = Some (assoc_start idx s, at_end 2040 (assoc_body s d [0, 0]))"
    using assoc_appends_eq [OF len(2,3) d(2), of ?q 2040] hl z by (simp add: attempt_same body_split assoc_start_def)
  have cap: "mem_copy (pad 2040 (assoc_body s d [0, 0])) 6 (le16_of (Cap d AND CAPINFO_MASK)) =
    Some (pad 2040 (assoc_body s d (le16_of (Cap d AND CAPINFO_MASK))))"
    by (rule put_cap [OF d(2)]) simp
  have lb: "length (assoc_body s d [0, 0]) = length (assoc_body s d (le16_of (Cap d AND CAPINFO_MASK)))" by (simp add: assoc_body_def)
  have "wlan_cmd_802_11_associate e idx s cmd =
    do { (ret, s') \<leftarrow> dnld_countryinfo (e_dom1 e) (e_dom2 e) idx (assoc_start idx s);
         if ret \<noteq> 0 then Some (- 1, s', ?cmd\<lparr>c_params := pad 2040 (assoc_body s d [0, 0])\<rparr>) else Some (0, s', assoc_cmd s d cmd) }"
    unfolding wlan_cmd_802_11_associate_def Let_def
    by (simp only: d(1) h rates ms r a q ap Option.bind.bind_lunit prod.case option.case if_False simp_thms)
      (simp add: cap lb assoc_cmd_def cong: if_cong)
  then show ?thesis by blast
qed

lemma assoc_cmd_fails:
  assumes "join_ok s" and "idx < MRVDRV_MAX_BSSID_LIST" and "d = ScanTable (j_scan s) ! idx" and "c_params cmd = replicate 2040 0"
    and "rates_end (SupportedRates d) (rates_of card_rates)" and "\<not> assoc_possible e s d"
  shows "\<exists>c. wlan_cmd_802_11_associate e idx s cmd = Some (- 1, attempt idx s, c)"
proof -
  let ?s = "attempt idx s" and ?cmd = "cmd\<lparr>WlanCmd.c_Command := HostCmd_CMD_802_11_ASSOCIATE\<rparr>"
  have d: "mem_get (ScanTable (j_scan s)) idx = Some d" "net_ok d" using tab_entry [of "j_scan s" idx] assms(1-3) by (auto simp: join_ok_def)
  have len: "length (Wpa_ie ?s) = 256" using assms(1) by (simp_all add: join_ok_def)
  have sr: "length (SupportedRates d) = 14" using d(2) by (simp add: net_ok_def wf_bss_def)
  let ?h = "assoc_fixed ?s d @ tlvs_bytes (head_tlvs d)"
  let ?r = "?h @ tlv_bytes (TLV_TYPE_RATES, net_rates d)" and ?au = "le16_of (AuthenticationMode s)"
  let ?a = "?r @ tlv_bytes (TLV_TYPE_AUTH_TYPE, ?au)"
  have hl: "length ?h \<le> 64" "length (net_rates d) \<le> 12" using part_sizes [OF d(2), of s] d(2) length_net_rates [of d] by (simp_all add: net_ok_def)
  have h: "assoc_head d ?s (c_params ?cmd) = Some (at_end 2040 ?h)" using assoc_head_eq [OF d(2), of ?s] assms(4) by simp
  have ms: "mem_sub (net_rates d @ replicate (14 - length (net_rates d)) 0) 0 (length (net_rates d)) = Some (net_rates d)"
    by (simp add: mem_sub_def)
  have r: "put_tlv TLV_TYPE_RATES (net_rates d) (at_end 2040 ?h) = Some (at_end 2040 ?r)" by (rule put_tlv_pad) (use hl in linarith)
  have a: "put_tlv TLV_TYPE_AUTH_TYPE (le16_of (AuthenticationMode ?s)) (at_end 2040 ?r) = Some (at_end 2040 ?a)"
    using put_tlv_pad [of ?r ?au 2040 TLV_TYPE_AUTH_TYPE] hl by simp
  show ?thesis
  proof (cases "e_kmalloc1 e \<and> rate_allowed s d")
    case True
    then have rates: "setup_rates_from_bssdesc (e_kmalloc1 e) d ?s = Some (0, net_rates d @ replicate (14 - length (net_rates d)) 0, length (net_rates d))"
      using setup_rates_eq [OF sr assms(5), of "e_kmalloc1 e" ?s] by (simp add: attempt_same)
    have q: "assoc_rsn ?s (at_end 2040 ?a) = Some None"
      using assoc_rsn_eq [OF len, of ?a 2040] hl assms(6) True by (simp add: assoc_possible_def attempt_same)
    show ?thesis unfolding wlan_cmd_802_11_associate_def Let_def
      by (simp only: d(1) h rates ms r a q Option.bind.bind_lunit prod.case option.case if_False simp_thms) blast
  next
    case False
    then obtain x where rates: "setup_rates_from_bssdesc (e_kmalloc1 e) d ?s = Some (- 1, x, 0)"
      using setup_rates_eq [OF sr assms(5), of "e_kmalloc1 e" ?s] by (auto simp: attempt_same Let_def split: if_splits)
    show ?thesis unfolding wlan_cmd_802_11_associate_def Let_def
      by (simp only: d(1) h rates Option.bind.bind_lunit prod.case) simp
  qed
qed

text \<open>Without memory for its work the search for common rates is not begun; with it, a network whose rates do not end makes it
  leave the array.\<close>

lemma assoc_cmd_rates:
  assumes "join_ok s" and "idx < MRVDRV_MAX_BSSID_LIST" and "d = ScanTable (j_scan s) ! idx" and "c_params cmd = replicate 2040 0"
  shows "\<not> e_kmalloc1 e \<Longrightarrow> \<exists>c. wlan_cmd_802_11_associate e idx s cmd = Some (- 1, attempt idx s, c)"
    and "e_kmalloc1 e \<Longrightarrow> \<not> rates_end (SupportedRates d) (rates_of card_rates) \<Longrightarrow> wlan_cmd_802_11_associate e idx s cmd = None"
proof -
  have d: "mem_get (ScanTable (j_scan s)) idx = Some d" "net_ok d" using tab_entry [of "j_scan s" idx] assms(1-3) by (auto simp: join_ok_def)
  have l: "length (SupportedRates d) = 14" using d(2) by (simp add: net_ok_def wf_bss_def)
  note h = assoc_head_eq [OF d(2), of "attempt idx s"]
  have "setup_rates_from_bssdesc False d (attempt idx s) = Some (- 1, SupportedRates d, 0)"
    by (simp add: setup_rates_from_bssdesc_def get_common_rates_def mem_sub_def l WLAN_SUPPORTED_RATES_def ENOMEM_def)
  then show "\<not> e_kmalloc1 e \<Longrightarrow> \<exists>c. wlan_cmd_802_11_associate e idx s cmd = Some (- 1, attempt idx s, c)"
    using h d(1) assms(4) by (simp add: wlan_cmd_802_11_associate_def Let_def)
  show "wlan_cmd_802_11_associate e idx s cmd = None" if "e_kmalloc1 e" "\<not> rates_end (SupportedRates d) (rates_of card_rates)"
    using h d(1) assms(4) setup_rates_overread [OF l that(2)] that(1) by (simp add: wlan_cmd_802_11_associate_def Let_def)
qed

section \<open>Steps keep states well-formed\<close>

lemma join_ok_start: "join_ok s \<Longrightarrow> join_ok (assoc_start idx s)" "join_ok s \<Longrightarrow> join_ok (attempt idx s)"
  by (simp_all add: join_ok_def assoc_start_def)

text \<open>The state after the downloads: only the regulatory state and country codes differ.\<close>

definition downloaded :: "joindev \<Rightarrow> joindev \<Rightarrow> bool" where
  "downloaded s s' \<longleftrightarrow> (\<exists>a tab. s' = s\<lparr>j_11d := a, j_scan := (j_scan s)\<lparr>ScanTable := tab\<rparr>\<rparr> \<and> list_all2 same_net (ScanTable (j_scan s)) tab)"

lemma dnld_spec:
  assumes "join_ok s" and "idx < MRVDRV_MAX_BSSID_LIST"
  shows "\<exists>r s'. dnld_countryinfo env1 env2 idx s = Some (r, s') \<and> join_ok s' \<and> downloaded s s' \<and>
    (accepted env1 \<and> accepted env2 \<and> find_band 0 (region_channel (j_11d s)) \<noteq> None \<longrightarrow> r = 0)"
proof -
  obtain r a tab where d: "dnld_countryinfo env1 env2 idx s = Some (r, s\<lparr>j_11d := a, j_scan := (j_scan s)\<lparr>ScanTable := tab\<rparr>\<rparr>)"
    "same_11d (j_11d s) a" "tab_ok ((j_scan s)\<lparr>ScanTable := tab\<rparr>)" "list_all2 same_net (ScanTable (j_scan s)) tab"
    "accepted env1 \<and> accepted env2 \<and> find_band 0 (region_channel (j_11d s)) \<noteq> None \<longrightarrow> r = 0"
    using dnld_any [OF assms] by blast
  have "join_ok (s\<lparr>j_11d := a, j_scan := (j_scan s)\<lparr>ScanTable := tab\<rparr>\<rparr>)"
    using assms(1) d(2,3) reg_ok_same [OF d(2)] by (simp add: join_ok_def same_11d_def)
  with d show ?thesis unfolding downloaded_def by blast
qed

lemma same_netD: "same_net d d' \<Longrightarrow> SupportedRates d' = SupportedRates d \<and> MacAddress d' = MacAddress d \<and> bss_wmmIE d' = bss_wmmIE d \<and>
    PhyParamSet d' = PhyParamSet d \<and> net_name d' = net_name d \<and> rate_allowed s d' = rate_allowed s d"
  by (auto simp: same_net_def net_name_def rate_allowed_def)

lemma unat_u16_u32: "unat (ucast (w :: u16) :: u32) = unat w"
  using unsigned_less [of w, where ?'a = nat] by (simp add: unsigned_ucast_eq take_bit_nat_eq_self)

lemma min_u32: "unat (min (x :: u32) 500) \<le> 500" "12 \<le> x \<Longrightarrow> 4 \<le> unat (min (x - 8) 500)"
proof -
  show "unat (min x 500) \<le> 500" by (simp add: min_def word_le_nat_alt)
  assume x: "12 \<le> x"
  then have "unat (x - 8) = unat x - unat (8 :: u32)" by (intro unat_sub) (simp add: word_le_nat_alt)
  with x show "4 \<le> unat (min (x - 8) 500)" by (simp add: min_def word_le_nat_alt, linarith)
qed

lemma save_response_eq:
  assumes "length (assocRspBuffer s) = MRVDRV_ASSOC_RSP_BUF_SIZE" and "length (c_params resp) = 2040"
  shows "\<exists>n buf. save_response resp s = Some (s\<lparr>assocRspSize := n, assocRspBuffer := buf\<rparr>) \<and> length buf = 500 \<and> n \<le> 500 \<and>
    (12 \<le> unat (WlanCmd.c_Size resp) \<longrightarrow> StatusCode buf = StatusCode (c_params resp))"
proof -
  let ?n = "min (ucast (WlanCmd.c_Size resp) - 8 :: u32) 500"
  let ?buf = "take (unat ?n) (c_params resp) @ drop (unat ?n) (assocRspBuffer s)"
  have n: "unat ?n \<le> 500" by (rule min_u32)
  then have "save_response resp s = Some (s\<lparr>assocRspSize := ?n, assocRspBuffer := ?buf\<rparr>)"
    using assms by (simp add: save_response_def mem_sub_def mem_copy_def MRVDRV_ASSOC_RSP_BUF_SIZE_def Let_def)
  moreover have "length ?buf = 500" using assms n by (simp add: MRVDRV_ASSOC_RSP_BUF_SIZE_def)
  moreover have "?n \<le> 500" by simp
  moreover have "StatusCode ?buf = StatusCode (c_params resp)" if "12 \<le> unat (WlanCmd.c_Size resp)"
  proof -
    have "4 \<le> unat ?n" by (rule min_u32(2)) (use that in \<open>simp add: word_le_nat_alt unat_u16_u32\<close>)
    then show ?thesis using assms(2) n by (simp add: StatusCode_def nth_append)
  qed
  ultimately show ?thesis by blast
qed

lemma length_le64_of [simp]: "length (le64_of w) = 8"
  by (simp add: le64_of_def)

lemma tsf_tab_ok:
  assumes "tab_ok s"
  shows "tab_ok (wlan_scan_update_tsf_timestamps d s)"
proof -
  have "net_ok x \<Longrightarrow> net_ok (add_tsf delta x)" for x delta by (simp add: net_ok_def wf_bss_def add_tsf_def)
  then show ?thesis using assms by (auto simp: tab_ok_def wlan_scan_update_tsf_timestamps_def list_all_iff Let_def dest: in_set_takeD in_set_dropD)
qed

definition joined :: "BSSDescriptor \<Rightarrow> joindev \<Rightarrow> bool" where
  "joined d s \<longleftrightarrow> connected s \<and> cur_bss s = d\<lparr>bss_Channel := ucast (PhyParamSet d ! 2)\<rparr> \<and>
     NumOfRates s = length (net_rates d) \<and> take (NumOfRates s) (cur_rates s) = net_rates d \<and>
     (enabled (wmm (j_wlan s)) \<longleftrightarrow> required (wmm (j_wlan s)) \<and> bss_wmmIE d ! 0 = VENDOR_SPECIFIC_221)"

lemma wmm_ok_views: "wmm_ok (w\<lparr>link_up := b\<rparr>) = wmm_ok w" "wmm_ok (w\<lparr>wmmIE := x\<rparr>) = wmm_ok w"
  "wmm_ok (wmm_upd (\<lambda>w. w\<lparr>enabled := b\<rparr>) w) = wmm_ok w"
  by (simp_all add: wmm_ok_def wmm_upd_def Let_def)

lemma ret_associate_refused:
  assumes "join_ok s" and "length (c_params resp) = 2040" and "StatusCode (c_params resp) \<noteq> 0"
  shows "\<exists>n buf. wlan_ret_802_11_associate ok resp s = Some (- 1, s\<lparr>assocRspSize := n, assocRspBuffer := buf\<rparr>) \<and> length buf = 500 \<and> n \<le> 500 \<and>
    (12 \<le> unat (WlanCmd.c_Size resp) \<longrightarrow> StatusCode buf = StatusCode (c_params resp))"
proof -
  have "length (assocRspBuffer s) = MRVDRV_ASSOC_RSP_BUF_SIZE" using assms(1) by (simp add: join_ok_def)
  from save_response_eq [OF this assms(2)] obtain n buf where
    "save_response resp s = Some (s\<lparr>assocRspSize := n, assocRspBuffer := buf\<rparr>)" "length buf = 500" "n \<le> 500"
    "12 \<le> unat (WlanCmd.c_Size resp) \<longrightarrow> StatusCode buf = StatusCode (c_params resp)" by blast
  moreover from this(1) have "wlan_ret_802_11_associate ok resp s = Some (- 1, s\<lparr>assocRspSize := n, assocRspBuffer := buf\<rparr>)"
    using assms(3) by (simp add: wlan_ret_802_11_associate_def)
  ultimately show ?thesis by blast
qed

lemma join_ok_rsp: "join_ok s \<Longrightarrow> length buf = 500 \<Longrightarrow> n \<le> 500 \<Longrightarrow> join_ok (s\<lparr>assocRspSize := n, assocRspBuffer := buf\<rparr>)"
  by (simp add: join_ok_def MRVDRV_ASSOC_RSP_BUF_SIZE_def)

text \<open>The state with the new network in place, before rates and queues are set up.\<close>

definition entered :: "BSSDescriptor \<Rightarrow> joindev \<Rightarrow> joindev" where
  "entered d s = set_cur_bss (d\<lparr>bss_Channel := ucast (PhyParamSet d ! 2)\<rparr>) (set_connected True s)"

lemma join_ok_entered: "join_ok s \<Longrightarrow> net_ok d \<Longrightarrow> join_ok (entered d s)"
  by (simp add: join_ok_def entered_def set_cur_bss_def set_connected_def wmm_ok_views reg_ok_def net_ok_def wf_bss_def)

definition rates_set :: "BSSDescriptor \<Rightarrow> joindev \<Rightarrow> joindev" where
  "rates_set d s = s\<lparr>NumOfRates := length (net_rates d), cur_rates := net_rates d @ drop (length (net_rates d)) (cur_rates s),
     j_scan := wlan_scan_update_tsf_timestamps d (j_scan s)\<rparr>"

definition finished :: "joindev \<Rightarrow> joindev" where
  "finished s = (let s = (if WPAEnabled (j_cfg s) \<or> WPA2Enabled (j_cfg s) then s\<lparr>j_GTK_SET := False\<rparr> else s)
     in s\<lparr>j_rx := reset_raw ((j_rx s)\<lparr>SNR_AVG := 0, NF_AVG := 0\<rparr>)\<rparr>)"

lemma join_ok_finished:
  assumes "join_ok s"
  shows "join_ok (finished (set_wmm_state d (rates_set d s)))"
  using assms length_net_rates [of d] tsf_tab_ok [of "j_scan s" d]
  by (auto simp: join_ok_def finished_def set_wmm_state_def rates_set_def jw_upd_def wmm_ok_views Let_def)
     (simp_all add: wmm_upd_def)

lemma finished_joined: "joined d (finished (set_wmm_state d (rates_set d (entered d s))))"
  by (simp add: joined_def finished_def set_wmm_state_def rates_set_def entered_def set_cur_bss_def set_connected_def jw_upd_def wmm_upd_def Let_def)

lemma finished_same:
  "assocRspBuffer (finished (set_wmm_state d (rates_set d (entered d s)))) = assocRspBuffer s"
  "j_sent (finished (set_wmm_state d (rates_set d (entered d s)))) = j_sent s"
  by (simp_all add: finished_def set_wmm_state_def rates_set_def entered_def set_cur_bss_def set_connected_def jw_upd_def Let_def)

lemma ret_associate_accepted:
  assumes "join_ok s" and "length (c_params resp) = 2040" and "StatusCode (c_params resp) = 0"
    and "pAttemptedBSSDesc s = Some i" and "i < MRVDRV_MAX_BSSID_LIST" and "d = ScanTable (j_scan s) ! i"
    and "rates_end (SupportedRates d) (rates_of card_rates)"
  shows "\<exists>n buf. length buf = 500 \<and> n \<le> 500 \<and> (12 \<le> unat (WlanCmd.c_Size resp) \<longrightarrow> StatusCode buf = 0) \<and>
    wlan_ret_802_11_associate ok resp s =
      (let s1 = entered d (s\<lparr>assocRspSize := n, assocRspBuffer := buf\<rparr>)
       in if ok \<and> rate_allowed s d then Some (0, finished (set_wmm_state d (rates_set d s1))) else Some (- 1, s1))"
proof -
  obtain n buf where b: "save_response resp s = Some (s\<lparr>assocRspSize := n, assocRspBuffer := buf\<rparr>)" "length buf = 500" "n \<le> 500"
    "12 \<le> unat (WlanCmd.c_Size resp) \<longrightarrow> StatusCode buf = 0"
  proof -
    have "length (assocRspBuffer s) = MRVDRV_ASSOC_RSP_BUF_SIZE" using assms(1) by (simp add: join_ok_def)
    from save_response_eq [OF this assms(2)] show thesis using that assms(3) by metis
  qed
  let ?s0 = "s\<lparr>assocRspSize := n, assocRspBuffer := buf\<rparr>"
  let ?s1 = "entered d ?s0"
  have d: "mem_get (ScanTable (j_scan s)) i = Some d" "net_ok d" using tab_entry [of "j_scan s" i] assms(1,5,6) by (auto simp: join_ok_def)
  then have l: "length (SupportedRates d) = 14" "mem_get (PhyParamSet d) 2 = Some (PhyParamSet d ! 2)" by (simp_all add: net_ok_def wf_bss_def mem_get_def)
  have cr: "length (cur_rates ?s1) = 14" using assms(1) by (simp add: join_ok_def entered_def set_cur_bss_def set_connected_def)
  have f: "pAttemptedBSSDesc (set_connected True ?s0) = Some i" "ScanTable (j_scan (set_connected True ?s0)) = ScanTable (j_scan s)"
    using assms(4) by (simp_all add: set_connected_def)
  have ra: "rate_allowed ?s1 d = rate_allowed s d" by (simp add: rate_allowed_def entered_def set_cur_bss_def set_connected_def)
  have e: "set_cur_bss (d\<lparr>bss_Channel := ucast (PhyParamSet d ! 2)\<rparr>) (set_connected True ?s0) = ?s1" by (simp only: entered_def)
  have run: "wlan_ret_802_11_associate ok resp s = do { (ret, rates, ratesSize) \<leftarrow> setup_rates_from_bssdesc ok d ?s1;
      if ret \<noteq> 0 then Some (- 1, ?s1)
      else do { rs \<leftarrow> mem_sub rates 0 ratesSize; cr \<leftarrow> mem_copy (cur_rates ?s1) 0 rs;
        Some (0, finished (set_wmm_state d (?s1\<lparr>NumOfRates := ratesSize, cur_rates := cr, j_scan := wlan_scan_update_tsf_timestamps d (j_scan ?s1)\<rparr>))) } }"
    unfolding wlan_ret_802_11_associate_def Let_def b(1)
    by (simp only: Option.bind.bind_lunit f d(1) l(2) assms(3) e simp_thms if_False) (simp add: finished_def Let_def cong: if_cong)
  have "mem_sub (net_rates d @ replicate (14 - length (net_rates d)) 0) 0 (length (net_rates d)) = Some (net_rates d)"
    "mem_copy (cur_rates ?s1) 0 (net_rates d) = Some (net_rates d @ drop (length (net_rates d)) (cur_rates ?s1))"
    using cr length_net_rates [of d] by (simp_all add: mem_sub_def mem_copy_def)
  then have "wlan_ret_802_11_associate ok resp s =
    (if ok \<and> rate_allowed s d then Some (0, finished (set_wmm_state d (rates_set d ?s1))) else Some (- 1, ?s1))"
    using setup_rates_eq [OF l(1) assms(7), of ok ?s1] unfolding run by (simp add: ra rates_set_def Let_def)
  with b(2-4) show ?thesis by (auto simp: Let_def)
qed

text \<open>A step that leaves the connection, the queues and the configuration as they are.\<close>

definition link_kept :: "joindev \<Rightarrow> joindev \<Rightarrow> bool" where
  "link_kept s s' \<longleftrightarrow> j_cfg s' = j_cfg s \<and> cur_bss s' = cur_bss s \<and> j_wlan s' = j_wlan s \<and> Is_DataRate_Auto s' = Is_DataRate_Auto s \<and>
     DataRate s' = DataRate s \<and> j_sent s' = j_sent s \<and> ap_events s' = ap_events s \<and> assocRspBuffer s' = assocRspBuffer s"

lemma prepare_any:
  assumes "join_ok s" and "idx < MRVDRV_MAX_BSSID_LIST" and "d = ScanTable (j_scan s) ! idx" and "c_params cmd = replicate 2040 0"
    and "rates_end (SupportedRates d) (rates_of card_rates)"
  shows "\<exists>r s' c. wlan_cmd_802_11_associate e idx s cmd = Some (r, s', c) \<and> join_ok s' \<and> link_kept s s' \<and>
    pAttemptedBSSDesc s' = Some idx \<and> same_net d (ScanTable (j_scan s') ! idx) \<and> (r = 0 \<longrightarrow> c = assoc_cmd s d cmd) \<and>
    (assoc_possible e s d \<and> accepted (e_dom1 e) \<and> accepted (e_dom2 e) \<and> find_band 0 (region_channel (j_11d s)) \<noteq> None \<longrightarrow>
      r = 0 \<and> downloaded (assoc_start idx s) s')"
proof (cases "assoc_possible e s d")
  case False
  from assms(3) have "same_net d (ScanTable (j_scan s) ! idx)" by (simp add: same_net_refl)
  with assoc_cmd_fails [OF assms False] join_ok_start(2) [OF assms(1)] False show ?thesis by (auto simp: link_kept_def)
next
  case True
  obtain r s' where d: "dnld_countryinfo (e_dom1 e) (e_dom2 e) idx (assoc_start idx s) = Some (r, s')" "join_ok s'" "downloaded (assoc_start idx s) s'"
    "accepted (e_dom1 e) \<and> accepted (e_dom2 e) \<and> find_band 0 (region_channel (j_11d (assoc_start idx s))) \<noteq> None \<longrightarrow> r = 0"
    using dnld_spec [OF join_ok_start(1) [OF assms(1)] assms(2)] by blast
  obtain a tab where s': "s' = (assoc_start idx s)\<lparr>j_11d := a, j_scan := (j_scan s)\<lparr>ScanTable := tab\<rparr>\<rparr>" "list_all2 same_net (ScanTable (j_scan s)) tab"
    using d(3) by (auto simp: downloaded_def assoc_start_def)
  have "idx < length (ScanTable (j_scan s))" using assms(1,2) by (simp add: join_ok_def tab_ok_def)
  with s'(2) assms(3) have "same_net d (tab ! idx)" by (simp add: list_all2_conv_all_nth)
  then have q: "link_kept s s' \<and> pAttemptedBSSDesc s' = Some idx \<and> same_net d (ScanTable (j_scan s') ! idx)"
    by (simp add: s'(1) link_kept_def assoc_start_def)
  obtain c where "wlan_cmd_802_11_associate e idx s cmd = (if r \<noteq> 0 then Some (- 1, s', c) else Some (0, s', assoc_cmd s d cmd))"
    using assoc_cmd_eq [OF assms True] d(1) by auto
  moreover have "region_channel (j_11d (assoc_start idx s)) = region_channel (j_11d s)" by (simp add: assoc_start_def)
  ultimately show ?thesis using q d(2-4) by (cases "r = 0") auto
qed

definition env_ok :: "assoc_env \<Rightarrow> bool" where
  "env_ok e \<longleftrightarrow> (\<forall>b. e_buf e = Some b \<longrightarrow> c_params b = replicate 2040 0) \<and> (\<forall>r. e_answer e = Some r \<longrightarrow> length (c_params r) = 2040)"

definition sent :: "HostCmd \<Rightarrow> joindev \<Rightarrow> joindev" where
  "sent c s = s\<lparr>j_sent := j_sent s @ [c]\<rparr>"

lemma join_ok_sent: "join_ok s \<Longrightarrow> join_ok (sent c s)"
  by (simp add: join_ok_def sent_def)

text \<open>The handling of the response after the command was sent.\<close>

lemma answer_any:
  assumes "join_ok s" and "length (c_params resp) = 2040" and "pAttemptedBSSDesc s = Some idx" and "idx < MRVDRV_MAX_BSSID_LIST"
    and "rates_end (SupportedRates (ScanTable (j_scan s) ! idx)) (rates_of card_rates)"
  shows "\<exists>r s'. wlan_ret_802_11_associate ok resp s = Some (r, s') \<and> join_ok s' \<and> InfrastructureMode (j_cfg s') = InfrastructureMode (j_cfg s)"
proof (cases "StatusCode (c_params resp) = 0")
  case True
  let ?d = "ScanTable (j_scan s) ! idx"
  obtain n buf where b: "length buf = 500" "n \<le> 500" "wlan_ret_802_11_associate ok resp s =
      (let s1 = entered ?d (s\<lparr>assocRspSize := n, assocRspBuffer := buf\<rparr>)
       in if ok \<and> rate_allowed s ?d then Some (0, finished (set_wmm_state ?d (rates_set ?d s1))) else Some (- 1, s1))"
    using ret_associate_accepted [OF assms(1,2) True assms(3,4) refl assms(5), of ok] by blast
  have "net_ok ?d" using tab_entry [of "j_scan s" idx] assms(1,4) by (simp add: join_ok_def)
  then have j: "join_ok (entered ?d (s\<lparr>assocRspSize := n, assocRspBuffer := buf\<rparr>))"
    using join_ok_entered join_ok_rsp [OF assms(1) b(1,2)] by blast
  have m: "InfrastructureMode (j_cfg (entered ?d (s\<lparr>assocRspSize := n, assocRspBuffer := buf\<rparr>))) = InfrastructureMode (j_cfg s)"
    "InfrastructureMode (j_cfg (finished (set_wmm_state ?d (rates_set ?d s1)))) = InfrastructureMode (j_cfg s1)" for s1
    by (simp_all add: entered_def set_cur_bss_def set_connected_def finished_def set_wmm_state_def rates_set_def jw_upd_def Let_def)
  show ?thesis using j join_ok_finished [OF j, of ?d] m unfolding b(3) Let_def by (cases "ok \<and> rate_allowed s ?d") simp_all
next
  case False
  then show ?thesis using ret_associate_refused [OF assms(1,2) False, of ok] join_ok_rsp [OF assms(1)] by fastforce
qed

lemma send_any:
  assumes "join_ok s" and "idx < MRVDRV_MAX_BSSID_LIST" and "d = ScanTable (j_scan s) ! idx"
    and "rates_end (SupportedRates d) (rates_of card_rates)" and "env_ok e"
  shows "\<exists>r s'. send_associate e idx s = Some (r, s') \<and> join_ok s' \<and> InfrastructureMode (j_cfg s') = InfrastructureMode (j_cfg s)"
proof (cases "e_buf e")
  case (Some buf)
  then have z: "c_params buf = replicate 2040 0" using assms(5) by (simp add: env_ok_def)
  obtain r s1 c where p: "wlan_cmd_802_11_associate e idx s buf = Some (r, s1, c)" "join_ok s1" "link_kept s s1"
    "pAttemptedBSSDesc s1 = Some idx" "same_net d (ScanTable (j_scan s1) ! idx)"
    using prepare_any [OF assms(1-3) z assms(4), of e] by blast
  have m: "InfrastructureMode (j_cfg s1) = InfrastructureMode (j_cfg s)" using p(3) by (simp add: link_kept_def)
  have s2: "join_ok (sent c s1)" "pAttemptedBSSDesc (sent c s1) = Some idx" "j_cfg (sent c s1) = j_cfg s1"
    using join_ok_sent [OF p(2)] p(4) by (simp_all add: sent_def)
  have re: "rates_end (SupportedRates (ScanTable (j_scan (sent c s1)) ! idx)) (rates_of card_rates)"
    using same_netD [OF p(5)] assms(4) by (simp add: sent_def)
  show ?thesis
  proof (cases "e_answer e")
    case None
    then show ?thesis using Some p(1,2) s2(1) m by (cases "r = 0") (simp_all add: send_associate_def sent_def)
  next
    case (Some resp)
    then have "length (c_params resp) = 2040" using assms(5) by (simp add: env_ok_def)
    from answer_any [OF s2(1) this s2(2) assms(2) re, of "e_kmalloc2 e"] obtain r2 s3 where
      a: "wlan_ret_802_11_associate (e_kmalloc2 e) resp (sent c s1) = Some (r2, s3)" "join_ok s3"
        "InfrastructureMode (j_cfg s3) = InfrastructureMode (j_cfg s1)" using s2(3) by auto
    show ?thesis using \<open>e_buf e = Some buf\<close> Some p(1,2) a m s2(1)
      by (cases "r = 0"; cases "c_Result resp = 0") (simp_all add: send_associate_def sent_def)
  qed
qed (use assms(1) in \<open>simp add: send_associate_def\<close>)

text \<open>The attempt leaves an array in exactly one case.\<close>

definition rates_run_out :: "assoc_env \<Rightarrow> BSSDescriptor \<Rightarrow> bool" where
  "rates_run_out e d \<longleftrightarrow> e_buf e \<noteq> None \<and> e_kmalloc1 e \<and> \<not> rates_end (SupportedRates d) (rates_of card_rates)"

lemma send_cases:
  assumes "join_ok s" and "idx < MRVDRV_MAX_BSSID_LIST" and "d = ScanTable (j_scan s) ! idx" and "env_ok e"
  shows "rates_run_out e d \<Longrightarrow> send_associate e idx s = None"
    and "\<not> rates_run_out e d \<Longrightarrow> \<exists>r s'. send_associate e idx s = Some (r, s') \<and> join_ok s'"
proof -
  have z: "c_params b = replicate 2040 0" if "e_buf e = Some b" for b using assms(4) that by (simp add: env_ok_def)
  show "send_associate e idx s = None" if "rates_run_out e d"
    using that assoc_cmd_rates(2) [OF assms(1-3) z] by (auto simp: rates_run_out_def send_associate_def)
  assume n: "\<not> rates_run_out e d"
  show "\<exists>r s'. send_associate e idx s = Some (r, s') \<and> join_ok s'"
  proof (cases "rates_end (SupportedRates d) (rates_of card_rates)")
    case True
    then show ?thesis using send_any [OF assms(1-3) True assms(4)] by blast
  next
    case False
    show ?thesis
    proof (cases "e_buf e")
      case (Some b)
      with n False have "\<not> e_kmalloc1 e" by (simp add: rates_run_out_def)
      from assoc_cmd_rates(1) [OF assms(1-3) z [OF Some] this] show ?thesis
        using Some join_ok_start(2) [OF assms(1)] by (auto simp: send_associate_def)
    qed (use assms(1) in \<open>simp add: send_associate_def\<close>)
  qed
qed

section \<open>The data path\<close>

lemma join_ok_wlan:
  assumes "join_ok s" and "wmm_ok (f (j_wlan s))" and "link_up (f (j_wlan s)) = link_up (j_wlan s)" and "wmmIE (f (j_wlan s)) = wmmIE (j_wlan s)"
  shows "join_ok (jw_upd f s)"
  using assms by (simp add: join_ok_def jw_upd_def)

lemma os_queue_ok [simp]:
  "wmm_ok (os_carrier_on w) = wmm_ok w" "wmm_ok (os_carrier_off w) = wmm_ok w" "wmm_ok (os_start_queue w) = wmm_ok w" "wmm_ok (os_stop_queue w) = wmm_ok w"
  by (simp_all add: wmm_ok_def os_carrier_on_def os_carrier_off_def os_start_queue_def os_stop_queue_def Let_def)

lemma os_queue_views [simp]:
  "link_up (os_carrier_on w) = link_up w" "link_up (os_carrier_off w) = link_up w" "link_up (os_start_queue w) = link_up w" "link_up (os_stop_queue w) = link_up w"
  "wmmIE (os_carrier_on w) = wmmIE w" "wmmIE (os_carrier_off w) = wmmIE w" "wmmIE (os_start_queue w) = wmmIE w" "wmmIE (os_stop_queue w) = wmmIE w"
  "link_up (wmm_start_queue w) = link_up w" "wmmIE (wmm_start_queue w) = wmmIE w" "link_up (wmm_stop_queue w) = link_up w" "wmmIE (wmm_stop_queue w) = wmmIE w"
  by (simp_all add: os_carrier_on_def os_carrier_off_def os_start_queue_def os_stop_queue_def wmm_start_queue_def wmm_stop_queue_def wmm_upd_def)

lemma setup_queues_views: "link_up (wmm_setup_queues w) = link_up w" "wmmIE (wmm_setup_queues w) = wmmIE w" "enabled (wmm (wmm_setup_queues w)) = enabled (wmm w)"
  by (simp_all add: wmm_setup_queues_def wmm_setup_ac_downgrade_def wmm_setup_queue_priorities_def wmm_default_queue_priorities_def wmm_upd_def Let_def)

definition flowing :: "wlan \<Rightarrow> bool" where
  "flowing w \<longleftrightarrow> carrier w \<and> \<not> netif_stopped w \<and> \<not> queueStopped (wmm w)"

lemma data_path_ok:
  assumes "join_ok s"
  shows "join_ok (assoc_data_path reassoc bssid s) \<and> j_cfg (assoc_data_path reassoc bssid s) = j_cfg s \<and> cur_bss (assoc_data_path reassoc bssid s) = cur_bss s"
proof -
  let ?q = "if enabled (wmm (j_wlan s)) then s else jw_upd wmm_setup_queues s"
  have "join_ok (jw_upd wmm_setup_queues s)"
    using assms by (intro join_ok_wlan) (simp_all add: join_ok_def setup_ok setup_queues_views)
  then have q: "join_ok ?q" "j_cfg ?q = j_cfg s" "cur_bss ?q = cur_bss s" using assms by (simp_all add: jw_upd_def)
  then have "join_ok (jw_upd (\<lambda>w. os_start_queue (os_carrier_on (wmm_start_queue w))) ?q)"
    "join_ok (jw_upd (\<lambda>w. os_stop_queue (os_carrier_off w)) ?q)"
    by (intro join_ok_wlan; simp add: join_ok_def start_queue_ok)+
  with q assms show ?thesis by (simp add: assoc_data_path_def Let_def) (simp add: jw_upd_def)
qed

text \<open>Data flows if and only if there is a connection, except that a new connection with quality of service waits for the report of
  the queues.\<close>

lemma data_path_flow:
  assumes "join_ok s" and "s' = assoc_data_path reassoc bssid s"
  shows "\<not> connected s \<Longrightarrow> \<not> carrier (j_wlan s') \<and> netif_stopped (j_wlan s')"
    and "connected s \<Longrightarrow> \<not> enabled (wmm (j_wlan s)) \<or> reassoc \<and> bssid = MacAddress (cur_bss s) \<Longrightarrow> flowing (j_wlan s')"
    and "connected s \<Longrightarrow> enabled (wmm (j_wlan s)) \<Longrightarrow> \<not> (reassoc \<and> bssid = MacAddress (cur_bss s)) \<Longrightarrow> j_wlan s' = j_wlan s"
proof -
  let ?q = "if enabled (wmm (j_wlan s)) then s else jw_upd wmm_setup_queues s"
  have u: "link_up (j_wlan ?q) = connected s" "nc_connected (j_cfg ?q) = connected s" "cur_bss ?q = cur_bss s"
    using assms(1) by (simp_all add: join_ok_def jw_upd_def setup_queues_views)
  show "\<not> connected s \<Longrightarrow> \<not> carrier (j_wlan s') \<and> netif_stopped (j_wlan s')"
    unfolding assms(2) by (simp add: assoc_data_path_def Let_def) (simp add: jw_upd_def os_carrier_off_def os_stop_queue_def)
  show "connected s \<Longrightarrow> \<not> enabled (wmm (j_wlan s)) \<or> reassoc \<and> bssid = MacAddress (cur_bss s) \<Longrightarrow> flowing (j_wlan s')"
    using u unfolding assms(2) by (simp add: assoc_data_path_def Let_def)
      (auto simp: jw_upd_def flowing_def wmm_start_queue_def os_carrier_on_def os_start_queue_def wmm_upd_def)
  show "connected s \<Longrightarrow> enabled (wmm (j_wlan s)) \<Longrightarrow> \<not> (reassoc \<and> bssid = MacAddress (cur_bss s)) \<Longrightarrow> j_wlan s' = j_wlan s"
    unfolding assms(2) by (auto simp: assoc_data_path_def Let_def)
qed

end
