(* ===== verification/WlanAssoc.thy ===== *)
theory WlanAssoc
  imports WlanJoinInv
begin

text \<open>
  One attempt to associate, \<^verbatim>\<open>wlan_associate\<close> as a whole: which states it reaches, what the firmware is sent, and how
  acceptance and refusal by the access point change the connection and the data path. Then the rates, the time stamps
  of the scan table, and the elements that an application sets.
\<close>

section \<open>One attempt\<close>

text \<open>The state when the command is prepared, and the state after the data path is set.\<close>

definition assoc_from :: "joindev \<Rightarrow> joindev" where
  "assoc_from s = (if connected s then jw_upd wmm_stop_queue s else s)\<lparr>assocRspSize := 0\<rparr>"

definition assoc_to :: "joindev \<Rightarrow> joindev \<Rightarrow> joindev" where
  "assoc_to s s1 = (let s2 = assoc_data_path (connected s) (MacAddress (cur_bss s)) s1 in s2\<lparr>ap_events := ap_events s2 @ [MacAddress (cur_bss s2)]\<rparr>)"

definition both_infra :: "joindev \<Rightarrow> BSSDescriptor \<Rightarrow> bool" where
  "both_infra s d \<longleftrightarrow> InfrastructureMode (j_cfg s) = Wlan802_11Infrastructure \<and> bss_mode d = Wlan802_11Infrastructure"

lemma data_path_rsp: "assocRspBuffer (assoc_data_path b m s) = assocRspBuffer s"
  by (simp add: assoc_data_path_def Let_def jw_upd_def)

lemma associate_run:
  assumes "join_ok s" and "idx < MRVDRV_MAX_BSSID_LIST" and "d = ScanTable (j_scan s) ! idx" and "both_infra s d"
  shows "wlan_associate e idx s = do { (r, s1) \<leftarrow> send_associate e idx (assoc_from s);
    Some (if r \<noteq> 0 \<or> StatusCode (assocRspBuffer s1) \<noteq> 0 then - ENETUNREACH else r, assoc_to s s1) }"
proof -
  have "mem_get (ScanTable (j_scan s)) idx = Some d" using tab_entry [of "j_scan s" idx] assms(1-3) by (simp add: join_ok_def)
  then show ?thesis using assms(4)
    by (simp add: wlan_associate_def both_infra_def assoc_from_def assoc_to_def data_path_rsp Let_def)
qed

lemma from_ok: "join_ok s \<Longrightarrow> join_ok (assoc_from s)"
proof -
  assume j: "join_ok s"
  have "join_ok (jw_upd wmm_stop_queue s)" using j by (intro join_ok_wlan) (simp_all add: join_ok_def stop_queue_ok)
  with j show ?thesis by (simp add: assoc_from_def join_ok_def)
qed

lemma from_same: "j_scan (assoc_from s) = j_scan s" "j_cfg (assoc_from s) = j_cfg s" "cur_bss (assoc_from s) = cur_bss s" "j_11d (assoc_from s) = j_11d s"
  "assocRspBuffer (assoc_from s) = assocRspBuffer s" "j_sent (assoc_from s) = j_sent s"
  "rate_allowed (assoc_from s) d = rate_allowed s d" "rsn_fits (assoc_from s) = rsn_fits s" "assoc_body (assoc_from s) d c = assoc_body s d c"
  "assoc_possible e (assoc_from s) d = assoc_possible e s d" "assoc_cmd (assoc_from s) d cmd = assoc_cmd s d cmd"
  by (simp_all add: assoc_from_def jw_upd_def rate_allowed_def rsn_fits_def rsn_wanted_def assoc_body_def assoc_tlvs_def rsn_tlvs_def wmm_tlvs_def
      generic_tlvs_def marvell_bytes_def wmm_stop_queue_def wmm_upd_def assoc_possible_def assoc_cmd_def)

lemma to_ok: "join_ok s1 \<Longrightarrow> join_ok (assoc_to s s1)"
  using data_path_ok [of s1] by (simp add: assoc_to_def join_ok_def Let_def)

lemma wmm_carrier_off [simp]: "wmm (os_carrier_off w) = wmm w"
  by (simp add: os_carrier_off_def)

lemma setup_queues_required: "required (wmm (wmm_setup_queues w)) = required (wmm w)"
  by (simp add: setup_queues_fields)

lemma data_path_wmm:
  "enabled (wmm (j_wlan (assoc_data_path b m s))) = enabled (wmm (j_wlan s))" "required (wmm (j_wlan (assoc_data_path b m s))) = required (wmm (j_wlan s))"
  by (simp_all add: assoc_data_path_def Let_def jw_upd_def wmm_start_queue_def setup_queues_views setup_queues_required)

lemma data_path_same: "j_cfg (assoc_data_path b m s) = j_cfg s" "cur_bss (assoc_data_path b m s) = cur_bss s"
  "NumOfRates (assoc_data_path b m s) = NumOfRates s" "cur_rates (assoc_data_path b m s) = cur_rates s" "j_sent (assoc_data_path b m s) = j_sent s"
  by (simp_all add: assoc_data_path_def Let_def jw_upd_def)

lemma to_same: "j_cfg (assoc_to s s1) = j_cfg s1" "cur_bss (assoc_to s s1) = cur_bss s1" "NumOfRates (assoc_to s s1) = NumOfRates s1"
  "cur_rates (assoc_to s s1) = cur_rates s1" "j_sent (assoc_to s s1) = j_sent s1"
  "enabled (wmm (j_wlan (assoc_to s s1))) = enabled (wmm (j_wlan s1))" "required (wmm (j_wlan (assoc_to s s1))) = required (wmm (j_wlan s1))"
  by (simp_all add: assoc_to_def Let_def data_path_wmm data_path_same)

lemma joined_to: "joined d s1 \<Longrightarrow> joined d (assoc_to s s1)"
  unfolding joined_def to_same .

lemma to_flow:
  assumes "join_ok s1"
  shows "\<not> connected s1 \<Longrightarrow> \<not> carrier (j_wlan (assoc_to s s1)) \<and> netif_stopped (j_wlan (assoc_to s s1))"
    and "connected s1 \<Longrightarrow> \<not> enabled (wmm (j_wlan s1)) \<or> connected s \<and> MacAddress (cur_bss s) = MacAddress (cur_bss s1) \<Longrightarrow> flowing (j_wlan (assoc_to s s1))"
  using data_path_flow(1,2) [OF assms refl, of "connected s" "MacAddress (cur_bss s)"] by (simp_all add: assoc_to_def Let_def)

lemma unat_size: "n \<le> 890 \<Longrightarrow> unat (of_nat n + 8 :: u16) = 8 + n"
proof -
  assume n: "n \<le> 890"
  have "of_nat n + 8 = (of_nat (8 + n) :: u16)" by simp
  also have "unat \<dots> = 8 + n" using n by (subst unat_of_nat) simp
  finally show ?thesis .
qed

lemma take_u8: "length (take (unat (x :: u8)) l) < 65536"
  using unat_u8_less [of x] by (simp add: min_def)

section \<open>Properties\<close>

text \<open>C19. Whatever the firmware answers and whichever call fails, an attempt to associate leaves its arrays in
  exactly one case: both sides are infrastructure, there is a command buffer and memory for the rates, and the 14 rates of the network contain
  no zero and lack a rate of the card; then the search for the common rates reads behind its copy of the
  rates. In every other case the attempt returns and leaves a well-formed state: sizes, and all views of the connection in
  agreement; and if it got past the check of the modes, the network interface is closed if there is no connection, and open
  if there is one without quality of service.\<close>

theorem associate_keeps_types:
  assumes "join_ok s" and "idx < MRVDRV_MAX_BSSID_LIST" and "d = ScanTable (j_scan s) ! idx" and "env_ok e"
  shows "if both_infra s d \<and> rates_run_out e d then wlan_associate e idx s = None
    else \<exists>r s'. wlan_associate e idx s = Some (r, s') \<and> join_ok s' \<and>
      (both_infra s d \<longrightarrow>
        (if \<not> connected s' then \<not> carrier (j_wlan s') \<and> netif_stopped (j_wlan s')
         else \<not> enabled (wmm (j_wlan s')) \<longrightarrow> flowing (j_wlan s')))"
proof (cases "both_infra s d")
  case True
  have d0: "d = ScanTable (j_scan (assoc_from s)) ! idx" using assms(3) by (simp add: from_same)
  note run = associate_run [OF assms(1-3) True, of e] and send = send_cases [OF from_ok [OF assms(1)] assms(2) d0 assms(4)]
  show ?thesis
  proof (cases "rates_run_out e d")
    case out: True
    then show ?thesis using True run send(1) by simp
  next
    case out: False
    obtain r s1 where s1: "send_associate e idx (assoc_from s) = Some (r, s1)" "join_ok s1" using send(2) [OF out] by blast
    with run have "wlan_associate e idx s = Some (if r \<noteq> 0 \<or> StatusCode (assocRspBuffer s1) \<noteq> 0 then - ENETUNREACH else r, assoc_to s s1)" by simp
    then show ?thesis using out to_ok [OF s1(2), of s] to_flow [OF s1(2), of s] by (simp add: to_same)
  qed
next
  case False
  have "mem_get (ScanTable (j_scan s)) idx = Some d" using tab_entry [of "j_scan s" idx] assms(1-3) by (simp add: join_ok_def)
  with False assms(1) show ?thesis by (auto simp: wlan_associate_def both_infra_def)
qed

text \<open>C20. The association command is what the firmware has to get: eight bytes of header and at most 900 in all, within the command
  buffer; the address, capability and listen interval of the network; then elements that read back as its name, channel and
  common rates, the authentication mode, the security element of the supplicant, quality of service if both sides
  have it, what the application has added, and the time stamps.\<close>

theorem associate_command:
  assumes "join_ok s" and "idx < MRVDRV_MAX_BSSID_LIST" and "d = ScanTable (j_scan s) ! idx" and "c_params buf = replicate 2040 0"
    and "rates_end (SupportedRates d) (rates_of card_rates)" and "assoc_possible e s d" and "accepted (e_dom1 e)" and "accepted (e_dom2 e)"
    and "find_band 0 (region_channel (j_11d s)) \<noteq> None"
    and "marvell_bytes s = tlvs_bytes ms" and "\<forall>t \<in> set ms. length (snd t) < 65536"
  shows "\<exists>s' cmd n. wlan_cmd_802_11_associate e idx s buf = Some (0, s', cmd) \<and> WlanCmd.c_Command cmd = HostCmd_CMD_802_11_ASSOCIATE \<and>
    unat (WlanCmd.c_Size cmd) = 8 + n \<and> 8 + n \<le> 900 \<and> length (c_params cmd) = 2040 \<and>
    take 13 (c_params cmd) = MacAddress d @ le16_of (Cap d AND CAPINFO_MASK) @ le16_of (ListenInterval s) @ [0, 0, 0] \<and>
    parse_tlvs (drop 13 (take n (c_params cmd))) = Some (assoc_tlvs s d @ ms @ [tsf_tlv d])"
proof -
  let ?b = "assoc_body s d (le16_of (Cap d AND CAPINFO_MASK))" and ?t = "assoc_tlvs s d @ ms @ [tsf_tlv d]"
  have d: "net_ok d" using tab_entry [of "j_scan s" idx] assms(1-3) by (auto simp: join_ok_def)
  then have m: "length (MacAddress d) = 6" by (simp add: net_ok_def)
  obtain s' where s': "wlan_cmd_802_11_associate e idx s buf = Some (0, s', assoc_cmd s d buf)"
    using prepare_any [OF assms(1-5), of e] assms(6-9) by blast
  have len: "length ?b \<le> 890" using length_body [OF d, of "le16_of (Cap d AND CAPINFO_MASK)" s] by simp
  then have size: "unat (of_nat (length ?b) + 8 :: u16) = 8 + length ?b"
    by (rule unat_size)
  have sizes: "\<forall>t \<in> set (assoc_tlvs s d). length (snd t) < 65536"
    using net_name_len [OF d] length_net_rates [of d]
    by (auto simp: assoc_tlvs_def head_tlvs_def rsn_tlvs_def wmm_tlvs_def generic_tlvs_def take_u8 simp del: length_take)
  have b: "?b = MacAddress d @ le16_of (Cap d AND CAPINFO_MASK) @ le16_of (ListenInterval s) @ [0, 0, 0] @ tlvs_bytes ?t"
    by (simp add: assoc_body_def assms(10))
  have "length (snd (tsf_tlv d)) < 65536" using d by (simp add: tsf_tlv_def net_ok_def)
  then have "parse_tlvs (tlvs_bytes ?t) = Some ?t" using sizes assms(11) by (intro parse_tlvs_bytes) auto
  moreover have "drop 13 (take (length ?b) (pad 2040 ?b)) = tlvs_bytes ?t" unfolding take_pad using m by (simp add: b)
  moreover have "take 13 (pad 2040 ?b) = MacAddress d @ le16_of (Cap d AND CAPINFO_MASK) @ le16_of (ListenInterval s) @ [0, 0, 0]"
    using m by (simp add: pad_def b)
  ultimately show ?thesis using s' size len
    by (intro exI [of _ s'] exI [of _ "assoc_cmd s d buf"] exI [of _ "length ?b"]) (simp add: assoc_cmd_def length_pad)
qed

text \<open>What the surroundings must do for an association.\<close>

definition goes_well :: "assoc_env \<Rightarrow> joindev \<Rightarrow> BSSDescriptor \<Rightarrow> bool" where
  "goes_well e s d \<longleftrightarrow> env_ok e \<and> e_buf e \<noteq> None \<and> assoc_possible e s d \<and> accepted (e_dom1 e) \<and> accepted (e_dom2 e) \<and>
     find_band 0 (region_channel (j_11d s)) \<noteq> None"

lemma send_answered:
  assumes "join_ok s" and "idx < MRVDRV_MAX_BSSID_LIST" and "d = ScanTable (j_scan s) ! idx"
    and "rates_end (SupportedRates d) (rates_of card_rates)" and "goes_well e s d" and "e_answer e = Some resp" and "c_Result resp = 0"
  shows "\<exists>buf s1. e_buf e = Some buf \<and> join_ok s1 \<and> link_kept s s1 \<and> pAttemptedBSSDesc s1 = Some idx \<and> same_net d (ScanTable (j_scan s1) ! idx) \<and>
    downloaded (assoc_start idx s) s1 \<and> send_associate e idx s = do { (_, s2) \<leftarrow> wlan_ret_802_11_associate (e_kmalloc2 e) resp (sent (assoc_cmd s d buf) s1); Some (e_ret e, s2) }"
proof -
  obtain buf where b: "e_buf e = Some buf" "c_params buf = replicate 2040 0" using assms(5) by (auto simp: goes_well_def env_ok_def)
  obtain s1 where p: "wlan_cmd_802_11_associate e idx s buf = Some (0, s1, assoc_cmd s d buf)" "join_ok s1" "link_kept s s1"
    "pAttemptedBSSDesc s1 = Some idx" "same_net d (ScanTable (j_scan s1) ! idx)" "downloaded (assoc_start idx s) s1"
    using prepare_any [OF assms(1-3) b(2) assms(4), of e] assms(5) unfolding goes_well_def by blast
  then show ?thesis using b(1) assms(6,7) by (auto simp: send_associate_def sent_def Let_def)
qed

text \<open>C18. An accepted association connects: the driver then has the description of the network, with its channel and the common
  rates, quality of service on exactly if both sides have it, and sent one command for it. The call returns 0, and without
  quality of service data flows at once.\<close>

theorem associate_joins:
  assumes "join_ok s" and "idx < MRVDRV_MAX_BSSID_LIST" and "d = ScanTable (j_scan s) ! idx" and "both_infra s d"
    and "rates_end (SupportedRates d) (rates_of card_rates)" and "goes_well e s d" and "e_answer e = Some resp" and "c_Result resp = 0"
    and "StatusCode (c_params resp) = 0" and "12 \<le> unat (WlanCmd.c_Size resp)" and "e_kmalloc2 e" and "e_ret e = 0"
  shows "\<exists>s' d' buf. wlan_associate e idx s = Some (0, s') \<and> e_buf e = Some buf \<and> j_sent s' = j_sent s @ [assoc_cmd s d buf] \<and>
    same_net d d' \<and> joined d' s' \<and> (\<not> enabled (wmm (j_wlan s')) \<longrightarrow> flowing (j_wlan s'))"
proof -
  have d0: "d = ScanTable (j_scan (assoc_from s)) ! idx" and g0: "goes_well e (assoc_from s) d"
    using assms(3,6) by (simp_all add: from_same goes_well_def)
  obtain buf s1 where s1: "e_buf e = Some buf" "join_ok s1" "link_kept (assoc_from s) s1" "pAttemptedBSSDesc s1 = Some idx"
    "same_net d (ScanTable (j_scan s1) ! idx)"
    "send_associate e idx (assoc_from s) =
      do { (_, s2) \<leftarrow> wlan_ret_802_11_associate (e_kmalloc2 e) resp (sent (assoc_cmd s d buf) s1); Some (e_ret e, s2) }"
    using send_answered [OF from_ok [OF assms(1)] assms(2) d0 assms(5) g0 assms(7,8)] by (auto simp: from_same)
  let ?S = "sent (assoc_cmd s d buf) s1" and ?d = "ScanTable (j_scan s1) ! idx"
  have S: "join_ok ?S" "pAttemptedBSSDesc ?S = Some idx" "?d = ScanTable (j_scan ?S) ! idx" "rate_allowed ?S ?d"
    using join_ok_sent [OF s1(2)] s1(3-5) assms(6) same_netD [OF s1(5), of s]
    by (auto simp: sent_def link_kept_def goes_well_def assoc_possible_def rate_allowed_def assoc_from_def jw_upd_def split: if_splits)
  have l: "length (c_params resp) = 2040" using assms(6,7) by (simp add: goes_well_def env_ok_def)
  have re: "rates_end (SupportedRates ?d) (rates_of card_rates)" using same_netD [OF s1(5)] assms(5) by simp
  obtain n buf2 where b: "length buf2 = 500" "n \<le> 500" "StatusCode buf2 = 0" "wlan_ret_802_11_associate (e_kmalloc2 e) resp ?S =
      Some (0, finished (set_wmm_state ?d (rates_set ?d (entered ?d (?S\<lparr>assocRspSize := n, assocRspBuffer := buf2\<rparr>)))))"
    using ret_associate_accepted [OF S(1) l assms(9) S(2) assms(2) S(3) re, of "e_kmalloc2 e"] S(4) assms(10,11) by (auto simp: Let_def)
  let ?F = "finished (set_wmm_state ?d (rates_set ?d (entered ?d (?S\<lparr>assocRspSize := n, assocRspBuffer := buf2\<rparr>))))"
  have dn: "net_ok ?d" using tab_entry [of "j_scan s1" idx] s1(2) assms(2) by (simp add: join_ok_def)
  have F: "joined ?d ?F" "join_ok ?F" "assocRspBuffer ?F = buf2" "j_sent ?F = j_sent s1 @ [assoc_cmd s d buf]"
    using join_ok_finished [OF join_ok_entered [OF join_ok_rsp [OF S(1) b(1,2)] dn], of ?d]
    by (simp_all only: finished_joined finished_same) (simp_all add: sent_def)
  have "wlan_associate e idx s = Some (0, assoc_to s ?F)"
    using associate_run [OF assms(1-4), of e] s1(6) b(3,4) F(3) assms(12) by simp
  moreover have "joined ?d (assoc_to s ?F)" using F(1) by (rule joined_to)
  moreover have "\<not> enabled (wmm (j_wlan (assoc_to s ?F))) \<longrightarrow> flowing (j_wlan (assoc_to s ?F))"
    using to_flow(2) [OF F(2), of s] F(1) unfolding to_same joined_def by blast
  moreover have "j_sent (assoc_to s ?F) = j_sent s @ [assoc_cmd s d buf]" using F(4) s1(3) unfolding to_same link_kept_def from_same by simp
  ultimately show ?thesis using s1(1,5) by blast
qed

text \<open>Setting the data path changes the queues and reports the network.\<close>

lemma to_frame: "assoc_to s s1 = s1\<lparr>j_wlan := j_wlan (assoc_to s s1), ap_events := ap_events s1 @ [MacAddress (cur_bss s1)]\<rparr>"
  by (simp add: assoc_to_def assoc_data_path_def Let_def jw_upd_def)

text \<open>What a refused attempt to join entry \<open>idx\<close> may change: the attempted network, the elements that the
  application had set, which are used up, the regulatory state and the country codes in the scan table, the queues of the
  data path, the stored response, the command that was sent and the report of the network that the station is in. The networks
  of the scan table stay the same.\<close>

definition refused_frame :: "nat \<Rightarrow> joindev \<Rightarrow> joindev \<Rightarrow> bool" where
  "refused_frame idx s s' \<longleftrightarrow> (\<exists>a tab w n buf cmd.
     s' = s\<lparr>pAttemptedBSSDesc := Some idx, genIeBufferLen := 0, mrvlAssocTlvBufferLen := 0, j_11d := a, j_scan := (j_scan s)\<lparr>ScanTable := tab\<rparr>,
       j_wlan := w, assocRspSize := n, assocRspBuffer := buf, j_sent := j_sent s @ [cmd], ap_events := ap_events s @ [MacAddress (cur_bss s)]\<rparr> \<and>
     list_all2 same_net (ScanTable (j_scan s)) tab)"

lemma refused_frameI:
  assumes "downloaded (assoc_start idx (assoc_from s)) s1"
  shows "refused_frame idx s (assoc_to s ((sent c s1)\<lparr>assocRspSize := n, assocRspBuffer := buf\<rparr>))"
proof -
  let ?w = "j_wlan (assoc_to s ((sent c s1)\<lparr>assocRspSize := n, assocRspBuffer := buf\<rparr>))"
  obtain a tab where s1: "s1 = (assoc_start idx (assoc_from s))\<lparr>j_11d := a, j_scan := (j_scan s)\<lparr>ScanTable := tab\<rparr>\<rparr>" "list_all2 same_net (ScanTable (j_scan s)) tab"
    using assms by (auto simp: downloaded_def assoc_start_def from_same)
  have "assoc_to s ((sent c s1)\<lparr>assocRspSize := n, assocRspBuffer := buf\<rparr>) =
    s\<lparr>pAttemptedBSSDesc := Some idx, genIeBufferLen := 0, mrvlAssocTlvBufferLen := 0, j_11d := a, j_scan := (j_scan s)\<lparr>ScanTable := tab\<rparr>,
      j_wlan := ?w, assocRspSize := n, assocRspBuffer := buf, j_sent := j_sent s @ [c], ap_events := ap_events s @ [MacAddress (cur_bss s)]\<rparr>"
    by (subst to_frame) (simp add: s1(1) sent_def assoc_start_def assoc_from_def jw_upd_def)
  with s1(2) show ?thesis unfolding refused_frame_def by blast
qed

text \<open>C37. A refused association keeps the connection. For a network whose rates end within their array, an attempt for
  which command buffers, memory and the firmware's domain commands are there, and which the access point refuses: the
  call reports that the network is unreachable; configuration, current network and quality of service stay; a station that had a
  connection keeps it with data flowing, and one without stays closed. Of the rest of the state exactly these parts
  may change (\<open>refused_frame\<close>): the stored response and its size, the attempted network, the application's elements, which are used up, the regulatory state
  with the country codes in the scan table, the queues of the data path, one command sent and one report.\<close>

theorem associate_refused:
  assumes "join_ok s" and "idx < MRVDRV_MAX_BSSID_LIST" and "d = ScanTable (j_scan s) ! idx" and "both_infra s d"
    and "rates_end (SupportedRates d) (rates_of card_rates)" and "goes_well e s d" and "e_answer e = Some resp" and "c_Result resp = 0"
    and "StatusCode (c_params resp) \<noteq> 0" and "12 \<le> unat (WlanCmd.c_Size resp)"
  shows "\<exists>s'. wlan_associate e idx s = Some (- ENETUNREACH, s') \<and> StatusCode (assocRspBuffer s') = StatusCode (c_params resp) \<and>
    refused_frame idx s s' \<and> j_cfg s' = j_cfg s \<and> cur_bss s' = cur_bss s \<and> enabled (wmm (j_wlan s')) = enabled (wmm (j_wlan s)) \<and>
    (if connected s then flowing (j_wlan s') else \<not> carrier (j_wlan s') \<and> netif_stopped (j_wlan s'))"
proof -
  have d0: "d = ScanTable (j_scan (assoc_from s)) ! idx" and g0: "goes_well e (assoc_from s) d"
    using assms(3,6) by (simp_all add: from_same goes_well_def)
  obtain buf s1 where s1: "join_ok s1" "link_kept (assoc_from s) s1" "downloaded (assoc_start idx (assoc_from s)) s1"
    "send_associate e idx (assoc_from s) =
      do { (_, s2) \<leftarrow> wlan_ret_802_11_associate (e_kmalloc2 e) resp (sent (assoc_cmd s d buf) s1); Some (e_ret e, s2) }"
    using send_answered [OF from_ok [OF assms(1)] assms(2) d0 assms(5) g0 assms(7,8)] by (auto simp: from_same)
  let ?S = "sent (assoc_cmd s d buf) s1"
  have l: "length (c_params resp) = 2040" using assms(6,7) by (simp add: goes_well_def env_ok_def)
  obtain n buf2 where b: "length buf2 = 500" "n \<le> 500" "StatusCode buf2 = StatusCode (c_params resp)"
    "wlan_ret_802_11_associate (e_kmalloc2 e) resp ?S = Some (- 1, ?S\<lparr>assocRspSize := n, assocRspBuffer := buf2\<rparr>)"
    using ret_associate_refused [OF join_ok_sent [OF s1(1)] l assms(9), of "e_kmalloc2 e" "assoc_cmd s d buf"] assms(10) by blast
  let ?F = "?S\<lparr>assocRspSize := n, assocRspBuffer := buf2\<rparr>"
  have F: "join_ok ?F" "j_cfg ?F = j_cfg s" "cur_bss ?F = cur_bss s" "enabled (wmm (j_wlan ?F)) = enabled (wmm (j_wlan s))"
    using join_ok_rsp [OF join_ok_sent [OF s1(1)] b(1,2)] s1(2)
    by (simp_all add: link_kept_def from_same sent_def assoc_from_def jw_upd_def wmm_stop_queue_def wmm_upd_def)
  have "wlan_associate e idx s = Some (- ENETUNREACH, assoc_to s ?F)"
    using associate_run [OF assms(1-4), of e] s1(4) b(3,4) assms(9) by simp
  moreover have "StatusCode (assocRspBuffer (assoc_to s ?F)) = StatusCode (c_params resp)" by (simp add: assoc_to_def data_path_rsp b(3) Let_def)
  moreover have "if connected s then flowing (j_wlan (assoc_to s ?F)) else \<not> carrier (j_wlan (assoc_to s ?F)) \<and> netif_stopped (j_wlan (assoc_to s ?F))"
    using to_flow [OF F(1), of s] F(2,3) by simp
  moreover have "j_cfg (assoc_to s ?F) = j_cfg s \<and> cur_bss (assoc_to s ?F) = cur_bss s \<and> enabled (wmm (j_wlan (assoc_to s ?F))) = enabled (wmm (j_wlan s))"
    using F(2-4) unfolding to_same by blast
  ultimately show ?thesis using refused_frameI [OF s1(3)] by blast
qed

definition rate_value :: "u8 \<Rightarrow> u8" where
  "rate_value x = x AND 0x7f"

lemma common_rates_values:
  "map rate_value (common_rates net own) = filter (\<lambda>v. v \<in> rate_value ` set net) (map rate_value own)"
proof (induction own)
  case (Cons r own)
  show ?case
  proof (cases "find (same_rate r) net")
    case None
    then have "rate_value r \<notin> rate_value ` set net" by (auto simp: find_None_iff same_rate_def rate_value_def)
    then show ?thesis using Cons None by (simp add: common_rates_def map_filter_simps)
  next
    case (Some x)
    then have "rate_value x = rate_value r" "rate_value r \<in> rate_value ` set net"
      by (auto simp: find_Some_iff same_rate_def rate_value_def intro!: image_eqI [of _ _ x])
    then show ?thesis using Cons Some by (simp add: common_rates_def map_filter_simps)
  qed
qed (simp add: common_rates_def map_filter_simps)

text \<open>C38. The rates for a network are exactly those that both sides support: in the order of the card, each once, written as the
  network writes them, with its marks for basic rates; at most twelve, within the array of 14. If the user has fixed a rate that
  is not among them, the call fails. The exception: a network with 14 rates, none of them zero, that lacks
  a rate of the card makes the search read behind the array.\<close>

theorem common_rates_correct:
  assumes "length (SupportedRates d) = 14"
  shows "if 0 \<notin> set (SupportedRates d) \<and> (\<exists>r \<in> set (rates_of card_rates). \<forall>x \<in> set (SupportedRates d). rate_value x \<noteq> rate_value r)
    then setup_rates_from_bssdesc True d s = None
    else \<exists>out n. length out = 14 \<and> n \<le> 12 \<and> set (take n out) \<subseteq> set (rates_of (SupportedRates d)) \<and> distinct (map rate_value (take n out)) \<and>
      map rate_value (take n out) =
        filter (\<lambda>v. v \<in> rate_value ` set (rates_of (SupportedRates d))) (map rate_value (rates_of card_rates)) \<and>
      setup_rates_from_bssdesc True d s =
        (if Is_DataRate_Auto s \<or> (\<exists>x \<in> set (take n out). ucast (rate_value x) = DataRate s) then Some (0, out, n) else Some (- 1, out, 0))"
proof (cases "rates_end (SupportedRates d) (rates_of card_rates)")
  case True
  let ?out = "net_rates d @ replicate (14 - length (net_rates d)) 0"
  have e: "setup_rates_from_bssdesc True d s =
      (if Is_DataRate_Auto s \<or> (\<exists>x \<in> set (net_rates d). ucast (rate_value x) = DataRate s) then Some (0, ?out, length (net_rates d)) else Some (- 1, ?out, 0))"
    using setup_rates_eq [OF assms True, of True s] by (simp add: rate_allowed_def rate_value_def Let_def)
  have "distinct (map rate_value (rates_of card_rates))" by (simp add: rates_of_card rate_value_def)
  then have v: "distinct (map rate_value (net_rates d))" unfolding common_rates_values by simp
  have i: "set (net_rates d) \<subseteq> set (rates_of (SupportedRates d))" using common_rates_in by blast
  have "\<not> (0 \<notin> set (SupportedRates d) \<and> (\<exists>r \<in> set (rates_of card_rates). \<forall>x \<in> set (SupportedRates d). rate_value x \<noteq> rate_value r))"
    using True by (fastforce simp: rates_end_def same_rate_def rate_value_def)
  then show ?thesis
    using length_net_rates [of d] v i by (simp only: if_False, intro exI [of _ ?out] exI [of _ "length (net_rates d)"]) (simp add: common_rates_values e)
next
  case False
  then show ?thesis using setup_rates_overread [OF assms False] by (fastforce simp: rates_end_def same_rate_def rate_value_def)
qed

text \<open>A network that announces fourteen rates, none of them zero, and lacks a rate of the card makes the driver read behind its
  copy of the rates, before anything is sent.\<close>

theorem associate_rates_overread:
  assumes "join_ok s" and "idx < MRVDRV_MAX_BSSID_LIST" and "d = ScanTable (j_scan s) ! idx" and "both_infra s d"
    and "e_buf e = Some buf" and "c_params buf = replicate 2040 0" and "e_kmalloc1 e"
    and "0 \<notin> set (SupportedRates d)" and "r \<in> set (rates_of card_rates)" and "\<forall>x \<in> set (SupportedRates d). \<not> same_rate r x"
  shows "wlan_associate e idx s = None"
proof -
  let ?s = "assoc_from s"
  have d0: "d = ScanTable (j_scan ?s) ! idx" using assms(3) by (simp add: from_same)
  have "\<not> rates_end (SupportedRates d) (rates_of card_rates)" using assms(8-10) by (auto simp: rates_end_def)
  then have "wlan_cmd_802_11_associate e idx ?s buf = None"
    using assoc_cmd_rates(2) [OF from_ok [OF assms(1)] assms(2) d0 assms(6,7)] by blast
  then show ?thesis using associate_run [OF assms(1-4), of e] assms(5) by (simp add: send_associate_def)
qed

section \<open>Time stamps\<close>

lemma le64_to_of [simp]: "le64_to (le64_of w) = w"
proof (rule bit_word_eqI)
  fix n assume "n < LENGTH(64)"
  then show "bit (le64_to (le64_of w)) n = bit w n"
    by (cases "n < 32") (simp_all add: le64_to_def le64_of_def bit_or_iff bit_push_bit_iff bit_ucast_iff bit_drop_bit_eq less_diff_conv2)
qed

text \<open>After an association the time stamps of the scan table are relative to the clock of the new network: its own entry has the
  time of its beacon, and all differences between entries are kept.\<close>

theorem tsf_rebased:
  assumes "NumInScanTable s \<le> length (ScanTable s)" and "i < NumInScanTable s" and "ScanTable s ! i = d"
    and "t = (\<lambda>s j. le64_to (networkTSF (ScanTable s ! j)))"
  shows "t (wlan_scan_update_tsf_timestamps d s) i = le64_to (TimeStamp d) \<and>
    (\<forall>j < NumInScanTable s. \<forall>k < NumInScanTable s.
      t (wlan_scan_update_tsf_timestamps d s) j - t (wlan_scan_update_tsf_timestamps d s) k = t s j - t s k)"
proof -
  have "t (wlan_scan_update_tsf_timestamps d s) j = t s j + (le64_to (TimeStamp d) - le64_to (networkTSF d))" if "j < NumInScanTable s" for j
    using that assms(1) by (simp add: assms(4) wlan_scan_update_tsf_timestamps_def nth_append add_tsf_def Let_def)
  then show ?thesis using assms(2,3) by (simp add: assms(4))
qed

section \<open>What the application sees\<close>

text \<open>Reading the elements of the response gives four bytes too many: what is in the buffer behind the response.\<close>

lemma gen_ie_four_too_many:
  assumes "length (assocRspBuffer s) = 500" and "assocRspSize s = of_nat n" and "6 \<le> n" and "n \<le> 496" and "int n \<le> uint len"
  shows "wlan_get_gen_ie_helper True len s =
    Some (0, take (n - 6) (drop 6 (assocRspBuffer s)) @ take 4 (drop n (assocRspBuffer s)))"
proof -
  have "assocRspSize s - 2 - (- 2) - 2 = (of_nat (n - 2) :: u32)" using assms(2,3) by (simp add: of_nat_diff)
  moreover have "sint (of_nat (n - 2) :: u32) = int (n - 2)" using assms(4) by (simp only: signed_of_nat) (simp add: signed_take_bit_int_eq_self)
  moreover have "take (n - 2) (drop 6 x) = take (n - 6) (drop 6 x) @ take 4 (drop n x)" for x :: "u8 list"
    using take_add [of "n - 6" 4 "drop 6 x"] assms(3) by simp
  moreover have "nat (int n - 2) = n - 2" by linarith
  ultimately show ?thesis using assms by (simp add: wlan_get_gen_ie_helper_def mem_sub_def min_def Let_def)
qed

text \<open>With a full buffer the copy leaves it.\<close>

lemma gen_ie_overread:
  assumes "length (assocRspBuffer s) = 500" and "assocRspSize s = 500" and "498 \<le> uint len"
  shows "wlan_get_gen_ie_helper True len s = None"
  using assms by (simp add: wlan_get_gen_ie_helper_def mem_sub_def min_def)

text \<open>A second security element of the other kind leaves both kinds enabled, and then no network is compatible.\<close>

lemma wpa_after_wpa2:
  assumes "length (Wpa_ie s) = 256" and "WPA2Enabled (j_cfg s)" and "hd b = VENDOR_SPECIFIC_221" and "b \<noteq> []" and "length b \<le> 256"
  shows "\<exists>s'. wlan_set_wpa_ie_helper True b s = Some (0, s') \<and> (\<forall>d. \<not> security_match (j_cfg s') d \<or> AdhocAESEnabled (j_cfg s'))"
proof -
  have "mem_copy (Wpa_ie s) 0 b = Some (b @ drop (length b) (Wpa_ie s))" using assms(1,5) by (simp add: mem_copy_def)
  moreover have "(b @ drop (length b) (Wpa_ie s)) ! 0 = VENDOR_SPECIFIC_221" using assms(3,4) by (simp add: nth_append hd_conv_nth)
  ultimately show ?thesis using assms(2,4,5) by (auto simp: wlan_set_wpa_ie_helper_def security_match_def Let_def)
qed

text \<open>A long element of the WPS kind is copied over the end of its structure.\<close>

lemma wps_ie_overrun:
  assumes "length (wpsIe s) = 256" and "256 < unat n" and "unat n \<le> length mem" and "take 6 mem = [VENDOR_SPECIFIC_221, l] @ wps_oui" and "4 < l"
  shows "wlan_set_gen_ie_helper True mem n s = None"
proof -
  have m: "mem ! 0 = VENDOR_SPECIFIC_221" "mem ! 1 = l" "take 4 (drop 2 mem) = wps_oui"
  proof -
    have "take 6 mem ! 0 = mem ! 0" "take 6 mem ! 1 = mem ! 1" by simp_all
    then show "mem ! 0 = VENDOR_SPECIFIC_221" "mem ! 1 = l" using assms(4) by simp_all
    have "drop 2 (take 6 mem) = take 4 (drop 2 mem)" by (simp add: drop_take)
    then show "take 4 (drop 2 mem) = wps_oui" using assms(4) by simp
  qed
  have "n \<noteq> 0" using assms(2) by auto
  with assms m show ?thesis
    by (simp add: wlan_set_gen_ie_helper_def mem_sub_def mem_copy_def wpa_oui_def wps_oui_def RSN_IE_def VENDOR_SPECIFIC_221_def Let_def)
qed

section \<open>Examples\<close>

definition sample_ap :: BSSDescriptor where
  "sample_ap = zero_bss\<lparr>MacAddress := [1, 2, 3, 4, 5, 6], SsidLength := 1, Ssid := 65 # replicate 31 0, bss_mode := Wlan802_11Infrastructure,
     SupportedRates := [0x82, 0x0c, 0x84, 0x7f] @ replicate 10 0, PhyParamSet := [3, 1, 6, 0, 0, 0, 0], Cap := 0x0201\<rparr>"

definition sample_table :: scan_dev where
  "sample_table = \<lparr>ScanTable = sample_ap # replicate 63 zero_bss, NumInScanTable = 1, beaconBuffer = replicate 6000 0, pBeaconBufEnd = 0\<rparr>"

definition sample_join :: joindev where
  "sample_join = \<lparr>j_cfg = sample_open, j_scan = sample_table, j_11d = sample_adapter (snd (wlan_set_regiontable 0x31 0)),
     j_wlan = sample_wlan\<lparr>wmm := zero_wmm, link_up := False, wmmIE := replicate 26 0\<rparr>, j_rx = sample_rxdev, ListenInterval = 10, AuthenticationMode = 0,
     Is_DataRate_Auto = True, DataRate = 0, Wpa_ie = replicate 256 0, Wpa_ie_len = 0, wpsIe = replicate 256 0,
     genIeBuffer = replicate 256 0, genIeBufferLen = 0, mrvlAssocTlvBuffer = replicate 256 0, mrvlAssocTlvBufferLen = 0,
     assocRspBuffer = replicate 500 0, assocRspSize = 0, pAttemptedBSSDesc = None, cur_bss = zero_bss, NumOfRates = 0, cur_rates = replicate 14 0,
     cur_wmm_enabled = False, cur_wmm_uapsd = False, j_GTK_SET = False, j_sent = [], ap_events = []\<rparr>"

definition sample_answer :: "u8 \<Rightarrow> HostCmd" where
  "sample_answer status = zero_cmd\<lparr>WlanCmd.c_Command := 0x8012, WlanCmd.c_Size := 14, c_params := [1, 0, status, 0] @ replicate 2036 0\<rparr>"

definition sample_env :: "u8 \<Rightarrow> assoc_env" where
  "sample_env status = \<lparr>e_buf = Some zero_cmd, e_kmalloc1 = True, e_kmalloc2 = True, e_dom1 = (Some sample_cmd, 0), e_dom2 = (Some sample_cmd, 0),
     e_answer = Some (sample_answer status), e_ret = 0\<rparr>"

lemma sample_nets_ok: "net_ok zero_bss" "net_ok sample_ap"
  by (simp_all add: net_ok_def wf_bss_def zero_bss_def sample_ap_def WLAN_MAX_SSID_LENGTH_def WLAN_SUPPORTED_RATES_def IEEE_MAX_IE_SIZE_def)

lemma sample_region: "find_band 0 (region_channel (j_11d sample_join)) \<noteq> None" "reg_ok (j_11d sample_join)"
proof -
  have t: "wlan_get_region_cfp_table 0x31 0 = Some channel_freq_power_SPN_BG"
    by (simp add: wlan_get_region_cfp_table_def region_cfp_table_def)
  have z: "zero_region_channels = [zero_region_channel, zero_region_channel]"
    by (simp add: zero_region_channels_def MAX_REGION_CHANNEL_NUM_def numeral_2_eq_2)
  from t show "find_band 0 (region_channel (j_11d sample_join)) \<noteq> None" "reg_ok (j_11d sample_join)"
    by (auto simp: sample_join_def sample_adapter_def wlan_set_regiontable_def z reg_ok_def
        channel_freq_power_SPN_BG_def MAX_NO_OF_CHAN_def zero_region_channel_def)
qed

lemma sample_join_ok: "join_ok sample_join"
  using sample_nets_ok sample_region(2) init_ok [of "sample_wlan\<lparr>link_up := False, wmmIE := replicate 26 0\<rparr>"]
  by (simp add: join_ok_def tab_ok_def sample_join_def sample_table_def sample_open_def sample_adapter_def MRVDRV_MAX_BSSID_LIST_def list_all_iff
      MRVDRV_ASSOC_RSP_BUF_SIZE_def zero_bss_def wmm_ok_def wmm_init_def)

lemma sample_entry: "ScanTable (j_scan sample_join) ! 0 = sample_ap" "0 < MRVDRV_MAX_BSSID_LIST"
  by (simp_all add: sample_join_def sample_table_def MRVDRV_MAX_BSSID_LIST_def)

lemma sample_rates: "rates_end (SupportedRates sample_ap) (rates_of card_rates)" "net_rates sample_ap = [0x82, 0x84, 0x0c]"
  by (simp_all add: sample_ap_def rates_end_def rates_of_def card_rates_def common_rates_def map_filter_simps same_rate_def)

lemma sample_goes_well: "goes_well (sample_env st) sample_join sample_ap" "both_infra sample_join sample_ap"
  using sample_region(1)
  by (simp_all add: goes_well_def env_ok_def sample_env_def sample_answer_def zero_cmd_def MRVDRV_SIZE_OF_CMD_BUFFER_def accepted_def assoc_possible_def
      rate_allowed_def rsn_fits_def rsn_wanted_def sample_join_def sample_open_def both_infra_def sample_ap_def)

theorem associate_keeps_types_witness:
  "\<exists>r s'. wlan_associate (sample_env 17) 0 sample_join = Some (r, s') \<and> join_ok s'"
proof -
  have "env_ok (sample_env 17)" "\<not> rates_run_out (sample_env 17) sample_ap" using sample_goes_well(1) [of 17] sample_rates(1) by (simp_all add: goes_well_def rates_run_out_def)
  then show ?thesis using associate_keeps_types [OF sample_join_ok sample_entry(2) sample_entry(1) [symmetric], of "sample_env 17"] by auto
qed

theorem associate_command_witness:
  "\<exists>s' cmd n. wlan_cmd_802_11_associate (sample_env 0) 0 sample_join zero_cmd = Some (0, s', cmd) \<and> unat (WlanCmd.c_Size cmd) = 8 + n \<and>
    parse_tlvs (drop 13 (take n (c_params cmd))) =
      Some [(0, [65]), (3, [6]), (4, replicate 6 0), (1, [0x82, 0x84, 0x0c]), (0x011f, [0, 0]), (0x0113, replicate 16 0)]"
proof -
  have z: "c_params zero_cmd = replicate 2040 0" by (simp add: zero_cmd_def MRVDRV_SIZE_OF_CMD_BUFFER_def)
  have m: "marvell_bytes sample_join = tlvs_bytes []" by (simp add: marvell_bytes_def sample_join_def)
  have t: "assoc_tlvs sample_join sample_ap @ [] @ [tsf_tlv sample_ap] =
    [(0, [65]), (3, [6]), (4, replicate 6 0), (1, [0x82, 0x84, 0x0c]), (0x011f, [0, 0]), (0x0113, replicate 16 0)]"
    using sample_rates(2)
    by (simp add: assoc_tlvs_def head_tlvs_def rsn_tlvs_def rsn_wanted_def wmm_tlvs_def generic_tlvs_def tsf_tlv_def sample_join_def sample_open_def
        net_name_def sample_ap_def zero_bss_def TLV_TYPE_SSID_def TLV_TYPE_PHY_DS_def TLV_TYPE_CF_def TLV_TYPE_RATES_def TLV_TYPE_AUTH_TYPE_def
        TLV_TYPE_TSFTIMESTAMP_def le16_of_def zero_wmm_def numeral_eq_Suc)
  from sample_goes_well(1) [of 0] have "assoc_possible (sample_env 0) sample_join sample_ap" "accepted (e_dom1 (sample_env 0))" "accepted (e_dom2 (sample_env 0))"
    by (simp_all add: goes_well_def)
  from associate_command [OF sample_join_ok sample_entry(2) sample_entry(1) [symmetric] z sample_rates(1) this sample_region(1) m]
  show ?thesis unfolding t by auto
qed

theorem associate_joins_witness:
  "\<exists>s'. wlan_associate (sample_env 0) 0 sample_join = Some (0, s') \<and> connected s' \<and> take (NumOfRates s') (cur_rates s') = [0x82, 0x84, 0x0c] \<and> length (j_sent s') = 1"
proof -
  have a: "e_answer (sample_env 0) = Some (sample_answer 0)" "c_Result (sample_answer 0) = 0" "StatusCode (c_params (sample_answer 0)) = 0"
    "12 \<le> unat (WlanCmd.c_Size (sample_answer 0))" "e_kmalloc2 (sample_env 0)" "e_ret (sample_env 0) = 0"
    by (simp_all add: sample_env_def sample_answer_def zero_cmd_def StatusCode_def le16_to_def)
  from associate_joins [OF sample_join_ok sample_entry(2) sample_entry(1) [symmetric] sample_goes_well(2) sample_rates(1) sample_goes_well(1) a]
  obtain s' d' buf where s': "wlan_associate (sample_env 0) 0 sample_join = Some (0, s')" "j_sent s' = j_sent sample_join @ [assoc_cmd sample_join sample_ap buf]"
    "same_net sample_ap d'" "joined d' s'" by blast
  have "net_rates d' = [0x82, 0x84, 0x0c]" using same_netD [OF s'(3)] sample_rates(2) by simp
  with s' show ?thesis by (auto simp: joined_def sample_join_def)
qed

theorem associate_refused_witness:
  "\<exists>s'. wlan_associate (sample_env 17) 0 sample_join = Some (- 101, s') \<and> \<not> connected s' \<and> \<not> carrier (j_wlan s')"
proof -
  have a: "e_answer (sample_env 17) = Some (sample_answer 17)" "c_Result (sample_answer 17) = 0" "StatusCode (c_params (sample_answer 17)) \<noteq> 0"
    "12 \<le> unat (WlanCmd.c_Size (sample_answer 17))"
    by (simp_all add: sample_env_def sample_answer_def zero_cmd_def StatusCode_def le16_to_def)
  from associate_refused [OF sample_join_ok sample_entry(2) sample_entry(1) [symmetric] sample_goes_well(2) sample_rates(1) sample_goes_well(1) a]
  show ?thesis by (auto simp: ENETUNREACH_def sample_join_def sample_open_def)
qed

theorem common_rates_correct_witness:
  "\<exists>out. setup_rates_from_bssdesc True sample_ap sample_join = Some (0, out, 3) \<and> map rate_value (take 3 out) = [0x02, 0x04, 0x0c]"
proof -
  have "map rate_value (rates_of card_rates) = [0x02, 0x04, 0x0b, 0x16, 0x0c, 0x12, 0x18, 0x24, 0x30, 0x48, 0x60, 0x6c]"
    "rates_of (SupportedRates sample_ap) = [0x82, 0x0c, 0x84, 0x7f]"
    by (simp_all add: rates_of_def card_rates_def rate_value_def sample_ap_def)
  then have f: "filter (\<lambda>v. v \<in> rate_value ` set (rates_of (SupportedRates sample_ap))) (map rate_value (rates_of card_rates)) = [0x02, 0x04, 0x0c]"
    by (simp add: rate_value_def)
  have h: "length (SupportedRates sample_ap) = 14" "0 \<in> set (SupportedRates sample_ap)" "Is_DataRate_Auto sample_join"
    by (simp_all add: sample_ap_def sample_join_def)
  obtain out n where o: "length out = 14" "n \<le> 12" "map rate_value (take n out) = [0x02, 0x04, 0x0c]"
    "setup_rates_from_bssdesc True sample_ap sample_join = Some (0, out, n)"
    using common_rates_correct [OF h(1), of sample_join] h(2,3) unfolding f by auto
  have "length (take n out) = 3" using arg_cong [OF o(3), of length] by simp
  then have n: "n = 3" using o(1,2) by simp
  show ?thesis using o(4,3) unfolding n by (intro exI [of _ out] conjI)
qed

theorem associate_rates_overread_witness:
  "\<exists>s. wlan_associate (sample_env 0) 0 s = None"
proof -
  let ?ap = "sample_ap\<lparr>SupportedRates := replicate 14 0x82\<rparr>"
  let ?s = "sample_join\<lparr>j_scan := sample_table\<lparr>ScanTable := ?ap # replicate 63 zero_bss\<rparr>\<rparr>"
  have n: "net_ok ?ap" using sample_nets_ok(2) by (simp add: net_ok_def wf_bss_def)
  then have "tab_ok (sample_table\<lparr>ScanTable := ?ap # replicate 63 zero_bss\<rparr>)"
    using sample_nets_ok(1) by (simp add: tab_ok_def sample_table_def list_all_iff MRVDRV_MAX_BSSID_LIST_def)
  then have j: "join_ok ?s" using sample_join_ok by (simp add: join_ok_def)
  have h: "?ap = ScanTable (j_scan ?s) ! 0" "both_infra ?s ?ap" "e_buf (sample_env 0) = Some zero_cmd" "c_params zero_cmd = replicate 2040 0"
    "e_kmalloc1 (sample_env 0)" "0 \<notin> set (SupportedRates ?ap)" "0x84 \<in> set (rates_of card_rates)" "\<forall>x \<in> set (SupportedRates ?ap). \<not> same_rate 0x84 x"
    using sample_goes_well(2)
    by (simp_all add: both_infra_def sample_env_def zero_cmd_def MRVDRV_SIZE_OF_CMD_BUFFER_def rates_of_card same_rate_def)
  show ?thesis using associate_rates_overread [OF j sample_entry(2) h] by blast
qed

theorem tsf_rebased_witness:
  "le64_to (networkTSF (ScanTable (wlan_scan_update_tsf_timestamps sample_ap sample_table) ! 0)) = le64_to (TimeStamp sample_ap)"
  using tsf_rebased [of sample_table 0 sample_ap "\<lambda>s j. le64_to (networkTSF (ScanTable s ! j))"] by (simp add: sample_table_def)

end
