(* ===== verification/WlanScanCmd.thy ===== *)
theory WlanScanCmd
  imports WlanAssoc
begin

text \<open>
  Scanning, from \<^verbatim>\<open>wlan_scan.c\<close>: the configuration of a scan from what an application asks for, the commands
  into which its channels are split, and \<^verbatim>\<open>wlan_scan_networks\<close>, which sends them, collects the responses in
  the scan table and stops and restarts the data path. The functions that start a scan are here too.
\<close>

section \<open>State and configuration\<close>

text \<open>What an application asks for: \<open>wlan_ioctl_user_scan_cfg\<close>.\<close>

record user_scan_ssid =
  u_ssid :: "u8 list"
  u_maxLen :: u8

record user_scan_chan =
  u_chanNumber :: u8
  u_radioType :: u8
  u_scanType :: u8
  u_scanTime :: u16

record user_scan_cfg =
  u_keepPreviousScan :: u8
  u_bssType :: u8
  u_numProbes :: u8
  u_specificBSSID :: "u8 list"
  u_ssidList :: "user_scan_ssid list"
  u_chanList :: "user_scan_chan list"

definition WLAN_IOCTL_USER_SCAN_CHAN_MAX :: nat where "WLAN_IOCTL_USER_SCAN_CHAN_MAX = 50"
definition MRVDRV_MAX_SSID_LIST_LENGTH :: nat where "MRVDRV_MAX_SSID_LIST_LENGTH = 10"
definition MRVDRV_MAX_CHANNELS_PER_SCAN :: nat where "MRVDRV_MAX_CHANNELS_PER_SCAN = 14"
definition MRVDRV_MAX_TOTAL_SCAN_TIME :: nat where "MRVDRV_MAX_TOTAL_SCAN_TIME = 9000"

definition zero_user_cfg :: user_scan_cfg where
  "zero_user_cfg = \<lparr>u_keepPreviousScan = 0, u_bssType = 0, u_numProbes = 0, u_specificBSSID = replicate 6 0,
     u_ssidList = replicate MRVDRV_MAX_SSID_LIST_LENGTH \<lparr>u_ssid = replicate 33 0, u_maxLen = 0\<rparr>,
     u_chanList = replicate WLAN_IOCTL_USER_SCAN_CHAN_MAX \<lparr>u_chanNumber = 0, u_radioType = 0, u_scanType = 0, u_scanTime = 0\<rparr>\<rparr>"

text \<open>The block on the stack in which the elements of the command are built. The fields in front of the elements take
  twelve bytes.\<close>

definition MAX_SCAN_CFG_ALLOC :: nat where
  "MAX_SCAN_CFG_ALLOC = 16 + 6 + (4 + MRVDRV_MAX_CHANNELS_PER_SCAN * 7) + 5 + (256 + 2)"

definition TLV_ROOM :: nat where "TLV_ROOM = MAX_SCAN_CFG_ALLOC - 12"

record scan_cmd_config =
  sc_bssType :: u8
  sc_specificBSSID :: "u8 list"
  sc_tlvBufferLen :: nat
  sc_tlvBuffer :: "u8 list"

text \<open>The state: that of the connection, the settings for scans, and what is visible outside: the commands sent and the
  number of events.\<close>

record scandev =
  sd :: joindev
  ScanMode :: u32
  ScanProbes :: u16
  bgScan_Enable :: bool
  watchdog_timeo :: u32
  scan_cmds :: "HostCmd list"
  scan_events :: nat
  SurpriseRemoved :: bool

definition sd_upd :: "(joindev \<Rightarrow> joindev) \<Rightarrow> scandev \<Rightarrow> scandev" where
  "sd_upd f d = d\<lparr>sd := f (sd d)\<rparr>"

section \<open>Elements of the command\<close>

definition TLV_TYPE_CHANLIST :: u16 where "TLV_TYPE_CHANLIST = 0x0101"
definition TLV_TYPE_NUMPROBES :: u16 where "TLV_TYPE_NUMPROBES = 0x0102"
definition TLV_TYPE_WILDCARDSSID :: u16 where "TLV_TYPE_WILDCARDSSID = 0x0112"
definition TLV_TYPE_WPS_ENROLLEE_PROBE_REQ_TLV :: u16 where "TLV_TYPE_WPS_ENROLLEE_PROBE_REQ_TLV = 0x011b"

text \<open>The position is advanced by the size of the header twice.\<close>

definition wlan_add_wps_probe_request_ie :: "joindev \<Rightarrow> cursor \<Rightarrow> cursor option" where
  "wlan_add_wps_probe_request_ie s c =
     do { len \<leftarrow> mem_get (wpsIe s) 1;
          if len \<noteq> 0 then
            do { c \<leftarrow> put_bytes (tlv_header TLV_TYPE_WPS_ENROLLEE_PROBE_REQ_TLV (unat len)) c;
                 b \<leftarrow> mem_sub (wpsIe s) 2 (unat len);
                 (p, pos) \<leftarrow> put_bytes b c;
                 Some (p, pos + 4) }
          else Some c }"

text \<open>The loop over the names, with the number of names and \<open>ssidFilter\<close>.\<close>

fun add_ssids :: "user_scan_ssid list \<Rightarrow> nat \<Rightarrow> bool \<Rightarrow> cursor \<Rightarrow> (nat \<times> bool \<times> cursor) option" where
  "add_ssids [] ssidIdx ssidFilter c = Some (ssidIdx, ssidFilter, c)"
| "add_ssids (u # us) ssidIdx ssidFilter c =
     do { x \<leftarrow> mem_get (u_ssid u) 0;
          if x = 0 \<and> u_maxLen u = 0 then Some (ssidIdx, ssidFilter, c)
          else
            do { n \<leftarrow> c_strlen (u_ssid u);
                 let ssidLen = (of_nat n + 1 :: u16);
                 b \<leftarrow> mem_sub (u_ssid u) 0 (unat ssidLen);
                 c \<leftarrow> put_tlv TLV_TYPE_WILDCARDSSID (u_maxLen u # b) c;
                 add_ssids us (ssidIdx + 1) (if ssidLen = 0 \<and> u_maxLen u \<noteq> 0 then False else ssidFilter) c } }"

section \<open>Channels\<close>

definition zero_chan :: ChanScanParamSet where
  "zero_chan = \<lparr>RadioType = 0, ChanNumber = 0, PassiveScan = False, DisableChanFilt = False, MinScanTime = 0, MaxScanTime = 0\<rparr>"

definition chan_bytes :: "ChanScanParamSet \<Rightarrow> u8 list" where
  "chan_bytes c = [RadioType c, ChanNumber c, of_bool (PassiveScan c) OR push_bit 1 (of_bool (DisableChanFilt c))] @
     le16_of (MinScanTime c) @ le16_of (MaxScanTime c)"

definition user_channel :: "adapter_11d \<Rightarrow> bool \<Rightarrow> user_scan_chan \<Rightarrow> ChanScanParamSet" where
  "user_channel a filteredScan u =
     (let passive = (u_scanType u = HostCmd_SCAN_TYPE_PASSIVE);
          scanDur = (if u_scanTime u \<noteq> 0 then u_scanTime u
                     else if passive then PassiveScanTime a else if filteredScan then SpecificScanTime a else ActiveScanTime a)
      in \<lparr>RadioType = u_radioType u, ChanNumber = u_chanNumber u, PassiveScan = passive, DisableChanFilt = False,
          MinScanTime = scanDur, MaxScanTime = scanDur\<rparr>)"

definition user_channels :: "adapter_11d \<Rightarrow> bool \<Rightarrow> user_scan_chan list \<Rightarrow> ChanScanParamSet list" where
  "user_channels a filteredScan us = map (user_channel a filteredScan) (takeWhile (\<lambda>u. u_chanNumber u \<noteq> 0) (take WLAN_IOCTL_USER_SCAN_CHAN_MAX us))"

text \<open>The array with the list, zeros behind it.\<close>

definition chan_array :: "ChanScanParamSet list \<Rightarrow> ChanScanParamSet list option" where
  "chan_array cs = mem_copy (replicate WLAN_IOCTL_USER_SCAN_CHAN_MAX zero_chan) 0 cs"

text \<open>The channels to scan, and whether the data path stays open because it is only the current one.\<close>

definition scan_channels :: "user_scan_cfg option \<Rightarrow> bool \<Rightarrow> joindev \<Rightarrow> (adapter_11d \<times> ChanScanParamSet list \<times> bool) option" where
  "scan_channels uo filteredScan s =
     (let region = do { (a, cs) \<leftarrow> wlan_scan_create_channel_list filteredScan (j_11d s); Some (a, cs, False) }
      in case uo of
           None \<Rightarrow> region
         | Some u \<Rightarrow>
             do { c0 \<leftarrow> mem_get (u_chanList u) 0;
                  if u_chanNumber c0 \<noteq> 0 then
                    (let cs = user_channels (j_11d s) filteredScan (u_chanList u)
                     in Some (j_11d s, cs, length cs = 1 \<and> ucast (u_chanNumber c0) = bss_Channel (cur_bss s)))
                  else region })"

section \<open>The configuration of a scan\<close>

text \<open>The result: the configuration, the position of the channel list, the channels, and the flags \<open>filteredScan\<close> and
  \<open>scanCurrentOnly\<close>. \<open>maxChanPerScan\<close> is always \<open>MRVDRV_MAX_CHANNELS_PER_SCAN\<close>.\<close>

definition wlan_scan_setup_scan_config ::
  "user_scan_cfg option \<Rightarrow> scandev \<Rightarrow> (scan_cmd_config \<times> nat \<times> ChanScanParamSet list \<times> bool \<times> bool \<times> scandev) option" where
  "wlan_scan_setup_scan_config uo d =
     do { let c = (replicate TLV_ROOM 0, 0);
          (bssType, bssid, numProbes, filteredScan, c) \<leftarrow>
            (case uo of
               None \<Rightarrow> Some (ucast (ScanMode d), replicate 6 0, ScanProbes d, False, c)
             | Some u \<Rightarrow>
                 do { (ssidIdx, ssidFilter, c) \<leftarrow> add_ssids (u_ssidList u) 0 True c;
                      Some (if u_bssType u \<noteq> 0 then u_bssType u else ucast (ScanMode d), u_specificBSSID u,
                            if u_numProbes u \<noteq> 0 then ucast (u_numProbes u) else ScanProbes d,
                            (ssidIdx \<noteq> 0 \<and> ssidFilter) \<or> u_specificBSSID u \<noteq> replicate 6 0, c) });
          c \<leftarrow> (if numProbes \<noteq> 0 then put_tlv TLV_TYPE_NUMPROBES (le16_of numProbes) c else Some c);
          (buf, pos) \<leftarrow> wlan_add_wps_probe_request_ie (sd d) c;
          (a, cs, only) \<leftarrow> scan_channels uo filteredScan (sd d);
          arr \<leftarrow> chan_array cs;
          Some (\<lparr>sc_bssType = bssType, sc_specificBSSID = bssid, sc_tlvBufferLen = 0, sc_tlvBuffer = buf\<rparr>, pos, arr, filteredScan, only,
                sd_upd (\<lambda>s. s\<lparr>j_11d := a\<rparr>) d) }"

section \<open>The commands of a scan\<close>

definition HostCmd_CMD_802_11_SCAN :: u16 where "HostCmd_CMD_802_11_SCAN = 6"

definition wlan_cmd_802_11_scan :: "scan_cmd_config \<Rightarrow> HostCmd \<Rightarrow> HostCmd option" where
  "wlan_cmd_802_11_scan cfg cmd =
     do { p \<leftarrow> mem_put (c_params cmd) 0 (sc_bssType cfg);
          p \<leftarrow> mem_copy p 1 (sc_specificBSSID cfg);
          b \<leftarrow> mem_sub (sc_tlvBuffer cfg) 0 (sc_tlvBufferLen cfg);
          p \<leftarrow> mem_copy p 7 b;
          Some (cmd\<lparr>WlanCmd.c_Command := HostCmd_CMD_802_11_SCAN, WlanCmd.c_Size := of_nat (1 + 6 + sc_tlvBufferLen cfg + 8), c_params := p\<rparr>) }"

text \<open>What the surroundings do for the command with each number: the free buffer, the response of the firmware with its size,
  and the result after the wait. \<open>se_bg_off\<close> and \<open>se_bg_on\<close> say whether there is a buffer for the commands of
  the background scan.\<close>

record scan_env =
  se_buf :: "nat \<Rightarrow> HostCmd option"
  se_answer :: "nat \<Rightarrow> (u8 list \<times> u16) option"
  se_ret :: "nat \<Rightarrow> int"
  se_bg_off :: bool
  se_bg_on :: bool

definition send_scan :: "scan_env \<Rightarrow> nat \<Rightarrow> scan_cmd_config \<Rightarrow> scandev \<Rightarrow> (int \<times> scandev) option" where
  "send_scan e n cfg d =
     (case se_buf e n of
        None \<Rightarrow> Some (- 1, d)
      | Some buf \<Rightarrow>
          do { cmd \<leftarrow> wlan_cmd_802_11_scan cfg buf;
               let d = d\<lparr>scan_cmds := scan_cmds d @ [cmd]\<rparr>;
               (case se_answer e n of
                  None \<Rightarrow> Some (se_ret e n, d)
                | Some (resp, rsize) \<Rightarrow>
                    do { (_, t) \<leftarrow> wlan_ret_802_11_scan resp rsize (j_scan (sd d));
                         Some (se_ret e n, sd_upd (\<lambda>s. s\<lparr>j_scan := t\<rparr>) d) }) })"

text \<open>Channels 1, 6 and 11, which get a command of their own.\<close>

definition busy_chan :: "ChanScanParamSet \<Rightarrow> bool" where
  "busy_chan c \<longleftrightarrow> ChanNumber c = 1 \<or> ChanNumber c = 6 \<or> ChanNumber c = 11"

text \<open>The inner loop: the channels for one command and the rest of the array, from the position of \<open>pTmpChan\<close> on.\<close>

fun take_group :: "bool \<Rightarrow> nat \<Rightarrow> bool \<Rightarrow> ChanScanParamSet list \<Rightarrow> (ChanScanParamSet list \<times> ChanScanParamSet list) option" where
  "take_group filteredScan 0 doneEarly arr = Some ([], arr)"
| "take_group filteredScan (Suc k) doneEarly arr =
     do { c \<leftarrow> mem_get arr 0;
          if ChanNumber c = 0 \<or> doneEarly then Some ([], arr)
          else
            do { doneEarly \<leftarrow> (if filteredScan then Some False else do { c' \<leftarrow> mem_get (tl arr) 0; Some (busy_chan c \<or> busy_chan c') });
                 (g, rest) \<leftarrow> take_group filteredScan k doneEarly (tl arr);
                 Some (c # g, rest) } }"

lemma take_group_shorter: "take_group f k b arr = Some (g, rest) \<Longrightarrow> length rest + length g = length arr"
  by (induction f k b arr arbitrary: g rest rule: take_group.induct)
    (fastforce simp: bind_eq_Some_conv mem_get_def split: if_splits)+

lemma take_group_some: "mem_get arr 0 = Some c \<Longrightarrow> ChanNumber c \<noteq> 0 \<Longrightarrow> take_group f (Suc k) False arr = Some (g, rest) \<Longrightarrow> g \<noteq> []"
  by (auto simp: bind_eq_Some_conv split: if_splits)

lemma group_shorter:
  assumes "mem_get arr 0 = Some c" and "ChanNumber c \<noteq> 0" and "take_group f MRVDRV_MAX_CHANNELS_PER_SCAN False arr = Some (g, rest)"
  shows "length rest < length arr"
proof -
  have t: "take_group f (Suc 13) False arr = Some (g, rest)" using assms(3) by (simp add: MRVDRV_MAX_CHANNELS_PER_SCAN_def)
  then have "g \<noteq> []" by (rule take_group_some [OF assms(1,2)])
  then show ?thesis using take_group_shorter [OF t] by (cases g) simp_all
qed

text \<open>The outer loop. The length in the header of the channel list is reset, the entries are copied behind it, and then it is set
  to their size. A failure of one command does not stop the loop.\<close>

function scan_commands ::
  "scan_env \<Rightarrow> bool \<Rightarrow> nat \<Rightarrow> nat \<Rightarrow> ChanScanParamSet list \<Rightarrow> int \<Rightarrow> scan_cmd_config \<Rightarrow> scandev \<Rightarrow> (int \<times> scandev) option" where
  "scan_commands e filteredScan pos n arr ret cfg d =
     do { c \<leftarrow> mem_get arr 0;
          if ChanNumber c = 0 then Some (ret, d)
          else
            do { (g, rest) \<leftarrow> take_group filteredScan MRVDRV_MAX_CHANNELS_PER_SCAN False arr;
                 buf \<leftarrow> mem_copy (sc_tlvBuffer cfg) (pos + 2) (le16_of 0);
                 (buf, lim) \<leftarrow> put_bytes (concat (map chan_bytes g)) (buf, pos + 4);
                 buf \<leftarrow> mem_copy buf (pos + 2) (le16_of (of_nat (7 * length g)));
                 let cfg = cfg\<lparr>sc_tlvBuffer := buf, sc_tlvBufferLen := lim\<rparr>;
                 if sum_list (map (\<lambda>c. unat (MaxScanTime c)) g) > MRVDRV_MAX_TOTAL_SCAN_TIME then Some (- 1, d)
                 else do { (ret, d) \<leftarrow> send_scan e n cfg d; scan_commands e filteredScan pos (n + 1) rest ret cfg d } } }"
  by pat_completeness auto

termination
  by (relation "measure (\<lambda>(e, f, pos, n, arr, ret, cfg, d). length arr)") (auto dest: group_shorter)

definition wlan_scan_channel_list ::
  "scan_env \<Rightarrow> bool \<Rightarrow> scan_cmd_config \<Rightarrow> nat \<Rightarrow> ChanScanParamSet list \<Rightarrow> scandev \<Rightarrow> (int \<times> scandev) option" where
  "wlan_scan_channel_list e filteredScan cfg pos arr d =
     do { buf \<leftarrow> mem_copy (sc_tlvBuffer cfg) pos (le16_of TLV_TYPE_CHANLIST);
          (ret, d) \<leftarrow> scan_commands e filteredScan pos 0 arr 0 (cfg\<lparr>sc_tlvBuffer := buf\<rparr>) d;
          Some (if ret \<noteq> 0 then - 1 else 0, d) }"

section \<open>Scanning\<close>

text \<open>\<open>wlan_bg_scan_enable\<close> with the preparation of its command, which stores the flag.\<close>

definition wlan_bg_scan_enable :: "bool \<Rightarrow> bool \<Rightarrow> scandev \<Rightarrow> scandev" where
  "wlan_bg_scan_enable buf_ok enable d = (if buf_ok then d\<lparr>bgScan_Enable := enable\<rparr> else d)"

definition clear_table :: "scan_dev \<Rightarrow> scan_dev" where
  "clear_table s = s\<lparr>ScanTable := replicate MRVDRV_MAX_BSSID_LIST zero_bss, NumInScanTable := 0, pBeaconBufEnd := 0\<rparr>"

text \<open>The description of the current network is taken from the table, if it is there.\<close>

definition wlan_scan_process_results :: "joindev \<Rightarrow> joindev option" where
  "wlan_scan_process_results s =
     (if connected s then
        do { let b = (cur_bss s)\<lparr>pBeaconBuf := Null, beaconBufSize := 0, beaconBufSizeMax := 0\<rparr>;
             let s = s\<lparr>cur_bss := b\<rparr>;
             i \<leftarrow> FindSSIDInList (j_cfg s) (j_11d s) (j_scan s) (SsidLength b, Ssid b) (Some (MacAddress b)) (InfrastructureMode (j_cfg s));
             if i \<ge> 0 then do { e \<leftarrow> mem_get (ScanTable (j_scan s)) (nat i); Some (set_cur_bss e s) }
             else Some s }
      else Some s)"

text \<open>In jiffies, of which 200 are a second.\<close>

definition MRVDRV_DEFAULT_WATCHDOG_TIMEOUT :: u32 where "MRVDRV_DEFAULT_WATCHDOG_TIMEOUT = 2 * 200"
definition MRVDRV_SCAN_WATCHDOG_TIMEOUT :: u32 where "MRVDRV_SCAN_WATCHDOG_TIMEOUT = 10 * 200"

definition wlan_scan_networks :: "scan_env \<Rightarrow> user_scan_cfg option \<Rightarrow> scandev \<Rightarrow> (int \<times> scandev) option" where
  "wlan_scan_networks e uo d =
     do { (cfg, pos, arr, filteredScan, scanCurrentChanOnly, d) \<leftarrow> wlan_scan_setup_scan_config uo d;
          let keep = (case uo of None \<Rightarrow> False | Some u \<Rightarrow> u_keepPreviousScan u \<noteq> 0);
          let d = (if keep then d else sd_upd (\<lambda>s. s\<lparr>j_scan := clear_table (j_scan s)\<rparr>) d);
          let d = (if scanCurrentChanOnly then d else sd_upd (jw_upd wmm_stop_queue) (d\<lparr>watchdog_timeo := MRVDRV_SCAN_WATCHDOG_TIMEOUT\<rparr>));
          let bBgScan = bgScan_Enable d;
          let d = (if bBgScan then wlan_bg_scan_enable (se_bg_off e) False d else d);
          (ret, d) \<leftarrow> wlan_scan_channel_list e filteredScan cfg pos arr d;
          s \<leftarrow> wlan_scan_process_results (sd d);
          let d = d\<lparr>sd := s\<rparr>;
          let d = (if bBgScan then wlan_bg_scan_enable (se_bg_on e) True d else d);
          let d = d\<lparr>watchdog_timeo := MRVDRV_DEFAULT_WATCHDOG_TIMEOUT\<rparr>;
          let d = (if connected (sd d) then sd_upd (jw_upd wmm_start_queue) d else d);
          Some (ret, sd_upd (jw_upd (\<lambda>w. os_start_queue (os_carrier_on w))) d) }"

section \<open>Who scans\<close>

lemma delete_counts: "wlan_scan_delete_table_entry i s = Some t \<Longrightarrow> NumInScanTable t = NumInScanTable s - 1"
  by (auto simp: wlan_scan_delete_table_entry_def compact_buffer_def bind_eq_Some_conv Let_def split: if_splits bcn_ptr.splits)

lemma find_none: "NumInScanTable s = 0 \<Longrightarrow> FindSSIDInList c a s ssid bssid mode = Some (- ENETUNREACH)"
  by (simp add: FindSSIDInList_def check_channel_def ENETUNREACH_def)

text \<open>All entries with a name are deleted; the result says whether there was one.\<close>

function wlan_scan_delete_ssid_table_entry :: "net_cfg \<Rightarrow> adapter_11d \<Rightarrow> u32 \<times> u8 list \<Rightarrow> int \<Rightarrow> scan_dev \<Rightarrow> (int \<times> scan_dev) option" where
  "wlan_scan_delete_ssid_table_entry c a ssid retval s =
     do { i \<leftarrow> FindSSIDInList c a s ssid None Wlan802_11AutoUnknown;
          if i \<ge> 0 then
            do { s \<leftarrow> wlan_scan_delete_table_entry (nat i) s; wlan_scan_delete_ssid_table_entry c a ssid 0 s }
          else Some (retval, s) }"
  by pat_completeness auto

termination
proof (relation "measure (\<lambda>(c, a, ssid, retval, s). NumInScanTable s)")
  fix c a ssid s i t and retval :: int
  assume "FindSSIDInList c a s ssid None Wlan802_11AutoUnknown = Some i" "0 \<le> i" and t: "wlan_scan_delete_table_entry (nat i) s = Some t"
  then have "NumInScanTable s \<noteq> 0" using find_none [of s c a ssid None Wlan802_11AutoUnknown] by (auto simp: ENETUNREACH_def)
  then show "((c, a, ssid, 0 :: int, t), c, a, ssid, retval, s) \<in> measure (\<lambda>(c, a, ssid, retval, s). NumInScanTable s)"
    using delete_counts [OF t] by simp
qed simp

text \<open>The configuration for one name.\<close>

definition ssid_cfg :: "u32 \<times> u8 list \<Rightarrow> user_scan_cfg option" where
  "ssid_cfg = (\<lambda>(len, ssid).
     do { b \<leftarrow> mem_sub ssid 0 (unat len);
          x \<leftarrow> mem_copy (replicate 33 0) 0 b;
          Some (zero_user_cfg\<lparr>u_ssidList := (u_ssidList zero_user_cfg)[0 := \<lparr>u_ssid = x, u_maxLen = 0\<rparr>]\<rparr>) })"

definition SendSpecificSSIDScan :: "scan_env \<Rightarrow> u32 \<times> u8 list \<Rightarrow> scandev \<Rightarrow> (int \<times> scandev) option" where
  "SendSpecificSSIDScan e ssid d =
     do { (_, t) \<leftarrow> wlan_scan_delete_ssid_table_entry (j_cfg (sd d)) (j_11d (sd d)) ssid (- 1) (j_scan (sd d));
          u \<leftarrow> ssid_cfg ssid;
          (_, d) \<leftarrow> wlan_scan_networks e (Some (u\<lparr>u_keepPreviousScan := 1\<rparr>)) (sd_upd (\<lambda>s. s\<lparr>j_scan := t\<rparr>) d);
          Some (if SurpriseRemoved d then - 1 else 0, d) }"

definition SendSpecificBSSIDScan :: "scan_env \<Rightarrow> u8 list \<Rightarrow> scandev \<Rightarrow> (int \<times> scandev) option" where
  "SendSpecificBSSIDScan e bssid d =
     do { b \<leftarrow> mem_sub bssid 0 6;
          (_, d) \<leftarrow> wlan_scan_networks e (Some (zero_user_cfg\<lparr>u_specificBSSID := b, u_keepPreviousScan := 1\<rparr>)) d;
          Some (0, d) }"

text \<open>The configuration as it is copied from the application, \<^term>\<open>None\<close> if that fails.\<close>

definition wlan_set_user_scan_ioctl :: "scan_env \<Rightarrow> user_scan_cfg option \<Rightarrow> scandev \<Rightarrow> (int \<times> scandev) option" where
  "wlan_set_user_scan_ioctl e user d =
     (case user of
        None \<Rightarrow> Some (- EFAULT, d)
      | Some u \<Rightarrow> do { (ret, d) \<leftarrow> wlan_scan_networks e (Some u) d; Some (ret, d\<lparr>scan_events := scan_events d + 1\<rparr>) })"

definition wlan_extscan_ioctl :: "scan_env \<Rightarrow> (u32 \<times> u8 list) option \<Rightarrow> scandev \<Rightarrow> (int \<times> scandev) option" where
  "wlan_extscan_ioctl e user d =
     (case user of
        None \<Rightarrow> Some (- EFAULT, d)
      | Some ssid \<Rightarrow>
          do { u \<leftarrow> ssid_cfg ssid;
               (_, d) \<leftarrow> wlan_scan_networks e (Some u) d;
               Some (if SurpriseRemoved d then - 1 else 0, d\<lparr>scan_events := scan_events d + 1\<rparr>) })"

text \<open>\<open>essid\<close> is the name of a request for one network.\<close>

definition wlan_set_scan :: "scan_env \<Rightarrow> bool \<Rightarrow> (u8 \<times> u8 list) option \<Rightarrow> scandev \<Rightarrow> (int \<times> scandev) option" where
  "wlan_set_scan e allowed essid d =
     (if \<not> allowed then Some (- EBUSY, d)
      else
        do { d \<leftarrow>
               (let scan = (\<lambda>uo. do { (ret, d) \<leftarrow> wlan_scan_networks e uo d; Some (if ret = 0 then d\<lparr>scan_events := scan_events d + 1\<rparr> else d) })
                in case essid of
                     None \<Rightarrow> scan None
                   | Some (len, b) \<Rightarrow> if len \<le> 32 then do { u \<leftarrow> ssid_cfg (ucast len, b); scan (Some u) } else Some d);
             Some (if SurpriseRemoved d then - 1 else 0, d) })"

end
