(* ===== verification/WlanScanInv.thy ===== *)
theory WlanScanInv
  imports WlanScanCmd
begin

text \<open>
  The commands of a scan as a specification: \<open>groups\<close> splits the channels, \<open>scan_cmd\<close> is the command for a group
  and \<open>scan_tlvs\<close> are the elements of a request. The lemmas follow the code from the inside: one group, one
  command, the loop over the groups with the responses, the configuration, and what is done after the last
  response. Entries of a channel list are a second interpretation of \<open>listing\<close>.
\<close>

section \<open>Entries of a channel list\<close>

fun read_chans :: "u8 list \<Rightarrow> ChanScanParamSet list option" where
  "read_chans [] = Some []"
| "read_chans (r # n # m # a # b # x # y # rest) =
     map_option ((#) \<lparr>RadioType = r, ChanNumber = n, PassiveScan = bit m 0, DisableChanFilt = bit m 1,
       MinScanTime = le16_to a b, MaxScanTime = le16_to x y\<rparr>) (read_chans rest)"
| "read_chans _ = None"

lemma length_chan_bytes [simp]: "length (chan_bytes c) = 7"
  by (simp add: chan_bytes_def)

lemma length_chans_bytes [simp]: "length (concat (map chan_bytes cs)) = 7 * length cs"
  by (induction cs) simp_all

interpretation chans: listing chan_bytes read_chans "\<lambda>_. True"
proof
  fix c :: ChanScanParamSet and r
  have "bit (of_bool p OR push_bit 1 (of_bool q) :: u8) 0 = p" "bit (of_bool p OR push_bit 1 (of_bool q) :: u8) 1 = q" for p q
    by (cases p; cases q; simp)+
  then show "read_chans (chan_bytes c @ r) = map_option ((#) c) (read_chans r)"
    by (cases c) (simp add: chan_bytes_def le16_of_def)
qed simp

section \<open>How the channels are split\<close>

text \<open>The specification: how many of the channels the next command has.\<close>

fun group_len :: "bool \<Rightarrow> nat \<Rightarrow> ChanScanParamSet list \<Rightarrow> nat" where
  "group_len f 0 cs = 0"
| "group_len f (Suc k) [] = 0"
| "group_len f (Suc k) (c # cs) =
     (if \<not> f \<and> (busy_chan c \<or> cs \<noteq> [] \<and> busy_chan (hd cs)) then 1 else Suc (group_len f k cs))"

lemma group_len_le: "group_len f k cs \<le> k" "group_len f k cs \<le> length cs"
  by (induction f k cs rule: group_len.induct) auto

lemma group_len_pos: "cs \<noteq> [] \<Longrightarrow> 0 < group_len f (Suc k) cs"
  by (cases cs) simp_all

function groups :: "bool \<Rightarrow> ChanScanParamSet list \<Rightarrow> ChanScanParamSet list list" where
  "groups f cs = (if cs = [] then [] else take (group_len f 14 cs) cs # groups f (drop (group_len f 14 cs) cs))"
  by pat_completeness auto

termination
proof (relation "measure (\<lambda>(f, cs). length cs)")
  fix f cs assume "cs \<noteq> ([] :: ChanScanParamSet list)"
  then show "((f, drop (group_len f 14 cs) cs), f, cs) \<in> measure (\<lambda>(f, cs). length cs)" using group_len_pos [of cs f 13] by simp
qed simp

declare groups.simps [simp del]

lemma groups_nil [simp]: "groups f [] = []"
  by (simp add: groups.simps)

lemma groups_concat: "concat (groups f cs) = cs"
proof (induction f cs rule: groups.induct)
  case (1 f cs)
  then show ?case by (cases "cs = []") (simp_all add: groups.simps [of f cs])
qed

lemma group_alone: "\<not> f \<Longrightarrow> c \<in> set (take (group_len f k cs) cs) \<Longrightarrow> busy_chan c \<Longrightarrow> take (group_len f k cs) cs = [c]"
proof (induction f k cs rule: group_len.induct)
  case (3 f k e cs)
  show ?case
  proof (cases "busy_chan e \<or> cs \<noteq> [] \<and> busy_chan (hd cs)")
    case False
    with 3 have "c \<in> set (take (group_len f k cs) cs)" by auto
    then have "take (group_len f k cs) cs = [c]" using 3 False by simp
    then have "cs \<noteq> [] \<and> hd cs = c" by (cases cs; cases "group_len f k cs") auto
    then show ?thesis using False 3(4) by simp
  qed (use 3 in auto)
qed simp_all

lemma groups_each: "g \<in> set (groups f cs) \<Longrightarrow> g \<noteq> [] \<and> length g \<le> 14 \<and> (\<not> f \<longrightarrow> (\<exists>c \<in> set g. busy_chan c) \<longrightarrow> length g = 1)"
proof (induction f cs rule: groups.induct)
  case (1 f cs)
  show ?case
  proof (cases "g = take (group_len f 14 cs) cs \<and> cs \<noteq> []")
    case True
    have "0 < group_len f 14 cs" using True group_len_pos [of cs f 13] by simp
    then have "g \<noteq> []" "length g \<le> 14" using True group_len_le(1) [of f 14 cs] by auto
    moreover have "length g = 1" if "\<not> f" "c \<in> set g" "busy_chan c" for c
      using group_alone [OF that(1), of c 14 cs] that True by (metis One_nat_def length_Cons list.size(3))
    ultimately show ?thesis by blast
  next
    case False
    then show ?thesis using 1 by (cases "cs = []") (auto simp: groups.simps [of f cs])
  qed
qed

section \<open>The loops\<close>

definition real_chans :: "ChanScanParamSet list \<Rightarrow> bool" where
  "real_chans cs \<longleftrightarrow> (\<forall>c \<in> set cs. ChanNumber c \<noteq> 0)"

lemma zero_chan_simps [simp]: "ChanNumber zero_chan = 0" "busy_chan zero_chan = False"
  by (simp_all add: zero_chan_def busy_chan_def)

lemma take_group_early: "arr \<noteq> [] \<Longrightarrow> take_group f k True arr = Some ([], arr)"
  by (cases k) (simp_all add: mem_get_def)

lemma take_group_eq:
  "real_chans cs \<Longrightarrow> take_group f k False (cs @ zero_chan # z) = Some (take (group_len f k cs) cs, drop (group_len f k cs) cs @ zero_chan # z)"
proof (induction f k cs rule: group_len.induct)
  case (2 f k)
  then show ?case by (simp add: mem_get_def)
next
  case (3 f k c cs)
  let ?arr = "cs @ zero_chan # z"
  have c: "ChanNumber c \<noteq> 0" and r: "real_chans cs" using 3(2) by (simp_all add: real_chans_def)
  obtain c' where c': "mem_get ?arr 0 = Some c'" "busy_chan c' \<longleftrightarrow> cs \<noteq> [] \<and> busy_chan (hd cs)"
    by (cases cs) (simp_all add: mem_get_def)
  show ?case
  proof (cases "\<not> f \<and> (busy_chan c \<or> busy_chan c')")
    case True
    then have "take_group f (Suc k) False (c # ?arr) = Some ([c], ?arr)" using c c'(1) take_group_early [of ?arr f k] by (simp add: mem_get_def)
    then show ?thesis using True c'(2) by simp
  next
    case False
    then have "take_group f k False ?arr = Some (take (group_len f k cs) cs, drop (group_len f k cs) cs @ zero_chan # z)"
      using 3(1) r c'(2) by auto
    then have "take_group f (Suc k) False (c # ?arr) = Some (c # take (group_len f k cs) cs, drop (group_len f k cs) cs @ zero_chan # z)"
      using c c'(1) False by (cases f) (simp_all add: mem_get_def)
    moreover have "\<not> (\<not> f \<and> (busy_chan c \<or> cs \<noteq> [] \<and> busy_chan (hd cs)))" using False c'(2) by blast
    ultimately show ?thesis by auto
  qed
qed simp

section \<open>The commands\<close>

definition chan_tlv :: "ChanScanParamSet list \<Rightarrow> tlv" where
  "chan_tlv g = (TLV_TYPE_CHANLIST, concat (map chan_bytes g))"

text \<open>The command for a group of channels, as a specification.\<close>

definition scan_cmd :: "u8 \<Rightarrow> u8 list \<Rightarrow> u8 list \<Rightarrow> ChanScanParamSet list \<Rightarrow> HostCmd \<Rightarrow> HostCmd" where
  "scan_cmd bt mac pre g buf =
     (let b = pre @ tlv_bytes (chan_tlv g)
      in buf\<lparr>WlanCmd.c_Command := HostCmd_CMD_802_11_SCAN, WlanCmd.c_Size := of_nat (15 + length b), c_params := pad 2040 (bt # mac @ b)\<rparr>)"

text \<open>The buffer in front of the channel list and the type of that are written.\<close>

definition chan_buf :: "u8 list \<Rightarrow> u8 list \<Rightarrow> bool" where
  "chan_buf pre b \<longleftrightarrow> length b = TLV_ROOM \<and> length pre + 102 \<le> TLV_ROOM \<and> take (length pre + 2) b = pre @ le16_of TLV_TYPE_CHANLIST"

lemma length_chan_tlv [simp]: "length (snd (chan_tlv g)) = 7 * length g"
  by (simp add: chan_tlv_def)

lemma write_chans:
  assumes "chan_buf pre b" and "length g \<le> 14"
  shows "\<exists>b1 b2 b3. mem_copy b (length pre + 2) (le16_of 0) = Some b1 \<and>
    put_bytes (concat (map chan_bytes g)) (b1, length pre + 4) = Some (b2, length pre + 4 + 7 * length g) \<and>
    mem_copy b2 (length pre + 2) (le16_of (of_nat (7 * length g))) = Some b3 \<and> chan_buf pre b3 \<and>
    take (length pre + 4 + 7 * length g) b3 = pre @ tlv_bytes (chan_tlv g)"
proof -
  let ?p = "length pre" and ?T = "le16_of TLV_TYPE_CHANLIST"
  have l: "length b = TLV_ROOM" "?p + 102 \<le> TLV_ROOM" "take (?p + 2) b = pre @ ?T" using assms(1) by (simp_all add: chan_buf_def)
  define r where "r = drop (?p + 2) b"
  have b: "b = pre @ ?T @ r" using append_take_drop_id [of "?p + 2" b] unfolding l(3) r_def by simp
  have lr: "100 \<le> length r" using l by (simp add: r_def)
  define x y where "x = take 2 r" and "y = drop 2 r"
  have r: "r = x @ y" "length x = 2" "98 \<le> length y" using lr by (simp_all add: x_def y_def)
  define u v where "u = take (7 * length g) y" and "v = drop (7 * length g) y"
  have y: "y = u @ v" "length u = 7 * length g" using r assms(2) by (simp_all add: u_def v_def)
  let ?c = "concat (map chan_bytes g)" and ?n = "le16_of (of_nat (7 * length g))"
  have c1: "mem_copy b (?p + 2) (le16_of 0) = Some (pre @ ?T @ le16_of 0 @ u @ v)"
    using y r by (simp add: b mem_copy_def)
  have c2: "put_bytes ?c (pre @ ?T @ le16_of 0 @ u @ v, ?p + 4) = Some (pre @ ?T @ le16_of 0 @ ?c @ v, ?p + 4 + 7 * length g)"
    using y by (simp add: put_bytes_def mem_copy_def)
  have c3: "mem_copy (pre @ ?T @ le16_of 0 @ ?c @ v) (?p + 2) ?n = Some (pre @ ?T @ ?n @ ?c @ v)"
    by (simp add: mem_copy_def)
  have "length (pre @ ?T @ ?n @ ?c @ v) = TLV_ROOM" using l(1) arg_cong [OF b, of length] r y by simp
  then have "chan_buf pre (pre @ ?T @ ?n @ ?c @ v)" using l(2) by (simp add: chan_buf_def)
  moreover have "take (?p + 4 + 7 * length g) (pre @ ?T @ ?n @ ?c @ v) = pre @ tlv_bytes (chan_tlv g)"
    by (simp add: chan_tlv_def tlv_bytes_def tlv_header_def)
  ultimately show ?thesis using c1 c2 c3 by blast
qed

lemma mem_copy_pad: "length pre + length b \<le> n \<Longrightarrow> k = length pre \<Longrightarrow> mem_copy (pad n pre) k b = Some (pad n (pre @ b))"
  by (simp add: pad_def mem_copy_def)

lemma cmd_scan_eq:
  assumes "c_params buf = replicate 2040 0" and "length (sc_specificBSSID cfg) = 6" and "length (sc_tlvBuffer cfg) = TLV_ROOM"
    and "take (sc_tlvBufferLen cfg) (sc_tlvBuffer cfg) = pre @ tlv_bytes (chan_tlv g)" and "sc_tlvBufferLen cfg = length pre + 4 + 7 * length g"
    and "sc_tlvBufferLen cfg \<le> TLV_ROOM"
  shows "wlan_cmd_802_11_scan cfg buf = Some (scan_cmd (sc_bssType cfg) (sc_specificBSSID cfg) pre g buf)"
proof -
  let ?b = "pre @ tlv_bytes (chan_tlv g)" and ?m = "sc_specificBSSID cfg"
  have l: "length ?b = sc_tlvBufferLen cfg" "length ?b \<le> 375" using assms(5,6) by (simp_all add: TLV_ROOM_def MAX_SCAN_CFG_ALLOC_def MRVDRV_MAX_CHANNELS_PER_SCAN_def)
  have s: "mem_sub (sc_tlvBuffer cfg) 0 (sc_tlvBufferLen cfg) = Some ?b" using assms(3,4,6) by (simp add: mem_sub_def)
  have "mem_put (replicate 2040 0) 0 (sc_bssType cfg) = Some (sc_bssType cfg # replicate 2039 0)"
    by (simp add: mem_put_def numeral_eq_Suc)
  moreover have "mem_copy (sc_bssType cfg # replicate 2039 0) 1 ?m = Some (sc_bssType cfg # ?m @ replicate 2033 0)"
    using assms(2) by (simp add: mem_copy_def)
  moreover have "mem_copy (sc_bssType cfg # ?m @ replicate 2033 0) 7 ?b = Some (pad 2040 (sc_bssType cfg # ?m @ ?b))"
  proof -
    have p: "pad 2040 (sc_bssType cfg # ?m) = sc_bssType cfg # ?m @ replicate 2033 0" using assms(2) by (simp add: pad_def)
    have q: "length (sc_bssType cfg # ?m) + length ?b \<le> 2040" "7 = length (sc_bssType cfg # ?m)" using assms(2) l(2) by simp_all
    from mem_copy_pad [OF q] show ?thesis unfolding p append_Cons .
  qed
  moreover have "1 + 6 + sc_tlvBufferLen cfg + 8 = 15 + length ?b" unfolding l(1) [symmetric] by simp
  ultimately show ?thesis
    unfolding wlan_cmd_802_11_scan_def assms(1) s scan_cmd_def Let_def by (simp only: Option.bind.bind_lunit)
qed

text \<open>The firmware has a free buffer for each of the commands and answers with some networks; the networks of all answers are
  different and fit into the table.\<close>

definition answers :: "scan_env \<Rightarrow> (nat \<Rightarrow> beacon list) \<Rightarrow> nat \<Rightarrow> nat \<Rightarrow> beacon list \<Rightarrow> bool" where
  "answers e bss n m done \<longleftrightarrow>
     (\<forall>i \<in> {n..<n + m}. (\<exists>buf. se_buf e i = Some buf \<and> c_params buf = replicate 2040 0) \<and>
        se_answer e i = Some (scan_response (bss i), of_nat (8 + length (scan_response (bss i)))) \<and>
        length (scan_response (bss i)) < 65528 \<and> (\<forall>b \<in> set (bss i). wf_beacon b)) \<and>
     distinct (map bkey (done @ concat (map bss [n..<n + m]))) \<and> length (done @ concat (map bss [n..<n + m])) \<le> 64"

lemma answers_step:
  assumes "answers e bss n (Suc m) done"
  shows "answers e bss (Suc n) m (done @ bss n)"
proof -
  have u: "done @ concat (map bss [n..<n + Suc m]) = (done @ bss n) @ concat (map bss [Suc n..<Suc n + m])"
    by (simp add: upt_conv_Cons del: upt_Suc)
  have "i \<in> {n..<n + Suc m}" if "i \<in> {Suc n..<Suc n + m}" for i using that by simp
  then show ?thesis using assms unfolding answers_def u by blast
qed

definition the_buf :: "scan_env \<Rightarrow> nat \<Rightarrow> HostCmd" where
  "the_buf e i = (case se_buf e i of Some b \<Rightarrow> b | None \<Rightarrow> undefined)"

lemma send_scan_eq:
  assumes "answers e bss n (Suc m) done" and "table_is done (j_scan (sd d))" and "NumInScanTable (j_scan (sd d)) = length done"
    and "wlan_cmd_802_11_scan cfg (the_buf e n) = Some cmd"
  shows "\<exists>t. send_scan e n cfg d = Some (se_ret e n, d\<lparr>scan_cmds := scan_cmds d @ [cmd], sd := (sd d)\<lparr>j_scan := t\<rparr>\<rparr>) \<and>
    table_is (done @ bss n) t \<and> NumInScanTable t = length (done @ bss n) \<and>
    (all_stored done (j_scan (sd d)) \<longrightarrow> room (done @ bss n) < 6000 \<longrightarrow> all_stored (done @ bss n) t)"
proof -
  have u: "done @ concat (map bss [n..<n + Suc m]) = (done @ bss n) @ concat (map bss [Suc n..<Suc n + m])"
    by (simp add: upt_conv_Cons del: upt_Suc)
  have "n \<in> {n..<n + Suc m}" by simp
  then have i: "(\<exists>buf. se_buf e n = Some buf \<and> c_params buf = replicate 2040 0)" "\<forall>b \<in> set (bss n). wf_beacon b" "length (scan_response (bss n)) < 65528"
    "se_answer e n = Some (scan_response (bss n), of_nat (8 + length (scan_response (bss n))))"
    using assms(1) unfolding answers_def by blast+
  have a: "distinct (map bkey (done @ bss n))" "length (done @ bss n) \<le> 64" using assms(1) unfolding answers_def u by auto
  have "se_buf e n = Some (the_buf e n)" using i(1) by (auto simp: the_buf_def)
  with scan_more [OF assms(2,3) i(2) a i(3)] i(4) assms(4) show ?thesis by (auto simp: send_scan_def sd_upd_def)
qed

definition scan_time :: "ChanScanParamSet list \<Rightarrow> nat" where
  "scan_time g = sum_list (map (\<lambda>c. unat (MaxScanTime c)) g)"

definition sent_for :: "scan_env \<Rightarrow> scan_cmd_config \<Rightarrow> u8 list \<Rightarrow> nat \<Rightarrow> ChanScanParamSet list list \<Rightarrow> HostCmd list" where
  "sent_for e cfg pre n gs = map (\<lambda>(i, g). scan_cmd (sc_bssType cfg) (sc_specificBSSID cfg) pre g (the_buf e i)) (enumerate n gs)"

declare scan_commands.simps [simp del]

lemma scan_commands_end: "scan_commands e f pos n (zero_chan # z) ret cfg d = Some (ret, d)"
  by (simp add: scan_commands.simps mem_get_def)

text \<open>One round of the outer loop.\<close>

lemma scan_commands_step:
  assumes "real_chans cs" and "cs \<noteq> []" and "answers e bss n (Suc m) done" and "table_is done (j_scan (sd d))"
    and "NumInScanTable (j_scan (sd d)) = length done" and "chan_buf pre (sc_tlvBuffer cfg)" and "length (sc_specificBSSID cfg) = 6"
    and "g = take (group_len f 14 cs) cs" and "scan_time g \<le> 9000"
  shows "\<exists>t cfg'. scan_commands e f (length pre) n (cs @ zero_chan # z) ret cfg d =
      scan_commands e f (length pre) (Suc n) (drop (group_len f 14 cs) cs @ zero_chan # z) (se_ret e n) cfg'
        (d\<lparr>scan_cmds := scan_cmds d @ [scan_cmd (sc_bssType cfg) (sc_specificBSSID cfg) pre g (the_buf e n)], sd := (sd d)\<lparr>j_scan := t\<rparr>\<rparr>) \<and>
    sc_bssType cfg' = sc_bssType cfg \<and> sc_specificBSSID cfg' = sc_specificBSSID cfg \<and> chan_buf pre (sc_tlvBuffer cfg') \<and>
    table_is (done @ bss n) t \<and> NumInScanTable t = length (done @ bss n) \<and>
    (all_stored done (j_scan (sd d)) \<longrightarrow> room (done @ bss n) < 6000 \<longrightarrow> all_stored (done @ bss n) t)"
proof -
  let ?arr = "cs @ zero_chan # z" and ?rest = "drop (group_len f 14 cs) cs @ zero_chan # z"
  obtain c where c: "mem_get ?arr 0 = Some c" "ChanNumber c \<noteq> 0" using assms(1,2) by (cases cs) (simp_all add: mem_get_def real_chans_def)
  have tg: "take_group f MRVDRV_MAX_CHANNELS_PER_SCAN False ?arr = Some (g, ?rest)"
    using take_group_eq [OF assms(1), of f 14 z] assms(8) by (simp add: MRVDRV_MAX_CHANNELS_PER_SCAN_def)
  have g: "length g \<le> 14" using assms(8) group_len_le(1) [of f 14 cs] by simp
  obtain b1 b2 b3 where b: "mem_copy (sc_tlvBuffer cfg) (length pre + 2) (le16_of 0) = Some b1"
    "put_bytes (concat (map chan_bytes g)) (b1, length pre + 4) = Some (b2, length pre + 4 + 7 * length g)"
    "mem_copy b2 (length pre + 2) (le16_of (of_nat (7 * length g))) = Some b3" "chan_buf pre b3"
    "take (length pre + 4 + 7 * length g) b3 = pre @ tlv_bytes (chan_tlv g)"
    using write_chans [OF assms(6) g] by blast
  define cfg' where "cfg' = cfg\<lparr>sc_tlvBuffer := b3, sc_tlvBufferLen := length pre + 4 + 7 * length g\<rparr>"
  have "n \<in> {n..<n + Suc m}" by simp
  then obtain buf where buf: "se_buf e n = Some buf" "c_params buf = replicate 2040 0" using assms(3) unfolding answers_def by blast
  have cmd: "wlan_cmd_802_11_scan cfg' (the_buf e n) = Some (scan_cmd (sc_bssType cfg') (sc_specificBSSID cfg') pre g (the_buf e n))"
  proof (rule cmd_scan_eq)
    show "sc_tlvBufferLen cfg' \<le> TLV_ROOM" using b(4) g by (simp add: cfg'_def chan_buf_def)
  qed (use buf assms(7) b(4,5) in \<open>simp_all add: cfg'_def the_buf_def chan_buf_def\<close>)
  obtain t where t: "send_scan e n cfg' d = Some (se_ret e n, d\<lparr>scan_cmds := scan_cmds d @
      [scan_cmd (sc_bssType cfg') (sc_specificBSSID cfg') pre g (the_buf e n)], sd := (sd d)\<lparr>j_scan := t\<rparr>\<rparr>)"
    "table_is (done @ bss n) t" "NumInScanTable t = length (done @ bss n)"
    "all_stored done (j_scan (sd d)) \<longrightarrow> room (done @ bss n) < 6000 \<longrightarrow> all_stored (done @ bss n) t"
    using send_scan_eq [OF assms(3-5) cmd] by blast
  have same: "sc_bssType cfg' = sc_bssType cfg" "sc_specificBSSID cfg' = sc_specificBSSID cfg" "sc_tlvBuffer cfg' = b3" by (simp_all add: cfg'_def)
  have time: "\<not> MRVDRV_MAX_TOTAL_SCAN_TIME < sum_list (map (\<lambda>c. unat (MaxScanTime c)) g)"
    using assms(9) by (simp add: scan_time_def MRVDRV_MAX_TOTAL_SCAN_TIME_def)
  have "scan_commands e f (length pre) n ?arr ret cfg d = do { (ret, d) \<leftarrow> send_scan e n cfg' d; scan_commands e f (length pre) (n + 1) ?rest ret cfg' d }"
    by (subst scan_commands.simps) (simp only: c tg b(1-3) time cfg'_def [symmetric] Let_def Option.bind.bind_lunit prod.case if_False)
  then show ?thesis using t same b(4) by auto
qed

lemma scan_commands_eq:
  assumes "real_chans cs" and "answers e bss n (length (groups f cs)) done" and "table_is done (j_scan (sd d))"
    and "NumInScanTable (j_scan (sd d)) = length done" and "chan_buf pre (sc_tlvBuffer cfg)" and "length (sc_specificBSSID cfg) = 6"
    and "\<forall>g \<in> set (groups f cs). scan_time g \<le> 9000"
  shows "\<exists>t. scan_commands e f (length pre) n (cs @ zero_chan # z) ret cfg d =
      Some (if cs = [] then ret else se_ret e (n + length (groups f cs) - 1),
        d\<lparr>scan_cmds := scan_cmds d @ sent_for e cfg pre n (groups f cs), sd := (sd d)\<lparr>j_scan := t\<rparr>\<rparr>) \<and>
    table_is (done @ concat (map bss [n..<n + length (groups f cs)])) t \<and> NumInScanTable t = length (done @ concat (map bss [n..<n + length (groups f cs)])) \<and>
    (all_stored done (j_scan (sd d)) \<longrightarrow> room (done @ concat (map bss [n..<n + length (groups f cs)])) < 6000 \<longrightarrow>
      all_stored (done @ concat (map bss [n..<n + length (groups f cs)])) t)"
  using assms
proof (induction f cs arbitrary: n "done" ret cfg d rule: groups.induct)
  case (1 f cs)
  show ?case
  proof (cases "cs = []")
    case True
    then show ?thesis using 1 by (intro exI [of _ "j_scan (sd d)"]) (simp add: scan_commands_end sent_for_def)
  next
    case False
    let ?k = "group_len f 14 cs" and ?g = "take (group_len f 14 cs) cs" and ?cs = "drop (group_len f 14 cs) cs"
    have gs: "groups f cs = ?g # groups f ?cs" using False by (simp add: groups.simps [of f cs])
    let ?m = "length (groups f ?cs)"
    have a: "answers e bss n (Suc ?m) done" "scan_time ?g \<le> 9000" using 1 gs by simp_all
    obtain t cfg' where t: "scan_commands e f (length pre) n (cs @ zero_chan # z) ret cfg d =
      scan_commands e f (length pre) (Suc n) (?cs @ zero_chan # z) (se_ret e n) cfg'
        (d\<lparr>scan_cmds := scan_cmds d @ [scan_cmd (sc_bssType cfg) (sc_specificBSSID cfg) pre ?g (the_buf e n)], sd := (sd d)\<lparr>j_scan := t\<rparr>\<rparr>)"
      "sc_bssType cfg' = sc_bssType cfg" "sc_specificBSSID cfg' = sc_specificBSSID cfg" "chan_buf pre (sc_tlvBuffer cfg')"
      "table_is (done @ bss n) t" "NumInScanTable t = length (done @ bss n)"
      "all_stored done (j_scan (sd d)) \<longrightarrow> room (done @ bss n) < 6000 \<longrightarrow> all_stored (done @ bss n) t"
      using scan_commands_step [OF 1(2) False a(1) 1(4-7) refl a(2), of z ret] by blast
    let ?d = "d\<lparr>scan_cmds := scan_cmds d @ [scan_cmd (sc_bssType cfg) (sc_specificBSSID cfg) pre ?g (the_buf e n)], sd := (sd d)\<lparr>j_scan := t\<rparr>\<rparr>"
    have r: "real_chans ?cs" "\<forall>g \<in> set (groups f ?cs). scan_time g \<le> 9000" using 1(2,8) gs by (auto simp: real_chans_def dest: in_set_dropD)
    have c: "done @ concat (map bss [n..<n + Suc ?m]) = (done @ bss n) @ concat (map bss [Suc n..<Suc n + ?m])"
      by (simp add: upt_conv_Cons del: upt_Suc)
    obtain u where u: "scan_commands e f (length pre) (Suc n) (?cs @ zero_chan # z) (se_ret e n) cfg' ?d =
        Some (if ?cs = [] then se_ret e n else se_ret e (Suc n + ?m - 1),
          ?d\<lparr>scan_cmds := scan_cmds ?d @ sent_for e cfg' pre (Suc n) (groups f ?cs), sd := (sd ?d)\<lparr>j_scan := u\<rparr>\<rparr>)"
      "table_is ((done @ bss n) @ concat (map bss [Suc n..<Suc n + ?m])) u"
      "NumInScanTable u = length ((done @ bss n) @ concat (map bss [Suc n..<Suc n + ?m]))"
      "all_stored (done @ bss n) (j_scan (sd ?d)) \<longrightarrow> room ((done @ bss n) @ concat (map bss [Suc n..<Suc n + ?m])) < 6000 \<longrightarrow>
        all_stored ((done @ bss n) @ concat (map bss [Suc n..<Suc n + ?m])) u"
      using 1(1) [OF False r(1) answers_step [OF a(1)] _ _ t(4) _ r(2), of ?d "se_ret e n"] t(3,5,6) 1(7) by auto
    have "(if ?cs = [] then se_ret e n else se_ret e (Suc n + ?m - 1)) = se_ret e (n + Suc ?m - 1)" by (cases "?cs = []") simp_all
    moreover have "scan_cmds ?d @ sent_for e cfg' pre (Suc n) (groups f ?cs) = scan_cmds d @ sent_for e cfg pre n (?g # groups f ?cs)"
      by (simp add: sent_for_def t(2,3))
    moreover have "room (done @ bss n) \<le> room ((done @ bss n) @ xs)" for xs by (simp add: room_def)
    ultimately show ?thesis unfolding gs length_Cons c using t(1,7) u False by (intro exI [of _ u]) (fastforce dest: le_less_trans)
  qed
qed

section \<open>What an application asks for\<close>

definition name_bytes :: "user_scan_ssid \<Rightarrow> u8 list" where
  "name_bytes x = takeWhile (\<lambda>b. b \<noteq> 0) (u_ssid x)"

definition ssid_tlv :: "user_scan_ssid \<Rightarrow> tlv" where
  "ssid_tlv x = (TLV_TYPE_WILDCARDSSID, u_maxLen x # name_bytes x @ [0])"

definition used_names :: "user_scan_ssid list \<Rightarrow> user_scan_ssid list" where
  "used_names = takeWhile (\<lambda>x. \<not> (u_ssid x ! 0 = 0 \<and> u_maxLen x = 0))"

text \<open>A name is terminated within its array.\<close>

definition ssid_ok :: "user_scan_ssid \<Rightarrow> bool" where
  "ssid_ok x \<longleftrightarrow> length (u_ssid x) = 33 \<and> 0 \<in> set (u_ssid x)"

lemma c_strlen_eq: "0 \<in> set xs \<Longrightarrow> c_strlen xs = Some (length (takeWhile (\<lambda>b. b \<noteq> 0) xs))"
  by (induction xs) auto

lemma take_terminated: "0 \<in> set xs \<Longrightarrow> take (Suc (length (takeWhile (\<lambda>b. b \<noteq> 0) xs))) xs = takeWhile (\<lambda>b. b \<noteq> 0) xs @ [0 :: u8]"
  by (induction xs) auto

lemma length_terminated: "0 \<in> set xs \<Longrightarrow> length (takeWhile (\<lambda>b. b \<noteq> (0 :: u8)) xs) < length xs"
  by (induction xs) auto

lemma name_props:
  assumes "ssid_ok x"
  shows "length (name_bytes x) \<le> 32" and "c_strlen (u_ssid x) = Some (length (name_bytes x))"
    and "mem_sub (u_ssid x) 0 (length (name_bytes x) + 1) = Some (name_bytes x @ [0])"
  using assms length_terminated [of "u_ssid x"] take_terminated [of "u_ssid x"] c_strlen_eq [of "u_ssid x"]
  by (simp_all add: ssid_ok_def name_bytes_def mem_sub_def)

lemma ssid_len_u16:
  assumes "ssid_ok x"
  shows "unat (of_nat (length (name_bytes x)) + 1 :: u16) = length (name_bytes x) + 1" and "(of_nat (length (name_bytes x)) + 1 :: u16) \<noteq> 0"
proof -
  have "of_nat (length (name_bytes x)) + 1 = (of_nat (length (name_bytes x) + 1) :: u16)" by simp
  also have "unat \<dots> = length (name_bytes x) + 1" using name_props(1) [OF assms] by (subst unat_of_nat) simp
  finally show u: "unat (of_nat (length (name_bytes x)) + 1 :: u16) = length (name_bytes x) + 1" .
  have "w \<noteq> 0" if "unat (w :: u16) = k + 1" for w k using that by auto
  then show "(of_nat (length (name_bytes x)) + 1 :: u16) \<noteq> 0" using u by blast
qed

lemma add_ssids_eq:
  "list_all ssid_ok us \<Longrightarrow> length pre + length (tlvs_bytes (map ssid_tlv (used_names us))) \<le> N \<Longrightarrow>
   add_ssids us k True (at_end N pre) = Some (k + length (used_names us), True, at_end N (pre @ tlvs_bytes (map ssid_tlv (used_names us))))"
proof (induction us arbitrary: k pre)
  case (Cons x us)
  have x: "ssid_ok x" using Cons.prems by simp
  have g: "mem_get (u_ssid x) 0 = Some (u_ssid x ! 0)" using x by (simp add: ssid_ok_def mem_get_def)
  show ?case
  proof (cases "u_ssid x ! 0 = 0 \<and> u_maxLen x = 0")
    case True
    then show ?thesis using g by (simp add: used_names_def)
  next
    case False
    then have un: "used_names (x # us) = x # used_names us" by (simp add: used_names_def)
    let ?n = "length (name_bytes x)" and ?pre = "pre @ tlv_bytes (ssid_tlv x)"
    have "length ?pre + length (tlvs_bytes (map ssid_tlv (used_names us))) \<le> N" using Cons.prems(2) un by simp
    then have ih: "add_ssids us (k + 1) True (at_end N ?pre) =
        Some (k + 1 + length (used_names us), True, at_end N (?pre @ tlvs_bytes (map ssid_tlv (used_names us))))"
      using Cons.prems(1) by (intro Cons.IH) simp_all
    have "put_tlv TLV_TYPE_WILDCARDSSID (u_maxLen x # name_bytes x @ [0]) (at_end N pre) = Some (at_end N ?pre)"
      using put_tlv_pad [of pre "u_maxLen x # name_bytes x @ [0]" N] Cons.prems(2) un by (simp add: ssid_tlv_def)
    then have "add_ssids (x # us) k True (at_end N pre) = add_ssids us (k + 1) True (at_end N ?pre)"
      using False g name_props(2,3) [OF x] ssid_len_u16 [OF x] by (auto simp: Let_def)
    then show ?thesis using ih un by simp
  qed
qed (simp add: used_names_def)

definition wps_tlvs :: "joindev \<Rightarrow> tlv list" where
  "wps_tlvs s = (if wpsIe s ! 1 = 0 then []
     else [(TLV_TYPE_WPS_ENROLLEE_PROBE_REQ_TLV, take (unat (wpsIe s ! 1)) (drop 2 (wpsIe s))), (TLV_TYPE_SSID, [])])"

lemma add_wps_eq:
  assumes "length (wpsIe s) = 256" and "unat (wpsIe s ! 1) \<le> 254" and "length pre + length (tlvs_bytes (wps_tlvs s)) \<le> N"
  shows "wlan_add_wps_probe_request_ie s (at_end N pre) = Some (at_end N (pre @ tlvs_bytes (wps_tlvs s)))"
proof (cases "wpsIe s ! 1 = 0")
  case True
  then show ?thesis using assms(1) by (simp add: wlan_add_wps_probe_request_ie_def wps_tlvs_def mem_get_def)
next
  case False
  let ?n = "unat (wpsIe s ! 1)" and ?b = "take (unat (wpsIe s ! 1)) (drop 2 (wpsIe s))"
  let ?h = "tlv_header TLV_TYPE_WPS_ENROLLEE_PROBE_REQ_TLV ?n"
  have l: "length ?b = ?n" "mem_sub (wpsIe s) 2 ?n = Some ?b" "mem_get (wpsIe s) 1 = Some (wpsIe s ! 1)"
    using assms(1,2) by (simp_all add: mem_sub_def mem_get_def)
  have z: "tlv_bytes (TLV_TYPE_SSID, []) = replicate 4 0" by (simp add: tlv_bytes_def tlv_header_def le16_of_def TLV_TYPE_SSID_def numeral_eq_Suc)
  have room: "length pre + 8 + ?n \<le> N" using assms(3) False l(1) by (simp add: wps_tlvs_def)
  have "put_bytes ?h (at_end N pre) = Some (at_end N (pre @ ?h))" using room by (intro put_bytes_pad) simp
  moreover have "put_bytes ?b (at_end N (pre @ ?h)) = Some (at_end N ((pre @ ?h) @ ?b))" using room l(1) by (intro put_bytes_pad) simp
  moreover have "pad N ((pre @ ?h) @ ?b) = pad N (pre @ tlvs_bytes (wps_tlvs s))"
    using pad_zeros [of "(pre @ ?h) @ ?b" 4 N] room l(1) z False by (simp add: wps_tlvs_def tlv_bytes_def)
  ultimately show ?thesis
    using False l z by (simp add: wlan_add_wps_probe_request_ie_def) (simp add: wps_tlvs_def tlv_bytes_def)
qed

section \<open>The configuration\<close>

definition user_ok :: "user_scan_cfg \<Rightarrow> bool" where
  "user_ok u \<longleftrightarrow> length (u_specificBSSID u) = 6 \<and> list_all ssid_ok (u_ssidList u) \<and> length (u_chanList u) = 50"

definition filtered :: "user_scan_cfg option \<Rightarrow> bool" where
  "filtered uo = (case uo of None \<Rightarrow> False | Some u \<Rightarrow> used_names (u_ssidList u) \<noteq> [] \<or> u_specificBSSID u \<noteq> replicate 6 0)"

definition probes :: "user_scan_cfg option \<Rightarrow> scandev \<Rightarrow> u16" where
  "probes uo d = (case uo of None \<Rightarrow> ScanProbes d | Some u \<Rightarrow> if u_numProbes u \<noteq> 0 then ucast (u_numProbes u) else ScanProbes d)"

definition name_tlvs :: "user_scan_cfg option \<Rightarrow> tlv list" where
  "name_tlvs uo = (case uo of None \<Rightarrow> [] | Some u \<Rightarrow> map ssid_tlv (used_names (u_ssidList u)))"

definition scan_tlvs :: "user_scan_cfg option \<Rightarrow> scandev \<Rightarrow> tlv list" where
  "scan_tlvs uo d = name_tlvs uo @ (if probes uo d \<noteq> 0 then [(TLV_TYPE_NUMPROBES, le16_of (probes uo d))] else []) @ wps_tlvs (sd d)"

definition bss_type :: "user_scan_cfg option \<Rightarrow> scandev \<Rightarrow> u8" where
  "bss_type uo d = (case uo of None \<Rightarrow> ucast (ScanMode d) | Some u \<Rightarrow> if u_bssType u \<noteq> 0 then u_bssType u else ucast (ScanMode d))"

definition bssid_of :: "user_scan_cfg option \<Rightarrow> u8 list" where
  "bssid_of uo = (case uo of None \<Rightarrow> replicate 6 0 | Some u \<Rightarrow> u_specificBSSID u)"

text \<open>A request whose elements fit into the block, with room for a full channel list.\<close>

definition scan_fits :: "user_scan_cfg option \<Rightarrow> scandev \<Rightarrow> bool" where
  "scan_fits uo d \<longleftrightarrow> (\<forall>u. uo = Some u \<longrightarrow> user_ok u) \<and> length (wpsIe (sd d)) = 256 \<and> unat (wpsIe (sd d) ! 1) \<le> 254 \<and>
     length (tlvs_bytes (scan_tlvs uo d)) + 102 \<le> TLV_ROOM"

lemma setup_eq:
  assumes "scan_fits uo d" and "scan_channels uo (filtered uo) (sd d) = Some (a, cs, only)" and "length cs < 50"
  shows "wlan_scan_setup_scan_config uo d =
    Some (\<lparr>sc_bssType = bss_type uo d, sc_specificBSSID = bssid_of uo, sc_tlvBufferLen = 0, sc_tlvBuffer = pad TLV_ROOM (tlvs_bytes (scan_tlvs uo d))\<rparr>,
      length (tlvs_bytes (scan_tlvs uo d)), cs @ zero_chan # replicate (49 - length cs) zero_chan, filtered uo, only, sd_upd (\<lambda>s. s\<lparr>j_11d := a\<rparr>) d)"
proof -
  let ?N = TLV_ROOM and ?names = "tlvs_bytes (name_tlvs uo)" and ?p = "probes uo d"
  let ?np = "if ?p \<noteq> 0 then [(TLV_TYPE_NUMPROBES, le16_of ?p)] else []"
  have room: "length ?names + length (tlvs_bytes ?np) + length (tlvs_bytes (wps_tlvs (sd d))) \<le> ?N"
    using assms(1) by (simp add: scan_fits_def scan_tlvs_def)
  have z: "(replicate ?N 0, 0) = at_end ?N []" by (simp add: pad_def)
  have head: "(case uo of
      None \<Rightarrow> Some (ucast (ScanMode d), replicate 6 0, ScanProbes d, False, at_end ?N [])
    | Some u \<Rightarrow> do { (ssidIdx, ssidFilter, c) \<leftarrow> add_ssids (u_ssidList u) 0 True (at_end ?N []);
        Some (if u_bssType u \<noteq> 0 then u_bssType u else ucast (ScanMode d), u_specificBSSID u,
          if u_numProbes u \<noteq> 0 then ucast (u_numProbes u) else ScanProbes d, (ssidIdx \<noteq> 0 \<and> ssidFilter) \<or> u_specificBSSID u \<noteq> replicate 6 0, c) }) =
    Some (bss_type uo d, bssid_of uo, ?p, filtered uo, at_end ?N ?names)"
  proof (cases uo)
    case None
    then show ?thesis by (simp add: bss_type_def bssid_of_def probes_def filtered_def name_tlvs_def)
  next
    case (Some u)
    have "list_all ssid_ok (u_ssidList u)" using assms(1) Some by (simp add: scan_fits_def user_ok_def)
    then have "add_ssids (u_ssidList u) 0 True (at_end ?N []) = Some (length (used_names (u_ssidList u)), True, at_end ?N ?names)"
      using add_ssids_eq [of "u_ssidList u" "[]" ?N 0] room Some by (simp add: name_tlvs_def)
    then show ?thesis using Some by (simp add: bss_type_def bssid_of_def probes_def filtered_def)
  qed
  have np: "(if ?p \<noteq> 0 then put_tlv TLV_TYPE_NUMPROBES (le16_of ?p) (at_end ?N ?names) else Some (at_end ?N ?names)) = Some (at_end ?N (?names @ tlvs_bytes ?np))"
    using put_tlv_pad [of ?names "le16_of ?p" ?N TLV_TYPE_NUMPROBES] room by (cases "?p = 0") simp_all
  have w: "wlan_add_wps_probe_request_ie (sd d) (at_end ?N (?names @ tlvs_bytes ?np)) = Some (at_end ?N (tlvs_bytes (scan_tlvs uo d)))"
    using add_wps_eq [of "sd d" "?names @ tlvs_bytes ?np" ?N] room assms(1) by (simp add: scan_fits_def scan_tlvs_def)
  have "replicate 50 zero_chan = replicate (length cs) zero_chan @ zero_chan # replicate (49 - length cs) zero_chan"
    using assms(3) by (simp add: replicate_add [symmetric] flip: replicate_Suc)
  then have arr: "chan_array cs = Some (cs @ zero_chan # replicate (49 - length cs) zero_chan)"
    using assms(3) by (simp add: chan_array_def mem_copy_def WLAN_IOCTL_USER_SCAN_CHAN_MAX_def)
  show ?thesis
    unfolding wlan_scan_setup_scan_config_def Let_def z head Option.bind.bind_lunit prod.case np w assms(2) arr ..
qed

section \<open>The current network after a scan\<close>

definition cfp_ok :: "adapter_11d \<Rightarrow> bool" where
  "cfp_ok a \<longleftrightarrow> (\<forall>rc \<in> set (region_channel a) \<union> set (universal_channel a). \<forall>t. CFP rc = Some t \<longrightarrow> t \<noteq> [] \<and> unat (NrCFP rc) \<le> length t)"

lemma find_cfp_chan_total: "\<forall>i \<in> set is. i < length t \<Longrightarrow> \<exists>r. find_cfp_chan ch t is = Some r"
  by (induction "is") (auto simp: mem_get_def)

lemma find_cfp_regions_total:
  "\<forall>rc \<in> set rcs. \<forall>t. CFP rc = Some t \<longrightarrow> t \<noteq> [] \<and> unat (NrCFP rc) \<le> length t \<Longrightarrow> \<exists>r. find_cfp_regions band ch rcs = Some r"
proof (induction rcs)
  case (Cons rc rcs)
  then obtain r where r: "find_cfp_regions band ch rcs = Some r" by auto
  show ?case
  proof (cases "CFP rc")
    case (Some t)
    then have t: "t \<noteq> []" "unat (NrCFP rc) \<le> length t" using Cons.prems by auto
    then have "\<exists>x. find_cfp_chan ch t [0..<unat (NrCFP rc)] = Some x" by (intro find_cfp_chan_total) auto
    then obtain x where "find_cfp_chan ch t [0..<unat (NrCFP rc)] = Some x" by blast
    then show ?thesis using Some r t(1) by (cases x) (auto simp: mem_get_def)
  qed (simp add: r)
qed simp

lemma find_cfp_total: "cfp_ok a \<Longrightarrow> \<exists>r. find_cfp_by_band_and_channel a band ch = Some r"
  unfolding find_cfp_by_band_and_channel_def by (intro find_cfp_regions_total) (auto simp: cfp_ok_def)

lemma check_channel_total:
  "cfp_ok a \<Longrightarrow> net < 0 \<or> nat net < length tab \<Longrightarrow> \<exists>r. check_channel a tab net = Some r \<and> (r < 0 \<or> r = net)"
proof -
  assume a: "cfp_ok a" "net < 0 \<or> nat net < length tab"
  show ?thesis
  proof (cases "net < 0")
    case False
    obtain r where "find_cfp_by_band_and_channel a 0 (ucast (bss_Channel (tab ! nat net))) = Some r" using find_cfp_total [OF a(1)] by blast
    then show ?thesis using False a(2) by (auto simp: check_channel_def mem_get_def ENETUNREACH_def)
  qed (simp add: check_channel_def)
qed

text \<open>The search for one address finds an entry with that address or nothing.\<close>

lemma find_entry_total:
  assumes "i < length tab"
  shows "\<exists>nb'. find_ssid_entry c tab mode i d nb = Some nb' \<and> (fst nb' < 0 \<or> fst nb' = fst nb \<or> fst nb' = int i)"
proof -
  have "\<exists>j. IsNetworkCompatible c tab i mode = Some j" using assms by (simp add: IsNetworkCompatible_def mem_get_def)
  then obtain j where j: "IsNetworkCompatible c tab i mode = Some j" by blast
  then show ?thesis by (cases nb) (auto simp: find_ssid_entry_def Let_def)
qed

lemma find_ssid_total:
  assumes "\<forall>i \<in> set is. i < length tab \<and> length (Ssid (tab ! i)) = 32 \<and> unat (SsidLength (tab ! i)) \<le> 32" and "length b = 32" and "fst nb < 0"
  shows "\<exists>net. find_ssid_loop c tab (len, b) (Some mac) mode is nb = Some net \<and> (net < 0 \<or> (\<exists>i \<in> set is. net = int i \<and> MacAddress (tab ! i) = mac))"
  using assms
proof (induction "is" arbitrary: nb)
  case (Cons i "is")
  let ?d = "tab ! i"
  have i: "i < length tab" "length (Ssid ?d) = 32" "unat (SsidLength ?d) \<le> 32" using Cons.prems(1) by simp_all
  then have "\<exists>same. SSIDcmp ?d (len, b) = Some same" using Cons.prems(2) by (cases "SsidLength ?d = len") (auto simp: SSIDcmp_def mem_sub_def)
  then obtain same where s: "SSIDcmp ?d (len, b) = Some same" by blast
  obtain nb' where nb': "(if same \<and> Some mac = Some (MacAddress ?d) then find_ssid_entry c tab mode i ?d nb else Some nb) = Some nb'"
    "fst nb' < 0 \<or> fst nb' = int i \<and> MacAddress ?d = mac"
    using find_entry_total [OF i(1), of c mode ?d nb] Cons.prems(3) by (cases "same \<and> mac = MacAddress ?d") auto
  have run: "find_ssid_loop c tab (len, b) (Some mac) mode (i # is) nb = find_ssid_loop c tab (len, b) (Some mac) mode is nb'"
    using i(1) s nb'(1) Cons.prems(3) by (simp add: mem_get_def)
  show ?case
  proof (cases "fst nb' < 0")
    case True
    then show ?thesis using Cons.IH [of nb'] Cons.prems(1,2) run by auto
  next
    case False
    then have "find_ssid_loop c tab (len, b) (Some mac) mode is nb' = Some (fst nb')" by (cases "is") simp_all
    then show ?thesis using False nb'(2) run by auto
  qed
qed simp

lemma process_results_ok:
  assumes "cfp_ok (j_11d s)" and "table_is bs (j_scan s)" and "NumInScanTable (j_scan s) = length bs" and "length bs \<le> 64" and "length (Ssid (cur_bss s)) = 32"
  shows "\<exists>s'. wlan_scan_process_results s = Some s' \<and> j_scan s' = j_scan s \<and> j_cfg s' = j_cfg s \<and> MacAddress (cur_bss s') = MacAddress (cur_bss s) \<and>
    (\<exists>ie. j_wlan s' = (j_wlan s)\<lparr>wmmIE := ie\<rparr>)"
proof (cases "connected s")
  case True
  let ?tab = "ScanTable (j_scan s)" and ?m = "MacAddress (cur_bss s)"
  have l: "length ?tab = 64" "\<And>i. i < length bs \<Longrightarrow> entry_is (?tab ! i) (bs ! i)"
    using assms(2) by (simp_all add: table_is_def bcn_ok_def MRVDRV_MAX_BSSID_LIST_def)
  obtain net where net: "find_ssid_loop (j_cfg s) ?tab (SsidLength (cur_bss s), Ssid (cur_bss s)) (Some ?m) (InfrastructureMode (j_cfg s)) [0..<length bs] (- ENETUNREACH, 0) = Some net"
    "net < 0 \<or> (\<exists>i < length bs. net = int i \<and> MacAddress (?tab ! i) = ?m)"
    using find_ssid_total [of "[0..<length bs]" ?tab "Ssid (cur_bss s)" "(- ENETUNREACH, 0)" "j_cfg s" "SsidLength (cur_bss s)" ?m "InfrastructureMode (j_cfg s)"]
      l assms(4,5) by (auto simp: entry_is_def ENETUNREACH_def)
  then obtain r where r: "check_channel (j_11d s) ?tab net = Some r" "r < 0 \<or> r = net"
    using check_channel_total [OF assms(1), of net ?tab] l(1) assms(4) by auto
  have f: "FindSSIDInList (j_cfg s) (j_11d s) (j_scan s) (SsidLength (cur_bss s), Ssid (cur_bss s)) (Some ?m) (InfrastructureMode (j_cfg s)) = Some r"
    using net(1) r(1) assms(3) by (simp add: FindSSIDInList_def)
  have w: "\<exists>ie. j_wlan s = (j_wlan s)\<lparr>wmmIE := ie\<rparr>" by (intro exI [of _ "wmmIE (j_wlan s)"]) simp
  show ?thesis
  proof (cases "r < 0")
    case True
    then show ?thesis using \<open>connected s\<close> f w by (simp add: wlan_scan_process_results_def Let_def)
  next
    case False
    then obtain i where i: "i < length bs" "r = int i" "MacAddress (?tab ! i) = ?m" using r(2) net(2) by auto
    then have "mem_get ?tab i = Some (?tab ! i)" using l(1) assms(4) by (simp add: mem_get_def)
    then show ?thesis using \<open>connected s\<close> f i by (auto simp: wlan_scan_process_results_def Let_def set_cur_bss_def)
  qed
next
  case False
  have "\<exists>ie. j_wlan s = (j_wlan s)\<lparr>wmmIE := ie\<rparr>" by (intro exI [of _ "wmmIE (j_wlan s)"]) simp
  with False show ?thesis by (simp add: wlan_scan_process_results_def)
qed

section \<open>A whole scan\<close>

lemma channel_list_eq:
  assumes "real_chans cs" and "answers e bss 0 (length (groups f cs)) done" and "table_is done (j_scan (sd d))"
    and "NumInScanTable (j_scan (sd d)) = length done" and "sc_tlvBuffer cfg = pad TLV_ROOM pre" and "length pre + 102 \<le> TLV_ROOM" and "length (sc_specificBSSID cfg) = 6"
    and "\<forall>g \<in> set (groups f cs). scan_time g \<le> 9000"
  shows "\<exists>t. wlan_scan_channel_list e f cfg (length pre) (cs @ zero_chan # z) d =
      Some (if cs \<noteq> [] \<and> se_ret e (length (groups f cs) - 1) \<noteq> 0 then - 1 else 0,
        d\<lparr>scan_cmds := scan_cmds d @ sent_for e cfg pre 0 (groups f cs), sd := (sd d)\<lparr>j_scan := t\<rparr>\<rparr>) \<and>
    table_is (done @ concat (map bss [0..<length (groups f cs)])) t \<and> NumInScanTable t = length (done @ concat (map bss [0..<length (groups f cs)])) \<and>
    (all_stored done (j_scan (sd d)) \<longrightarrow> room (done @ concat (map bss [0..<length (groups f cs)])) < 6000 \<longrightarrow> all_stored (done @ concat (map bss [0..<length (groups f cs)])) t)"
proof -
  let ?b = "pad TLV_ROOM (pre @ le16_of TLV_TYPE_CHANLIST)" and ?cfg = "cfg\<lparr>sc_tlvBuffer := pad TLV_ROOM (pre @ le16_of TLV_TYPE_CHANLIST)\<rparr>"
  have b: "mem_copy (sc_tlvBuffer cfg) (length pre) (le16_of TLV_TYPE_CHANLIST) = Some ?b" "chan_buf pre ?b"
    using assms(5,6) mem_copy_pad [of pre "le16_of TLV_TYPE_CHANLIST" TLV_ROOM "length pre"] by (simp_all add: chan_buf_def) (simp_all add: pad_def)
  have c: "chan_buf pre (sc_tlvBuffer ?cfg)" "length (sc_specificBSSID ?cfg) = 6" using b(2) assms(7) by simp_all
  obtain t where t: "scan_commands e f (length pre) 0 (cs @ zero_chan # z) 0 ?cfg d =
      Some (if cs = [] then 0 else se_ret e (length (groups f cs) - 1), d\<lparr>scan_cmds := scan_cmds d @ sent_for e ?cfg pre 0 (groups f cs), sd := (sd d)\<lparr>j_scan := t\<rparr>\<rparr>)"
    "table_is (done @ concat (map bss [0..<length (groups f cs)])) t" "NumInScanTable t = length (done @ concat (map bss [0..<length (groups f cs)]))"
    "all_stored done (j_scan (sd d)) \<longrightarrow> room (done @ concat (map bss [0..<length (groups f cs)])) < 6000 \<longrightarrow> all_stored (done @ concat (map bss [0..<length (groups f cs)])) t"
    using scan_commands_eq [OF assms(1-4) c assms(8), of z 0, unfolded add_0] by blast
  have "sent_for e ?cfg pre 0 gs = sent_for e cfg pre 0 gs" for gs by (simp add: sent_for_def)
  then show ?thesis using t b(1) by (auto simp: wlan_scan_channel_list_def)
qed

text \<open>The state in which the commands are sent.\<close>

definition keeps :: "user_scan_cfg option \<Rightarrow> bool" where
  "keeps uo = (case uo of None \<Rightarrow> False | Some u \<Rightarrow> u_keepPreviousScan u \<noteq> 0)"

definition kept_table :: "user_scan_cfg option \<Rightarrow> scandev \<Rightarrow> scan_dev" where
  "kept_table uo d = (if keeps uo then j_scan (sd d) else clear_table (j_scan (sd d)))"

definition scan_from :: "scan_env \<Rightarrow> user_scan_cfg option \<Rightarrow> adapter_11d \<Rightarrow> bool \<Rightarrow> scandev \<Rightarrow> scandev" where
  "scan_from e uo a only d =
     (let s = (sd d)\<lparr>j_11d := a, j_scan := kept_table uo d\<rparr>;
          d = (if only then d\<lparr>sd := s\<rparr> else d\<lparr>watchdog_timeo := MRVDRV_SCAN_WATCHDOG_TIMEOUT, sd := jw_upd wmm_stop_queue s\<rparr>)
      in if bgScan_Enable d then wlan_bg_scan_enable (se_bg_off e) False d else d)"

definition scan_to :: "scan_env \<Rightarrow> bool \<Rightarrow> joindev \<Rightarrow> scandev \<Rightarrow> scandev" where
  "scan_to e bg s d =
     (let d = d\<lparr>sd := jw_upd (\<lambda>w. os_start_queue (os_carrier_on (if connected s then wmm_start_queue w else w))) s, watchdog_timeo := MRVDRV_DEFAULT_WATCHDOG_TIMEOUT\<rparr>
      in if bg then wlan_bg_scan_enable (se_bg_on e) True d else d)"

lemma networks_run:
  assumes "wlan_scan_setup_scan_config uo d = Some (cfg, pos, arr, f, only, sd_upd (\<lambda>s. s\<lparr>j_11d := a\<rparr>) d)"
  shows "wlan_scan_networks e uo d =
    do { (ret, d1) \<leftarrow> wlan_scan_channel_list e f cfg pos arr (scan_from e uo a only d);
         s \<leftarrow> wlan_scan_process_results (sd d1);
         Some (ret, scan_to e (bgScan_Enable d) s d1) }"
proof -
  have k: "(case uo of None \<Rightarrow> False | Some u \<Rightarrow> u_keepPreviousScan u \<noteq> 0) = keeps uo" by (simp add: keeps_def)
  let ?d = "let d = (if keeps uo then sd_upd (\<lambda>s. s\<lparr>j_11d := a\<rparr>) d else sd_upd (\<lambda>s. s\<lparr>j_scan := clear_table (j_scan s)\<rparr>) (sd_upd (\<lambda>s. s\<lparr>j_11d := a\<rparr>) d))
    in if only then d else sd_upd (jw_upd wmm_stop_queue) (d\<lparr>watchdog_timeo := MRVDRV_SCAN_WATCHDOG_TIMEOUT\<rparr>)"
  have d: "(if bgScan_Enable d then wlan_bg_scan_enable (se_bg_off e) False ?d else ?d) = scan_from e uo a only d" "bgScan_Enable ?d = bgScan_Enable d"
    by (simp_all add: scan_from_def kept_table_def sd_upd_def jw_upd_def Let_def)
  have t: "sd_upd (jw_upd (\<lambda>w. os_start_queue (os_carrier_on w)))
      (let d = (if bg then wlan_bg_scan_enable (se_bg_on e) True (d1\<lparr>sd := s\<rparr>) else d1\<lparr>sd := s\<rparr>)\<lparr>watchdog_timeo := MRVDRV_DEFAULT_WATCHDOG_TIMEOUT\<rparr>
       in if connected (sd d) then sd_upd (jw_upd wmm_start_queue) d else d) = scan_to e bg s d1" for bg d1 s
    by (simp add: scan_to_def sd_upd_def jw_upd_def wlan_bg_scan_enable_def Let_def)
  show ?thesis
    by (simp only: wlan_scan_networks_def assms k Option.bind.bind_lunit prod.case Let_def d [unfolded Let_def] t [unfolded Let_def])
qed

lemma scan_from_same: "scan_cmds (scan_from e uo a only d) = scan_cmds d" "j_scan (sd (scan_from e uo a only d)) = kept_table uo d"
  "j_11d (sd (scan_from e uo a only d)) = a" "j_cfg (sd (scan_from e uo a only d)) = j_cfg (sd d)" "cur_bss (sd (scan_from e uo a only d)) = cur_bss (sd d)"
  "link_up (j_wlan (sd (scan_from e uo a only d))) = link_up (j_wlan (sd d))"
  by (simp_all add: scan_from_def jw_upd_def wlan_bg_scan_enable_def wmm_stop_queue_def wmm_upd_def Let_def)

lemma scan_to_same: "scan_cmds (scan_to e bg s d) = scan_cmds d" "j_scan (sd (scan_to e bg s d)) = j_scan s" "j_cfg (sd (scan_to e bg s d)) = j_cfg s"
  "cur_bss (sd (scan_to e bg s d)) = cur_bss s"
  by (simp_all add: scan_to_def jw_upd_def wlan_bg_scan_enable_def Let_def)

lemma scan_to_flowing: "connected s \<Longrightarrow> link_up (j_wlan s) \<Longrightarrow> flowing (j_wlan (sd (scan_to e bg s d)))"
  by (simp add: scan_to_def jw_upd_def wlan_bg_scan_enable_def flowing_def wmm_start_queue_def os_start_queue_def os_carrier_on_def wmm_upd_def Let_def)

end
