(* ===== verification/WlanScanRun.thy ===== *)
theory WlanScanRun
  imports WlanScanInv
begin

text \<open>
  A whole scan, \<^verbatim>\<open>wlan_scan_networks\<close>: which commands it sends and what it leaves in the scan table; requests that do
  not fit into the arrays of the driver; and the removal of a network from the table before it is searched by name.
\<close>

section \<open>One scan\<close>

text \<open>The elements that the firmware reads in a command.\<close>

definition cmd_elems :: "HostCmd \<Rightarrow> tlv list option" where
  "cmd_elems cmd = parse_tlvs (drop 7 (take (unat (WlanCmd.c_Size cmd) - 8) (c_params cmd)))"

lemma tlv_in_bytes: "t \<in> set ts \<Longrightarrow> length (snd t) \<le> length (tlvs_bytes ts)"
  by (induction ts) auto

lemma cmd_elems_eq:
  assumes "length mac = 6" and "length (tlvs_bytes ts) + 102 \<le> TLV_ROOM" and "length g \<le> 14"
  shows "cmd_elems (scan_cmd bt mac (tlvs_bytes ts) g buf) = Some (ts @ [chan_tlv g])"
proof -
  let ?b = "tlvs_bytes (ts @ [chan_tlv g])"
  have b: "tlvs_bytes ts @ tlv_bytes (chan_tlv g) = ?b" by simp
  have l: "length ?b \<le> 375" using assms(2,3) by (simp add: TLV_ROOM_def MAX_SCAN_CFG_ALLOC_def MRVDRV_MAX_CHANNELS_PER_SCAN_def)
  have "unat (of_nat (15 + length ?b) :: u16) = 15 + length ?b" using l by (subst unat_of_nat) simp
  then have "unat (WlanCmd.c_Size (scan_cmd bt mac (tlvs_bytes ts) g buf)) - 8 = length (bt # mac @ ?b)"
    unfolding scan_cmd_def Let_def b using assms(1) by simp
  moreover have "c_params (scan_cmd bt mac (tlvs_bytes ts) g buf) = pad 2040 (bt # mac @ ?b)" unfolding scan_cmd_def Let_def b by simp
  moreover have "drop 7 (bt # mac @ ?b) = ?b" using assms(1) by simp
  ultimately have "cmd_elems (scan_cmd bt mac (tlvs_bytes ts) g buf) = parse_tlvs ?b" unfolding cmd_elems_def by (simp only: take_pad)
  also have "\<dots> = Some (ts @ [chan_tlv g])" using tlv_in_bytes [of _ "ts @ [chan_tlv g]"] l by (intro parse_tlvs_bytes) fastforce
  finally show ?thesis .
qed

lemma sent_elems:
  assumes "length (sc_specificBSSID cfg) = 6" and "length (tlvs_bytes ts) + 102 \<le> TLV_ROOM" and "\<forall>g \<in> set gs. length g \<le> 14"
  shows "map cmd_elems (sent_for e cfg (tlvs_bytes ts) n gs) = map (\<lambda>g. Some (ts @ [chan_tlv g])) gs"
  using assms(3) by (induction gs arbitrary: n) (simp_all add: sent_for_def cmd_elems_eq [OF assms(1,2)])

definition scan_ready :: "scandev \<Rightarrow> bool" where
  "scan_ready d \<longleftrightarrow> length (beaconBuffer (j_scan (sd d))) = 6000 \<and> link_up (j_wlan (sd d)) = connected (sd d) \<and> length (Ssid (cur_bss (sd d))) = 32"

text \<open>The networks that the table has when the scan starts: none, unless the request says that they are kept.\<close>

definition starts_with :: "user_scan_cfg option \<Rightarrow> scandev \<Rightarrow> beacon list \<Rightarrow> bool" where
  "starts_with uo d old \<longleftrightarrow> (if keeps uo then table_is old (j_scan (sd d)) \<and> all_stored old (j_scan (sd d)) \<and> NumInScanTable (j_scan (sd d)) = length old else old = [])"

lemma starts_table:
  assumes "starts_with uo d old" and "scan_ready d"
  shows "table_is old (kept_table uo d) \<and> all_stored old (kept_table uo d) \<and> NumInScanTable (kept_table uo d) = length old"
proof (cases "keeps uo")
  case False
  have "fresh_table (clear_table (j_scan (sd d)))" using assms(2) by (simp add: fresh_table_def clear_table_def scan_ready_def MAX_SCAN_BEACON_BUFFER_def)
  then show ?thesis using fresh_table_is [of "clear_table (j_scan (sd d))"] False assms(1) by (simp add: kept_table_def starts_with_def fresh_table_def)
qed (use assms in \<open>simp add: kept_table_def starts_with_def\<close>)

text \<open>A request that can be carried out: its elements and channels fit, and no command takes too long.\<close>

definition scan_possible :: "user_scan_cfg option \<Rightarrow> scandev \<Rightarrow> adapter_11d \<Rightarrow> ChanScanParamSet list \<Rightarrow> bool \<Rightarrow> bool" where
  "scan_possible uo d a cs only \<longleftrightarrow> scan_ready d \<and> scan_fits uo d \<and> scan_channels uo (filtered uo) (sd d) = Some (a, cs, only) \<and> cfp_ok a \<and>
     real_chans cs \<and> length cs < 50 \<and> (\<forall>g \<in> set (groups (filtered uo) cs). scan_time g \<le> 9000)"

lemma scan_run:
  assumes "scan_possible uo d a cs only" and "starts_with uo d old" and "answers e bss 0 (length (groups (filtered uo) cs)) old"
  shows "\<exists>d' cmds. wlan_scan_networks e uo d = Some (if cs \<noteq> [] \<and> se_ret e (length (groups (filtered uo) cs) - 1) \<noteq> 0 then - 1 else 0, d') \<and>
    scan_cmds d' = scan_cmds d @ cmds \<and> map cmd_elems cmds = map (\<lambda>g. Some (scan_tlvs uo d @ [chan_tlv g])) (groups (filtered uo) cs) \<and>
    table_is (old @ concat (map bss [0..<length (groups (filtered uo) cs)])) (j_scan (sd d')) \<and>
    NumInScanTable (j_scan (sd d')) = length (old @ concat (map bss [0..<length (groups (filtered uo) cs)])) \<and>
    (room (old @ concat (map bss [0..<length (groups (filtered uo) cs)])) < 6000 \<longrightarrow> all_stored (old @ concat (map bss [0..<length (groups (filtered uo) cs)])) (j_scan (sd d'))) \<and>
    MacAddress (cur_bss (sd d')) = MacAddress (cur_bss (sd d)) \<and> connected (sd d') = connected (sd d) \<and> (connected (sd d) \<longrightarrow> flowing (j_wlan (sd d')))"
proof -
  let ?f = "filtered uo" and ?ts = "scan_tlvs uo d" and ?all = "old @ concat (map bss [0..<length (groups (filtered uo) cs)])"
  have p: "scan_ready d" "scan_fits uo d" "scan_channels uo ?f (sd d) = Some (a, cs, only)" "cfp_ok a" "real_chans cs" "length cs < 50"
    "\<forall>g \<in> set (groups ?f cs). scan_time g \<le> 9000" using assms(1) by (simp_all add: scan_possible_def)
  let ?cfg = "\<lparr>sc_bssType = bss_type uo d, sc_specificBSSID = bssid_of uo, sc_tlvBufferLen = 0, sc_tlvBuffer = pad TLV_ROOM (tlvs_bytes ?ts)\<rparr>"
  let ?d = "scan_from e uo a only d"
  have fits: "length (tlvs_bytes ?ts) + 102 \<le> TLV_ROOM" "length (bssid_of uo) = 6"
    using p(2) by (auto simp: scan_fits_def user_ok_def bssid_of_def split: option.split)
  have o: "table_is old (j_scan (sd ?d))" "all_stored old (j_scan (sd ?d))" "NumInScanTable (j_scan (sd ?d)) = length old"
    using starts_table [OF assms(2) p(1)] by (simp_all add: scan_from_same)
  obtain t where t: "wlan_scan_channel_list e ?f ?cfg (length (tlvs_bytes ?ts)) (cs @ zero_chan # replicate (49 - length cs) zero_chan) ?d =
      Some (if cs \<noteq> [] \<and> se_ret e (length (groups ?f cs) - 1) \<noteq> 0 then - 1 else 0,
        ?d\<lparr>scan_cmds := scan_cmds ?d @ sent_for e ?cfg (tlvs_bytes ?ts) 0 (groups ?f cs), sd := (sd ?d)\<lparr>j_scan := t\<rparr>\<rparr>)"
    "table_is ?all t" "NumInScanTable t = length ?all" "room ?all < 6000 \<longrightarrow> all_stored ?all t"
    using channel_list_eq [OF p(5) assms(3) o(1,3) _ fits(1) _ p(7), of ?cfg "replicate (49 - length cs) zero_chan"] fits(2) o(2) by auto
  let ?s = "(sd ?d)\<lparr>j_scan := t\<rparr>"
  have n: "length ?all \<le> 64" using assms(3) by (simp add: answers_def)
  obtain s' where s': "wlan_scan_process_results ?s = Some s'" "j_scan s' = t" "j_cfg s' = j_cfg (sd d)"
    "MacAddress (cur_bss s') = MacAddress (cur_bss (sd d))" "link_up (j_wlan s') = link_up (j_wlan (sd d))"
    using process_results_ok [of ?s ?all] p(1,4) t(2,3) n by (auto simp: scan_from_same scan_ready_def)
  let ?e = "scan_to e (bgScan_Enable d) s' (?d\<lparr>scan_cmds := scan_cmds ?d @ sent_for e ?cfg (tlvs_bytes ?ts) 0 (groups ?f cs), sd := ?s\<rparr>)"
  have run: "wlan_scan_networks e uo d = Some (if cs \<noteq> [] \<and> se_ret e (length (groups ?f cs) - 1) \<noteq> 0 then - 1 else 0, ?e)"
    using networks_run [OF setup_eq [OF p(2,3,6)], of e] t(1) s'(1) by simp
  have "map cmd_elems (sent_for e ?cfg (tlvs_bytes ?ts) 0 (groups ?f cs)) = map (\<lambda>g. Some (?ts @ [chan_tlv g])) (groups ?f cs)"
    using sent_elems [of ?cfg ?ts] fits groups_each [of _ ?f cs] by simp
  moreover have "connected (sd d) \<longrightarrow> flowing (j_wlan (sd ?e))" using scan_to_flowing [of s' e] s'(3,5) p(1) by (simp add: scan_ready_def)
  ultimately show ?thesis using run t(2-4) s'(2-4) by (intro exI [of _ ?e] exI [of _ "sent_for e ?cfg (tlvs_bytes ?ts) 0 (groups ?f cs)"]) (simp add: scan_to_same scan_from_same)
qed

section \<open>Properties\<close>

text \<open>C17. A scan asks for every channel exactly once: it sends a sequence of commands, each with the elements of the request and
  a list of at most 14 channels, and these lists together are the channels of the request in their order. Without a filter
  the busy channels 1, 6 and 11 have commands of their own.\<close>

theorem scan_splits_channels:
  assumes "scan_possible uo d a cs only" and "starts_with uo d old" and "answers e bss 0 (length (groups (filtered uo) cs)) old"
  shows "\<exists>r d' cmds gs. wlan_scan_networks e uo d = Some (r, d') \<and> scan_cmds d' = scan_cmds d @ cmds \<and>
    map cmd_elems cmds = map (\<lambda>g. Some (scan_tlvs uo d @ [(TLV_TYPE_CHANLIST, concat (map chan_bytes g))])) gs \<and> concat gs = cs \<and>
    (\<forall>g \<in> set gs. g \<noteq> [] \<and> length g \<le> 14 \<and> read_chans (concat (map chan_bytes g)) = Some g \<and>
       (\<not> filtered uo \<longrightarrow> (\<exists>c \<in> set g. ChanNumber c \<in> {1, 6, 11}) \<longrightarrow> length g = 1))"
proof -
  have r: "read_chans (concat (map chan_bytes g)) = Some g" for g using chans.read_all [of g] by (simp add: list_all_iff)
  have "\<forall>g \<in> set (groups (filtered uo) cs). g \<noteq> [] \<and> length g \<le> 14 \<and> read_chans (concat (map chan_bytes g)) = Some g \<and>
      (\<not> filtered uo \<longrightarrow> (\<exists>c \<in> set g. ChanNumber c \<in> {1, 6, 11}) \<longrightarrow> length g = 1)"
    using groups_each [of _ "filtered uo" cs] r by (simp add: busy_chan_def)
  then show ?thesis using scan_run [OF assms] groups_concat [of "filtered uo" cs] unfolding chan_tlv_def by blast
qed

text \<open>C16. A scan collects what is there: if the networks in the responses to its commands are different and fit, the table has the
  networks that were to be kept and exactly one entry for each new one, in their order, with the beacons byte for byte as far as they fit; the station stays with its
  network, and if it has one, data flows again.\<close>

theorem scan_collects:
  assumes "scan_possible uo d a cs only" and "starts_with uo d old" and "answers e bss 0 (length (groups (filtered uo) cs)) old"
    and "all = old @ concat (map bss [0..<length (groups (filtered uo) cs)])"
  shows "\<exists>r d'. wlan_scan_networks e uo d = Some (r, d') \<and> NumInScanTable (j_scan (sd d')) = length all \<and> bcn_ok (length all) (j_scan (sd d')) \<and>
    (\<forall>i < length all. entry_is (ScanTable (j_scan (sd d')) ! i) (all ! i)) \<and>
    (room all < 6000 \<longrightarrow> (\<forall>i < length all. stored (j_scan (sd d')) (ScanTable (j_scan (sd d')) ! i) = Some (beacon_body (all ! i)))) \<and>
    connected (sd d') = connected (sd d) \<and> MacAddress (cur_bss (sd d')) = MacAddress (cur_bss (sd d)) \<and> (connected (sd d) \<longrightarrow> flowing (j_wlan (sd d')))"
  using scan_run [OF assms(1-3)] unfolding assms(4) [symmetric] table_is_def all_stored_def by blast

section \<open>Requests that do not fit\<close>

lemma put_tlv_over: "length pre \<le> N \<Longrightarrow> N < length pre + 4 + length b \<Longrightarrow> put_tlv t b (at_end N pre) = None"
  by (cases "length pre + 4 \<le> N") (simp_all add: put_tlv_def put_bytes_def mem_copy_def length_pad)

lemma add_ssids_over:
  "list_all ssid_ok us \<Longrightarrow> length pre \<le> N \<Longrightarrow> N < length pre + length (tlvs_bytes (map ssid_tlv (used_names us))) \<Longrightarrow>
   add_ssids us k f (at_end N pre) = None"
proof (induction us arbitrary: k f pre)
  case (Cons x us)
  have x: "ssid_ok x" using Cons.prems by simp
  have g: "mem_get (u_ssid x) 0 = Some (u_ssid x ! 0)" using x by (simp add: ssid_ok_def mem_get_def)
  have ne: "\<not> (u_ssid x ! 0 = 0 \<and> u_maxLen x = 0)" using Cons.prems(2,3) by (auto simp: used_names_def)
  then have un: "used_names (x # us) = x # used_names us" by (simp add: used_names_def)
  let ?b = "u_maxLen x # name_bytes x @ [0]" and ?pre = "pre @ tlv_bytes (ssid_tlv x)"
  have step: "add_ssids (x # us) k f (at_end N pre) = do { c \<leftarrow> put_tlv TLV_TYPE_WILDCARDSSID ?b (at_end N pre); add_ssids us (k + 1) f c }"
    using ne g name_props(2,3) [OF x] ssid_len_u16 [OF x] by (auto simp: Let_def)
  show ?case
  proof (cases "length ?pre \<le> N")
    case True
    then have "put_tlv TLV_TYPE_WILDCARDSSID ?b (at_end N pre) = Some (at_end N ?pre)"
      using put_tlv_pad [of pre ?b N] by (simp add: ssid_tlv_def)
    moreover have "add_ssids us (k + 1) f (at_end N ?pre) = None" using True Cons.prems un by (intro Cons.IH) simp_all
    ultimately show ?thesis using step by simp
  next
    case False
    then show ?thesis using step put_tlv_over [OF Cons.prems(2), of ?b] by (simp add: ssid_tlv_def)
  qed
qed (simp add: used_names_def)

text \<open>A request with names that take more than the block has, for example ten of the permitted 32 bytes, makes the driver write
  behind the block on its stack, before any command is sent.\<close>

theorem scan_names_overrun:
  assumes "user_ok u" and "TLV_ROOM < length (tlvs_bytes (map ssid_tlv (used_names (u_ssidList u))))"
  shows "wlan_scan_networks e (Some u) d = None"
proof -
  have "add_ssids (u_ssidList u) 0 True (at_end TLV_ROOM []) = None"
    using assms by (intro add_ssids_over) (simp_all add: user_ok_def)
  then show ?thesis by (simp add: wlan_scan_networks_def wlan_scan_setup_scan_config_def pad_def)
qed




section \<open>Forgetting a network\<close>

lemma find_name:
  assumes "\<forall>i \<in> set is. i < length tab \<and> length (Ssid (tab ! i)) = 32 \<and> unat (SsidLength (tab ! i)) \<le> 32" and "length b = 32" and "unat len \<le> 32"
    and "name = take (unat len) b" and "fst nb < 0 \<longrightarrow> snd nb = 0" and "0 \<le> fst nb \<longrightarrow> net_name (tab ! nat (fst nb)) = name"
  shows "\<exists>net. find_ssid_loop c tab (len, b) None Wlan802_11AutoUnknown is nb = Some net \<and>
    (net < 0 \<and> fst nb < 0 \<and> (\<forall>i \<in> set is. net_name (tab ! i) \<noteq> name) \<or>
     0 \<le> net \<and> (net = fst nb \<or> nat net \<in> set is) \<and> net_name (tab ! nat net) = name)"
  using assms
proof (induction "is" arbitrary: nb)
  case (Cons i "is")
  let ?d = "tab ! i"
  have i: "i < length tab" "length (Ssid ?d) = 32" "unat (SsidLength ?d) \<le> 32" using Cons.prems(1) by simp_all
  have s: "SSIDcmp ?d (len, b) = Some (net_name ?d = name)" using SSIDcmp_eq [OF i(2,3) Cons.prems(3,2)] Cons.prems(4) by simp
  define nb' where "nb' = (if net_name ?d = name \<and> SCAN_RSSI (Rssi ?d) > unat (snd nb) then (int i, of_nat (SCAN_RSSI (Rssi ?d))) else nb)"
  have run: "find_ssid_loop c tab (len, b) None Wlan802_11AutoUnknown (i # is) nb = find_ssid_loop c tab (len, b) None Wlan802_11AutoUnknown is nb'"
    using i(1) s by (cases nb) (simp add: mem_get_def find_ssid_entry_def nb'_def Let_def)
  have r: "0 < SCAN_RSSI (Rssi ?d)" using unat_u8_less [of "ucast (Rssi ?d)"] by (simp add: SCAN_RSSI_def)
  have nb': "fst nb' < 0 \<longrightarrow> snd nb' = 0 \<and> fst nb < 0 \<and> net_name ?d \<noteq> name" "0 \<le> fst nb' \<longrightarrow> net_name (tab ! nat (fst nb')) = name \<and> (fst nb' = fst nb \<or> fst nb' = int i)"
    using Cons.prems(5,6) r by (auto simp: nb'_def)
  then obtain net where "find_ssid_loop c tab (len, b) None Wlan802_11AutoUnknown is nb' = Some net"
    "net < 0 \<and> fst nb' < 0 \<and> (\<forall>i \<in> set is. net_name (tab ! i) \<noteq> name) \<or> 0 \<le> net \<and> (net = fst nb' \<or> nat net \<in> set is) \<and> net_name (tab ! nat net) = name"
    using Cons.IH [of nb'] Cons.prems(1-4) by auto
  with run nb' show ?case by fastforce
qed (use assms in auto)

definition channel_allowed :: "adapter_11d \<Rightarrow> BSSDescriptor \<Rightarrow> bool" where
  "channel_allowed a d \<longleftrightarrow> (\<exists>x. find_cfp_by_band_and_channel a 0 (ucast (bss_Channel d)) = Some (Some x))"

text \<open>The entries of the table with their beacons.\<close>

definition view :: "scan_dev \<Rightarrow> (BSSDescriptor \<times> u8 list option) list" where
  "view s = map (\<lambda>i. ((ScanTable s ! i)\<lparr>pBeaconBuf := Null\<rparr>, stored s (ScanTable s ! i))) [0..<NumInScanTable s]"

text \<open>A table whose beacons lie in the buffer in the order of their entries, with names that fit.\<close>

definition forget_ok :: "scan_dev \<Rightarrow> bool" where
  "forget_ok s \<longleftrightarrow> bcn_ok (NumInScanTable s) s \<and> in_order (NumInScanTable s) s \<and> (\<forall>(d, b) \<in> set (view s). length (Ssid d) = 32 \<and> unat (SsidLength d) \<le> 32)"

lemma delete_view:
  assumes "bcn_ok (NumInScanTable s) s" and "in_order (NumInScanTable s) s" and "idx < NumInScanTable s"
  shows "\<exists>t. wlan_scan_delete_table_entry idx s = Some t \<and> bcn_ok (NumInScanTable t) t \<and> in_order (NumInScanTable t) t \<and>
    view t = take idx (view s) @ drop (Suc idx) (view s) \<and> NumInScanTable t = NumInScanTable s - 1"
proof -
  let ?n = "NumInScanTable s"
  obtain t where t: "wlan_scan_delete_table_entry idx s = Some t" "NumInScanTable t = ?n - 1" "bcn_ok (?n - 1) t" "in_order (?n - 1) t"
    "\<forall>j < ?n - 1. ScanTable t ! j = (ScanTable s ! undel idx j)\<lparr>pBeaconBuf := pBeaconBuf (ScanTable t ! j)\<rparr> \<and>
       stored t (ScanTable t ! j) = stored s (ScanTable s ! undel idx j)"
    using delete_ok [OF assms(1,2) refl assms(3)] by blast
  have l: "length (view s) = ?n" "length (view t) = ?n - 1" using t(2) by (simp_all add: view_def)
  have "view t = take idx (view s) @ drop (Suc idx) (view s)"
  proof (rule nth_equalityI)
    fix j assume "j < length (view t)"
    then have j: "j < ?n - 1" "undel idx j < ?n" using l undel_props(2) [OF assms(3)] by simp_all
    have "view t ! j = ((ScanTable t ! j)\<lparr>pBeaconBuf := Null\<rparr>, stored t (ScanTable t ! j))" using j(1) t(2) by (simp add: view_def)
    also have "\<dots> = view s ! undel idx j"
    proof -
      have "(ScanTable t ! j)\<lparr>pBeaconBuf := Null\<rparr> = ((ScanTable s ! undel idx j)\<lparr>pBeaconBuf := pBeaconBuf (ScanTable t ! j)\<rparr>)\<lparr>pBeaconBuf := Null\<rparr>"
        using t(5) j(1) by metis
      then have "(ScanTable t ! j)\<lparr>pBeaconBuf := Null\<rparr> = (ScanTable s ! undel idx j)\<lparr>pBeaconBuf := Null\<rparr>" by simp
      moreover have "stored t (ScanTable t ! j) = stored s (ScanTable s ! undel idx j)" using t(5) j(1) by blast
      ultimately show ?thesis using j(2) by (simp add: view_def)
    qed
    finally show "view t ! j = (take idx (view s) @ drop (Suc idx) (view s)) ! j"
      using j assms(3) l by (simp add: nth_append undel_def)
  qed (use l assms(3) in simp)
  then show ?thesis using t by auto
qed

text \<open>The search of the loop: an entry with the name on an allowed channel, or the loop ends.\<close>

lemma view_nth: "i < NumInScanTable s \<Longrightarrow> view s ! i = ((ScanTable s ! i)\<lparr>pBeaconBuf := Null\<rparr>, stored s (ScanTable s ! i))" "length (view s) = NumInScanTable s"
  by (simp_all add: view_def)

lemma name_no_buf [simp]: "net_name (d\<lparr>pBeaconBuf := p\<rparr>) = net_name d" "channel_allowed a (d\<lparr>pBeaconBuf := p\<rparr>) = channel_allowed a d"
  by (simp_all add: net_name_def channel_allowed_def)

lemma find_forget:
  assumes "forget_ok s" and "cfp_ok a" and "length b = 32" and "unat len \<le> 32" and "name = take (unat len) b"
  shows "\<exists>i. FindSSIDInList c a s (len, b) None Wlan802_11AutoUnknown = Some i \<and>
    (i < 0 \<and> ((\<forall>(d, x) \<in> set (view s). net_name d \<noteq> name) \<or> (\<exists>(d, x) \<in> set (view s). net_name d = name \<and> \<not> channel_allowed a d)) \<or>
     0 \<le> i \<and> nat i < NumInScanTable s \<and> net_name (fst (view s ! nat i)) = name \<and> channel_allowed a (fst (view s ! nat i)))"
proof -
  let ?n = "NumInScanTable s" and ?tab = "ScanTable s"
  have sz: "\<And>i. i < ?n \<Longrightarrow> length (Ssid (?tab ! i)) = 32 \<and> unat (SsidLength (?tab ! i)) \<le> 32" and len: "?n \<le> length ?tab"
    using assms(1) by (auto simp: forget_ok_def view_def bcn_ok_def MRVDRV_MAX_BSSID_LIST_def)
  obtain net where net: "find_ssid_loop c ?tab (len, b) None Wlan802_11AutoUnknown [0..<?n] (- ENETUNREACH, 0) = Some net"
    "net < 0 \<and> (\<forall>i < ?n. net_name (?tab ! i) \<noteq> name) \<or> 0 \<le> net \<and> nat net < ?n \<and> net_name (?tab ! nat net) = name"
    using find_name [of "[0..<?n]" ?tab b len name "(- ENETUNREACH, 0)" c] sz len assms(3-5) by (auto simp: ENETUNREACH_def)
  show ?thesis
  proof (cases "net < 0")
    case True
    then have "\<forall>(d, x) \<in> set (view s). net_name d \<noteq> name" using net(2) by (auto simp: view_def)
    then show ?thesis using True net(1) by (simp add: FindSSIDInList_def check_channel_def)
  next
    case False
    let ?e = "view s ! nat net"
    obtain r where r: "find_cfp_by_band_and_channel a 0 (ucast (bss_Channel (?tab ! nat net))) = Some r" using find_cfp_total [OF assms(2)] by blast
    have m: "nat net < ?n" "net_name (?tab ! nat net) = name" using net(2) False by auto
    have e: "?e \<in> set (view s)" "net_name (fst ?e) = name" "channel_allowed a (fst ?e) = (r \<noteq> None)"
      using m r by (simp_all add: view_nth channel_allowed_def) (metis m(1) nth_mem view_nth(1,2))
    have "FindSSIDInList c a s (len, b) None Wlan802_11AutoUnknown = Some (if r = None then - ENETUNREACH else net)"
      using net False r len by (simp add: FindSSIDInList_def check_channel_def mem_get_def)
    then show ?thesis using e net(2) False by (cases r) (auto simp: ENETUNREACH_def split_def)
  qed
qed

lemma delete_ssid_run:
  assumes "forget_ok s" and "cfp_ok a" and "length b = 32" and "unat len \<le> 32" and "name = take (unat len) b"
  shows "\<exists>t. wlan_scan_delete_ssid_table_entry c a (len, b) retval s = Some (if length (view t) < length (view s) then 0 else retval, t) \<and>
    length (view t) \<le> length (view s) \<and> set (view t) \<subseteq> set (view s) \<and> filter (\<lambda>(d, x). net_name d \<noteq> name) (view t) = filter (\<lambda>(d, x). net_name d \<noteq> name) (view s) \<and>
    ((\<forall>(d, x) \<in> set (view t). net_name d \<noteq> name) \<or> (\<exists>(d, x) \<in> set (view t). net_name d = name \<and> \<not> channel_allowed a d))"
  using assms
proof (induction "NumInScanTable s" arbitrary: s retval rule: less_induct)
  case less
  let ?n = "NumInScanTable s" and ?P = "\<lambda>(d, x). net_name d \<noteq> name"
  obtain net where f: "FindSSIDInList c a s (len, b) None Wlan802_11AutoUnknown = Some net"
    "net < 0 \<and> ((\<forall>(d, x) \<in> set (view s). net_name d \<noteq> name) \<or> (\<exists>(d, x) \<in> set (view s). net_name d = name \<and> \<not> channel_allowed a d)) \<or>
     0 \<le> net \<and> nat net < ?n \<and> net_name (fst (view s ! nat net)) = name"
    using find_forget [OF less.prems, of c] by blast
  show ?case
  proof (cases "net < 0")
    case True
    then have "wlan_scan_delete_ssid_table_entry c a (len, b) retval s = Some (retval, s)"
      using f(1) by (subst wlan_scan_delete_ssid_table_entry.simps) simp
    then show ?thesis using f(2) True by auto
  next
    case False
    let ?i = "nat net"
    have i: "?i < ?n" "\<not> ?P (view s ! ?i)" using f(2) False by (auto simp: split_def)
    obtain t where t: "wlan_scan_delete_table_entry ?i s = Some t" "bcn_ok (NumInScanTable t) t" "in_order (NumInScanTable t) t"
      "view t = take ?i (view s) @ drop (Suc ?i) (view s)" "NumInScanTable t = ?n - 1"
      using delete_view [OF _ _ i(1)] less.prems(1) unfolding forget_ok_def by blast
    have run: "wlan_scan_delete_ssid_table_entry c a (len, b) retval s = wlan_scan_delete_ssid_table_entry c a (len, b) 0 t"
      using False f(1) t(1) by (subst wlan_scan_delete_ssid_table_entry.simps) simp
    have sub: "set (view t) \<subseteq> set (view s)" unfolding t(4) by (auto dest: in_set_takeD in_set_dropD)
    then have ft: "forget_ok t" using t(2,3) less.prems(1) by (auto simp: forget_ok_def)
    have vs: "view s = take ?i (view s) @ view s ! ?i # drop (Suc ?i) (view s)" using i(1) by (simp add: id_take_nth_drop view_nth(2))
    have flt: "filter ?P (view s) = filter ?P (view t)" unfolding t(4) by (subst vs) (simp add: i(2))
    have lt: "length (view t) < length (view s)" "NumInScanTable t < ?n" using t(5) i(1) by (simp_all add: view_nth(2))
    obtain u where "wlan_scan_delete_ssid_table_entry c a (len, b) 0 t = Some (0, u)" "length (view u) \<le> length (view t)" "set (view u) \<subseteq> set (view t)"
      "filter ?P (view u) = filter ?P (view t)" "(\<forall>(d, x) \<in> set (view u). net_name d \<noteq> name) \<or> (\<exists>(d, x) \<in> set (view u). net_name d = name \<and> \<not> channel_allowed a d)"
      using less.hyps [OF lt(2) ft less.prems(2-5), of 0] by (elim exE conjE) (simp only: if_cancel)
    then show ?thesis using run sub flt lt(1) by (intro exI [of _ u] conjI) simp_all
  qed
qed

text \<open>C40. Before a network is searched by its name, its entries are forgotten. For a table whose beacons lie in the buffer in
  the order of their entries (with another order the deletion damages beacons, \<open>delete_out_of_order\<close>): the loop ends; it only removes entries with the name, keeps all others in
  their order with their beacons, and says whether it removed one. If every entry with the name is on a
  channel that the regulatory tables allow, none is left. Otherwise entries may be left, for the search that finds the entry to
  delete fails on a channel that is not allowed, and the loop stops there; an entry is left only together with such a one.\<close>

theorem delete_ssid_forgets:
  assumes "forget_ok s" and "cfp_ok a" and "length b = 32" and "unat len \<le> 32" and "name = take (unat len) b"
  shows "\<exists>t. wlan_scan_delete_ssid_table_entry c a (len, b) (- 1) s = Some (if length (view t) < length (view s) then 0 else - 1, t) \<and>
    set (view t) \<subseteq> set (view s) \<and> filter (\<lambda>(d, x). net_name d \<noteq> name) (view t) = filter (\<lambda>(d, x). net_name d \<noteq> name) (view s) \<and>
    ((\<forall>(d, x) \<in> set (view s). net_name d = name \<longrightarrow> channel_allowed a d) \<longrightarrow> view t = filter (\<lambda>(d, x). net_name d \<noteq> name) (view s)) \<and>
    ((\<exists>(d, x) \<in> set (view t). net_name d = name) \<longrightarrow> (\<exists>(d, x) \<in> set (view t). net_name d = name \<and> \<not> channel_allowed a d))"
proof -
  let ?P = "\<lambda>(d, x). net_name d \<noteq> name"
  obtain t where t: "wlan_scan_delete_ssid_table_entry c a (len, b) (- 1) s = Some (if length (view t) < length (view s) then 0 else - 1, t)"
    "set (view t) \<subseteq> set (view s)" "filter ?P (view t) = filter ?P (view s)"
    "(\<forall>(d, x) \<in> set (view t). net_name d \<noteq> name) \<or> (\<exists>(d, x) \<in> set (view t). net_name d = name \<and> \<not> channel_allowed a d)"
    using delete_ssid_run [OF assms] by blast
  have "view t = filter ?P (view s)" if "\<forall>(d, x) \<in> set (view s). net_name d = name \<longrightarrow> channel_allowed a d"
  proof -
    have "\<forall>y \<in> set (view t). ?P y" using that t(2,4) by auto
    then have "filter ?P (view t) = view t" by (simp add: filter_id_conv)
    with t(3) show ?thesis by simp
  qed
  with t show ?thesis by (intro exI [of _ t]) auto
qed

text \<open>If all the entries with the name are on channels that are not allowed, nothing is deleted.\<close>

theorem delete_ssid_stops:
  assumes "forget_ok s" and "cfp_ok a" and "length b = 32" and "unat len \<le> 32"
    and "\<forall>(d, x) \<in> set (view s). net_name d = take (unat len) b \<longrightarrow> \<not> channel_allowed a d"
  shows "wlan_scan_delete_ssid_table_entry c a (len, b) (- 1) s = Some (- 1, s)"
proof -
  obtain i where i: "FindSSIDInList c a s (len, b) None Wlan802_11AutoUnknown = Some i"
    "i < 0 \<or> 0 \<le> i \<and> nat i < NumInScanTable s \<and> net_name (fst (view s ! nat i)) = take (unat len) b \<and> channel_allowed a (fst (view s ! nat i))"
    using find_forget [OF assms(1-4) refl, of c] by blast
  have "i < 0" using i(2) assms(5) nth_mem [of "nat i" "view s"] by (fastforce simp: view_nth(2))
  then show ?thesis using i(1) by (subst wlan_scan_delete_ssid_table_entry.simps) simp
qed

section \<open>Examples of scans\<close>

definition sample_scandev :: scandev where
  "sample_scandev = \<lparr>sd = sample_join, ScanMode = 3, ScanProbes = 2, bgScan_Enable = False, watchdog_timeo = 0, scan_cmds = [], scan_events = 0, SurpriseRemoved = False\<rparr>"

definition sample_chan :: "u8 \<Rightarrow> user_scan_chan" where
  "sample_chan n = \<lparr>u_chanNumber = n, u_radioType = 0, u_scanType = 0, u_scanTime = 100\<rparr>"

text \<open>The channels 1, 2 and 3, without a name.\<close>

definition sample_request :: user_scan_cfg where
  "sample_request = zero_user_cfg\<lparr>u_chanList := map sample_chan [1, 2, 3] @ replicate 47 (sample_chan 0)\<rparr>"

definition sample_found :: "nat \<Rightarrow> beacon list" where
  "sample_found i = (if i = 1 then [sample_beacon] else [])"

definition sample_scan_env :: scan_env where
  "sample_scan_env = \<lparr>se_buf = (\<lambda>i. Some zero_cmd), se_answer = (\<lambda>i. Some (scan_response (sample_found i), of_nat (8 + length (scan_response (sample_found i))))),
     se_ret = (\<lambda>i. 0), se_bg_off = True, se_bg_on = True\<rparr>"

definition sample_entries :: "ChanScanParamSet list" where
  "sample_entries = map (\<lambda>n. \<lparr>RadioType = 0, ChanNumber = n, PassiveScan = False, DisableChanFilt = False, MinScanTime = 100, MaxScanTime = 100\<rparr>) [1, 2, 3]"

lemma sample_unfiltered: "filtered (Some sample_request) = False" "keeps (Some sample_request) = False"
  by (simp_all add: filtered_def sample_request_def zero_user_cfg_def used_names_def MRVDRV_MAX_SSID_LIST_LENGTH_def numeral_eq_Suc keeps_def)

lemma replicate_47: "replicate 47 x = x # replicate 46 x"
  by (simp add: numeral_eq_Suc)

lemma sample_list: "takeWhile (\<lambda>u. u_chanNumber u \<noteq> 0) (take 50 (u_chanList sample_request)) = map sample_chan [1, 2, 3]"
  by (simp add: sample_request_def replicate_47 sample_chan_def)

lemma sample_channels: "scan_channels (Some sample_request) False sample_join = Some (j_11d sample_join, sample_entries, False)"
proof -
  have "mem_get (u_chanList sample_request) 0 = Some (sample_chan 1)" by (simp add: sample_request_def mem_get_def)
  moreover have "user_channels (j_11d sample_join) False (u_chanList sample_request) = sample_entries"
    unfolding user_channels_def WLAN_IOCTL_USER_SCAN_CHAN_MAX_def sample_list
    by (simp add: user_channel_def sample_chan_def sample_entries_def HostCmd_SCAN_TYPE_PASSIVE_def)
  ultimately show ?thesis by (simp add: scan_channels_def sample_chan_def Let_def) (simp add: sample_entries_def)
qed

lemma group_len_14: "group_len f 14 [] = 0" "group_len f 14 [c] = 1"
  "group_len f 14 (c # c' # cs) = (if \<not> f \<and> (busy_chan c \<or> busy_chan c') then 1 else Suc (group_len f 13 (c' # cs)))" "group_len f 13 [c] = 1"
  using group_len.simps(3) [of f 13 c] group_len.simps(3) [of f 12 c] group_len.simps(2) [of f] by (simp_all add: numeral_eq_Suc)

lemma sample_groups: "groups False sample_entries = [take 1 sample_entries, drop 1 sample_entries]"
  by (simp add: groups.simps sample_entries_def group_len_14 busy_chan_def)

lemma sample_cfp_ok: "cfp_ok (j_11d sample_join)"
proof -
  have t: "wlan_get_region_cfp_table 0x31 0 = Some channel_freq_power_SPN_BG" by (simp add: wlan_get_region_cfp_table_def region_cfp_table_def)
  have z: "zero_region_channels = [zero_region_channel, zero_region_channel]"
    by (simp add: zero_region_channels_def MAX_REGION_CHANNEL_NUM_def numeral_2_eq_2)
  show ?thesis
    by (auto simp: cfp_ok_def sample_join_def sample_adapter_def wlan_set_regiontable_def wlan_set_universaltable_def t z channel_freq_power_SPN_BG_def
        channel_freq_power_UN_BG_def zero_region_channel_def)
qed

lemma sample_request_fits: "scan_fits (Some sample_request) sample_scandev"
  by (simp add: scan_fits_def user_ok_def sample_request_def zero_user_cfg_def ssid_ok_def list_all_iff MRVDRV_MAX_SSID_LIST_LENGTH_def sample_scandev_def sample_join_def
      scan_tlvs_def name_tlvs_def used_names_def probes_def wps_tlvs_def TLV_ROOM_def MAX_SCAN_CFG_ALLOC_def MRVDRV_MAX_CHANNELS_PER_SCAN_def numeral_eq_Suc)

lemma sample_scan_possible: "scan_possible (Some sample_request) sample_scandev (j_11d sample_join) sample_entries False"
proof -
  have "scan_ready sample_scandev" by (simp add: scan_ready_def sample_scandev_def sample_join_def sample_table_def sample_open_def zero_bss_def WLAN_MAX_SSID_LENGTH_def)
  moreover have "\<forall>g \<in> set (groups False sample_entries). scan_time g \<le> 9000" unfolding sample_groups by (simp add: scan_time_def sample_entries_def)
  ultimately show ?thesis
    using sample_request_fits sample_cfp_ok sample_channels
    by (simp add: scan_possible_def sample_unfiltered sample_scandev_def) (simp add: sample_entries_def real_chans_def)
qed

lemma sample_starts: "starts_with (Some sample_request) sample_scandev []"
  by (simp add: starts_with_def sample_unfiltered)

lemma sample_answers: "answers sample_scan_env sample_found 0 (length (groups (filtered (Some sample_request)) sample_entries)) []"
proof -
  have "length (scan_response (sample_found i)) < 65528" for i
    by (simp add: sample_found_def scan_response_def le16_of_def beacon_bytes_def sample_beacon_def beacon_body_def elem_bytes_def)
  then show ?thesis
    by (simp add: answers_def sample_unfiltered sample_groups sample_scan_env_def zero_cmd_def MRVDRV_SIZE_OF_CMD_BUFFER_def)
      (simp add: sample_found_def sample_beacon_wf)
qed

theorem scan_splits_channels_witness:
  "\<exists>r d' cmds. wlan_scan_networks sample_scan_env (Some sample_request) sample_scandev = Some (r, d') \<and> scan_cmds d' = cmds \<and>
     (\<exists>gs. map cmd_elems cmds = map (\<lambda>g. Some (scan_tlvs (Some sample_request) sample_scandev @ [(TLV_TYPE_CHANLIST, concat (map chan_bytes g))])) gs \<and>
        concat gs = sample_entries)"
proof -
  have "scan_cmds sample_scandev = []" by (simp add: sample_scandev_def)
  then show ?thesis using scan_splits_channels [OF sample_scan_possible sample_starts sample_answers] by fastforce
qed

theorem scan_collects_witness:
  "\<exists>r d'. wlan_scan_networks sample_scan_env (Some sample_request) sample_scandev = Some (r, d') \<and> NumInScanTable (j_scan (sd d')) = 1 \<and>
     stored (j_scan (sd d')) (ScanTable (j_scan (sd d')) ! 0) = Some (beacon_body sample_beacon)"
proof -
  have a: "[sample_beacon] = [] @ concat (map sample_found [0..<length (groups (filtered (Some sample_request)) sample_entries)])"
    by (simp add: sample_unfiltered sample_groups sample_found_def)
  have "room [sample_beacon] < 6000" by (simp add: room_def beacon_body_def sample_beacon_def le16_of_def elem_bytes_def)
  then show ?thesis using scan_collects [OF sample_scan_possible sample_starts sample_answers a] by auto
qed

text \<open>Ten names of 32 bytes.\<close>

definition sample_names :: user_scan_cfg where
  "sample_names = zero_user_cfg\<lparr>u_ssidList := replicate 10 \<lparr>u_ssid = replicate 32 65 @ [0], u_maxLen = 0\<rparr>\<rparr>"

theorem scan_names_overrun_witness: "wlan_scan_networks sample_scan_env (Some sample_names) sample_scandev = None"
proof -
  let ?n = "\<lparr>u_ssid = replicate 32 65 @ [0], u_maxLen = 0\<rparr> :: user_scan_ssid"
  have u: "used_names (replicate 10 ?n) = replicate 10 ?n" by (simp add: used_names_def takeWhile_eq_all_conv nth_append)
  have "takeWhile (\<lambda>b. b \<noteq> 0) (replicate 32 65 @ [0 :: u8]) = replicate 32 65" by (subst takeWhile_append2) simp_all
  then have b: "length (tlv_bytes (ssid_tlv ?n)) = 38" by (simp add: ssid_tlv_def name_bytes_def)
  have "length (tlvs_bytes (replicate k t)) = k * length (tlv_bytes t)" for k t by (induction k) simp_all
  then have "TLV_ROOM < length (tlvs_bytes (map ssid_tlv (used_names (u_ssidList sample_names))))"
    using b by (simp add: sample_names_def u TLV_ROOM_def MAX_SCAN_CFG_ALLOC_def MRVDRV_MAX_CHANNELS_PER_SCAN_def)
  moreover have "user_ok sample_names" by (simp add: user_ok_def sample_names_def zero_user_cfg_def ssid_ok_def list_all_iff WLAN_IOCTL_USER_SCAN_CHAN_MAX_def)
  ultimately show ?thesis by (intro scan_names_overrun)
qed


definition sample_forget :: scan_dev where
  "sample_forget = sample_table\<lparr>ScanTable := sample_ap\<lparr>bss_Channel := 6\<rparr> # replicate 63 zero_bss\<rparr>"

definition sample_allowed :: adapter_11d where
  "sample_allowed = (j_11d sample_join)\<lparr>Enable11D := False, region_channel := [\<lparr>Valid = True, Region = 0x10, Band = 0, NrCFP = 1, CFP = Some [cfp 6 2437 20]\<rparr>]\<rparr>"

theorem delete_ssid_forgets_witness:
  "\<exists>t. wlan_scan_delete_ssid_table_entry sample_open sample_allowed (1, 65 # replicate 31 0) (- 1) sample_forget = Some (0, t) \<and> NumInScanTable t = 0"
proof -
  have v: "view sample_forget = [((sample_ap\<lparr>bss_Channel := 6\<rparr>)\<lparr>pBeaconBuf := Null\<rparr>, stored sample_forget (sample_ap\<lparr>bss_Channel := 6\<rparr>))]"
    by (simp add: view_def sample_forget_def sample_table_def)
  have n: "net_name ((sample_ap\<lparr>bss_Channel := 6\<rparr>)\<lparr>pBeaconBuf := Null\<rparr>) = take (unat (1 :: u32)) (65 # replicate 31 0)"
    by (simp add: net_name_def sample_ap_def)
  have "channel_allowed sample_allowed ((sample_ap\<lparr>bss_Channel := 6\<rparr>)\<lparr>pBeaconBuf := Null\<rparr>)"
    by (simp add: channel_allowed_def find_cfp_by_band_and_channel_def sample_allowed_def cfp_def mem_get_def FIRST_VALID_CHANNEL_def)
  then have al: "\<forall>(d, x) \<in> set (view sample_forget). net_name d = take (unat (1 :: u32)) (65 # replicate 31 0) \<longrightarrow> channel_allowed sample_allowed d"
    unfolding v by simp
  have f: "forget_ok sample_forget" unfolding forget_ok_def v
    by (simp add: sample_forget_def sample_table_def bcn_ok_def in_order_def sample_ap_def zero_bss_def entry_ok_def MRVDRV_MAX_BSSID_LIST_def MAX_SCAN_BEACON_BUFFER_def)
  have c: "cfp_ok sample_allowed" using sample_cfp_ok by (auto simp: cfp_ok_def sample_allowed_def)
  obtain t where t: "wlan_scan_delete_ssid_table_entry sample_open sample_allowed (1, 65 # replicate 31 0) (- 1) sample_forget = Some (if length (view t) < length (view sample_forget) then 0 else - 1, t)"
    "view t = filter (\<lambda>(d, x). net_name d \<noteq> take (unat (1 :: u32)) (65 # replicate 31 0)) (view sample_forget)"
    using delete_ssid_forgets [OF f c, of "65 # replicate 31 0" 1 _ sample_open] al by auto
  then have t: "wlan_scan_delete_ssid_table_entry sample_open sample_allowed (1, 65 # replicate 31 0) (- 1) sample_forget = Some (0, t)" "view t = []"
    using n unfolding v by simp_all
  have "NumInScanTable t = 0" using t(2) by (simp add: view_def)
  with t(1) show ?thesis by blast
qed

end
