(* ===== verification/Spec2Isabelle.thy ===== *)
theory Spec2Isabelle
  imports Crc32_Spec FwEnv FwFlash Monitor S3cGpio JiveInput JiveWheel JiveMatrix JiveIrtx JiveMgmt
    Wlan11d WlanTx WlanStatus WlanRx WlanScan WlanPower WlanScanRun
begin

text \<open>
  SqueezeOS, the firmware of the Squeezebox Controller: a model of the code that was written for the device, and its
  properties.

  \<^bold>\<open>The program.\<close> The repository builds an embedded Linux system. Most of it is third-party code: the
  kernel of \<^verbatim>\<open>src/src/s3c2412\<close>, boot loaders, and the recipes under \<^verbatim>\<open>src/poky\<close>. The
  device's own logic is in three places, and these are modelled:

  \<^item> small programs that the image installs, under \<^verbatim>\<open>src/poky/meta-squeezeos/packages\<close>: the tools
    that read and write the environment of the boot loader in flash (\<^verbatim>\<open>uboot-tools\<close>, which the firmware
    update uses) and the monitor of the power controller (\<^verbatim>\<open>monitor-hardware\<close>);
  \<^item> the drivers of the remote control, \<^verbatim>\<open>drivers/char/jive\<close> in the kernel tree: scroll wheel, key
    matrix, infrared transmitter and board management, on top of the pin functions of the S3C24xx;
  \<^item> the driver of the wireless card, \<^verbatim>\<open>src/src/marvell_SD8686_v9\<close>.

  \<^bold>\<open>Conventions.\<close> C integers are words of their width (\<open>u8\<close>, \<open>u16\<close>, \<open>u32\<close>), a
  signed result that only carries an error code is an \<open>int\<close>, and lengths that cannot overflow are \<open>nat\<close>. An
  array or a heap block is a list; reading or writing outside it is \<^term>\<open>None\<close> (\<open>mem_get\<close>,
  \<open>mem_put\<close>, \<open>mem_sub\<close>, \<open>mem_copy\<close>), so that a theorem that a function returns
  a value also says that it stays within its memory. Structures are records, enumerations datatypes, and functions
  pass their state explicitly. Loops are structural recursion or functions with a termination proof; there is no
  fuel. What is outside of the source is an argument: results of kernel services and system calls, levels of
  pins, the bus and the card, samples of the converter. Statements about such arguments are hypotheses of
  the theorems, for example that the bus delivers whole blocks (\<open>irq_ok\<close>).

  \<^bold>\<open>Theories.\<close>

  \<^item> \<open>Prelude\<close>: word types, bounded memory, little-endian encodings, the read-modify-write idiom, and the
    locale \<open>kept\<close> of state machines with an invariant, interpreted for the transmit path, the board
    management driver and the command path.
  \<^item> \<open>Crc32\<close>, \<open>Crc32_Spec\<close>: \<^verbatim>\<open>crc32.c\<close> with its table and unrolled loop; it equals
    the bit-serial checksum and detects every change of a byte.
  \<^item> \<open>FwEnv\<close>: the environment block in memory, \<^verbatim>\<open>fw_env.c\<close>: searching, setting and deleting of
    variables. The locale \<open>named_store\<close> is the contract of a store of named values; its
    interpretation \<open>fw_store\<close> shows that the block implements it.
  \<^item> \<open>FwFlash\<close>: the two copies of the environment in flash, with system calls that may fail or transfer less, the
    choice of the valid copy, and the commands \<^verbatim>\<open>fw_printenv\<close> and \<^verbatim>\<open>fw_setenv\<close>. The locale
    \<open>two_copies\<close> and its interpretation \<open>fw_copies\<close> carry the argument for a power cut: at every
    moment one complete copy is readable.
  \<^item> \<open>Monitor\<close>: the loop of \<^verbatim>\<open>monitor_msp430.c\<close>, which gives up after 31 failures in a row.
  \<^item> \<open>S3cGpio\<close>: pins, their registers and interrupt triggers, \<^verbatim>\<open>plat-s3c24xx/gpio.c\<close>,
    \<^verbatim>\<open>mach-s3c2410/gpio.c\<close> and \<^verbatim>\<open>irq.c\<close>; the locale \<open>pin_port\<close>.
  \<^item> \<open>JiveInput\<close>, \<open>JiveWheel\<close>, \<open>JiveMatrix\<close>: the two input drivers. The locale
    \<open>scanner\<close> is their common life: asleep on an interrupt or scanning from a timer; both are
    interpretations, so neither ever becomes deaf. Turning, debouncing and setup are stated per driver; turning is counted for
    scans that each see a pulse, away from the wrap of the tick counter.
  \<^item> \<open>JiveIrtx\<close>: writes to the infrared transmitter, refined to a list of marks and spaces. The carrier is read from
    the timer with its prescaler and divider; the limits are those of one word and of a whole write.
  \<^item> \<open>JiveMgmt\<close>: battery, external power, dock, headphone, brightness and their interrupts.
  \<^item> \<open>WlanRegion\<close>, \<open>Wlan11d\<close>: channel tables and regulatory domains: a country element of an access
    point is parsed, turned into a domain table, sent to the firmware and used for the channel list that the driver makes
    for a scan. A list of channels by an application is not checked against it.
  \<^item> \<open>WlanWmm\<close>, \<open>WlanStatus\<close>: the four transmit queues, their priorities (locale
    \<open>sort_order\<close>), the downgrading of categories and the queue report of the firmware.
  \<^item> \<open>WlanTx\<close>: a packet on its way to the card, with the retries of the bus.
  \<^item> \<open>WlanRx\<close>: received frames, signal averages (locale \<open>moving_window\<close>) and threshold
    events.
  \<^item> \<open>WlanBss\<close>, \<open>WlanBeacon\<close>, \<open>WlanScan\<close>: the description of a network, the buffer of raw
    beacons, refined to a list of entries, the response to a scan and the searches of the table (locale
    \<open>strongest_search\<close>, interpreted for the search by name and for the best network). The security check is compared
    with the table in its comment (\<open>compat_table\<close>); static WEP accepts more than that table
    (\<open>static_wep_beyond_table\<close>).
  \<^item> \<open>WlanTlv\<close>: the elements of firmware commands, how they are appended and read back; the locale \<open>listing\<close> of formats
    that can be read back, interpreted for elements and for channel lists.
  \<^item> \<open>WlanJoin\<close>, \<open>WlanJoinInv\<close>, \<open>WlanAssoc\<close>: association with an access point,
    \<^verbatim>\<open>wlan_join.c\<close>: the common rates, the association command, its response, the data path, and the elements
    that an application adds or reads. \<open>join_ok\<close> are the well-formed states and \<open>assoc_body\<close> is the
    command as a list of elements; each step has a lemma for both. The one way to leave an array is a network with 14
    rates, none of them zero, that lacks a rate of the card (\<open>rates_end\<close>, \<open>rates_run_out\<close>); the properties say it
    or exclude it by that hypothesis. What a refusal may change is \<open>refused_frame\<close>.
  \<^item> \<open>WlanScanCmd\<close>, \<open>WlanScanInv\<close>, \<open>WlanScanRun\<close>: scanning, \<^verbatim>\<open>wlan_scan_networks\<close> and what
    calls it: the configuration, the commands into which the channels are split (\<open>groups\<close>), the responses that
    fill the table, and the removal of a name from the table, which stops at an entry on a channel that is not allowed
    (\<open>delete_ssid_stops\<close>).
  \<^item> \<open>WlanCmd\<close>, \<open>WlanCmdInv\<close>: the ten command buffers, their queues, sending, responses,
    timeouts and the power states, \<^verbatim>\<open>wlan_cmd.c\<close> and \<^verbatim>\<open>wlan_cmdresp.c\<close>; the invariant and
    one lemma per operation.
  \<^item> \<open>WlanMain\<close>, \<open>WlanMainInv\<close>: the interrupt status, the events of the firmware, a round of
    the main loop and the commands of a user; again one lemma per operation.
  \<^item> \<open>WlanPower\<close>: the step relation of everything that can happen to the command path, and what holds in every
    state that can be reached. Every round writes at most one frame; that it returns is stated for responses that this part
    handles itself (\<open>reply_here\<close>), since a long reply to an application overruns the buffer
    (\<open>user_reply_overrun\<close>) and the handlers of other responses are not in this state.

  \<^bold>\<open>How the wireless parts interact.\<close> The record \<open>wlan\<close> of \<open>WlanWmm\<close> is part of the record
  \<open>txdev\<close> of \<open>WlanTx\<close>, which is part of \<open>cmddev\<close> of \<open>WlanCmd\<close>: a round of the main
  loop (\<open>main_round\<close>) reads the interrupt status, handles a response and an event, confirms a sleep request,
  sends the next command and then the next packet, all on this state. Each of these calls the definitions of
  the part below, and its lemma rests on theirs: \<open>main_tail_ok\<close> on \<open>execute_ok\<close> and
  \<open>main_tx_ok\<close>, and \<open>round_spec\<close> on \<open>response_ok\<close>, \<open>event_ok\<close> and
  \<open>main_tail_ok\<close>. An association (\<open>wlan_associate\<close>) works on the scan table, the regulatory domains, the queues and the
  receive averages together: the record \<open>joindev\<close> has the states of these parts, and its lemmas use theirs, for
  example that the download of a domain table succeeds. A scan (\<open>wlan_scan_networks\<close>) takes its channels from the
  regulatory domains, gives each response to the handler of \<open>WlanScan\<close>, and stops and starts the queues.

  \<^bold>\<open>What is shown.\<close> An attempt to associate keeps the states well-formed, whatever the card answers, except that it may leave
  the array of rates in the case named above. Invariants of reachable states: command buffers are conserved, the input drivers listen, detection
  pins stay interrupts, the transmit path never leaves its arrays. Refinement of specifications: environment,
  power cut, infrared signals, country elements, downgrading, averages, beacon storage. A scan asks for each channel once and leaves exactly
  what was reported. Round trips:
  \<^verbatim>\<open>fw_setenv\<close> and \<^verbatim>\<open>fw_printenv\<close>, domain tables, network descriptions, the association command. Flow control towards the
  card, and that a command gets through in power save if a command buffer is free. And where the code fails, the theorem states how:
  overruns by elements of an access point, a queue that starves, a result that is lost, a command that blocks
  the rest after timeouts.

  \<^bold>\<open>Bounds.\<close> The sizes are those of the source: ten command buffers of 2048 bytes, a transfer buffer of 2312, four
  queues and 14 channels. Three attempts of a transfer, 31 probes, six timeouts and 9 seconds for a scan command
  are the limits of the code. Interleavings are sequences of whole operations: a round of the main loop is taken in
  pieces only where its parts are stated separately.

  \<^bold>\<open>Not modelled.\<close> Ad-hoc networks, the choice of a network by name or address and the thread that reconnects
  (\<^verbatim>\<open>wlan_join.c\<close>, \<^verbatim>\<open>wlan_main.c\<close>); the initialisation and download of the firmware (\<^verbatim>\<open>wlan_fw.c\<close>), the ioctls of \<^verbatim>\<open>wlan_wext.c\<close> that copy values, the
  proc and debug files; registration with the SDIO core; the bodies of the commands that are not part of power
  management, which are an argument of \<open>PrepareAndSendCommand\<close>, and the responses to them where they are not in another part;
  the removal of the card; null pointers after a failed allocation of an input device; the register that is written between two
  attempts of a transfer; printing and debug counters; the reading of the
  configuration file of the environment tools. Locks are not modelled: an operation that holds one is a single step. The
  board file, sound, accelerometer and display drivers are tables of registers without logic. The kernel, the boot
  loaders and the build system are third-party code.
\<close>

end
